(* ===== verification/Prelude.thy ===== *)
theory Prelude
  imports Main "HOL-Library.Word"
begin

text \<open>
  Shared vocabulary of the development: the Go types the sources use, the byte encodings of
  encoding/binary and math/big, the third-party arithmetic helpers as a record of functions with
  their documented laws, and the lemmas on words, byte strings and sums that the component theories
  share.

  Conventions.
  \<^item> uint64 is \<open>64 word\<close>, so that its arithmetic wraps as Go's does; the \<open>int\<close> of Go is read from a
    64-bit word by \<open>sint\<close> where a conversion can wrap.
  \<^item> \<open>*big.Int\<close> is \<open>int option\<close> where the sources let it be nil and \<open>int\<close> where they do not.
  \<^item> common.Address, common.Hash and uint256.Int are words of 160, 256 and 256 bits: the value their
    bytes denote in big-endian order. BytesToHash on a 20-byte address is \<open>ucast\<close>, and so is
    BytesToAddress on a hash (both keep the low-order bytes).
  \<^item> an \<open>error\<close> result is an \<open>option\<close> whose \<open>None\<close> is nil; a function returning a value and an error
    returns a sum with the error on the left.
  \<^item> a function that can panic returns \<open>'a option\<close> with \<open>None\<close> for the panic.
\<close>

subsection \<open>Types\<close>

type_synonym byte = "8 word"
type_synonym u64 = "64 word"
type_synonym address = "160 word"
type_synonym hash = "256 word"
type_synonym u256 = "256 word"

abbreviation MaxUint64 :: u64 where
  "MaxUint64 \<equiv> 18446744073709551615"

subsection \<open>Third-party helpers\<close>

text \<open>
  Functions of go-ethereum's common, common/math and crypto packages that the sources call. They are not part
  of the repository: each definition that uses one takes the record as its argument, and \<open>geth_ok\<close>
  states the documented behaviour relied on.
\<close>

record geth =
  SafeAdd :: "u64 \<Rightarrow> u64 \<Rightarrow> u64 \<times> bool"
  SafeMul :: "u64 \<Rightarrow> u64 \<Rightarrow> u64 \<times> bool"
  BigMax :: "int \<Rightarrow> int \<Rightarrow> int"
  BigMin :: "int \<Rightarrow> int \<Rightarrow> int"
  Keccak256Hash :: "byte list \<Rightarrow> hash"
  PaddedBigBytes :: "int \<Rightarrow> nat \<Rightarrow> byte list"
  U256Bytes :: "int \<Rightarrow> byte list"
  LeftPadBytes :: "byte list \<Rightarrow> nat \<Rightarrow> byte list"
  RightPadBytes :: "byte list \<Rightarrow> nat \<Rightarrow> byte list"
  TrimRightZeroes :: "byte list \<Rightarrow> byte list"

fun be_nat :: "byte list \<Rightarrow> nat" where
  "be_nat [] = 0"
| "be_nat (b # bs) = unat b * 256 ^ length bs + be_nat bs"

fun be_bytes :: "nat \<Rightarrow> nat \<Rightarrow> byte list" where
  "be_bytes 0 n = []"
| "be_bytes (Suc k) n = be_bytes k (n div 256) @ [of_nat n]"

definition geth_ok :: "geth \<Rightarrow> bool" where
  "geth_ok G \<longleftrightarrow>
     (\<forall>x y. SafeAdd G x y = (x + y, 2 ^ 64 \<le> unat x + unat y)) \<and>
     (\<forall>x y. SafeMul G x y = (x * y, 2 ^ 64 \<le> unat x * unat y)) \<and>
     (\<forall>x y. BigMax G x y = max x y) \<and>
     (\<forall>x y. BigMin G x y = min x y) \<and>
     (\<forall>n k. 0 \<le> n \<longrightarrow> n < 256 ^ k \<longrightarrow> PaddedBigBytes G n k = be_bytes k (nat n)) \<and>
     (\<forall>n. U256Bytes G n = be_bytes 32 (nat (n mod 2 ^ 256))) \<and>
     (\<forall>bs n. LeftPadBytes G bs n = replicate (n - length bs) 0 @ bs) \<and>
     (\<forall>bs n. RightPadBytes G bs n = bs @ replicate (n - length bs) 0) \<and>
     (\<forall>bs. TrimRightZeroes G bs = rev (dropWhile (\<lambda>b. b = 0) (rev bs)))"

text \<open>An instance, for evaluation; its hash is a placeholder no lemma looks into.\<close>

definition geth_ref :: geth where
  "geth_ref =
     \<lparr>SafeAdd = (\<lambda>x y. (x + y, 2 ^ 64 \<le> unat x + unat y)),
      SafeMul = (\<lambda>x y. (x * y, 2 ^ 64 \<le> unat x * unat y)),
      BigMax = max, BigMin = min,
      Keccak256Hash = (\<lambda>bs. of_nat (length bs)),
      PaddedBigBytes = (\<lambda>n k. be_bytes k (nat n)),
      U256Bytes = (\<lambda>n. be_bytes 32 (nat (n mod 2 ^ 256))),
      LeftPadBytes = (\<lambda>bs n. replicate (n - length bs) 0 @ bs),
      RightPadBytes = (\<lambda>bs n. bs @ replicate (n - length bs) 0),
      TrimRightZeroes = (\<lambda>bs. rev (dropWhile (\<lambda>b. b = 0) (rev bs)))\<rparr>"

lemma case_optionE:
  assumes "(case x of None \<Rightarrow> a | Some y \<Rightarrow> f y) = b"
  obtains "x = None" "a = b" | y where "x = Some y" "f y = b"
  using assms by (cases x) auto

lemma if_Some_None: "(if b then Some e else x) = None \<longleftrightarrow> \<not> b \<and> x = None"
  by simp

lemma case_sum_Some_None:
  "(case x of Inl e \<Rightarrow> Some e | Inr m \<Rightarrow> f m) = None \<longleftrightarrow> (\<exists>m. x = Inr m \<and> f m = None)"
  by (cases x) auto

lemma geth_ok_ref [simp]: "geth_ok geth_ref"
  by (simp add: geth_ok_def geth_ref_def)

lemma geth_okD:
  assumes "geth_ok G"
  shows "SafeAdd G x y = (x + y, 2 ^ 64 \<le> unat x + unat y)"
    and "SafeMul G x y = (x * y, 2 ^ 64 \<le> unat x * unat y)"
    and "BigMax G a b = max a b"
    and "BigMin G a b = min a b"
    and "0 \<le> n \<Longrightarrow> n < 256 ^ k \<Longrightarrow> PaddedBigBytes G n k = be_bytes k (nat n)"
    and "U256Bytes G n = be_bytes 32 (nat (n mod 2 ^ 256))"
    and "LeftPadBytes G bs k = replicate (k - length bs) 0 @ bs"
    and "RightPadBytes G bs k = bs @ replicate (k - length bs) 0"
    and "TrimRightZeroes G bs = rev (dropWhile (\<lambda>b. b = 0) (rev bs))"
  using assms by (simp_all add: geth_ok_def)

subsection \<open>Sums and options\<close>

definition is_ok :: "'e + 'a \<Rightarrow> bool" where
  "is_ok r = (case r of Inl _ \<Rightarrow> False | Inr _ \<Rightarrow> True)"

text \<open>A loop that stops at the first error: its results in order, or that error.\<close>

fun results :: "('e + 'a) list \<Rightarrow> 'e + 'a list" where
  "results [] = Inr []"
| "results (r # rs) =
     (case r of
        Inl e \<Rightarrow> Inl e
      | Inr x \<Rightarrow> (case results rs of Inl e \<Rightarrow> Inl e | Inr xs \<Rightarrow> Inr (x # xs)))"

lemma results_map_Inr [simp]: "results (map Inr xs) = Inr xs"
  by (induction xs) simp_all

lemma results_Inr: "results rs = Inr xs \<longleftrightarrow> rs = map Inr xs"
  by (induction rs arbitrary: xs) (auto split: sum.splits)

lemma is_ok_simps [simp]: "is_ok (Inr x)" "\<not> is_ok (Inl e)"
  by (simp_all add: is_ok_def)

text \<open>Uint64 of math/big: the low 64 bits of the absolute value; IsUint64 tests the range.\<close>

definition big_Uint64 :: "int \<Rightarrow> u64" where
  "big_Uint64 n = word_of_int \<bar>n\<bar>"

definition big_IsUint64 :: "int \<Rightarrow> bool" where
  "big_IsUint64 n \<longleftrightarrow> 0 \<le> n \<and> n < 2 ^ 64"

lemma big_IsUint64_uint [simp]: "big_IsUint64 (uint (x :: u64))"
  using uint_lt2p [of x] by (simp add: big_IsUint64_def)

lemma big_Uint64_uint [simp]: "big_Uint64 (uint x) = x"
  by (simp add: big_Uint64_def)

lemma uint_big_Uint64: "0 \<le> n \<Longrightarrow> n < 2 ^ 64 \<Longrightarrow> uint (big_Uint64 n) = n"
  by (simp add: big_Uint64_def uint_word_of_int)

text \<open>BitLen of math/big.\<close>

fun nat_bitlen :: "nat \<Rightarrow> nat" where
  "nat_bitlen n = (if n = 0 then 0 else Suc (nat_bitlen (n div 2)))"

declare nat_bitlen.simps [simp del]

definition big_BitLen :: "int \<Rightarrow> nat" where
  "big_BitLen n = nat_bitlen (nat \<bar>n\<bar>)"

lemma nat_bitlen_le: "nat_bitlen n \<le> k \<longleftrightarrow> n < 2 ^ k"
proof (induction n arbitrary: k rule: nat_bitlen.induct)
  case (1 n)
  show ?case
  proof (cases "n = 0")
    case True
    then show ?thesis by (simp add: nat_bitlen.simps)
  next
    case n: False
    show ?thesis
    proof (cases k)
      case 0
      with n show ?thesis by (simp add: nat_bitlen.simps [of n])
    next
      case (Suc j)
      have "n div 2 < 2 ^ j \<longleftrightarrow> n < 2 ^ Suc j" by (simp add: div_less_iff_less_mult mult.commute)
      with n Suc "1.IH" [OF n, of j] show ?thesis by (simp add: nat_bitlen.simps [of n])
    qed
  qed
qed

lemma big_BitLen_le: "big_BitLen n \<le> k \<longleftrightarrow> \<bar>n\<bar> < 2 ^ k"
  by (simp add: big_BitLen_def nat_bitlen_le nat_less_iff)

lemma big_BitLen_0 [simp]: "big_BitLen n = 0 \<longleftrightarrow> n = 0"
  using big_BitLen_le [of n 0] by simp

text \<open>The decimal digits the %d verb of fmt prints for a natural number.\<close>

fun nat_dec :: "nat \<Rightarrow> string" where
  "nat_dec n = (if n < 10 then [char_of (48 + n)] else nat_dec (n div 10) @ [char_of (48 + n mod 10)])"

declare nat_dec.simps [simp del]

subsection \<open>Big-endian byte strings\<close>

lemma length_be_bytes [simp]: "length (be_bytes k n) = k"
  by (induction k arbitrary: n) auto

lemma unat_byte_less [simp]: "unat (b :: byte) < 256"
  using unsigned_less [of b, where ?'a = nat] by simp

lemma be_nat_append: "be_nat (xs @ ys) = be_nat xs * 256 ^ length ys + be_nat ys"
  by (induction xs) (simp_all add: power_add algebra_simps)

lemma be_nat_bound: "be_nat bs < 256 ^ length bs"
proof (induction bs)
  case Nil
  then show ?case by simp
next
  case (Cons b bs)
  have "unat b * 256 ^ length bs + be_nat bs < (unat b + 1) * 256 ^ length bs"
    using Cons.IH by simp
  also have "\<dots> \<le> 256 * 256 ^ length bs"
    using unat_byte_less [of b] by (intro mult_right_mono) (simp_all del: unat_byte_less)
  finally show ?case by simp
qed

lemma unat_of_nat_byte [simp]: "unat (of_nat n :: byte) = n mod 256"
  by (simp add: unat_of_nat)

lemma be_nat_be_bytes: "be_nat (be_bytes k n) = n mod 256 ^ k"
proof (induction k arbitrary: n)
  case 0
  then show ?case by simp
next
  case (Suc k)
  then show ?case by (simp add: be_nat_append mod_mult2_eq [of n 256 "256 ^ k"])
qed

lemma be_bytes_be_nat: "be_bytes (length bs) (be_nat bs) = bs"
proof (induction bs rule: rev_induct)
  case Nil
  then show ?case by simp
next
  case (snoc b bs)
  have "(of_nat (be_nat bs * 256 + unat b) :: byte) = b"
    by (subst word_unat_eq_iff) (simp del: of_nat_add of_nat_mult)
  with snoc show ?case by (simp add: be_nat_append)
qed

lemma be_bytes_split: "be_bytes (k + j) n = be_bytes k (n div 256 ^ j) @ be_bytes j n"
  by (induction j arbitrary: n) (simp_all add: div_mult2_eq mult.commute)

text \<open>The byte arrays [20]byte and [32]byte of addresses and hashes are words; these read and write their bytes.\<close>

definition BytesToHash :: "byte list \<Rightarrow> hash" where
  "BytesToHash b = of_nat (be_nat b)"

definition BytesToAddress :: "byte list \<Rightarrow> address" where
  "BytesToAddress b = of_nat (be_nat b)"

definition addressBytes :: "address \<Rightarrow> byte list" where
  "addressBytes a = be_bytes 20 (unat a)"

definition hashBytes :: "hash \<Rightarrow> byte list" where
  "hashBytes h = be_bytes 32 (unat h)"

text \<open>types.EmptyRootHash: the root of a trie without keys.\<close>

definition EmptyRootHash :: hash where
  "EmptyRootHash = 0x56e81f171bcc55a6ff8345e692c0f86e5b48e01b996cadc001622fb5e363b421"

lemma length_addressBytes [simp]: "length (addressBytes a) = 20"
  and length_hashBytes [simp]: "length (hashBytes h) = 32"
  by (simp_all add: addressBytes_def hashBytes_def)

lemma be_nat_addressBytes [simp]: "be_nat (addressBytes a) = unat a"
  and be_nat_hashBytes [simp]: "be_nat (hashBytes h) = unat h"
  using unsigned_less [of a, where ?'a = nat] unsigned_less [of h, where ?'a = nat]
  by (simp_all add: addressBytes_def hashBytes_def be_nat_be_bytes)

lemma BytesToHash_address [simp]: "BytesToHash (addressBytes a) = ucast a"
  and BytesToHash_hash [simp]: "BytesToHash (hashBytes h) = h"
  and BytesToAddress_hash [simp]: "BytesToAddress (hashBytes h) = ucast h"
  and BytesToAddress_address [simp]: "BytesToAddress (addressBytes a) = a"
  by (simp_all add: BytesToHash_def BytesToAddress_def word_unat_eq_iff unsigned_ucast_eq)

lemma be_nat_replicate_0 [simp]: "be_nat (replicate n 0 @ bs) = be_nat bs"
  by (induction n) simp_all

text \<open>Bytes of math/big: the absolute value in as few bytes as possible.\<close>

fun nat_bytes :: "nat \<Rightarrow> byte list" where
  "nat_bytes n = (if n = 0 then [] else nat_bytes (n div 256) @ [of_nat n])"

declare nat_bytes.simps [simp del]

definition big_Bytes :: "int \<Rightarrow> byte list" where
  "big_Bytes n = nat_bytes (nat \<bar>n\<bar>)"

lemma length_nat_bytes_le: "length (nat_bytes n) \<le> k \<longleftrightarrow> n < 256 ^ k"
proof (induction n arbitrary: k rule: nat_bytes.induct)
  case (1 n)
  show ?case
  proof (cases "n = 0")
    case True
    then show ?thesis by (simp add: nat_bytes.simps)
  next
    case n: False
    show ?thesis
    proof (cases k)
      case 0
      with n show ?thesis by (simp add: nat_bytes.simps [of n])
    next
      case (Suc j)
      have "n div 256 < 256 ^ j \<longleftrightarrow> n < 256 ^ Suc j"
        by (simp add: div_less_iff_less_mult mult.commute)
      with n Suc "1.IH" [OF n, of j] show ?thesis by (simp add: nat_bytes.simps [of n])
    qed
  qed
qed

lemma length_big_Bytes_le: "length (big_Bytes n) \<le> k \<longleftrightarrow> \<bar>n\<bar> < 256 ^ k"
  by (simp add: big_Bytes_def length_nat_bytes_le nat_less_iff)

end
