(* ===== verification/FeeConfig.thy ===== *)
theory FeeConfig
  imports Prelude
begin

text \<open>
  commontype/fee_config.go and the nil-aware comparisons of utils/numbers.go: the parameters of the
  dynamic fee algorithm, their verification and their equality.
\<close>

subsection \<open>Nil-aware comparisons\<close>

definition BigNumEqual :: "int option \<Rightarrow> int option \<Rightarrow> bool" where
  "BigNumEqual x y =
     (case (x, y) of
        (Some a, Some b) \<Rightarrow> a = b
      | _ \<Rightarrow> x = None \<and> y = None)"

definition Uint64PtrEqual :: "u64 option \<Rightarrow> u64 option \<Rightarrow> bool" where
  "Uint64PtrEqual x y =
     (case (x, y) of
        (Some a, Some b) \<Rightarrow> a = b
      | _ \<Rightarrow> x = None \<and> y = None)"

subsection \<open>The fee configuration\<close>

record FeeConfig =
  fc_GasLimit :: "int option"
  fc_TargetBlockRate :: u64
  fc_MinBaseFee :: "int option"
  fc_TargetGas :: "int option"
  fc_BaseFeeChangeDenominator :: "int option"
  fc_MinBlockGasCost :: "int option"
  fc_MaxBlockGasCost :: "int option"
  fc_BlockGasCostStep :: "int option"

definition EmptyFeeConfig :: FeeConfig where
  "EmptyFeeConfig =
     \<lparr>fc_GasLimit = None, fc_TargetBlockRate = 0, fc_MinBaseFee = None, fc_TargetGas = None,
      fc_BaseFeeChangeDenominator = None, fc_MinBlockGasCost = None, fc_MaxBlockGasCost = None,
      fc_BlockGasCostStep = None\<rparr>"

datatype fee_field =
    GasLimitField | TargetBlockRateField | MinBaseFeeField | TargetGasField
  | BaseFeeChangeDenominatorField | MinBlockGasCostField | MaxBlockGasCostField
  | BlockGasCostStepField

datatype fee_error =
    FieldNil fee_field
  | FieldNotPositive fee_field int
  | FieldNegative fee_field int
  | MinAboveMaxBlockGasCost int int
  | FieldExceedsHashLen fee_field

definition HashLength :: nat where
  "HashLength = 32"

definition isBiggerThanHashLen :: "int \<Rightarrow> bool" where
  "isBiggerThanHashLen bigint \<longleftrightarrow> HashLength < length (big_Bytes bigint)"

text \<open>
  The checks run on a configuration whose pointers Verify has found to be non-nil; the model receives
  the values.
\<close>

definition checkByteLens ::
    "int \<Rightarrow> u64 \<Rightarrow> int \<Rightarrow> int \<Rightarrow> int \<Rightarrow> int \<Rightarrow> int \<Rightarrow> int \<Rightarrow> fee_error option" where
  "checkByteLens gasLimit targetBlockRate minBaseFee targetGas denominator minCost maxCost step =
     (if isBiggerThanHashLen gasLimit then Some (FieldExceedsHashLen GasLimitField)
      else if isBiggerThanHashLen (uint targetBlockRate) then Some (FieldExceedsHashLen TargetBlockRateField)
      else if isBiggerThanHashLen minBaseFee then Some (FieldExceedsHashLen MinBaseFeeField)
      else if isBiggerThanHashLen targetGas then Some (FieldExceedsHashLen TargetGasField)
      else if isBiggerThanHashLen denominator then Some (FieldExceedsHashLen BaseFeeChangeDenominatorField)
      else if isBiggerThanHashLen minCost then Some (FieldExceedsHashLen MinBlockGasCostField)
      else if isBiggerThanHashLen maxCost then Some (FieldExceedsHashLen MaxBlockGasCostField)
      else if isBiggerThanHashLen step then Some (FieldExceedsHashLen BlockGasCostStepField)
      else None)"

definition FeeConfig_Verify :: "FeeConfig \<Rightarrow> fee_error option" where
  "FeeConfig_Verify f =
     (case fc_GasLimit f of None \<Rightarrow> Some (FieldNil GasLimitField) | Some gasLimit \<Rightarrow>
      case fc_MinBaseFee f of None \<Rightarrow> Some (FieldNil MinBaseFeeField) | Some minBaseFee \<Rightarrow>
      case fc_TargetGas f of None \<Rightarrow> Some (FieldNil TargetGasField) | Some targetGas \<Rightarrow>
      case fc_BaseFeeChangeDenominator f of
        None \<Rightarrow> Some (FieldNil BaseFeeChangeDenominatorField) | Some denominator \<Rightarrow>
      case fc_MinBlockGasCost f of None \<Rightarrow> Some (FieldNil MinBlockGasCostField) | Some minCost \<Rightarrow>
      case fc_MaxBlockGasCost f of None \<Rightarrow> Some (FieldNil MaxBlockGasCostField) | Some maxCost \<Rightarrow>
      case fc_BlockGasCostStep f of None \<Rightarrow> Some (FieldNil BlockGasCostStepField) | Some step \<Rightarrow>
        if gasLimit \<le> 0 then Some (FieldNotPositive GasLimitField gasLimit)
        else if fc_TargetBlockRate f \<le> 0
          then Some (FieldNotPositive TargetBlockRateField (uint (fc_TargetBlockRate f)))
        else if minBaseFee < 0 then Some (FieldNegative MinBaseFeeField minBaseFee)
        else if targetGas \<le> 0 then Some (FieldNotPositive TargetGasField targetGas)
        else if denominator \<le> 0
          then Some (FieldNotPositive BaseFeeChangeDenominatorField denominator)
        else if minCost < 0 then Some (FieldNegative MinBlockGasCostField minCost)
        else if maxCost < minCost then Some (MinAboveMaxBlockGasCost minCost maxCost)
        else if step < 0 then Some (FieldNegative BlockGasCostStepField step)
        else checkByteLens gasLimit (fc_TargetBlockRate f) minBaseFee targetGas denominator
               minCost maxCost step)"

definition FeeConfig_Equal :: "FeeConfig \<Rightarrow> FeeConfig option \<Rightarrow> bool" where
  "FeeConfig_Equal f other =
     (case other of
        None \<Rightarrow> False
      | Some g \<Rightarrow>
          BigNumEqual (fc_GasLimit f) (fc_GasLimit g) \<and>
          fc_TargetBlockRate f = fc_TargetBlockRate g \<and>
          BigNumEqual (fc_MinBaseFee f) (fc_MinBaseFee g) \<and>
          BigNumEqual (fc_TargetGas f) (fc_TargetGas g) \<and>
          BigNumEqual (fc_BaseFeeChangeDenominator f) (fc_BaseFeeChangeDenominator g) \<and>
          BigNumEqual (fc_MinBlockGasCost f) (fc_MinBlockGasCost g) \<and>
          BigNumEqual (fc_MaxBlockGasCost f) (fc_MaxBlockGasCost g) \<and>
          BigNumEqual (fc_BlockGasCostStep f) (fc_BlockGasCostStep g))"

text \<open>params/config_extra.go: the default fee configuration.\<close>

definition DefaultFeeConfig :: FeeConfig where
  "DefaultFeeConfig =
     \<lparr>fc_GasLimit = Some 8000000, fc_TargetBlockRate = 2, fc_MinBaseFee = Some 25000000000,
      fc_TargetGas = Some 15000000, fc_BaseFeeChangeDenominator = Some 36,
      fc_MinBlockGasCost = Some 0, fc_MaxBlockGasCost = Some 1000000,
      fc_BlockGasCostStep = Some 200000\<rparr>"

subsection \<open>Facts\<close>

lemma BigNumEqual_iff [simp]: "BigNumEqual x y \<longleftrightarrow> x = y"
  by (auto simp: BigNumEqual_def split: option.splits)

lemma Uint64PtrEqual_iff [simp]: "Uint64PtrEqual x y \<longleftrightarrow> x = y"
  by (auto simp: Uint64PtrEqual_def split: option.splits)

lemma isBiggerThanHashLen_iff: "isBiggerThanHashLen n \<longleftrightarrow> 2 ^ 256 \<le> \<bar>n\<bar>"
  using length_big_Bytes_le [of n 32] by (auto simp: isBiggerThanHashLen_def HashLength_def)

lemma isBiggerThanHashLen_u64: "\<not> isBiggerThanHashLen (uint (x :: u64))"
  using uint_lt2p [of x] by (simp add: isBiggerThanHashLen_iff)

text \<open>What a verified configuration guarantees, as one predicate on the values.\<close>

definition fee_config_ok :: "FeeConfig \<Rightarrow> bool" where
  "fee_config_ok f \<longleftrightarrow>
     (\<exists>gasLimit minBaseFee targetGas denominator minCost maxCost step.
        fc_GasLimit f = Some gasLimit \<and> 0 < gasLimit \<and> gasLimit < 2 ^ 256 \<and>
        fc_TargetBlockRate f \<noteq> 0 \<and>
        fc_MinBaseFee f = Some minBaseFee \<and> 0 \<le> minBaseFee \<and> minBaseFee < 2 ^ 256 \<and>
        fc_TargetGas f = Some targetGas \<and> 0 < targetGas \<and> targetGas < 2 ^ 256 \<and>
        fc_BaseFeeChangeDenominator f = Some denominator \<and> 0 < denominator \<and> denominator < 2 ^ 256 \<and>
        fc_MinBlockGasCost f = Some minCost \<and> 0 \<le> minCost \<and>
        fc_MaxBlockGasCost f = Some maxCost \<and> minCost \<le> maxCost \<and> maxCost < 2 ^ 256 \<and>
        fc_BlockGasCostStep f = Some step \<and> 0 \<le> step \<and> step < 2 ^ 256)"

lemma checkByteLens_None:
  "checkByteLens gasLimit rate minBaseFee targetGas denominator minCost maxCost step = None \<longleftrightarrow>
     \<bar>gasLimit\<bar> < 2 ^ 256 \<and> \<bar>minBaseFee\<bar> < 2 ^ 256 \<and> \<bar>targetGas\<bar> < 2 ^ 256 \<and>
     \<bar>denominator\<bar> < 2 ^ 256 \<and> \<bar>minCost\<bar> < 2 ^ 256 \<and> \<bar>maxCost\<bar> < 2 ^ 256 \<and> \<bar>step\<bar> < 2 ^ 256"
  unfolding checkByteLens_def if_Some_None isBiggerThanHashLen_iff not_le
  using isBiggerThanHashLen_u64 [of rate] by (simp only: isBiggerThanHashLen_iff not_le simp_thms)

lemma u64_le_0 [simp]: "(x :: u64) \<le> 0 \<longleftrightarrow> x = 0"
  by (simp add: word_le_nat_alt unat_eq_zero)

lemma FeeConfig_Verify_iff_ok: "FeeConfig_Verify f = None \<longleftrightarrow> fee_config_ok f"
proof
  assume v: "FeeConfig_Verify f = None"
  then obtain gasLimit minBaseFee targetGas denominator minCost maxCost step where
    f: "fc_GasLimit f = Some gasLimit" "fc_MinBaseFee f = Some minBaseFee"
      "fc_TargetGas f = Some targetGas" "fc_BaseFeeChangeDenominator f = Some denominator"
      "fc_MinBlockGasCost f = Some minCost" "fc_MaxBlockGasCost f = Some maxCost"
      "fc_BlockGasCostStep f = Some step"
    unfolding FeeConfig_Verify_def by (elim case_optionE) simp_all
  from v show "fee_config_ok f"
    by (simp add: FeeConfig_Verify_def fee_config_ok_def f checkByteLens_None split: if_splits)
next
  assume "fee_config_ok f"
  then show "FeeConfig_Verify f = None"
    by (clarsimp simp: FeeConfig_Verify_def fee_config_ok_def checkByteLens_None)
qed

lemma FeeConfig_Equal_iff: "FeeConfig_Equal f other \<longleftrightarrow> other = Some f"
  by (cases other) (auto simp: FeeConfig_Equal_def)

lemma DefaultFeeConfig_ok: "FeeConfig_Verify DefaultFeeConfig = None"
  by (simp add: FeeConfig_Verify_iff_ok fee_config_ok_def DefaultFeeConfig_def)

end
