(* ===== verification/NetworkUpgrades.thy ===== *)
theory NetworkUpgrades
  imports FeeConfig
begin

text \<open>
  The scheduling of forks: the predicates of params/config.go on block numbers and timestamps, the
  compatibility errors they lead to, IsForkTransition of params/config_extra.go, and the network
  upgrades of params/network_upgrades.go.
\<close>

subsection \<open>Scheduled forks\<close>

definition isBlockForked :: "int option \<Rightarrow> int option \<Rightarrow> bool" where
  "isBlockForked s head =
     (case s of None \<Rightarrow> False | Some b \<Rightarrow>
      case head of None \<Rightarrow> False | Some h \<Rightarrow> b \<le> h)"

definition configBlockEqual :: "int option \<Rightarrow> int option \<Rightarrow> bool" where
  "configBlockEqual x y =
     (case x of None \<Rightarrow> y = None | Some a \<Rightarrow>
      case y of None \<Rightarrow> False | Some b \<Rightarrow> a = b)"

definition isForkBlockIncompatible :: "int option \<Rightarrow> int option \<Rightarrow> int option \<Rightarrow> bool" where
  "isForkBlockIncompatible s1 s2 head \<longleftrightarrow>
     (isBlockForked s1 head \<or> isBlockForked s2 head) \<and> \<not> configBlockEqual s1 s2"

definition isTimestampForked :: "u64 option \<Rightarrow> u64 \<Rightarrow> bool" where
  "isTimestampForked s head = (case s of None \<Rightarrow> False | Some t \<Rightarrow> t \<le> head)"

definition configTimestampEqual :: "u64 option \<Rightarrow> u64 option \<Rightarrow> bool" where
  "configTimestampEqual x y =
     (case x of None \<Rightarrow> y = None | Some a \<Rightarrow>
      case y of None \<Rightarrow> False | Some b \<Rightarrow> a = b)"

definition isForkTimestampIncompatible :: "u64 option \<Rightarrow> u64 option \<Rightarrow> u64 \<Rightarrow> bool" where
  "isForkTimestampIncompatible s1 s2 head \<longleftrightarrow>
     (isTimestampForked s1 head \<or> isTimestampForked s2 head) \<and> \<not> configTimestampEqual s1 s2"

definition IsForkTransition :: "u64 option \<Rightarrow> u64 option \<Rightarrow> u64 \<Rightarrow> bool" where
  "IsForkTransition fork parent current \<longleftrightarrow>
     \<not> (case parent of None \<Rightarrow> False | Some p \<Rightarrow> isTimestampForked fork p) \<and>
     isTimestampForked fork current"

subsection \<open>Compatibility errors\<close>

record ConfigCompatError =
  ce_What :: string
  ce_StoredBlock :: "int option"
  ce_NewBlock :: "int option"
  ce_StoredTime :: "u64 option"
  ce_NewTime :: "u64 option"
  RewindToBlock :: u64
  RewindToTime :: u64

definition newBlockCompatError :: "string \<Rightarrow> int option \<Rightarrow> int option \<Rightarrow> ConfigCompatError" where
  "newBlockCompatError what storedblock newblock =
     (let rew = (case storedblock of
                   None \<Rightarrow> newblock
                 | Some s \<Rightarrow> (case newblock of
                       None \<Rightarrow> storedblock
                     | Some n \<Rightarrow> if s < n then storedblock else newblock))
      in \<lparr>ce_What = what, ce_StoredBlock = storedblock, ce_NewBlock = newblock, ce_StoredTime = None,
          ce_NewTime = None,
          RewindToBlock = (case rew of None \<Rightarrow> 0 | Some r \<Rightarrow> if 0 < r then big_Uint64 r - 1 else 0),
          RewindToTime = 0\<rparr>)"

definition newTimestampCompatError :: "string \<Rightarrow> u64 option \<Rightarrow> u64 option \<Rightarrow> ConfigCompatError" where
  "newTimestampCompatError what storedtime newtime =
     (let rew = (case storedtime of
                   None \<Rightarrow> newtime
                 | Some s \<Rightarrow> (case newtime of
                       None \<Rightarrow> storedtime
                     | Some n \<Rightarrow> if s < n then storedtime else newtime))
      in \<lparr>ce_What = what, ce_StoredBlock = None, ce_NewBlock = None, ce_StoredTime = storedtime,
          ce_NewTime = newtime, RewindToBlock = 0,
          RewindToTime = (case rew of None \<Rightarrow> 0 | Some r \<Rightarrow> if 0 < r then r - 1 else 0)\<rparr>)"

subsection \<open>Network upgrades\<close>

record NetworkUpgrades =
  SubnetEVMTimestamp :: "u64 option"
  DurangoTimestamp :: "u64 option"
  EtnaTimestamp :: "u64 option"

text \<open>The upgrade schedule of avalanchego, in the Unix seconds TimeToNewUint64 converts it to.\<close>

record agoUpgrades =
  ago_DurangoTime :: u64
  ago_EtnaTime :: u64

definition CheckNetworkUpgradesCompatible ::
    "NetworkUpgrades \<Rightarrow> NetworkUpgrades \<Rightarrow> u64 \<Rightarrow> ConfigCompatError option" where
  "CheckNetworkUpgradesCompatible n newcfg time =
     (if isForkTimestampIncompatible (SubnetEVMTimestamp n) (SubnetEVMTimestamp newcfg) time
      then Some (newTimestampCompatError ''SubnetEVM fork block timestamp''
                   (SubnetEVMTimestamp n) (SubnetEVMTimestamp newcfg))
      else if isForkTimestampIncompatible (DurangoTimestamp n) (DurangoTimestamp newcfg) time
      then Some (newTimestampCompatError ''Durango fork block timestamp''
                   (DurangoTimestamp n) (DurangoTimestamp newcfg))
      else if isForkTimestampIncompatible (EtnaTimestamp n) (EtnaTimestamp newcfg) time
      then Some (newTimestampCompatError ''Etna fork block timestamp''
                   (EtnaTimestamp n) (EtnaTimestamp newcfg))
      else None)"

definition getDefaultNetworkUpgrades :: "agoUpgrades \<Rightarrow> NetworkUpgrades" where
  "getDefaultNetworkUpgrades ago =
     \<lparr>SubnetEVMTimestamp = Some 0, DurangoTimestamp = Some (ago_DurangoTime ago),
      EtnaTimestamp = Some (ago_EtnaTime ago)\<rparr>"

definition setDefaults :: "NetworkUpgrades \<Rightarrow> agoUpgrades \<Rightarrow> NetworkUpgrades" where
  "setDefaults n ago =
     (let defaults = getDefaultNetworkUpgrades ago;
          pick = (\<lambda>t d. if t = None \<or> t = Some 0 then d else t)
      in \<lparr>SubnetEVMTimestamp = pick (SubnetEVMTimestamp n) (SubnetEVMTimestamp defaults),
          DurangoTimestamp = pick (DurangoTimestamp n) (DurangoTimestamp defaults),
          EtnaTimestamp = pick (EtnaTimestamp n) (EtnaTimestamp defaults)\<rparr>)"

datatype upgrade_error =
    CannotBeNil
  | BeforeDefault u64 u64

text \<open>The default is dereferenced without a nil check: \<open>None\<close> there is a panic.\<close>

definition verifyWithDefault :: "u64 option \<Rightarrow> u64 option \<Rightarrow> upgrade_error option option" where
  "verifyWithDefault configTimestamp defaultTimestamp =
     (case configTimestamp of
        None \<Rightarrow> Some (Some CannotBeNil)
      | Some c \<Rightarrow>
          (case defaultTimestamp of
             None \<Rightarrow> None
           | Some d \<Rightarrow> Some (if c < d then Some (BeforeDefault c d) else None)))"

definition verifyNetworkUpgrades ::
    "NetworkUpgrades \<Rightarrow> agoUpgrades \<Rightarrow> (string \<times> upgrade_error) option option" where
  "verifyNetworkUpgrades n ago =
     (let defaults = getDefaultNetworkUpgrades ago in
      case verifyWithDefault (SubnetEVMTimestamp n) (SubnetEVMTimestamp defaults) of
        None \<Rightarrow> None
      | Some (Some e) \<Rightarrow> Some (Some (''SubnetEVM fork block timestamp is invalid'', e))
      | Some None \<Rightarrow>
      (case verifyWithDefault (DurangoTimestamp n) (DurangoTimestamp defaults) of
        None \<Rightarrow> None
      | Some (Some e) \<Rightarrow> Some (Some (''Durango fork block timestamp is invalid'', e))
      | Some None \<Rightarrow>
      (case verifyWithDefault (EtnaTimestamp n) (EtnaTimestamp defaults) of
        None \<Rightarrow> None
      | Some (Some e) \<Rightarrow> Some (Some (''Etna fork block timestamp is invalid'', e))
      | Some None \<Rightarrow> Some None)))"

definition NetworkUpgrades_Override :: "NetworkUpgrades \<Rightarrow> NetworkUpgrades \<Rightarrow> NetworkUpgrades" where
  "NetworkUpgrades_Override n other =
     \<lparr>SubnetEVMTimestamp =
        (case SubnetEVMTimestamp other of None \<Rightarrow> SubnetEVMTimestamp n | Some t \<Rightarrow> Some t),
      DurangoTimestamp =
        (case DurangoTimestamp other of None \<Rightarrow> DurangoTimestamp n | Some t \<Rightarrow> Some t),
      EtnaTimestamp =
        (case EtnaTimestamp other of None \<Rightarrow> EtnaTimestamp n | Some t \<Rightarrow> Some t)\<rparr>"

definition IsSubnetEVM :: "NetworkUpgrades \<Rightarrow> u64 \<Rightarrow> bool" where
  "IsSubnetEVM n time = isTimestampForked (SubnetEVMTimestamp n) time"

definition IsDurango :: "NetworkUpgrades \<Rightarrow> u64 \<Rightarrow> bool" where
  "IsDurango n time = isTimestampForked (DurangoTimestamp n) time"

definition IsEtna :: "NetworkUpgrades \<Rightarrow> u64 \<Rightarrow> bool" where
  "IsEtna n time = isTimestampForked (EtnaTimestamp n) time"

record AvalancheRules =
  ar_IsSubnetEVM :: bool
  ar_IsDurango :: bool
  ar_IsEtna :: bool

definition GetAvalancheRules :: "NetworkUpgrades \<Rightarrow> u64 \<Rightarrow> AvalancheRules" where
  "GetAvalancheRules n time =
     \<lparr>ar_IsSubnetEVM = IsSubnetEVM n time, ar_IsDurango = IsDurango n time,
      ar_IsEtna = IsEtna n time\<rparr>"

subsection \<open>Facts\<close>

lemma configBlockEqual_iff [simp]: "configBlockEqual x y \<longleftrightarrow> x = y"
  by (auto simp: configBlockEqual_def split: option.splits)

lemma configTimestampEqual_iff [simp]: "configTimestampEqual x y \<longleftrightarrow> x = y"
  by (auto simp: configTimestampEqual_def split: option.splits)

lemma isTimestampForked_simps [simp]:
  "\<not> isTimestampForked None t"
  "isTimestampForked (Some s) t \<longleftrightarrow> s \<le> t"
  by (simp_all add: isTimestampForked_def)

lemma isBlockForked_simps [simp]:
  "\<not> isBlockForked None h"
  "\<not> isBlockForked s None"
  "isBlockForked (Some b) (Some n) \<longleftrightarrow> b \<le> n"
  by (simp_all add: isBlockForked_def split: option.splits)

lemma isTimestampForked_mono: "isTimestampForked s t \<Longrightarrow> t \<le> t' \<Longrightarrow> isTimestampForked s t'"
  by (cases s) auto

lemma isBlockForked_mono: "isBlockForked s (Some h) \<Longrightarrow> h \<le> h' \<Longrightarrow> isBlockForked s (Some h')"
  by (cases s) auto

text \<open>Schedules that are compatible at a head agree on every time up to it.\<close>

lemma timestamp_compatible_agree:
  "\<not> isForkTimestampIncompatible s1 s2 head \<Longrightarrow> t \<le> head \<Longrightarrow>
     isTimestampForked s1 t \<longleftrightarrow> isTimestampForked s2 t"
  unfolding isForkTimestampIncompatible_def
  by (cases s1; cases s2) (auto dest: order_trans)

lemma block_compatible_agree:
  "\<not> isForkBlockIncompatible s1 s2 (Some head) \<Longrightarrow> n \<le> head \<Longrightarrow>
     isBlockForked s1 (Some n) \<longleftrightarrow> isBlockForked s2 (Some n)"
  unfolding isForkBlockIncompatible_def by (cases s1; cases s2) auto

lemma IsForkTransition_None [simp]: "IsForkTransition fork None t \<longleftrightarrow> isTimestampForked fork t"
  by (simp add: IsForkTransition_def)

lemma IsForkTransition_Some:
  "IsForkTransition (Some s) (Some p) t \<longleftrightarrow> p < s \<and> s \<le> t"
  by (auto simp: IsForkTransition_def not_le)

text \<open>
  The rewind target of a compatibility error lies strictly below the head, unless it is zero.
\<close>

lemma newTimestampCompatError_rewind:
  assumes "isTimestampForked s1 head \<or> isTimestampForked s2 head"
  shows "RewindToBlock (newTimestampCompatError w s1 s2) = 0 \<and>
     (RewindToTime (newTimestampCompatError w s1 s2) = 0 \<or>
      RewindToTime (newTimestampCompatError w s1 s2) < head)"
proof -
  have less: "r - 1 < head" if "0 < r" "r \<le> head" for r :: u64
  proof -
    from that have "unat (r - 1) = unat r - 1" by (intro unat_minus_one) auto
    with that show ?thesis by (simp add: word_less_nat_alt word_le_nat_alt)
  qed
  have step: "s < n \<Longrightarrow> n \<le> head \<Longrightarrow> s \<le> head" "\<not> s < n \<Longrightarrow> s \<le> head \<Longrightarrow> n \<le> head" for s n :: u64
    by simp_all
  show ?thesis
    using assms
    by (cases s1; cases s2)
      (auto simp: newTimestampCompatError_def Let_def intro!: less dest: step)
qed

lemma newBlockCompatError_rewind:
  assumes "isBlockForked s1 (Some head) \<or> isBlockForked s2 (Some head)" and "head < 2 ^ 64"
  shows "RewindToTime (newBlockCompatError w s1 s2) = 0 \<and>
     (RewindToBlock (newBlockCompatError w s1 s2) = 0 \<or>
      uint (RewindToBlock (newBlockCompatError w s1 s2)) < head)"
proof -
  have less: "uint (big_Uint64 r - 1) < head" if "0 < r" "r \<le> head" for r
  proof -
    have r: "uint (big_Uint64 r) = r" using that assms(2) by (simp add: uint_big_Uint64)
    with that(1) have "uint (big_Uint64 r - 1) = r - 1"
      using uint_sub_lem [of 1 "big_Uint64 r"] by simp
    with that show ?thesis by simp
  qed
  show ?thesis
    using assms(1)
    by (cases s1; cases s2) (auto simp: newBlockCompatError_def Let_def intro!: less)
qed

lemma setDefaults_verifies: "verifyNetworkUpgrades (setDefaults n ago) ago = Some None \<longleftrightarrow>
   (\<forall>t. DurangoTimestamp n = Some t \<and> t \<noteq> 0 \<longrightarrow> ago_DurangoTime ago \<le> t) \<and>
   (\<forall>t. EtnaTimestamp n = Some t \<and> t \<noteq> 0 \<longrightarrow> ago_EtnaTime ago \<le> t)"
  by (cases "SubnetEVMTimestamp n"; cases "DurangoTimestamp n"; cases "EtnaTimestamp n")
    (auto simp: setDefaults_def verifyNetworkUpgrades_def verifyWithDefault_def
      getDefaultNetworkUpgrades_def Let_def not_less)

end
