(* ===== verification/AllowListConfig.thy ===== *)
theory AllowListConfig
  imports NetworkUpgrades
begin

text \<open>
  The roles of precompile/allowlist/role.go, the upgrade header of precompileconfig/upgradeable.go,
  the view of the chain a precompile configuration is verified against (precompileconfig/config.go),
  and the allow list configuration of precompile/allowlist/config.go with its verification. Its
  Configure writes to the state and is in the theory AllowList.
\<close>

subsection \<open>Upgrades and the view of the chain\<close>

record Upgrade =
  up_BlockTimestamp :: "u64 option"
  up_Disable :: bool

definition Upgrade_Timestamp :: "Upgrade \<Rightarrow> u64 option" where
  "Upgrade_Timestamp u = up_BlockTimestamp u"

definition Upgrade_IsDisabled :: "Upgrade \<Rightarrow> bool" where
  "Upgrade_IsDisabled u = up_Disable u"

definition Upgrade_Equal :: "Upgrade \<Rightarrow> Upgrade option \<Rightarrow> bool" where
  "Upgrade_Equal u other =
     (case other of
        None \<Rightarrow> False
      | Some v \<Rightarrow> up_Disable u = up_Disable v \<and>
                  Uint64PtrEqual (up_BlockTimestamp u) (up_BlockTimestamp v))"

record ChainConfigView =
  ccv_GetFeeConfig :: FeeConfig
  ccv_AllowedFeeRecipients :: bool
  ccv_IsDurango :: "u64 \<Rightarrow> bool"

subsection \<open>Roles\<close>

type_synonym Role = hash

definition NoRole :: Role where "NoRole = 0"
definition EnabledRole :: Role where "EnabledRole = 1"
definition AdminRole :: Role where "AdminRole = 2"
definition ManagerRole :: Role where "ManagerRole = 3"

definition IsNoRole :: "Role \<Rightarrow> bool" where
  "IsNoRole r \<longleftrightarrow> r = NoRole"

definition IsAdmin :: "Role \<Rightarrow> bool" where
  "IsAdmin r \<longleftrightarrow> r = AdminRole"

definition IsEnabled :: "Role \<Rightarrow> bool" where
  "IsEnabled r \<longleftrightarrow> r = AdminRole \<or> r = EnabledRole \<or> r = ManagerRole"

definition CanModify :: "Role \<Rightarrow> Role \<Rightarrow> Role \<Rightarrow> bool" where
  "CanModify r frm target =
     (if r = AdminRole then True
      else if r = ManagerRole
        then (frm = EnabledRole \<or> frm = NoRole) \<and> (target = EnabledRole \<or> target = NoRole)
      else False)"

datatype role_error = ErrInvalidRole

definition GetSetterFunctionName :: "Role \<Rightarrow> role_error + string" where
  "GetSetterFunctionName r =
     (if r = AdminRole then Inr ''setAdmin''
      else if r = ManagerRole then Inr ''setManager''
      else if r = EnabledRole then Inr ''setEnabled''
      else if r = NoRole then Inr ''setNone''
      else Inl ErrInvalidRole)"

definition Role_String :: "Role \<Rightarrow> string" where
  "Role_String r =
     (if r = NoRole then ''NoRole''
      else if r = EnabledRole then ''EnabledRole''
      else if r = ManagerRole then ''ManagerRole''
      else if r = AdminRole then ''AdminRole''
      else ''UnknownRole'')"

text \<open>BigToHash takes the absolute value and keeps its low-order 32 bytes.\<close>

definition BigToHash :: "int \<Rightarrow> hash" where
  "BigToHash b = word_of_int \<bar>b\<bar>"

definition FromBig :: "int \<Rightarrow> role_error + Role" where
  "FromBig b =
     (let role = BigToHash b
      in if role = NoRole \<or> role = EnabledRole \<or> role = ManagerRole \<or> role = AdminRole
         then Inr role else Inl ErrInvalidRole)"

subsection \<open>The allow list configuration\<close>

record AllowListConfig =
  alc_AdminAddresses :: "address list"
  alc_ManagerAddresses :: "address list"
  alc_EnabledAddresses :: "address list"

fun areEqualAddressLists :: "address list \<Rightarrow> address list \<Rightarrow> bool" where
  "areEqualAddressLists [] [] = True"
| "areEqualAddressLists (a # current) (b # other) = (a = b \<and> areEqualAddressLists current other)"
| "areEqualAddressLists _ _ = False"

definition AllowListConfig_Equal :: "AllowListConfig \<Rightarrow> AllowListConfig option \<Rightarrow> bool" where
  "AllowListConfig_Equal c other =
     (case other of
        None \<Rightarrow> False
      | Some d \<Rightarrow>
          areEqualAddressLists (alc_AdminAddresses c) (alc_AdminAddresses d) \<and>
          areEqualAddressLists (alc_ManagerAddresses c) (alc_ManagerAddresses d) \<and>
          areEqualAddressLists (alc_EnabledAddresses c) (alc_EnabledAddresses d))"

datatype allowlist_config_error =
    DuplicateEnabled address
  | DuplicateAdmin address
  | AdminAndEnabled address
  | ErrCannotAddManagersBeforeDurango
  | DuplicateManager address
  | AdminAndManager address
  | EnabledAndManager address

text \<open>The three loops of Verify, each returning the map it leaves.\<close>

fun verifyEnabled ::
    "address list \<Rightarrow> (address \<rightharpoonup> Role) \<Rightarrow> allowlist_config_error + (address \<rightharpoonup> Role)" where
  "verifyEnabled [] m = Inr m"
| "verifyEnabled (a # as) m =
     (if m a \<noteq> None then Inl (DuplicateEnabled a) else verifyEnabled as (m(a \<mapsto> EnabledRole)))"

fun verifyAdmins ::
    "address list \<Rightarrow> (address \<rightharpoonup> Role) \<Rightarrow> allowlist_config_error + (address \<rightharpoonup> Role)" where
  "verifyAdmins [] m = Inr m"
| "verifyAdmins (a # as) m =
     (case m a of
        Some role \<Rightarrow> if role = AdminRole then Inl (DuplicateAdmin a) else Inl (AdminAndEnabled a)
      | None \<Rightarrow> verifyAdmins as (m(a \<mapsto> AdminRole)))"

fun verifyManagers ::
    "address list \<Rightarrow> (address \<rightharpoonup> Role) \<Rightarrow> allowlist_config_error + (address \<rightharpoonup> Role)" where
  "verifyManagers [] m = Inr m"
| "verifyManagers (a # as) m =
     (if m a = Some ManagerRole then Inl (DuplicateManager a)
      else if m a = Some AdminRole then Inl (AdminAndManager a)
      else if m a = Some EnabledRole then Inl (EnabledAndManager a)
      else verifyManagers as (m(a \<mapsto> ManagerRole)))"

definition AllowListConfig_Verify ::
    "AllowListConfig \<Rightarrow> ChainConfigView \<Rightarrow> Upgrade \<Rightarrow> allowlist_config_error option" where
  "AllowListConfig_Verify c chainConfig upgrade =
     (case verifyEnabled (alc_EnabledAddresses c) Map.empty of
        Inl e \<Rightarrow> Some e
      | Inr m \<Rightarrow>
     (case verifyAdmins (alc_AdminAddresses c) m of
        Inl e \<Rightarrow> Some e
      | Inr m' \<Rightarrow>
          if alc_ManagerAddresses c \<noteq> [] \<and>
             (case Upgrade_Timestamp upgrade of
                None \<Rightarrow> False
              | Some timestamp \<Rightarrow> \<not> ccv_IsDurango chainConfig timestamp)
          then Some ErrCannotAddManagersBeforeDurango
          else (case verifyManagers (alc_ManagerAddresses c) m' of
                  Inl e \<Rightarrow> Some e
                | Inr _ \<Rightarrow> None)))"

subsection \<open>Facts\<close>

lemmas role_defs = NoRole_def EnabledRole_def AdminRole_def ManagerRole_def

lemma role_distinct [simp]:
  "NoRole \<noteq> EnabledRole" "NoRole \<noteq> AdminRole" "NoRole \<noteq> ManagerRole"
  "EnabledRole \<noteq> NoRole" "AdminRole \<noteq> NoRole" "ManagerRole \<noteq> NoRole"
  "EnabledRole \<noteq> AdminRole" "EnabledRole \<noteq> ManagerRole" "AdminRole \<noteq> ManagerRole"
  "AdminRole \<noteq> EnabledRole" "ManagerRole \<noteq> EnabledRole" "ManagerRole \<noteq> AdminRole"
  by (simp_all add: role_defs)

lemma Upgrade_Equal_iff [simp]: "Upgrade_Equal u (Some v) \<longleftrightarrow> u = v"
  by (auto simp: Upgrade_Equal_def)

lemma areEqualAddressLists_iff [simp]: "areEqualAddressLists xs ys \<longleftrightarrow> xs = ys"
  by (induction xs ys rule: areEqualAddressLists.induct) auto

lemma AllowListConfig_Equal_iff [simp]: "AllowListConfig_Equal c (Some d) \<longleftrightarrow> c = d"
  by (auto simp: AllowListConfig_Equal_def)

lemma verifyEnabled_Inr:
  "verifyEnabled as m = Inr m' \<longleftrightarrow>
     distinct as \<and> set as \<inter> dom m = {} \<and> m' = (\<lambda>a. if a \<in> set as then Some EnabledRole else m a)"
  by (induction as arbitrary: m) (auto simp: fun_eq_iff)

lemma verifyAdmins_Inr:
  "verifyAdmins as m = Inr m' \<longleftrightarrow>
     distinct as \<and> set as \<inter> dom m = {} \<and> m' = (\<lambda>a. if a \<in> set as then Some AdminRole else m a)"
  by (induction as arbitrary: m) (auto simp: fun_eq_iff split: option.splits)

lemma verifyManagers_ok:
  assumes "\<forall>r \<in> ran m. IsEnabled r"
  shows "is_ok (verifyManagers as m) \<longleftrightarrow> distinct as \<and> set as \<inter> dom m = {}"
  using assms
proof (induction as arbitrary: m)
  case Nil
  then show ?case by simp
next
  case (Cons a as)
  have ran: "\<forall>r \<in> ran (m(a \<mapsto> ManagerRole)). IsEnabled r"
    using Cons.prems by (auto simp: ran_def IsEnabled_def)
  show ?case
  proof (cases "m a")
    case None
    then have step: "verifyManagers (a # as) m = verifyManagers as (m(a \<mapsto> ManagerRole))" by simp
    have dom: "dom (m(a \<mapsto> ManagerRole)) = insert a (dom m)" by simp
    show ?thesis unfolding step Cons.IH [OF ran] dom using None by auto
  next
    case (Some r)
    with Cons.prems have "IsEnabled r" by (auto simp: ran_def)
    with Some show ?thesis by (auto simp: IsEnabled_def)
  qed
qed

lemma AllowListConfig_Verify_iff:
  "AllowListConfig_Verify c cc u = None \<longleftrightarrow>
     distinct (alc_EnabledAddresses c @ alc_AdminAddresses c @ alc_ManagerAddresses c) \<and>
     (alc_ManagerAddresses c = [] \<or>
      (\<forall>t. up_BlockTimestamp u = Some t \<longrightarrow> ccv_IsDurango cc t))"
proof -
  define en ad where "en = alc_EnabledAddresses c" and "ad = alc_AdminAddresses c"
  define m1 where "m1 = (\<lambda>a. if a \<in> set en then Some EnabledRole else None)"
  define m2 where "m2 = (\<lambda>a. if a \<in> set ad then Some AdminRole else m1 a)"
  have ran: "\<forall>r \<in> ran m2. IsEnabled r"
    by (auto simp: ran_def m1_def m2_def IsEnabled_def split: if_splits)
  have dom: "dom m1 = set en" "dom m2 = set en \<union> set ad"
    by (auto simp: m1_def m2_def split: if_splits)
  have e: "verifyEnabled en Map.empty = Inr m \<longleftrightarrow> distinct en \<and> m = m1" for m
    by (simp add: verifyEnabled_Inr m1_def)
  have a: "verifyAdmins ad m1 = Inr m \<longleftrightarrow> distinct ad \<and> set ad \<inter> set en = {} \<and> m = m2" for m
    by (simp add: verifyAdmins_Inr m2_def dom)
  have mg: "(\<exists>m. verifyManagers ms m2 = Inr m) \<longleftrightarrow>
      distinct ms \<and> set ms \<inter> (set en \<union> set ad) = {}" for ms
    using verifyManagers_ok [OF ran, of ms] by (cases "verifyManagers ms m2") (auto simp: dom)
  have "AllowListConfig_Verify c cc u = None \<longleftrightarrow>
      distinct en \<and> (distinct ad \<and> set ad \<inter> set en = {}) \<and>
      \<not> (alc_ManagerAddresses c \<noteq> [] \<and>
         (case Upgrade_Timestamp u of None \<Rightarrow> False | Some t \<Rightarrow> \<not> ccv_IsDurango cc t)) \<and>
      (distinct (alc_ManagerAddresses c) \<and> set (alc_ManagerAddresses c) \<inter> (set en \<union> set ad) = {})"
    unfolding AllowListConfig_Verify_def en_def [symmetric] ad_def [symmetric] case_sum_Some_None
      if_Some_None e
    by (simp only: ex_simps simp_thms a if_Some_None conj_assoc mg)
  then show ?thesis
    unfolding en_def ad_def by (cases "up_BlockTimestamp u") (auto simp: Upgrade_Timestamp_def)
qed

lemma FromBig_IsEnabled: "FromBig b = Inr r \<Longrightarrow> IsNoRole r \<or> IsEnabled r"
  by (auto simp: FromBig_def Let_def IsNoRole_def IsEnabled_def split: if_splits)

lemma CanModify_iff:
  "CanModify r frm target \<longleftrightarrow>
     IsAdmin r \<or> r = ManagerRole \<and> {frm, target} \<subseteq> {EnabledRole, NoRole}"
  by (auto simp: CanModify_def IsAdmin_def)

end
