(* ===== verification/PrecompileConfig.thy ===== *)
theory PrecompileConfig
  imports AllowListConfig
begin

text \<open>
  The configurations of the stateful precompiles (config.go of each package under
  precompile/contracts). The interface precompileconfig.Config is the datatype of its
  implementations: a type assertion is a match on the constructor.
\<close>

subsection \<open>The configuration of each precompile\<close>

record FeeManagerConfig =
  fm_AllowListConfig :: AllowListConfig
  fm_Upgrade :: Upgrade
  fm_InitialFeeConfig :: "FeeConfig option"

text \<open>InitialMint is a Go map: an association list in the order a range loop visits it.\<close>

record NativeMinterConfig =
  nm_AllowListConfig :: AllowListConfig
  nm_Upgrade :: Upgrade
  nm_InitialMint :: "(address \<times> int option) list"

record InitialRewardConfig =
  ir_AllowFeeRecipients :: bool
  ir_RewardAddress :: address

record RewardManagerConfig =
  rm_AllowListConfig :: AllowListConfig
  rm_Upgrade :: Upgrade
  rm_InitialRewardConfig :: "InitialRewardConfig option"

record TxAllowListConfig =
  ta_AllowListConfig :: AllowListConfig
  ta_Upgrade :: Upgrade

record DeployerAllowListConfig =
  da_AllowListConfig :: AllowListConfig
  da_Upgrade :: Upgrade

record WarpConfig =
  wc_Upgrade :: Upgrade
  wc_QuorumNumerator :: u64
  wc_RequirePrimaryNetworkSigners :: bool

datatype Config =
    FeeManager FeeManagerConfig
  | NativeMinter NativeMinterConfig
  | RewardManager RewardManagerConfig
  | TxAllowList TxAllowListConfig
  | DeployerAllowList DeployerAllowListConfig
  | Warp WarpConfig

subsection \<open>Key, Timestamp and IsDisabled\<close>

definition feeManager_ConfigKey :: string where
  "feeManager_ConfigKey = ''feeManagerConfig''"
definition nativeMinter_ConfigKey :: string where
  "nativeMinter_ConfigKey = ''contractNativeMinterConfig''"
definition rewardManager_ConfigKey :: string where
  "rewardManager_ConfigKey = ''rewardManagerConfig''"
definition txAllowList_ConfigKey :: string where
  "txAllowList_ConfigKey = ''txAllowListConfig''"
definition deployerAllowList_ConfigKey :: string where
  "deployerAllowList_ConfigKey = ''contractDeployerAllowListConfig''"
definition warp_ConfigKey :: string where
  "warp_ConfigKey = ''warpConfig''"

fun Config_Key :: "Config \<Rightarrow> string" where
  "Config_Key (FeeManager _) = feeManager_ConfigKey"
| "Config_Key (NativeMinter _) = nativeMinter_ConfigKey"
| "Config_Key (RewardManager _) = rewardManager_ConfigKey"
| "Config_Key (TxAllowList _) = txAllowList_ConfigKey"
| "Config_Key (DeployerAllowList _) = deployerAllowList_ConfigKey"
| "Config_Key (Warp _) = warp_ConfigKey"

fun Config_Upgrade :: "Config \<Rightarrow> Upgrade" where
  "Config_Upgrade (FeeManager c) = fm_Upgrade c"
| "Config_Upgrade (NativeMinter c) = nm_Upgrade c"
| "Config_Upgrade (RewardManager c) = rm_Upgrade c"
| "Config_Upgrade (TxAllowList c) = ta_Upgrade c"
| "Config_Upgrade (DeployerAllowList c) = da_Upgrade c"
| "Config_Upgrade (Warp c) = wc_Upgrade c"

definition Config_Timestamp :: "Config \<Rightarrow> u64 option" where
  "Config_Timestamp c = Upgrade_Timestamp (Config_Upgrade c)"

definition Config_IsDisabled :: "Config \<Rightarrow> bool" where
  "Config_IsDisabled c = Upgrade_IsDisabled (Config_Upgrade c)"

subsection \<open>Constructors\<close>

definition NewAllowListConfig ::
    "address list \<Rightarrow> address list \<Rightarrow> address list \<Rightarrow> AllowListConfig" where
  "NewAllowListConfig admins enableds managers =
     \<lparr>alc_AdminAddresses = admins, alc_ManagerAddresses = managers, alc_EnabledAddresses = enableds\<rparr>"

definition feeManager_NewConfig where
  "feeManager_NewConfig blockTimestamp admins enableds managers initialConfig =
     \<lparr>fm_AllowListConfig = NewAllowListConfig admins enableds managers,
      fm_Upgrade = \<lparr>up_BlockTimestamp = blockTimestamp, up_Disable = False\<rparr>,
      fm_InitialFeeConfig = initialConfig\<rparr>"

definition feeManager_NewDisableConfig where
  "feeManager_NewDisableConfig blockTimestamp =
     \<lparr>fm_AllowListConfig = NewAllowListConfig [] [] [],
      fm_Upgrade = \<lparr>up_BlockTimestamp = blockTimestamp, up_Disable = True\<rparr>,
      fm_InitialFeeConfig = None\<rparr>"

definition nativeMinter_NewConfig where
  "nativeMinter_NewConfig blockTimestamp admins enableds managers initialMint =
     \<lparr>nm_AllowListConfig = NewAllowListConfig admins enableds managers,
      nm_Upgrade = \<lparr>up_BlockTimestamp = blockTimestamp, up_Disable = False\<rparr>,
      nm_InitialMint = initialMint\<rparr>"

definition nativeMinter_NewDisableConfig where
  "nativeMinter_NewDisableConfig blockTimestamp =
     \<lparr>nm_AllowListConfig = NewAllowListConfig [] [] [],
      nm_Upgrade = \<lparr>up_BlockTimestamp = blockTimestamp, up_Disable = True\<rparr>,
      nm_InitialMint = []\<rparr>"

definition rewardManager_NewConfig where
  "rewardManager_NewConfig blockTimestamp admins enableds managers initialConfig =
     \<lparr>rm_AllowListConfig = NewAllowListConfig admins enableds managers,
      rm_Upgrade = \<lparr>up_BlockTimestamp = blockTimestamp, up_Disable = False\<rparr>,
      rm_InitialRewardConfig = initialConfig\<rparr>"

definition rewardManager_NewDisableConfig where
  "rewardManager_NewDisableConfig blockTimestamp =
     \<lparr>rm_AllowListConfig = NewAllowListConfig [] [] [],
      rm_Upgrade = \<lparr>up_BlockTimestamp = blockTimestamp, up_Disable = True\<rparr>,
      rm_InitialRewardConfig = None\<rparr>"

definition txAllowList_NewConfig where
  "txAllowList_NewConfig blockTimestamp admins enableds managers =
     \<lparr>ta_AllowListConfig = NewAllowListConfig admins enableds managers,
      ta_Upgrade = \<lparr>up_BlockTimestamp = blockTimestamp, up_Disable = False\<rparr>\<rparr>"

definition txAllowList_NewDisableConfig where
  "txAllowList_NewDisableConfig blockTimestamp =
     \<lparr>ta_AllowListConfig = NewAllowListConfig [] [] [],
      ta_Upgrade = \<lparr>up_BlockTimestamp = blockTimestamp, up_Disable = True\<rparr>\<rparr>"

definition deployerAllowList_NewConfig where
  "deployerAllowList_NewConfig blockTimestamp admins enableds managers =
     \<lparr>da_AllowListConfig = NewAllowListConfig admins enableds managers,
      da_Upgrade = \<lparr>up_BlockTimestamp = blockTimestamp, up_Disable = False\<rparr>\<rparr>"

definition deployerAllowList_NewDisableConfig where
  "deployerAllowList_NewDisableConfig blockTimestamp =
     \<lparr>da_AllowListConfig = NewAllowListConfig [] [] [],
      da_Upgrade = \<lparr>up_BlockTimestamp = blockTimestamp, up_Disable = True\<rparr>\<rparr>"

definition warp_NewConfig where
  "warp_NewConfig blockTimestamp quorumNumerator requirePrimaryNetworkSigners =
     \<lparr>wc_Upgrade = \<lparr>up_BlockTimestamp = blockTimestamp, up_Disable = False\<rparr>,
      wc_QuorumNumerator = quorumNumerator,
      wc_RequirePrimaryNetworkSigners = requirePrimaryNetworkSigners\<rparr>"

definition warp_NewDefaultConfig where
  "warp_NewDefaultConfig blockTimestamp = warp_NewConfig blockTimestamp 0 False"

definition warp_NewDisableConfig where
  "warp_NewDisableConfig blockTimestamp =
     \<lparr>wc_Upgrade = \<lparr>up_BlockTimestamp = blockTimestamp, up_Disable = True\<rparr>,
      wc_QuorumNumerator = 0, wc_RequirePrimaryNetworkSigners = False\<rparr>"

subsection \<open>Equal\<close>

definition feeManager_Equal :: "FeeManagerConfig \<Rightarrow> Config \<Rightarrow> bool" where
  "feeManager_Equal c cfg =
     (case cfg of
        FeeManager other \<Rightarrow>
          Upgrade_Equal (fm_Upgrade c) (Some (fm_Upgrade other)) \<and>
          AllowListConfig_Equal (fm_AllowListConfig c) (Some (fm_AllowListConfig other)) \<and>
          (case fm_InitialFeeConfig c of
             None \<Rightarrow> fm_InitialFeeConfig other = None
           | Some f \<Rightarrow> FeeConfig_Equal f (fm_InitialFeeConfig other))
      | _ \<Rightarrow> False)"

definition nativeMinter_Equal :: "NativeMinterConfig \<Rightarrow> Config \<Rightarrow> bool" where
  "nativeMinter_Equal c cfg =
     (case cfg of
        NativeMinter other \<Rightarrow>
          Upgrade_Equal (nm_Upgrade c) (Some (nm_Upgrade other)) \<and>
          AllowListConfig_Equal (nm_AllowListConfig c) (Some (nm_AllowListConfig other)) \<and>
          length (nm_InitialMint c) = length (nm_InitialMint other) \<and>
          (\<forall>(addr, amount) \<in> set (nm_InitialMint c).
             (case map_of (nm_InitialMint other) addr of
                None \<Rightarrow> False
              | Some val \<Rightarrow> BigNumEqual amount val))
      | _ \<Rightarrow> False)"

definition InitialRewardConfig_Equal ::
    "InitialRewardConfig \<Rightarrow> InitialRewardConfig option \<Rightarrow> bool" where
  "InitialRewardConfig_Equal i other =
     (case other of
        None \<Rightarrow> False
      | Some j \<Rightarrow> ir_AllowFeeRecipients i = ir_AllowFeeRecipients j \<and>
                  ir_RewardAddress i = ir_RewardAddress j)"

definition rewardManager_Equal :: "RewardManagerConfig \<Rightarrow> Config \<Rightarrow> bool" where
  "rewardManager_Equal c cfg =
     (case cfg of
        RewardManager other \<Rightarrow>
          (case rm_InitialRewardConfig c of
             None \<Rightarrow> True
           | Some i \<Rightarrow> InitialRewardConfig_Equal i (rm_InitialRewardConfig other)) \<and>
          Upgrade_Equal (rm_Upgrade c) (Some (rm_Upgrade other)) \<and>
          AllowListConfig_Equal (rm_AllowListConfig c) (Some (rm_AllowListConfig other))
      | _ \<Rightarrow> False)"

definition txAllowList_Equal :: "TxAllowListConfig \<Rightarrow> Config \<Rightarrow> bool" where
  "txAllowList_Equal c cfg =
     (case cfg of
        TxAllowList other \<Rightarrow>
          Upgrade_Equal (ta_Upgrade c) (Some (ta_Upgrade other)) \<and>
          AllowListConfig_Equal (ta_AllowListConfig c) (Some (ta_AllowListConfig other))
      | _ \<Rightarrow> False)"

definition deployerAllowList_Equal :: "DeployerAllowListConfig \<Rightarrow> Config \<Rightarrow> bool" where
  "deployerAllowList_Equal c cfg =
     (case cfg of
        DeployerAllowList other \<Rightarrow>
          Upgrade_Equal (da_Upgrade c) (Some (da_Upgrade other)) \<and>
          AllowListConfig_Equal (da_AllowListConfig c) (Some (da_AllowListConfig other))
      | _ \<Rightarrow> False)"

definition warp_Equal :: "WarpConfig \<Rightarrow> Config \<Rightarrow> bool" where
  "warp_Equal c cfg =
     (case cfg of
        Warp other \<Rightarrow>
          Upgrade_Equal (wc_Upgrade c) (Some (wc_Upgrade other)) \<and>
          wc_QuorumNumerator c = wc_QuorumNumerator other
      | _ \<Rightarrow> False)"

fun Config_Equal :: "Config \<Rightarrow> Config \<Rightarrow> bool" where
  "Config_Equal (FeeManager c) cfg = feeManager_Equal c cfg"
| "Config_Equal (NativeMinter c) cfg = nativeMinter_Equal c cfg"
| "Config_Equal (RewardManager c) cfg = rewardManager_Equal c cfg"
| "Config_Equal (TxAllowList c) cfg = txAllowList_Equal c cfg"
| "Config_Equal (DeployerAllowList c) cfg = deployerAllowList_Equal c cfg"
| "Config_Equal (Warp c) cfg = warp_Equal c cfg"

subsection \<open>Verify\<close>

datatype config_error =
    AllowListErr allowlist_config_error
  | FeeErr fee_error
  | MintNil address
  | MintNotPositive address int
  | ErrCannotEnableBothRewards
  | ErrWarpCannotBeActivated
  | QuorumAboveDenominator u64
  | QuorumBelowMinimum u64

definition feeManager_Verify :: "FeeManagerConfig \<Rightarrow> ChainConfigView \<Rightarrow> config_error option" where
  "feeManager_Verify c chainConfig =
     (case AllowListConfig_Verify (fm_AllowListConfig c) chainConfig (fm_Upgrade c) of
        Some e \<Rightarrow> Some (AllowListErr e)
      | None \<Rightarrow>
          (case fm_InitialFeeConfig c of
             None \<Rightarrow> None
           | Some f \<Rightarrow> map_option FeeErr (FeeConfig_Verify f)))"

fun verifyInitialMint :: "(address \<times> int option) list \<Rightarrow> config_error option" where
  "verifyInitialMint [] = None"
| "verifyInitialMint ((addr, amount) # rest) =
     (case amount of
        None \<Rightarrow> Some (MintNil addr)
      | Some a \<Rightarrow> if sgn a < 1 then Some (MintNotPositive addr a) else verifyInitialMint rest)"

definition nativeMinter_Verify :: "NativeMinterConfig \<Rightarrow> ChainConfigView \<Rightarrow> config_error option" where
  "nativeMinter_Verify c chainConfig =
     (case verifyInitialMint (nm_InitialMint c) of
        Some e \<Rightarrow> Some e
      | None \<Rightarrow> map_option AllowListErr
                  (AllowListConfig_Verify (nm_AllowListConfig c) chainConfig (nm_Upgrade c)))"

definition InitialRewardConfig_Verify :: "InitialRewardConfig \<Rightarrow> config_error option" where
  "InitialRewardConfig_Verify i =
     (if ir_AllowFeeRecipients i \<and> ir_RewardAddress i \<noteq> 0
      then Some ErrCannotEnableBothRewards else None)"

definition rewardManager_Verify :: "RewardManagerConfig \<Rightarrow> ChainConfigView \<Rightarrow> config_error option" where
  "rewardManager_Verify c chainConfig =
     (case Option.bind (rm_InitialRewardConfig c) InitialRewardConfig_Verify of
        Some e \<Rightarrow> Some e
      | None \<Rightarrow> map_option AllowListErr
                  (AllowListConfig_Verify (rm_AllowListConfig c) chainConfig (rm_Upgrade c)))"

definition txAllowList_Verify :: "TxAllowListConfig \<Rightarrow> ChainConfigView \<Rightarrow> config_error option" where
  "txAllowList_Verify c chainConfig =
     map_option AllowListErr
       (AllowListConfig_Verify (ta_AllowListConfig c) chainConfig (ta_Upgrade c))"

definition deployerAllowList_Verify ::
    "DeployerAllowListConfig \<Rightarrow> ChainConfigView \<Rightarrow> config_error option" where
  "deployerAllowList_Verify c chainConfig =
     map_option AllowListErr
       (AllowListConfig_Verify (da_AllowListConfig c) chainConfig (da_Upgrade c))"

definition WarpDefaultQuorumNumerator :: u64 where "WarpDefaultQuorumNumerator = 67"
definition WarpQuorumNumeratorMinimum :: u64 where "WarpQuorumNumeratorMinimum = 33"
definition WarpQuorumDenominator :: u64 where "WarpQuorumDenominator = 100"

definition warp_Verify :: "WarpConfig \<Rightarrow> ChainConfigView \<Rightarrow> config_error option" where
  "warp_Verify c chainConfig =
     (if (case Upgrade_Timestamp (wc_Upgrade c) of
            None \<Rightarrow> False
          | Some timestamp \<Rightarrow> \<not> ccv_IsDurango chainConfig timestamp)
      then Some ErrWarpCannotBeActivated
      else if WarpQuorumDenominator < wc_QuorumNumerator c
      then Some (QuorumAboveDenominator (wc_QuorumNumerator c))
      else if wc_QuorumNumerator c \<noteq> 0 \<and> wc_QuorumNumerator c < WarpQuorumNumeratorMinimum
      then Some (QuorumBelowMinimum (wc_QuorumNumerator c))
      else None)"

fun Config_Verify :: "Config \<Rightarrow> ChainConfigView \<Rightarrow> config_error option" where
  "Config_Verify (FeeManager c) cc = feeManager_Verify c cc"
| "Config_Verify (NativeMinter c) cc = nativeMinter_Verify c cc"
| "Config_Verify (RewardManager c) cc = rewardManager_Verify c cc"
| "Config_Verify (TxAllowList c) cc = txAllowList_Verify c cc"
| "Config_Verify (DeployerAllowList c) cc = deployerAllowList_Verify c cc"
| "Config_Verify (Warp c) cc = warp_Verify c cc"

subsection \<open>Facts\<close>

lemmas config_key_defs =
  feeManager_ConfigKey_def nativeMinter_ConfigKey_def rewardManager_ConfigKey_def
  txAllowList_ConfigKey_def deployerAllowList_ConfigKey_def warp_ConfigKey_def

lemmas config_equal_defs =
  feeManager_Equal_def nativeMinter_Equal_def rewardManager_Equal_def txAllowList_Equal_def
  deployerAllowList_Equal_def warp_Equal_def InitialRewardConfig_Equal_def FeeConfig_Equal_iff

text \<open>Configurations that Equal accepts are of the same precompile and schedule the same upgrade.\<close>

lemma Config_Equal_same_upgrade:
  "Config_Equal c d \<Longrightarrow> Config_Key c = Config_Key d \<and> Config_Upgrade c = Config_Upgrade d"
  by (cases c; cases d) (simp_all add: config_equal_defs)

lemma Config_Equal_Timestamp: "Config_Equal c d \<Longrightarrow> Config_Timestamp c = Config_Timestamp d"
  by (simp add: Config_Timestamp_def Config_Equal_same_upgrade)

lemma Config_Equal_IsDisabled: "Config_Equal c d \<Longrightarrow> Config_IsDisabled c = Config_IsDisabled d"
  by (simp add: Config_IsDisabled_def Config_Equal_same_upgrade)

lemma verifyInitialMint_None:
  "verifyInitialMint m = None \<longleftrightarrow> (\<forall>(addr, amount) \<in> set m. \<exists>a > 0. amount = Some a)"
proof (induction m rule: verifyInitialMint.induct)
  case 1
  then show ?case by simp
next
  case (2 addr amount rest)
  have "sgn a < 1 \<longleftrightarrow> \<not> a > 0" for a :: int by (simp add: sgn_if)
  with 2 show ?case by (auto split: option.splits)
qed

text \<open>
  What each configuration that Equal accepts has in common. Two of them leave a field out: the reward
  manager's initial configuration when the receiver has none, and warp's signer requirement.
\<close>

lemma feeManager_Equal_iff: "feeManager_Equal c (FeeManager d) \<longleftrightarrow> c = d"
  by (cases c; cases d) (auto simp: config_equal_defs split: option.splits)

lemma rewardManager_Equal_iff:
  "rewardManager_Equal c (RewardManager d) \<longleftrightarrow>
     rm_Upgrade c = rm_Upgrade d \<and> rm_AllowListConfig c = rm_AllowListConfig d \<and>
     (rm_InitialRewardConfig c = None \<or> rm_InitialRewardConfig c = rm_InitialRewardConfig d)"
  by (auto simp: config_equal_defs split: option.splits)

lemma length_eq_map_le_distinct:
  assumes "distinct (map fst xs)" "distinct (map fst ys)" "length xs = length ys"
    and "\<forall>(k, v) \<in> set xs. map_of ys k = Some v"
  shows "map_of xs = map_of ys"
proof -
  have sub: "set xs \<subseteq> set ys" using assms(4) by (auto dest: map_of_SomeD)
  have "card (set xs) = length xs" "card (set ys) = length ys"
    using assms(1,2) by (auto intro!: distinct_card simp: distinct_map)
  with sub assms(3) have "set xs = set ys" by (intro card_subset_eq) auto
  with assms(1,2) show ?thesis by (simp add: map_of_inject_set)
qed

lemma nativeMinter_Equal_sound:
  assumes "nativeMinter_Equal c (NativeMinter d)"
    and "distinct (map fst (nm_InitialMint c))" "distinct (map fst (nm_InitialMint d))"
  shows "nm_Upgrade c = nm_Upgrade d \<and> nm_AllowListConfig c = nm_AllowListConfig d \<and>
    map_of (nm_InitialMint c) = map_of (nm_InitialMint d)"
  using assms(1) length_eq_map_le_distinct [OF assms(2,3)]
  by (fastforce simp: nativeMinter_Equal_def split: option.splits)

end
