(* ===== verification/Modules.thy ===== *)
theory Modules
  imports PrecompileConfig
begin

text \<open>
  The registry of stateful precompiles: precompile/modules/module.go and registerer.go, with
  utils/address_range.go and the registration order of precompile/registry/registry.go. The contract
  and the configurator of a module are its type parameters. Addresses compare as the big-endian bytes
  do, which is the order of words.
\<close>

record AddressRange =
  Start :: address
  End :: address

definition AddressRange_Contains :: "AddressRange \<Rightarrow> address \<Rightarrow> bool" where
  "AddressRange_Contains a addr \<longleftrightarrow> Start a \<le> addr \<and> addr \<le> End a"

record ('c, 'f) Module =
  mod_ConfigKey :: string
  mod_Address :: address
  mod_Contract :: 'c
  mod_Configurator :: 'f

definition reservedRanges :: "AddressRange list" where
  "reservedRanges =
     [\<lparr>Start = 0x0100000000000000000000000000000000000000, End = 0x01000000000000000000000000000000000000ff\<rparr>,
      \<lparr>Start = 0x0200000000000000000000000000000000000000, End = 0x02000000000000000000000000000000000000ff\<rparr>,
      \<lparr>Start = 0x0300000000000000000000000000000000000000, End = 0x03000000000000000000000000000000000000ff\<rparr>]"

definition ReservedAddress :: "address \<Rightarrow> bool" where
  "ReservedAddress addr = list_ex (\<lambda>r. AddressRange_Contains r addr) reservedRanges"

definition BlackholeAddr :: address where
  "BlackholeAddr = 0x0100000000000000000000000000000000000000"

datatype register_error =
    OverlapsBlackhole address
  | NotReserved address
  | NameUsed string
  | AddressUsed address

fun checkRegistered ::
    "('c, 'f) Module list \<Rightarrow> string \<Rightarrow> address \<Rightarrow> register_error option" where
  "checkRegistered [] key addr = None"
| "checkRegistered (m # ms) key addr =
     (if mod_ConfigKey m = key then Some (NameUsed key)
      else if mod_Address m = addr then Some (AddressUsed addr)
      else checkRegistered ms key addr)"

text \<open>sort.Sort by address: the addresses of the registry are distinct, so the order is unique.\<close>

definition insertSortedByAddress ::
    "('c, 'f) Module list \<Rightarrow> ('c, 'f) Module \<Rightarrow> ('c, 'f) Module list" where
  "insertSortedByAddress data stm = sort_key mod_Address (data @ [stm])"

definition RegisterModule ::
    "('c, 'f) Module \<Rightarrow> ('c, 'f) Module list \<Rightarrow> register_error + ('c, 'f) Module list" where
  "RegisterModule stm registeredModules =
     (if mod_Address stm = BlackholeAddr then Inl (OverlapsBlackhole (mod_Address stm))
      else if \<not> ReservedAddress (mod_Address stm) then Inl (NotReserved (mod_Address stm))
      else case checkRegistered registeredModules (mod_ConfigKey stm) (mod_Address stm) of
             Some e \<Rightarrow> Inl e
           | None \<Rightarrow> Inr (insertSortedByAddress registeredModules stm))"

fun GetPrecompileModuleByAddress ::
    "('c, 'f) Module list \<Rightarrow> address \<Rightarrow> ('c, 'f) Module option" where
  "GetPrecompileModuleByAddress [] addr = None"
| "GetPrecompileModuleByAddress (m # ms) addr =
     (if mod_Address m = addr then Some m else GetPrecompileModuleByAddress ms addr)"

fun GetPrecompileModule :: "('c, 'f) Module list \<Rightarrow> string \<Rightarrow> ('c, 'f) Module option" where
  "GetPrecompileModule [] key = None"
| "GetPrecompileModule (m # ms) key =
     (if mod_ConfigKey m = key then Some m else GetPrecompileModule ms key)"

text \<open>The addresses the packages declare.\<close>

definition deployerAllowList_ContractAddress :: address where
  "deployerAllowList_ContractAddress = 0x0200000000000000000000000000000000000000"
definition nativeMinter_ContractAddress :: address where
  "nativeMinter_ContractAddress = 0x0200000000000000000000000000000000000001"
definition txAllowList_ContractAddress :: address where
  "txAllowList_ContractAddress = 0x0200000000000000000000000000000000000002"
definition feeManager_ContractAddress :: address where
  "feeManager_ContractAddress = 0x0200000000000000000000000000000000000003"
definition rewardManager_ContractAddress :: address where
  "rewardManager_ContractAddress = 0x0200000000000000000000000000000000000004"
definition warp_ContractAddress :: address where
  "warp_ContractAddress = 0x0200000000000000000000000000000000000005"

lemmas contract_address_defs =
  deployerAllowList_ContractAddress_def nativeMinter_ContractAddress_def
  txAllowList_ContractAddress_def feeManager_ContractAddress_def
  rewardManager_ContractAddress_def warp_ContractAddress_def

subsection \<open>Facts\<close>

definition registry_inv :: "('c, 'f) Module list \<Rightarrow> bool" where
  "registry_inv ms \<longleftrightarrow>
     sorted (map mod_Address ms) \<and> distinct (map mod_Address ms) \<and>
     distinct (map mod_ConfigKey ms) \<and>
     (\<forall>m \<in> set ms. ReservedAddress (mod_Address m) \<and> mod_Address m \<noteq> BlackholeAddr)"

lemma registry_inv_Nil [simp]: "registry_inv []"
  by (simp add: registry_inv_def)

lemma checkRegistered_None:
  "checkRegistered ms key addr = None \<longleftrightarrow>
     key \<notin> mod_ConfigKey ` set ms \<and> addr \<notin> mod_Address ` set ms"
  by (induction ms) auto

lemma distinct_map_sort_key: "distinct (map f (sort_key g xs)) \<longleftrightarrow> distinct (map f xs)"
  by (simp add: distinct_map)

lemma RegisterModule_Inr:
  "RegisterModule stm ms = Inr ms' \<longleftrightarrow>
     mod_Address stm \<noteq> BlackholeAddr \<and> ReservedAddress (mod_Address stm) \<and>
     mod_ConfigKey stm \<notin> mod_ConfigKey ` set ms \<and> mod_Address stm \<notin> mod_Address ` set ms \<and>
     ms' = insertSortedByAddress ms stm"
  using checkRegistered_None [of ms "mod_ConfigKey stm" "mod_Address stm"]
  by (auto simp: RegisterModule_def split: option.splits)

lemma RegisterModule_inv:
  assumes "registry_inv ms" "RegisterModule stm ms = Inr ms'"
  shows "registry_inv ms' \<and> set ms' = insert stm (set ms)"
  using assms
  by (auto simp: registry_inv_def RegisterModule_Inr insertSortedByAddress_def
      distinct_map_sort_key)

lemma GetPrecompileModule_unique:
  assumes "distinct (map mod_ConfigKey ms)"
  shows "GetPrecompileModule ms key = Some m \<longleftrightarrow> m \<in> set ms \<and> mod_ConfigKey m = key"
  using assms by (induction ms) auto

lemma GetPrecompileModuleByAddress_unique:
  assumes "distinct (map mod_Address ms)"
  shows "GetPrecompileModuleByAddress ms addr = Some m \<longleftrightarrow> m \<in> set ms \<and> mod_Address m = addr"
  using assms by (induction ms) auto

end
