(* ===== verification/ChainConfig.thy ===== *)
theory ChainConfig
  imports Modules "HOL-Library.AList"
begin

text \<open>
  The chain configuration: params/config.go (the structure, the fork predicates, the fork order and
  the rules), params/config_extra.go, params/precompile_upgrade.go and params/state_upgrade.go. The
  registry of modules, a global of precompile/modules, is the argument \<open>mods\<close>. Compatibility checks are
  in the theory Compatibility.
\<close>

subsection \<open>Structures\<close>

text \<open>
  Code and Storage can be nil or empty, which reflect.DeepEqual tells apart; a zero big.Int has one
  representation here.
\<close>

record StateUpgradeAccount =
  sua_Code :: "byte list option"
  sua_Storage :: "(hash \<times> hash) list option"
  sua_BalanceChange :: "int option"

record StateUpgrade =
  su_BlockTimestamp :: "u64 option"
  su_StateUpgradeAccounts :: "(address \<times> StateUpgradeAccount) list option"

record UpgradeConfig =
  uc_NetworkUpgradeOverrides :: "NetworkUpgrades option"
  uc_StateUpgrades :: "StateUpgrade list"
  uc_PrecompileUpgrades :: "Config list"

record ChainConfig =
  cc_ChainID :: "int option"
  cc_HomesteadBlock :: "int option"
  cc_EIP150Block :: "int option"
  cc_EIP155Block :: "int option"
  cc_EIP158Block :: "int option"
  cc_ByzantiumBlock :: "int option"
  cc_ConstantinopleBlock :: "int option"
  cc_PetersburgBlock :: "int option"
  cc_IstanbulBlock :: "int option"
  cc_MuirGlacierBlock :: "int option"
  cc_BerlinBlock :: "int option"
  cc_LondonBlock :: "int option"
  cc_ShanghaiTime :: "u64 option"
  cc_CancunTime :: "u64 option"
  cc_VerkleTime :: "u64 option"
  cc_NetworkUpgrades :: NetworkUpgrades
  cc_SnowCtx :: "agoUpgrades option"
  cc_FeeConfig :: FeeConfig
  cc_AllowFeeRecipients :: bool
  cc_GenesisPrecompiles :: "(string \<times> Config) list"
  cc_UpgradeConfig :: UpgradeConfig

abbreviation cc_PrecompileUpgrades :: "ChainConfig \<Rightarrow> Config list" where
  "cc_PrecompileUpgrades c \<equiv> uc_PrecompileUpgrades (cc_UpgradeConfig c)"

abbreviation cc_StateUpgrades :: "ChainConfig \<Rightarrow> StateUpgrade list" where
  "cc_StateUpgrades c \<equiv> uc_StateUpgrades (cc_UpgradeConfig c)"

definition GetFeeConfig :: "ChainConfig \<Rightarrow> FeeConfig" where
  "GetFeeConfig c = cc_FeeConfig c"

definition AllowedFeeRecipients :: "ChainConfig \<Rightarrow> bool" where
  "AllowedFeeRecipients c = cc_AllowFeeRecipients c"

text \<open>The chain configuration as the interface precompileconfig.ChainConfig.\<close>

definition ChainConfig_view :: "ChainConfig \<Rightarrow> ChainConfigView" where
  "ChainConfig_view c =
     \<lparr>ccv_GetFeeConfig = GetFeeConfig c, ccv_AllowedFeeRecipients = AllowedFeeRecipients c,
      ccv_IsDurango = IsDurango (cc_NetworkUpgrades c)\<rparr>"

subsection \<open>Fork predicates\<close>

definition IsHomestead :: "ChainConfig \<Rightarrow> int option \<Rightarrow> bool" where
  "IsHomestead c num = isBlockForked (cc_HomesteadBlock c) num"

definition IsEIP150 :: "ChainConfig \<Rightarrow> int option \<Rightarrow> bool" where
  "IsEIP150 c num = isBlockForked (cc_EIP150Block c) num"

definition IsEIP155 :: "ChainConfig \<Rightarrow> int option \<Rightarrow> bool" where
  "IsEIP155 c num = isBlockForked (cc_EIP155Block c) num"

definition IsEIP158 :: "ChainConfig \<Rightarrow> int option \<Rightarrow> bool" where
  "IsEIP158 c num = isBlockForked (cc_EIP158Block c) num"

definition IsByzantium :: "ChainConfig \<Rightarrow> int option \<Rightarrow> bool" where
  "IsByzantium c num = isBlockForked (cc_ByzantiumBlock c) num"

definition IsConstantinople :: "ChainConfig \<Rightarrow> int option \<Rightarrow> bool" where
  "IsConstantinople c num = isBlockForked (cc_ConstantinopleBlock c) num"

definition IsMuirGlacier :: "ChainConfig \<Rightarrow> int option \<Rightarrow> bool" where
  "IsMuirGlacier c num = isBlockForked (cc_MuirGlacierBlock c) num"

definition IsPetersburg :: "ChainConfig \<Rightarrow> int option \<Rightarrow> bool" where
  "IsPetersburg c num \<longleftrightarrow>
     isBlockForked (cc_PetersburgBlock c) num \<or>
     cc_PetersburgBlock c = None \<and> isBlockForked (cc_ConstantinopleBlock c) num"

definition IsIstanbul :: "ChainConfig \<Rightarrow> int option \<Rightarrow> bool" where
  "IsIstanbul c num = isBlockForked (cc_IstanbulBlock c) num"

definition IsBerlin :: "ChainConfig \<Rightarrow> int option \<Rightarrow> bool" where
  "IsBerlin c num = isBlockForked (cc_BerlinBlock c) num"

definition IsLondon :: "ChainConfig \<Rightarrow> int option \<Rightarrow> bool" where
  "IsLondon c num = isBlockForked (cc_LondonBlock c) num"

definition IsShanghai :: "ChainConfig \<Rightarrow> int option \<Rightarrow> u64 \<Rightarrow> bool" where
  "IsShanghai c num time \<longleftrightarrow> IsLondon c num \<and> isTimestampForked (cc_ShanghaiTime c) time"

definition IsCancun :: "ChainConfig \<Rightarrow> int option \<Rightarrow> u64 \<Rightarrow> bool" where
  "IsCancun c num time \<longleftrightarrow> IsLondon c num \<and> isTimestampForked (cc_CancunTime c) time"

definition IsVerkle :: "ChainConfig \<Rightarrow> int option \<Rightarrow> u64 \<Rightarrow> bool" where
  "IsVerkle c num time \<longleftrightarrow> IsLondon c num \<and> isTimestampForked (cc_VerkleTime c) time"

lemmas fork_predicate_defs =
  IsHomestead_def IsEIP150_def IsEIP155_def IsEIP158_def IsByzantium_def IsConstantinople_def
  IsMuirGlacier_def IsPetersburg_def IsIstanbul_def IsBerlin_def IsLondon_def IsShanghai_def
  IsCancun_def IsVerkle_def

subsection \<open>Defaults\<close>

abbreviation set_if_nil :: "'a option \<Rightarrow> 'a \<Rightarrow> 'a option" where
  "set_if_nil x d \<equiv> (if x = None then Some d else x)"

definition SetEthUpgrades :: "ChainConfig \<Rightarrow> NetworkUpgrades \<Rightarrow> ChainConfig" where
  "SetEthUpgrades c avalancheUpgrades =
     c\<lparr>cc_BerlinBlock := set_if_nil (cc_BerlinBlock c) 0,
       cc_LondonBlock := set_if_nil (cc_LondonBlock c) 0,
       cc_ShanghaiTime := (case DurangoTimestamp avalancheUpgrades of
                             None \<Rightarrow> cc_ShanghaiTime c | Some t \<Rightarrow> Some t),
       cc_CancunTime := (case EtnaTimestamp avalancheUpgrades of
                           None \<Rightarrow> cc_CancunTime c | Some t \<Rightarrow> Some t)\<rparr>"

text \<open>A nil SnowCtx is dereferenced: \<open>None\<close> is that panic.\<close>

definition SetNetworkUpgradeDefaults :: "ChainConfig \<Rightarrow> ChainConfig option" where
  "SetNetworkUpgradeDefaults c =
     map_option (\<lambda>ago.
       c\<lparr>cc_HomesteadBlock := set_if_nil (cc_HomesteadBlock c) 0,
         cc_EIP150Block := set_if_nil (cc_EIP150Block c) 0,
         cc_EIP155Block := set_if_nil (cc_EIP155Block c) 0,
         cc_EIP158Block := set_if_nil (cc_EIP158Block c) 0,
         cc_ByzantiumBlock := set_if_nil (cc_ByzantiumBlock c) 0,
         cc_ConstantinopleBlock := set_if_nil (cc_ConstantinopleBlock c) 0,
         cc_PetersburgBlock := set_if_nil (cc_PetersburgBlock c) 0,
         cc_IstanbulBlock := set_if_nil (cc_IstanbulBlock c) 0,
         cc_MuirGlacierBlock := set_if_nil (cc_MuirGlacierBlock c) 0,
         cc_NetworkUpgrades := setDefaults (cc_NetworkUpgrades c) ago\<rparr>) (cc_SnowCtx c)"

subsection \<open>The order of forks\<close>

record fork =
  fork_name :: string
  fork_block :: "int option"
  fork_timestamp :: "u64 option"
  fork_optional :: bool

datatype fork_error =
    ErrNonGenesisForkByHeight
  | NotEnabledButEnabledAtBlock string string
  | NotEnabledButEnabledAtTimestamp string string
  | BlockOrder string string
  | TimestampOrder string string
  | RevertedToBlockOrdering string string

abbreviation fork_set :: "fork \<Rightarrow> bool" where
  "fork_set f \<equiv> fork_block f \<noteq> None \<or> fork_timestamp f \<noteq> None"

text \<open>
  One iteration's comparison of a fork with the last one: \<open>None\<close> is the panic of comparing with a nil
  block or dereferencing a nil timestamp.
\<close>

definition checkForkPair :: "fork \<Rightarrow> fork \<Rightarrow> fork_error option option" where
  "checkForkPair lastFork cur =
     (let ln = fork_name lastFork; cn = fork_name cur in
      if fork_block lastFork = None \<and> fork_timestamp lastFork = None \<and> fork_set cur
      then Some (Some (if fork_block cur \<noteq> None then NotEnabledButEnabledAtBlock ln cn
                       else NotEnabledButEnabledAtTimestamp ln cn))
      else if fork_block lastFork \<noteq> None \<and> fork_block cur \<noteq> None \<or>
              fork_timestamp lastFork \<noteq> None \<and> fork_timestamp cur \<noteq> None
      then (case (fork_block lastFork, fork_block cur) of
              (Some _, None) \<Rightarrow> None
            | (lb, cb) \<Rightarrow>
                if lb \<noteq> None \<and> the cb < the lb then Some (Some (BlockOrder ln cn))
                else (case (fork_timestamp lastFork, fork_timestamp cur) of
                        (Some _, None) \<Rightarrow> None
                      | (lt, ct) \<Rightarrow>
                          if lt \<noteq> None \<and> the ct < the lt then Some (Some (TimestampOrder ln cn))
                          else if lt \<noteq> None \<and> cb \<noteq> None then Some (Some (RevertedToBlockOrdering ln cn))
                          else Some None))
      else Some None)"

fun checkForks_loop :: "fork list \<Rightarrow> bool \<Rightarrow> fork \<Rightarrow> fork_error option option" where
  "checkForks_loop [] blockFork lastFork = Some None"
| "checkForks_loop (cur # forks) blockFork lastFork =
     (if blockFork \<and> fork_block cur \<noteq> None \<and> fork_block cur \<noteq> Some 0
      then Some (Some ErrNonGenesisForkByHeight)
      else case (if fork_name lastFork \<noteq> [] then checkForkPair lastFork cur else Some None) of
             None \<Rightarrow> None
           | Some (Some e) \<Rightarrow> Some (Some e)
           | Some None \<Rightarrow>
               checkForks_loop forks blockFork
                 (if \<not> fork_optional cur \<or> fork_set cur then cur else lastFork))"

definition checkForks :: "fork list \<Rightarrow> bool \<Rightarrow> fork_error option option" where
  "checkForks forks blockFork =
     checkForks_loop forks blockFork
       \<lparr>fork_name = [], fork_block = None, fork_timestamp = None, fork_optional = False\<rparr>"

abbreviation block_fork :: "string \<Rightarrow> int option \<Rightarrow> bool \<Rightarrow> fork" where
  "block_fork n b opt \<equiv> \<lparr>fork_name = n, fork_block = b, fork_timestamp = None, fork_optional = opt\<rparr>"

abbreviation time_fork :: "string \<Rightarrow> u64 option \<Rightarrow> bool \<Rightarrow> fork" where
  "time_fork n t opt \<equiv> \<lparr>fork_name = n, fork_block = None, fork_timestamp = t, fork_optional = opt\<rparr>"

definition forkOrder :: "NetworkUpgrades \<Rightarrow> fork list" where
  "forkOrder n =
     [time_fork ''subnetEVMTimestamp'' (SubnetEVMTimestamp n) False,
      time_fork ''durangoTimestamp'' (DurangoTimestamp n) False,
      time_fork ''etnaTimestamp'' (EtnaTimestamp n) False]"

definition ethForks :: "ChainConfig \<Rightarrow> fork list" where
  "ethForks c =
     [block_fork ''homesteadBlock'' (cc_HomesteadBlock c) False,
      block_fork ''eip150Block'' (cc_EIP150Block c) False,
      block_fork ''eip155Block'' (cc_EIP155Block c) False,
      block_fork ''eip158Block'' (cc_EIP158Block c) False,
      block_fork ''byzantiumBlock'' (cc_ByzantiumBlock c) False,
      block_fork ''constantinopleBlock'' (cc_ConstantinopleBlock c) False,
      block_fork ''petersburgBlock'' (cc_PetersburgBlock c) False,
      block_fork ''istanbulBlock'' (cc_IstanbulBlock c) False,
      block_fork ''muirGlacierBlock'' (cc_MuirGlacierBlock c) True,
      block_fork ''berlinBlock'' (cc_BerlinBlock c) False,
      block_fork ''londonBlock'' (cc_LondonBlock c) False,
      time_fork ''shanghaiTime'' (cc_ShanghaiTime c) False,
      time_fork ''cancunTime'' (cc_CancunTime c) True,
      time_fork ''verkleTime'' (cc_VerkleTime c) True]"

definition CheckConfigForkOrder :: "ChainConfig \<Rightarrow> fork_error option option" where
  "CheckConfigForkOrder c =
     (case checkForks (ethForks c) True of
        None \<Rightarrow> None
      | Some (Some e) \<Rightarrow> Some (Some e)
      | Some None \<Rightarrow> checkForks (forkOrder (cc_NetworkUpgrades c)) False)"

subsection \<open>Precompile upgrades\<close>

datatype upgrade_verify_error =
    ConfigErr config_error
  | UpgradeTimestampNil string nat
  | UpgradeBeforePrevious string nat
  | DisableShouldBe string nat bool
  | UpgradeNotAfterSameKey string nat

record lastUpgradeData =
  lu_blockTimestamp :: u64
  lu_disabled :: bool

fun verifyGenesisPrecompiles ::
    "ChainConfigView \<Rightarrow> (string \<times> Config) list \<Rightarrow> (string \<rightharpoonup> lastUpgradeData)
       \<Rightarrow> config_error + (string \<rightharpoonup> lastUpgradeData)" where
  "verifyGenesisPrecompiles cv [] lastUpgrades = Inr lastUpgrades"
| "verifyGenesisPrecompiles cv ((key, config) # rest) lastUpgrades =
     (case Config_Verify config cv of
        Some e \<Rightarrow> Inl e
      | None \<Rightarrow>
          verifyGenesisPrecompiles cv rest
            (case Config_Timestamp config of
               None \<Rightarrow> lastUpgrades
             | Some t \<Rightarrow> lastUpgrades(key \<mapsto> \<lparr>lu_blockTimestamp = t, lu_disabled = False\<rparr>)))"

fun verifyUpgrades ::
    "ChainConfigView \<Rightarrow> nat \<Rightarrow> Config list \<Rightarrow> (string \<rightharpoonup> lastUpgradeData) \<Rightarrow> u64 option
       \<Rightarrow> upgrade_verify_error option" where
  "verifyUpgrades cv i [] lastUpgrades previousTimestamp = None"
| "verifyUpgrades cv i (upgrade # upgrades) lastUpgrades previousTimestamp =
     (let key = Config_Key upgrade;
          disabled = (case lastUpgrades key of None \<Rightarrow> True | Some l \<Rightarrow> lu_disabled l);
          lastTimestamp = map_option lu_blockTimestamp (lastUpgrades key)
      in case Config_Timestamp upgrade of
           None \<Rightarrow> Some (UpgradeTimestampNil key i)
         | Some t \<Rightarrow>
             if (case previousTimestamp of None \<Rightarrow> False | Some p \<Rightarrow> t < p)
             then Some (UpgradeBeforePrevious key i)
             else if disabled = Config_IsDisabled upgrade
             then Some (DisableShouldBe key i (\<not> disabled))
             else if (case lastTimestamp of None \<Rightarrow> False | Some l \<Rightarrow> t \<le> l)
             then Some (UpgradeNotAfterSameKey key i)
             else (case Config_Verify upgrade cv of
                     Some e \<Rightarrow> Some (ConfigErr e)
                   | None \<Rightarrow>
                       verifyUpgrades cv (Suc i) upgrades
                         (lastUpgrades(key \<mapsto> \<lparr>lu_blockTimestamp = t,
                                                 lu_disabled = Config_IsDisabled upgrade\<rparr>))
                         (Some t)))"

definition verifyPrecompileUpgrades :: "ChainConfig \<Rightarrow> upgrade_verify_error option" where
  "verifyPrecompileUpgrades c =
     (case verifyGenesisPrecompiles (ChainConfig_view c) (cc_GenesisPrecompiles c) Map.empty of
        Inl e \<Rightarrow> Some (ConfigErr e)
      | Inr lastUpgrades \<Rightarrow>
          verifyUpgrades (ChainConfig_view c) 0 (cc_PrecompileUpgrades c) lastUpgrades None)"

definition GetActivatingPrecompileConfigs ::
    "('c, 'f) Module list \<Rightarrow> ChainConfig \<Rightarrow> address \<Rightarrow> u64 option \<Rightarrow> u64 \<Rightarrow> Config list
       \<Rightarrow> Config list" where
  "GetActivatingPrecompileConfigs mods c addr frm to upgrades =
     (case GetPrecompileModuleByAddress mods addr of
        None \<Rightarrow> []
      | Some module \<Rightarrow>
          (let key = mod_ConfigKey module in
           (case map_of (cc_GenesisPrecompiles c) key of
              None \<Rightarrow> []
            | Some config \<Rightarrow>
                if IsForkTransition (Config_Timestamp config) frm to then [config] else []) @
           filter (\<lambda>upgrade. Config_Key upgrade = key \<and>
                             IsForkTransition (Config_Timestamp upgrade) frm to) upgrades))"

definition getActivePrecompileConfig ::
    "('c, 'f) Module list \<Rightarrow> ChainConfig \<Rightarrow> address \<Rightarrow> u64 \<Rightarrow> Config option" where
  "getActivePrecompileConfig mods c addr timestamp =
     (let configs = GetActivatingPrecompileConfigs mods c addr None timestamp (cc_PrecompileUpgrades c)
      in if configs = [] then None else Some (configs ! (length configs - 1)))"

definition IsPrecompileEnabled ::
    "('c, 'f) Module list \<Rightarrow> ChainConfig \<Rightarrow> address \<Rightarrow> u64 \<Rightarrow> bool" where
  "IsPrecompileEnabled mods c addr timestamp =
     (case getActivePrecompileConfig mods c addr timestamp of
        None \<Rightarrow> False
      | Some config \<Rightarrow> \<not> Config_IsDisabled config)"

definition EnabledStatefulPrecompiles ::
    "('c, 'f) Module list \<Rightarrow> ChainConfig \<Rightarrow> u64 \<Rightarrow> (string \<times> Config) list" where
  "EnabledStatefulPrecompiles mods c blockTimestamp =
     foldl (\<lambda>m module.
       case getActivePrecompileConfig mods c (mod_Address module) blockTimestamp of
         None \<Rightarrow> m
       | Some config \<Rightarrow>
           if Config_IsDisabled config then m else AList.update (mod_ConfigKey module) config m)
       [] mods"

subsection \<open>State upgrades\<close>

datatype state_upgrade_error =
    StateUpgradeTimestampNil nat
  | StateUpgradeTimestampZero nat
  | StateUpgradeNotAfterPrevious nat

fun verifyStateUpgrades_loop ::
    "nat \<Rightarrow> StateUpgrade list \<Rightarrow> u64 option \<Rightarrow> state_upgrade_error option" where
  "verifyStateUpgrades_loop i [] previousTimestamp = None"
| "verifyStateUpgrades_loop i (upgrade # upgrades) previousTimestamp =
     (case su_BlockTimestamp upgrade of
        None \<Rightarrow> Some (StateUpgradeTimestampNil i)
      | Some t \<Rightarrow>
          if t = 0 then Some (StateUpgradeTimestampZero i)
          else if (case previousTimestamp of None \<Rightarrow> False | Some p \<Rightarrow> t \<le> p)
          then Some (StateUpgradeNotAfterPrevious i)
          else verifyStateUpgrades_loop (Suc i) upgrades (Some t))"

definition verifyStateUpgrades :: "ChainConfig \<Rightarrow> state_upgrade_error option" where
  "verifyStateUpgrades c = verifyStateUpgrades_loop 0 (cc_StateUpgrades c) None"

definition GetActivatingStateUpgrades ::
    "u64 option \<Rightarrow> u64 \<Rightarrow> StateUpgrade list \<Rightarrow> StateUpgrade list" where
  "GetActivatingStateUpgrades frm to upgrades =
     filter (\<lambda>upgrade. IsForkTransition (su_BlockTimestamp upgrade) frm to) upgrades"

text \<open>reflect.DeepEqual: maps are equal when both are nil or both not, with equal entries.\<close>

definition map_DeepEqual ::
    "('v \<Rightarrow> 'v \<Rightarrow> bool) \<Rightarrow> ('k \<times> 'v) list option \<Rightarrow> ('k \<times> 'v) list option \<Rightarrow> bool" where
  "map_DeepEqual eqv x y =
     (case (x, y) of
        (None, None) \<Rightarrow> True
      | (Some m, Some n) \<Rightarrow>
          length m = length n \<and>
          list_all (\<lambda>(k, v). case map_of n k of None \<Rightarrow> False | Some w \<Rightarrow> eqv v w) m
      | _ \<Rightarrow> False)"

definition StateUpgradeAccount_DeepEqual ::
    "StateUpgradeAccount \<Rightarrow> StateUpgradeAccount \<Rightarrow> bool" where
  "StateUpgradeAccount_DeepEqual a b \<longleftrightarrow>
     sua_Code a = sua_Code b \<and> map_DeepEqual (=) (sua_Storage a) (sua_Storage b) \<and>
     sua_BalanceChange a = sua_BalanceChange b"

definition StateUpgrade_Equal :: "StateUpgrade \<Rightarrow> StateUpgrade \<Rightarrow> bool" where
  "StateUpgrade_Equal s other \<longleftrightarrow>
     su_BlockTimestamp s = su_BlockTimestamp other \<and>
     map_DeepEqual StateUpgradeAccount_DeepEqual
       (su_StateUpgradeAccounts s) (su_StateUpgradeAccounts other)"

subsection \<open>Verification of the whole configuration\<close>

datatype chain_config_error =
    InvalidFeeConfig fee_error
  | InvalidPrecompileUpgrades upgrade_verify_error
  | InvalidStateUpgrades state_upgrade_error
  | InvalidNetworkUpgrades string upgrade_error

definition ChainConfig_Verify :: "ChainConfig \<Rightarrow> chain_config_error option option" where
  "ChainConfig_Verify c =
     (case FeeConfig_Verify (cc_FeeConfig c) of
        Some e \<Rightarrow> Some (Some (InvalidFeeConfig e))
      | None \<Rightarrow>
     (case verifyPrecompileUpgrades c of
        Some e \<Rightarrow> Some (Some (InvalidPrecompileUpgrades e))
      | None \<Rightarrow>
     (case verifyStateUpgrades c of
        Some e \<Rightarrow> Some (Some (InvalidStateUpgrades e))
      | None \<Rightarrow>
     (case cc_SnowCtx c of
        None \<Rightarrow> None
      | Some ago \<Rightarrow>
     (case verifyNetworkUpgrades (cc_NetworkUpgrades c) ago of
        None \<Rightarrow> None
      | Some (Some (what, e)) \<Rightarrow> Some (Some (InvalidNetworkUpgrades what e))
      | Some None \<Rightarrow> Some None)))))"

subsection \<open>Rules\<close>

record EthRules =
  er_IsHomestead :: bool
  er_IsEIP150 :: bool
  er_IsEIP155 :: bool
  er_IsEIP158 :: bool
  er_IsByzantium :: bool
  er_IsConstantinople :: bool
  er_IsPetersburg :: bool
  er_IsIstanbul :: bool
  er_IsCancun :: bool
  er_IsVerkle :: bool

text \<open>Only the configuration of warp implements Predicater and Accepter.\<close>

record Rules =
  r_ChainID :: int
  r_EthRules :: EthRules
  r_AvalancheRules :: AvalancheRules
  r_ActivePrecompiles :: "(address \<times> Config) list"
  r_Predicaters :: "(address \<times> WarpConfig) list"
  r_AccepterPrecompiles :: "(address \<times> WarpConfig) list"

definition eth_rules :: "ChainConfig \<Rightarrow> int option \<Rightarrow> u64 \<Rightarrow> EthRules" where
  "eth_rules c num timestamp =
     \<lparr>er_IsHomestead = IsHomestead c num, er_IsEIP150 = IsEIP150 c num, er_IsEIP155 = IsEIP155 c num,
      er_IsEIP158 = IsEIP158 c num, er_IsByzantium = IsByzantium c num,
      er_IsConstantinople = IsConstantinople c num, er_IsPetersburg = IsPetersburg c num,
      er_IsIstanbul = IsIstanbul c num, er_IsCancun = IsCancun c num timestamp,
      er_IsVerkle = IsVerkle c num timestamp\<rparr>"

definition addActivePrecompile ::
    "('c, 'f) Module list \<Rightarrow> ChainConfig \<Rightarrow> u64 \<Rightarrow> Rules \<Rightarrow> ('c, 'f) Module \<Rightarrow> Rules" where
  "addActivePrecompile mods c timestamp rules module =
     (case getActivePrecompileConfig mods c (mod_Address module) timestamp of
        None \<Rightarrow> rules
      | Some config \<Rightarrow>
          if Config_IsDisabled config then rules
          else (let rules' = rules\<lparr>r_ActivePrecompiles :=
                                     AList.update (mod_Address module) config (r_ActivePrecompiles rules)\<rparr>
                in case config of
                     Warp w \<Rightarrow>
                       rules'\<lparr>r_Predicaters := AList.update (mod_Address module) w (r_Predicaters rules),
                              r_AccepterPrecompiles :=
                                AList.update (mod_Address module) w (r_AccepterPrecompiles rules)\<rparr>
                   | _ \<Rightarrow> rules'))"

definition ChainConfig_Rules ::
    "('c, 'f) Module list \<Rightarrow> ChainConfig \<Rightarrow> int option \<Rightarrow> u64 \<Rightarrow> Rules" where
  "ChainConfig_Rules mods c blockNum timestamp =
     foldl (addActivePrecompile mods c timestamp)
       \<lparr>r_ChainID = (case cc_ChainID c of None \<Rightarrow> 0 | Some i \<Rightarrow> i),
        r_EthRules = eth_rules c blockNum timestamp,
        r_AvalancheRules = GetAvalancheRules (cc_NetworkUpgrades c) timestamp,
        r_ActivePrecompiles = [], r_Predicaters = [], r_AccepterPrecompiles = []\<rparr>
       mods"

definition PredicatersExist :: "Rules \<Rightarrow> bool" where
  "PredicatersExist r \<longleftrightarrow> 0 < length (r_Predicaters r)"

definition PredicaterExists :: "Rules \<Rightarrow> address \<Rightarrow> bool" where
  "PredicaterExists r addr \<longleftrightarrow> map_of (r_Predicaters r) addr \<noteq> None"

definition Rules_IsPrecompileEnabled :: "Rules \<Rightarrow> address \<Rightarrow> bool" where
  "Rules_IsPrecompileEnabled r addr \<longleftrightarrow> map_of (r_ActivePrecompiles r) addr \<noteq> None"

end
