(* ===== verification/Types.thy ===== *)
theory Types
  imports Prelude
begin

text \<open>
  Block headers and transactions: core/types/block.go, transaction.go and tx_legacy.go,
  tx_access_list.go, tx_dynamic_fee.go, tx_blob.go. A transaction's data is as NewTx's copy or decoding
  leaves it, with every big.Int present; the caches of a Transaction are not part of its value.
\<close>

subsection \<open>Headers\<close>

record Header =
  hdr_ParentHash :: hash
  hdr_UncleHash :: hash
  hdr_Coinbase :: address
  hdr_Root :: hash
  hdr_TxHash :: hash
  hdr_ReceiptHash :: hash
  hdr_Bloom :: "byte list"
  hdr_Difficulty :: "int option"
  hdr_Number :: "int option"
  hdr_GasLimit :: u64
  hdr_GasUsed :: u64
  hdr_Time :: u64
  hdr_Extra :: "byte list"
  hdr_MixDigest :: hash
  hdr_Nonce :: u64
  hdr_BaseFee :: "int option"
  hdr_BlockGasCost :: "int option"
  hdr_BlobGasUsed :: "u64 option"
  hdr_ExcessBlobGas :: "u64 option"
  hdr_ParentBeaconRoot :: "hash option"

subsection \<open>Transaction data\<close>

record AccessTuple =
  at_Address :: address
  at_StorageKeys :: "hash list"

type_synonym AccessList = "AccessTuple list"

definition StorageKeys :: "AccessList \<Rightarrow> nat" where
  "StorageKeys al = sum_list (map (\<lambda>tuple. length (at_StorageKeys tuple)) al)"

record LegacyTx =
  lt_Nonce :: u64
  lt_GasPrice :: int
  lt_Gas :: u64
  lt_To :: "address option"
  lt_Value :: int
  lt_Data :: "byte list"
  lt_V :: int
  lt_R :: int
  lt_S :: int

record AccessListTx =
  al_ChainID :: int
  al_Nonce :: u64
  al_GasPrice :: int
  al_Gas :: u64
  al_To :: "address option"
  al_Value :: int
  al_Data :: "byte list"
  al_AccessList :: AccessList
  al_V :: int
  al_R :: int
  al_S :: int

record DynamicFeeTx =
  df_ChainID :: int
  df_Nonce :: u64
  df_GasTipCap :: int
  df_GasFeeCap :: int
  df_Gas :: u64
  df_To :: "address option"
  df_Value :: int
  df_Data :: "byte list"
  df_AccessList :: AccessList
  df_V :: int
  df_R :: int
  df_S :: int

text \<open>The sidecar of a blob transaction is data of the kzg4844 package, a type parameter.\<close>

record 'sidecar BlobTx =
  bt_ChainID :: u256
  bt_Nonce :: u64
  bt_GasTipCap :: u256
  bt_GasFeeCap :: u256
  bt_Gas :: u64
  bt_To :: address
  bt_Value :: u256
  bt_Data :: "byte list"
  bt_AccessList :: AccessList
  bt_BlobFeeCap :: u256
  bt_BlobHashes :: "hash list"
  bt_Sidecar :: "'sidecar option"
  bt_V :: u256
  bt_R :: u256
  bt_S :: u256

datatype 's Transaction =
    Legacy LegacyTx
  | AccessListT AccessListTx
  | DynamicFee DynamicFeeTx
  | Blob "'s BlobTx"

definition deriveChainId :: "int \<Rightarrow> int" where
  "deriveChainId v =
     (if big_BitLen v \<le> 64
      then (let w = big_Uint64 v in if w = 27 \<or> w = 28 then 0 else uint ((w - 35) div 2))
      else (v - 35) div 2)"

definition BlobTxBlobGasPerBlob :: u64 where
  "BlobTxBlobGasPerBlob = 131072"

fun txType :: "'s Transaction \<Rightarrow> byte" where
  "txType (Legacy tx) = 0"
| "txType (AccessListT tx) = 1"
| "txType (DynamicFee tx) = 2"
| "txType (Blob tx) = 3"

fun tx_ChainId :: "'s Transaction \<Rightarrow> int" where
  "tx_ChainId (Legacy tx) = deriveChainId (lt_V tx)"
| "tx_ChainId (AccessListT tx) = al_ChainID tx"
| "tx_ChainId (DynamicFee tx) = df_ChainID tx"
| "tx_ChainId (Blob tx) = uint (bt_ChainID tx)"

fun tx_AccessList :: "'s Transaction \<Rightarrow> AccessList" where
  "tx_AccessList (Legacy tx) = []"
| "tx_AccessList (AccessListT tx) = al_AccessList tx"
| "tx_AccessList (DynamicFee tx) = df_AccessList tx"
| "tx_AccessList (Blob tx) = bt_AccessList tx"

fun tx_Data :: "'s Transaction \<Rightarrow> byte list" where
  "tx_Data (Legacy tx) = lt_Data tx"
| "tx_Data (AccessListT tx) = al_Data tx"
| "tx_Data (DynamicFee tx) = df_Data tx"
| "tx_Data (Blob tx) = bt_Data tx"

fun tx_Gas :: "'s Transaction \<Rightarrow> u64" where
  "tx_Gas (Legacy tx) = lt_Gas tx"
| "tx_Gas (AccessListT tx) = al_Gas tx"
| "tx_Gas (DynamicFee tx) = df_Gas tx"
| "tx_Gas (Blob tx) = bt_Gas tx"

fun tx_GasPrice :: "'s Transaction \<Rightarrow> int" where
  "tx_GasPrice (Legacy tx) = lt_GasPrice tx"
| "tx_GasPrice (AccessListT tx) = al_GasPrice tx"
| "tx_GasPrice (DynamicFee tx) = df_GasFeeCap tx"
| "tx_GasPrice (Blob tx) = uint (bt_GasFeeCap tx)"

fun tx_GasTipCap :: "'s Transaction \<Rightarrow> int" where
  "tx_GasTipCap (Legacy tx) = lt_GasPrice tx"
| "tx_GasTipCap (AccessListT tx) = al_GasPrice tx"
| "tx_GasTipCap (DynamicFee tx) = df_GasTipCap tx"
| "tx_GasTipCap (Blob tx) = uint (bt_GasTipCap tx)"

fun tx_GasFeeCap :: "'s Transaction \<Rightarrow> int" where
  "tx_GasFeeCap (Legacy tx) = lt_GasPrice tx"
| "tx_GasFeeCap (AccessListT tx) = al_GasPrice tx"
| "tx_GasFeeCap (DynamicFee tx) = df_GasFeeCap tx"
| "tx_GasFeeCap (Blob tx) = uint (bt_GasFeeCap tx)"

fun tx_Value :: "'s Transaction \<Rightarrow> int" where
  "tx_Value (Legacy tx) = lt_Value tx"
| "tx_Value (AccessListT tx) = al_Value tx"
| "tx_Value (DynamicFee tx) = df_Value tx"
| "tx_Value (Blob tx) = uint (bt_Value tx)"

fun tx_Nonce :: "'s Transaction \<Rightarrow> u64" where
  "tx_Nonce (Legacy tx) = lt_Nonce tx"
| "tx_Nonce (AccessListT tx) = al_Nonce tx"
| "tx_Nonce (DynamicFee tx) = df_Nonce tx"
| "tx_Nonce (Blob tx) = bt_Nonce tx"

fun tx_To :: "'s Transaction \<Rightarrow> address option" where
  "tx_To (Legacy tx) = lt_To tx"
| "tx_To (AccessListT tx) = al_To tx"
| "tx_To (DynamicFee tx) = df_To tx"
| "tx_To (Blob tx) = Some (bt_To tx)"

fun tx_RawSignatureValues :: "'s Transaction \<Rightarrow> int \<times> int \<times> int" where
  "tx_RawSignatureValues (Legacy tx) = (lt_V tx, lt_R tx, lt_S tx)"
| "tx_RawSignatureValues (AccessListT tx) = (al_V tx, al_R tx, al_S tx)"
| "tx_RawSignatureValues (DynamicFee tx) = (df_V tx, df_R tx, df_S tx)"
| "tx_RawSignatureValues (Blob tx) = (uint (bt_V tx), uint (bt_R tx), uint (bt_S tx))"

fun tx_effectiveGasPrice :: "'s Transaction \<Rightarrow> int option \<Rightarrow> int" where
  "tx_effectiveGasPrice (Legacy tx) baseFee = lt_GasPrice tx"
| "tx_effectiveGasPrice (AccessListT tx) baseFee = al_GasPrice tx"
| "tx_effectiveGasPrice (DynamicFee tx) baseFee =
     (case baseFee of
        None \<Rightarrow> df_GasFeeCap tx
      | Some b \<Rightarrow>
          (let tip = df_GasFeeCap tx - b
           in (if df_GasTipCap tx < tip then df_GasTipCap tx else tip) + b))"
| "tx_effectiveGasPrice (Blob tx) baseFee =
     (case baseFee of
        None \<Rightarrow> uint (bt_GasFeeCap tx)
      | Some b \<Rightarrow>
          (let tip = uint (bt_GasFeeCap tx) - b
           in (if uint (bt_GasTipCap tx) < tip then uint (bt_GasTipCap tx) else tip) + b))"

subsection \<open>Operations on transactions\<close>

definition tx_BlobGas :: "'s Transaction \<Rightarrow> u64" where
  "tx_BlobGas t =
     (case t of Blob tx \<Rightarrow> BlobTxBlobGasPerBlob * of_nat (length (bt_BlobHashes tx)) | _ \<Rightarrow> 0)"

definition tx_BlobGasFeeCap :: "'s Transaction \<Rightarrow> int option" where
  "tx_BlobGasFeeCap t = (case t of Blob tx \<Rightarrow> Some (uint (bt_BlobFeeCap tx)) | _ \<Rightarrow> None)"

definition tx_BlobHashes :: "'s Transaction \<Rightarrow> hash list" where
  "tx_BlobHashes t = (case t of Blob tx \<Rightarrow> bt_BlobHashes tx | _ \<Rightarrow> [])"

definition tx_BlobTxSidecar :: "'s Transaction \<Rightarrow> 's option" where
  "tx_BlobTxSidecar t = (case t of Blob tx \<Rightarrow> bt_Sidecar tx | _ \<Rightarrow> None)"

definition tx_WithoutBlobTxSidecar :: "'s Transaction \<Rightarrow> 's Transaction" where
  "tx_WithoutBlobTxSidecar t = (case t of Blob tx \<Rightarrow> Blob (tx\<lparr>bt_Sidecar := None\<rparr>) | _ \<Rightarrow> t)"

definition tx_Cost :: "'s Transaction \<Rightarrow> int" where
  "tx_Cost t =
     (let total = tx_GasPrice t * uint (tx_Gas t);
          total' = (case tx_BlobGasFeeCap t of
                      None \<Rightarrow> total
                    | Some cap \<Rightarrow> total + cap * uint (tx_BlobGas t))
      in total' + tx_Value t)"

datatype tx_error = ErrGasFeeCapTooLow

text \<open>The value comes with the error: a negative tip is returned together with ErrGasFeeCapTooLow.\<close>

definition EffectiveGasTip :: "geth \<Rightarrow> 's Transaction \<Rightarrow> int option \<Rightarrow> int \<times> tx_error option" where
  "EffectiveGasTip G tx baseFee =
     (case baseFee of
        None \<Rightarrow> (tx_GasTipCap tx, None)
      | Some b \<Rightarrow>
          (BigMin G (tx_GasTipCap tx) (tx_GasFeeCap tx - b),
           if tx_GasFeeCap tx < b then Some ErrGasFeeCapTooLow else None))"

definition EffectiveGasTipValue :: "geth \<Rightarrow> 's Transaction \<Rightarrow> int option \<Rightarrow> int" where
  "EffectiveGasTipValue G tx baseFee = fst (EffectiveGasTip G tx baseFee)"

text \<open>Cmp of math/big, with the results -1, 0 and 1.\<close>

definition big_Cmp :: "int \<Rightarrow> int \<Rightarrow> int" where
  "big_Cmp x y = (if x < y then - 1 else if x = y then 0 else 1)"

definition GasFeeCapCmp :: "'s Transaction \<Rightarrow> 's Transaction \<Rightarrow> int" where
  "GasFeeCapCmp tx other = big_Cmp (tx_GasFeeCap tx) (tx_GasFeeCap other)"

definition GasTipCapCmp :: "'s Transaction \<Rightarrow> 's Transaction \<Rightarrow> int" where
  "GasTipCapCmp tx other = big_Cmp (tx_GasTipCap tx) (tx_GasTipCap other)"

definition EffectiveGasTipCmp ::
    "geth \<Rightarrow> 's Transaction \<Rightarrow> 's Transaction \<Rightarrow> int option \<Rightarrow> int" where
  "EffectiveGasTipCmp G tx other baseFee =
     (if baseFee = None then GasTipCapCmp tx other
      else big_Cmp (EffectiveGasTipValue G tx baseFee) (EffectiveGasTipValue G other baseFee))"

definition isProtectedV :: "int \<Rightarrow> bool" where
  "isProtectedV V =
     (if big_BitLen V \<le> 8
      then (let v = big_Uint64 V in v \<noteq> 27 \<and> v \<noteq> 28 \<and> v \<noteq> 1 \<and> v \<noteq> 0)
      else True)"

definition tx_Protected :: "'s Transaction \<Rightarrow> bool" where
  "tx_Protected t = (case t of Legacy tx \<Rightarrow> isProtectedV (lt_V tx) | _ \<Rightarrow> True)"

definition HashDifference :: "hash list \<Rightarrow> hash list \<Rightarrow> hash list" where
  "HashDifference a b = filter (\<lambda>h. h \<notin> set b) a"

text \<open>The hash of a transaction is a parameter: it is the Keccak hash of its RLP encoding.\<close>

definition TxDifference ::
    "('s Transaction \<Rightarrow> hash) \<Rightarrow> 's Transaction list \<Rightarrow> 's Transaction list \<Rightarrow> 's Transaction list" where
  "TxDifference txHash a b = filter (\<lambda>tx. txHash tx \<notin> txHash ` set b) a"

subsection \<open>Facts\<close>

lemma EffectiveGasTipValue_eq:
  "geth_ok G \<Longrightarrow>
     EffectiveGasTipValue G tx (Some b) = min (tx_GasTipCap tx) (tx_GasFeeCap tx - b)"
  by (simp add: EffectiveGasTipValue_def EffectiveGasTip_def geth_okD)

lemma effectiveGasPrice_tip:
  assumes "geth_ok G" "0 \<le> b"
  shows "tx_effectiveGasPrice tx (Some b) = b + EffectiveGasTipValue G tx (Some b)"
  using assms(2)
  by (cases tx) (auto simp: EffectiveGasTipValue_eq [OF assms(1)] Let_def)

lemma effectiveGasPrice_le_cap: "tx_effectiveGasPrice tx baseFee \<le> tx_GasFeeCap tx"
  by (cases tx) (auto simp: Let_def split: option.split)

lemma big_BitLen_64: "0 \<le> v \<Longrightarrow> big_BitLen v \<le> 64 \<longleftrightarrow> v < 2 ^ 64"
  by (simp add: big_BitLen_le)

lemma uint_div_word: "uint ((x :: u64) div y) = uint x div uint y"
  by (simp add: uint_div_distrib)

lemma deriveChainId_roundtrip:
  assumes "0 \<le> chainID" "b = 0 \<or> b = 1"
  shows "deriveChainId (35 + 2 * chainID + b) = chainID"
proof -
  let ?v = "35 + 2 * chainID + b"
  have pos: "0 \<le> ?v" using assms by auto
  show ?thesis
  proof (cases "?v < 2 ^ 64")
    case False
    then have "\<not> big_BitLen ?v \<le> 64" using pos by (simp add: big_BitLen_64)
    then show ?thesis using assms by (auto simp: deriveChainId_def)
  next
    case True
    then have short: "big_BitLen ?v \<le> 64" using pos by (simp add: big_BitLen_64)
    have u: "uint (big_Uint64 ?v) = ?v" using pos True by (rule uint_big_Uint64)
    have "big_Uint64 ?v \<noteq> 27" "big_Uint64 ?v \<noteq> 28" using u assms by auto
    moreover have "uint (big_Uint64 ?v - 35) = ?v - 35"
      using u assms(1) assms(2) uint_sub_lem [of 35 "big_Uint64 ?v"] by auto
    ultimately show ?thesis
      using short assms by (auto simp: deriveChainId_def Let_def uint_div_word)
  qed
qed

end
