(* ===== verification/DynamicFees.thy ===== *)
theory DynamicFees
  imports ChainConfig Types
begin

text \<open>
  consensus/dummy/dynamic_fees.go: the rolling window of gas consumption, the base fee, the block gas
  cost and the minimum tip. The window is the 80-byte prefix of a header's extra data: ten big-endian
  64-bit counters, one per second. An \<open>int\<close> of Go is a 64-bit word read by \<open>sint\<close>, so that the product
  in rollWindow wraps as it does there.
\<close>

subsection \<open>Byte slices\<close>

definition RollupWindow :: u64 where "RollupWindow = 10"
definition DynamicFeeExtraDataSize :: nat where "DynamicFeeExtraDataSize = 80"
definition LongLen :: u64 where "LongLen = 8"

text \<open>Uint64 and PutUint64 of binary.BigEndian on \<open>b[k:]\<close>; both panic on fewer than eight bytes.\<close>

definition getUint64 :: "byte list \<Rightarrow> nat \<Rightarrow> u64 option" where
  "getUint64 b k = (if length b < k + 8 then None else Some (of_nat (be_nat (take 8 (drop k b)))))"

definition putUint64 :: "byte list \<Rightarrow> nat \<Rightarrow> u64 \<Rightarrow> byte list option" where
  "putUint64 b k v =
     (if length b < k + 8 then None
      else Some (take k b @ be_bytes 8 (unat v) @ drop (k + 8) b))"

text \<open>Div of math/big is Euclidean and panics on a zero divisor.\<close>

definition big_Div :: "int \<Rightarrow> int \<Rightarrow> int option" where
  "big_Div x y = (if y = 0 then None else Some (sgn y * (x div \<bar>y\<bar>)))"

subsection \<open>The rolling window\<close>

datatype dynamic_fee_error =
    WindowNotMultiple nat
  | ParentExtraTooShort nat
  | TimestampBeforeParent u64 u64
  | ErrBaseFeeNil
  | ErrBlockGasCostNil

definition rollWindow ::
    "byte list \<Rightarrow> u64 \<Rightarrow> u64 \<Rightarrow> (dynamic_fee_error + byte list) option" where
  "rollWindow consumptionWindow sz roll =
     (if sz = 0 then None
      else if \<not> sint sz dvd int (length consumptionWindow)
      then Some (Inl (WindowNotMultiple (length consumptionWindow)))
      else let res = replicate (length consumptionWindow) 0;
               bound = roll * sz
           in if int (length consumptionWindow) < sint bound then Some (Inr res)
              else if sint bound < 0 then None
              else Some (Inr (drop (nat (sint bound)) consumptionWindow @
                              drop (length consumptionWindow - nat (sint bound)) res)))"

definition rollLongWindow :: "byte list \<Rightarrow> u64 \<Rightarrow> (dynamic_fee_error + byte list) option" where
  "rollLongWindow consumptionWindow roll = rollWindow consumptionWindow LongLen roll"

fun sumLongWindow_loop :: "geth \<Rightarrow> byte list \<Rightarrow> nat \<Rightarrow> nat \<Rightarrow> u64 \<Rightarrow> u64 option" where
  "sumLongWindow_loop G window i 0 s = Some s"
| "sumLongWindow_loop G window i (Suc n) s =
     (case getUint64 window (8 * i) of
        None \<Rightarrow> None
      | Some v \<Rightarrow>
          (case SafeAdd G s v of
             (s', overflow) \<Rightarrow>
               if overflow then Some MaxUint64 else sumLongWindow_loop G window (Suc i) n s'))"

definition sumLongWindow :: "geth \<Rightarrow> byte list \<Rightarrow> nat \<Rightarrow> u64 option" where
  "sumLongWindow G window numLongs = sumLongWindow_loop G window 0 numLongs 0"

definition updateLongWindow :: "geth \<Rightarrow> byte list \<Rightarrow> u64 \<Rightarrow> u64 \<Rightarrow> byte list option" where
  "updateLongWindow G window start gasConsumed =
     (case getUint64 window (unat start) of
        None \<Rightarrow> None
      | Some prevGasConsumed \<Rightarrow>
          (case SafeAdd G prevGasConsumed gasConsumed of
             (totalGasConsumed, overflow) \<Rightarrow>
               putUint64 window (unat start) (if overflow then MaxUint64 else totalGasConsumed)))"

text \<open>The part of CalcBaseFee that rolls the window and adds the parent's gas to it.\<close>

definition nextRollupWindow ::
    "geth \<Rightarrow> byte list \<Rightarrow> u64 \<Rightarrow> u64 \<Rightarrow> (dynamic_fee_error + byte list) option" where
  "nextRollupWindow G window roll parentGasUsed =
     (case rollLongWindow window roll of
        None \<Rightarrow> None
      | Some (Inl e) \<Rightarrow> Some (Inl e)
      | Some (Inr newRollupWindow) \<Rightarrow>
          if roll < RollupWindow
          then (let slot = RollupWindow - 1 - roll; start = slot * LongLen
                in map_option Inr (updateLongWindow G newRollupWindow start parentGasUsed))
          else Some (Inr newRollupWindow))"

subsection \<open>The base fee\<close>

definition selectBigWithinBounds :: "int option \<Rightarrow> int \<Rightarrow> int option \<Rightarrow> int" where
  "selectBigWithinBounds lowerBound value upperBound =
     (if (case lowerBound of None \<Rightarrow> False | Some l \<Rightarrow> value < l) then the lowerBound
      else if (case upperBound of None \<Rightarrow> False | Some u \<Rightarrow> u < value) then the upperBound
      else value)"

text \<open>\<open>num * baseFee / target / denominator\<close>, at least one.\<close>

definition baseFeeDelta :: "geth \<Rightarrow> u64 \<Rightarrow> int \<Rightarrow> int \<Rightarrow> int option \<Rightarrow> int option" where
  "baseFeeDelta G gasDiff baseFee target denominator =
     (case big_Div (uint gasDiff * baseFee) target of
        None \<Rightarrow> None
      | Some num \<Rightarrow>
          (case denominator of
             None \<Rightarrow> None
           | Some d \<Rightarrow> map_option (\<lambda>n. BigMax G n 1) (big_Div num d)))"

definition CalcBaseFee ::
    "geth \<Rightarrow> ChainConfig \<Rightarrow> FeeConfig \<Rightarrow> Header \<Rightarrow> u64
       \<Rightarrow> (dynamic_fee_error + byte list \<times> int option) option" where
  "CalcBaseFee G config feeConfig parent timestamp =
     (let initial = Some (Inr (replicate DynamicFeeExtraDataSize 0, fc_MinBaseFee feeConfig)) in
      if \<not> IsSubnetEVM (cc_NetworkUpgrades config) (hdr_Time parent) then initial
      else case hdr_Number parent of None \<Rightarrow> None | Some number \<Rightarrow>
      if number = 0 then initial
      else if length (hdr_Extra parent) < DynamicFeeExtraDataSize
      then Some (Inl (ParentExtraTooShort (length (hdr_Extra parent))))
      else if timestamp < hdr_Time parent
      then Some (Inl (TimestampBeforeParent timestamp (hdr_Time parent)))
      else let roll = timestamp - hdr_Time parent in
      case nextRollupWindow G (take DynamicFeeExtraDataSize (hdr_Extra parent)) roll
             (hdr_GasUsed parent) of
        None \<Rightarrow> None | Some (Inl e) \<Rightarrow> Some (Inl e) | Some (Inr newRollupWindow) \<Rightarrow>
      case hdr_BaseFee parent of None \<Rightarrow> None | Some parentBaseFee \<Rightarrow>
      case fc_TargetGas feeConfig of None \<Rightarrow> None | Some parentGasTargetBig \<Rightarrow>
      case sumLongWindow G newRollupWindow (unat RollupWindow) of None \<Rightarrow> None | Some totalGas \<Rightarrow>
      let parentGasTarget = big_Uint64 parentGasTargetBig in
      if totalGas = parentGasTarget then Some (Inr (newRollupWindow, Some parentBaseFee))
      else if parentGasTarget < totalGas
      then map_option
             (\<lambda>delta. Inr (newRollupWindow,
                Some (selectBigWithinBounds (fc_MinBaseFee feeConfig) (parentBaseFee + delta) None)))
             (baseFeeDelta G (totalGas - parentGasTarget) parentBaseFee parentGasTargetBig
                (fc_BaseFeeChangeDenominator feeConfig))
      else map_option
             (\<lambda>delta. Inr (newRollupWindow,
                Some (selectBigWithinBounds (fc_MinBaseFee feeConfig)
                  (parentBaseFee - (if RollupWindow < roll then delta * uint (roll div RollupWindow)
                                    else delta)) None)))
             (baseFeeDelta G (parentGasTarget - totalGas) parentBaseFee parentGasTargetBig
                (fc_BaseFeeChangeDenominator feeConfig)))"

definition EstimateNextBaseFee ::
    "geth \<Rightarrow> ChainConfig \<Rightarrow> FeeConfig \<Rightarrow> Header \<Rightarrow> u64
       \<Rightarrow> (dynamic_fee_error + byte list \<times> int option) option" where
  "EstimateNextBaseFee G config feeConfig parent timestamp =
     CalcBaseFee G config feeConfig parent
       (if timestamp < hdr_Time parent then hdr_Time parent else timestamp)"

subsection \<open>The block gas cost and the minimum tip\<close>

text \<open>A nil minimum or step that is dereferenced is a panic; nil bounds are skipped.\<close>

definition calcBlockGasCost ::
    "u64 \<Rightarrow> int option \<Rightarrow> int option \<Rightarrow> int option \<Rightarrow> int option \<Rightarrow> u64 \<Rightarrow> u64 \<Rightarrow> int option" where
  "calcBlockGasCost targetBlockRate minBlockGasCost maxBlockGasCost blockGasCostStep
       parentBlockGasCost parentTime currentTime =
     (case parentBlockGasCost of
        None \<Rightarrow> minBlockGasCost
      | Some parentCost \<Rightarrow>
          (let timeElapsed = (if parentTime \<le> currentTime then currentTime - parentTime else 0) in
           case blockGasCostStep of None \<Rightarrow> None | Some step \<Rightarrow>
           let blockGasCost =
                 (if timeElapsed < targetBlockRate
                  then parentCost + step * uint (targetBlockRate - timeElapsed)
                  else parentCost - step * uint (timeElapsed - targetBlockRate));
               bounded = selectBigWithinBounds minBlockGasCost blockGasCost maxBlockGasCost
           in Some (if \<not> big_IsUint64 bounded then uint MaxUint64 else bounded)))"

text \<open>A nil result without an error is \<open>Inr None\<close>; the division panics when no gas was used.\<close>

definition MinRequiredTip ::
    "ChainConfig \<Rightarrow> Header \<Rightarrow> (dynamic_fee_error + int option) option" where
  "MinRequiredTip config header =
     (if \<not> IsSubnetEVM (cc_NetworkUpgrades config) (hdr_Time header) then Some (Inr None)
      else case hdr_BaseFee header of
             None \<Rightarrow> Some (Inl ErrBaseFeeNil)
           | Some baseFee \<Rightarrow>
               (case hdr_BlockGasCost header of
                  None \<Rightarrow> Some (Inl ErrBlockGasCostNil)
                | Some cost \<Rightarrow>
                    map_option (Inr \<circ> Some) (big_Div (cost * baseFee) (uint (hdr_GasUsed header)))))"

subsection \<open>The interface of a rolling window\<close>

text \<open>Counters saturate at the largest 64-bit value.\<close>

definition sat :: "nat \<Rightarrow> nat" where
  "sat n = min n (2 ^ 64 - 1)"

lemma sat_add: "sat (sat x + y) = sat (x + y)" "sat (y + sat x) = sat (y + x)"
  by (simp_all add: sat_def)

lemma sat_sat [simp]: "sat (sat x) = sat x"
  by (simp add: sat_def)

lemma sat_0 [simp]: "sat 0 = 0"
  by (simp add: sat_def)

lemma sat_le: "n < 2 ^ 64 \<Longrightarrow> sat n = n"
  by (simp add: sat_def)

lemma sat_mod [simp]: "sat n mod 18446744073709551616 = sat n"
  by (simp add: sat_def min_def)

lemma sat_sum: "sat (\<Sum>i<(n :: nat). sat (f i)) = sat (\<Sum>i<n. f i)"
proof (induction n)
  case 0
  then show ?case by simp
next
  case (Suc n)
  have "sat (\<Sum>i<Suc n. sat (f i)) = sat (sat (\<Sum>i<n. sat (f i)) + f n)"
    by (simp add: sat_add)
  also have "\<dots> = sat (\<Sum>i<Suc n. f i)" by (simp add: Suc sat_add)
  finally show ?case .
qed

text \<open>
  What the base fee relies on: a window of ten saturating counters that a step shifts by the seconds
  elapsed and charges with the gas of the parent, and whose total can be read. Steps of 2 ^ 60 seconds
  or more are outside the contract.
\<close>

locale rolling_window =
  fixes wf :: "'w \<Rightarrow> bool"
    and slot :: "'w \<Rightarrow> nat \<Rightarrow> nat"
    and empty :: 'w
    and step :: "'w \<Rightarrow> u64 \<Rightarrow> u64 \<Rightarrow> 'w option"
    and total :: "'w \<Rightarrow> u64 option"
  assumes wf_empty: "wf empty"
    and slot_empty: "i < 10 \<Longrightarrow> slot empty i = 0"
    and step_ok: "wf w \<Longrightarrow> unat r < 2 ^ 60 \<Longrightarrow> \<exists>w'. step w r g = Some w' \<and> wf w'"
    and step_slot: "wf w \<Longrightarrow> unat r < 2 ^ 60 \<Longrightarrow> step w r g = Some w' \<Longrightarrow> i < 10 \<Longrightarrow>
      slot w' i = sat ((if i + unat r < 10 then slot w (i + unat r) else 0) +
                       (if i + unat r = 9 then unat g else 0))"
    and total_slots: "wf w \<Longrightarrow> total w = Some (of_nat (sat (\<Sum>i<10. slot w i)))"
begin

text \<open>A history of steps, newest first, and the gas that is exactly \<open>a\<close> seconds old after it.\<close>

fun run :: "(u64 \<times> u64) list \<Rightarrow> 'w option" where
  "run [] = Some empty"
| "run ((r, g) # h) = (case run h of None \<Rightarrow> None | Some w \<Rightarrow> step w r g)"

lemma run_ok:
  assumes "\<forall>(r, g) \<in> set h. unat r < 2 ^ 60"
  shows "\<exists>w. run h = Some w \<and> wf w"
  using assms
proof (induction h rule: run.induct)
  case 1
  then show ?case by (simp add: wf_empty)
next
  case (2 r g h)
  then obtain w where "run h = Some w" "wf w" by auto
  with 2 step_ok [of w r g] show ?case by auto
qed

end

fun gas_at :: "(u64 \<times> u64) list \<Rightarrow> nat \<Rightarrow> nat" where
  "gas_at [] a = 0"
| "gas_at ((r, g) # h) a =
     (if a = unat r then unat g else 0) + (if unat r \<le> a then gas_at h (a - unat r) else 0)"

context rolling_window
begin

lemma run_slot:
  assumes "\<forall>(r, g) \<in> set h. unat r < 2 ^ 60" and "run h = Some w" and "i < 10"
  shows "slot w i = sat (gas_at h (9 - i))"
  using assms
proof (induction h arbitrary: w i rule: run.induct)
  case 1
  then show ?case using slot_empty by auto
next
  case (2 r g h)
  from 2(2) have h: "\<forall>(r, g) \<in> set h. unat r < 2 ^ 60" and r: "unat r < 2 ^ 60" by auto
  from run_ok [OF h] obtain v where v: "run h = Some v" "wf v" by blast
  with 2(3) have "step v r g = Some w" by simp
  note new = step_slot [OF v(2) r this 2(4)]
  have old: "slot v (i + unat r) = sat (gas_at h (9 - (i + unat r)))" if "i + unat r < 10"
    using 2(1) [OF h v(1) that] .
  have "slot w i = sat ((if i + unat r < 10 then gas_at h (9 - (i + unat r)) else 0) +
      (if i + unat r = 9 then unat g else 0))"
  proof (cases "i + unat r < 10")
    case True
    show ?thesis unfolding new using True by (simp only: old if_True sat_add)
  next
    case False
    show ?thesis unfolding new using False by (simp only: if_False)
  qed
  also have "(if i + unat r < 10 then gas_at h (9 - (i + unat r)) else 0) +
      (if i + unat r = 9 then unat g else 0) = gas_at ((r, g) # h) (9 - i)"
    using 2(4) by (cases "unat r \<le> 9 - i") (auto simp: diff_diff_left)
  finally show ?case .
qed

text \<open>The total is the gas consumed in the last ten seconds, saturating.\<close>

lemma run_total:
  assumes "\<forall>(r, g) \<in> set h. unat r < 2 ^ 60" and "run h = Some w"
  shows "total w = Some (of_nat (sat (\<Sum>a<10. gas_at h a)))"
proof -
  from run_ok [OF assms(1)] assms(2) have "wf w" by auto
  have "(\<Sum>i<10. slot w i) = (\<Sum>i<10. sat (gas_at h (9 - i)))"
    by (intro sum.cong) (simp_all add: run_slot [OF assms])
  also have "\<dots> = (\<Sum>a<10. sat (gas_at h a))"
    using sum.nat_diff_reindex [of "\<lambda>a. sat (gas_at h a)" 10] by simp
  finally show ?thesis using total_slots [OF \<open>wf w\<close>] by (simp add: sat_sum)
qed

end


subsection \<open>The window of bytes\<close>

definition window_wf :: "byte list \<Rightarrow> bool" where
  "window_wf w \<longleftrightarrow> length w = 80"

definition window_slot :: "byte list \<Rightarrow> nat \<Rightarrow> nat" where
  "window_slot w i = be_nat (take 8 (drop (8 * i) w))"

lemma window_slot_less: "window_slot w i < 2 ^ 64"
proof -
  have "be_nat (take 8 (drop (8 * i) w)) < 256 ^ length (take 8 (drop (8 * i) w))"
    by (rule be_nat_bound)
  also have "\<dots> \<le> (256 :: nat) ^ 8" by (intro power_increasing) auto
  finally show ?thesis by (simp add: window_slot_def)
qed

lemma sat_window_slot [simp]: "sat (window_slot w i) = window_slot w i"
  by (rule sat_le [OF window_slot_less])

lemma getUint64_slot:
  "length w = 80 \<Longrightarrow> i < 10 \<Longrightarrow> getUint64 w (8 * i) = Some (of_nat (window_slot w i))"
  by (simp add: getUint64_def window_slot_def)

lemma unat_of_window_slot [simp]: "unat (of_nat (window_slot w i) :: u64) = window_slot w i"
  using window_slot_less [of w i] by (simp add: unat_of_nat)

lemma be_nat_only_zeros [simp]: "be_nat (replicate n 0) = 0"
  by (induction n) auto

lemma window_slot_zeros [simp]: "window_slot (replicate n 0) i = 0"
  by (simp add: window_slot_def drop_replicate take_replicate)

lemma window_slot_roll:
  assumes "length w = 80" "k \<le> 10" "i < 10"
  shows "window_slot (drop (8 * k) w @ replicate (8 * k) 0) i =
    (if i + k < 10 then window_slot w (i + k) else 0)"
proof (cases "i + k < 10")
  case True
  with assms show ?thesis by (simp add: window_slot_def add_mult_distrib2 add.commute)
next
  case False
  with assms show ?thesis
    by (simp add: window_slot_def drop_replicate take_replicate)
qed

lemma window_slot_put:
  assumes "length w = 80" "k < 10" "i < 10"
  shows "window_slot (take (8 * k) w @ be_bytes 8 n @ drop (8 * k + 8) w) i =
    (if i = k then n mod 2 ^ 64 else window_slot w i)"
proof -
  consider "i < k" | "i = k" | "k < i" by linarith
  then show ?thesis
  proof cases
    case 1
    then have "8 \<le> 8 * k - 8 * i" by simp
    with assms 1 show ?thesis by (simp add: window_slot_def min_def drop_take)
  next
    case 2
    with assms show ?thesis by (simp add: window_slot_def be_nat_be_bytes)
  next
    case 3
    then obtain j where j: "i = Suc (k + j)" using less_iff_Suc_add by auto
    with assms show ?thesis by (simp add: window_slot_def algebra_simps)
  qed
qed

lemma uint_less_of_unat: "unat (r :: 'a :: len word) < 2 ^ k \<Longrightarrow> uint r < 2 ^ k"
  by (metis of_nat_less_iff of_nat_numeral of_nat_power uint_nat)

lemma sint_roll_bound:
  assumes "unat r < 2 ^ 60"
  shows "sint (r * 8 :: u64) = 8 * int (unat r)"
proof -
  have r: "uint r < 2 ^ 60" using assms by (rule uint_less_of_unat)
  have "uint r * uint (8 :: u64) < 2 ^ LENGTH(64)" using r by simp
  then have u: "uint (r * 8) = uint r * 8" unfolding uint_mult_lem by simp
  from r have lt: "uint r * 8 < 2 ^ 63" by simp
  have "sint (r * 8) = signed_take_bit 63 (uint r * 8)" by (simp add: sint_uint u)
  also have "\<dots> = uint r * 8"
    using lt uint_ge_0 [of r] by (intro signed_take_bit_int_eq_self) linarith+
  finally show ?thesis by simp
qed

lemma rollLongWindow_ok:
  assumes "length w = 80" "unat r < 2 ^ 60"
  shows "rollLongWindow w r =
    Some (Inr (if unat r \<le> 10 then drop (8 * unat r) w @ replicate (8 * unat r) 0 else replicate 80 0))"
proof -
  obtain n where n: "unat r = n" by simp
  have b: "sint (r * LongLen) = int (8 * n)" "sint LongLen = int 8" "LongLen \<noteq> 0"
    using sint_roll_bound [OF assms(2)] by (simp_all add: LongLen_def flip: n)
  have dvd: "int 8 dvd int (length w)" unfolding assms(1) by simp
  show ?thesis
    unfolding rollLongWindow_def rollWindow_def Let_def b assms(1) n
    using b(3) dvd assms(1) by (simp only: if_False of_nat_less_iff nat_int of_nat_less_0_iff) auto
qed


lemma SafeAdd_sat:
  assumes "geth_ok G"
  shows "(case SafeAdd G x y of (s, overflow) \<Rightarrow> unat (if overflow then MaxUint64 else s)) =
    sat (unat x + unat y)"
  by (simp add: geth_okD [OF assms] sat_def unat_word_ariths(1) not_le min_def)

lemma updateLongWindow_ok:
  assumes "geth_ok G" "length w = 80" "k < 10" "unat start = 8 * k"
  shows "\<exists>n. updateLongWindow G w start g =
      Some (take (8 * k) w @ be_bytes 8 n @ drop (8 * k + 8) w) \<and>
    n = sat (window_slot w k + unat g)"
  using SafeAdd_sat [OF assms(1), of "of_nat (window_slot w k)" g] assms(2,3)
  by (auto simp: updateLongWindow_def putUint64_def getUint64_slot assms(4) split: prod.splits)

text \<open>The step and the total of the interface, from the operations of the source.\<close>

definition window_step :: "geth \<Rightarrow> byte list \<Rightarrow> u64 \<Rightarrow> u64 \<Rightarrow> byte list option" where
  "window_step G w r g =
     (case nextRollupWindow G w r g of Some (Inr w') \<Rightarrow> Some w' | _ \<Rightarrow> None)"

definition window_total :: "geth \<Rightarrow> byte list \<Rightarrow> u64 option" where
  "window_total G w = sumLongWindow G w (unat RollupWindow)"

lemma unat_start:
  assumes "unat r < 10"
  shows "unat ((RollupWindow - 1 - r) * LongLen) = 8 * (9 - unat r)"
proof -
  have "(9 :: u64) - r = of_nat (9 - unat r)"
    using assms by (simp add: of_nat_diff)
  then have "(RollupWindow - 1 - r) * LongLen = of_nat (8 * (9 - unat r))"
    by (simp add: RollupWindow_def LongLen_def)
  also have "unat (of_nat (8 * (9 - unat r)) :: u64) = 8 * (9 - unat r)"
    using assms by (simp only: unat_of_nat) (simp add: mod_less)
  finally show ?thesis .
qed

lemma nextRollupWindow_ok:
  assumes G: "geth_ok G" and w: "length w = 80" and r: "unat r < 2 ^ 60"
  shows "\<exists>w'. nextRollupWindow G w r g = Some (Inr w') \<and> length w' = 80 \<and>
    (\<forall>i < 10. window_slot w' i =
       sat ((if i + unat r < 10 then window_slot w (i + unat r) else 0) +
            (if i + unat r = 9 then unat g else 0)))"
proof (cases "unat r < 10")
  case small: True
  let ?w = "drop (8 * unat r) w @ replicate (8 * unat r) 0"
  have len: "length ?w = 80" using w small by simp
  have lt: "r < RollupWindow" using small by (simp add: RollupWindow_def word_less_nat_alt)
  have roll: "rollLongWindow w r = Some (Inr ?w)"
    using small by (simp add: rollLongWindow_ok [OF w r])
  let ?k = "9 - unat r"
  have k: "?k < 10" by simp
  obtain n where n: "updateLongWindow G ?w ((RollupWindow - 1 - r) * LongLen) g =
      Some (take (8 * ?k) ?w @ be_bytes 8 n @ drop (8 * ?k + 8) ?w)"
    and sat_n: "n = sat (window_slot ?w ?k + unat g)"
    using updateLongWindow_ok [OF G len k unat_start [OF small]] by blast
  have slots: "window_slot ?w i = (if i + unat r < 10 then window_slot w (i + unat r) else 0)"
    if "i < 10" for i
    using window_slot_roll [OF w _ that] small by simp
  have "window_slot (take (8 * ?k) ?w @ be_bytes 8 n @ drop (8 * ?k + 8) ?w) i =
       sat ((if i + unat r < 10 then window_slot w (i + unat r) else 0) +
            (if i + unat r = 9 then unat g else 0))" if i: "i < 10" for i
  proof (cases "i = ?k")
    case True
    then have eq: "i + unat r = 9" using small i by simp
    show ?thesis
      unfolding window_slot_put [OF len k i] sat_n slots [OF k] using True eq by simp
  next
    case False
    then have "i + unat r \<noteq> 9" by auto
    then show ?thesis
      unfolding window_slot_put [OF len k i] slots [OF i] using False
      by simp
  qed
  moreover have "length (take (8 * ?k) ?w @ be_bytes 8 n @ drop (8 * ?k + 8) ?w) = 80"
    using len k by simp
  ultimately show ?thesis
    using n lt by (simp add: nextRollupWindow_def roll Let_def)
next
  case False
  then have "\<not> r < RollupWindow" by (simp add: RollupWindow_def word_less_nat_alt)
  then show ?thesis
    using False w by (auto simp: nextRollupWindow_def rollLongWindow_ok [OF w r])
qed

lemma sumLongWindow_loop_ok:
  assumes "geth_ok G" "length w = 80" "i + n \<le> 10"
  shows "sumLongWindow_loop G w i n s = Some (of_nat (sat (unat s + (\<Sum>j<n. window_slot w (i + j)))))"
  using assms(3)
proof (induction n arbitrary: i s)
  case 0
  have "sat (unat s) = unat s" using unsigned_less [of s, where ?'a = nat] by (intro sat_le) simp
  then show ?case by simp
next
  case (Suc n)
  let ?v = "of_nat (window_slot w i) :: u64"
  have get: "getUint64 w (8 * i) = Some ?v" using assms(2) Suc.prems by (simp add: getUint64_slot)
  have sum: "(\<Sum>j<Suc n. window_slot w (i + j)) =
      window_slot w i + (\<Sum>j<n. window_slot w (Suc i + j))"
    by (subst sum.lessThan_Suc_shift) simp
  show ?case
  proof (cases "2 ^ 64 \<le> unat s + window_slot w i")
    case True
    then have "sat (unat s + (\<Sum>j<Suc n. window_slot w (i + j))) = 2 ^ 64 - 1"
      unfolding sum by (simp add: sat_def)
    with True show ?thesis by (simp add: get geth_okD [OF assms(1)])
  next
    case False
    then have "unat (s + ?v) = unat s + window_slot w i" by (subst unat_add_lem [THEN iffD1]) simp_all
    with False Suc.IH [of "Suc i" "s + ?v"] Suc.prems show ?thesis
      unfolding sum by (simp add: get geth_okD [OF assms(1)] add.assoc)
  qed
qed

lemma window_total_ok:
  assumes "geth_ok G" "length w = 80"
  shows "window_total G w = Some (of_nat (sat (\<Sum>i<10. window_slot w i)))"
  using sumLongWindow_loop_ok [OF assms, of 0 10 0]
  by (simp add: window_total_def sumLongWindow_def RollupWindow_def)

lemma rolling_window_bytes:
  assumes "geth_ok G"
  shows "rolling_window window_wf window_slot (replicate 80 0) (window_step G) (window_total G)"
proof
  show "window_wf (replicate 80 0)" by (simp add: window_wf_def)
next
  fix i :: nat
  show "window_slot (replicate 80 0) i = 0" by (rule window_slot_zeros)
next
  fix w and r g :: u64
  assume "window_wf w" "unat r < 2 ^ 60"
  with nextRollupWindow_ok [OF assms, of w r g]
  show "\<exists>w'. window_step G w r g = Some w' \<and> window_wf w'"
    by (auto simp: window_wf_def window_step_def)
next
  fix w w' :: "byte list" and r g :: u64 and i :: nat
  assume "window_wf w" "unat r < 2 ^ 60" "window_step G w r g = Some w'" "i < 10"
  with nextRollupWindow_ok [OF assms, of w r g]
  show "window_slot w' i = sat ((if i + unat r < 10 then window_slot w (i + unat r) else 0) +
      (if i + unat r = 9 then unat g else 0))"
    by (auto simp: window_wf_def window_step_def)
next
  fix w
  assume "window_wf w"
  then show "window_total G w = Some (of_nat (sat (\<Sum>i<10. window_slot w i)))"
    by (simp add: window_wf_def window_total_ok [OF assms])
qed

interpretation fee_window:
  rolling_window window_wf window_slot "replicate 80 0" "window_step geth_ref" "window_total geth_ref"
  by (rule rolling_window_bytes) simp


subsection \<open>The base fee as a function of the gas in the window\<close>

definition base_fee_spec :: "int \<Rightarrow> int \<Rightarrow> int \<Rightarrow> int \<Rightarrow> int \<Rightarrow> int \<Rightarrow> int" where
  "base_fee_spec minBaseFee denominator target baseFee gas elapsed =
     (if gas = target then baseFee
      else let delta = max 1 (\<bar>gas - target\<bar> * baseFee div target div denominator)
           in max minBaseFee
                (if target < gas then baseFee + delta
                 else baseFee - delta * (if 10 < elapsed then elapsed div 10 else 1)))"

lemma selectBigWithinBounds_lower: "selectBigWithinBounds (Some l) v None = max l v"
  by (simp add: selectBigWithinBounds_def)

lemma baseFeeDelta_ok:
  assumes "geth_ok G" "0 < target" "0 < d"
  shows "baseFeeDelta G diff b target (Some d) = Some (max 1 (uint diff * b div target div d))"
  using assms by (simp add: baseFeeDelta_def big_Div_def geth_okD max.commute)

lemma uint_word_diff: "(y :: u64) \<le> x \<Longrightarrow> uint (x - y) = uint x - uint y"
  by (simp add: uint_sub_lem word_le_def)

definition can_price :: "ChainConfig \<Rightarrow> Header \<Rightarrow> u64 \<Rightarrow> bool" where
  "can_price config parent timestamp \<longleftrightarrow>
     IsSubnetEVM (cc_NetworkUpgrades config) (hdr_Time parent) \<and>
     (\<exists>n. hdr_Number parent = Some n \<and> n \<noteq> 0) \<and> 80 \<le> length (hdr_Extra parent) \<and>
     hdr_Time parent \<le> timestamp \<and> unat (timestamp - hdr_Time parent) < 2 ^ 60"

lemma CalcBaseFee_eq:
  assumes G: "geth_ok G" and p: "can_price config parent timestamp"
    and b: "hdr_BaseFee parent = Some b" and T: "fc_TargetGas fc = Some T" "0 < T" "T < 2 ^ 64"
    and d: "fc_BaseFeeChangeDenominator fc = Some d" "0 < d"
    and m: "fc_MinBaseFee fc = Some m"
    and w: "window_step G (take 80 (hdr_Extra parent)) (timestamp - hdr_Time parent)
              (hdr_GasUsed parent) = Some w"
    and gas: "window_total G w = Some gas"
  shows "CalcBaseFee G config fc parent timestamp =
    Some (Inr (w, Some (base_fee_spec m d T b (uint gas) (uint (timestamp - hdr_Time parent)))))"
proof -
  let ?roll = "timestamp - hdr_Time parent"
  have step: "nextRollupWindow G (take 80 (hdr_Extra parent)) ?roll (hdr_GasUsed parent) = Some (Inr w)"
    using w by (auto simp: window_step_def split: option.splits sum.splits)
  have tot: "sumLongWindow G w (unat RollupWindow) = Some gas"
    using gas by (simp add: window_total_def)
  have T64: "uint (big_Uint64 T) = T" using T by (intro uint_big_Uint64) auto
  have cmp: "gas = big_Uint64 T \<longleftrightarrow> uint gas = T" "big_Uint64 T < gas \<longleftrightarrow> T < uint gas"
    using T64 by (auto simp: word_less_def word_uint_eq_iff)
  have diff: "uint (gas - big_Uint64 T) = \<bar>uint gas - T\<bar>" if "T < uint gas"
    using that T64 by (subst uint_word_diff) (auto simp: word_le_def)
  have diff': "uint (big_Uint64 T - gas) = \<bar>uint gas - T\<bar>" if "uint gas \<noteq> T" "\<not> T < uint gas"
    using that T64 by (subst uint_word_diff) (auto simp: word_le_def)
  have roll: "RollupWindow < ?roll \<longleftrightarrow> 10 < uint ?roll" "uint (?roll div RollupWindow) = uint ?roll div 10"
    by (simp_all add: RollupWindow_def word_less_def uint_div_word)
  obtain n where p': "IsSubnetEVM (cc_NetworkUpgrades config) (hdr_Time parent)"
      "hdr_Number parent = Some n" "n \<noteq> 0" "\<not> length (hdr_Extra parent) < 80"
      "\<not> timestamp < hdr_Time parent"
    using p by (auto simp: can_price_def)
  show ?thesis
    unfolding CalcBaseFee_def DynamicFeeExtraDataSize_def Let_def
    by (simp add: p' step b T(1) tot cmp d(1) m baseFeeDelta_ok [OF G T(2) d(2)] roll diff diff'
        base_fee_spec_def Let_def selectBigWithinBounds_lower)
qed

lemma can_price_window:
  assumes G: "geth_ok G" and p: "can_price config parent timestamp"
  obtains w gas where
    "window_step G (take 80 (hdr_Extra parent)) (timestamp - hdr_Time parent) (hdr_GasUsed parent) = Some w"
    "length w = 80" "window_total G w = Some gas"
proof -
  have len: "length (take 80 (hdr_Extra parent)) = 80"
    and r: "unat (timestamp - hdr_Time parent) < 2 ^ 60"
    using p by (auto simp: can_price_def)
  from nextRollupWindow_ok [OF G len r, of "hdr_GasUsed parent"] obtain w where
    "nextRollupWindow G (take 80 (hdr_Extra parent)) (timestamp - hdr_Time parent) (hdr_GasUsed parent)
       = Some (Inr w)" "length w = 80"
    by blast
  with window_total_ok [OF G, of w] show thesis by (intro that [of w]) (auto simp: window_step_def)
qed

lemma fee_config_okD:
  assumes "fee_config_ok fc"
  obtains m T d where "fc_MinBaseFee fc = Some m" "0 \<le> m" "fc_TargetGas fc = Some T" "0 < T"
    "fc_BaseFeeChangeDenominator fc = Some d" "0 < d"
  using assms unfolding fee_config_ok_def by blast

lemma base_fee_spec_direction:
  assumes "0 \<le> b" "0 < T" "0 < d"
  shows "gas = T \<Longrightarrow> base_fee_spec m d T b gas e = b"
    and "T < gas \<Longrightarrow> b < base_fee_spec m d T b gas e \<and> m \<le> base_fee_spec m d T b gas e"
    and "gas < T \<Longrightarrow> m \<le> base_fee_spec m d T b gas e \<and>
      (base_fee_spec m d T b gas e < b \<or> base_fee_spec m d T b gas e = m)"
proof -
  let ?delta = "max 1 (\<bar>gas - T\<bar> * b div T div d)"
  let ?k = "if 10 < e then e div 10 else 1"
  have "1 * 1 \<le> ?delta * ?k" by (intro mult_mono) auto
  then have pos: "1 \<le> ?delta * ?k" by simp
  show "gas = T \<Longrightarrow> base_fee_spec m d T b gas e = b" by (simp add: base_fee_spec_def)
  show "T < gas \<Longrightarrow> b < base_fee_spec m d T b gas e \<and> m \<le> base_fee_spec m d T b gas e"
    by (auto simp: base_fee_spec_def Let_def)
  show "gas < T \<Longrightarrow> m \<le> base_fee_spec m d T b gas e \<and>
      (base_fee_spec m d T b gas e < b \<or> base_fee_spec m d T b gas e = m)"
    unfolding base_fee_spec_def Let_def using pos by (auto simp only: max_def split: if_splits)
qed

subsection \<open>The block gas cost\<close>

lemma calcBlockGasCost_bounds:
  assumes "0 \<le> minCost" "minCost \<le> maxCost" "maxCost < 2 ^ 64"
  shows "\<exists>cost. calcBlockGasCost rate (Some minCost) (Some maxCost) (Some step) parentCost pt ct = Some cost \<and>
    minCost \<le> cost \<and> cost \<le> maxCost"
  using assms
  by (auto simp: calcBlockGasCost_def Let_def selectBigWithinBounds_def big_IsUint64_def
      split: option.split)

text \<open>
  Blocks at the target rate keep the cost of their parent, faster ones raise it and slower ones lower
  it by a step for each second, within the bounds.
\<close>

lemma calcBlockGasCost_eq:
  assumes "0 \<le> minCost" "minCost \<le> maxCost" "maxCost < 2 ^ 64" "pt \<le> ct"
  shows "calcBlockGasCost rate (Some minCost) (Some maxCost) (Some step) (Some c) pt ct =
    Some (max minCost (min maxCost (c + step * (uint rate - (uint ct - uint pt)))))"
proof -
  let ?e = "ct - pt"
  have e: "uint ?e = uint ct - uint pt" using assms(4) by (rule uint_word_diff)
  have a: "uint (rate - ?e) = uint rate - uint ?e" if "?e < rate"
    using that by (intro uint_word_diff) simp
  have b: "uint (?e - rate) = uint ?e - uint rate" if "\<not> ?e < rate"
    using that by (intro uint_word_diff) simp
  have "(if ?e < rate then c + step * uint (rate - ?e) else c - step * uint (?e - rate)) =
      c + step * (uint rate - (uint ct - uint pt))"
  proof (cases "?e < rate")
    case True
    then show ?thesis by (simp only: a e if_True)
  next
    case False
    then have "uint (?e - rate) = uint ct - uint pt - uint rate" by (simp only: b e not_False_eq_True)
    with False show ?thesis by (simp only: if_False) (simp add: right_diff_distrib)
  qed
  with assms show ?thesis
    unfolding calcBlockGasCost_def Let_def option.case selectBigWithinBounds_def big_IsUint64_def
    by (simp only: if_True) (auto simp: max_def min_def)
qed

text \<open>With a step count whose product with the counter size wraps, the window is not rolled at all.\<close>

lemma rollLongWindow_wraps:
  assumes "length w = 80"
  shows "rollLongWindow w (2 ^ 61) = Some (Inr w)"
  using assms by (simp add: rollLongWindow_def rollWindow_def LongLen_def Let_def)

end
