(* ===== verification/Eip4844.thy ===== *)
theory Eip4844
  imports Types
begin

text \<open>
  consensus/misc/eip4844/eip4844.go: the blob gas fields of a header and the blob base fee. The
  big.Int arguments of fakeExponential are non-negative in every call and are natural numbers here.
\<close>

definition BlobTxTargetBlobGasPerBlock :: u64 where "BlobTxTargetBlobGasPerBlock = 393216"
definition MaxBlobGasPerBlock :: u64 where "MaxBlobGasPerBlock = 786432"
definition minBlobGasPrice :: nat where "minBlobGasPrice = 1"
definition blobGaspriceUpdateFraction :: nat where "blobGaspriceUpdateFraction = 3338477"

datatype eip4844_error =
    MissingExcessBlobGas
  | MissingBlobGasUsed
  | BlobGasAboveMaximum u64
  | BlobGasNotMultiple u64
  | InvalidExcessBlobGas u64 u64

definition CalcExcessBlobGas :: "u64 \<Rightarrow> u64 \<Rightarrow> u64" where
  "CalcExcessBlobGas parentExcessBlobGas parentBlobGasUsed =
     (let excessBlobGas = parentExcessBlobGas + parentBlobGasUsed
      in if excessBlobGas < BlobTxTargetBlobGasPerBlock then 0
         else excessBlobGas - BlobTxTargetBlobGasPerBlock)"

text \<open>The outer \<open>None\<close> is the panic on a parent with excess blob gas and no blob gas used.\<close>

definition VerifyEIP4844Header :: "Header \<Rightarrow> Header \<Rightarrow> eip4844_error option option" where
  "VerifyEIP4844Header parent header =
     (case hdr_ExcessBlobGas header of None \<Rightarrow> Some (Some MissingExcessBlobGas) | Some excess \<Rightarrow>
      case hdr_BlobGasUsed header of None \<Rightarrow> Some (Some MissingBlobGasUsed) | Some used \<Rightarrow>
      if MaxBlobGasPerBlock < used then Some (Some (BlobGasAboveMaximum used))
      else if used mod BlobTxBlobGasPerBlob \<noteq> 0 then Some (Some (BlobGasNotMultiple used))
      else case (case hdr_ExcessBlobGas parent of
                   None \<Rightarrow> Some (0, 0)
                 | Some parentExcess \<Rightarrow> map_option (Pair parentExcess) (hdr_BlobGasUsed parent)) of
             None \<Rightarrow> None
           | Some (parentExcessBlobGas, parentBlobGasUsed) \<Rightarrow>
               let expected = CalcExcessBlobGas parentExcessBlobGas parentBlobGasUsed
               in Some (if excess \<noteq> expected then Some (InvalidExcessBlobGas excess expected) else None))"

lemma fakeExponential_accum_decreases:
  assumes "0 < accum" "0 < i" "num < den * i"
  shows "accum * num div den div i < (accum :: nat)"
proof -
  have "accum * num < accum * (den * i)" using assms by simp
  moreover have "0 < den * i" using assms(3) by linarith
  ultimately have "accum * num div (den * i) < accum" by (simp only: div_less_iff_less_mult)
  then show ?thesis by (simp add: div_mult2_eq)
qed

function fakeExponential_loop :: "nat \<Rightarrow> nat \<Rightarrow> nat \<Rightarrow> nat \<Rightarrow> nat \<Rightarrow> nat" where
  "fakeExponential_loop numerator denominator i accum out =
     (if 0 < accum
      then fakeExponential_loop numerator denominator (Suc i)
             (accum * numerator div denominator div i) (out + accum)
      else out)"
  by pat_completeness auto

termination
proof (relation "measures [\<lambda>(num, den, i, accum, out). Suc num - i,
    \<lambda>(num, den, i, accum, out). accum]", goal_cases)
  case 1
  show ?case by simp
next
  case (2 num den i accum out)
  show ?case
  proof (cases "i \<le> num")
    case True
    with 2 show ?thesis by auto
  next
    case False
    then have "num < den * i \<or> den = 0" by (cases den) auto
    with 2 False fakeExponential_accum_decreases [of accum i num den] show ?thesis by auto
  qed
qed

declare fakeExponential_loop.simps [simp del]

text \<open>A zero denominator is the panic of the divisions.\<close>

definition fakeExponential :: "nat \<Rightarrow> nat \<Rightarrow> nat \<Rightarrow> nat option" where
  "fakeExponential factor numerator denominator =
     (if denominator = 0 then None
      else Some (fakeExponential_loop numerator denominator 1 (factor * denominator) 0 div denominator))"

definition CalcBlobFee :: "u64 \<Rightarrow> nat option" where
  "CalcBlobFee excessBlobGas =
     fakeExponential minBlobGasPrice (unat excessBlobGas) blobGaspriceUpdateFraction"

subsection \<open>Facts\<close>

lemma fakeExponential_loop_ge: "out \<le> fakeExponential_loop num den i accum out"
proof (induction num den i accum out rule: fakeExponential_loop.induct)
  case (1 num den i accum out)
  then show ?case by (subst fakeExponential_loop.simps) auto
qed

lemma fakeExponential_loop_ge_accum:
  "out + accum \<le> fakeExponential_loop num den i accum out"
  using fakeExponential_loop_ge [of "out + accum" num den "Suc i" "accum * num div den div i"]
  by (subst fakeExponential_loop.simps) auto

lemma fakeExponential_loop_mono:
  assumes "num \<le> num'" "accum \<le> accum'" "out \<le> out'"
  shows "fakeExponential_loop num den i accum out \<le> fakeExponential_loop num' den i accum' out'"
  using assms
proof (induction num' den i accum' out' arbitrary: accum out rule: fakeExponential_loop.induct)
  case (1 num' den i accum' out')
  show ?case
  proof (cases "0 < accum")
    case False
    then have "fakeExponential_loop num den i accum out = out"
      by (subst fakeExponential_loop.simps) auto
    with 1(4) fakeExponential_loop_ge [of out' num' den i accum'] show ?thesis by simp
  next
    case True
    with 1(3) have "0 < accum'" by simp
    moreover have "accum * num div den div i \<le> accum' * num' div den div i"
      using 1(2,3) by (intro div_le_mono mult_mono) auto
    ultimately show ?thesis
      using 1 True
      by (subst (1 2) fakeExponential_loop.simps) auto
  qed
qed

text \<open>The blob fee is at least the minimum price and does not fall as the excess grows.\<close>

lemma CalcBlobFee_ok:
  obtains fee where "CalcBlobFee x = Some fee" "minBlobGasPrice \<le> fee"
proof -
  have "blobGaspriceUpdateFraction \<le>
      fakeExponential_loop (unat x) blobGaspriceUpdateFraction 1 (1 * blobGaspriceUpdateFraction) 0"
    using fakeExponential_loop_ge_accum [of 0 "1 * blobGaspriceUpdateFraction"] by simp
  then have "1 \<le> fakeExponential_loop (unat x) blobGaspriceUpdateFraction 1
      (1 * blobGaspriceUpdateFraction) 0 div blobGaspriceUpdateFraction"
    by (simp add: blobGaspriceUpdateFraction_def le_div_geq div_le_mono
        less_eq_div_iff_mult_less_eq)
  then show thesis
    by (intro that) (simp_all add: CalcBlobFee_def fakeExponential_def minBlobGasPrice_def
        blobGaspriceUpdateFraction_def)
qed

lemma CalcBlobFee_mono:
  assumes "x \<le> y" "CalcBlobFee x = Some f" "CalcBlobFee y = Some g"
  shows "f \<le> g"
  using assms
  by (auto simp: CalcBlobFee_def fakeExponential_def word_le_nat_alt split: if_splits
      intro!: div_le_mono fakeExponential_loop_mono)

lemma CalcExcessBlobGas_eq:
  assumes "unat x + unat y < 2 ^ 64"
  shows "unat (CalcExcessBlobGas x y) = unat x + unat y - 393216"
  using assms
  by (simp add: CalcExcessBlobGas_def BlobTxTargetBlobGasPerBlock_def Let_def word_less_nat_alt
      unat_word_ariths(1) unat_sub word_le_nat_alt not_less)

end
