(* ===== verification/Blocks.thy ===== *)
theory Blocks
  imports Types
begin

unbundle bit_operations_syntax

text \<open>
  Logs, receipts, their bloom filter and blocks: core/types/log.go, receipt.go, bloom9.go and block.go.
  The Merkle roots of NewBlock are computed by a trie hasher and the RLP hash of the uncles by the RLP
  encoder; both are parameters.
\<close>

subsection \<open>Logs and receipts\<close>

record Log =
  log_Address :: address
  log_Topics :: "hash list"
  log_Data :: "byte list"
  log_BlockNumber :: u64
  log_TxHash :: hash
  log_TxIndex :: nat
  log_BlockHash :: hash
  log_Index :: nat
  log_Removed :: bool

record Receipt =
  rc_Type :: byte
  rc_PostState :: "byte list"
  rc_Status :: u64
  rc_CumulativeGasUsed :: u64
  rc_Bloom :: "byte list"
  rc_Logs :: "Log list"
  rc_TxHash :: hash
  rc_ContractAddress :: address
  rc_GasUsed :: u64
  rc_EffectiveGasPrice :: "int option"
  rc_BlobGasUsed :: u64
  rc_BlobGasPrice :: "int option"
  rc_BlockHash :: hash
  rc_BlockNumber :: "int option"
  rc_TransactionIndex :: nat

subsection \<open>The bloom filter\<close>

definition BloomByteLength :: nat where "BloomByteLength = 256"

type_synonym Bloom = "byte list"

definition emptyBloom :: Bloom where
  "emptyBloom = replicate BloomByteLength 0"

text \<open>The index of the byte and the value for one of the three pairs of hash bytes.\<close>

definition bloomIndex :: "byte \<Rightarrow> byte \<Rightarrow> nat" where
  "bloomIndex hi lo = BloomByteLength - ((unat hi * 256 + unat lo) mod 2048) div 8 - 1"

definition bloomBit :: "byte \<Rightarrow> byte" where
  "bloomBit lo = push_bit (unat (lo AND 7)) 1"

definition bloomValues :: "geth \<Rightarrow> byte list \<Rightarrow> (nat \<times> byte) list" where
  "bloomValues G data =
     (let hashbuf = be_bytes 32 (unat (Keccak256Hash G data))
      in [(bloomIndex (hashbuf ! 0) (hashbuf ! 1), bloomBit (hashbuf ! 1)),
          (bloomIndex (hashbuf ! 2) (hashbuf ! 3), bloomBit (hashbuf ! 3)),
          (bloomIndex (hashbuf ! 4) (hashbuf ! 5), bloomBit (hashbuf ! 5))])"

definition Bloom_add :: "geth \<Rightarrow> Bloom \<Rightarrow> byte list \<Rightarrow> Bloom" where
  "Bloom_add G b d = foldl (\<lambda>b (i, v). b[i := (b ! i) OR v]) b (bloomValues G d)"

definition Bloom_Test :: "geth \<Rightarrow> Bloom \<Rightarrow> byte list \<Rightarrow> bool" where
  "Bloom_Test G b topic = list_all (\<lambda>(i, v). v = v AND (b ! i)) (bloomValues G topic)"

definition BytesToBloom :: "byte list \<Rightarrow> Bloom option" where
  "BytesToBloom d =
     (if BloomByteLength < length d then None
      else Some (replicate (BloomByteLength - length d) 0 @ d))"

definition bloomLog :: "geth \<Rightarrow> Bloom \<Rightarrow> Log \<Rightarrow> Bloom" where
  "bloomLog G bin log =
     foldl (\<lambda>bin t. Bloom_add G bin (be_bytes 32 (unat t)))
       (Bloom_add G bin (be_bytes 20 (unat (log_Address log)))) (log_Topics log)"

definition LogsBloom :: "geth \<Rightarrow> Log list \<Rightarrow> Bloom" where
  "LogsBloom G logs = foldl (bloomLog G) emptyBloom logs"

definition CreateBloom :: "geth \<Rightarrow> Receipt list \<Rightarrow> Bloom" where
  "CreateBloom G receipts = foldl (\<lambda>bin receipt. foldl (bloomLog G) bin (rc_Logs receipt)) emptyBloom receipts"

subsection \<open>Blocks\<close>

record 's Block =
  blk_header :: Header
  blk_uncles :: "Header list"
  blk_transactions :: "'s Transaction list"

record 's trieHasher =
  DeriveShaTxs :: "'s Transaction list \<Rightarrow> hash"
  DeriveShaReceipts :: "Receipt list \<Rightarrow> hash"
  CalcUncleHash :: "Header list \<Rightarrow> hash"

definition EmptyTxsHash :: hash where
  "EmptyTxsHash = 0x56e81f171bcc55a6ff8345e692c0f86e5b48e01b996cadc001622fb5e363b421"

definition EmptyReceiptsHash :: hash where
  "EmptyReceiptsHash = 0x56e81f171bcc55a6ff8345e692c0f86e5b48e01b996cadc001622fb5e363b421"

definition CopyHeader :: "Header \<Rightarrow> Header" where
  "CopyHeader h =
     h\<lparr>hdr_Difficulty := Some (case hdr_Difficulty h of None \<Rightarrow> 0 | Some d \<Rightarrow> d),
       hdr_Number := Some (case hdr_Number h of None \<Rightarrow> 0 | Some n \<Rightarrow> n)\<rparr>"

definition NewBlock ::
    "geth \<Rightarrow> 's trieHasher \<Rightarrow> Header \<Rightarrow> 's Transaction list \<Rightarrow> Header list \<Rightarrow> Receipt list \<Rightarrow> 's Block" where
  "NewBlock G hasher header txs uncles receipts =
     (let h0 = CopyHeader header;
          h1 = h0\<lparr>hdr_TxHash := if txs = [] then EmptyTxsHash else DeriveShaTxs hasher txs\<rparr>;
          h2 = (if receipts = [] then h1\<lparr>hdr_ReceiptHash := EmptyReceiptsHash\<rparr>
                else h1\<lparr>hdr_ReceiptHash := DeriveShaReceipts hasher receipts,
                        hdr_Bloom := CreateBloom G receipts\<rparr>);
          h3 = h2\<lparr>hdr_UncleHash := CalcUncleHash hasher uncles\<rparr>
      in \<lparr>blk_header = h3, blk_uncles = map CopyHeader uncles, blk_transactions = txs\<rparr>)"

subsection \<open>The filter has no false negatives\<close>

lemma byte_and_or: "v = v AND x \<Longrightarrow> v = v AND (x OR y)" for v x y :: byte
  by (auto simp: bit_eq_iff bit_and_iff bit_or_iff)

lemma byte_and_or_same: "v = v AND (x OR v)" for v x :: byte
  by (auto simp: bit_eq_iff bit_and_iff bit_or_iff)

lemma set_bits_keep:
  "v = v AND (b ! i) \<Longrightarrow>
     v = v AND (foldl (\<lambda>b (i, v). b[i := (b ! i) OR v]) b ps ! i)" for v :: byte
proof (induction ps arbitrary: b)
  case Nil
  then show ?case by simp
next
  case (Cons p ps)
  obtain j w where p: "p = (j, w)" by (cases p)
  have "v = v AND (b[j := (b ! j) OR w] ! i)"
  proof (cases "i = j \<and> j < length b")
    case True
    then show ?thesis using byte_and_or [OF Cons.prems] by simp
  next
    case False
    then have "b[j := (b ! j) OR w] ! i = b ! i"
      by (metis list_update_beyond not_less nth_list_update_neq)
    then show ?thesis using Cons.prems by simp
  qed
  from Cons.IH [OF this] show ?case by (simp add: p)
qed

lemma set_bits_set:
  fixes ps :: "(nat \<times> byte) list"
  assumes "\<forall>(i, v) \<in> set ps. i < length b"
  shows "\<forall>(i, v) \<in> set ps. v = v AND (foldl (\<lambda>b (i, v). b[i := (b ! i) OR v]) b ps ! i)"
  using assms
proof (induction ps arbitrary: b)
  case Nil
  then show ?case by simp
next
  case (Cons p ps)
  obtain j w where p: "p = (j, w)" by (cases p)
  then have "w = w AND (b[j := (b ! j) OR w] ! j)" using Cons.prems byte_and_or_same [of w "b ! j"] by simp
  from set_bits_keep [OF this, of ps] Cons.IH [of "b[j := (b ! j) OR w]"] Cons.prems
  show ?case by (auto simp: p)
qed

lemma bloomIndex_less: "bloomIndex hi lo < BloomByteLength"
  by (simp add: bloomIndex_def BloomByteLength_def)

lemma bloomValues_index: "(i, v) \<in> set (bloomValues G d) \<Longrightarrow> i < BloomByteLength"
  by (auto simp: bloomValues_def Let_def bloomIndex_less)

lemma length_Bloom_add [simp]: "length (Bloom_add G b d) = length b"
proof -
  have "length (foldl (\<lambda>b (i, v). b[i := (b ! i) OR v]) b ps) = length b" for ps :: "(nat \<times> byte) list"
    by (induction ps arbitrary: b) auto
  then show ?thesis by (simp add: Bloom_add_def)
qed

lemma Bloom_Test_add: "length b = BloomByteLength \<Longrightarrow> Bloom_Test G (Bloom_add G b d) d"
  using set_bits_set [of "bloomValues G d" b]
  by (auto simp: Bloom_Test_def Bloom_add_def list_all_iff dest: bloomValues_index)

lemma Bloom_Test_keep: "Bloom_Test G b t \<Longrightarrow> Bloom_Test G (Bloom_add G b d) t"
  using set_bits_keep by (fastforce simp: Bloom_Test_def Bloom_add_def list_all_iff)

lemma Bloom_fold_keep:
  "Bloom_Test G b t \<Longrightarrow> Bloom_Test G (foldl (\<lambda>bin x. Bloom_add G bin (f x)) b xs) t"
  by (induction xs arbitrary: b) (auto intro: Bloom_Test_keep)

lemma length_Bloom_fold [simp]: "length (foldl (\<lambda>bin x. Bloom_add G bin (f x)) b xs) = length b"
  by (induction xs arbitrary: b) auto

lemma Bloom_fold_add:
  "length b = BloomByteLength \<Longrightarrow> x \<in> set xs \<Longrightarrow>
     Bloom_Test G (foldl (\<lambda>bin x. Bloom_add G bin (f x)) b xs) (f x)"
  by (induction xs arbitrary: b) (auto intro: Bloom_fold_keep Bloom_Test_add)

lemma length_bloomLog [simp]: "length (bloomLog G b log) = length b"
  by (simp add: bloomLog_def)

lemma bloomLog_keep: "Bloom_Test G b t \<Longrightarrow> Bloom_Test G (bloomLog G b log) t"
  by (auto simp: bloomLog_def intro: Bloom_fold_keep Bloom_Test_keep)

lemma length_bloomLogs [simp]: "length (foldl (bloomLog G) b logs) = length b"
  by (induction logs arbitrary: b) auto

lemma bloomLogs_keep: "Bloom_Test G b t \<Longrightarrow> Bloom_Test G (foldl (bloomLog G) b logs) t"
  by (induction logs arbitrary: b) (auto intro: bloomLog_keep)

text \<open>The strings a log is found by: its address and its topics.\<close>

definition log_keys :: "Log \<Rightarrow> byte list set" where
  "log_keys log = insert (be_bytes 20 (unat (log_Address log))) ((\<lambda>t. be_bytes 32 (unat t)) ` set (log_Topics log))"

lemma bloomLog_found: "length b = BloomByteLength \<Longrightarrow> t \<in> log_keys log \<Longrightarrow> Bloom_Test G (bloomLog G b log) t"
  by (auto simp: bloomLog_def log_keys_def intro: Bloom_fold_keep Bloom_Test_add Bloom_fold_add)

lemma bloomLogs_found:
  "length b = BloomByteLength \<Longrightarrow> log \<in> set logs \<Longrightarrow> t \<in> log_keys log \<Longrightarrow>
     Bloom_Test G (foldl (bloomLog G) b logs) t"
  by (induction logs arbitrary: b) (auto intro: bloomLogs_keep bloomLog_found)

lemma bloomReceipts_found:
  "length b = BloomByteLength \<Longrightarrow> r \<in> set rs \<Longrightarrow> log \<in> set (rc_Logs r) \<Longrightarrow> t \<in> log_keys log \<Longrightarrow>
     Bloom_Test G (foldl (\<lambda>bin r. foldl (bloomLog G) bin (rc_Logs r)) b rs) t"
proof (induction rs arbitrary: b)
  case Nil
  then show ?case by simp
next
  case (Cons a rs)
  have keep: "Bloom_Test G c t \<Longrightarrow>
      Bloom_Test G (foldl (\<lambda>bin r. foldl (bloomLog G) bin (rc_Logs r)) c rs) t" for c
    by (induction rs arbitrary: c) (auto intro: bloomLogs_keep)
  from Cons show ?case by (auto intro: keep bloomLogs_found)
qed

lemma CreateBloom_found:
  "r \<in> set rs \<Longrightarrow> log \<in> set (rc_Logs r) \<Longrightarrow> t \<in> log_keys log \<Longrightarrow> Bloom_Test G (CreateBloom G rs) t"
  unfolding CreateBloom_def
  by (rule bloomReceipts_found) (simp_all add: emptyBloom_def)

end
