(* ===== verification/Consensus.thy ===== *)
theory Consensus
  imports DynamicFees Eip4844 Blocks
begin

text \<open>
  The consensus engine of consensus/dummy/consensus.go: verification of headers, of the fee a block
  pays and the assembly of a block. The engine reaches the chain through consensus.ChainHeaderReader, a
  record of functions here with an error type of its own; its clock is the Unix time it shows.
\<close>

subsection \<open>The engine and the chain it reads\<close>

record Mode =
  ModeSkipHeader :: bool
  ModeSkipBlockFee :: bool
  ModeSkipCoinbase :: bool

record DummyEngine =
  eng_clock :: int
  eng_consensusMode :: Mode

record 'e ChainHeaderReader =
  chr_Config :: ChainConfig
  chr_GetHeader :: "hash \<Rightarrow> u64 \<Rightarrow> Header option"
  chr_GetFeeConfigAt :: "Header \<Rightarrow> 'e + FeeConfig \<times> int option"
  chr_GetCoinbaseAt :: "Header \<Rightarrow> 'e + address \<times> bool"

definition MaxGasLimit :: u64 where "MaxGasLimit = 0x7fffffffffffffff"
definition MinGasLimit :: u64 where "MinGasLimit = 5000"
definition GasLimitBoundDivisor :: u64 where "GasLimitBoundDivisor = 1024"
definition MaximumExtraDataSize :: u64 where "MaximumExtraDataSize = 64"

datatype 'e consensus_error =
    ChainErr 'e
  | ErrInvalidCoinbase address address
  | GasLimitAboveMax u64
  | GasUsedAboveLimit u64 u64
  | UnexpectedGasLimit u64 u64
  | InvalidGasLimit u64
  | BaseFeeBeforeFork
  | BlockGasCostBeforeFork
  | BaseFeeErr dynamic_fee_error
  | UnexpectedRollupWindow
  | MissingBaseFee
  | BaseFeeTooLarge nat
  | UnexpectedBaseFee int
  | ErrBlockGasCostNilInHeader
  | ErrBlockGasCostTooLarge
  | InvalidBlockGasCost
  | ErrUnclesUnsupported
  | ExtraDataLength nat
  | ErrFutureBlock
  | ErrInvalidBlockTime
  | ErrInvalidNumber
  | UnexpectedBlobField
  | MissingBeaconRoot
  | InvalidBeaconRoot hash
  | BlobHeaderErr eip4844_error
  | BlobsNotEnabled u64
  | ErrUnknownAncestor
  | InvalidBaseFeeInBlock
  | InvalidBlockGasCostInBlock
  | FeeCapErr tx_error
  | InsufficientBlockFee int int

subsection \<open>Header verification\<close>

definition verifyCoinbase ::
    "DummyEngine \<Rightarrow> 'e ChainHeaderReader \<Rightarrow> Header \<Rightarrow> Header \<Rightarrow> 'e consensus_error option" where
  "verifyCoinbase eng chain header parent =
     (if ModeSkipCoinbase (eng_consensusMode eng) then None
      else case chr_GetCoinbaseAt chain parent of
             Inl e \<Rightarrow> Some (ChainErr e)
           | Inr (configuredAddressAtParent, isAllowFeeRecipients) \<Rightarrow>
               if isAllowFeeRecipients then None
               else if configuredAddressAtParent \<noteq> hdr_Coinbase header
               then Some (ErrInvalidCoinbase (hdr_Coinbase header) configuredAddressAtParent)
               else None)"

text \<open>The bounds on the gas limit before the Subnet EVM upgrade, with the signed difference of the source.\<close>

definition gasLimitOutOfBounds :: "u64 \<Rightarrow> u64 \<Rightarrow> bool" where
  "gasLimitOutOfBounds parentGasLimit gasLimit =
     (let diff = parentGasLimit - gasLimit;
          diff' = (if sint diff < 0 then - diff else diff)
      in parentGasLimit div GasLimitBoundDivisor \<le> diff' \<or> gasLimit < MinGasLimit)"

definition verifyHeaderGasFields ::
    "geth \<Rightarrow> 'e ChainHeaderReader \<Rightarrow> Header \<Rightarrow> Header \<Rightarrow> 'e consensus_error option option" where
  "verifyHeaderGasFields G chain header parent =
     (let config = chr_Config chain in
      if MaxGasLimit < hdr_GasLimit header then Some (Some (GasLimitAboveMax (hdr_GasLimit header)))
      else if hdr_GasLimit header < hdr_GasUsed header
      then Some (Some (GasUsedAboveLimit (hdr_GasUsed header) (hdr_GasLimit header)))
      else case chr_GetFeeConfigAt chain parent of Inl e \<Rightarrow> Some (Some (ChainErr e)) | Inr (feeConfig, _) \<Rightarrow>
      if \<not> IsSubnetEVM (cc_NetworkUpgrades config) (hdr_Time header)
      then (if gasLimitOutOfBounds (hdr_GasLimit parent) (hdr_GasLimit header)
            then Some (Some (InvalidGasLimit (hdr_GasLimit header)))
            else if hdr_BaseFee header \<noteq> None then Some (Some BaseFeeBeforeFork)
            else if hdr_BlockGasCost header \<noteq> None then Some (Some BlockGasCostBeforeFork)
            else Some None)
      else case fc_GasLimit feeConfig of None \<Rightarrow> None | Some gasLimit \<Rightarrow>
      if hdr_GasLimit header \<noteq> big_Uint64 gasLimit
      then Some (Some (UnexpectedGasLimit (big_Uint64 gasLimit) (hdr_GasLimit header)))
      else case CalcBaseFee G config feeConfig parent (hdr_Time header) of
             None \<Rightarrow> None | Some (Inl e) \<Rightarrow> Some (Some (BaseFeeErr e))
           | Some (Inr (expectedRollupWindowBytes, expectedBaseFee)) \<Rightarrow>
      if length (hdr_Extra header) < length expectedRollupWindowBytes \<or>
         expectedRollupWindowBytes \<noteq> take (length expectedRollupWindowBytes) (hdr_Extra header)
      then Some (Some UnexpectedRollupWindow)
      else case hdr_BaseFee header of None \<Rightarrow> Some (Some MissingBaseFee) | Some baseFee \<Rightarrow>
      if 256 < big_BitLen baseFee then Some (Some (BaseFeeTooLarge (big_BitLen baseFee)))
      else case expectedBaseFee of None \<Rightarrow> None | Some expected \<Rightarrow>
      if baseFee \<noteq> expected then Some (Some (UnexpectedBaseFee expected))
      else case calcBlockGasCost (fc_TargetBlockRate feeConfig) (fc_MinBlockGasCost feeConfig)
                  (fc_MaxBlockGasCost feeConfig) (fc_BlockGasCostStep feeConfig)
                  (hdr_BlockGasCost parent) (hdr_Time parent) (hdr_Time header) of
             None \<Rightarrow> None | Some expectedBlockGasCost \<Rightarrow>
      case hdr_BlockGasCost header of None \<Rightarrow> Some (Some ErrBlockGasCostNilInHeader) | Some cost \<Rightarrow>
      if \<not> big_IsUint64 cost then Some (Some ErrBlockGasCostTooLarge)
      else if cost \<noteq> expectedBlockGasCost then Some (Some InvalidBlockGasCost)
      else Some None)"

definition extraDataLengthOk :: "NetworkUpgrades \<Rightarrow> Header \<Rightarrow> bool" where
  "extraDataLengthOk upgrades header =
     (if IsDurango upgrades (hdr_Time header)
      then DynamicFeeExtraDataSize \<le> length (hdr_Extra header)
      else if IsSubnetEVM upgrades (hdr_Time header)
      then length (hdr_Extra header) = DynamicFeeExtraDataSize
      else of_nat (length (hdr_Extra header)) \<le> MaximumExtraDataSize)"

text \<open>The last part of verifyHeader: the fields of the Cancun upgrade.\<close>

definition verifyCancunFields ::
    "ChainConfig \<Rightarrow> Header \<Rightarrow> Header \<Rightarrow> 'e consensus_error option option" where
  "verifyCancunFields config header parent =
     (if \<not> IsCancun config (hdr_Number header) (hdr_Time header)
      then Some (if hdr_ExcessBlobGas header \<noteq> None \<or> hdr_BlobGasUsed header \<noteq> None \<or>
                    hdr_ParentBeaconRoot header \<noteq> None
                 then Some UnexpectedBlobField else None)
      else case hdr_ParentBeaconRoot header of None \<Rightarrow> Some (Some MissingBeaconRoot) | Some root \<Rightarrow>
      if root \<noteq> 0 then Some (Some (InvalidBeaconRoot root))
      else case VerifyEIP4844Header parent header of
             None \<Rightarrow> None
           | Some (Some e) \<Rightarrow> Some (Some (BlobHeaderErr e))
           | Some None \<Rightarrow>
               (case hdr_BlobGasUsed header of
                  None \<Rightarrow> None
                | Some used \<Rightarrow> Some (if 0 < used then Some (BlobsNotEnabled used) else None)))"

definition verifyHeader ::
    "geth \<Rightarrow> DummyEngine \<Rightarrow> 'e ChainHeaderReader \<Rightarrow> Header \<Rightarrow> Header \<Rightarrow> bool
       \<Rightarrow> 'e consensus_error option option" where
  "verifyHeader G eng chain header parent uncle =
     (if uncle then Some (Some ErrUnclesUnsupported)
      else if \<not> extraDataLengthOk (cc_NetworkUpgrades (chr_Config chain)) header
      then Some (Some (ExtraDataLength (length (hdr_Extra header))))
      else case verifyHeaderGasFields G chain header parent of
             None \<Rightarrow> None | Some (Some e) \<Rightarrow> Some (Some e) | Some None \<Rightarrow>
      case verifyCoinbase eng chain header parent of Some e \<Rightarrow> Some (Some e) | None \<Rightarrow>
      if word_of_int (eng_clock eng + 10) < hdr_Time header then Some (Some ErrFutureBlock)
      else if hdr_Time header < hdr_Time parent then Some (Some ErrInvalidBlockTime)
      else case (hdr_Number header, hdr_Number parent) of
             (Some number, Some parentNumber) \<Rightarrow>
               if number - parentNumber \<noteq> 1 then Some (Some ErrInvalidNumber)
               else verifyCancunFields (chr_Config chain) header parent
           | _ \<Rightarrow> None)"

text \<open>The hash of a header is the Keccak hash of its RLP encoding, a parameter.\<close>

definition VerifyHeader ::
    "geth \<Rightarrow> (Header \<Rightarrow> hash) \<Rightarrow> DummyEngine \<Rightarrow> 'e ChainHeaderReader \<Rightarrow> Header
       \<Rightarrow> 'e consensus_error option option" where
  "VerifyHeader G headerHash eng chain header =
     (if ModeSkipHeader (eng_consensusMode eng) then Some None
      else case hdr_Number header of None \<Rightarrow> None | Some n \<Rightarrow>
      let number = big_Uint64 n in
      if chr_GetHeader chain (headerHash header) number \<noteq> None then Some None
      else case chr_GetHeader chain (hdr_ParentHash header) (number - 1) of
             None \<Rightarrow> Some (Some ErrUnknownAncestor)
           | Some parent \<Rightarrow> verifyHeader G eng chain header parent False)"

definition VerifyUncles :: "'s Block \<Rightarrow> 'e consensus_error option" where
  "VerifyUncles block = (if 0 < length (blk_uncles block) then Some ErrUnclesUnsupported else None)"

definition Author :: "Header \<Rightarrow> address" where
  "Author header = hdr_Coinbase header"

definition Prepare :: "Header \<Rightarrow> Header" where
  "Prepare header = header\<lparr>hdr_Difficulty := Some 1\<rparr>"

subsection \<open>The block fee\<close>

text \<open>The loop over the receipts; \<open>None\<close> is the panic of indexing past the transactions.\<close>

fun totalBlockFee ::
    "geth \<Rightarrow> int \<Rightarrow> 's Transaction list \<Rightarrow> Receipt list \<Rightarrow> int \<Rightarrow> ('e consensus_error + int) option" where
  "totalBlockFee G baseFee txs [] acc = Some (Inr acc)"
| "totalBlockFee G baseFee [] (receipt # receipts) acc = None"
| "totalBlockFee G baseFee (tx # txs) (receipt # receipts) acc =
     (case EffectiveGasTip G tx (Some baseFee) of
        (_, Some e) \<Rightarrow> Some (Inl (FeeCapErr e))
      | (txFeePremium, None) \<Rightarrow>
          totalBlockFee G baseFee txs receipts (acc + txFeePremium * uint (rc_GasUsed receipt)))"

definition verifyBlockFee ::
    "geth \<Rightarrow> DummyEngine \<Rightarrow> int option \<Rightarrow> int option \<Rightarrow> 's Transaction list \<Rightarrow> Receipt list
       \<Rightarrow> 'e consensus_error option option" where
  "verifyBlockFee G eng baseFee requiredBlockGasCost txs receipts =
     (if ModeSkipBlockFee (eng_consensusMode eng) then Some None
      else case baseFee of None \<Rightarrow> Some (Some InvalidBaseFeeInBlock) | Some b \<Rightarrow>
      if b \<le> 0 then Some (Some InvalidBaseFeeInBlock)
      else case requiredBlockGasCost of None \<Rightarrow> Some (Some InvalidBlockGasCostInBlock) | Some required \<Rightarrow>
      if \<not> big_IsUint64 required then Some (Some InvalidBlockGasCostInBlock)
      else case totalBlockFee G b txs receipts 0 of
             None \<Rightarrow> None
           | Some (Inl e) \<Rightarrow> Some (Some e)
           | Some (Inr fee) \<Rightarrow>
               (case big_Div fee b of
                  None \<Rightarrow> None
                | Some blockGas \<Rightarrow>
                    Some (if blockGas < required then Some (InsufficientBlockFee blockGas required)
                          else None)))"

definition Finalize ::
    "geth \<Rightarrow> DummyEngine \<Rightarrow> 'e ChainHeaderReader \<Rightarrow> 's Block \<Rightarrow> Header \<Rightarrow> Receipt list
       \<Rightarrow> 'e consensus_error option option" where
  "Finalize G eng chain block parent receipts =
     (let header = blk_header block in
      if \<not> IsSubnetEVM (cc_NetworkUpgrades (chr_Config chain)) (hdr_Time header) then Some None
      else case chr_GetFeeConfigAt chain parent of Inl e \<Rightarrow> Some (Some (ChainErr e)) | Inr (feeConfig, _) \<Rightarrow>
      case calcBlockGasCost (fc_TargetBlockRate feeConfig) (fc_MinBlockGasCost feeConfig)
             (fc_MaxBlockGasCost feeConfig) (fc_BlockGasCostStep feeConfig)
             (hdr_BlockGasCost parent) (hdr_Time parent) (hdr_Time header) of
        None \<Rightarrow> None | Some blockGasCost \<Rightarrow>
      if (case hdr_BlockGasCost header of
            None \<Rightarrow> True
          | Some c \<Rightarrow> \<not> big_IsUint64 c \<or> c \<noteq> blockGasCost)
      then Some (Some InvalidBlockGasCost)
      else verifyBlockFee G eng (hdr_BaseFee header) (hdr_BlockGasCost header)
             (blk_transactions block) receipts)"

text \<open>
  The header is returned inside the block with its new fields; the state root is what
  StateDB.IntermediateRoot returns for the given flag.
\<close>

definition FinalizeAndAssemble ::
    "geth \<Rightarrow> 's trieHasher \<Rightarrow> DummyEngine \<Rightarrow> 'e ChainHeaderReader \<Rightarrow> Header \<Rightarrow> Header \<Rightarrow> (bool \<Rightarrow> hash)
       \<Rightarrow> 's Transaction list \<Rightarrow> Header list \<Rightarrow> Receipt list \<Rightarrow> ('e consensus_error + 's Block) option" where
  "FinalizeAndAssemble G hasher eng chain header parent intermediateRoot txs uncles receipts =
     (let config = chr_Config chain;
          assemble = (\<lambda>h. NewBlock G hasher
            (h\<lparr>hdr_Root := intermediateRoot (IsEIP158 config (hdr_Number h))\<rparr>) txs uncles receipts)
      in if \<not> IsSubnetEVM (cc_NetworkUpgrades config) (hdr_Time header) then Some (Inr (assemble header))
         else case chr_GetFeeConfigAt chain parent of Inl e \<Rightarrow> Some (Inl (ChainErr e)) | Inr (feeConfig, _) \<Rightarrow>
         case calcBlockGasCost (fc_TargetBlockRate feeConfig) (fc_MinBlockGasCost feeConfig)
                (fc_MaxBlockGasCost feeConfig) (fc_BlockGasCostStep feeConfig)
                (hdr_BlockGasCost parent) (hdr_Time parent) (hdr_Time header) of
           None \<Rightarrow> None | Some blockGasCost \<Rightarrow>
         let header' = header\<lparr>hdr_BlockGasCost := Some blockGasCost\<rparr> in
         case verifyBlockFee G eng (hdr_BaseFee header') (hdr_BlockGasCost header') txs receipts of
           None \<Rightarrow> None
         | Some (Some e) \<Rightarrow> Some (Inl e)
         | Some None \<Rightarrow> Some (Inr (assemble header')))"


subsection \<open>The block fee is paid\<close>

text \<open>What the tips of the transactions that have a receipt contribute to the block.\<close>

definition tips_paid :: "geth \<Rightarrow> int \<Rightarrow> 's Transaction list \<Rightarrow> Receipt list \<Rightarrow> int" where
  "tips_paid G baseFee txs receipts =
     (\<Sum>(tx, receipt) \<leftarrow> zip txs receipts.
        EffectiveGasTipValue G tx (Some baseFee) * uint (rc_GasUsed receipt))"

lemma totalBlockFee_Inr:
  "totalBlockFee G b txs receipts acc = Some (Inr fee) \<longleftrightarrow>
     length receipts \<le> length txs \<and> (\<forall>tx \<in> set (take (length receipts) txs). b \<le> tx_GasFeeCap tx) \<and>
     fee = acc + tips_paid G b txs receipts"
proof (induction G b txs receipts acc rule: totalBlockFee.induct)
  case (1 G b txs acc)
  then show ?case by (auto simp: tips_paid_def)
next
  case (2 G b receipt receipts acc)
  then show ?case by simp
next
  case (3 G b tx txs receipt receipts acc)
  have err: "snd (EffectiveGasTip G tx (Some b)) = None \<longleftrightarrow> b \<le> tx_GasFeeCap tx"
    by (auto simp: EffectiveGasTip_def)
  obtain tip e where t: "EffectiveGasTip G tx (Some b) = (tip, e)" by fastforce
  show ?case
  proof (cases e)
    case None
    with t err 3 [OF t [symmetric] None] show ?thesis
      by (auto simp: tips_paid_def EffectiveGasTipValue_def)
  next
    case (Some a)
    with t err show ?thesis by auto
  qed
qed

lemma int_div_less_iff:
  assumes "0 < b"
  shows "fee div b < c \<longleftrightarrow> \<not> c * b \<le> (fee :: int)"
proof
  assume "fee div b < c"
  moreover have "c \<le> fee div b" if "c * b \<le> fee"
    using zdiv_mono1 [OF that assms] assms by simp
  ultimately show "\<not> c * b \<le> fee" by auto
next
  assume le: "\<not> c * b \<le> fee"
  have "fee div b * b \<le> fee" using pos_mod_sign [OF assms, of fee] div_mult_mod_eq [of fee b] by linarith
  moreover have "c * b \<le> fee div b * b" if "c \<le> fee div b"
    using that assms by (intro mult_right_mono) auto
  ultimately show "fee div b < c" using le by linarith
qed

lemma verifyBlockFee_accepts:
  assumes "\<not> ModeSkipBlockFee (eng_consensusMode eng)"
  shows "(verifyBlockFee G eng baseFee required txs receipts :: 'e consensus_error option option) = Some None \<longleftrightarrow>
    (\<exists>b c. baseFee = Some b \<and> 0 < b \<and> required = Some c \<and> big_IsUint64 c \<and>
       length receipts \<le> length txs \<and> (\<forall>tx \<in> set (take (length receipts) txs). b \<le> tx_GasFeeCap tx) \<and>
       c * b \<le> tips_paid G b txs receipts)"
proof -
  have fee: "(case totalBlockFee G b txs receipts 0 of
       None \<Rightarrow> None
     | Some (Inl e) \<Rightarrow> Some (Some e)
     | Some (Inr fee) \<Rightarrow>
         (case big_Div fee b of
            None \<Rightarrow> None
          | Some blockGas \<Rightarrow>
              Some (if blockGas < c then Some (InsufficientBlockFee blockGas c) else None))) =
      (Some None :: 'e consensus_error option option) \<longleftrightarrow>
      length receipts \<le> length txs \<and> (\<forall>tx \<in> set (take (length receipts) txs). b \<le> tx_GasFeeCap tx) \<and>
      c * b \<le> tips_paid G b txs receipts" (is "?checks \<longleftrightarrow> ?ok")
    if "0 < b" for b c
  proof
    assume ?checks
    moreover have "big_Div fee b = Some (fee div b)" for fee using that by (simp add: big_Div_def)
    ultimately obtain fee where "(totalBlockFee G b txs receipts 0 :: ('e consensus_error + int) option) = Some (Inr fee)"
      and "\<not> fee div b < c"
      by (auto split: option.splits sum.splits if_splits)
    then show ?ok using that by (simp add: totalBlockFee_Inr int_div_less_iff)
  next
    assume ok: ?ok
    then have "(totalBlockFee G b txs receipts 0 :: ('e consensus_error + int) option) =
        Some (Inr (tips_paid G b txs receipts))"
      by (simp add: totalBlockFee_Inr)
    then show ?checks using ok that by (simp add: big_Div_def int_div_less_iff)
  qed
  show ?thesis
    unfolding verifyBlockFee_def
    using assms by (cases baseFee; cases required) (auto simp: fee not_le)
qed

subsection \<open>What a verified header satisfies\<close>

lemma verifyHeader_parts:
  fixes chain :: "'e ChainHeaderReader"
  assumes "verifyHeader G eng chain header parent False = Some None"
  shows "extraDataLengthOk (cc_NetworkUpgrades (chr_Config chain)) header"
    and "verifyHeaderGasFields G chain header parent = Some None"
    and "verifyCoinbase eng chain header parent = None"
    and "hdr_Time header \<le> word_of_int (eng_clock eng + 10)"
    and "hdr_Time parent \<le> hdr_Time header"
    and "\<exists>n. hdr_Number parent = Some n \<and> hdr_Number header = Some (n + 1)"
    and "verifyCancunFields (chr_Config chain) header parent = (Some None :: 'e consensus_error option option)"
proof -
  have "extraDataLengthOk (cc_NetworkUpgrades (chr_Config chain)) header \<and>
    verifyHeaderGasFields G chain header parent = Some None \<and>
    verifyCoinbase eng chain header parent = None \<and>
    hdr_Time header \<le> word_of_int (eng_clock eng + 10) \<and> hdr_Time parent \<le> hdr_Time header \<and>
    (\<exists>n. hdr_Number parent = Some n \<and> hdr_Number header = Some (n + 1)) \<and>
    verifyCancunFields (chr_Config chain) header parent = (Some None :: 'e consensus_error option option)"
    using assms unfolding verifyHeader_def
    by (auto split: if_splits option.splits simp: not_less algebra_simps)
  then show "extraDataLengthOk (cc_NetworkUpgrades (chr_Config chain)) header"
    and "verifyHeaderGasFields G chain header parent = Some None"
    and "verifyCoinbase eng chain header parent = None"
    and "hdr_Time header \<le> word_of_int (eng_clock eng + 10)"
    and "hdr_Time parent \<le> hdr_Time header"
    and "\<exists>n. hdr_Number parent = Some n \<and> hdr_Number header = Some (n + 1)"
    and "verifyCancunFields (chr_Config chain) header parent = (Some None :: 'e consensus_error option option)"
    by blast+
qed


definition pays_block_gas_cost :: "FeeConfig \<Rightarrow> Header \<Rightarrow> Header \<Rightarrow> bool" where
  "pays_block_gas_cost fc parent header \<longleftrightarrow>
     (\<exists>c. hdr_BlockGasCost header = Some c \<and> big_IsUint64 c \<and>
        calcBlockGasCost (fc_TargetBlockRate fc) (fc_MinBlockGasCost fc) (fc_MaxBlockGasCost fc)
          (fc_BlockGasCostStep fc) (hdr_BlockGasCost parent) (hdr_Time parent) (hdr_Time header) = Some c)"

lemma verifyHeaderGasFields_limits:
  assumes "verifyHeaderGasFields G chain header parent = Some None"
  shows "hdr_GasUsed header \<le> hdr_GasLimit header \<and> hdr_GasLimit header \<le> MaxGasLimit"
  using assms unfolding verifyHeaderGasFields_def Let_def
  by (simp split: if_splits add: not_less)

lemma verifyHeaderGasFields_subnet:
  assumes ok: "verifyHeaderGasFields G chain header parent = Some None"
    and fork: "IsSubnetEVM (cc_NetworkUpgrades (chr_Config chain)) (hdr_Time header)"
  obtains fc changed gl w b where "chr_GetFeeConfigAt chain parent = Inr (fc, changed)"
    "fc_GasLimit fc = Some gl" "hdr_GasLimit header = big_Uint64 gl"
    "CalcBaseFee G (chr_Config chain) fc parent (hdr_Time header) = Some (Inr (w, Some b))"
    "length w \<le> length (hdr_Extra header)" "take (length w) (hdr_Extra header) = w"
    "hdr_BaseFee header = Some b" "pays_block_gas_cost fc parent header"
proof -
  note steps = ok [unfolded verifyHeaderGasFields_def Let_def]
  from steps obtain fc changed where fc: "chr_GetFeeConfigAt chain parent = Inr (fc, changed)"
    by (cases "chr_GetFeeConfigAt chain parent") (auto split: if_splits)
  note steps = steps [unfolded fc sum.case prod.case]
  from steps fork obtain gl where gl: "fc_GasLimit fc = Some gl" "hdr_GasLimit header = big_Uint64 gl"
    by (auto split: if_splits option.splits)
  from steps fork gl obtain w e where
    calc: "CalcBaseFee G (chr_Config chain) fc parent (hdr_Time header) = Some (Inr (w, e))"
    by (auto split: if_splits option.splits sum.splits)
  note steps = steps [unfolded gl(1) option.case calc sum.case prod.case]
  from steps fork gl obtain b where b: "hdr_BaseFee header = Some b" "e = Some b"
    and w: "length w \<le> length (hdr_Extra header)" "take (length w) (hdr_Extra header) = w"
    by (auto split: if_splits option.splits)
  from steps fork gl b w have "pays_block_gas_cost fc parent header"
    by (auto simp: pays_block_gas_cost_def split: if_splits option.splits)
  with fc gl calc b w show thesis by (intro that) auto
qed

subsection \<open>Assembling and finalizing a block agree\<close>

lemma NewBlock_header:
  "hdr_Time (blk_header (NewBlock G hasher h txs uncles receipts)) = hdr_Time h"
  "hdr_BaseFee (blk_header (NewBlock G hasher h txs uncles receipts)) = hdr_BaseFee h"
  "hdr_BlockGasCost (blk_header (NewBlock G hasher h txs uncles receipts)) = hdr_BlockGasCost h"
  "blk_transactions (NewBlock G hasher h txs uncles receipts) = txs"
  by (simp_all add: NewBlock_def CopyHeader_def Let_def)

lemma verifyBlockFee_uint64:
  "\<not> ModeSkipBlockFee (eng_consensusMode eng) \<Longrightarrow>
   verifyBlockFee G eng b (Some c) txs receipts = Some None \<Longrightarrow> big_IsUint64 c"
  by (auto simp: verifyBlockFee_accepts)

lemma FinalizeAndAssemble_Finalize:
  fixes chain :: "'e ChainHeaderReader"
  assumes "FinalizeAndAssemble G hasher eng chain header parent root txs uncles receipts = Some (Inr block)"
    and "\<not> ModeSkipBlockFee (eng_consensusMode eng)"
  shows "Finalize G eng chain block parent receipts = Some None"
proof (cases "IsSubnetEVM (cc_NetworkUpgrades (chr_Config chain)) (hdr_Time header)")
  case False
  with assms(1) have "hdr_Time (blk_header block) = hdr_Time header"
    by (auto simp: FinalizeAndAssemble_def Let_def NewBlock_header)
  with False show ?thesis by (simp add: Finalize_def Let_def)
next
  case True
  note steps = assms(1) [unfolded FinalizeAndAssemble_def Let_def]
  from steps True obtain fc changed where fc: "chr_GetFeeConfigAt chain parent = Inr (fc, changed)"
    by (cases "chr_GetFeeConfigAt chain parent") auto
  note steps = steps [unfolded fc sum.case prod.case]
  from steps True obtain c where
    c: "calcBlockGasCost (fc_TargetBlockRate fc) (fc_MinBlockGasCost fc) (fc_MaxBlockGasCost fc)
          (fc_BlockGasCostStep fc) (hdr_BlockGasCost parent) (hdr_Time parent) (hdr_Time header) = Some c"
    by (auto split: option.splits)
  note steps = steps [unfolded c option.case]
  from steps True have fee: "verifyBlockFee G eng (hdr_BaseFee header) (Some c) txs receipts =
        (Some None :: 'e consensus_error option option)"
    and h: "hdr_Time (blk_header block) = hdr_Time header"
      "hdr_BaseFee (blk_header block) = hdr_BaseFee header"
      "hdr_BlockGasCost (blk_header block) = Some c" "blk_transactions block = txs"
    by (auto simp: NewBlock_header split: option.splits)
  have "big_IsUint64 c" using assms(2) fee by (rule verifyBlockFee_uint64)
  with fee True show ?thesis by (simp add: Finalize_def Let_def h fc c)
qed

subsection \<open>The window along a chain\<close>

text \<open>
  A chain of headers, newest first, down to the genesis header, in which every header after it has
  passed verification against its parent under the dynamic fee rules.
\<close>

inductive verified_chain :: "geth \<Rightarrow> DummyEngine \<Rightarrow> 'e ChainHeaderReader \<Rightarrow> Header list \<Rightarrow> bool"
  for G eng chain where
  genesis: "hdr_Number h = Some 0 \<Longrightarrow> verified_chain G eng chain [h]"
| child: "verified_chain G eng chain (p # hs) \<Longrightarrow>
    verifyHeader G eng chain h p False = Some None \<Longrightarrow>
    IsSubnetEVM (cc_NetworkUpgrades (chr_Config chain)) (hdr_Time p) \<Longrightarrow>
    verified_chain G eng chain (h # p # hs)"

inductive_cases verified_chain_ConsE: "verified_chain G eng chain (h # p # hs)"

text \<open>The seconds between blocks with the gas of the earlier one; the genesis block is not counted.\<close>

fun gas_history :: "Header list \<Rightarrow> (u64 \<times> u64) list" where
  "gas_history (c # p # hs) =
     (if hs = [] then [] else (hdr_Time c - hdr_Time p, hdr_GasUsed p) # gas_history (p # hs))"
| "gas_history _ = []"

abbreviation window_run :: "geth \<Rightarrow> (u64 \<times> u64) list \<Rightarrow> byte list option" where
  "window_run G \<equiv> rolling_window.run (replicate 80 0) (window_step G)"

lemma window_run_simps:
  assumes "geth_ok G"
  shows "window_run G [] = Some (replicate 80 0)"
    and "window_run G ((r, g) # h) =
      (case window_run G h of None \<Rightarrow> None | Some w \<Rightarrow> window_step G w r g)"
  by (simp_all add: rolling_window.run.simps [OF rolling_window_bytes [OF assms]])

lemma verified_chain_number:
  assumes "verified_chain G eng chain hs"
  shows "\<exists>n \<ge> 0. hdr_Number (hd hs) = Some n \<and> (n = 0 \<longleftrightarrow> tl hs = [])"
  using assms
proof (induction rule: verified_chain.induct)
  case (genesis h)
  then show ?case by simp
next
  case (child p hs h)
  then obtain n where "0 \<le> n" "hdr_Number p = Some n" by auto
  with verifyHeader_parts(6) [OF child(2)] show ?case by auto
qed

lemma CalcBaseFee_window:
  assumes "CalcBaseFee G config fc parent t = Some (Inr (w, e))"
    and "IsSubnetEVM (cc_NetworkUpgrades config) (hdr_Time parent)"
    and "hdr_Number parent = Some n" "n \<noteq> 0"
  shows "80 \<le> length (hdr_Extra parent) \<and> hdr_Time parent \<le> t \<and>
    window_step G (take 80 (hdr_Extra parent)) (t - hdr_Time parent) (hdr_GasUsed parent) = Some w"
  using assms unfolding CalcBaseFee_def window_step_def DynamicFeeExtraDataSize_def Let_def
  by (auto split: if_splits option.splits sum.splits simp: not_less)

lemma CalcBaseFee_initial:
  "hdr_Number parent = Some 0 \<Longrightarrow> CalcBaseFee G config fc parent t = Some (Inr (w, e)) \<Longrightarrow>
     w = replicate 80 0"
  by (auto simp: CalcBaseFee_def Let_def DynamicFeeExtraDataSize_def split: if_splits)

lemma window_step_length:
  "geth_ok G \<Longrightarrow> length w = 80 \<Longrightarrow> unat r < 2 ^ 60 \<Longrightarrow> window_step G w r g = Some w' \<Longrightarrow> length w' = 80"
  using nextRollupWindow_ok [of G w r g] by (auto simp: window_step_def)

lemma u64_diff_bound:
  "a \<le> b \<Longrightarrow> unat b < 2 ^ 60 \<Longrightarrow> unat (b - a :: u64) < 2 ^ 60"
  by (simp add: unat_sub word_le_nat_alt)

lemma isSubnetEVM_later:
  "IsSubnetEVM n t \<Longrightarrow> t \<le> t' \<Longrightarrow> IsSubnetEVM n t'"
  unfolding IsSubnetEVM_def by (rule isTimestampForked_mono)

lemma verified_chain_window:
  assumes G: "geth_ok G" and "verified_chain G eng chain hs" and "tl hs \<noteq> []"
    and "unat (hdr_Time (hd hs)) < 2 ^ 60"
  shows "80 \<le> length (hdr_Extra (hd hs)) \<and>
    window_run G (gas_history hs) = Some (take 80 (hdr_Extra (hd hs))) \<and>
    (\<forall>(r, g) \<in> set (gas_history hs). unat r < 2 ^ 60)"
  using assms(2-)
proof (induction rule: verified_chain.induct)
  case (genesis h)
  then show ?case by simp
next
  case (child p hs h)
  note parts = verifyHeader_parts [OF child(2)]
  have le: "hdr_Time p \<le> hdr_Time h" by (rule parts(5))
  have p60: "unat (hdr_Time p) < 2 ^ 60" using le child(6) by (simp add: word_le_nat_alt)
  have r60: "unat (hdr_Time h - hdr_Time p) < 2 ^ 60" using le child(6) by (intro u64_diff_bound) simp_all
  obtain fc changed gl w b where calc: "CalcBaseFee G (chr_Config chain) fc p (hdr_Time h) = Some (Inr (w, Some b))"
    and w: "length w \<le> length (hdr_Extra h)" "take (length w) (hdr_Extra h) = w"
    using verifyHeaderGasFields_subnet [OF parts(2) isSubnetEVM_later [OF child(3) le]] by metis
  obtain n where n: "hdr_Number p = Some n" "n = 0 \<longleftrightarrow> hs = []"
    using verified_chain_number [OF child(1)] by auto
  show ?case
  proof (cases "hs = []")
    case True
    with n calc have "w = replicate 80 0" by (auto dest: CalcBaseFee_initial)
    with w True show ?thesis by (simp add: window_run_simps [OF G])
  next
    case False
    with n have "n \<noteq> 0" by simp
    from CalcBaseFee_window [OF calc child(3) n(1) this]
    have step: "window_step G (take 80 (hdr_Extra p)) (hdr_Time h - hdr_Time p) (hdr_GasUsed p) = Some w"
      and len: "80 \<le> length (hdr_Extra p)" by auto
    have IH: "window_run G (gas_history (p # hs)) = Some (take 80 (hdr_Extra p))"
      "\<forall>(r, g) \<in> set (gas_history (p # hs)). unat r < 2 ^ 60"
      using child(4) False p60 by auto
    have "length w = 80" using window_step_length [OF G _ r60 step] len by simp
    with w step IH False r60 show ?thesis by (simp add: window_run_simps [OF G])
  qed
qed

end
