(* ===== verification/AccessLists.thy ===== *)
theory AccessLists
  imports Types
begin

text \<open>
  core/state/access_list.go and core/state/transient_storage.go. The set of slots of an address is a
  set at an index of a list; the index is -1 for an address without slots.
\<close>

subsection \<open>The access list\<close>

record accessList =
  al_addresses :: "address \<rightharpoonup> int"
  al_slots :: "hash set list"

definition newAccessList :: accessList where
  "newAccessList = \<lparr>al_addresses = Map.empty, al_slots = []\<rparr>"

definition ContainsAddress :: "accessList \<Rightarrow> address \<Rightarrow> bool" where
  "ContainsAddress al addr \<longleftrightarrow> al_addresses al addr \<noteq> None"

text \<open>\<open>None\<close> is the panic of an index out of range.\<close>

definition slotmapAt :: "accessList \<Rightarrow> int \<Rightarrow> hash set option" where
  "slotmapAt al idx =
     (if 0 \<le> idx \<and> idx < int (length (al_slots al)) then Some (al_slots al ! nat idx) else None)"

definition al_Contains :: "accessList \<Rightarrow> address \<Rightarrow> hash \<Rightarrow> (bool \<times> bool) option" where
  "al_Contains al addr slot =
     (case al_addresses al addr of
        None \<Rightarrow> Some (False, False)
      | Some idx \<Rightarrow>
          if idx = -1 then Some (True, False)
          else map_option (\<lambda>slotmap. (True, slot \<in> slotmap)) (slotmapAt al idx))"

definition al_AddAddress :: "accessList \<Rightarrow> address \<Rightarrow> accessList \<times> bool" where
  "al_AddAddress al addr =
     (if al_addresses al addr \<noteq> None then (al, False)
      else (al\<lparr>al_addresses := (al_addresses al)(addr \<mapsto> -1)\<rparr>, True))"

definition al_AddSlot :: "accessList \<Rightarrow> address \<Rightarrow> hash \<Rightarrow> (accessList \<times> bool \<times> bool) option" where
  "al_AddSlot al addr slot =
     (if al_addresses al addr = None \<or> al_addresses al addr = Some (-1)
      then Some (al\<lparr>al_addresses := (al_addresses al)(addr \<mapsto> int (length (al_slots al))),
                    al_slots := al_slots al @ [{slot}]\<rparr>,
                 al_addresses al addr = None, True)
      else let idx = the (al_addresses al addr) in
           case slotmapAt al idx of
             None \<Rightarrow> None
           | Some slotmap \<Rightarrow>
               if slot \<notin> slotmap
               then Some (al\<lparr>al_slots := (al_slots al)[nat idx := insert slot slotmap]\<rparr>, False, True)
               else Some (al, False, False))"

definition al_DeleteSlot :: "accessList \<Rightarrow> address \<Rightarrow> hash \<Rightarrow> accessList option" where
  "al_DeleteSlot al addr slot =
     (case al_addresses al addr of
        None \<Rightarrow> None
      | Some idx \<Rightarrow>
          (case slotmapAt al idx of
             None \<Rightarrow> None
           | Some slotmap \<Rightarrow>
               (let slotmap' = slotmap - {slot} in
                if slotmap' = {}
                then Some (al\<lparr>al_slots := take (nat idx) (al_slots al),
                              al_addresses := (al_addresses al)(addr \<mapsto> -1)\<rparr>)
                else Some (al\<lparr>al_slots := (al_slots al)[nat idx := slotmap']\<rparr>))))"

definition al_DeleteAddress :: "accessList \<Rightarrow> address \<Rightarrow> accessList" where
  "al_DeleteAddress al addr = al\<lparr>al_addresses := (al_addresses al)(addr := None)\<rparr>"

subsection \<open>Transient storage\<close>

type_synonym transientStorage = "address \<rightharpoonup> (hash \<rightharpoonup> hash)"

definition ts_Set :: "transientStorage \<Rightarrow> address \<Rightarrow> hash \<Rightarrow> hash \<Rightarrow> transientStorage" where
  "ts_Set t addr key value =
     t(addr \<mapsto> (case t addr of None \<Rightarrow> Map.empty | Some m \<Rightarrow> m)(key \<mapsto> value))"

definition ts_Get :: "transientStorage \<Rightarrow> address \<Rightarrow> hash \<Rightarrow> hash" where
  "ts_Get t addr key =
     (case t addr of None \<Rightarrow> 0 | Some m \<Rightarrow> (case m key of None \<Rightarrow> 0 | Some v \<Rightarrow> v))"

subsection \<open>Facts\<close>

definition al_wf :: "accessList \<Rightarrow> bool" where
  "al_wf al \<longleftrightarrow>
     (\<forall>a i. al_addresses al a = Some i \<longrightarrow>
        i = -1 \<or> 0 \<le> i \<and> i < int (length (al_slots al)) \<and> al_slots al ! nat i \<noteq> {})"

lemma al_wf_new [simp]: "al_wf newAccessList"
  by (simp add: al_wf_def newAccessList_def)

lemma al_wfD:
  "al_wf al \<Longrightarrow> al_addresses al a = Some i \<Longrightarrow> i \<noteq> -1 \<Longrightarrow>
     0 \<le> i \<and> i < int (length (al_slots al)) \<and> al_slots al ! nat i \<noteq> {}"
  by (auto simp: al_wf_def)

lemma al_wf_AddAddress: "al_wf al \<Longrightarrow> al_wf (fst (al_AddAddress al a))"
  by (auto simp: al_wf_def al_AddAddress_def)

lemma al_AddSlot_ok:
  assumes "al_wf al"
  shows "\<exists>al' am sm. al_AddSlot al a s = Some (al', am, sm) \<and> al_wf al'"
proof (cases "al_addresses al a = None \<or> al_addresses al a = Some (-1)")
  case True
  let ?al = "al\<lparr>al_addresses := (al_addresses al)(a \<mapsto> int (length (al_slots al))),
                al_slots := al_slots al @ [{s}]\<rparr>"
  have "al_wf ?al"
    unfolding al_wf_def
  proof (intro allI impI)
    fix b i assume b: "al_addresses ?al b = Some i"
    show "i = -1 \<or> 0 \<le> i \<and> i < int (length (al_slots ?al)) \<and> al_slots ?al ! nat i \<noteq> {}"
    proof (cases "b = a \<or> i = -1")
      case False
      with b al_wfD [OF assms, of b i] show ?thesis by (simp add: nth_append nat_less_iff)
    qed (use b in auto)
  qed
  with True show ?thesis by (auto simp: al_AddSlot_def)
next
  case False
  then obtain i where i: "al_addresses al a = Some i" "i \<noteq> -1" by auto
  from al_wfD [OF assms i] have "slotmapAt al i = Some (al_slots al ! nat i)" by (simp add: slotmapAt_def)
  moreover have "al_wf (al\<lparr>al_slots := (al_slots al)[nat i := insert s (al_slots al ! nat i)]\<rparr>)"
    unfolding al_wf_def
  proof (intro allI impI, goal_cases)
    case (1 b j)
    with al_wfD [OF assms, of b j] show ?case by (cases "nat j = nat i") auto
  qed
  ultimately show ?thesis using i assms by (auto simp: al_AddSlot_def Let_def)
qed

text \<open>Undoing an addition restores the list exactly.\<close>

lemma al_DeleteAddress_AddAddress:
  "al_AddAddress al a = (al', True) \<Longrightarrow> al_DeleteAddress al' a = al"
  by (cases al) (auto simp: al_AddAddress_def al_DeleteAddress_def fun_upd_idem split: if_splits)

lemma al_DeleteSlot_AddSlot:
  assumes "al_wf al" and "al_AddSlot al a s = Some (al', am, True)"
  shows "\<exists>al''. al_DeleteSlot al' a s = Some al'' \<and> (if am then al_DeleteAddress al'' a else al'') = al"
proof (cases "al_addresses al a = None \<or> al_addresses al a = Some (-1)")
  case True
  with assms show ?thesis
    by (cases al) (auto simp: al_AddSlot_def al_DeleteSlot_def al_DeleteAddress_def slotmapAt_def fun_upd_idem)
next
  case False
  then obtain i where i: "al_addresses al a = Some i" "i \<noteq> -1" by auto
  from al_wfD [OF assms(1) i] have m: "slotmapAt al i = Some (al_slots al ! nat i)"
    "al_slots al ! nat i \<noteq> {}" "0 \<le> i" "i < int (length (al_slots al))"
    by (auto simp: slotmapAt_def)
  with assms i have new: "s \<notin> al_slots al ! nat i" "\<not> am"
    "al' = al\<lparr>al_slots := (al_slots al)[nat i := insert s (al_slots al ! nat i)]\<rparr>"
    by (auto simp: al_AddSlot_def Let_def split: if_splits)
  then have "insert s (al_slots al ! nat i) - {s} = al_slots al ! nat i" by auto
  with m i new show ?thesis by (simp add: al_DeleteSlot_def slotmapAt_def Let_def)
qed

lemma al_AddSlot_nochange: "al_AddSlot al a s = Some (al', am, False) \<Longrightarrow> al' = al \<and> \<not> am"
  by (auto simp: al_AddSlot_def Let_def split: if_splits option.splits)

text \<open>What an access list contains after an addition.\<close>

lemma ContainsAddress_AddAddress:
  "ContainsAddress (fst (al_AddAddress al a)) b \<longleftrightarrow> b = a \<or> ContainsAddress al b"
  by (auto simp: al_AddAddress_def ContainsAddress_def)

lemma ts_Get_Set: "ts_Get (ts_Set t a k v) b l = (if b = a \<and> l = k then v else ts_Get t b l)"
  by (auto simp: ts_Get_def ts_Set_def split: option.splits)

end
