(* ===== verification/PredicateBytes.thy ===== *)
theory PredicateBytes
  imports DynamicFees
begin

text \<open>
  Predicates of a transaction (package predicate): a message packed into the storage keys of an access tuple,
  with a delimiter and zero padding, and the results of predicate verification that a block carries.
\<close>

subsection \<open>Predicate bytes (predicate_bytes.go)\<close>

definition EndByte :: byte where "EndByte = 255"

datatype predicate_error =
    ErrInvalidAllZeroBytes
  | ErrInvalidPadding nat nat
  | ErrInvalidEndDelimiter

definition PackPredicate :: "geth \<Rightarrow> byte list \<Rightarrow> byte list" where
  "PackPredicate G predicateBytes =
     (let predicateBytes = predicateBytes @ [EndByte]
      in RightPadBytes G predicateBytes ((length predicateBytes + 31) div 32 * 32))"

definition UnpackPredicate :: "geth \<Rightarrow> byte list \<Rightarrow> predicate_error + byte list" where
  "UnpackPredicate G paddedPredicate =
     (let trimmed = TrimRightZeroes G paddedPredicate;
          expectedPaddedLength = (length trimmed + 31) div 32 * 32
      in if length trimmed = 0 then Inl ErrInvalidAllZeroBytes
         else if expectedPaddedLength \<noteq> length paddedPredicate
         then Inl (ErrInvalidPadding (length paddedPredicate) expectedPaddedLength)
         else if last trimmed \<noteq> EndByte then Inl ErrInvalidEndDelimiter
         else Inr (butlast trimmed))"

definition GetPredicateResultBytes :: "byte list \<Rightarrow> byte list \<times> bool" where
  "GetPredicateResultBytes extraData =
     (if length extraData \<le> DynamicFeeExtraDataSize then ([], False)
      else (drop DynamicFeeExtraDataSize extraData, True))"

subsection \<open>Storage keys (utils/bytes.go)\<close>

definition HashSliceToBytes :: "hash list \<Rightarrow> byte list" where
  "HashSliceToBytes hs = concat (map hashBytes hs)"

text \<open>\<open>copy(hashes[i][:], b[start:])\<close> leaves the bytes beyond the end of b zero.\<close>

definition BytesToHashSlice :: "byte list \<Rightarrow> hash list" where
  "BytesToHashSlice b =
     map (\<lambda>i. let part = take 32 (drop (i * 32) b) in BytesToHash (part @ replicate (32 - length part) 0))
       [0..<(length b + 31) div 32]"

subsection \<open>Predicate results (predicate_results.go)\<close>

text \<open>Results by transaction and by precompile; a missing entry reads as no bytes.\<close>

type_synonym TxResults = "address \<rightharpoonup> byte list"

type_synonym PredicateResults = "hash \<rightharpoonup> TxResults"

definition GetResults :: "PredicateResults \<Rightarrow> hash \<Rightarrow> address \<Rightarrow> byte list" where
  "GetResults r txHash a =
     (case r txHash of
        None \<Rightarrow> []
      | Some txResults \<Rightarrow> (case txResults a of None \<Rightarrow> [] | Some bs \<Rightarrow> bs))"

definition SetTxResults :: "PredicateResults \<Rightarrow> hash \<Rightarrow> TxResults \<Rightarrow> PredicateResults" where
  "SetTxResults r txHash txResults =
     (if txResults = Map.empty then r(txHash := None) else r(txHash \<mapsto> txResults))"

definition DeleteTxResults :: "PredicateResults \<Rightarrow> hash \<Rightarrow> PredicateResults" where
  "DeleteTxResults r txHash = r(txHash := None)"

subsection \<open>Round trips\<close>

lemma GetResults_Set:
  "GetResults (SetTxResults r h txResults) h' a =
     (if h' = h then (case txResults a of None \<Rightarrow> [] | Some bs \<Rightarrow> bs) else GetResults r h' a)"
  by (simp add: GetResults_def SetTxResults_def)

lemma dropWhile_zeros: "dropWhile (\<lambda>b. b = (0::byte)) (replicate n 0 @ 255 # xs) = 255 # xs"
  by (induction n) auto

lemma Unpack_Pack:
  assumes "geth_ok G"
  shows "UnpackPredicate G (PackPredicate G bs) = Inr bs"
proof -
  let ?n = "(length (bs @ [EndByte]) + 31) div 32 * 32"
  have "TrimRightZeroes G (PackPredicate G bs) = bs @ [EndByte]"
    by (simp add: PackPredicate_def geth_okD [OF assms] EndByte_def dropWhile_zeros del: replicate_Suc)
  moreover have "length (PackPredicate G bs) = ?n"
    by (simp add: PackPredicate_def geth_okD [OF assms])
  ultimately show ?thesis by (simp add: UnpackPredicate_def)
qed

lemma length_HashSliceToBytes [simp]: "length (HashSliceToBytes hs) = 32 * length hs"
  by (induction hs) (simp_all add: HashSliceToBytes_def)

lemma hashBytes_BytesToHash: "length bs = 32 \<Longrightarrow> hashBytes (BytesToHash bs) = bs"
  using be_nat_bound [of bs] be_bytes_be_nat [of bs]
  by (simp add: hashBytes_def BytesToHash_def unsigned_of_nat take_bit_nat_eq_self)

lemma concat_chunks:
  "length b = 32 * n \<Longrightarrow> concat (map (\<lambda>i. take 32 (drop (i * 32) b)) [0..<n]) = b"
proof (induction n arbitrary: b)
  case (Suc n)
  have "concat (map (\<lambda>i. take 32 (drop (i * 32) b)) [0..<Suc n]) =
      take 32 b @ concat (map (\<lambda>i. take 32 (drop (i * 32) (drop 32 b))) [0..<n])"
    by (simp add: upt_conv_Cons map_Suc_upt [symmetric] comp_def add.commute del: upt_Suc)
  also have "\<dots> = take 32 b @ drop 32 b" using Suc.IH [of "drop 32 b"] Suc.prems by (simp del: drop_drop)
  finally show ?case by simp
qed simp

lemma HashSlice_roundtrip:
  assumes "length b mod 32 = 0"
  shows "HashSliceToBytes (BytesToHashSlice b) = b"
proof -
  let ?n = "(length b + 31) div 32"
  have n: "length b = 32 * ?n" using assms by presburger
  have "hashBytes (BytesToHash (take 32 (drop (i * 32) b) @ replicate (32 - length (take 32 (drop (i * 32) b))) 0)) =
      take 32 (drop (i * 32) b)" if "i < ?n" for i
  proof -
    from that n have "length (take 32 (drop (i * 32) b)) = 32" by simp
    then show ?thesis by (simp add: hashBytes_BytesToHash)
  qed
  then have "map (\<lambda>i. hashBytes (BytesToHash (take 32 (drop (i * 32) b) @
        replicate (32 - length (take 32 (drop (i * 32) b))) 0))) [0..<?n] = map (\<lambda>i. take 32 (drop (i * 32) b)) [0..<?n]"
    by simp
  then show ?thesis
    using concat_chunks [OF n] by (simp only: HashSliceToBytes_def BytesToHashSlice_def Let_def comp_def map_map)
qed

lemma PackPredicate_words: "geth_ok G \<Longrightarrow> length (PackPredicate G bs) mod 32 = 0"
  by (simp add: PackPredicate_def geth_okD)

end
