(* ===== verification/StateDB.thy ===== *)
theory StateDB
  imports AccessLists Blocks ChainConfig PredicateBytes
begin

text \<open>
  The world state of core/state: statedb.go, state_object.go and journal.go.

  The database below the state (snapshot, account trie, storage tries, contract code) is the parameter
  \<open>B\<close>. Reads go through caches, so a getter returns the state it leaves along with its result. A
  pointer to a live object is its value, written back with \<open>setStateObject\<close>. The journal keeps a
  replaced object by value: after \<open>createObject\<close> nothing but the journal refers to it. The
  prefetcher, the time measurements and the writes to the tries (IntermediateRoot, Commit) are left out.
\<close>

subsection \<open>Accounts and the database\<close>

record StateAccount =
  sa_Nonce :: u64
  sa_Balance :: u256
  sa_Root :: hash
  sa_CodeHash :: hash

record SlimAccount =
  sl_Nonce :: u64
  sl_Balance :: u256
  sl_Root :: "byte list"
  sl_CodeHash :: "byte list"

record 'e snapshotReader =
  snap_Account :: "hash \<Rightarrow> 'e + SlimAccount option"
  snap_Storage :: "hash \<Rightarrow> hash \<Rightarrow> byte list \<times> 'e option"

text \<open>\<open>bk_rlpSplit\<close> is the content that rlp.Split finds, with its error.\<close>

record 'e backend =
  bk_Keccak256Hash :: "byte list \<Rightarrow> hash"
  bk_snap :: "'e snapshotReader option"
  bk_rlpSplit :: "byte list \<Rightarrow> byte list \<times> 'e option"
  bk_GetAccount :: "address \<Rightarrow> 'e + StateAccount option"
  bk_OpenStorageTrie :: "address \<Rightarrow> hash \<Rightarrow> 'e + (hash \<Rightarrow> 'e + byte list)"
  bk_ContractCode :: "address \<Rightarrow> hash \<Rightarrow> byte list option \<times> 'e option"
  bk_ContractCodeSize :: "address \<Rightarrow> hash \<Rightarrow> nat \<times> 'e option"

text \<open>SetBytes of a hash overwrites its last bytes.\<close>

definition hash_SetBytes :: "hash \<Rightarrow> byte list \<Rightarrow> hash" where
  "hash_SetBytes h b =
     (let b' = drop (length b - 32) b in BytesToHash (take (32 - length b') (hashBytes h) @ b'))"

definition EmptyCodeHash :: "'e backend \<Rightarrow> hash" where
  "EmptyCodeHash B = bk_Keccak256Hash B []"

definition NewEmptyStateAccount :: "'e backend \<Rightarrow> StateAccount" where
  "NewEmptyStateAccount B =
     \<lparr>sa_Nonce = 0, sa_Balance = 0, sa_Root = EmptyRootHash, sa_CodeHash = EmptyCodeHash B\<rparr>"

subsection \<open>State objects, journal entries and the state\<close>

type_synonym Storage = "hash \<rightharpoonup> hash"

record stateObject =
  so_address :: address
  so_addrHash :: hash
  so_origin :: "StateAccount option"
  so_data :: StateAccount
  so_code :: "byte list option"
  so_originStorage :: Storage
  so_pendingStorage :: Storage
  so_dirtyStorage :: Storage
  so_dirtyCode :: bool
  so_selfDestructed :: bool
  so_deleted :: bool
  so_created :: bool

datatype journalEntry =
    createObjectChange address
  | resetObjectChange (ro_account: address) (ro_prev: stateObject) (ro_prevdestruct: bool)
      (ro_prevAccount: "byte list option") (ro_prevStorage: "(hash \<rightharpoonup> byte list option) option")
      (ro_prevAccountOrigin: "byte list option option")
      (ro_prevStorageOrigin: "(hash \<rightharpoonup> byte list option) option")
  | selfDestructChange address bool u256
  | balanceChange address u256
  | nonceChange address u64
  | storageChange address hash hash
  | codeChange address "byte list option" hash
  | refundChange u64
  | addLogChange hash
  | addPreimageChange hash
  | touchChange address
  | accessListAddAccountChange address
  | accessListAddSlotChange address hash
  | transientStorageChange address hash hash

fun dirtied :: "journalEntry \<Rightarrow> address option" where
  "dirtied (createObjectChange a) = Some a"
| "dirtied (resetObjectChange a _ _ _ _ _ _) = Some a"
| "dirtied (selfDestructChange a _ _) = Some a"
| "dirtied (balanceChange a _) = Some a"
| "dirtied (nonceChange a _) = Some a"
| "dirtied (storageChange a _ _) = Some a"
| "dirtied (codeChange a _ _) = Some a"
| "dirtied (touchChange a) = Some a"
| "dirtied _ = None"

record journal =
  j_entries :: "journalEntry list"
  j_dirties :: "(address \<times> int) list"

definition newJournal :: journal where
  "newJournal = \<lparr>j_entries = [], j_dirties = []\<rparr>"

record revision =
  rev_id :: nat
  rev_journalIndex :: nat

datatype 'e sdb_error =
    ErrGetAccount address 'e
  | ErrReadStorage 'e
  | ErrLoadCode hash 'e
  | ErrLoadCodeSize hash 'e

record 'e StateDB =
  sdb_accounts :: "hash \<rightharpoonup> byte list"
  sdb_storages :: "hash \<rightharpoonup> (hash \<rightharpoonup> byte list option)"
  sdb_accountsOrigin :: "address \<rightharpoonup> byte list option"
  sdb_storagesOrigin :: "address \<rightharpoonup> (hash \<rightharpoonup> byte list option)"
  sdb_stateObjects :: "address \<rightharpoonup> stateObject"
  sdb_stateObjectsPending :: "address set"
  sdb_stateObjectsDirty :: "address set"
  sdb_stateObjectsDestruct :: "address \<rightharpoonup> StateAccount option"
  sdb_dbErr :: "'e sdb_error option"
  sdb_refund :: u64
  sdb_thash :: hash
  sdb_txIndex :: nat
  sdb_logs :: "hash \<rightharpoonup> Log list"
  sdb_logSize :: nat
  sdb_preimages :: "hash \<rightharpoonup> byte list"
  sdb_accessList :: accessList
  sdb_predicateStorageSlots :: "address \<rightharpoonup> byte list list"
  sdb_transientStorage :: transientStorage
  sdb_journal :: journal
  sdb_validRevisions :: "revision list"
  sdb_nextRevisionId :: nat

definition NewStateDB :: "'e StateDB" where
  "NewStateDB =
     \<lparr>sdb_accounts = Map.empty, sdb_storages = Map.empty, sdb_accountsOrigin = Map.empty,
      sdb_storagesOrigin = Map.empty, sdb_stateObjects = Map.empty, sdb_stateObjectsPending = {},
      sdb_stateObjectsDirty = {}, sdb_stateObjectsDestruct = Map.empty, sdb_dbErr = None,
      sdb_refund = 0, sdb_thash = 0, sdb_txIndex = 0, sdb_logs = Map.empty, sdb_logSize = 0,
      sdb_preimages = Map.empty, sdb_accessList = newAccessList,
      sdb_predicateStorageSlots = Map.empty, sdb_transientStorage = Map.empty,
      sdb_journal = newJournal, sdb_validRevisions = [], sdb_nextRevisionId = 0\<rparr>"

definition setError :: "'e StateDB \<Rightarrow> 'e sdb_error option \<Rightarrow> 'e StateDB" where
  "setError s err = (if sdb_dbErr s = None then s\<lparr>sdb_dbErr := err\<rparr> else s)"

definition incDirty :: "(address \<times> int) list \<Rightarrow> address \<Rightarrow> (address \<times> int) list" where
  "incDirty d a = AList.update a ((case map_of d a of None \<Rightarrow> 0 | Some n \<Rightarrow> n) + 1) d"

definition decDirty :: "(address \<times> int) list \<Rightarrow> address \<Rightarrow> (address \<times> int) list" where
  "decDirty d a =
     (let n = (case map_of d a of None \<Rightarrow> 0 | Some n \<Rightarrow> n) - 1
      in if n = 0 then AList.delete a d else AList.update a n d)"

definition journal_append :: "'e StateDB \<Rightarrow> journalEntry \<Rightarrow> 'e StateDB" where
  "journal_append s entry =
     s\<lparr>sdb_journal :=
        \<lparr>j_entries = j_entries (sdb_journal s) @ [entry],
         j_dirties = (case dirtied entry of
             None \<Rightarrow> j_dirties (sdb_journal s)
           | Some a \<Rightarrow> incDirty (j_dirties (sdb_journal s)) a)\<rparr>\<rparr>"

definition journal_dirty :: "'e StateDB \<Rightarrow> address \<Rightarrow> 'e StateDB" where
  "journal_dirty s a =
     s\<lparr>sdb_journal := (sdb_journal s)\<lparr>j_dirties := incDirty (j_dirties (sdb_journal s)) a\<rparr>\<rparr>"

subsection \<open>Finding and creating objects\<close>

definition newObject :: "'e backend \<Rightarrow> address \<Rightarrow> StateAccount option \<Rightarrow> stateObject" where
  "newObject B a acct =
     \<lparr>so_address = a, so_addrHash = bk_Keccak256Hash B (addressBytes a), so_origin = acct,
      so_data = (case acct of None \<Rightarrow> NewEmptyStateAccount B | Some d \<Rightarrow> d),
      so_code = None, so_originStorage = Map.empty, so_pendingStorage = Map.empty,
      so_dirtyStorage = Map.empty, so_dirtyCode = False, so_selfDestructed = False,
      so_deleted = False, so_created = (acct = None)\<rparr>"

definition setStateObject :: "'e StateDB \<Rightarrow> stateObject \<Rightarrow> 'e StateDB" where
  "setStateObject s obj = s\<lparr>sdb_stateObjects := (sdb_stateObjects s)(so_address obj \<mapsto> obj)\<rparr>"

definition slimToAccount :: "'e backend \<Rightarrow> SlimAccount \<Rightarrow> StateAccount" where
  "slimToAccount B acc =
     \<lparr>sa_Nonce = sl_Nonce acc, sa_Balance = sl_Balance acc,
      sa_Root = (if BytesToHash (sl_Root acc) = 0 then EmptyRootHash else BytesToHash (sl_Root acc)),
      sa_CodeHash = (if sl_CodeHash acc = [] then EmptyCodeHash B else BytesToHash (sl_CodeHash acc))\<rparr>"

text \<open>The account on disk: from the snapshot, or from the trie where there is none or it fails.\<close>

definition readAccount :: "'e backend \<Rightarrow> address \<Rightarrow> 'e + StateAccount option" where
  "readAccount B a =
     (case bk_snap B of
        None \<Rightarrow> bk_GetAccount B a
      | Some snap \<Rightarrow>
          (case snap_Account snap (bk_Keccak256Hash B (addressBytes a)) of
             Inl _ \<Rightarrow> bk_GetAccount B a
           | Inr acc \<Rightarrow> Inr (map_option (slimToAccount B) acc)))"

definition getDeletedStateObject ::
    "'e backend \<Rightarrow> 'e StateDB \<Rightarrow> address \<Rightarrow> stateObject option \<times> 'e StateDB" where
  "getDeletedStateObject B s a =
     (case sdb_stateObjects s a of
        Some obj \<Rightarrow> (Some obj, s)
      | None \<Rightarrow>
          (case readAccount B a of
             Inl err \<Rightarrow> (None, setError s (Some (ErrGetAccount a err)))
           | Inr None \<Rightarrow> (None, s)
           | Inr (Some data) \<Rightarrow>
               (let obj = newObject B a (Some data) in (Some obj, setStateObject s obj))))"

definition getStateObject ::
    "'e backend \<Rightarrow> 'e StateDB \<Rightarrow> address \<Rightarrow> stateObject option \<times> 'e StateDB" where
  "getStateObject B s a =
     (case getDeletedStateObject B s a of
        (Some obj, s') \<Rightarrow> if so_deleted obj then (None, s') else (Some obj, s')
      | (None, s') \<Rightarrow> (None, s'))"

definition createObject ::
    "'e backend \<Rightarrow> 'e StateDB \<Rightarrow> address \<Rightarrow> stateObject \<times> stateObject option \<times> 'e StateDB" where
  "createObject B s0 a =
     (let (prev, s) = getDeletedStateObject B s0 a;
          newobj = newObject B a None
      in case prev of
           None \<Rightarrow> (newobj, None, setStateObject (journal_append s (createObjectChange a)) newobj)
         | Some p \<Rightarrow>
             (let prevdestruct = (sdb_stateObjectsDestruct s (so_address p) \<noteq> None);
                  s1 = (if prevdestruct then s
                        else s\<lparr>sdb_stateObjectsDestruct :=
                                 (sdb_stateObjectsDestruct s)(so_address p \<mapsto> so_origin p)\<rparr>);
                  s2 = journal_append s1
                         (resetObjectChange a p prevdestruct (sdb_accounts s1 (so_addrHash p))
                            (sdb_storages s1 (so_addrHash p)) (sdb_accountsOrigin s1 (so_address p))
                            (sdb_storagesOrigin s1 (so_address p)));
                  s3 = s2\<lparr>sdb_accounts := (sdb_accounts s2)(so_addrHash p := None),
                          sdb_storages := (sdb_storages s2)(so_addrHash p := None),
                          sdb_accountsOrigin := (sdb_accountsOrigin s2)(so_address p := None),
                          sdb_storagesOrigin := (sdb_storagesOrigin s2)(so_address p := None)\<rparr>
              in (newobj, (if so_deleted p then None else Some p), setStateObject s3 newobj)))"

definition getOrNewStateObject ::
    "'e backend \<Rightarrow> 'e StateDB \<Rightarrow> address \<Rightarrow> stateObject \<times> 'e StateDB" where
  "getOrNewStateObject B s a =
     (case getStateObject B s a of
        (Some obj, s') \<Rightarrow> (obj, s')
      | (None, s') \<Rightarrow> (case createObject B s' a of (obj, _, s'') \<Rightarrow> (obj, s'')))"

subsection \<open>Operations of a state object\<close>

definition so_empty :: "'e backend \<Rightarrow> stateObject \<Rightarrow> bool" where
  "so_empty B obj \<longleftrightarrow>
     sa_Nonce (so_data obj) = 0 \<and> sa_Balance (so_data obj) = 0 \<and>
     sa_CodeHash (so_data obj) = EmptyCodeHash B"

definition ripemd :: address where "ripemd = 3"

definition so_touch :: "'e StateDB \<Rightarrow> stateObject \<Rightarrow> 'e StateDB" where
  "so_touch s obj =
     (let s' = journal_append s (touchChange (so_address obj))
      in if so_address obj = ripemd then journal_dirty s' (so_address obj) else s')"

text \<open>
  A slot on disk, with the errors met. The value is \<open>None\<close> where the read fails: the code returns the
  zero hash there and does not cache it.
\<close>

definition readStorage ::
    "'e backend \<Rightarrow> address \<Rightarrow> hash \<Rightarrow> hash \<Rightarrow> hash \<Rightarrow> 'e sdb_error list \<times> hash option" where
  "readStorage B a addrHash root key =
     (let (errs, value, err) =
        (case bk_snap B of
           None \<Rightarrow> ([], 0, None)
         | Some snap \<Rightarrow>
             (case snap_Storage snap addrHash (bk_Keccak256Hash B (hashBytes key)) of
                (enc, err) \<Rightarrow>
                  if enc = [] then ([], 0, err)
                  else (case bk_rlpSplit B enc of
                          (content, None) \<Rightarrow> ([], hash_SetBytes 0 content, err)
                        | (content, Some e) \<Rightarrow> ([ErrReadStorage e], hash_SetBytes 0 content, err))))
      in if bk_snap B = None \<or> err \<noteq> None
         then (case bk_OpenStorageTrie B a root of
                 Inl e \<Rightarrow> (errs @ [ErrReadStorage e], None)
               | Inr tr \<Rightarrow>
                   (case tr key of
                      Inl e \<Rightarrow> (errs @ [ErrReadStorage e], None)
                    | Inr val \<Rightarrow> (errs, Some (hash_SetBytes value val))))
         else (errs, Some value))"

definition so_GetCommittedState ::
    "'e backend \<Rightarrow> 'e StateDB \<Rightarrow> stateObject \<Rightarrow> hash \<Rightarrow> hash \<times> stateObject \<times> 'e StateDB" where
  "so_GetCommittedState B s obj key =
     (case so_pendingStorage obj key of
        Some value \<Rightarrow> (value, obj, s)
      | None \<Rightarrow>
          (case so_originStorage obj key of
             Some value \<Rightarrow> (value, obj, s)
           | None \<Rightarrow>
               if sdb_stateObjectsDestruct s (so_address obj) \<noteq> None then (0, obj, s)
               else (case readStorage B (so_address obj) (so_addrHash obj) (sa_Root (so_data obj)) key of
                       (errs, v) \<Rightarrow>
                         (let s' = foldl (\<lambda>t e. setError t (Some e)) s errs
                          in case v of
                               None \<Rightarrow> (0, obj, s')
                             | Some value \<Rightarrow>
                                 (value,
                                  obj\<lparr>so_originStorage := (so_originStorage obj)(key \<mapsto> value)\<rparr>, s')))))"

definition so_GetState ::
    "'e backend \<Rightarrow> 'e StateDB \<Rightarrow> stateObject \<Rightarrow> hash \<Rightarrow> hash \<times> stateObject \<times> 'e StateDB" where
  "so_GetState B s obj key =
     (case so_dirtyStorage obj key of
        Some value \<Rightarrow> (value, obj, s)
      | None \<Rightarrow> so_GetCommittedState B s obj key)"

definition so_setState :: "stateObject \<Rightarrow> hash \<Rightarrow> hash \<Rightarrow> stateObject" where
  "so_setState obj key value = obj\<lparr>so_dirtyStorage := (so_dirtyStorage obj)(key \<mapsto> value)\<rparr>"

definition so_SetState ::
    "'e backend \<Rightarrow> 'e StateDB \<Rightarrow> stateObject \<Rightarrow> hash \<Rightarrow> hash \<Rightarrow> stateObject \<times> 'e StateDB" where
  "so_SetState B s obj key value =
     (case so_GetState B s obj key of
        (prev, obj', s') \<Rightarrow>
          if prev = value then (obj', s')
          else (so_setState obj' key value,
                journal_append s' (storageChange (so_address obj') key prev)))"

definition so_finalise :: "stateObject \<Rightarrow> stateObject" where
  "so_finalise obj =
     obj\<lparr>so_pendingStorage := so_pendingStorage obj ++ so_dirtyStorage obj,
         so_dirtyStorage := Map.empty\<rparr>"

definition so_setBalance :: "stateObject \<Rightarrow> u256 \<Rightarrow> stateObject" where
  "so_setBalance obj amount = obj\<lparr>so_data := (so_data obj)\<lparr>sa_Balance := amount\<rparr>\<rparr>"

definition so_SetBalance :: "'e StateDB \<Rightarrow> stateObject \<Rightarrow> u256 \<Rightarrow> stateObject \<times> 'e StateDB" where
  "so_SetBalance s obj amount =
     (so_setBalance obj amount,
      journal_append s (balanceChange (so_address obj) (sa_Balance (so_data obj))))"

definition so_AddBalance ::
    "'e backend \<Rightarrow> 'e StateDB \<Rightarrow> stateObject \<Rightarrow> u256 \<Rightarrow> stateObject \<times> 'e StateDB" where
  "so_AddBalance B s obj amount =
     (if amount = 0 then (obj, if so_empty B obj then so_touch s obj else s)
      else so_SetBalance s obj (sa_Balance (so_data obj) + amount))"

definition so_SubBalance :: "'e StateDB \<Rightarrow> stateObject \<Rightarrow> u256 \<Rightarrow> stateObject \<times> 'e StateDB" where
  "so_SubBalance s obj amount =
     (if amount = 0 then (obj, s)
      else so_SetBalance s obj (sa_Balance (so_data obj) - amount))"

definition so_Code ::
    "'e backend \<Rightarrow> 'e StateDB \<Rightarrow> stateObject \<Rightarrow> byte list option \<times> stateObject \<times> 'e StateDB" where
  "so_Code B s obj =
     (if so_code obj \<noteq> None then (so_code obj, obj, s)
      else if sa_CodeHash (so_data obj) = EmptyCodeHash B then (None, obj, s)
      else (case bk_ContractCode B (so_address obj) (sa_CodeHash (so_data obj)) of
              (code, err) \<Rightarrow>
                (code, obj\<lparr>so_code := code\<rparr>,
                 case err of None \<Rightarrow> s
                 | Some e \<Rightarrow> setError s (Some (ErrLoadCode (sa_CodeHash (so_data obj)) e)))))"

definition so_CodeSize ::
    "'e backend \<Rightarrow> 'e StateDB \<Rightarrow> stateObject \<Rightarrow> nat \<times> 'e StateDB" where
  "so_CodeSize B s obj =
     (case so_code obj of
        Some code \<Rightarrow> (length code, s)
      | None \<Rightarrow>
          if sa_CodeHash (so_data obj) = EmptyCodeHash B then (0, s)
          else (case bk_ContractCodeSize B (so_address obj) (sa_CodeHash (so_data obj)) of
                  (n, err) \<Rightarrow>
                    (n, case err of None \<Rightarrow> s
                        | Some e \<Rightarrow> setError s (Some (ErrLoadCodeSize (sa_CodeHash (so_data obj)) e)))))"

definition so_setCode :: "stateObject \<Rightarrow> hash \<Rightarrow> byte list option \<Rightarrow> stateObject" where
  "so_setCode obj codeHash code =
     obj\<lparr>so_code := code, so_data := (so_data obj)\<lparr>sa_CodeHash := codeHash\<rparr>, so_dirtyCode := True\<rparr>"

definition so_SetCode ::
    "'e backend \<Rightarrow> 'e StateDB \<Rightarrow> stateObject \<Rightarrow> hash \<Rightarrow> byte list option \<Rightarrow> stateObject \<times> 'e StateDB" where
  "so_SetCode B s obj codeHash code =
     (case so_Code B s obj of
        (prevcode, obj', s') \<Rightarrow>
          (so_setCode obj' codeHash code,
           journal_append s' (codeChange (so_address obj') prevcode (sa_CodeHash (so_data obj')))))"

definition so_setNonce :: "stateObject \<Rightarrow> u64 \<Rightarrow> stateObject" where
  "so_setNonce obj nonce = obj\<lparr>so_data := (so_data obj)\<lparr>sa_Nonce := nonce\<rparr>\<rparr>"

definition so_SetNonce :: "'e StateDB \<Rightarrow> stateObject \<Rightarrow> u64 \<Rightarrow> stateObject \<times> 'e StateDB" where
  "so_SetNonce s obj nonce =
     (so_setNonce obj nonce,
      journal_append s (nonceChange (so_address obj) (sa_Nonce (so_data obj))))"

subsection \<open>Reading the state\<close>

definition Exist :: "'e backend \<Rightarrow> 'e StateDB \<Rightarrow> address \<Rightarrow> bool \<times> 'e StateDB" where
  "Exist B s a = (case getStateObject B s a of (obj, s') \<Rightarrow> (obj \<noteq> None, s'))"

definition Empty :: "'e backend \<Rightarrow> 'e StateDB \<Rightarrow> address \<Rightarrow> bool \<times> 'e StateDB" where
  "Empty B s a =
     (case getStateObject B s a of
        (None, s') \<Rightarrow> (True, s')
      | (Some obj, s') \<Rightarrow> (so_empty B obj, s'))"

definition GetBalance :: "'e backend \<Rightarrow> 'e StateDB \<Rightarrow> address \<Rightarrow> u256 \<times> 'e StateDB" where
  "GetBalance B s a =
     (case getStateObject B s a of
        (None, s') \<Rightarrow> (0, s')
      | (Some obj, s') \<Rightarrow> (sa_Balance (so_data obj), s'))"

definition GetNonce :: "'e backend \<Rightarrow> 'e StateDB \<Rightarrow> address \<Rightarrow> u64 \<times> 'e StateDB" where
  "GetNonce B s a =
     (case getStateObject B s a of
        (None, s') \<Rightarrow> (0, s')
      | (Some obj, s') \<Rightarrow> (sa_Nonce (so_data obj), s'))"

definition GetStorageRoot :: "'e backend \<Rightarrow> 'e StateDB \<Rightarrow> address \<Rightarrow> hash \<times> 'e StateDB" where
  "GetStorageRoot B s a =
     (case getStateObject B s a of
        (None, s') \<Rightarrow> (0, s')
      | (Some obj, s') \<Rightarrow> (sa_Root (so_data obj), s'))"

definition GetCode :: "'e backend \<Rightarrow> 'e StateDB \<Rightarrow> address \<Rightarrow> byte list option \<times> 'e StateDB" where
  "GetCode B s a =
     (case getStateObject B s a of
        (None, s') \<Rightarrow> (None, s')
      | (Some obj, s') \<Rightarrow>
          (case so_Code B s' obj of (code, obj', s'') \<Rightarrow> (code, setStateObject s'' obj')))"

definition GetCodeSize :: "'e backend \<Rightarrow> 'e StateDB \<Rightarrow> address \<Rightarrow> nat \<times> 'e StateDB" where
  "GetCodeSize B s a =
     (case getStateObject B s a of
        (None, s') \<Rightarrow> (0, s')
      | (Some obj, s') \<Rightarrow> so_CodeSize B s' obj)"

definition GetCodeHash :: "'e backend \<Rightarrow> 'e StateDB \<Rightarrow> address \<Rightarrow> hash \<times> 'e StateDB" where
  "GetCodeHash B s a =
     (case getStateObject B s a of
        (None, s') \<Rightarrow> (0, s')
      | (Some obj, s') \<Rightarrow> (sa_CodeHash (so_data obj), s'))"

definition GetState :: "'e backend \<Rightarrow> 'e StateDB \<Rightarrow> address \<Rightarrow> hash \<Rightarrow> hash \<times> 'e StateDB" where
  "GetState B s a key =
     (case getStateObject B s a of
        (None, s') \<Rightarrow> (0, s')
      | (Some obj, s') \<Rightarrow>
          (case so_GetState B s' obj key of (v, obj', s'') \<Rightarrow> (v, setStateObject s'' obj')))"

definition GetCommittedState :: "'e backend \<Rightarrow> 'e StateDB \<Rightarrow> address \<Rightarrow> hash \<Rightarrow> hash \<times> 'e StateDB" where
  "GetCommittedState B s a key =
     (case getStateObject B s a of
        (None, s') \<Rightarrow> (0, s')
      | (Some obj, s') \<Rightarrow>
          (case so_GetCommittedState B s' obj key of (v, obj', s'') \<Rightarrow> (v, setStateObject s'' obj')))"

definition HasSelfDestructed :: "'e backend \<Rightarrow> 'e StateDB \<Rightarrow> address \<Rightarrow> bool \<times> 'e StateDB" where
  "HasSelfDestructed B s a =
     (case getStateObject B s a of
        (None, s') \<Rightarrow> (False, s')
      | (Some obj, s') \<Rightarrow> (so_selfDestructed obj, s'))"

definition GetTransientState :: "'e StateDB \<Rightarrow> address \<Rightarrow> hash \<Rightarrow> hash" where
  "GetTransientState s a key = ts_Get (sdb_transientStorage s) a key"

definition GetLogs :: "'e StateDB \<Rightarrow> hash \<Rightarrow> u64 \<Rightarrow> hash \<Rightarrow> Log list \<times> 'e StateDB" where
  "GetLogs s h blockNumber blockHash =
     (case sdb_logs s h of
        None \<Rightarrow> ([], s)
      | Some logs \<Rightarrow>
          (let logs' = map (\<lambda>l. l\<lparr>log_BlockNumber := blockNumber, log_BlockHash := blockHash\<rparr>) logs
           in (logs', s\<lparr>sdb_logs := (sdb_logs s)(h \<mapsto> logs')\<rparr>)))"

definition GetPredicateStorageSlots :: "'e StateDB \<Rightarrow> address \<Rightarrow> nat \<Rightarrow> byte list option" where
  "GetPredicateStorageSlots s a index =
     (case sdb_predicateStorageSlots s a of
        None \<Rightarrow> None
      | Some predicates \<Rightarrow> if index \<ge> length predicates then None else Some (predicates ! index))"

subsection \<open>Changing the state\<close>

definition AddLog :: "'e StateDB \<Rightarrow> address \<Rightarrow> hash list \<Rightarrow> byte list \<Rightarrow> u64 \<Rightarrow> 'e StateDB" where
  "AddLog s a topics data blockNumber =
     (let s1 = journal_append s (addLogChange (sdb_thash s));
          log = \<lparr>log_Address = a, log_Topics = topics, log_Data = data, log_BlockNumber = blockNumber,
                 log_TxHash = sdb_thash s, log_TxIndex = sdb_txIndex s, log_BlockHash = 0,
                 log_Index = sdb_logSize s, log_Removed = False\<rparr>
      in s1\<lparr>sdb_logs := (sdb_logs s1)(sdb_thash s \<mapsto>
               (case sdb_logs s1 (sdb_thash s) of None \<Rightarrow> [] | Some l \<Rightarrow> l) @ [log]),
            sdb_logSize := Suc (sdb_logSize s)\<rparr>)"

definition AddPreimage :: "'e StateDB \<Rightarrow> hash \<Rightarrow> byte list \<Rightarrow> 'e StateDB" where
  "AddPreimage s h preimage =
     (if sdb_preimages s h \<noteq> None then s
      else (journal_append s (addPreimageChange h))
             \<lparr>sdb_preimages := (sdb_preimages s)(h \<mapsto> preimage)\<rparr>)"

definition AddRefund :: "'e StateDB \<Rightarrow> u64 \<Rightarrow> 'e StateDB" where
  "AddRefund s gas = (journal_append s (refundChange (sdb_refund s)))\<lparr>sdb_refund := sdb_refund s + gas\<rparr>"

definition SubRefund :: "'e StateDB \<Rightarrow> u64 \<Rightarrow> 'e StateDB" where
  "SubRefund s gas =
     (let s1 = journal_append s (refundChange (sdb_refund s))
      in if gas > sdb_refund s then s1\<lparr>sdb_refund := 0\<rparr> else s1\<lparr>sdb_refund := sdb_refund s - gas\<rparr>)"

abbreviation withObject ::
    "'e backend \<Rightarrow> 'e StateDB \<Rightarrow> address \<Rightarrow>
       ('e StateDB \<Rightarrow> stateObject \<Rightarrow> stateObject \<times> 'e StateDB) \<Rightarrow> 'e StateDB" where
  "withObject B s a f \<equiv>
     (case getOrNewStateObject B s a of (obj, s') \<Rightarrow>
        (case f s' obj of (obj', s'') \<Rightarrow> setStateObject s'' obj'))"

definition AddBalance :: "'e backend \<Rightarrow> 'e StateDB \<Rightarrow> address \<Rightarrow> u256 \<Rightarrow> 'e StateDB" where
  "AddBalance B s a amount = withObject B s a (\<lambda>s obj. so_AddBalance B s obj amount)"

definition SubBalance :: "'e backend \<Rightarrow> 'e StateDB \<Rightarrow> address \<Rightarrow> u256 \<Rightarrow> 'e StateDB" where
  "SubBalance B s a amount = withObject B s a (\<lambda>s obj. so_SubBalance s obj amount)"

definition SetBalance :: "'e backend \<Rightarrow> 'e StateDB \<Rightarrow> address \<Rightarrow> u256 \<Rightarrow> 'e StateDB" where
  "SetBalance B s a amount = withObject B s a (\<lambda>s obj. so_SetBalance s obj amount)"

definition SetNonce :: "'e backend \<Rightarrow> 'e StateDB \<Rightarrow> address \<Rightarrow> u64 \<Rightarrow> 'e StateDB" where
  "SetNonce B s a nonce = withObject B s a (\<lambda>s obj. so_SetNonce s obj nonce)"

definition SetCode :: "'e backend \<Rightarrow> 'e StateDB \<Rightarrow> address \<Rightarrow> byte list option \<Rightarrow> 'e StateDB" where
  "SetCode B s a code =
     withObject B s a
       (\<lambda>s obj. so_SetCode B s obj (bk_Keccak256Hash B (case code of None \<Rightarrow> [] | Some c \<Rightarrow> c)) code)"

definition SetState :: "'e backend \<Rightarrow> 'e StateDB \<Rightarrow> address \<Rightarrow> hash \<Rightarrow> hash \<Rightarrow> 'e StateDB" where
  "SetState B s a key value = withObject B s a (\<lambda>s obj. so_SetState B s obj key value)"

text \<open>The storage is a list of slots, in the order in which the code visits the map.\<close>

definition SetStorage :: "'e backend \<Rightarrow> 'e StateDB \<Rightarrow> address \<Rightarrow> (hash \<times> hash) list \<Rightarrow> 'e StateDB" where
  "SetStorage B s a storage =
     (let s1 = (if sdb_stateObjectsDestruct s a \<noteq> None then s
                else s\<lparr>sdb_stateObjectsDestruct := (sdb_stateObjectsDestruct s)(a \<mapsto> None)\<rparr>);
          (obj, s2) = getOrNewStateObject B s1 a;
          (obj', s3) = foldl (\<lambda>(obj, s) (k, v). so_SetState B s obj k v) (obj, s2) storage
      in setStateObject s3 obj')"

definition SelfDestruct :: "'e backend \<Rightarrow> 'e StateDB \<Rightarrow> address \<Rightarrow> 'e StateDB" where
  "SelfDestruct B s a =
     (case getStateObject B s a of
        (None, s') \<Rightarrow> s'
      | (Some obj, s') \<Rightarrow>
          setStateObject
            (journal_append s' (selfDestructChange a (so_selfDestructed obj) (sa_Balance (so_data obj))))
            (so_setBalance (obj\<lparr>so_selfDestructed := True\<rparr>) 0))"

definition Selfdestruct6780 :: "'e backend \<Rightarrow> 'e StateDB \<Rightarrow> address \<Rightarrow> 'e StateDB" where
  "Selfdestruct6780 B s a =
     (case getStateObject B s a of
        (None, s') \<Rightarrow> s'
      | (Some obj, s') \<Rightarrow> if so_created obj then SelfDestruct B s' a else s')"

definition setTransientState :: "'e StateDB \<Rightarrow> address \<Rightarrow> hash \<Rightarrow> hash \<Rightarrow> 'e StateDB" where
  "setTransientState s a key value =
     s\<lparr>sdb_transientStorage := ts_Set (sdb_transientStorage s) a key value\<rparr>"

definition SetTransientState :: "'e StateDB \<Rightarrow> address \<Rightarrow> hash \<Rightarrow> hash \<Rightarrow> 'e StateDB" where
  "SetTransientState s a key value =
     (let prev = GetTransientState s a key
      in if prev = value then s
         else setTransientState (journal_append s (transientStorageChange a key prev)) a key value)"

definition CreateAccount :: "'e backend \<Rightarrow> 'e StateDB \<Rightarrow> address \<Rightarrow> 'e StateDB" where
  "CreateAccount B s a =
     (case createObject B s a of
        (newObj, None, s') \<Rightarrow> s'
      | (newObj, Some prev, s') \<Rightarrow> setStateObject s' (so_setBalance newObj (sa_Balance (so_data prev))))"

definition AddAddressToAccessList :: "'e StateDB \<Rightarrow> address \<Rightarrow> 'e StateDB" where
  "AddAddressToAccessList s a =
     (case al_AddAddress (sdb_accessList s) a of
        (al, added) \<Rightarrow>
          (let s1 = s\<lparr>sdb_accessList := al\<rparr>
           in if added then journal_append s1 (accessListAddAccountChange a) else s1))"

definition AddSlotToAccessList :: "'e StateDB \<Rightarrow> address \<Rightarrow> hash \<Rightarrow> 'e StateDB option" where
  "AddSlotToAccessList s a slot =
     (case al_AddSlot (sdb_accessList s) a slot of
        None \<Rightarrow> None
      | Some (al, addrMod, slotMod) \<Rightarrow>
          (let s1 = s\<lparr>sdb_accessList := al\<rparr>;
               s2 = (if addrMod then journal_append s1 (accessListAddAccountChange a) else s1)
           in Some (if slotMod then journal_append s2 (accessListAddSlotChange a slot) else s2)))"

definition SetTxContext :: "'e StateDB \<Rightarrow> hash \<Rightarrow> nat \<Rightarrow> 'e StateDB" where
  "SetTxContext s thash ti = s\<lparr>sdb_thash := thash, sdb_txIndex := ti\<rparr>"

definition SetPredicateStorageSlots :: "'e StateDB \<Rightarrow> address \<Rightarrow> byte list list \<Rightarrow> 'e StateDB" where
  "SetPredicateStorageSlots s a predicates =
     s\<lparr>sdb_predicateStorageSlots := (sdb_predicateStorageSlots s)(a \<mapsto> predicates)\<rparr>"

subsection \<open>Snapshots\<close>

text \<open>Undoing an entry; \<open>None\<close> is the panic of a nil object.\<close>

abbreviation onObject ::
    "'e backend \<Rightarrow> 'e StateDB \<Rightarrow> address \<Rightarrow> (stateObject \<Rightarrow> stateObject) \<Rightarrow> 'e StateDB option" where
  "onObject B s a f \<equiv>
     (case getStateObject B s a of
        (None, s') \<Rightarrow> None
      | (Some obj, s') \<Rightarrow> Some (setStateObject s' (f obj)))"

fun revertEntry :: "'e backend \<Rightarrow> 'e StateDB \<Rightarrow> journalEntry \<Rightarrow> 'e StateDB option" where
  "revertEntry B s (createObjectChange a) =
     Some (s\<lparr>sdb_stateObjects := (sdb_stateObjects s)(a := None),
             sdb_stateObjectsDirty := sdb_stateObjectsDirty s - {a}\<rparr>)"
| "revertEntry B s (resetObjectChange a prev prevdestruct prevAccount prevStorage prevAccountOrigin prevStorageOrigin) =
     (let s1 = setStateObject s prev;
          s2 = (if prevdestruct then s1
                else s1\<lparr>sdb_stateObjectsDestruct :=
                          (sdb_stateObjectsDestruct s1)(so_address prev := None)\<rparr>);
          s3 = (if prevAccount = None then s2
                else s2\<lparr>sdb_accounts := (sdb_accounts s2)(so_addrHash prev := prevAccount)\<rparr>);
          s4 = (if prevStorage = None then s3
                else s3\<lparr>sdb_storages := (sdb_storages s3)(so_addrHash prev := prevStorage)\<rparr>);
          s5 = (if prevAccountOrigin = None then s4
                else s4\<lparr>sdb_accountsOrigin := (sdb_accountsOrigin s4)(so_address prev := prevAccountOrigin)\<rparr>);
          s6 = (if prevStorageOrigin = None then s5
                else s5\<lparr>sdb_storagesOrigin := (sdb_storagesOrigin s5)(so_address prev := prevStorageOrigin)\<rparr>)
      in Some s6)"
| "revertEntry B s (selfDestructChange a prev prevbalance) =
     (case getStateObject B s a of
        (None, s') \<Rightarrow> Some s'
      | (Some obj, s') \<Rightarrow>
          Some (setStateObject s' (so_setBalance (obj\<lparr>so_selfDestructed := prev\<rparr>) prevbalance)))"
| "revertEntry B s (touchChange a) = Some s"
| "revertEntry B s (balanceChange a prev) = onObject B s a (\<lambda>obj. so_setBalance obj prev)"
| "revertEntry B s (nonceChange a prev) = onObject B s a (\<lambda>obj. so_setNonce obj prev)"
| "revertEntry B s (codeChange a prevcode prevhash) = onObject B s a (\<lambda>obj. so_setCode obj prevhash prevcode)"
| "revertEntry B s (storageChange a key prevalue) = onObject B s a (\<lambda>obj. so_setState obj key prevalue)"
| "revertEntry B s (transientStorageChange a key prevalue) = Some (setTransientState s a key prevalue)"
| "revertEntry B s (refundChange prev) = Some (s\<lparr>sdb_refund := prev\<rparr>)"
| "revertEntry B s (addLogChange txhash) =
     (let logs = (case sdb_logs s txhash of None \<Rightarrow> [] | Some l \<Rightarrow> l)
      in if logs = [] then None
         else Some (s\<lparr>sdb_logs := (if length logs = 1 then (sdb_logs s)(txhash := None)
                                   else (sdb_logs s)(txhash \<mapsto> butlast logs)),
                      sdb_logSize := sdb_logSize s - 1\<rparr>))"
| "revertEntry B s (addPreimageChange h) = Some (s\<lparr>sdb_preimages := (sdb_preimages s)(h := None)\<rparr>)"
| "revertEntry B s (accessListAddAccountChange a) =
     Some (s\<lparr>sdb_accessList := al_DeleteAddress (sdb_accessList s) a\<rparr>)"
| "revertEntry B s (accessListAddSlotChange a slot) =
     (case al_DeleteSlot (sdb_accessList s) a slot of
        None \<Rightarrow> None
      | Some al \<Rightarrow> Some (s\<lparr>sdb_accessList := al\<rparr>))"

definition dropDirty :: "'e StateDB \<Rightarrow> journalEntry \<Rightarrow> 'e StateDB" where
  "dropDirty s entry =
     (case dirtied entry of
        None \<Rightarrow> s
      | Some a \<Rightarrow>
          s\<lparr>sdb_journal := (sdb_journal s)\<lparr>j_dirties := decDirty (j_dirties (sdb_journal s)) a\<rparr>\<rparr>)"

text \<open>The loop of journal.revert, over the entries to undo, the last one first.\<close>

fun revertEntries :: "'e backend \<Rightarrow> 'e StateDB \<Rightarrow> journalEntry list \<Rightarrow> 'e StateDB option" where
  "revertEntries B s [] = Some s"
| "revertEntries B s (e # es) =
     (case revertEntry B s e of
        None \<Rightarrow> None
      | Some s' \<Rightarrow> revertEntries B (dropDirty s' e) es)"

definition journal_revert :: "'e backend \<Rightarrow> 'e StateDB \<Rightarrow> nat \<Rightarrow> 'e StateDB option" where
  "journal_revert B s snapshot =
     map_option
       (\<lambda>s'. s'\<lparr>sdb_journal := (sdb_journal s')\<lparr>j_entries := take snapshot (j_entries (sdb_journal s))\<rparr>\<rparr>)
       (revertEntries B s (rev (drop snapshot (j_entries (sdb_journal s)))))"

text \<open>sort.Search: the least index at which a monotone predicate holds, by bisection.\<close>

function sort_Search_loop :: "(nat \<Rightarrow> bool) \<Rightarrow> nat \<Rightarrow> nat \<Rightarrow> nat" where
  "sort_Search_loop f i j =
     (if i < j
      then (let h = (i + j) div 2
            in if \<not> f h then sort_Search_loop f (h + 1) j else sort_Search_loop f i h)
      else i)"
  by pat_completeness auto
termination by (relation "measure (\<lambda>(f, i, j). j - i)") auto

declare sort_Search_loop.simps [simp del]

definition sort_Search :: "nat \<Rightarrow> (nat \<Rightarrow> bool) \<Rightarrow> nat" where
  "sort_Search n f = sort_Search_loop f 0 n"

definition Snapshot :: "'e StateDB \<Rightarrow> nat \<times> 'e StateDB" where
  "Snapshot s =
     (let id = sdb_nextRevisionId s
      in (id, s\<lparr>sdb_nextRevisionId := id + 1,
                sdb_validRevisions := sdb_validRevisions s @
                  [\<lparr>rev_id = id, rev_journalIndex = length (j_entries (sdb_journal s))\<rparr>]\<rparr>))"

definition RevertToSnapshot :: "'e backend \<Rightarrow> 'e StateDB \<Rightarrow> nat \<Rightarrow> 'e StateDB option" where
  "RevertToSnapshot B s revid =
     (let idx = sort_Search (length (sdb_validRevisions s))
                  (\<lambda>i. rev_id (sdb_validRevisions s ! i) \<ge> revid)
      in if idx = length (sdb_validRevisions s) \<or> rev_id (sdb_validRevisions s ! idx) \<noteq> revid then None
         else map_option
                (\<lambda>s'. s'\<lparr>sdb_validRevisions := take idx (sdb_validRevisions s)\<rparr>)
                (journal_revert B s (rev_journalIndex (sdb_validRevisions s ! idx))))"

subsection \<open>The end and the start of a transaction\<close>

definition clearJournalAndRefund :: "'e StateDB \<Rightarrow> 'e StateDB" where
  "clearJournalAndRefund s =
     (let s1 = (if j_entries (sdb_journal s) = [] then s
                else s\<lparr>sdb_journal := newJournal, sdb_refund := 0\<rparr>)
      in s1\<lparr>sdb_validRevisions := []\<rparr>)"

definition finaliseAddress :: "'e backend \<Rightarrow> bool \<Rightarrow> 'e StateDB \<Rightarrow> address \<Rightarrow> 'e StateDB" where
  "finaliseAddress B deleteEmptyObjects s a =
     (case sdb_stateObjects s a of
        None \<Rightarrow> s
      | Some obj \<Rightarrow>
          (let dead = (so_selfDestructed obj \<or> deleteEmptyObjects \<and> so_empty B obj);
               s1 = (if dead
                     then s\<lparr>sdb_stateObjectsDestruct :=
                              (if sdb_stateObjectsDestruct s (so_address obj) \<noteq> None
                               then sdb_stateObjectsDestruct s
                               else (sdb_stateObjectsDestruct s)(so_address obj \<mapsto> so_origin obj)),
                            sdb_accounts := (sdb_accounts s)(so_addrHash obj := None),
                            sdb_storages := (sdb_storages s)(so_addrHash obj := None),
                            sdb_accountsOrigin := (sdb_accountsOrigin s)(so_address obj := None),
                            sdb_storagesOrigin := (sdb_storagesOrigin s)(so_address obj := None)\<rparr>
                     else s);
               obj' = (if dead then obj\<lparr>so_deleted := True\<rparr> else so_finalise obj)
           in (setStateObject s1 (obj'\<lparr>so_created := False\<rparr>))
                \<lparr>sdb_stateObjectsPending := insert a (sdb_stateObjectsPending s),
                 sdb_stateObjectsDirty := insert a (sdb_stateObjectsDirty s)\<rparr>))"

definition Finalise :: "'e backend \<Rightarrow> 'e StateDB \<Rightarrow> bool \<Rightarrow> 'e StateDB" where
  "Finalise B s deleteEmptyObjects =
     clearJournalAndRefund
       (foldl (finaliseAddress B deleteEmptyObjects) s (map fst (j_dirties (sdb_journal s))))"

definition PreparePredicateStorageSlots :: "Rules \<Rightarrow> AccessList \<Rightarrow> address \<rightharpoonup> byte list list" where
  "PreparePredicateStorageSlots rules accessList =
     foldl (\<lambda>m el.
              if \<not> PredicaterExists rules (at_Address el) then m
              else m(at_Address el \<mapsto>
                       (case m (at_Address el) of None \<Rightarrow> [] | Some l \<Rightarrow> l) @
                       [HashSliceToBytes (at_StorageKeys el)]))
           Map.empty accessList"

fun addSlots :: "accessList \<Rightarrow> address \<Rightarrow> hash list \<Rightarrow> accessList option" where
  "addSlots al a [] = Some al"
| "addSlots al a (k # ks) =
     (case al_AddSlot al a k of None \<Rightarrow> None | Some (al', _) \<Rightarrow> addSlots al' a ks)"

fun addTuples :: "accessList \<Rightarrow> AccessList \<Rightarrow> accessList option" where
  "addTuples al [] = Some al"
| "addTuples al (el # els) =
     (case addSlots (fst (al_AddAddress al (at_Address el))) (at_Address el) (at_StorageKeys el) of
        None \<Rightarrow> None
      | Some al' \<Rightarrow> addTuples al' els)"

definition StateDB_Prepare ::
    "'e StateDB \<Rightarrow> Rules \<Rightarrow> address \<Rightarrow> address \<Rightarrow> address option \<Rightarrow> address list \<Rightarrow> AccessList \<Rightarrow>
       'e StateDB option" where
  "StateDB_Prepare s rules sender coinbase dst precompiles txlist =
     (if ar_IsSubnetEVM (r_AvalancheRules rules)
      then (let al1 = fst (al_AddAddress newAccessList sender);
                al2 = (case dst of None \<Rightarrow> al1 | Some d \<Rightarrow> fst (al_AddAddress al1 d));
                al3 = foldl (\<lambda>al a. fst (al_AddAddress al a)) al2 precompiles
            in case addTuples al3 txlist of
                 None \<Rightarrow> None
               | Some al4 \<Rightarrow>
                   Some (s\<lparr>sdb_accessList :=
                             (if ar_IsDurango (r_AvalancheRules rules) then fst (al_AddAddress al4 coinbase) else al4),
                           sdb_predicateStorageSlots := PreparePredicateStorageSlots rules txlist,
                           sdb_transientStorage := Map.empty\<rparr>))
      else Some (s\<lparr>sdb_transientStorage := Map.empty\<rparr>))"

subsection \<open>Copying the state\<close>

definition so_deepCopy :: "stateObject \<Rightarrow> stateObject" where
  "so_deepCopy obj =
     \<lparr>so_address = so_address obj, so_addrHash = so_addrHash obj, so_origin = so_origin obj,
      so_data = so_data obj, so_code = so_code obj, so_originStorage = so_originStorage obj,
      so_pendingStorage = so_pendingStorage obj, so_dirtyStorage = so_dirtyStorage obj,
      so_dirtyCode = so_dirtyCode obj, so_selfDestructed = so_selfDestructed obj,
      so_deleted = so_deleted obj, so_created = False\<rparr>"

text \<open>
  The loops only add entries to maps, so their order is immaterial. \<open>None\<close> is the panic of a pending
  or dirty address without an object. The origins are copied from the new state's own empty maps.
\<close>

definition Copy :: "'e StateDB \<Rightarrow> 'e StateDB option" where
  "Copy s =
     (let journalled = {a \<in> set (map fst (j_dirties (sdb_journal s))). sdb_stateObjects s a \<noteq> None};
          kept = sdb_stateObjectsPending s \<union> sdb_stateObjectsDirty s
      in if \<exists>a \<in> kept. sdb_stateObjects s a = None then None
         else Some
           \<lparr>sdb_accounts = sdb_accounts s, sdb_storages = sdb_storages s,
            sdb_accountsOrigin = Map.empty, sdb_storagesOrigin = Map.empty,
            sdb_stateObjects =
              (\<lambda>a. if a \<in> journalled \<union> kept then map_option so_deepCopy (sdb_stateObjects s a) else None),
            sdb_stateObjectsPending = journalled \<union> sdb_stateObjectsPending s,
            sdb_stateObjectsDirty = journalled \<union> sdb_stateObjectsDirty s,
            sdb_stateObjectsDestruct = sdb_stateObjectsDestruct s, sdb_dbErr = None,
            sdb_refund = sdb_refund s, sdb_thash = 0, sdb_txIndex = 0, sdb_logs = sdb_logs s,
            sdb_logSize = sdb_logSize s, sdb_preimages = sdb_preimages s,
            sdb_accessList = sdb_accessList s,
            sdb_predicateStorageSlots = sdb_predicateStorageSlots s,
            sdb_transientStorage = sdb_transientStorage s, sdb_journal = newJournal,
            sdb_validRevisions = [], sdb_nextRevisionId = 0\<rparr>)"

end
