(* ===== verification/StateView.thy ===== *)
theory StateView
  imports StateDB
begin

text \<open>
  The state as its clients see it. \<open>view\<close> forgets the caches of the world state: whether an account
  or a slot has been read from the database already, and how a value came to be the current one. Every
  getter is a function of the view and leaves it unchanged, every setter changes it in one place, and
  undoing a journal entry is the operation \<open>undo\<close> on views.
\<close>

subsection \<open>Views\<close>

record object_view =
  ov_origin :: "StateAccount option"
  ov_data :: StateAccount
  ov_code :: "byte list option"
  ov_committed :: "hash \<Rightarrow> hash"
  ov_state :: "hash \<Rightarrow> hash"
  ov_selfDestructed :: bool
  ov_deleted :: bool
  ov_created :: bool

definition committed ::
    "'e backend \<Rightarrow> (address \<rightharpoonup> StateAccount option) \<Rightarrow> stateObject \<Rightarrow> hash \<Rightarrow> hash" where
  "committed B destruct obj key =
     (case so_pendingStorage obj key of
        Some v \<Rightarrow> v
      | None \<Rightarrow>
          (case so_originStorage obj key of
             Some v \<Rightarrow> v
           | None \<Rightarrow>
               if destruct (so_address obj) \<noteq> None then 0
               else (case snd (readStorage B (so_address obj) (so_addrHash obj)
                                 (sa_Root (so_data obj)) key) of
                       None \<Rightarrow> 0
                     | Some v \<Rightarrow> v)))"

definition codeOf :: "'e backend \<Rightarrow> address \<Rightarrow> hash \<Rightarrow> byte list option \<Rightarrow> byte list option" where
  "codeOf B a codeHash code =
     (if code \<noteq> None then code
      else if codeHash = EmptyCodeHash B then None
      else fst (bk_ContractCode B a codeHash))"

definition object_view ::
    "'e backend \<Rightarrow> (address \<rightharpoonup> StateAccount option) \<Rightarrow> stateObject \<Rightarrow> object_view" where
  "object_view B destruct obj =
     \<lparr>ov_origin = so_origin obj, ov_data = so_data obj,
      ov_code = codeOf B (so_address obj) (sa_CodeHash (so_data obj)) (so_code obj),
      ov_committed = committed B destruct obj,
      ov_state = (\<lambda>key. case so_dirtyStorage obj key of Some v \<Rightarrow> v | None \<Rightarrow> committed B destruct obj key),
      ov_selfDestructed = so_selfDestructed obj, ov_deleted = so_deleted obj, ov_created = so_created obj\<rparr>"

definition lookup :: "'e backend \<Rightarrow> 'e StateDB \<Rightarrow> address \<Rightarrow> stateObject option" where
  "lookup B s a =
     (case sdb_stateObjects s a of
        Some obj \<Rightarrow> Some obj
      | None \<Rightarrow>
          (case readAccount B a of
             Inl _ \<Rightarrow> None
           | Inr data \<Rightarrow> map_option (\<lambda>d. newObject B a (Some d)) data))"

record state_view =
  sv_objects :: "address \<Rightarrow> object_view option"
  sv_accounts :: "hash \<rightharpoonup> byte list"
  sv_storages :: "hash \<rightharpoonup> (hash \<rightharpoonup> byte list option)"
  sv_accountsOrigin :: "address \<rightharpoonup> byte list option"
  sv_storagesOrigin :: "address \<rightharpoonup> (hash \<rightharpoonup> byte list option)"
  sv_pending :: "address set"
  sv_dirty :: "address set"
  sv_destruct :: "address \<rightharpoonup> StateAccount option"
  sv_refund :: u64
  sv_thash :: hash
  sv_txIndex :: nat
  sv_logs :: "hash \<Rightarrow> Log list"
  sv_logSize :: nat
  sv_preimages :: "hash \<rightharpoonup> byte list"
  sv_accessList :: accessList
  sv_predicates :: "address \<rightharpoonup> byte list list"
  sv_transient :: "address \<Rightarrow> hash \<Rightarrow> hash"

definition view :: "'e backend \<Rightarrow> 'e StateDB \<Rightarrow> state_view" where
  "view B s =
     \<lparr>sv_objects = (\<lambda>a. map_option (object_view B (sdb_stateObjectsDestruct s)) (lookup B s a)),
      sv_accounts = sdb_accounts s, sv_storages = sdb_storages s,
      sv_accountsOrigin = sdb_accountsOrigin s, sv_storagesOrigin = sdb_storagesOrigin s,
      sv_pending = sdb_stateObjectsPending s, sv_dirty = sdb_stateObjectsDirty s,
      sv_destruct = sdb_stateObjectsDestruct s, sv_refund = sdb_refund s, sv_thash = sdb_thash s,
      sv_txIndex = sdb_txIndex s,
      sv_logs = (\<lambda>h. case sdb_logs s h of None \<Rightarrow> [] | Some l \<Rightarrow> l), sv_logSize = sdb_logSize s,
      sv_preimages = sdb_preimages s, sv_accessList = sdb_accessList s,
      sv_predicates = sdb_predicateStorageSlots s, sv_transient = ts_Get (sdb_transientStorage s)\<rparr>"

text \<open>The objects are filed under their addresses, and a dirty address has one.\<close>

definition live_ok :: "'e backend \<Rightarrow> 'e StateDB \<Rightarrow> bool" where
  "live_ok B s \<longleftrightarrow>
     (\<forall>a obj. sdb_stateObjects s a = Some obj \<longrightarrow>
        so_address obj = a \<and> so_addrHash obj = bk_Keccak256Hash B (addressBytes a)) \<and>
     sdb_stateObjectsDirty s \<subseteq> dom (sdb_stateObjects s)"

abbreviation ctl :: "'e StateDB \<Rightarrow> journal \<times> revision list \<times> nat" where
  "ctl s \<equiv> (sdb_journal s, sdb_validRevisions s, sdb_nextRevisionId s)"

subsection \<open>The view and the elementary updates\<close>

lemma view_upd_simps [simp]:
  "view B (s\<lparr>sdb_dbErr := e\<rparr>) = view B s"
  "view B (s\<lparr>sdb_journal := j\<rparr>) = view B s"
  "view B (s\<lparr>sdb_validRevisions := vr\<rparr>) = view B s"
  "view B (s\<lparr>sdb_nextRevisionId := n\<rparr>) = view B s"
  "view B (s\<lparr>sdb_refund := r\<rparr>) = (view B s)\<lparr>sv_refund := r\<rparr>"
  "view B (s\<lparr>sdb_accessList := al\<rparr>) = (view B s)\<lparr>sv_accessList := al\<rparr>"
  "view B (s\<lparr>sdb_preimages := p\<rparr>) = (view B s)\<lparr>sv_preimages := p\<rparr>"
  by (simp_all add: view_def lookup_def)

lemma view_setError [simp]: "view B (setError s e) = view B s"
  by (simp add: setError_def)

lemma view_journal [simp]:
  "view B (journal_append s e) = view B s" "view B (journal_dirty s a) = view B s"
  "view B (dropDirty s e) = view B s"
  by (simp_all add: journal_append_def journal_dirty_def dropDirty_def split: option.split)

lemma view_setStateObject:
  "view B (setStateObject s obj) =
     (view B s)\<lparr>sv_objects := (sv_objects (view B s))
        (so_address obj \<mapsto> object_view B (sdb_stateObjectsDestruct s) obj)\<rparr>"
  by (simp add: view_def lookup_def setStateObject_def fun_eq_iff)

lemma setError_other [simp]:
  "sdb_stateObjects (setError s e) = sdb_stateObjects s"
  "sdb_journal (setError s e) = sdb_journal s"
  "sdb_validRevisions (setError s e) = sdb_validRevisions s"
  "sdb_nextRevisionId (setError s e) = sdb_nextRevisionId s"
  "sdb_stateObjectsDestruct (setError s e) = sdb_stateObjectsDestruct s"
  "sdb_stateObjectsDirty (setError s e) = sdb_stateObjectsDirty s"
  by (simp_all add: setError_def)

lemma setErrors_view [simp]:
  "view B (foldl (\<lambda>t e. setError t (Some e)) s errs) = view B s"
  "sdb_stateObjects (foldl (\<lambda>t e. setError t (Some e)) s errs) = sdb_stateObjects s"
  "sdb_journal (foldl (\<lambda>t e. setError t (Some e)) s errs) = sdb_journal s"
  "sdb_validRevisions (foldl (\<lambda>t e. setError t (Some e)) s errs) = sdb_validRevisions s"
  "sdb_nextRevisionId (foldl (\<lambda>t e. setError t (Some e)) s errs) = sdb_nextRevisionId s"
  "sdb_stateObjectsDestruct (foldl (\<lambda>t e. setError t (Some e)) s errs) = sdb_stateObjectsDestruct s"
  "sdb_stateObjectsDirty (foldl (\<lambda>t e. setError t (Some e)) s errs) = sdb_stateObjectsDirty s"
  by (induction errs arbitrary: s) simp_all

lemma setStateObject_other [simp]:
  "sdb_journal (setStateObject s obj) = sdb_journal s"
  "sdb_validRevisions (setStateObject s obj) = sdb_validRevisions s"
  "sdb_nextRevisionId (setStateObject s obj) = sdb_nextRevisionId s"
  "sdb_stateObjectsDestruct (setStateObject s obj) = sdb_stateObjectsDestruct s"
  "sdb_stateObjectsDirty (setStateObject s obj) = sdb_stateObjectsDirty s"
  "sdb_stateObjects (setStateObject s obj) = (sdb_stateObjects s)(so_address obj \<mapsto> obj)"
  by (simp_all add: setStateObject_def)

lemma journal_append_other [simp]:
  "sdb_stateObjects (journal_append s e) = sdb_stateObjects s"
  "sdb_stateObjectsDestruct (journal_append s e) = sdb_stateObjectsDestruct s"
  "sdb_stateObjectsDirty (journal_append s e) = sdb_stateObjectsDirty s"
  "sdb_validRevisions (journal_append s e) = sdb_validRevisions s"
  "sdb_nextRevisionId (journal_append s e) = sdb_nextRevisionId s"
  "j_entries (sdb_journal (journal_append s e)) = j_entries (sdb_journal s) @ [e]"
  by (simp_all add: journal_append_def)

lemma live_ok_simps [simp]:
  "live_ok B (journal_append s e) = live_ok B s"
  "live_ok B (setError s err) = live_ok B s"
  by (simp_all add: live_ok_def)

lemma live_ok_setStateObject:
  "live_ok B s \<Longrightarrow> so_addrHash obj = bk_Keccak256Hash B (addressBytes (so_address obj)) \<Longrightarrow>
     live_ok B (setStateObject s obj)"
  by (auto simp: live_ok_def)

lemma live_okD:
  assumes "live_ok B s" "lookup B s a = Some obj"
  shows "so_address obj = a" "so_addrHash obj = bk_Keccak256Hash B (addressBytes a)"
  using assms by (auto simp: live_ok_def lookup_def newObject_def split: option.splits sum.splits)

subsection \<open>Reading\<close>

lemma view_same_object:
  "lookup B s (so_address obj) = Some obj0 \<Longrightarrow>
     object_view B (sdb_stateObjectsDestruct s) obj = object_view B (sdb_stateObjectsDestruct s) obj0 \<Longrightarrow>
     view B (setStateObject s obj) = view B s"
  unfolding view_setStateObject by (rule state_view.equality) (auto simp: view_def)

lemma getDeletedStateObject_spec:
  assumes ok: "live_ok B s" and get: "getDeletedStateObject B s a = (r, s')"
  shows "r = lookup B s a" "view B s' = view B s" "ctl s' = ctl s" "live_ok B s'"
    "sdb_stateObjectsDestruct s' = sdb_stateObjectsDestruct s"
    "r = Some obj \<Longrightarrow> sdb_stateObjects s' a = Some obj"
proof -
  have "r = lookup B s a \<and> view B s' = view B s \<and> ctl s' = ctl s \<and> live_ok B s' \<and>
    sdb_stateObjectsDestruct s' = sdb_stateObjectsDestruct s \<and>
    (r = Some obj \<longrightarrow> sdb_stateObjects s' a = Some obj)"
  proof (cases "\<exists>d. sdb_stateObjects s a = None \<and> readAccount B a = Inr (Some d)")
    case True
    then obtain d where d: "sdb_stateObjects s a = None" "readAccount B a = Inr (Some d)" by auto
    have "so_address (newObject B a (Some d)) = a"
      "so_addrHash (newObject B a (Some d)) = bk_Keccak256Hash B (addressBytes a)"
      by (simp_all add: newObject_def)
    moreover from d have l: "lookup B s a = Some (newObject B a (Some d))" by (simp add: lookup_def)
    moreover have "s' = setStateObject s (newObject B a (Some d))" "r = Some (newObject B a (Some d))"
      using get d by (simp_all add: getDeletedStateObject_def Let_def)
    ultimately show ?thesis
      using ok by (auto intro: view_same_object live_ok_setStateObject)
  next
    case False
    with get ok show ?thesis
      by (auto simp: getDeletedStateObject_def lookup_def split: option.splits sum.splits)
  qed
  then show "r = lookup B s a" "view B s' = view B s" "ctl s' = ctl s" "live_ok B s'"
    "sdb_stateObjectsDestruct s' = sdb_stateObjectsDestruct s"
    "r = Some obj \<Longrightarrow> sdb_stateObjects s' a = Some obj"
    by auto
qed

lemma getStateObject_spec:
  assumes ok: "live_ok B s" and get: "getStateObject B s a = (r, s')"
  shows "r = (case lookup B s a of None \<Rightarrow> None | Some obj \<Rightarrow> if so_deleted obj then None else Some obj)"
    "view B s' = view B s" "ctl s' = ctl s" "live_ok B s'"
    "sdb_stateObjectsDestruct s' = sdb_stateObjectsDestruct s"
    "r = Some obj \<Longrightarrow> sdb_stateObjects s' a = Some obj \<and> so_address obj = a \<and> \<not> so_deleted obj \<and>
       so_addrHash obj = bk_Keccak256Hash B (addressBytes a)"
proof -
  obtain r0 s0 where g: "getDeletedStateObject B s a = (r0, s0)" by force
  note spec = getDeletedStateObject_spec [OF ok g]
  from get g have s': "s' = s0"
    "r = (case r0 of None \<Rightarrow> None | Some obj \<Rightarrow> if so_deleted obj then None else Some obj)"
    by (auto simp: getStateObject_def split: option.splits if_splits)
  with spec show "r = (case lookup B s a of None \<Rightarrow> None | Some obj \<Rightarrow> if so_deleted obj then None else Some obj)"
    "view B s' = view B s" "ctl s' = ctl s" "live_ok B s'"
    "sdb_stateObjectsDestruct s' = sdb_stateObjectsDestruct s"
    by auto
  assume r: "r = Some obj"
  with s' have "r0 = Some obj" "\<not> so_deleted obj" by (auto split: option.splits if_splits)
  moreover from this spec(1) have "lookup B s a = Some obj" by simp
  ultimately show "sdb_stateObjects s' a = Some obj \<and> so_address obj = a \<and>
      \<not> so_deleted obj \<and> so_addrHash obj = bk_Keccak256Hash B (addressBytes a)"
    using spec(6) s'(1) live_okD [OF ok] by simp
qed

text \<open>A read on a live object returns what the view has and changes neither.\<close>

definition quiet :: "'e backend \<Rightarrow> 'e StateDB \<Rightarrow> 'e StateDB \<Rightarrow> bool" where
  "quiet B s s' \<longleftrightarrow>
     view B s' = view B s \<and> ctl s' = ctl s \<and> sdb_stateObjects s' = sdb_stateObjects s \<and>
     sdb_stateObjectsDestruct s' = sdb_stateObjectsDestruct s \<and>
     sdb_stateObjectsDirty s' = sdb_stateObjectsDirty s"

lemma quiet_refl [simp]: "quiet B s s"
  by (simp add: quiet_def)

lemma quiet_setError [simp]: "quiet B s (setError s e)"
  by (simp add: quiet_def)

lemma quiet_setErrors [simp]: "quiet B s (foldl (\<lambda>t e. setError t (Some e)) s errs)"
  by (simp add: quiet_def)

lemma quiet_live_ok: "quiet B s s' \<Longrightarrow> live_ok B s' = live_ok B s"
  by (simp add: quiet_def live_ok_def)

definition same_object ::
    "'e backend \<Rightarrow> (address \<rightharpoonup> StateAccount option) \<Rightarrow> stateObject \<Rightarrow> stateObject \<Rightarrow> bool" where
  "same_object B destruct obj obj' \<longleftrightarrow>
     so_address obj' = so_address obj \<and> so_addrHash obj' = so_addrHash obj \<and>
     object_view B destruct obj' = object_view B destruct obj"

lemma same_object_refl [simp]: "same_object B d obj obj"
  by (simp add: same_object_def)

lemma same_objectD:
  assumes "same_object B d obj obj'"
  shows "so_address obj' = so_address obj" "so_addrHash obj' = so_addrHash obj"
    "so_deleted obj' = so_deleted obj" "so_data obj' = so_data obj"
    "so_created obj' = so_created obj" "so_selfDestructed obj' = so_selfDestructed obj"
    "object_view B d obj' = object_view B d obj"
  using assms by (auto simp: same_object_def object_view_def)

lemma committed_cached:
  assumes "so_pendingStorage obj key = None" "so_originStorage obj key = None"
    and "destruct (so_address obj) = None"
    and "snd (readStorage B (so_address obj) (so_addrHash obj) (sa_Root (so_data obj)) key) = Some v"
  shows "committed B destruct (obj\<lparr>so_originStorage := (so_originStorage obj)(key \<mapsto> v)\<rparr>) =
         committed B destruct obj"
  using assms by (auto simp: committed_def fun_eq_iff split: option.splits)

lemma so_GetCommittedState_spec:
  assumes "so_GetCommittedState B s obj key = (v, obj', s')"
  shows "v = committed B (sdb_stateObjectsDestruct s) obj key \<and>
         same_object B (sdb_stateObjectsDestruct s) obj obj' \<and> quiet B s s'"
proof (cases "so_pendingStorage obj key = None \<and> so_originStorage obj key = None \<and>
              sdb_stateObjectsDestruct s (so_address obj) = None")
  case False
  with assms show ?thesis
    by (auto simp: so_GetCommittedState_def committed_def split: option.splits)
next
  case True
  obtain errs r where r: "readStorage B (so_address obj) (so_addrHash obj) (sa_Root (so_data obj)) key = (errs, r)"
    by force
  with assms True committed_cached [of obj key "sdb_stateObjectsDestruct s" B] show ?thesis
    by (auto simp: so_GetCommittedState_def committed_def [of B "sdb_stateObjectsDestruct s" obj key]
          same_object_def object_view_def Let_def split: option.splits)
qed

lemma so_GetState_spec:
  assumes "so_GetState B s obj key = (v, obj', s')"
  shows "v = ov_state (object_view B (sdb_stateObjectsDestruct s) obj) key \<and>
         same_object B (sdb_stateObjectsDestruct s) obj obj' \<and> quiet B s s'"
  using assms so_GetCommittedState_spec [of B s obj key v obj' s']
  by (auto simp: so_GetState_def object_view_def split: option.splits)

lemma codeOf_idem [simp]: "codeOf B a h (codeOf B a h c) = codeOf B a h c"
  by (simp add: codeOf_def)

lemma so_Code_spec:
  assumes "so_Code B s obj = (v, obj', s')"
  shows "v = ov_code (object_view B (sdb_stateObjectsDestruct s) obj) \<and>
         same_object B (sdb_stateObjectsDestruct s) obj obj' \<and> quiet B s s'"
proof (cases "so_code obj \<noteq> None \<or> sa_CodeHash (so_data obj) = EmptyCodeHash B")
  case True
  with assms show ?thesis by (auto simp: so_Code_def object_view_def codeOf_def)
next
  case False
  obtain c e where c: "bk_ContractCode B (so_address obj) (sa_CodeHash (so_data obj)) = (c, e)" by force
  have "committed B d (obj\<lparr>so_code := c\<rparr>) = committed B d obj" for d
    by (auto simp: committed_def fun_eq_iff split: option.split)
  with assms False c show ?thesis
    by (auto simp: so_Code_def object_view_def codeOf_def same_object_def split: option.splits)
qed

text \<open>Writing back an object that a read has filled leaves the view.\<close>

lemma write_back_quiet:
  assumes q: "quiet B s s'" and ok: "live_ok B s" and cur: "sdb_stateObjects s a = Some obj"
    and same: "same_object B (sdb_stateObjectsDestruct s) obj obj'"
  shows "view B (setStateObject s' obj') = view B s" "ctl (setStateObject s' obj') = ctl s"
    "live_ok B (setStateObject s' obj')"
    "sdb_stateObjects (setStateObject s' obj') a = Some obj'"
proof -
  from ok cur have a: "so_address obj = a" "so_addrHash obj = bk_Keccak256Hash B (addressBytes a)"
    by (auto simp: live_ok_def)
  have "lookup B s' (so_address obj') = Some obj"
    using same a cur q by (simp add: same_object_def lookup_def quiet_def)
  with same q show "view B (setStateObject s' obj') = view B s"
    using view_same_object [of B s' obj' obj] by (simp add: same_object_def quiet_def)
  show "ctl (setStateObject s' obj') = ctl s" using q by (simp add: quiet_def)
  show "live_ok B (setStateObject s' obj')"
    using q ok same a by (intro live_ok_setStateObject) (auto simp: quiet_live_ok same_object_def)
  show "sdb_stateObjects (setStateObject s' obj') a = Some obj'"
    using same a by (simp add: same_object_def)
qed

text \<open>The account that a view has at an address, unless it is deleted.\<close>

definition account_at :: "state_view \<Rightarrow> address \<Rightarrow> object_view option" where
  "account_at v a =
     (case sv_objects v a of
        None \<Rightarrow> None
      | Some ov \<Rightarrow> if ov_deleted ov then None else Some ov)"

lemma getStateObject_view:
  assumes "live_ok B s" "getStateObject B s a = (r, s')"
  shows "account_at (view B s) a = map_option (object_view B (sdb_stateObjectsDestruct s)) r"
  using getStateObject_spec(1) [OF assms]
  by (auto simp: account_at_def view_def object_view_def split: option.splits)

text \<open>Every getter reads the view and leaves it unchanged.\<close>

definition reads :: "'e backend \<Rightarrow> ('e StateDB \<Rightarrow> 'a \<times> 'e StateDB) \<Rightarrow> (state_view \<Rightarrow> 'a) \<Rightarrow> bool" where
  "reads B f g \<longleftrightarrow>
     (\<forall>s. live_ok B s \<longrightarrow>
        fst (f s) = g (view B s) \<and> view B (snd (f s)) = view B s \<and> ctl (snd (f s)) = ctl s \<and>
        live_ok B (snd (f s)))"

lemma readsI:
  assumes "\<And>s r s' v s''. live_ok B s \<Longrightarrow> getStateObject B s a = (r, s') \<Longrightarrow> live_ok B s' \<Longrightarrow>
      view B s' = view B s \<Longrightarrow> ctl s' = ctl s \<Longrightarrow>
      sdb_stateObjectsDestruct s' = sdb_stateObjectsDestruct s \<Longrightarrow> h s' r = (v, s'') \<Longrightarrow>
      (\<And>obj. r = Some obj \<Longrightarrow> sdb_stateObjects s' a = Some obj) \<Longrightarrow>
      account_at (view B s) a = map_option (object_view B (sdb_stateObjectsDestruct s)) r \<Longrightarrow>
      v = g (view B s) \<and> view B s'' = view B s \<and> ctl s'' = ctl s \<and> live_ok B s''"
  shows "reads B (\<lambda>s. case getStateObject B s a of (r, s') \<Rightarrow> h s' r) g"
  unfolding reads_def
proof (intro allI impI)
  fix s assume ok: "live_ok B s"
  obtain r s' where g: "getStateObject B s a = (r, s')" by force
  obtain v s'' where h: "h s' r = (v, s'')" by force
  from assms [OF ok g getStateObject_spec(4) [OF ok g] getStateObject_spec(2) [OF ok g]
      getStateObject_spec(3) [OF ok g] getStateObject_spec(5) [OF ok g] h _ getStateObject_view [OF ok g]]
    getStateObject_spec(6) [OF ok g]
  have "v = g (view B s) \<and> view B s'' = view B s \<and> ctl s'' = ctl s \<and> live_ok B s''" by blast
  with g h show "fst (case getStateObject B s a of (r, s') \<Rightarrow> h s' r) = g (view B s) \<and>
    view B (snd (case getStateObject B s a of (r, s') \<Rightarrow> h s' r)) = view B s \<and>
    ctl (snd (case getStateObject B s a of (r, s') \<Rightarrow> h s' r)) = ctl s \<and>
    live_ok B (snd (case getStateObject B s a of (r, s') \<Rightarrow> h s' r))"
    by simp
qed

lemma Exist_reads: "reads B (\<lambda>s. Exist B s a) (\<lambda>v. account_at v a \<noteq> None)"
  unfolding Exist_def by (rule readsI) (auto split: option.splits)

lemma GetBalance_reads:
  "reads B (\<lambda>s. GetBalance B s a)
     (\<lambda>v. case account_at v a of None \<Rightarrow> 0 | Some ov \<Rightarrow> sa_Balance (ov_data ov))"
  unfolding GetBalance_def by (rule readsI) (auto simp: object_view_def split: option.splits)

lemma GetNonce_reads:
  "reads B (\<lambda>s. GetNonce B s a)
     (\<lambda>v. case account_at v a of None \<Rightarrow> 0 | Some ov \<Rightarrow> sa_Nonce (ov_data ov))"
  unfolding GetNonce_def by (rule readsI) (auto simp: object_view_def split: option.splits)

lemma GetCodeHash_reads:
  "reads B (\<lambda>s. GetCodeHash B s a)
     (\<lambda>v. case account_at v a of None \<Rightarrow> 0 | Some ov \<Rightarrow> sa_CodeHash (ov_data ov))"
  unfolding GetCodeHash_def by (rule readsI) (auto simp: object_view_def split: option.splits)

lemma GetStorageRoot_reads:
  "reads B (\<lambda>s. GetStorageRoot B s a)
     (\<lambda>v. case account_at v a of None \<Rightarrow> 0 | Some ov \<Rightarrow> sa_Root (ov_data ov))"
  unfolding GetStorageRoot_def by (rule readsI) (auto simp: object_view_def split: option.splits)

lemma HasSelfDestructed_reads:
  "reads B (\<lambda>s. HasSelfDestructed B s a)
     (\<lambda>v. case account_at v a of None \<Rightarrow> False | Some ov \<Rightarrow> ov_selfDestructed ov)"
  unfolding HasSelfDestructed_def by (rule readsI) (auto simp: object_view_def split: option.splits)

lemma Empty_reads:
  "reads B (\<lambda>s. Empty B s a)
     (\<lambda>v. case account_at v a of None \<Rightarrow> True
          | Some ov \<Rightarrow> sa_Nonce (ov_data ov) = 0 \<and> sa_Balance (ov_data ov) = 0 \<and>
                      sa_CodeHash (ov_data ov) = EmptyCodeHash B)"
  unfolding Empty_def by (rule readsI) (auto simp: object_view_def so_empty_def split: option.splits)

text \<open>The getters that fill a cache of the object.\<close>

lemma reads_through_object:
  assumes "\<And>s obj v obj' s'. f s obj = (v, obj', s') \<Longrightarrow>
      v = g (object_view B (sdb_stateObjectsDestruct s) obj) \<and>
      same_object B (sdb_stateObjectsDestruct s) obj obj' \<and> quiet B s s'"
  shows "reads B (\<lambda>s. case getStateObject B s a of
           (r, s') \<Rightarrow> (case r of None \<Rightarrow> (d, s')
             | Some obj \<Rightarrow> (case f s' obj of (v, obj', s'') \<Rightarrow> (v, setStateObject s'' obj'))))
         (\<lambda>v. case account_at v a of None \<Rightarrow> d | Some ov \<Rightarrow> g ov)"
proof (rule readsI, goal_cases)
  case (1 s r s' v s'')
  show ?case
  proof (cases r)
    case None
    with 1 show ?thesis by simp
  next
    case (Some obj)
    obtain w obj' t where f: "f s' obj = (w, obj', t)" by (cases "f s' obj") auto
    from assms [OF f] have w: "w = g (object_view B (sdb_stateObjectsDestruct s') obj)"
      and same: "same_object B (sdb_stateObjectsDestruct s') obj obj'" and q: "quiet B s' t" by auto
    from 1(8) [OF Some] have cur: "sdb_stateObjects s' a = Some obj" .
    from 1 Some f have r: "v = w" "s'' = setStateObject t obj'" by simp_all
    from write_back_quiet [OF q 1(3) cur same] 1 Some r w show ?thesis by simp
  qed
qed

lemma GetState_reads:
  "reads B (\<lambda>s. GetState B s a key)
     (\<lambda>v. case account_at v a of None \<Rightarrow> 0 | Some ov \<Rightarrow> ov_state ov key)"
  unfolding GetState_def by (rule reads_through_object) (rule so_GetState_spec)

lemma GetCommittedState_reads:
  "reads B (\<lambda>s. GetCommittedState B s a key)
     (\<lambda>v. case account_at v a of None \<Rightarrow> 0 | Some ov \<Rightarrow> ov_committed ov key)"
  unfolding GetCommittedState_def
  by (rule reads_through_object) (drule so_GetCommittedState_spec, simp add: object_view_def)

lemma GetCode_reads:
  "reads B (\<lambda>s. GetCode B s a)
     (\<lambda>v. case account_at v a of None \<Rightarrow> None | Some ov \<Rightarrow> ov_code ov)"
  unfolding GetCode_def by (rule reads_through_object) (rule so_Code_spec)

text \<open>
  The database keeps the sizes of codes apart from the codes. That the size it gives of a code hash is the length
  of the code it gives is what GetCodeSize relies on.
\<close>

definition code_sizes_ok :: "'e backend \<Rightarrow> bool" where
  "code_sizes_ok B \<longleftrightarrow>
     (\<forall>a h. fst (bk_ContractCodeSize B a h) =
        (case fst (bk_ContractCode B a h) of None \<Rightarrow> 0 | Some code \<Rightarrow> length code))"

lemma so_CodeSize_spec:
  assumes "code_sizes_ok B" "so_CodeSize B s obj = (n, s')"
  shows "n = (case ov_code (object_view B destruct obj) of None \<Rightarrow> 0 | Some code \<Rightarrow> length code) \<and> quiet B s s'"
proof (cases "so_code obj \<noteq> None \<or> sa_CodeHash (so_data obj) = EmptyCodeHash B")
  case True
  with assms(2) show ?thesis by (auto simp: so_CodeSize_def object_view_def codeOf_def split: option.splits)
next
  case False
  obtain m e where m: "bk_ContractCodeSize B (so_address obj) (sa_CodeHash (so_data obj)) = (m, e)" by force
  from assms(1) have "m = (case fst (bk_ContractCode B (so_address obj) (sa_CodeHash (so_data obj))) of
      None \<Rightarrow> 0 | Some code \<Rightarrow> length code)"
    unfolding code_sizes_ok_def using m by (metis fst_conv)
  with assms(2) False m show ?thesis
    by (auto simp: so_CodeSize_def object_view_def codeOf_def split: option.split)
qed

lemma GetCodeSize_reads:
  assumes "code_sizes_ok B"
  shows "reads B (\<lambda>s. GetCodeSize B s a)
     (\<lambda>v. case account_at v a of None \<Rightarrow> 0
          | Some ov \<Rightarrow> (case ov_code ov of None \<Rightarrow> 0 | Some code \<Rightarrow> length code))"
  unfolding GetCodeSize_def
proof (rule readsI, goal_cases)
  case (1 s r s' n s'')
  show ?case
  proof (cases r)
    case None
    with 1 show ?thesis by simp
  next
    case (Some obj)
    with 1 have "so_CodeSize B s' obj = (n, s'')" by simp
    note size = so_CodeSize_spec [OF assms this, of "sdb_stateObjectsDestruct s"]
    then have "live_ok B s''" using quiet_live_ok [of B s' s''] 1(3) by simp
    with size 1 Some show ?thesis by (simp add: quiet_def)
  qed
qed

end
