(* ===== verification/StateJournal.thy ===== *)
theory StateJournal
  imports StateView
begin

text \<open>
  The journal of the world state. \<open>undo\<close> is what reverting a journal entry does to the view;
  \<open>journalled\<close> says that undoing the entries an operation has appended restores the view it started
  from. Every operation is journalled, and so is every sequence of operations, snapshots and reverts to
  inner snapshots; RevertToSnapshot therefore returns to the view at the time of the snapshot.
\<close>

subsection \<open>Undoing an entry on views\<close>

definition undo_account :: "state_view \<Rightarrow> address \<Rightarrow> (object_view \<Rightarrow> object_view) \<Rightarrow> state_view option" where
  "undo_account v a f =
     map_option (\<lambda>ov. v\<lparr>sv_objects := (sv_objects v)(a \<mapsto> f ov)\<rparr>) (account_at v a)"

fun undo :: "'e backend \<Rightarrow> journalEntry \<Rightarrow> state_view \<Rightarrow> state_view option" where
  "undo B (createObjectChange a) v =
     Some (v\<lparr>sv_objects := (sv_objects v)(a := None), sv_dirty := sv_dirty v - {a}\<rparr>)"
| "undo B (resetObjectChange a prev prevdestruct prevAccount prevStorage prevAccountOrigin prevStorageOrigin) v =
     (let d = (if prevdestruct then sv_destruct v else (sv_destruct v)(so_address prev := None)) in
      Some (v\<lparr>sv_objects := (sv_objects v)(so_address prev \<mapsto> object_view B d prev),
              sv_destruct := d,
              sv_accounts := (if prevAccount = None then sv_accounts v
                              else (sv_accounts v)(so_addrHash prev := prevAccount)),
              sv_storages := (if prevStorage = None then sv_storages v
                              else (sv_storages v)(so_addrHash prev := prevStorage)),
              sv_accountsOrigin := (if prevAccountOrigin = None then sv_accountsOrigin v
                                    else (sv_accountsOrigin v)(so_address prev := prevAccountOrigin)),
              sv_storagesOrigin := (if prevStorageOrigin = None then sv_storagesOrigin v
                                    else (sv_storagesOrigin v)(so_address prev := prevStorageOrigin))\<rparr>))"
| "undo B (selfDestructChange a prev prevbalance) v =
     Some (case account_at v a of
        None \<Rightarrow> v
      | Some ov \<Rightarrow> v\<lparr>sv_objects := (sv_objects v)(a \<mapsto>
            ov\<lparr>ov_selfDestructed := prev, ov_data := (ov_data ov)\<lparr>sa_Balance := prevbalance\<rparr>\<rparr>)\<rparr>)"
| "undo B (touchChange a) v = Some v"
| "undo B (balanceChange a prev) v =
     undo_account v a (\<lambda>ov. ov\<lparr>ov_data := (ov_data ov)\<lparr>sa_Balance := prev\<rparr>\<rparr>)"
| "undo B (nonceChange a prev) v =
     undo_account v a (\<lambda>ov. ov\<lparr>ov_data := (ov_data ov)\<lparr>sa_Nonce := prev\<rparr>\<rparr>)"
| "undo B (codeChange a prevcode prevhash) v =
     undo_account v a (\<lambda>ov. ov\<lparr>ov_data := (ov_data ov)\<lparr>sa_CodeHash := prevhash\<rparr>,
                                ov_code := codeOf B a prevhash prevcode\<rparr>)"
| "undo B (storageChange a key prevalue) v =
     undo_account v a (\<lambda>ov. ov\<lparr>ov_state := (ov_state ov)(key := prevalue)\<rparr>)"
| "undo B (transientStorageChange a key prevalue) v =
     Some (v\<lparr>sv_transient := (sv_transient v)(a := (sv_transient v a)(key := prevalue))\<rparr>)"
| "undo B (refundChange prev) v = Some (v\<lparr>sv_refund := prev\<rparr>)"
| "undo B (addLogChange txhash) v =
     (if sv_logs v txhash = [] then None
      else Some (v\<lparr>sv_logs := (sv_logs v)(txhash := butlast (sv_logs v txhash)),
                   sv_logSize := sv_logSize v - 1\<rparr>))"
| "undo B (addPreimageChange h) v = Some (v\<lparr>sv_preimages := (sv_preimages v)(h := None)\<rparr>)"
| "undo B (accessListAddAccountChange a) v =
     Some (v\<lparr>sv_accessList := al_DeleteAddress (sv_accessList v) a\<rparr>)"
| "undo B (accessListAddSlotChange a slot) v =
     map_option (\<lambda>al. v\<lparr>sv_accessList := al\<rparr>) (al_DeleteSlot (sv_accessList v) a slot)"

text \<open>What holds of an entry whenever it is in the journal.\<close>

fun entry_ok :: "'e backend \<Rightarrow> journalEntry \<Rightarrow> bool" where
  "entry_ok B (createObjectChange a) \<longleftrightarrow> (case readAccount B a of Inr (Some _) \<Rightarrow> False | _ \<Rightarrow> True)"
| "entry_ok B (resetObjectChange a prev _ _ _ _ _) \<longleftrightarrow>
     so_addrHash prev = bk_Keccak256Hash B (addressBytes (so_address prev))"
| "entry_ok B _ \<longleftrightarrow> True"

lemma object_view_set [simp]:
  "object_view B d (so_setBalance obj b) =
     (object_view B d obj)\<lparr>ov_data := (so_data obj)\<lparr>sa_Balance := b\<rparr>\<rparr>"
  "object_view B d (so_setNonce obj n) =
     (object_view B d obj)\<lparr>ov_data := (so_data obj)\<lparr>sa_Nonce := n\<rparr>\<rparr>"
  "object_view B d (so_setCode obj h c) =
     (object_view B d obj)\<lparr>ov_data := (so_data obj)\<lparr>sa_CodeHash := h\<rparr>,
        ov_code := codeOf B (so_address obj) h c\<rparr>"
  "object_view B d (so_setState obj k w) =
     (object_view B d obj)\<lparr>ov_state := (ov_state (object_view B d obj))(k := w)\<rparr>"
  "object_view B d (obj\<lparr>so_selfDestructed := sd\<rparr>) = (object_view B d obj)\<lparr>ov_selfDestructed := sd\<rparr>"
  by (auto simp: object_view_def so_setBalance_def so_setNonce_def so_setCode_def so_setState_def
        committed_def fun_eq_iff split: option.splits)

lemma object_fields_set [simp]:
  "so_address (so_setBalance obj b) = so_address obj" "so_addrHash (so_setBalance obj b) = so_addrHash obj"
  "so_address (so_setNonce obj n) = so_address obj" "so_addrHash (so_setNonce obj n) = so_addrHash obj"
  "so_address (so_setCode obj h c) = so_address obj" "so_addrHash (so_setCode obj h c) = so_addrHash obj"
  "so_address (so_setState obj k w) = so_address obj" "so_addrHash (so_setState obj k w) = so_addrHash obj"
  by (simp_all add: so_setBalance_def so_setNonce_def so_setCode_def so_setState_def)

lemma ov_simps [simp]:
  "ov_data (object_view B d obj) = so_data obj" "ov_deleted (object_view B d obj) = so_deleted obj"
  "ov_selfDestructed (object_view B d obj) = so_selfDestructed obj"
  "ov_created (object_view B d obj) = so_created obj"
  by (simp_all add: object_view_def)

lemma sv_destruct_view [simp]: "sv_destruct (view B s) = sdb_stateObjectsDestruct s"
  by (simp add: view_def)

lemma onObject_undo:
  assumes ok: "live_ok B s"
    and f: "\<And>obj. object_view B (sdb_stateObjectsDestruct s) (f obj) =
                  g (so_address obj) (object_view B (sdb_stateObjectsDestruct s) obj)"
      "\<And>obj. so_address (f obj) = so_address obj" "\<And>obj. so_addrHash (f obj) = so_addrHash obj"
  shows "map_option (view B) (onObject B s a f) = undo_account (view B s) a (g a)"
    "onObject B s a f = Some t \<Longrightarrow> live_ok B t \<and> ctl t = ctl s"
proof -
  obtain r s' where get: "getStateObject B s a = (r, s')" by force
  note spec = getStateObject_spec [OF ok get] and acc = getStateObject_view [OF ok get]
  show "map_option (view B) (onObject B s a f) = undo_account (view B s) a (g a)"
    using get acc spec(2,5,6) f by (cases r) (simp_all add: undo_account_def view_setStateObject)
  show "onObject B s a f = Some t \<Longrightarrow> live_ok B t \<and> ctl t = ctl s"
    using get spec(3,4,6) f by (cases r) (auto intro!: live_ok_setStateObject)
qed

lemma revert_create:
  assumes ok: "live_ok B s" and e: "entry_ok B (createObjectChange a)"
  shows "map_option (view B) (revertEntry B s (createObjectChange a)) = undo B (createObjectChange a) (view B s)"
    "revertEntry B s (createObjectChange a) = Some t \<Longrightarrow> live_ok B t \<and> ctl t = ctl s"
proof -
  have "lookup B (s\<lparr>sdb_stateObjects := (sdb_stateObjects s)(a := None), sdb_stateObjectsDirty := d\<rparr>) =
        (lookup B s)(a := None)" for d
    using e by (auto simp: lookup_def fun_eq_iff split: sum.splits option.splits)
  then show "map_option (view B) (revertEntry B s (createObjectChange a)) = undo B (createObjectChange a) (view B s)"
    by (simp add: view_def fun_eq_iff)
  show "revertEntry B s (createObjectChange a) = Some t \<Longrightarrow> live_ok B t \<and> ctl t = ctl s"
    using ok by (auto simp: live_ok_def split: if_splits)
qed

lemma object_view_destruct:
  "d (so_address obj) = d' (so_address obj) \<Longrightarrow> object_view B d obj = object_view B d' obj"
  by (auto simp: object_view_def committed_def fun_eq_iff split: option.split)

text \<open>The view after putting an object and changing the destruct mark of its own address.\<close>

lemma view_put_destruct:
  assumes ok: "live_ok B s" and d: "\<And>a. a \<noteq> so_address obj \<Longrightarrow> d a = sdb_stateObjectsDestruct s a"
  shows "view B (setStateObject (s\<lparr>sdb_stateObjectsDestruct := d, sdb_accounts := x1, sdb_storages := x2,
             sdb_accountsOrigin := x3, sdb_storagesOrigin := x4\<rparr>) obj) =
         (view B s)\<lparr>sv_objects := (sv_objects (view B s))(so_address obj \<mapsto> object_view B d obj),
             sv_destruct := d, sv_accounts := x1, sv_storages := x2, sv_accountsOrigin := x3,
             sv_storagesOrigin := x4\<rparr>"
proof -
  let ?s = "s\<lparr>sdb_stateObjectsDestruct := d, sdb_accounts := x1, sdb_storages := x2,
             sdb_accountsOrigin := x3, sdb_storagesOrigin := x4\<rparr>"
  have "map_option (object_view B d) (lookup B s a) =
        map_option (object_view B (sdb_stateObjectsDestruct s)) (lookup B s a)" if "a \<noteq> so_address obj" for a
    using live_okD(1) [OF ok, of a] d [OF that]
    by (cases "lookup B s a") (auto intro: object_view_destruct)
  moreover have "lookup B (setStateObject ?s obj) = (lookup B s)(so_address obj \<mapsto> obj)"
    by (simp add: lookup_def fun_eq_iff setStateObject_def)
  ultimately show ?thesis
    by (simp add: view_def fun_eq_iff setStateObject_def)
qed

lemma revert_reset:
  assumes ok: "live_ok B s" and e: "entry_ok B (resetObjectChange a p pd pa ps pao pso)"
  shows "map_option (view B) (revertEntry B s (resetObjectChange a p pd pa ps pao pso)) =
         undo B (resetObjectChange a p pd pa ps pao pso) (view B s)"
    "revertEntry B s (resetObjectChange a p pd pa ps pao pso) = Some t \<Longrightarrow> live_ok B t \<and> ctl t = ctl s"
proof -
  let ?d = "if pd then sdb_stateObjectsDestruct s else (sdb_stateObjectsDestruct s)(so_address p := None)"
  have eq: "revertEntry B s (resetObjectChange a p pd pa ps pao pso) =
    Some (setStateObject (s\<lparr>sdb_stateObjectsDestruct := ?d,
      sdb_accounts := (if pa = None then sdb_accounts s else (sdb_accounts s)(so_addrHash p := pa)),
      sdb_storages := (if ps = None then sdb_storages s else (sdb_storages s)(so_addrHash p := ps)),
      sdb_accountsOrigin := (if pao = None then sdb_accountsOrigin s
                             else (sdb_accountsOrigin s)(so_address p := pao)),
      sdb_storagesOrigin := (if pso = None then sdb_storagesOrigin s
                             else (sdb_storagesOrigin s)(so_address p := pso))\<rparr>) p)"
    by (simp add: setStateObject_def Let_def)
  show "map_option (view B) (revertEntry B s (resetObjectChange a p pd pa ps pao pso)) =
         undo B (resetObjectChange a p pd pa ps pao pso) (view B s)"
    unfolding eq option.map
    by (subst view_put_destruct [OF ok]) (auto simp: Let_def view_def)
  have "live_ok B (s\<lparr>sdb_stateObjectsDestruct := ?d, sdb_accounts := x1, sdb_storages := x2,
      sdb_accountsOrigin := x3, sdb_storagesOrigin := x4\<rparr>)" for x1 x2 x3 x4
    using ok by (simp add: live_ok_def)
  with e show "revertEntry B s (resetObjectChange a p pd pa ps pao pso) = Some t \<Longrightarrow> live_ok B t \<and> ctl t = ctl s"
    unfolding eq by (auto intro!: live_ok_setStateObject)
qed

lemma revert_selfDestruct:
  assumes ok: "live_ok B s"
  shows "map_option (view B) (revertEntry B s (selfDestructChange a p b)) =
         undo B (selfDestructChange a p b) (view B s)"
    "revertEntry B s (selfDestructChange a p b) = Some t \<Longrightarrow> live_ok B t \<and> ctl t = ctl s"
proof -
  obtain r s' where get: "getStateObject B s a = (r, s')" by force
  note spec = getStateObject_spec [OF ok get] and acc = getStateObject_view [OF ok get]
  show "map_option (view B) (revertEntry B s (selfDestructChange a p b)) =
         undo B (selfDestructChange a p b) (view B s)"
    using get acc spec(2,5,6) by (cases r) (simp_all add: view_setStateObject)
  show "revertEntry B s (selfDestructChange a p b) = Some t \<Longrightarrow> live_ok B t \<and> ctl t = ctl s"
    using get spec(3,4,6) by (cases r) (auto intro!: live_ok_setStateObject)
qed

lemma revert_log:
  "map_option (view B) (revertEntry B s (addLogChange h)) = undo B (addLogChange h) (view B s)"
proof -
  let ?l = "case sdb_logs s h of None \<Rightarrow> [] | Some l \<Rightarrow> l"
  have "butlast ?l = []" if "length ?l = 1" using that by (cases ?l) auto
  then show ?thesis
    by (auto simp: view_def Let_def lookup_def fun_eq_iff split: option.splits)
qed

text \<open>Reverting an entry undoes it on the view.\<close>

lemma revertEntry_undo:
  assumes ok: "live_ok B s" and e: "entry_ok B e"
  shows "map_option (view B) (revertEntry B s e) = undo B e (view B s)"
proof (cases e)
  case (createObjectChange a)
  then show ?thesis using revert_create(1) ok e by blast
next
  case (resetObjectChange a p pd pa ps pao pso)
  then show ?thesis using revert_reset(1) ok e by blast
next
  case (selfDestructChange a p b)
  then show ?thesis using revert_selfDestruct(1) [OF ok] by blast
next
  case (balanceChange a b)
  then show ?thesis
    unfolding balanceChange revertEntry.simps undo.simps
    by (intro onObject_undo(1) [OF ok, where g = "\<lambda>a ov. ov\<lparr>ov_data := (ov_data ov)\<lparr>sa_Balance := b\<rparr>\<rparr>"]) simp_all
next
  case (nonceChange a n)
  then show ?thesis
    unfolding nonceChange revertEntry.simps undo.simps
    by (intro onObject_undo(1) [OF ok, where g = "\<lambda>a ov. ov\<lparr>ov_data := (ov_data ov)\<lparr>sa_Nonce := n\<rparr>\<rparr>"]) simp_all
next
  case (codeChange a c h)
  then show ?thesis
    unfolding codeChange revertEntry.simps undo.simps
    by (intro onObject_undo(1) [OF ok, where g = "\<lambda>a ov. ov\<lparr>ov_data := (ov_data ov)\<lparr>sa_CodeHash := h\<rparr>,
          ov_code := codeOf B a h c\<rparr>"]) simp_all
next
  case (storageChange a k w)
  then show ?thesis
    unfolding storageChange revertEntry.simps undo.simps
    by (intro onObject_undo(1) [OF ok, where g = "\<lambda>a ov. ov\<lparr>ov_state := (ov_state ov)(k := w)\<rparr>"]) simp_all
next
  case (addLogChange h)
  then show ?thesis using revert_log by blast
next
  case (transientStorageChange a k w)
  then show ?thesis
    by (auto simp: setTransientState_def view_def lookup_def ts_Get_Set fun_eq_iff)
next
  case (accessListAddSlotChange a slot)
  then show ?thesis
    by (cases "al_DeleteSlot (sdb_accessList s) a slot") (simp_all add: view_def lookup_def)
qed (simp_all add: view_def lookup_def)

lemma revertEntry_live:
  assumes ok: "live_ok B s" and e: "entry_ok B e" and t: "revertEntry B s e = Some t"
  shows "live_ok B t \<and> ctl t = ctl s"
proof (cases e)
  case (createObjectChange a)
  then show ?thesis using revert_create(2) assms by blast
next
  case (resetObjectChange a p pd pa ps pao pso)
  then show ?thesis using revert_reset(2) assms by blast
next
  case (selfDestructChange a p b)
  then show ?thesis using revert_selfDestruct(2) [OF ok] t by blast
next
  case (balanceChange a b)
  then show ?thesis
    using t unfolding balanceChange revertEntry.simps
    by (elim onObject_undo(2) [OF ok, where g = "\<lambda>a ov. ov\<lparr>ov_data := (ov_data ov)\<lparr>sa_Balance := b\<rparr>\<rparr>", rotated -1]) simp_all
next
  case (nonceChange a n)
  then show ?thesis
    using t unfolding nonceChange revertEntry.simps
    by (elim onObject_undo(2) [OF ok, where g = "\<lambda>a ov. ov\<lparr>ov_data := (ov_data ov)\<lparr>sa_Nonce := n\<rparr>\<rparr>", rotated -1]) simp_all
next
  case (codeChange a c h)
  then show ?thesis
    using t unfolding codeChange revertEntry.simps
    by (elim onObject_undo(2) [OF ok, where g = "\<lambda>a ov. ov\<lparr>ov_data := (ov_data ov)\<lparr>sa_CodeHash := h\<rparr>,
          ov_code := codeOf B a h c\<rparr>", rotated -1]) simp_all
next
  case (storageChange a k w)
  then show ?thesis
    using t unfolding storageChange revertEntry.simps
    by (elim onObject_undo(2) [OF ok, where g = "\<lambda>a ov. ov\<lparr>ov_state := (ov_state ov)(k := w)\<rparr>", rotated -1]) simp_all
qed (use ok t in \<open>auto simp: live_ok_def setTransientState_def Let_def split: if_splits option.splits\<close>)

subsection \<open>Journalled operations\<close>

text \<open>Undoing an entry that also keeps the access list well formed.\<close>

definition undo_wf :: "'e backend \<Rightarrow> journalEntry \<Rightarrow> state_view \<Rightarrow> state_view option" where
  "undo_wf B e v =
     (case undo B e v of
        None \<Rightarrow> None
      | Some v' \<Rightarrow> if al_wf (sv_accessList v) \<and> \<not> al_wf (sv_accessList v') then None else Some v')"

fun access_entry :: "journalEntry \<Rightarrow> bool" where
  "access_entry (accessListAddAccountChange _) = True"
| "access_entry (accessListAddSlotChange _ _) = True"
| "access_entry _ = False"

lemma undo_access: "undo B e v = Some v' \<Longrightarrow> \<not> access_entry e \<Longrightarrow> sv_accessList v' = sv_accessList v"
  by (cases e) (auto simp: undo_account_def Let_def split: option.splits if_splits)

lemma sv_accessList_view [simp]: "sv_accessList (view B s) = sdb_accessList s"
  by (simp add: view_def)

fun undo_all :: "'e backend \<Rightarrow> journalEntry list \<Rightarrow> state_view \<Rightarrow> state_view option" where
  "undo_all B [] v = Some v"
| "undo_all B (e # es) v = (case undo_wf B e v of None \<Rightarrow> None | Some v' \<Rightarrow> undo_all B es v')"

lemma undo_all_append:
  "undo_all B (es @ fs) v = (case undo_all B es v of None \<Rightarrow> None | Some v' \<Rightarrow> undo_all B fs v')"
  by (induction es arbitrary: v) (auto split: option.split)

lemma ctl_dropDirty [simp]:
  "sdb_validRevisions (dropDirty s e) = sdb_validRevisions s"
  "sdb_nextRevisionId (dropDirty s e) = sdb_nextRevisionId s"
  "j_entries (sdb_journal (dropDirty s e)) = j_entries (sdb_journal s)"
  "live_ok B (dropDirty s e) = live_ok B s"
  "sdb_accessList (dropDirty s e) = sdb_accessList s"
  by (simp_all add: dropDirty_def live_ok_def split: option.split)

lemma revertEntries_undo:
  assumes "live_ok B s" and "\<forall>e\<in>set es. entry_ok B e" and "undo_all B es (view B s) = Some v"
  shows "\<exists>t. revertEntries B s es = Some t \<and> view B t = v \<and> live_ok B t \<and>
           (al_wf (sdb_accessList s) \<longrightarrow> al_wf (sdb_accessList t)) \<and>
           j_entries (sdb_journal t) = j_entries (sdb_journal s) \<and>
           sdb_validRevisions t = sdb_validRevisions s \<and> sdb_nextRevisionId t = sdb_nextRevisionId s"
  using assms
proof (induction es arbitrary: s)
  case Nil
  then show ?case by simp
next
  case (Cons e es)
  from Cons.prems obtain v1 where v1: "undo B e (view B s) = Some v1" "undo_all B es v1 = Some v"
    "al_wf (sdb_accessList s) \<longrightarrow> al_wf (sv_accessList v1)"
    by (auto simp: undo_wf_def split: option.splits if_splits)
  with revertEntry_undo [OF Cons.prems(1), of e] Cons.prems(2)
  obtain t where t: "revertEntry B s e = Some t" "view B t = v1" by auto
  with revertEntry_live [OF Cons.prems(1) _ t(1)] Cons.prems(2) have "live_ok B t" "ctl t = ctl s" by auto
  with Cons.IH [of "dropDirty t e"] Cons.prems(2) t v1(2,3) show ?case by auto
qed

definition journalled :: "'e backend \<Rightarrow> 'e StateDB \<Rightarrow> 'e StateDB \<Rightarrow> bool" where
  "journalled B s s' \<longleftrightarrow>
     live_ok B s' \<and>
     (\<exists>es. j_entries (sdb_journal s') = j_entries (sdb_journal s) @ es \<and> (\<forall>e\<in>set es. entry_ok B e) \<and>
        undo_all B (rev es) (view B s') = Some (view B s)) \<and>
     (al_wf (sdb_accessList s) \<longrightarrow> al_wf (sdb_accessList s')) \<and>
     sdb_validRevisions s' = sdb_validRevisions s \<and> sdb_nextRevisionId s' = sdb_nextRevisionId s"

lemma journalled_refl: "live_ok B s \<Longrightarrow> journalled B s s"
  by (simp add: journalled_def)

lemma journalled_trans [trans]:
  assumes "journalled B s s'" "journalled B s' s''"
  shows "journalled B s s''"
proof -
  from assms obtain es es' where
    "j_entries (sdb_journal s') = j_entries (sdb_journal s) @ es" "\<forall>e\<in>set es. entry_ok B e"
    "undo_all B (rev es) (view B s') = Some (view B s)"
    "j_entries (sdb_journal s'') = j_entries (sdb_journal s') @ es'" "\<forall>e\<in>set es'. entry_ok B e"
    "undo_all B (rev es') (view B s'') = Some (view B s')"
    unfolding journalled_def by blast
  then have "j_entries (sdb_journal s'') = j_entries (sdb_journal s) @ (es @ es') \<and>
    (\<forall>e\<in>set (es @ es'). entry_ok B e) \<and> undo_all B (rev (es @ es')) (view B s'') = Some (view B s)"
    by (auto simp: undo_all_append)
  with assms show ?thesis unfolding journalled_def by auto
qed

lemma view_accessList: "view B s' = view B s \<Longrightarrow> sdb_accessList s' = sdb_accessList s"
  by (metis sv_accessList_view)

lemma journalled_quiet:
  "live_ok B s' \<Longrightarrow> view B s' = view B s \<Longrightarrow> ctl s' = ctl s \<Longrightarrow> journalled B s s'"
  using view_accessList [of B s' s] by (simp add: journalled_def)

lemma journalled_one:
  assumes "live_ok B s'" "j_entries (sdb_journal s') = j_entries (sdb_journal s) @ [e]" "entry_ok B e"
    and u: "undo B e (view B s') = Some (view B s)"
    and "sdb_validRevisions s' = sdb_validRevisions s" "sdb_nextRevisionId s' = sdb_nextRevisionId s"
    and acc: "access_entry e \<Longrightarrow> al_wf (sdb_accessList s) \<and> al_wf (sdb_accessList s')"
  shows "journalled B s s'"
proof -
  have "al_wf (sdb_accessList s') = al_wf (sdb_accessList s)"
    using acc undo_access [OF u] by (cases "access_entry e") auto
  with assms show ?thesis
    by (auto simp: journalled_def undo_wf_def intro!: exI [of _ "[e]"])
qed

text \<open>Putting a changed object after the entry that records the change.\<close>

lemma sv_objects_view: "sv_objects (view B s) a = map_option (object_view B (sdb_stateObjectsDestruct s)) (lookup B s a)"
  by (simp add: view_def)

lemma journalled_put:
  assumes ok: "live_ok B s" and cur: "sdb_stateObjects s a = Some obj"
    and obj': "so_address obj' = a" "so_addrHash obj' = so_addrHash obj"
    and e: "entry_ok B e" "\<not> access_entry e"
    and u: "undo B e ((view B s)\<lparr>sv_objects := (sv_objects (view B s))
               (a \<mapsto> object_view B (sdb_stateObjectsDestruct s) obj')\<rparr>) = Some (view B s)"
  shows "journalled B s (setStateObject (journal_append s e) obj')"
proof (rule journalled_one)
  have "so_addrHash obj = bk_Keccak256Hash B (addressBytes a)"
    using ok cur by (auto simp: live_ok_def)
  with ok obj' show "live_ok B (setStateObject (journal_append s e) obj')"
    by (intro live_ok_setStateObject) auto
  show "undo B e (view B (setStateObject (journal_append s e) obj')) = Some (view B s)"
    using u obj' by (simp add: view_setStateObject)
qed (use e in auto)

text \<open>The change of one account is undone by the inverse change.\<close>

lemma undo_account_put:
  assumes "f ov' = ov" "sv_objects v a = Some ov" "\<not> ov_deleted ov'"
  shows "undo_account (v\<lparr>sv_objects := (sv_objects v)(a \<mapsto> ov')\<rparr>) a f = Some v"
proof -
  have "v\<lparr>sv_objects := (sv_objects v)(a \<mapsto> ov)\<rparr> = v"
    using assms(2) by (cases v) (simp add: fun_upd_idem)
  with assms show ?thesis by (simp add: undo_account_def account_at_def)
qed

lemma sv_objects_live:
  "sdb_stateObjects s a = Some obj \<Longrightarrow>
     sv_objects (view B s) a = Some (object_view B (sdb_stateObjectsDestruct s) obj)"
  by (simp add: sv_objects_view lookup_def)

lemma new_fields [simp]:
  "so_address (newObject B a acct) = a" "so_deleted (newObject B a acct) = False"
  "so_addrHash (newObject B a acct) = bk_Keccak256Hash B (addressBytes a)"
  by (simp_all add: newObject_def)

lemma setStateObject_again:
  "so_address obj' = so_address obj \<Longrightarrow> setStateObject (setStateObject s obj) obj' = setStateObject s obj'"
  by (simp add: setStateObject_def)

lemma createObject_none:
  assumes ok: "live_ok B s" and l: "lookup B s a = None"
    and addr: "so_address obj = a" "so_addrHash obj = bk_Keccak256Hash B (addressBytes a)"
  shows "journalled B s (setStateObject (journal_append s (createObjectChange a)) obj)"
proof (rule journalled_one)
  show "entry_ok B (createObjectChange a)"
    using l by (auto simp: lookup_def split: option.splits sum.splits)
  from l have "sdb_stateObjects s a = None" by (auto simp: lookup_def split: option.splits)
  with ok have "a \<notin> sdb_stateObjectsDirty s" by (auto simp: live_ok_def)
  moreover have "(sv_objects (view B s))(a := None) = sv_objects (view B s)"
    using l by (intro fun_upd_idem) (simp add: sv_objects_view)
  ultimately show "undo B (createObjectChange a)
      (view B (setStateObject (journal_append s (createObjectChange a)) obj)) = Some (view B s)"
    using addr by (simp add: view_setStateObject) (simp add: view_def)
  show "live_ok B (setStateObject (journal_append s (createObjectChange a)) obj)"
    using ok addr by (intro live_ok_setStateObject) auto
qed auto

lemma createObject_some:
  assumes ok: "live_ok B s" and cur: "sdb_stateObjects s a = Some p"
    and addr: "so_address obj = a" "so_addrHash obj = so_addrHash p"
    and d: "d = (if pd then sdb_stateObjectsDestruct s else (sdb_stateObjectsDestruct s)(a \<mapsto> so_origin p))"
    and pd: "pd = (sdb_stateObjectsDestruct s a \<noteq> None)"
    and e: "e = resetObjectChange a p pd (sdb_accounts s (so_addrHash p)) (sdb_storages s (so_addrHash p))
              (sdb_accountsOrigin s a) (sdb_storagesOrigin s a)"
  shows "journalled B s
    (setStateObject ((journal_append s e)\<lparr>sdb_stateObjectsDestruct := d,
       sdb_accounts := (sdb_accounts s)(so_addrHash p := None),
       sdb_storages := (sdb_storages s)(so_addrHash p := None),
       sdb_accountsOrigin := (sdb_accountsOrigin s)(a := None),
       sdb_storagesOrigin := (sdb_storagesOrigin s)(a := None)\<rparr>) obj)"
    (is "journalled B s ?s'")
proof (rule journalled_one)
  from ok cur have p: "so_address p = a" "so_addrHash p = bk_Keccak256Hash B (addressBytes a)"
    by (auto simp: live_ok_def)
  show "entry_ok B e" using p by (simp add: e)
  show "live_ok B ?s'"
    using ok p addr by (intro live_ok_setStateObject) (auto simp: live_ok_def)
  have dd: "(if pd then d else d(a := None)) = sdb_stateObjectsDestruct s"
    using pd by (auto simp: d fun_upd_idem)
  have "live_ok B (journal_append s e)" using ok by simp
  moreover have "\<And>b. b \<noteq> so_address obj \<Longrightarrow> d b = sdb_stateObjectsDestruct (journal_append s e) b"
    using addr by (simp add: d)
  ultimately have v: "view B ?s' = (view B s)\<lparr>
      sv_objects := (sv_objects (view B s))(a \<mapsto> object_view B d obj), sv_destruct := d,
      sv_accounts := (sdb_accounts s)(so_addrHash p := None),
      sv_storages := (sdb_storages s)(so_addrHash p := None),
      sv_accountsOrigin := (sdb_accountsOrigin s)(a := None),
      sv_storagesOrigin := (sdb_storagesOrigin s)(a := None)\<rparr>"
    using view_put_destruct [of B "journal_append s e" obj d] addr by simp
  have "(sv_objects (view B s))(a \<mapsto> object_view B (sdb_stateObjectsDestruct s) p) = sv_objects (view B s)"
    using sv_objects_live [OF cur, of B] by (simp add: fun_upd_idem)
  then have "undo B e (view B ?s') = Some ((view B s)\<lparr>
      sv_objects := sv_objects (view B s), sv_destruct := sdb_stateObjectsDestruct s,
      sv_accounts := sdb_accounts s, sv_storages := sdb_storages s,
      sv_accountsOrigin := sdb_accountsOrigin s, sv_storagesOrigin := sdb_storagesOrigin s\<rparr>)"
    unfolding v unfolding e using p dd by (cases pd) (simp_all add: fun_upd_idem Let_def)
  then show "undo B e (view B ?s') = Some (view B s)"
    by (simp add: view_def)
qed (auto simp: setStateObject_def e)

text \<open>The state after the reset of an account, and the entry that records it.\<close>

definition reset_entry :: "'e StateDB \<Rightarrow> address \<Rightarrow> stateObject \<Rightarrow> journalEntry" where
  "reset_entry t a p =
     resetObjectChange a p (sdb_stateObjectsDestruct t a \<noteq> None) (sdb_accounts t (so_addrHash p))
       (sdb_storages t (so_addrHash p)) (sdb_accountsOrigin t a) (sdb_storagesOrigin t a)"

definition clear_account :: "'e StateDB \<Rightarrow> 'e StateDB \<Rightarrow> address \<Rightarrow> stateObject \<Rightarrow> 'e StateDB" where
  "clear_account u t a p =
     u\<lparr>sdb_stateObjectsDestruct := (if sdb_stateObjectsDestruct t a \<noteq> None then sdb_stateObjectsDestruct t
          else (sdb_stateObjectsDestruct t)(a \<mapsto> so_origin p)),
       sdb_accounts := (sdb_accounts t)(so_addrHash p := None),
       sdb_storages := (sdb_storages t)(so_addrHash p := None),
       sdb_accountsOrigin := (sdb_accountsOrigin t)(a := None),
       sdb_storagesOrigin := (sdb_storagesOrigin t)(a := None)\<rparr>"

lemma createObject_reset:
  assumes "getDeletedStateObject B s a = (Some p, t)" "so_address p = a"
  shows "createObject B s a =
    (newObject B a None, (if so_deleted p then None else Some p),
     setStateObject (clear_account (journal_append t (reset_entry t a p)) t a p) (newObject B a None))"
  using assms
  by (cases t) (auto simp: createObject_def Let_def journal_append_def setStateObject_def
      clear_account_def reset_entry_def)

text \<open>createObject: the new object is at its address, everything else is as before.\<close>

lemma createObject_put:
  assumes ok: "live_ok B s" and c: "createObject B s a = (obj, prev, s')"
    and addr: "so_address obj' = a" "so_addrHash obj' = bk_Keccak256Hash B (addressBytes a)"
  shows "journalled B s (setStateObject s' obj')"
proof -
  obtain r t where g: "getDeletedStateObject B s a = (r, t)" by force
  note spec = getDeletedStateObject_spec [OF ok g]
  have "journalled B s t" using spec by (intro journalled_quiet) auto
  moreover have "journalled B t (setStateObject s' obj')"
  proof (cases r)
    case None
    with spec c g have s': "s' = setStateObject (journal_append t (createObjectChange a)) (newObject B a None)"
      by (auto simp: createObject_def Let_def)
    have "lookup B t a = None"
      using spec(1,2) None by (metis map_option_is_None sv_objects_view)
    with createObject_none [OF spec(4) _ addr] addr show ?thesis
      unfolding s' by (simp add: setStateObject_again)
  next
    case (Some p)
    from spec(6) [OF Some] have cur: "sdb_stateObjects t a = Some p" .
    with spec(4) have p: "so_address p = a" "so_addrHash p = bk_Keccak256Hash B (addressBytes a)"
      by (auto simp: live_ok_def)
    have "s' = setStateObject (clear_account (journal_append t (reset_entry t a p)) t a p) (newObject B a None)"
      using c g Some p(1) createObject_reset by (metis Pair_inject)
    with createObject_some [OF spec(4) cur _ _ refl refl refl, of obj'] p addr show ?thesis
      by (simp add: setStateObject_again clear_account_def reset_entry_def)
  qed
  ultimately show ?thesis by (rule journalled_trans)
qed

lemma createObject_spec:
  assumes ok: "live_ok B s" and c: "createObject B s a = (obj, prev, s')"
  shows "obj = newObject B a None" "journalled B s s'" "sdb_stateObjects s' a = Some obj"
    "prev = (case lookup B s a of None \<Rightarrow> None | Some p \<Rightarrow> if so_deleted p then None else Some p)"
proof -
  obtain r t where g: "getDeletedStateObject B s a = (r, t)" by force
  note spec = getDeletedStateObject_spec [OF ok g]
  show obj: "obj = newObject B a None" "sdb_stateObjects s' a = Some obj"
    using c g by (auto simp: createObject_def Let_def split: option.splits if_splits)
  then have "setStateObject s' obj = s'"
    by (cases s') (simp add: setStateObject_def fun_upd_idem)
  with createObject_put [OF ok c, of obj] obj show "journalled B s s'" by simp
  show "prev = (case lookup B s a of None \<Rightarrow> None | Some p \<Rightarrow> if so_deleted p then None else Some p)"
    using c g spec(1) by (auto simp: createObject_def Let_def split: option.splits if_splits)
qed

lemma journalled_live: "journalled B s s' \<Longrightarrow> live_ok B s'"
  by (simp add: journalled_def)

lemma getOrNewStateObject_spec:
  assumes ok: "live_ok B s" and g: "getOrNewStateObject B s a = (obj, s')"
  shows "journalled B s s'" "sdb_stateObjects s' a = Some obj" "\<not> so_deleted obj"
    "so_address obj = a" "so_addrHash obj = bk_Keccak256Hash B (addressBytes a)"
proof -
  obtain r t where get: "getStateObject B s a = (r, t)" by force
  note spec = getStateObject_spec [OF ok get]
  have j: "journalled B s t" using spec by (intro journalled_quiet) auto
  have "journalled B s s' \<and> sdb_stateObjects s' a = Some obj \<and> \<not> so_deleted obj"
  proof (cases r)
    case (Some o1)
    with spec(6) [OF Some] g get j show ?thesis by (auto simp: getOrNewStateObject_def)
  next
    case None
    obtain o1 p t' where c: "createObject B t a = (o1, p, t')" by (cases "createObject B t a") auto
    with createObject_spec [OF spec(4) c] journalled_trans [OF j] None get g show ?thesis
      by (auto simp: getOrNewStateObject_def)
  qed
  then show "journalled B s s'" "sdb_stateObjects s' a = Some obj" "\<not> so_deleted obj" by auto
  with journalled_live [of B s s'] show "so_address obj = a" "so_addrHash obj = bk_Keccak256Hash B (addressBytes a)"
    by (auto simp: live_ok_def)
qed

lemma journalled_withObject:
  assumes ok: "live_ok B s"
    and f: "\<And>t obj obj' t'. live_ok B t \<Longrightarrow> sdb_stateObjects t a = Some obj \<Longrightarrow> \<not> so_deleted obj \<Longrightarrow>
      so_address obj = a \<Longrightarrow> f t obj = (obj', t') \<Longrightarrow> journalled B t (setStateObject t' obj')"
  shows "journalled B s (withObject B s a f)"
proof -
  obtain obj t where g: "getOrNewStateObject B s a = (obj, t)" by force
  obtain obj' t' where ff: "f t obj = (obj', t')" by force
  note spec = getOrNewStateObject_spec [OF ok g]
  from f [OF journalled_live [OF spec(1)] spec(2,3,4) ff] journalled_trans [OF spec(1)] g ff
  show ?thesis by auto
qed

subsection \<open>Every operation is journalled\<close>

lemma journalled_SetBalance_object:
  assumes "live_ok B t" "sdb_stateObjects t a = Some obj" "\<not> so_deleted obj" "so_address obj = a"
  shows "journalled B t
    (setStateObject (journal_append t (balanceChange a (sa_Balance (so_data obj)))) (so_setBalance obj b))"
  using assms by (intro journalled_put) (auto intro!: undo_account_put simp: sv_objects_live)

lemma same_journalled:
  assumes "live_ok B t" "sdb_stateObjects t a = Some obj" "so_address obj = a"
  shows "journalled B t (setStateObject t obj)"
proof -
  from assms(2,3) have "setStateObject t obj = t"
    by (cases t) (simp add: setStateObject_def fun_upd_idem)
  with assms(1) show ?thesis by (simp add: journalled_refl)
qed

lemma SetBalance_journalled: "live_ok B s \<Longrightarrow> journalled B s (SetBalance B s a b)"
  unfolding SetBalance_def
  by (erule journalled_withObject) (auto simp: so_SetBalance_def intro: journalled_SetBalance_object)

lemma SubBalance_journalled: "live_ok B s \<Longrightarrow> journalled B s (SubBalance B s a b)"
  unfolding SubBalance_def
  by (erule journalled_withObject)
     (auto simp: so_SubBalance_def so_SetBalance_def same_journalled split: if_splits
       intro: journalled_SetBalance_object)

lemma journalled_touch:
  assumes "live_ok B t" "sdb_stateObjects t a = Some obj" "so_address obj = a"
  shows "journalled B t (setStateObject (so_touch t obj) obj)"
proof -
  from assms have a: "so_addrHash obj = bk_Keccak256Hash B (addressBytes a)" by (auto simp: live_ok_def)
  have "sv_objects (view B t) a = Some (object_view B (sdb_stateObjectsDestruct t) obj)"
    using assms(2) by (rule sv_objects_live)
  then have v: "(view B t)\<lparr>sv_objects := (sv_objects (view B t))
      (a \<mapsto> object_view B (sdb_stateObjectsDestruct t) obj)\<rparr> = view B t"
    by (cases "view B t") (simp add: fun_upd_idem)
  show ?thesis
  proof (cases "a = ripemd")
    case False
    then show ?thesis
      using journalled_put [OF assms(1,2,3) refl, of "touchChange a"] v assms(3)
      by (simp add: so_touch_def Let_def)
  next
    case True
    have "live_ok B (journal_dirty (journal_append t (touchChange a)) a)"
      using assms(1) by (simp add: live_ok_def journal_dirty_def)
    with True assms(3) a v show ?thesis
      by (intro journalled_one [where e = "touchChange a"] live_ok_setStateObject)
         (auto simp: so_touch_def Let_def view_setStateObject journal_dirty_def)
  qed
qed

lemma AddBalance_journalled: "live_ok B s \<Longrightarrow> journalled B s (AddBalance B s a b)"
  unfolding AddBalance_def
  by (erule journalled_withObject)
     (auto simp: so_AddBalance_def so_SetBalance_def same_journalled journalled_touch split: if_splits
       intro: journalled_SetBalance_object)

lemma SetNonce_journalled: "live_ok B s \<Longrightarrow> journalled B s (SetNonce B s a n)"
  unfolding SetNonce_def
  by (erule journalled_withObject)
     (auto simp: so_SetNonce_def sv_objects_live intro!: journalled_put undo_account_put)

text \<open>A read on the object, then the change.\<close>

lemma journalled_read_put:
  assumes ok: "live_ok B t" and cur: "sdb_stateObjects t a = Some obj" and q: "quiet B t t'"
    and same: "same_object B (sdb_stateObjectsDestruct t) obj obj'"
    and j: "journalled B (setStateObject t' obj') (setStateObject (journal_append (setStateObject t' obj') e) obj'')"
    and a: "so_address obj'' = so_address obj'"
  shows "journalled B t (setStateObject (journal_append t' e) obj'')"
proof -
  note w = write_back_quiet [OF q ok cur same]
  have "journalled B t (setStateObject t' obj')" using w by (intro journalled_quiet) auto
  moreover have "setStateObject (journal_append (setStateObject t' obj') e) obj'' =
                 setStateObject (journal_append t' e) obj''"
    using a by (simp add: setStateObject_def journal_append_def split: option.split)
  ultimately show ?thesis using j journalled_trans by metis
qed

lemma SetState_journalled:
  assumes "live_ok B s"
  shows "journalled B s (SetState B s a key w)"
  unfolding SetState_def
proof (rule journalled_withObject [OF assms], goal_cases)
  case (1 t obj obj' t')
  obtain prev o1 t1 where g: "so_GetState B t obj key = (prev, o1, t1)" by (cases "so_GetState B t obj key") auto
  from so_GetState_spec [OF g] have p: "prev = ov_state (object_view B (sdb_stateObjectsDestruct t) obj) key"
    and same: "same_object B (sdb_stateObjectsDestruct t) obj o1" and q: "quiet B t t1" by auto
  note w = write_back_quiet [OF q 1(1,2) same] and o1 = same_objectD [OF same]
  show ?case
  proof (cases "prev = w")
    case True
    with 1(5) g have "obj' = o1" "t' = t1" by (simp_all add: so_SetState_def)
    with w show ?thesis by (simp add: journalled_quiet)
  next
    case False
    with 1(5) g have r: "obj' = so_setState o1 key w"
      "t' = journal_append t1 (storageChange (so_address o1) key prev)"
      by (auto simp: so_SetState_def)
    have "sdb_stateObjectsDestruct t1 = sdb_stateObjectsDestruct t" using q by (simp add: quiet_def)
    with w(4) o1 1(3,4) p have "journalled B (setStateObject t1 o1)
      (setStateObject (journal_append (setStateObject t1 o1) (storageChange (so_address o1) key prev)) (so_setState o1 key w))"
      by (intro journalled_put [OF w(3,4)]) (auto intro!: undo_account_put simp: sv_objects_live)
    then show ?thesis
      unfolding r by (intro journalled_read_put [OF 1(1,2) q same]) auto
  qed
qed

lemma SetCode_journalled:
  assumes "live_ok B s"
  shows "journalled B s (SetCode B s a c)"
  unfolding SetCode_def
proof (rule journalled_withObject [OF assms], goal_cases)
  case (1 t obj obj' t')
  let ?h = "bk_Keccak256Hash B (case c of None \<Rightarrow> [] | Some c \<Rightarrow> c)"
  obtain prev o1 t1 where g: "so_Code B t obj = (prev, o1, t1)" by (cases "so_Code B t obj") auto
  from so_Code_spec [OF g] have p: "prev = ov_code (object_view B (sdb_stateObjectsDestruct t) obj)"
    and same: "same_object B (sdb_stateObjectsDestruct t) obj o1" and q: "quiet B t t1" by auto
  note w = write_back_quiet [OF q 1(1,2) same] and o1 = same_objectD [OF same]
  let ?e = "codeChange (so_address o1) prev (sa_CodeHash (so_data o1))"
  from 1(5) g have r: "obj' = so_setCode o1 ?h c" "t' = journal_append t1 ?e"
    by (auto simp: so_SetCode_def)
  have d: "sdb_stateObjectsDestruct t1 = sdb_stateObjectsDestruct t" using q by (simp add: quiet_def)
  have pc: "codeOf B a (sa_CodeHash (so_data o1)) prev = ov_code (object_view B (sdb_stateObjectsDestruct t) o1)"
    using p o1 1(4) by (simp add: object_view_def)
  have "journalled B (setStateObject t1 o1)
      (setStateObject (journal_append (setStateObject t1 o1) ?e) (so_setCode o1 ?h c))"
    using w(4) o1 1(3,4) pc d by (intro journalled_put [OF w(3,4)]) (auto intro!: undo_account_put simp: sv_objects_live)
  then show ?case
    unfolding r by (intro journalled_read_put [OF 1(1,2) q same]) auto
qed

lemma SelfDestruct_journalled:
  assumes ok: "live_ok B s"
  shows "journalled B s (SelfDestruct B s a)"
proof -
  obtain r t where get: "getStateObject B s a = (r, t)" by force
  note spec = getStateObject_spec [OF ok get]
  have j: "journalled B s t" using spec by (intro journalled_quiet) auto
  show ?thesis
  proof (cases r)
    case None
    with j get show ?thesis by (simp add: SelfDestruct_def)
  next
    case (Some obj)
    from spec(6) [OF Some] have obj: "sdb_stateObjects t a = Some obj" "so_address obj = a" "\<not> so_deleted obj"
      by auto
    let ?e = "selfDestructChange a (so_selfDestructed obj) (sa_Balance (so_data obj))"
    let ?obj = "so_setBalance (obj\<lparr>so_selfDestructed := True\<rparr>) 0"
    have "(view B t)\<lparr>sv_objects := (sv_objects (view B t))
        (a \<mapsto> object_view B (sdb_stateObjectsDestruct t) obj)\<rparr> = view B t"
      using sv_objects_live [OF obj(1), of B] by (cases "view B t") (simp add: fun_upd_idem)
    moreover have id: "(object_view B (sdb_stateObjectsDestruct t) obj)
        \<lparr>ov_selfDestructed := so_selfDestructed obj, ov_data := so_data obj\<rparr> =
        object_view B (sdb_stateObjectsDestruct t) obj"
      by (rule object_view.equality) simp_all
    ultimately have "journalled B t (setStateObject (journal_append t ?e) ?obj)"
      using obj by (intro journalled_put [OF spec(4) obj(1)]) (simp_all add: account_at_def id)
    with j Some get show ?thesis
      using journalled_trans by (simp add: SelfDestruct_def) blast
  qed
qed

lemma Selfdestruct6780_journalled:
  assumes ok: "live_ok B s"
  shows "journalled B s (Selfdestruct6780 B s a)"
proof -
  obtain r t where get: "getStateObject B s a = (r, t)" by force
  note spec = getStateObject_spec [OF ok get]
  have j: "journalled B s t" using spec by (intro journalled_quiet) auto
  with SelfDestruct_journalled [OF spec(4), of a] get journalled_trans [OF j] show ?thesis
    by (auto simp: Selfdestruct6780_def split: option.split)
qed

lemma CreateAccount_journalled:
  assumes ok: "live_ok B s"
  shows "journalled B s (CreateAccount B s a)"
proof -
  obtain obj prev t where c: "createObject B s a = (obj, prev, t)" by (cases "createObject B s a") auto
  note spec = createObject_spec [OF ok c]
  from spec(2) createObject_put [OF ok c] spec(1) c show ?thesis
    by (auto simp: CreateAccount_def split: option.split)
qed

lemma SetTransientState_journalled:
  assumes ok: "live_ok B s"
  shows "journalled B s (SetTransientState s a key w)"
proof (cases "GetTransientState s a key = w")
  case True
  with ok show ?thesis by (simp add: SetTransientState_def journalled_refl)
next
  case False
  let ?p = "GetTransientState s a key" and ?e = "transientStorageChange a key (GetTransientState s a key)"
  let ?s = "setTransientState (journal_append s ?e) a key w"
  have "view B ?s = (view B s)\<lparr>sv_transient := ts_Get (ts_Set (sdb_transientStorage s) a key w)\<rparr>"
    by (simp add: setTransientState_def view_def lookup_def journal_append_def)
  moreover have "(ts_Get (ts_Set (sdb_transientStorage s) a key w))
      (a := (ts_Get (ts_Set (sdb_transientStorage s) a key w) a)(key := ?p)) = ts_Get (sdb_transientStorage s)"
    by (auto simp: fun_eq_iff ts_Get_Set GetTransientState_def)
  moreover have "(view B s)\<lparr>sv_transient := ts_Get (sdb_transientStorage s)\<rparr> = view B s"
    by (simp add: view_def)
  ultimately have "undo B ?e (view B ?s) = Some (view B s)" by simp
  with ok False show ?thesis
    by (intro journalled_one [where e = ?e])
       (auto simp: SetTransientState_def Let_def setTransientState_def live_ok_def)
qed

lemma refund_journalled:
  "live_ok B s \<Longrightarrow> journalled B s ((journal_append s (refundChange (sdb_refund s)))\<lparr>sdb_refund := r\<rparr>)"
  by (intro journalled_one [where e = "refundChange (sdb_refund s)"])
     (auto simp: live_ok_def view_def lookup_def journal_append_def)

lemma AddRefund_journalled: "live_ok B s \<Longrightarrow> journalled B s (AddRefund s gas)"
  by (simp add: AddRefund_def refund_journalled)

lemma SubRefund_journalled: "live_ok B s \<Longrightarrow> journalled B s (SubRefund s gas)"
  by (simp add: SubRefund_def Let_def refund_journalled)

lemma AddPreimage_journalled:
  assumes "live_ok B s"
  shows "journalled B s (AddPreimage s h p)"
proof (cases "sdb_preimages s h = None")
  case False
  with assms show ?thesis by (simp add: AddPreimage_def journalled_refl)
next
  case True
  then have "(sdb_preimages s)(h := None) = sdb_preimages s" by (rule fun_upd_idem)
  with assms True show ?thesis
    by (intro journalled_one [where e = "addPreimageChange h"])
       (auto simp: AddPreimage_def live_ok_def view_def lookup_def journal_append_def)
qed

lemma AddLog_journalled:
  assumes "live_ok B s"
  shows "journalled B s (AddLog s a topics data n)"
proof (rule journalled_one [where e = "addLogChange (sdb_thash s)"])
  let ?l = "case sdb_logs s (sdb_thash s) of None \<Rightarrow> [] | Some l \<Rightarrow> l"
  obtain log where log: "AddLog s a topics data n =
      (journal_append s (addLogChange (sdb_thash s)))\<lparr>sdb_logs := (sdb_logs s)(sdb_thash s \<mapsto> ?l @ [log]),
         sdb_logSize := Suc (sdb_logSize s)\<rparr>"
    by (simp add: AddLog_def Let_def journal_append_def)
  have "view B (AddLog s a topics data n) =
      (view B s)\<lparr>sv_logs := (sv_logs (view B s))(sdb_thash s := ?l @ [log]), sv_logSize := Suc (sdb_logSize s)\<rparr>"
    unfolding log by (simp add: view_def lookup_def fun_eq_iff journal_append_def)
  moreover have "(view B s)\<lparr>sv_logs := (sv_logs (view B s))(sdb_thash s := ?l), sv_logSize := sdb_logSize s\<rparr> = view B s"
    by (simp add: view_def fun_upd_idem)
  ultimately show "undo B (addLogChange (sdb_thash s)) (view B (AddLog s a topics data n)) = Some (view B s)"
    by simp
  show "live_ok B (AddLog s a topics data n)"
    using assms unfolding log by (simp add: live_ok_def)
qed (simp_all add: AddLog_def Let_def)

lemma AddAddressToAccessList_journalled:
  assumes "live_ok B s" "al_wf (sdb_accessList s)"
  shows "journalled B s (AddAddressToAccessList s a)"
proof -
  obtain al added where al: "al_AddAddress (sdb_accessList s) a = (al, added)" by force
  show ?thesis
  proof (cases added)
    case True
    with al_DeleteAddress_AddAddress [of "sdb_accessList s" a al] al have "al_DeleteAddress al a = sdb_accessList s"
      by simp
    with al_wf_AddAddress [OF assms(2), of a] assms al True show ?thesis
      by (intro journalled_one [where e = "accessListAddAccountChange a"])
         (auto simp: AddAddressToAccessList_def Let_def live_ok_def view_def lookup_def journal_append_def)
  next
    case False
    with al assms show ?thesis
      by (auto simp: AddAddressToAccessList_def al_AddAddress_def journalled_refl split: if_splits)
  qed
qed

lemma journalled_append_access:
  assumes "live_ok B s" and "al_wf (sdb_accessList s)" "al_wf al" "access_entry e" "entry_ok B e"
    and "undo B e ((view B s)\<lparr>sv_accessList := al\<rparr>) = Some (view B s)"
  shows "journalled B s (journal_append (s\<lparr>sdb_accessList := al\<rparr>) e)"
  using assms
  by (intro journalled_one [where e = e]) (auto simp: live_ok_def journal_append_def)

lemma AddSlotToAccessList_journalled:
  assumes ok: "live_ok B s" and wf: "al_wf (sdb_accessList s)"
  shows "\<exists>s'. AddSlotToAccessList s a slot = Some s' \<and> journalled B s s'"
proof -
  from al_AddSlot_ok [OF wf, of a slot] obtain al am sm
    where al: "al_AddSlot (sdb_accessList s) a slot = Some (al, am, sm)" "al_wf al" by auto
  show ?thesis
  proof (cases sm)
    case False
    with al al_AddSlot_nochange [of "sdb_accessList s" a slot al am] ok show ?thesis
      by (simp add: AddSlotToAccessList_def journalled_refl)
  next
    case True
    with al al_DeleteSlot_AddSlot [OF wf, of a slot al am] obtain al' where
      al': "al_DeleteSlot al a slot = Some al'" "(if am then al_DeleteAddress al' a else al') = sdb_accessList s"
      by auto
    let ?e1 = "accessListAddAccountChange a" and ?e2 = "accessListAddSlotChange a slot"
    show ?thesis
    proof (cases am)
      case False
      with al al' True ok wf journalled_append_access [OF ok wf al(2), of ?e2] show ?thesis
        by (simp add: AddSlotToAccessList_def view_def)
    next
      case am: True
      let ?s = "journal_append (s\<lparr>sdb_accessList := al'\<rparr>) ?e1"
      have al'wf: "al_wf al'"
      proof -
        have "al_addresses (sdb_accessList s) a = None"
          using al(1) am by (auto simp: al_AddSlot_def Let_def split: if_splits option.splits)
        moreover have "al' = (sdb_accessList s)\<lparr>al_addresses := (al_addresses (sdb_accessList s))(a \<mapsto> -1)\<rparr>"
          using al(1) al'(1) calculation
          by (auto simp: al_AddSlot_def al_DeleteSlot_def slotmapAt_def)
        ultimately show ?thesis using wf by (auto simp: al_wf_def)
      qed
      have "journalled B s ?s"
        using al' am by (intro journalled_append_access [OF ok wf al'wf]) (simp_all add: view_def)
      moreover have "journalled B ?s (journal_append (?s\<lparr>sdb_accessList := al\<rparr>) ?e2)"
        using al' am ok al(2) al'wf
        by (intro journalled_append_access) (simp_all add: view_def live_ok_def journal_append_def)
      moreover have "journal_append (?s\<lparr>sdb_accessList := al\<rparr>) ?e2 =
                     journal_append (journal_append (s\<lparr>sdb_accessList := al\<rparr>) ?e1) ?e2"
        by (simp add: journal_append_def)
      ultimately show ?thesis
        using al(1) True am journalled_trans by (fastforce simp: AddSlotToAccessList_def)
    qed
  qed
qed

end
