(* ===== verification/StateSnapshots.thy ===== *)
theory StateSnapshots
  imports StateJournal
begin

text \<open>
  Sequences of operations on the world state between a snapshot and the revert to it. \<open>exec_op\<close> runs
  one operation, reverts to inner snapshots included.
\<close>

datatype sdb_op =
    ReadExist address
  | ReadEmpty address
  | ReadBalance address
  | ReadNonce address
  | ReadCode address
  | ReadCodeSize address
  | ReadCodeHash address
  | ReadState address hash
  | ReadCommittedState address hash
  | ReadSelfDestructed address
  | DoAddBalance address u256
  | DoSubBalance address u256
  | DoSetBalance address u256
  | DoSetNonce address u64
  | DoSetCode address "byte list option"
  | DoSetState address hash hash
  | DoSetTransientState address hash hash
  | DoSelfDestruct address
  | DoSelfdestruct6780 address
  | DoCreateAccount address
  | DoAddLog address "hash list" "byte list" u64
  | DoAddPreimage hash "byte list"
  | DoAddRefund u64
  | DoSubRefund u64
  | DoAddAddressToAccessList address
  | DoAddSlotToAccessList address hash
  | DoSnapshot
  | DoRevertToSnapshot nat

fun exec_op :: "'e backend \<Rightarrow> 'e StateDB \<Rightarrow> sdb_op \<Rightarrow> 'e StateDB option" where
  "exec_op B s (ReadExist a) = Some (snd (Exist B s a))"
| "exec_op B s (ReadEmpty a) = Some (snd (Empty B s a))"
| "exec_op B s (ReadBalance a) = Some (snd (GetBalance B s a))"
| "exec_op B s (ReadNonce a) = Some (snd (GetNonce B s a))"
| "exec_op B s (ReadCode a) = Some (snd (GetCode B s a))"
| "exec_op B s (ReadCodeSize a) = Some (snd (GetCodeSize B s a))"
| "exec_op B s (ReadCodeHash a) = Some (snd (GetCodeHash B s a))"
| "exec_op B s (ReadState a k) = Some (snd (GetState B s a k))"
| "exec_op B s (ReadCommittedState a k) = Some (snd (GetCommittedState B s a k))"
| "exec_op B s (ReadSelfDestructed a) = Some (snd (HasSelfDestructed B s a))"
| "exec_op B s (DoAddBalance a b) = Some (AddBalance B s a b)"
| "exec_op B s (DoSubBalance a b) = Some (SubBalance B s a b)"
| "exec_op B s (DoSetBalance a b) = Some (SetBalance B s a b)"
| "exec_op B s (DoSetNonce a n) = Some (SetNonce B s a n)"
| "exec_op B s (DoSetCode a c) = Some (SetCode B s a c)"
| "exec_op B s (DoSetState a k v) = Some (SetState B s a k v)"
| "exec_op B s (DoSetTransientState a k v) = Some (SetTransientState s a k v)"
| "exec_op B s (DoSelfDestruct a) = Some (SelfDestruct B s a)"
| "exec_op B s (DoSelfdestruct6780 a) = Some (Selfdestruct6780 B s a)"
| "exec_op B s (DoCreateAccount a) = Some (CreateAccount B s a)"
| "exec_op B s (DoAddLog a topics data n) = Some (AddLog s a topics data n)"
| "exec_op B s (DoAddPreimage h p) = Some (AddPreimage s h p)"
| "exec_op B s (DoAddRefund g) = Some (AddRefund s g)"
| "exec_op B s (DoSubRefund g) = Some (SubRefund s g)"
| "exec_op B s (DoAddAddressToAccessList a) = Some (AddAddressToAccessList s a)"
| "exec_op B s (DoAddSlotToAccessList a slot) = AddSlotToAccessList s a slot"
| "exec_op B s DoSnapshot = Some (snd (Snapshot s))"
| "exec_op B s (DoRevertToSnapshot i) = RevertToSnapshot B s i"

fun exec_ops :: "'e backend \<Rightarrow> 'e StateDB \<Rightarrow> sdb_op list \<Rightarrow> 'e StateDB option" where
  "exec_ops B s [] = Some s"
| "exec_ops B s (op # ops) = (case exec_op B s op of None \<Rightarrow> None | Some s' \<Rightarrow> exec_ops B s' ops)"

subsection \<open>The operations that are not about snapshots\<close>

fun snapshot_op :: "sdb_op \<Rightarrow> bool" where
  "snapshot_op DoSnapshot = True"
| "snapshot_op (DoRevertToSnapshot _) = True"
| "snapshot_op _ = False"

lemma reads_journalled: "reads B f g \<Longrightarrow> live_ok B s \<Longrightarrow> journalled B s (snd (f s))"
  by (intro journalled_quiet) (auto simp: reads_def)

lemma GetCodeSize_journalled:
  assumes "live_ok B s"
  shows "journalled B s (snd (GetCodeSize B s a))"
proof -
  obtain r t where get: "getStateObject B s a = (r, t)" by force
  note spec = getStateObject_spec [OF assms get]
  have "quiet B t (snd (so_CodeSize B t obj))" for obj
    by (auto simp: so_CodeSize_def split: option.split prod.split)
  then have "quiet B t (snd (GetCodeSize B s a))"
    using get by (auto simp: GetCodeSize_def split: option.split)
  with spec quiet_live_ok show ?thesis by (intro journalled_quiet) (auto simp: quiet_def live_ok_def)
qed

lemma exec_op_journalled:
  assumes "live_ok B s" "al_wf (sdb_accessList s)" "\<not> snapshot_op op"
  shows "\<exists>s'. exec_op B s op = Some s' \<and> journalled B s s'"
  using assms
  by (cases op)
     (auto intro: reads_journalled [OF Exist_reads] reads_journalled [OF Empty_reads]
        reads_journalled [OF GetBalance_reads] reads_journalled [OF GetNonce_reads]
        reads_journalled [OF GetCode_reads] reads_journalled [OF GetCodeHash_reads]
        reads_journalled [OF GetState_reads] reads_journalled [OF GetCommittedState_reads]
        reads_journalled [OF HasSelfDestructed_reads] GetCodeSize_journalled
        AddBalance_journalled SubBalance_journalled SetBalance_journalled SetNonce_journalled
        SetCode_journalled SetState_journalled SetTransientState_journalled SelfDestruct_journalled
        Selfdestruct6780_journalled CreateAccount_journalled AddLog_journalled AddPreimage_journalled
        AddRefund_journalled SubRefund_journalled AddAddressToAccessList_journalled
        AddSlotToAccessList_journalled)

subsection \<open>Bisection\<close>

lemma sort_Search_loop_spec:
  assumes "i \<le> j" and "\<forall>k<i. \<not> f k" and "\<forall>k. j \<le> k \<and> k < n \<longrightarrow> f k"
    and mono: "\<And>k l. k \<le> l \<Longrightarrow> l < n \<Longrightarrow> f k \<Longrightarrow> f l" and "j \<le> n"
  shows "sort_Search_loop f i j \<le> n \<and> (\<forall>k < sort_Search_loop f i j. \<not> f k) \<and>
         (\<forall>k. sort_Search_loop f i j \<le> k \<and> k < n \<longrightarrow> f k)"
  using assms(1-3,5)
proof (induction "j - i" arbitrary: i j rule: less_induct)
  case less
  let ?h = "(i + j) div 2"
  consider "\<not> i < j" | "i < j" "f ?h" | "i < j" "\<not> f ?h" by blast
  then show ?case
  proof cases
    case 1
    then have "sort_Search_loop f i j = i" by (subst sort_Search_loop.simps) simp
    with less.prems 1 show ?thesis by simp
  next
    case 2
    have "\<forall>k. ?h \<le> k \<and> k < n \<longrightarrow> f k" using mono [of ?h] 2 by auto
    with less.hyps [of ?h i] less.prems 2 show ?thesis
      by (simp add: sort_Search_loop.simps [of f i j])
  next
    case 3
    have "?h < j" using 3(1) by linarith
    then have "\<not> f k" if "k < ?h + 1" for k
      using mono [of k ?h] that 3 less.prems by auto
    with less.hyps [of j "?h + 1"] less.prems 3 show ?thesis
      by (simp add: sort_Search_loop.simps [of f i j])
  qed
qed

lemma sort_Search_first:
  assumes "\<And>k l. k \<le> l \<Longrightarrow> l < n \<Longrightarrow> f k \<Longrightarrow> f l" and "i < n" "f i" "\<And>k. k < i \<Longrightarrow> \<not> f k"
  shows "sort_Search n f = i"
proof -
  have "sort_Search n f \<le> n \<and> (\<forall>k < sort_Search n f. \<not> f k) \<and> (\<forall>k. sort_Search n f \<le> k \<and> k < n \<longrightarrow> f k)"
    unfolding sort_Search_def by (rule sort_Search_loop_spec) (use assms(1) in auto)
  with assms(2-4) show ?thesis
    by (metis linorder_neqE_nat order.strict_trans order_refl)
qed

text \<open>The search of RevertToSnapshot finds the revision.\<close>

abbreviation ids_sorted :: "revision list \<Rightarrow> bool" where
  "ids_sorted rs \<equiv> sorted_wrt (\<lambda>x y. rev_id x < rev_id y) rs"

lemma search_revision:
  assumes "ids_sorted (xs @ r # ys)"
  shows "sort_Search (length (xs @ r # ys)) (\<lambda>i. rev_id ((xs @ r # ys) ! i) \<ge> rev_id r) = length xs"
proof (rule sort_Search_first)
  let ?zs = "xs @ r # ys"
  have lt: "rev_id (?zs ! k) < rev_id (?zs ! l)" if "k < l" "l < length ?zs" for k l
    using sorted_wrt_nth_less [OF assms that] .
  fix k l assume "k \<le> l" "l < length ?zs" "rev_id r \<le> rev_id (?zs ! k)"
  with lt [of k l] show "rev_id r \<le> rev_id (?zs ! l)" by (cases "k = l") auto
next
  fix k assume "k < length xs"
  with sorted_wrt_nth_less [OF assms this] show "\<not> rev_id r \<le> rev_id ((xs @ r # ys) ! k)" by simp
qed simp_all

lemma RevertToSnapshot_found:
  assumes "sdb_validRevisions s = xs @ r # ys" "ids_sorted (xs @ r # ys)"
  shows "RevertToSnapshot B s (rev_id r) =
    map_option (\<lambda>s'. s'\<lparr>sdb_validRevisions := xs\<rparr>) (journal_revert B s (rev_journalIndex r))"
  using search_revision [OF assms(2)] assms(1) by (simp add: RevertToSnapshot_def Let_def)

subsection \<open>Everything since a state can be undone\<close>

text \<open>
  \<open>since B s k rs t\<close>: \<open>t\<close> is reached from \<open>s\<close> by journalled changes, \<open>rs\<close> are the
  snapshots taken since, and the journal of \<open>s\<close> has \<open>k\<close> entries.
\<close>

definition since :: "'e backend \<Rightarrow> 'e StateDB \<Rightarrow> revision list \<Rightarrow> 'e StateDB \<Rightarrow> bool" where
  "since B s rs t \<longleftrightarrow>
     live_ok B t \<and> al_wf (sdb_accessList t) \<and>
     (\<exists>es. j_entries (sdb_journal t) = j_entries (sdb_journal s) @ es \<and> (\<forall>e\<in>set es. entry_ok B e) \<and>
        undo_all B (rev es) (view B t) = Some (view B s)) \<and>
     sdb_validRevisions t = sdb_validRevisions s @ rs \<and>
     ids_sorted (sdb_validRevisions s @ rs) \<and>
     (\<forall>r\<in>set (sdb_validRevisions s @ rs). rev_id r < sdb_nextRevisionId t) \<and>
     (\<forall>r\<in>set rs. length (j_entries (sdb_journal s)) \<le> rev_journalIndex r)"

definition revisions_ok :: "'e StateDB \<Rightarrow> bool" where
  "revisions_ok s \<longleftrightarrow>
     ids_sorted (sdb_validRevisions s) \<and>
     (\<forall>r\<in>set (sdb_validRevisions s). rev_id r < sdb_nextRevisionId s)"

lemma since_refl:
  "live_ok B s \<Longrightarrow> al_wf (sdb_accessList s) \<Longrightarrow> revisions_ok s \<Longrightarrow> since B s [] s"
  by (simp add: since_def revisions_ok_def)

lemma since_journalled:
  assumes "since B s rs t" "journalled B t t'"
  shows "since B s rs t'"
proof -
  from assms obtain es es' where
    "j_entries (sdb_journal t) = j_entries (sdb_journal s) @ es" "\<forall>e\<in>set es. entry_ok B e"
    "undo_all B (rev es) (view B t) = Some (view B s)"
    "j_entries (sdb_journal t') = j_entries (sdb_journal t) @ es'" "\<forall>e\<in>set es'. entry_ok B e"
    "undo_all B (rev es') (view B t') = Some (view B t)"
    unfolding since_def journalled_def by blast
  then have "j_entries (sdb_journal t') = j_entries (sdb_journal s) @ (es @ es') \<and>
    (\<forall>e\<in>set (es @ es'). entry_ok B e) \<and> undo_all B (rev (es @ es')) (view B t') = Some (view B s)"
    by (auto simp: undo_all_append)
  with assms show ?thesis unfolding since_def journalled_def by auto
qed

lemma since_Snapshot:
  assumes "since B s rs t"
  shows "since B s (rs @ [\<lparr>rev_id = sdb_nextRevisionId t,
            rev_journalIndex = length (j_entries (sdb_journal t))\<rparr>]) (snd (Snapshot t))"
  using assms
  by (auto simp: since_def Snapshot_def Let_def live_ok_def sorted_wrt_append less_SucI)

lemma undo_all_split:
  assumes "undo_all B (rev (xs @ ys)) v = Some w"
  obtains u where "undo_all B (rev ys) v = Some u" "undo_all B (rev xs) u = Some w"
  using assms by (auto simp: undo_all_append split: option.splits)

text \<open>Reverting to a snapshot taken since then keeps \<open>since\<close>; the snapshots from it on are gone.\<close>

lemma since_Revert:
  assumes since: "since B s (rs @ r # rs') t"
  shows "\<exists>t'. RevertToSnapshot B t (rev_id r) = Some t' \<and> since B s rs t'"
proof -
  let ?k = "length (j_entries (sdb_journal s))" and ?i = "rev_journalIndex r"
  from since obtain es where es: "j_entries (sdb_journal t) = j_entries (sdb_journal s) @ es"
    "\<forall>e\<in>set es. entry_ok B e" "undo_all B (rev es) (view B t) = Some (view B s)"
    unfolding since_def by blast
  have ki: "?k \<le> ?i" using since by (simp add: since_def)
  then have split: "drop ?i (j_entries (sdb_journal t)) = drop (?i - ?k) es"
    "take ?i (j_entries (sdb_journal t)) = j_entries (sdb_journal s) @ take (?i - ?k) es"
    using es(1) by simp_all
  from es(3) have "undo_all B (rev (take (?i - ?k) es @ drop (?i - ?k) es)) (view B t) = Some (view B s)"
    by simp
  then obtain u where u: "undo_all B (rev (drop (?i - ?k) es)) (view B t) = Some u"
    "undo_all B (rev (take (?i - ?k) es)) u = Some (view B s)"
    by (rule undo_all_split)
  have "\<forall>e\<in>set (rev (drop (?i - ?k) es)). entry_ok B e" using es(2) by (auto dest: in_set_dropD)
  with revertEntries_undo [OF _ this u(1)] since obtain t1 where
    t1: "revertEntries B t (rev (drop ?i (j_entries (sdb_journal t)))) = Some t1" "view B t1 = u" "live_ok B t1"
      "al_wf (sdb_accessList t1)" "sdb_nextRevisionId t1 = sdb_nextRevisionId t"
    unfolding split since_def by blast
  let ?t2 = "t1\<lparr>sdb_journal := (sdb_journal t1)\<lparr>j_entries := take ?i (j_entries (sdb_journal t))\<rparr>,
               sdb_validRevisions := sdb_validRevisions s @ rs\<rparr>"
  have "RevertToSnapshot B t (rev_id r) = Some ?t2"
    using RevertToSnapshot_found [of t "sdb_validRevisions s @ rs" r rs' B] since t1(1)
    by (simp add: since_def journal_revert_def)
  moreover have "since B s rs ?t2"
    unfolding since_def
  proof (intro conjI)
    show "\<exists>es. j_entries (sdb_journal ?t2) = j_entries (sdb_journal s) @ es \<and> (\<forall>e\<in>set es. entry_ok B e) \<and>
        undo_all B (rev es) (view B ?t2) = Some (view B s)"
      using u(2) t1(2) es(2) split(2)
      by (intro exI [of _ "take (?i - ?k) es"]) (auto dest: in_set_takeD)
  qed (use since t1 in \<open>auto simp: since_def live_ok_def sorted_wrt_append\<close>)
  ultimately show ?thesis by blast
qed

lemma sort_Search_loop_le: "i \<le> j \<Longrightarrow> sort_Search_loop f i j \<le> j"
proof (induction "j - i" arbitrary: i j rule: less_induct)
  case less
  let ?h = "(i + j) div 2"
  show ?case
  proof (cases "i < j")
    case False
    with less.prems show ?thesis by (subst sort_Search_loop.simps) simp
  next
    case True
    then have "?h < j" "i \<le> ?h" "?h - i < j - i" "j - (?h + 1) < j - i" by linarith+
    with less.hyps [of j "?h + 1"] less.hyps [of ?h i] True show ?thesis
      by (subst sort_Search_loop.simps) (auto simp: Let_def)
  qed
qed

lemma RevertToSnapshot_Some:
  assumes "RevertToSnapshot B t i = Some t'"
  shows "\<exists>r\<in>set (sdb_validRevisions t). rev_id r = i"
proof -
  let ?n = "length (sdb_validRevisions t)" and ?f = "\<lambda>k. rev_id (sdb_validRevisions t ! k) \<ge> i"
  from assms have "sort_Search ?n ?f \<noteq> ?n" "rev_id (sdb_validRevisions t ! sort_Search ?n ?f) = i"
    by (auto simp: RevertToSnapshot_def Let_def split: if_splits)
  moreover have "sort_Search ?n ?f \<le> ?n" by (simp add: sort_Search_def sort_Search_loop_le)
  ultimately show ?thesis by (metis le_neq_implies_less nth_mem)
qed

lemma exec_op_since:
  assumes since: "since B s (r # rs) t" and x: "exec_op B t op = Some t'"
    and inner: "\<And>i. op = DoRevertToSnapshot i \<Longrightarrow> rev_id r < i"
  shows "\<exists>rs'. since B s (r # rs') t'"
proof (cases "snapshot_op op")
  case False
  with exec_op_journalled [of B t op] since x have "journalled B t t'" by (auto simp: since_def)
  with since since_journalled show ?thesis by blast
next
  case True
  then consider "op = DoSnapshot" | i where "op = DoRevertToSnapshot i" by (cases op) auto
  then show ?thesis
  proof cases
    case 1
    with since_Snapshot [OF since] x show ?thesis by auto
  next
    case 2
    with x obtain q where q: "q \<in> set (sdb_validRevisions t)" "rev_id q = i"
      using RevertToSnapshot_Some [of B t i t'] by auto
    have "q \<in> set rs"
      using q inner [OF 2] since by (auto simp: since_def sorted_wrt_append)
    then obtain xs ys where "rs = xs @ q # ys" by (auto dest: split_list)
    with since_Revert [of B s "r # xs" q ys t] since x 2 q show ?thesis by auto
  qed
qed

lemma exec_ops_since:
  assumes "since B s (r # rs) t" and "exec_ops B t ops = Some t'"
    and "\<And>i. DoRevertToSnapshot i \<in> set ops \<Longrightarrow> rev_id r < i"
  shows "\<exists>rs'. since B s (r # rs') t'"
  using assms
proof (induction ops arbitrary: rs t)
  case Nil
  then show ?case by auto
next
  case (Cons op ops)
  then obtain u where u: "exec_op B t op = Some u" "exec_ops B u ops = Some t'"
    by (auto split: option.splits)
  with exec_op_since [OF Cons.prems(1) u(1)] Cons.prems(3) obtain rs' where "since B s (r # rs') u" by auto
  from Cons.IH [OF this u(2)] Cons.prems(3) show ?case by auto
qed

text \<open>The state a caller may take a snapshot of.\<close>

definition state_ok :: "'e backend \<Rightarrow> 'e StateDB \<Rightarrow> bool" where
  "state_ok B s \<longleftrightarrow> live_ok B s \<and> al_wf (sdb_accessList s) \<and> revisions_ok s"

lemma state_ok_New [simp]: "state_ok B NewStateDB"
  by (simp add: state_ok_def live_ok_def revisions_ok_def NewStateDB_def)

lemma revert_restores:
  assumes ok: "state_ok B s" and x: "exec_ops B (snd (Snapshot s)) ops = Some t"
    and inner: "\<And>i. DoRevertToSnapshot i \<in> set ops \<Longrightarrow> fst (Snapshot s) < i"
  shows "\<exists>t'. RevertToSnapshot B t (fst (Snapshot s)) = Some t' \<and> view B t' = view B s \<and>
           j_entries (sdb_journal t') = j_entries (sdb_journal s) \<and>
           sdb_validRevisions t' = sdb_validRevisions s \<and> state_ok B t'"
proof -
  let ?r = "\<lparr>rev_id = sdb_nextRevisionId s, rev_journalIndex = length (j_entries (sdb_journal s))\<rparr>"
  have "since B s [?r] (snd (Snapshot s))"
    using since_Snapshot [OF since_refl [of B s]] ok by (auto simp: state_ok_def)
  from exec_ops_since [OF this x] inner obtain rs where rs: "since B s (?r # rs) t"
    by (auto simp: Snapshot_def Let_def)
  with RevertToSnapshot_found [of t "sdb_validRevisions s" ?r rs B]
  have eq: "RevertToSnapshot B t (fst (Snapshot s)) =
      map_option (\<lambda>s'. s'\<lparr>sdb_validRevisions := sdb_validRevisions s\<rparr>)
        (journal_revert B t (length (j_entries (sdb_journal s))))"
    by (simp add: since_def Snapshot_def Let_def)
  from since_Revert [of B s "[]" ?r rs t] rs obtain t' where
    t': "RevertToSnapshot B t (fst (Snapshot s)) = Some t'" "since B s [] t'"
    by (auto simp: Snapshot_def Let_def)
  from rs obtain es where "j_entries (sdb_journal t) = j_entries (sdb_journal s) @ es"
    by (auto simp: since_def)
  with t'(1) eq have "j_entries (sdb_journal t') = j_entries (sdb_journal s)"
    by (auto simp: journal_revert_def)
  moreover from this t'(2) have "view B t' = view B s" by (auto simp: since_def)
  ultimately show ?thesis
    using t' by (auto simp: since_def state_ok_def revisions_ok_def)
qed

lemma exec_ops_total:
  assumes "live_ok B s" "al_wf (sdb_accessList s)" "\<And>i. DoRevertToSnapshot i \<notin> set ops"
  shows "\<exists>t. exec_ops B s ops = Some t"
  using assms
proof (induction ops arbitrary: s)
  case Nil
  then show ?case by simp
next
  case (Cons op ops)
  have "\<exists>s'. exec_op B s op = Some s' \<and> live_ok B s' \<and> al_wf (sdb_accessList s')"
  proof (cases "snapshot_op op")
    case False
    with exec_op_journalled [of B s op] Cons.prems show ?thesis by (auto simp: journalled_def)
  next
    case True
    with Cons.prems show ?thesis
      by (cases op) (auto simp: Snapshot_def Let_def live_ok_def)
  qed
  with Cons show ?case by auto
qed

end
