(* ===== verification/StateEffects.thy ===== *)
theory StateEffects
  imports StateSnapshots
begin

text \<open>
  What each setter of the world state does to the view: it changes the account at its address, which is
  created if there is none, and nothing else. These laws are the interface that the precompiles and the
  state transition rely on.
\<close>

subsection \<open>Fresh accounts\<close>

text \<open>An address without an account has no storage in the database.\<close>

definition database_ok :: "'e backend \<Rightarrow> bool" where
  "database_ok B \<longleftrightarrow>
     (\<forall>a k. (\<forall>d. readAccount B a \<noteq> Inr (Some d)) \<longrightarrow>
        snd (readStorage B a (bk_Keccak256Hash B (addressBytes a)) EmptyRootHash k) \<in> {None, Some 0})"

definition fresh_account :: "'e backend \<Rightarrow> object_view \<Rightarrow> bool" where
  "fresh_account B ov \<longleftrightarrow>
     ov_data ov = NewEmptyStateAccount B \<and> ov_code ov = None \<and> ov_origin ov = None \<and>
     \<not> ov_selfDestructed ov \<and> \<not> ov_deleted ov \<and> ov_created ov \<and>
     (database_ok B \<longrightarrow> ov_state ov = (\<lambda>_. 0) \<and> ov_committed ov = (\<lambda>_. 0))"

lemma fresh_account_new:
  assumes "d a \<noteq> None \<or> (\<forall>x. readAccount B a \<noteq> Inr (Some x))"
  shows "fresh_account B (object_view B d (newObject B a None))"
proof -
  have "committed B d (newObject B a None) key = 0" if "database_ok B" for key
  proof (cases "d a = None")
    case True
    with assms that have "snd (readStorage B a (bk_Keccak256Hash B (addressBytes a)) EmptyRootHash key) \<in> {None, Some 0}"
      by (simp add: database_ok_def)
    with True show ?thesis by (auto simp: committed_def newObject_def NewEmptyStateAccount_def)
  qed (auto simp: committed_def newObject_def)
  then show ?thesis
    by (auto simp: fresh_account_def object_view_def newObject_def NewEmptyStateAccount_def codeOf_def fun_eq_iff)
qed

subsection \<open>The effect of a change of one account\<close>

text \<open>The parts of a view that the accounts have no part in.\<close>

definition same_rest :: "state_view \<Rightarrow> state_view \<Rightarrow> bool" where
  "same_rest v v' \<longleftrightarrow>
     sv_refund v' = sv_refund v \<and> sv_thash v' = sv_thash v \<and> sv_txIndex v' = sv_txIndex v \<and>
     sv_logs v' = sv_logs v \<and> sv_logSize v' = sv_logSize v \<and> sv_preimages v' = sv_preimages v \<and>
     sv_accessList v' = sv_accessList v \<and> sv_predicates v' = sv_predicates v \<and>
     sv_transient v' = sv_transient v"

lemma same_rest_refl [simp]: "same_rest v v"
  by (simp add: same_rest_def)

lemma same_rest_trans: "same_rest v w \<Longrightarrow> same_rest w x \<Longrightarrow> same_rest v x"
  by (simp add: same_rest_def)

definition changes_account ::
    "'e backend \<Rightarrow> state_view \<Rightarrow> state_view \<Rightarrow> address \<Rightarrow> (object_view \<Rightarrow> object_view) \<Rightarrow> bool" where
  "changes_account B v v' a f \<longleftrightarrow>
     (\<forall>b. b \<noteq> a \<longrightarrow> account_at v' b = account_at v b) \<and>
     (\<exists>ov. (account_at v a = Some ov \<or> account_at v a = None \<and> fresh_account B ov) \<and>
           account_at v' a = Some (f ov)) \<and>
     same_rest v v'"

lemma createObject_view:
  assumes ok: "live_ok B s" and c: "createObject B s a = (obj, prev, s')"
  shows "\<And>b. b \<noteq> a \<Longrightarrow> sv_objects (view B s') b = sv_objects (view B s) b"
    "\<exists>ov. sv_objects (view B s') a = Some ov \<and> fresh_account B ov"
    "same_rest (view B s) (view B s')"
proof -
  obtain r t where g: "getDeletedStateObject B s a = (r, t)" by force
  note spec = getDeletedStateObject_spec [OF ok g]
  have "(\<forall>b. b \<noteq> a \<longrightarrow> sv_objects (view B s') b = sv_objects (view B s) b) \<and>
    (\<exists>ov. sv_objects (view B s') a = Some ov \<and> fresh_account B ov) \<and> same_rest (view B s) (view B s')"
  proof (cases r)
    case None
    with c g have s': "s' = setStateObject (journal_append t (createObjectChange a)) (newObject B a None)"
      by (auto simp: createObject_def Let_def)
    from None spec(1) have "\<forall>x. readAccount B a \<noteq> Inr (Some x)"
      by (auto simp: lookup_def split: option.splits)
    then show ?thesis
      unfolding s' view_setStateObject using spec(2) fresh_account_new [of "sdb_stateObjectsDestruct t" a B]
      by (simp add: same_rest_def)
  next
    case (Some p)
    from spec(6) [OF Some] spec(4) have p: "so_address p = a" by (auto simp: live_ok_def)
    let ?d = "if sdb_stateObjectsDestruct t a \<noteq> None then sdb_stateObjectsDestruct t
              else (sdb_stateObjectsDestruct t)(a \<mapsto> so_origin p)"
    let ?e = "reset_entry t a p"
    have "s' = setStateObject (clear_account (journal_append t ?e) t a p) (newObject B a None)"
      using c g Some p createObject_reset by (metis Pair_inject)
    then have s': "s' = setStateObject ((journal_append t ?e)
       \<lparr>sdb_stateObjectsDestruct := ?d,
        sdb_accounts := (sdb_accounts t)(so_addrHash p := None),
        sdb_storages := (sdb_storages t)(so_addrHash p := None),
        sdb_accountsOrigin := (sdb_accountsOrigin t)(a := None),
        sdb_storagesOrigin := (sdb_storagesOrigin t)(a := None)\<rparr>) (newObject B a None)"
      by (simp add: clear_account_def)
    have "view B s' = (view B t)\<lparr>
        sv_objects := (sv_objects (view B t))(a \<mapsto> object_view B ?d (newObject B a None)),
        sv_destruct := ?d, sv_accounts := (sdb_accounts t)(so_addrHash p := None),
        sv_storages := (sdb_storages t)(so_addrHash p := None),
        sv_accountsOrigin := (sdb_accountsOrigin t)(a := None),
        sv_storagesOrigin := (sdb_storagesOrigin t)(a := None)\<rparr>"
      unfolding s' by (subst view_put_destruct) (use spec(4) in auto)
    moreover have "fresh_account B (object_view B ?d (newObject B a None))"
      by (rule fresh_account_new) auto
    ultimately show ?thesis
      using spec(2) by (simp add: same_rest_def)
  qed
  then show "\<And>b. b \<noteq> a \<Longrightarrow> sv_objects (view B s') b = sv_objects (view B s) b"
    "\<exists>ov. sv_objects (view B s') a = Some ov \<and> fresh_account B ov" "same_rest (view B s) (view B s')"
    by blast+
qed

lemma getOrNewStateObject_view:
  assumes ok: "live_ok B s" and g: "getOrNewStateObject B s a = (obj, s')"
  shows "changes_account B (view B s) (view B s') a (\<lambda>ov. ov)"
proof -
  obtain r t where get: "getStateObject B s a = (r, t)" by force
  note spec = getStateObject_spec [OF ok get] and acc = getStateObject_view [OF ok get]
  show ?thesis
  proof (cases r)
    case (Some o1)
    with acc spec(2) g get show ?thesis
      by (auto simp: getOrNewStateObject_def changes_account_def)
  next
    case None
    obtain o1 p t' where c: "createObject B t a = (o1, p, t')" by (cases "createObject B t a") auto
    with None g get have "s' = t'" by (simp add: getOrNewStateObject_def)
    with createObject_view [OF spec(4) c] acc None spec(2) show ?thesis
      by (auto simp: changes_account_def account_at_def fresh_account_def)
  qed
qed

lemma changes_withObject:
  assumes ok: "live_ok B s"
    and f: "\<And>t obj obj' t'. live_ok B t \<Longrightarrow> sdb_stateObjects t a = Some obj \<Longrightarrow> \<not> so_deleted obj \<Longrightarrow>
      so_address obj = a \<Longrightarrow> f t obj = (obj', t') \<Longrightarrow>
      view B (setStateObject t' obj') = (view B t)\<lparr>sv_objects := (sv_objects (view B t))
        (a \<mapsto> g (object_view B (sdb_stateObjectsDestruct t) obj))\<rparr>"
    and g: "\<And>ov. ov_deleted (g ov) = ov_deleted ov"
  shows "changes_account B (view B s) (view B (withObject B s a f)) a g"
proof -
  obtain obj t where get: "getOrNewStateObject B s a = (obj, t)" by force
  obtain obj' t' where ff: "f t obj = (obj', t')" by force
  note spec = getOrNewStateObject_spec [OF ok get]
  note v = f [OF journalled_live [OF spec(1)] spec(2,3,4) ff]
  have "account_at (view B t) a = Some (object_view B (sdb_stateObjectsDestruct t) obj)"
    using spec(3) sv_objects_live [OF spec(2), of B] by (simp add: account_at_def)
  moreover note getOrNewStateObject_view [OF ok get]
  ultimately show ?thesis
    using get ff v g spec(3)
    by (auto simp: changes_account_def account_at_def same_rest_def)
qed

abbreviation set_balance :: "u256 \<Rightarrow> object_view \<Rightarrow> object_view" where
  "set_balance b ov \<equiv> ov\<lparr>ov_data := (ov_data ov)\<lparr>sa_Balance := b\<rparr>\<rparr>"

lemma object_view_same_data [simp]: "(object_view B d obj)\<lparr>ov_data := so_data obj\<rparr> = object_view B d obj"
  by (rule object_view.equality) simp_all

lemma put_same_view:
  "sdb_stateObjects t (so_address obj) = Some obj \<Longrightarrow>
     (view B t)\<lparr>sv_objects := (sv_objects (view B t))
        (so_address obj \<mapsto> object_view B (sdb_stateObjectsDestruct t) obj)\<rparr> = view B t"
  using sv_objects_live [of t "so_address obj" obj B] by (cases "view B t") (simp add: fun_upd_idem)

lemma view_so_touch [simp]: "view B (so_touch t obj) = view B t"
  by (simp add: so_touch_def Let_def)

lemma destruct_so_touch [simp]: "sdb_stateObjectsDestruct (so_touch t obj) = sdb_stateObjectsDestruct t"
  by (simp add: so_touch_def Let_def journal_dirty_def)

lemma SetBalance_changes:
  "live_ok B s \<Longrightarrow> changes_account B (view B s) (view B (SetBalance B s a b)) a (set_balance b)"
  unfolding SetBalance_def
  by (erule changes_withObject) (auto simp: so_SetBalance_def view_setStateObject)

lemma AddBalance_changes:
  "live_ok B s \<Longrightarrow> changes_account B (view B s) (view B (AddBalance B s a b)) a
     (\<lambda>ov. set_balance (sa_Balance (ov_data ov) + b) ov)"
  unfolding AddBalance_def
  by (erule changes_withObject)
     (auto simp: so_AddBalance_def so_SetBalance_def view_setStateObject split: if_splits)

lemma SubBalance_changes:
  "live_ok B s \<Longrightarrow> changes_account B (view B s) (view B (SubBalance B s a b)) a
     (\<lambda>ov. set_balance (sa_Balance (ov_data ov) - b) ov)"
  unfolding SubBalance_def
  by (erule changes_withObject)
     (auto simp: so_SubBalance_def so_SetBalance_def view_setStateObject split: if_splits)

lemma SetNonce_changes:
  "live_ok B s \<Longrightarrow> changes_account B (view B s) (view B (SetNonce B s a n)) a
     (\<lambda>ov. ov\<lparr>ov_data := (ov_data ov)\<lparr>sa_Nonce := n\<rparr>\<rparr>)"
  unfolding SetNonce_def
  by (erule changes_withObject) (auto simp: so_SetNonce_def view_setStateObject)

lemma SetState_changes:
  assumes "live_ok B s"
  shows "changes_account B (view B s) (view B (SetState B s a key w)) a
     (\<lambda>ov. ov\<lparr>ov_state := (ov_state ov)(key := w)\<rparr>)"
  unfolding SetState_def
proof (rule changes_withObject [OF assms], goal_cases)
  case (1 t obj obj' t')
  obtain prev o1 t1 where g: "so_GetState B t obj key = (prev, o1, t1)" by (cases "so_GetState B t obj key") auto
  from so_GetState_spec [OF g] have p: "prev = ov_state (object_view B (sdb_stateObjectsDestruct t) obj) key"
    and same: "same_object B (sdb_stateObjectsDestruct t) obj o1" and q: "quiet B t t1" by auto
  note o1 = same_objectD [OF same]
  show ?case
  proof (cases "prev = w")
    case True
    with 1(5) g have "obj' = o1" "t' = t1" by (simp_all add: so_SetState_def)
    moreover have "(object_view B (sdb_stateObjectsDestruct t) obj)\<lparr>ov_state :=
        (ov_state (object_view B (sdb_stateObjectsDestruct t) obj))(key := w)\<rparr> =
        object_view B (sdb_stateObjectsDestruct t) obj"
      using p True by (simp add: fun_upd_idem)
    ultimately show ?thesis
      using q o1 1(4) by (simp add: view_setStateObject quiet_def)
  next
    case False
    with 1(5) g have "obj' = so_setState o1 key w"
      "t' = journal_append t1 (storageChange (so_address o1) key prev)"
      by (auto simp: so_SetState_def)
    with q o1 1(4) show ?thesis by (simp add: view_setStateObject quiet_def)
  qed
qed simp

lemma SetCode_changes:
  assumes "live_ok B s"
  shows "changes_account B (view B s) (view B (SetCode B s a c)) a
     (\<lambda>ov. let h = bk_Keccak256Hash B (case c of None \<Rightarrow> [] | Some c \<Rightarrow> c)
           in ov\<lparr>ov_data := (ov_data ov)\<lparr>sa_CodeHash := h\<rparr>, ov_code := codeOf B a h c\<rparr>)"
  unfolding SetCode_def
proof (rule changes_withObject [OF assms], goal_cases)
  case (1 t obj obj' t')
  obtain prev o1 t1 where g: "so_Code B t obj = (prev, o1, t1)" by (cases "so_Code B t obj") auto
  from so_Code_spec [OF g] have same: "same_object B (sdb_stateObjectsDestruct t) obj o1"
    and q: "quiet B t t1" by auto
  with same_objectD [OF same] g 1(4,5) show ?case
    by (auto simp: so_SetCode_def view_setStateObject quiet_def Let_def)
qed (simp add: Let_def)

subsection \<open>What the getters return after the setters\<close>

definition balance_at :: "state_view \<Rightarrow> address \<Rightarrow> u256" where
  "balance_at v a = (case account_at v a of None \<Rightarrow> 0 | Some ov \<Rightarrow> sa_Balance (ov_data ov))"

definition nonce_at :: "state_view \<Rightarrow> address \<Rightarrow> u64" where
  "nonce_at v a = (case account_at v a of None \<Rightarrow> 0 | Some ov \<Rightarrow> sa_Nonce (ov_data ov))"

definition state_at :: "state_view \<Rightarrow> address \<Rightarrow> hash \<Rightarrow> hash" where
  "state_at v a key = (case account_at v a of None \<Rightarrow> 0 | Some ov \<Rightarrow> ov_state ov key)"

lemma changes_balance:
  assumes "changes_account B v v' a f"
    and "\<And>ov. sa_Balance (ov_data (f ov)) = g (sa_Balance (ov_data ov))"
  shows "balance_at v' b = (if b = a then g (balance_at v a) else balance_at v b)"
  using assms by (auto simp: changes_account_def balance_at_def fresh_account_def NewEmptyStateAccount_def)

lemma changes_nonce:
  assumes "changes_account B v v' a f"
    and "\<And>ov. sa_Nonce (ov_data (f ov)) = g (sa_Nonce (ov_data ov))"
  shows "nonce_at v' b = (if b = a then g (nonce_at v a) else nonce_at v b)"
  using assms by (auto simp: changes_account_def nonce_at_def fresh_account_def NewEmptyStateAccount_def)

lemma changes_state:
  assumes "changes_account B v v' a f" and "database_ok B"
    and "\<And>ov. ov_state (f ov) = g (ov_state ov)"
  shows "state_at v' b k = (if b = a then g (state_at v a) k else state_at v b k)"
proof -
  have "(case account_at v a of None \<Rightarrow> (\<lambda>_. 0) | Some ov \<Rightarrow> ov_state ov) = state_at v a"
    by (auto simp: state_at_def fun_eq_iff split: option.split)
  with assms show ?thesis
    by (auto simp: changes_account_def state_at_def fresh_account_def)
qed

lemma changes_exist: "changes_account B v v' a f \<Longrightarrow> account_at v' b \<noteq> None \<longleftrightarrow> b = a \<or> account_at v b \<noteq> None"
  by (auto simp: changes_account_def)

lemma changes_rest: "changes_account B v v' a f \<Longrightarrow> same_rest v v'"
  by (simp add: changes_account_def)

lemma CreateAccount_changes:
  assumes ok: "live_ok B s"
  shows "(\<forall>b. b \<noteq> a \<longrightarrow> account_at (view B (CreateAccount B s a)) b = account_at (view B s) b) \<and>
    (\<exists>ov. fresh_account B ov \<and>
       account_at (view B (CreateAccount B s a)) a = Some (set_balance (balance_at (view B s) a) ov)) \<and>
    same_rest (view B s) (view B (CreateAccount B s a))"
proof -
  obtain obj prev t where c: "createObject B s a = (obj, prev, t)" by (cases "createObject B s a") auto
  note spec = createObject_spec [OF ok c] and v = createObject_view [OF ok c]
  from v(2) obtain ov where ov: "sv_objects (view B t) a = Some ov" "fresh_account B ov" by auto
  have obj: "object_view B (sdb_stateObjectsDestruct t) obj = ov"
    using ov(1) sv_objects_live [OF spec(3), of B] by simp
  have a: "so_address obj = a" using spec(1) by simp
  have bal: "balance_at (view B s) a = (case prev of None \<Rightarrow> 0 | Some p \<Rightarrow> sa_Balance (so_data p))"
    unfolding spec(4)
    by (auto simp: balance_at_def account_at_def sv_objects_view split: option.split)
  have del: "\<not> ov_deleted ov" and dat: "ov_data ov = NewEmptyStateAccount B"
    using ov(2) by (simp_all add: fresh_account_def)
  show ?thesis
  proof (cases prev)
    case None
    have "set_balance 0 ov = ov"
      using dat by (intro object_view.equality) (simp_all add: NewEmptyStateAccount_def)
    with None c v ov del bal show ?thesis
      by (auto simp: CreateAccount_def account_at_def)
  next
    case (Some p)
    have o: "so_data obj = ov_data ov" using obj by auto
    from Some c bal have "view B (CreateAccount B s a) = (view B t)\<lparr>sv_objects := (sv_objects (view B t))
        (a \<mapsto> set_balance (balance_at (view B s) a) ov)\<rparr>"
      using obj a o by (simp add: CreateAccount_def view_setStateObject)
    with v ov(2) del show ?thesis
      by (auto simp: account_at_def same_rest_def)
  qed
qed

lemma AddLog_view:
  "\<exists>log. log_Address log = a \<and> log_Topics log = topics \<and> log_Data log = data \<and> log_BlockNumber log = n \<and>
     log_TxHash log = sdb_thash s \<and> log_Index log = sdb_logSize s \<and>
     view B (AddLog s a topics data n) =
       (view B s)\<lparr>sv_logs := (sv_logs (view B s))(sdb_thash s := sv_logs (view B s) (sdb_thash s) @ [log]),
                  sv_logSize := Suc (sdb_logSize s)\<rparr>"
  by (auto simp: AddLog_def Let_def view_def lookup_def fun_eq_iff journal_append_def)

end
