(* ===== verification/StateFinalise.thy ===== *)
theory StateFinalise
  imports StateEffects
begin

text \<open>
  What Finalise of core/state/statedb.go does to the view: of the addresses that the journal names, the
  self-destructed and, if asked for, the empty accounts are gone, and the storage writes of the others
  are no longer pending in the transaction. All other accounts stay, and no snapshot is left to revert to.
\<close>

definition ov_empty :: "'e backend \<Rightarrow> object_view \<Rightarrow> bool" where
  "ov_empty B ov \<longleftrightarrow>
     sa_Nonce (ov_data ov) = 0 \<and> sa_Balance (ov_data ov) = 0 \<and> sa_CodeHash (ov_data ov) = EmptyCodeHash B"

definition ov_finalised :: "'e backend \<Rightarrow> bool \<Rightarrow> object_view \<Rightarrow> object_view option" where
  "ov_finalised B del ov =
     (if ov_selfDestructed ov \<or> del \<and> ov_empty B ov then None
      else Some (ov\<lparr>ov_committed := ov_state ov, ov_created := False\<rparr>))"

text \<open>The addresses that Finalise visits.\<close>

definition finalised_addresses :: "'e StateDB \<Rightarrow> address set" where
  "finalised_addresses s = fst ` set (j_dirties (sdb_journal s)) \<inter> dom (sdb_stateObjects s)"

lemma ov_finalised_again: "ov_finalised B del ov = Some ov' \<Longrightarrow> ov_finalised B del ov' = Some ov'"
  by (auto simp: ov_finalised_def ov_empty_def split: if_splits)

lemma object_view_finalise:
  "object_view B d ((so_finalise obj)\<lparr>so_created := False\<rparr>) =
     (object_view B d obj)\<lparr>ov_committed := ov_state (object_view B d obj), ov_created := False\<rparr>"
  by (rule object_view.equality)
     (auto simp: object_view_def so_finalise_def committed_def map_add_def fun_eq_iff split: option.splits)

lemma view_pending_dirty [simp]:
  "view B (s\<lparr>sdb_stateObjectsPending := p, sdb_stateObjectsDirty := d\<rparr>) = (view B s)\<lparr>sv_pending := p, sv_dirty := d\<rparr>"
  by (simp add: view_def lookup_def)

lemma finaliseAddress_account:
  assumes ok: "live_ok B s"
  shows "account_at (view B (finaliseAddress B del s a)) b =
      (if b = a \<and> sdb_stateObjects s a \<noteq> None then Option.bind (account_at (view B s) a) (ov_finalised B del)
       else account_at (view B s) b)"
    and "same_rest (view B s) (view B (finaliseAddress B del s a))"
    and "live_ok B (finaliseAddress B del s a)"
    and "dom (sdb_stateObjects (finaliseAddress B del s a)) = dom (sdb_stateObjects s)"
    and "ctl (finaliseAddress B del s a) = ctl s"
proof -
  have "(\<forall>b. account_at (view B (finaliseAddress B del s a)) b =
      (if b = a \<and> sdb_stateObjects s a \<noteq> None then Option.bind (account_at (view B s) a) (ov_finalised B del)
       else account_at (view B s) b)) \<and> same_rest (view B s) (view B (finaliseAddress B del s a)) \<and>
    live_ok B (finaliseAddress B del s a) \<and>
    dom (sdb_stateObjects (finaliseAddress B del s a)) = dom (sdb_stateObjects s) \<and> ctl (finaliseAddress B del s a) = ctl s"
  proof (cases "sdb_stateObjects s a")
    case None
    then show ?thesis using ok by (simp add: finaliseAddress_def)
  next
    case (Some obj)
    from ok Some have a: "so_address obj = a" "so_addrHash obj = bk_Keccak256Hash B (addressBytes a)"
      by (auto simp: live_ok_def)
    let ?d = "sdb_stateObjectsDestruct s"
    have acc: "account_at (view B s) a = (if so_deleted obj then None else Some (object_view B ?d obj))"
      using sv_objects_live [OF Some] by (simp add: account_at_def object_view_def)
    show ?thesis
    proof (cases "so_selfDestructed obj \<or> del \<and> so_empty B obj")
      case True
      let ?obj = "obj\<lparr>so_deleted := True, so_created := False\<rparr>"
      let ?d' = "if ?d a \<noteq> None then ?d else ?d(a \<mapsto> so_origin obj)"
      let ?s = "s\<lparr>sdb_stateObjectsDestruct := ?d', sdb_accounts := (sdb_accounts s)(so_addrHash obj := None),
            sdb_storages := (sdb_storages s)(so_addrHash obj := None),
            sdb_accountsOrigin := (sdb_accountsOrigin s)(a := None),
            sdb_storagesOrigin := (sdb_storagesOrigin s)(a := None)\<rparr>"
      have f: "finaliseAddress B del s a = (setStateObject ?s ?obj)
          \<lparr>sdb_stateObjectsPending := insert a (sdb_stateObjectsPending s),
           sdb_stateObjectsDirty := insert a (sdb_stateObjectsDirty s)\<rparr>"
        using Some True a by (simp add: finaliseAddress_def Let_def)
      have v: "view B (setStateObject ?s ?obj) =
         (view B s)\<lparr>sv_objects := (sv_objects (view B s))(a \<mapsto> object_view B ?d' ?obj),
             sv_destruct := ?d', sv_accounts := (sdb_accounts s)(so_addrHash obj := None),
             sv_storages := (sdb_storages s)(so_addrHash obj := None),
             sv_accountsOrigin := (sdb_accountsOrigin s)(a := None),
             sv_storagesOrigin := (sdb_storagesOrigin s)(a := None)\<rparr>"
        by (subst view_put_destruct [OF ok]) (auto simp: a)
      have "ov_finalised B del (object_view B ?d obj) = None"
        using True by (auto simp: ov_finalised_def ov_empty_def object_view_def so_empty_def)
      moreover have "ov_deleted (object_view B ?d' ?obj)" by (simp add: object_view_def)
      moreover have "dom (sdb_stateObjects (finaliseAddress B del s a)) = dom (sdb_stateObjects s)"
        "live_ok B (finaliseAddress B del s a)" "ctl (finaliseAddress B del s a) = ctl s"
        unfolding f using Some a ok by (auto simp: live_ok_def setStateObject_def)
      ultimately show ?thesis
        unfolding f view_pending_dirty v using Some acc by (simp add: account_at_def same_rest_def)
    next
      case False
      let ?obj = "(so_finalise obj)\<lparr>so_created := False\<rparr>"
      have f: "finaliseAddress B del s a = (setStateObject s ?obj)
          \<lparr>sdb_stateObjectsPending := insert a (sdb_stateObjectsPending s),
           sdb_stateObjectsDirty := insert a (sdb_stateObjectsDirty s)\<rparr>"
        by (simp only: finaliseAddress_def Let_def Some option.case False if_False)
      have "so_address ?obj = a" using a by (simp add: so_finalise_def)
      moreover have "ov_finalised B del (object_view B ?d obj) = Some (object_view B ?d ?obj)"
        using False by (auto simp: ov_finalised_def ov_empty_def so_empty_def object_view_finalise)
      moreover have "dom (sdb_stateObjects (finaliseAddress B del s a)) = dom (sdb_stateObjects s)"
        "live_ok B (finaliseAddress B del s a)" "ctl (finaliseAddress B del s a) = ctl s"
        unfolding f using Some a ok by (auto simp: live_ok_def setStateObject_def so_finalise_def)
      moreover have "ov_deleted (object_view B ?d ?obj) = so_deleted obj" by (simp add: object_view_def so_finalise_def)
      ultimately show ?thesis
        unfolding f using Some acc by (simp add: view_setStateObject account_at_def same_rest_def)
    qed
  qed
  then show "account_at (view B (finaliseAddress B del s a)) b =
      (if b = a \<and> sdb_stateObjects s a \<noteq> None then Option.bind (account_at (view B s) a) (ov_finalised B del)
       else account_at (view B s) b)"
    "same_rest (view B s) (view B (finaliseAddress B del s a))" "live_ok B (finaliseAddress B del s a)"
    "dom (sdb_stateObjects (finaliseAddress B del s a)) = dom (sdb_stateObjects s)"
    "ctl (finaliseAddress B del s a) = ctl s"
    by blast+
qed

lemma finaliseAddresses_account:
  assumes "live_ok B s"
  shows "(\<forall>b. account_at (view B (foldl (finaliseAddress B del) s as)) b =
      (if b \<in> set as \<inter> dom (sdb_stateObjects s) then Option.bind (account_at (view B s) b) (ov_finalised B del)
       else account_at (view B s) b)) \<and>
    same_rest (view B s) (view B (foldl (finaliseAddress B del) s as)) \<and>
    live_ok B (foldl (finaliseAddress B del) s as) \<and> ctl (foldl (finaliseAddress B del) s as) = ctl s"
  using assms
proof (induction as arbitrary: s)
  case (Cons a as)
  let ?t = "finaliseAddress B del s a"
  note one = finaliseAddress_account [OF Cons.prems, of del a]
  have again: "Option.bind (ov_finalised B del y) (ov_finalised B del) = ov_finalised B del y" for y
    using ov_finalised_again [of B del y] by (cases "ov_finalised B del y") auto
  have "account_at (view B (foldl (finaliseAddress B del) ?t as)) b =
      (if b \<in> set (a # as) \<inter> dom (sdb_stateObjects s) then Option.bind (account_at (view B s) b) (ov_finalised B del)
       else account_at (view B s) b)" for b
    using Cons.IH [OF one(3)] one(1) [of b] by (auto simp: one(4) again)
  with Cons.IH [OF one(3)] one(2,5) show ?case by (auto intro: same_rest_trans)
qed simp

lemma clearJournalAndRefund_view [simp]:
  "view B (clearJournalAndRefund s) = (view B s)\<lparr>sv_refund := (if j_entries (sdb_journal s) = [] then sdb_refund s else 0)\<rparr>"
  "live_ok B (clearJournalAndRefund s) = live_ok B s" "sdb_validRevisions (clearJournalAndRefund s) = []"
  by (simp_all add: clearJournalAndRefund_def Let_def live_ok_def view_def lookup_def)

lemma Finalise_account:
  assumes "live_ok B s"
  shows "account_at (view B (Finalise B s del)) b =
      (if b \<in> finalised_addresses s then Option.bind (account_at (view B s) b) (ov_finalised B del)
       else account_at (view B s) b)"
    and "live_ok B (Finalise B s del)"
    and "same_rest ((view B s)\<lparr>sv_refund := sv_refund (view B (Finalise B s del))\<rparr>) (view B (Finalise B s del))"
    and "sdb_validRevisions (Finalise B s del) = []"
  using finaliseAddresses_account [OF assms, of del "map fst (j_dirties (sdb_journal s))"]
  by (auto simp: Finalise_def finalised_addresses_def account_at_def same_rest_def)

end
