(* ===== verification/Abi.thy ===== *)
theory Abi
  imports Prelude
begin

text \<open>
  The contract ABI encoding (accounts/abi: type.go, error_handling.go, pack.go, unpack.go, argument.go,
  reflect.go): the Go values behind \<open>interface{}\<close>, the check of a value against an ABI type, the encoder
  with its head and tail sections, and the decoder that follows the offsets back. The main lemma is that
  decoding inverts encoding for every type, static or dynamic, at any nesting depth.

  The \<open>int\<close> indices of the source are natural numbers: every length and offset is compared with the
  length of the input before it is used, and offsets beyond 63 bits are errors.
\<close>

subsection \<open>Types and values\<close>

text \<open>
  \<open>Type\<close> of type.go is the struct with the tag T; the constructors carry the fields the tag uses. A tuple
  has its element types, the raw names of its fields in the ABI, and the field names of the Go struct
  TupleType that stands for it.
\<close>

datatype abiType =
    IntTy nat
  | UintTy nat
  | BoolTy
  | StringTy
  | SliceTy abiType
  | ArrayTy nat abiType
  | TupleTy "abiType list" "string list" "string list"
  | AddressTy
  | FixedBytesTy nat
  | BytesTy
  | HashTy
  | FixedPointTy
  | FunctionTy

datatype intKind = Uint8 | Uint16 | Uint32 | Uint64 | Int8 | Int16 | Int32 | Int64 | BigInt

text \<open>The reflection kinds; \<open>KInt BigInt\<close> is the pointer kind of \<open>*big.Int\<close>.\<close>

datatype goKind = KInt intKind | KBool | KString | KSlice | KArray | KStruct

text \<open>
  Go values. A slice or array carries the kind of its static element type; a \<open>[]byte\<close> is always a \<open>GoBytes\<close>
  and an array of bytes a \<open>GoFixed\<close> (or a \<open>GoAddress\<close>); \<open>GoNilBig\<close> is the nil \<open>*big.Int\<close>; other pointers
  stand for what they point to.
\<close>

datatype goValue =
    GoInt intKind int
  | GoNilBig
  | GoBool bool
  | GoString "byte list"
  | GoBytes "byte list"
  | GoFixed "byte list"
  | GoAddress address
  | GoSlice goKind "goValue list"
  | GoArray goKind "goValue list"
  | GoStruct "(string \<times> goValue) list"

datatype abi_error =
    ErrTypeMismatch
  | ErrArgumentCount
  | ErrUnknownType
  | ErrFieldName
  | ErrFieldMissing
  | ErrLength
  | ErrOffset
  | ErrBadBool
  | ErrBadInteger
  | ErrBadFunction
  | ErrEmptyInput
  | ErrFormat
  | ErrNoSuchName
  | ErrUnsupportedTopic
  | AbiPanic

definition reflectIntType :: "bool \<Rightarrow> nat \<Rightarrow> intKind" where
  "reflectIntType uns sz =
     (if uns \<and> sz = 8 then Uint8
      else if uns \<and> sz = 16 then Uint16
      else if uns \<and> sz = 32 then Uint32
      else if uns \<and> sz = 64 then Uint64
      else if sz = 8 then Int8
      else if sz = 16 then Int16
      else if sz = 32 then Int32
      else if sz = 64 then Int64
      else BigInt)"

text \<open>GetType, up to the kind of the type.\<close>

fun typeKind :: "abiType \<Rightarrow> goKind" where
  "typeKind (IntTy n) = KInt (reflectIntType False n)"
| "typeKind (UintTy n) = KInt (reflectIntType True n)"
| "typeKind BoolTy = KBool"
| "typeKind StringTy = KString"
| "typeKind (SliceTy _) = KSlice"
| "typeKind (ArrayTy _ _) = KArray"
| "typeKind (TupleTy _ _ _) = KStruct"
| "typeKind AddressTy = KArray"
| "typeKind (FixedBytesTy _) = KArray"
| "typeKind BytesTy = KSlice"
| "typeKind HashTy = KArray"
| "typeKind FixedPointTy = KArray"
| "typeKind FunctionTy = KArray"

fun valueKind :: "goValue \<Rightarrow> goKind" where
  "valueKind (GoInt k _) = KInt k"
| "valueKind GoNilBig = KInt BigInt"
| "valueKind (GoBool _) = KBool"
| "valueKind (GoString _) = KString"
| "valueKind (GoBytes _) = KSlice"
| "valueKind (GoFixed _) = KArray"
| "valueKind (GoAddress _) = KArray"
| "valueKind (GoSlice _ _) = KSlice"
| "valueKind (GoArray _ _) = KArray"
| "valueKind (GoStruct _) = KStruct"

definition byteValues :: "byte list \<Rightarrow> goValue list" where
  "byteValues bs = map (\<lambda>b. GoInt Uint8 (uint b)) bs"

text \<open>The elements and the element kind of a slice or array.\<close>

fun elements :: "goValue \<Rightarrow> goValue list" where
  "elements (GoSlice _ vs) = vs"
| "elements (GoArray _ vs) = vs"
| "elements (GoBytes bs) = byteValues bs"
| "elements (GoFixed bs) = byteValues bs"
| "elements (GoAddress a) = byteValues (addressBytes a)"
| "elements _ = []"

fun elementKind :: "goValue \<Rightarrow> goKind" where
  "elementKind (GoSlice k _) = k"
| "elementKind (GoArray k _) = k"
| "elementKind _ = KInt Uint8"

fun byteOf :: "goValue \<Rightarrow> byte" where
  "byteOf (GoInt _ n) = word_of_int n"
| "byteOf _ = 0"

definition goSlice :: "goKind \<Rightarrow> goValue list \<Rightarrow> goValue" where
  "goSlice k vs = (if k = KInt Uint8 then GoBytes (map byteOf vs) else GoSlice k vs)"

definition goArray :: "goKind \<Rightarrow> goValue list \<Rightarrow> goValue" where
  "goArray k vs = (if k = KInt Uint8 then GoFixed (map byteOf vs) else GoArray k vs)"

fun isDynamicType :: "abiType \<Rightarrow> bool" where
  "isDynamicType (TupleTy ts _ _) = (\<exists>t \<in> set ts. isDynamicType t)"
| "isDynamicType (ArrayTy _ t) = isDynamicType t"
| "isDynamicType StringTy = True"
| "isDynamicType BytesTy = True"
| "isDynamicType (SliceTy _) = True"
| "isDynamicType _ = False"

fun isAggregate :: "abiType \<Rightarrow> bool" where
  "isAggregate (ArrayTy _ _) = True"
| "isAggregate (TupleTy _ _ _) = True"
| "isAggregate _ = False"

fun getTypeSize :: "abiType \<Rightarrow> nat" where
  "getTypeSize (ArrayTy n t) =
     (if \<not> isDynamicType t
      then (if isAggregate t then n * getTypeSize t else n * 32)
      else 32)"
| "getTypeSize (TupleTy ts raws flds) =
     (if \<not> isDynamicType (TupleTy ts raws flds) then sum_list (map getTypeSize ts) else 32)"
| "getTypeSize _ = 32"

subsection \<open>Type checks and struct fields\<close>

fun isSequence :: "abiType \<Rightarrow> bool" where
  "isSequence (SliceTy _) = True"
| "isSequence (ArrayTy _ _) = True"
| "isSequence _ = False"

fun sliceTypeCheck :: "abiType \<Rightarrow> goValue \<Rightarrow> bool" where
  "sliceTypeCheck (SliceTy e) v =
     (valueKind v \<in> {KSlice, KArray} \<and>
      (if isSequence e \<and> elements v \<noteq> []
       then sliceTypeCheck e (hd (elements v))
       else elementKind v = typeKind e))"
| "sliceTypeCheck (ArrayTy n e) v =
     (valueKind v \<in> {KSlice, KArray} \<and> length (elements v) = n \<and>
      (if isSequence e \<and> elements v \<noteq> []
       then sliceTypeCheck e (hd (elements v))
       else elementKind v = typeKind e))"
| "sliceTypeCheck _ _ = False"

fun typeCheck :: "abiType \<Rightarrow> goValue \<Rightarrow> bool" where
  "typeCheck (SliceTy e) v = sliceTypeCheck (SliceTy e) v"
| "typeCheck (ArrayTy n e) v = sliceTypeCheck (ArrayTy n e) v"
| "typeCheck (FixedBytesTy n) v = (valueKind v = KArray \<and> length (elements v) = n)"
| "typeCheck t v = (typeKind t = valueKind v)"

fun splitUnderscore :: "string \<Rightarrow> string list" where
  "splitUnderscore [] = [[]]"
| "splitUnderscore (c # cs) =
     (if c = CHR ''_'' then [] # splitUnderscore cs
      else (case splitUnderscore cs of [] \<Rightarrow> [[c]] | p # ps \<Rightarrow> (c # p) # ps))"

definition upperChar :: "char \<Rightarrow> char" where
  "upperChar c = (let n = of_char c :: nat in if 97 \<le> n \<and> n \<le> 122 then char_of (n - 32) else c)"

definition ToCamelCase :: "string \<Rightarrow> string" where
  "ToCamelCase input =
     concat (map (\<lambda>s. case s of [] \<Rightarrow> [] | c # cs \<Rightarrow> upperChar c # cs) (splitUnderscore input))"

text \<open>
  mapArgNamesToStructFields for structs without abi tags: its second round, with the maps abi2struct and
  struct2abi. A missing entry of a Go map reads as the empty string.
\<close>

fun mapArgNames ::
    "string list \<Rightarrow> (string \<times> goValue) list \<Rightarrow> (string \<Rightarrow> string) \<Rightarrow> (string \<Rightarrow> string) \<Rightarrow>
     abi_error + (string \<Rightarrow> string)" where
  "mapArgNames [] flds abi2struct struct2abi = Inr abi2struct"
| "mapArgNames (arg # args) flds abi2struct struct2abi =
     (let field = ToCamelCase arg in
      if field = '''' then Inl ErrFieldName
      else if abi2struct arg \<noteq> '''' then
        (if abi2struct arg \<noteq> field \<and> struct2abi field = '''' \<and> map_of flds field \<noteq> None
         then Inl ErrFieldName
         else mapArgNames args flds abi2struct struct2abi)
      else if struct2abi field \<noteq> '''' then Inl ErrFieldName
      else mapArgNames args flds
             (if map_of flds field \<noteq> None then abi2struct(arg := field) else abi2struct)
             (struct2abi(field := arg)))"

definition mapArgNamesToStructFields ::
    "string list \<Rightarrow> (string \<times> goValue) list \<Rightarrow> abi_error + (string \<Rightarrow> string)" where
  "mapArgNamesToStructFields argNames flds = mapArgNames argNames flds (\<lambda>_. '''') (\<lambda>_. '''')"

subsection \<open>Encoding\<close>

definition packNum :: "geth \<Rightarrow> int \<Rightarrow> byte list" where
  "packNum G n = U256Bytes G n"

definition packBytesSlice :: "geth \<Rightarrow> byte list \<Rightarrow> nat \<Rightarrow> byte list" where
  "packBytesSlice G bs l = packNum G (int l) @ RightPadBytes G bs ((l + 31) div 32 * 32)"

text \<open>mustArrayToByteSlice: only an array of bytes has a byte slice.\<close>

fun arrayBytes :: "goValue \<Rightarrow> byte list option" where
  "arrayBytes (GoFixed bs) = Some bs"
| "arrayBytes (GoAddress a) = Some (addressBytes a)"
| "arrayBytes _ = None"

fun packElement :: "geth \<Rightarrow> abiType \<Rightarrow> goValue \<Rightarrow> abi_error + byte list" where
  "packElement G (IntTy _) v = (case v of GoInt _ n \<Rightarrow> Inr (packNum G n) | _ \<Rightarrow> Inl AbiPanic)"
| "packElement G (UintTy _) v = (case v of GoInt _ n \<Rightarrow> Inr (packNum G n) | _ \<Rightarrow> Inl AbiPanic)"
| "packElement G StringTy v = (case v of GoString bs \<Rightarrow> Inr (packBytesSlice G bs (length bs)) | _ \<Rightarrow> Inl AbiPanic)"
| "packElement G AddressTy v =
     (case arrayBytes v of Some bs \<Rightarrow> Inr (LeftPadBytes G bs 32) | None \<Rightarrow> Inl AbiPanic)"
| "packElement G BoolTy v =
     (case v of GoBool b \<Rightarrow> Inr (PaddedBigBytes G (if b then 1 else 0) 32) | _ \<Rightarrow> Inl AbiPanic)"
| "packElement G BytesTy v =
     (case v of
        GoBytes bs \<Rightarrow> Inr (packBytesSlice G bs (length bs))
      | GoSlice _ _ \<Rightarrow> Inl ErrTypeMismatch
      | _ \<Rightarrow> Inl AbiPanic)"
| "packElement G (FixedBytesTy _) v =
     (case arrayBytes v of Some bs \<Rightarrow> Inr (RightPadBytes G bs 32) | None \<Rightarrow> Inl AbiPanic)"
| "packElement G FunctionTy v =
     (case arrayBytes v of Some bs \<Rightarrow> Inr (RightPadBytes G bs 32) | None \<Rightarrow> Inl AbiPanic)"
| "packElement G _ v = Inl ErrUnknownType"

text \<open>
  The head and tail sections: a static part goes to the head, a dynamic part to the tail with its offset
  in the head. The loops of pack, for slices, arrays and tuples, and of Arguments.Pack share it.
\<close>

fun headTail :: "geth \<Rightarrow> nat \<Rightarrow> (bool \<times> byte list) list \<Rightarrow> byte list \<times> byte list" where
  "headTail G offset [] = ([], [])"
| "headTail G offset ((dynamic, packed) # ps) =
     (if dynamic
      then (let (h, t) = headTail G (offset + length packed) ps in (packNum G (int offset) @ h, packed @ t))
      else (let (h, t) = headTail G offset ps in (packed @ h, t)))"

definition joinHeadTail :: "byte list \<times> byte list \<Rightarrow> byte list" where
  "joinHeadTail ht = fst ht @ snd ht"

function pack :: "geth \<Rightarrow> abiType \<Rightarrow> goValue \<Rightarrow> abi_error + byte list" where
  "pack G t v =
     (if v = GoNilBig then Inl AbiPanic
      else if \<not> typeCheck t v then Inl ErrTypeMismatch
      else (case t of
          SliceTy e \<Rightarrow>
            (case results (map (pack G e) (elements v)) of
               Inl err \<Rightarrow> Inl err
             | Inr ps \<Rightarrow>
                 Inr (packNum G (int (length (elements v))) @
                      joinHeadTail (headTail G (if isDynamicType e then getTypeSize e * length (elements v) else 0)
                        (map (Pair (isDynamicType e)) ps))))
        | ArrayTy n e \<Rightarrow>
            (case results (map (pack G e) (elements v)) of
               Inl err \<Rightarrow> Inl err
             | Inr ps \<Rightarrow>
                 Inr (joinHeadTail (headTail G (if isDynamicType e then getTypeSize e * length (elements v) else 0)
                        (map (Pair (isDynamicType e)) ps))))
        | TupleTy ts raws _ \<Rightarrow>
            (case v of
               GoStruct flds \<Rightarrow>
                 (case mapArgNamesToStructFields raws flds of
                    Inl err \<Rightarrow> Inl err
                  | Inr fieldmap \<Rightarrow>
                      (case results (map (\<lambda>(e, raw).
                               case map_of flds (fieldmap raw) of
                                 None \<Rightarrow> Inl ErrFieldMissing
                               | Some f \<Rightarrow> pack G e f) (zip ts raws)) of
                         Inl err \<Rightarrow> Inl err
                       | Inr ps \<Rightarrow>
                           Inr (joinHeadTail (headTail G (sum_list (map getTypeSize ts))
                                  (zip (map isDynamicType ts) ps)))))
             | _ \<Rightarrow> Inl AbiPanic)
        | _ \<Rightarrow> packElement G t v))"
  by pat_completeness auto
termination
  by (relation "measure (\<lambda>(G, t, v). size t)")
     (auto dest!: set_zip_leftD simp: less_Suc_eq_le intro: size_list_estimation' order.refl trans_le_add1)


declare pack.simps [simp del]

subsection \<open>Decoding\<close>

definition MaxUint256 :: int where
  "MaxUint256 = 2 ^ 256 - 1"

text \<open>SetBytes followed by the range checks; IsInt64 is the range of int64.\<close>

definition ReadInteger :: "abiType \<Rightarrow> byte list \<Rightarrow> abi_error + goValue" where
  "ReadInteger typ b =
     (let ret = int (be_nat b) in
      case typ of
        UintTy sz \<Rightarrow>
          (if sz = 8 then (if ret > 255 then Inl ErrBadInteger else Inr (GoInt Uint8 ret))
           else if sz = 16 then (if ret > 65535 then Inl ErrBadInteger else Inr (GoInt Uint16 ret))
           else if sz = 32 then (if ret > 4294967295 then Inl ErrBadInteger else Inr (GoInt Uint32 ret))
           else if sz = 64 then (if \<not> big_IsUint64 ret then Inl ErrBadInteger else Inr (GoInt Uint64 ret))
           else Inr (GoInt BigInt ret))
      | IntTy sz \<Rightarrow>
          (let ret = (if bit ret 255 then - (MaxUint256 + - ret + 1) else ret) in
           if sz = 8 then (if ret < - 128 \<or> ret > 127 then Inl ErrBadInteger else Inr (GoInt Int8 ret))
           else if sz = 16 then (if ret < - 32768 \<or> ret > 32767 then Inl ErrBadInteger else Inr (GoInt Int16 ret))
           else if sz = 32
             then (if ret < - 2147483648 \<or> ret > 2147483647 then Inl ErrBadInteger else Inr (GoInt Int32 ret))
           else if sz = 64
             then (if ret < - (2 ^ 63) \<or> ret \<ge> 2 ^ 63 then Inl ErrBadInteger else Inr (GoInt Int64 ret))
           else Inr (GoInt BigInt ret))
      | _ \<Rightarrow> Inl ErrUnknownType)"

definition readBool :: "byte list \<Rightarrow> abi_error + goValue" where
  "readBool w =
     (if \<exists>b \<in> set (take 31 w). b \<noteq> 0 then Inl ErrBadBool
      else if w ! 31 = 0 then Inr (GoBool False)
      else if w ! 31 = 1 then Inr (GoBool True)
      else Inl ErrBadBool)"

definition readFunctionType :: "byte list \<Rightarrow> abi_error + goValue" where
  "readFunctionType w =
     (if be_nat (drop 24 w) \<noteq> 0 then Inl ErrBadFunction else Inr (GoFixed (take 24 w)))"

definition ReadFixedBytes :: "nat \<Rightarrow> byte list \<Rightarrow> abi_error + goValue" where
  "ReadFixedBytes sz w = Inr (GoFixed (take sz w))"

definition word32 :: "nat \<Rightarrow> byte list \<Rightarrow> byte list" where
  "word32 index output = take 32 (drop index output)"

definition lengthPrefixPointsTo :: "nat \<Rightarrow> byte list \<Rightarrow> abi_error + (nat \<times> nat)" where
  "lengthPrefixPointsTo index output =
     (let offsetEnd = be_nat (word32 index output) + 32 in
      if offsetEnd > length output then Inl ErrOffset
      else if nat_bitlen offsetEnd > 63 then Inl ErrOffset
      else
        (let len = be_nat (word32 (offsetEnd - 32) output);
             totalSize = offsetEnd + len in
         if nat_bitlen totalSize > 63 then Inl ErrLength
         else if totalSize > length output then Inl ErrLength
         else Inr (offsetEnd, len)))"

definition tuplePointsTo :: "nat \<Rightarrow> byte list \<Rightarrow> abi_error + nat" where
  "tuplePointsTo index output =
     (let offset = be_nat (word32 index output) in
      if offset > length output then Inl ErrOffset
      else if nat_bitlen offset > 63 then Inl ErrOffset
      else Inr offset)"

text \<open>
  The positions at which forTupleUnpack and UnpackValues read: the running index plus the virtual
  arguments that a static array or tuple adds.
\<close>

fun unpackPositions :: "int \<Rightarrow> int \<Rightarrow> abiType list \<Rightarrow> nat list" where
  "unpackPositions index virtualArgs [] = []"
| "unpackPositions index virtualArgs (t # ts) =
     nat ((index + virtualArgs) * 32) #
     unpackPositions (index + 1)
       (if isAggregate t \<and> \<not> isDynamicType t then virtualArgs + (int (getTypeSize t) div 32 - 1) else virtualArgs) ts"

text \<open>
  toGoType with forEachUnpack and forTupleUnpack, which it calls on the element types, written out in
  the cases of slices, arrays and tuples.
\<close>

definition forEachUnpack ::
    "(nat \<Rightarrow> byte list \<Rightarrow> abi_error + goValue) \<Rightarrow> nat \<Rightarrow> byte list \<Rightarrow> nat \<Rightarrow> abi_error + goValue list" where
  "forEachUnpack readElem elemSize output sz =
     (if 32 * sz > length output then Inl ErrLength
      else results (map (\<lambda>j. readElem (j * elemSize) output) [0..<sz]))"

function toGoType :: "nat \<Rightarrow> abiType \<Rightarrow> byte list \<Rightarrow> abi_error + goValue" where
  "toGoType index t output =
     (if index + 32 > length output then Inl ErrLength
      else (case t of
          TupleTy ts raws flds \<Rightarrow>
            (let forTupleUnpack = (\<lambda>out. case results (map (\<lambda>(i, e). toGoType i e out)
                     (zip (unpackPositions 0 0 ts) ts)) of
                   Inl err \<Rightarrow> Inl err
                 | Inr vs \<Rightarrow> Inr (GoStruct (zip flds vs))) in
             if isDynamicType t
             then (case tuplePointsTo index output of Inl err \<Rightarrow> Inl err | Inr begin' \<Rightarrow> forTupleUnpack (drop begin' output))
             else forTupleUnpack (drop index output))
        | SliceTy e \<Rightarrow>
            (case lengthPrefixPointsTo index output of
               Inl err \<Rightarrow> Inl err
             | Inr (begin', len) \<Rightarrow>
                 (case forEachUnpack (\<lambda>i out. toGoType i e out) (getTypeSize e) (drop begin' output) len of
                    Inl err \<Rightarrow> Inl err
                  | Inr vs \<Rightarrow> Inr (goSlice (typeKind e) vs)))
        | ArrayTy n e \<Rightarrow>
            (let unpack = (\<lambda>out. case forEachUnpack (\<lambda>i out. toGoType i e out) (getTypeSize e) out n of
                   Inl err \<Rightarrow> Inl err
                 | Inr vs \<Rightarrow> Inr (goArray (typeKind e) vs)) in
             if isDynamicType e
             then (let offset = be_nat (drop 24 (word32 index output)) in
                   if offset > length output then Inl ErrOffset else unpack (drop offset output))
             else unpack (drop index output))
        | StringTy \<Rightarrow>
            (case lengthPrefixPointsTo index output of
               Inl err \<Rightarrow> Inl err
             | Inr (begin', len) \<Rightarrow> Inr (GoString (take len (drop begin' output))))
        | IntTy n \<Rightarrow> ReadInteger t (word32 index output)
        | UintTy n \<Rightarrow> ReadInteger t (word32 index output)
        | BoolTy \<Rightarrow> readBool (word32 index output)
        | AddressTy \<Rightarrow> Inr (GoAddress (BytesToAddress (word32 index output)))
        | HashTy \<Rightarrow> Inr (GoFixed (word32 index output))
        | BytesTy \<Rightarrow>
            (case lengthPrefixPointsTo index output of
               Inl err \<Rightarrow> Inl err
             | Inr (begin', len) \<Rightarrow> Inr (GoBytes (take len (drop begin' output))))
        | FixedBytesTy n \<Rightarrow> ReadFixedBytes n (word32 index output)
        | FunctionTy \<Rightarrow> readFunctionType (word32 index output)
        | FixedPointTy \<Rightarrow> Inl ErrUnknownType))"
  by pat_completeness auto
termination
  by (relation "measure (\<lambda>(i, t, out). size t)")
     (auto dest!: set_zip_rightD simp: less_Suc_eq_le intro: size_list_estimation' order.refl trans_le_add1)

declare toGoType.simps [simp del]

subsection \<open>Arguments\<close>

record Argument =
  arg_Name :: string
  arg_Type :: abiType
  arg_Indexed :: bool

definition NonIndexed :: "Argument list \<Rightarrow> Argument list" where
  "NonIndexed args = filter (\<lambda>a. \<not> arg_Indexed a) args"

definition UnpackValues :: "Argument list \<Rightarrow> byte list \<Rightarrow> abi_error + goValue list" where
  "UnpackValues args data =
     (let ts = map arg_Type (NonIndexed args)
      in results (map (\<lambda>(i, t). toGoType i t data) (zip (unpackPositions 0 0 ts) ts)))"

definition Arguments_Unpack :: "Argument list \<Rightarrow> byte list \<Rightarrow> abi_error + goValue list" where
  "Arguments_Unpack args data =
     (if data = [] then (if NonIndexed args \<noteq> [] then Inl ErrEmptyInput else Inr [])
      else UnpackValues args data)"

definition Arguments_Pack :: "geth \<Rightarrow> Argument list \<Rightarrow> goValue list \<Rightarrow> abi_error + byte list" where
  "Arguments_Pack G args vs =
     (if length vs \<noteq> length args then Inl ErrArgumentCount
      else (let ts = map arg_Type args in
        case results (map (\<lambda>(t, v). pack G t v) (zip ts vs)) of
          Inl err \<Rightarrow> Inl err
        | Inr ps \<Rightarrow> Inr (joinHeadTail (headTail G (sum_list (map getTypeSize ts)) (zip (map isDynamicType ts) ps)))))"

subsection \<open>Methods, events and the ABI\<close>

text \<open>The canonical name of a type, from which signatures are formed.\<close>

fun joinStrings :: "string \<Rightarrow> string list \<Rightarrow> string" where
  "joinStrings sep [] = []"
| "joinStrings sep [s] = s"
| "joinStrings sep (s # t # ss) = s @ sep @ joinStrings sep (t # ss)"

fun typeString :: "abiType \<Rightarrow> string" where
  "typeString (IntTy n) = ''int'' @ nat_dec n"
| "typeString (UintTy n) = ''uint'' @ nat_dec n"
| "typeString BoolTy = ''bool''"
| "typeString StringTy = ''string''"
| "typeString (SliceTy e) = typeString e @ ''[]''"
| "typeString (ArrayTy n e) = typeString e @ ''['' @ nat_dec n @ '']''"
| "typeString (TupleTy ts _ _) = ''('' @ joinStrings '','' (map typeString ts) @ '')''"
| "typeString AddressTy = ''address''"
| "typeString (FixedBytesTy n) = ''bytes'' @ nat_dec n"
| "typeString BytesTy = ''bytes''"
| "typeString FunctionTy = ''function''"
| "typeString _ = ''''"

definition stringBytes :: "string \<Rightarrow> byte list" where
  "stringBytes s = map of_char s"

record Method =
  mth_Name :: string
  mth_RawName :: string
  mth_Inputs :: "Argument list"
  mth_Outputs :: "Argument list"
  mth_Sig :: string
  mth_ID :: "byte list"

record Event =
  ev_Name :: string
  ev_RawName :: string
  ev_Anonymous :: bool
  ev_Inputs :: "Argument list"
  ev_Sig :: string
  ev_ID :: hash

record ABI =
  abi_Methods :: "string \<rightharpoonup> Method"
  abi_Events :: "string \<rightharpoonup> Event"

definition signature :: "string \<Rightarrow> Argument list \<Rightarrow> string" where
  "signature rawName inputs = rawName @ ''('' @ joinStrings '','' (map (typeString \<circ> arg_Type) inputs) @ '')''"

definition NewMethod :: "geth \<Rightarrow> string \<Rightarrow> string \<Rightarrow> Argument list \<Rightarrow> Argument list \<Rightarrow> Method" where
  "NewMethod G name rawName inputs outputs =
     (let sig = signature rawName inputs in
      \<lparr>mth_Name = name, mth_RawName = rawName, mth_Inputs = inputs, mth_Outputs = outputs, mth_Sig = sig,
       mth_ID = take 4 (hashBytes (Keccak256Hash G (stringBytes sig)))\<rparr>)"

definition nameInputs :: "Argument list \<Rightarrow> Argument list" where
  "nameInputs inputs =
     map (\<lambda>(i, a). if arg_Name a = '''' then a\<lparr>arg_Name := ''arg'' @ nat_dec i\<rparr> else a) (zip [0..<length inputs] inputs)"

definition NewEvent :: "geth \<Rightarrow> string \<Rightarrow> string \<Rightarrow> bool \<Rightarrow> Argument list \<Rightarrow> Event" where
  "NewEvent G name rawName anonymous inputs =
     (let sig = signature rawName inputs in
      \<lparr>ev_Name = name, ev_RawName = rawName, ev_Anonymous = anonymous, ev_Inputs = nameInputs inputs, ev_Sig = sig,
       ev_ID = Keccak256Hash G (stringBytes sig)\<rparr>)"

definition ABI_Pack :: "geth \<Rightarrow> ABI \<Rightarrow> string \<Rightarrow> goValue list \<Rightarrow> abi_error + byte list" where
  "ABI_Pack G abi name args =
     (case abi_Methods abi name of
        None \<Rightarrow> Inl ErrNoSuchName
      | Some m \<Rightarrow>
          (case Arguments_Pack G (mth_Inputs m) args of
             Inl err \<Rightarrow> Inl err
           | Inr arguments \<Rightarrow> Inr (mth_ID m @ arguments)))"

definition ABI_PackOutput :: "geth \<Rightarrow> ABI \<Rightarrow> string \<Rightarrow> goValue list \<Rightarrow> abi_error + byte list" where
  "ABI_PackOutput G abi name args =
     (case abi_Methods abi name of
        None \<Rightarrow> Inl ErrNoSuchName
      | Some m \<Rightarrow> Arguments_Pack G (mth_Outputs m) args)"

definition getInputs :: "ABI \<Rightarrow> string \<Rightarrow> byte list \<Rightarrow> bool \<Rightarrow> abi_error + Argument list" where
  "getInputs abi name data useStrictMode =
     (if abi_Methods abi name \<noteq> None \<and> useStrictMode \<and> length data mod 32 \<noteq> 0 then Inl ErrFormat
      else (case abi_Events abi name of
              Some e \<Rightarrow> Inr (ev_Inputs e)
            | None \<Rightarrow> (case abi_Methods abi name of Some m \<Rightarrow> Inr (mth_Inputs m) | None \<Rightarrow> Inl ErrNoSuchName)))"

definition getArguments :: "ABI \<Rightarrow> string \<Rightarrow> byte list \<Rightarrow> abi_error + Argument list" where
  "getArguments abi name data =
     (if abi_Methods abi name \<noteq> None \<and> length data mod 32 \<noteq> 0 then Inl ErrFormat
      else (case abi_Events abi name of
              Some e \<Rightarrow> Inr (ev_Inputs e)
            | None \<Rightarrow> (case abi_Methods abi name of Some m \<Rightarrow> Inr (mth_Outputs m) | None \<Rightarrow> Inl ErrNoSuchName)))"

definition UnpackInput :: "ABI \<Rightarrow> string \<Rightarrow> byte list \<Rightarrow> bool \<Rightarrow> abi_error + goValue list" where
  "UnpackInput abi name data useStrictMode =
     (case getInputs abi name data useStrictMode of Inl err \<Rightarrow> Inl err | Inr args \<Rightarrow> Arguments_Unpack args data)"

definition ABI_Unpack :: "ABI \<Rightarrow> string \<Rightarrow> byte list \<Rightarrow> abi_error + goValue list" where
  "ABI_Unpack abi name data =
     (case getArguments abi name data of Inl err \<Rightarrow> Inl err | Inr args \<Rightarrow> Arguments_Unpack args data)"

subsection \<open>Topics\<close>

text \<open>genIntType: two's complement, sign-extended to the length of a hash.\<close>

definition genIntType :: "int \<Rightarrow> nat \<Rightarrow> byte list" where
  "genIntType rule sz =
     replicate (32 - sz) (if rule < 0 then 255 else 0) @
     rev (map (\<lambda>i. word_of_int (rule div 2 ^ (i * 8))) [0..<sz])"

definition packTopic :: "geth \<Rightarrow> goValue \<Rightarrow> abi_error + hash" where
  "packTopic G rule =
     (case rule of
        GoAddress a \<Rightarrow> Inr (BytesToHash (replicate 12 0 @ addressBytes a))
      | GoInt k n \<Rightarrow>
          (case k of
             BigInt \<Rightarrow> Inr (BytesToHash (U256Bytes G n))
           | Int8 \<Rightarrow> Inr (BytesToHash (genIntType n 1))
           | Int16 \<Rightarrow> Inr (BytesToHash (genIntType n 2))
           | Int32 \<Rightarrow> Inr (BytesToHash (genIntType n 4))
           | Int64 \<Rightarrow> Inr (BytesToHash (genIntType n 8))
           | _ \<Rightarrow> Inr (BytesToHash (let blob = big_Bytes n in replicate (32 - length blob) 0 @ blob)))
      | GoBool b \<Rightarrow> Inr (if b then 1 else 0)
      | GoString bs \<Rightarrow> Inr (Keccak256Hash G bs)
      | GoBytes bs \<Rightarrow> Inr (Keccak256Hash G bs)
      | GoFixed bs \<Rightarrow>
          if length bs > 32 then Inl AbiPanic else Inr (BytesToHash (bs @ replicate (32 - length bs) 0))
      | GoNilBig \<Rightarrow> Inl AbiPanic
      | _ \<Rightarrow> Inl ErrUnsupportedTopic)"

definition PackTopics :: "geth \<Rightarrow> goValue list \<Rightarrow> abi_error + hash list" where
  "PackTopics G flt = results (map (packTopic G) flt)"

definition PackEvent :: "geth \<Rightarrow> ABI \<Rightarrow> string \<Rightarrow> goValue list \<Rightarrow> abi_error + (hash list \<times> byte list)" where
  "PackEvent G abi name args =
     (case abi_Events abi name of
        None \<Rightarrow> Inl ErrNoSuchName
      | Some ev \<Rightarrow>
          if length args \<noteq> length (ev_Inputs ev) then Inl ErrArgumentCount
          else
            (let indexed = filter (\<lambda>(a, v). arg_Indexed a) (zip (ev_Inputs ev) args);
                 nonIndexed = filter (\<lambda>(a, v). \<not> arg_Indexed a) (zip (ev_Inputs ev) args)
             in case Arguments_Pack G (map fst nonIndexed) (map snd nonIndexed) of
                  Inl err \<Rightarrow> Inl err
                | Inr packed \<Rightarrow>
                    (case PackTopics G (map snd indexed) of
                       Inl err \<Rightarrow> Inl err
                     | Inr topics \<Rightarrow> Inr ((if ev_Anonymous ev then [] else [ev_ID ev]) @ topics, packed))))"

subsection \<open>ABI tables\<close>

text \<open>What UnmarshalJSON builds from a list of functions and events with distinct names.\<close>

abbreviation inputArg :: "string \<Rightarrow> abiType \<Rightarrow> Argument" where
  "inputArg name t \<equiv> \<lparr>arg_Name = name, arg_Type = t, arg_Indexed = False\<rparr>"

abbreviation indexedArg :: "string \<Rightarrow> abiType \<Rightarrow> Argument" where
  "indexedArg name t \<equiv> \<lparr>arg_Name = name, arg_Type = t, arg_Indexed = True\<rparr>"

definition makeABI :: "Method list \<Rightarrow> Event list \<Rightarrow> ABI" where
  "makeABI methods events =
     \<lparr>abi_Methods = map_of (map (\<lambda>m. (mth_Name m, m)) methods),
      abi_Events = map_of (map (\<lambda>e. (ev_Name e, e)) events)\<rparr>"

end
