(* ===== verification/Contract.thy ===== *)
theory Contract
  imports Abi AllowListConfig PredicateBytes
begin

text \<open>
  The framework of stateful precompiles (precompile/contract): the interface of the world state a
  precompile sees, the functions with their selectors and activation, dispatch, and gas deduction. The
  locale \<open>contract_state\<close> is the contract of that interface: what every method does to the state as a
  precompile can observe it.
\<close>

subsection \<open>The interfaces\<close>

text \<open>
  StateDB of interfaces.go, a method per field. A getter also returns the state, because reading can fill
  the caches of the implementation.
\<close>

record 's contractState =
  cs_GetState :: "'s \<Rightarrow> address \<Rightarrow> hash \<Rightarrow> hash \<times> 's"
  cs_SetState :: "'s \<Rightarrow> address \<Rightarrow> hash \<Rightarrow> hash \<Rightarrow> 's"
  cs_GetNonce :: "'s \<Rightarrow> address \<Rightarrow> u64 \<times> 's"
  cs_SetNonce :: "'s \<Rightarrow> address \<Rightarrow> u64 \<Rightarrow> 's"
  cs_GetBalance :: "'s \<Rightarrow> address \<Rightarrow> u256 \<times> 's"
  cs_AddBalance :: "'s \<Rightarrow> address \<Rightarrow> u256 \<Rightarrow> 's"
  cs_CreateAccount :: "'s \<Rightarrow> address \<Rightarrow> 's"
  cs_Exist :: "'s \<Rightarrow> address \<Rightarrow> bool \<times> 's"
  cs_AddLog :: "'s \<Rightarrow> address \<Rightarrow> hash list \<Rightarrow> byte list \<Rightarrow> u64 \<Rightarrow> 's"
  cs_GetPredicateStorageSlots :: "'s \<Rightarrow> address \<Rightarrow> nat \<Rightarrow> byte list option"
  cs_GetTxHash :: "'s \<Rightarrow> hash"

text \<open>
  ConfigurationBlockContext, and the AccessibleState of a call: the chain configuration, the block context and
  the network and chain that snow.Context identifies. The number of a block being executed is never nil.
\<close>

record configBlockContext =
  bc_Number :: "int option"
  bc_Timestamp :: u64

record snowContext =
  snow_NetworkID :: "32 word"
  snow_ChainID :: hash

record accessibleState =
  as_ChainConfig :: ChainConfigView
  as_Number :: int
  as_Timestamp :: u64
  as_GetPredicateResults :: "hash \<Rightarrow> address \<Rightarrow> byte list"
  as_SnowContext :: snowContext

definition as_BlockContext :: "accessibleState \<Rightarrow> configBlockContext" where
  "as_BlockContext E = \<lparr>bc_Number = Some (as_Number E), bc_Timestamp = as_Timestamp E\<rparr>"

datatype run_error =
    ErrOutOfGas
  | ErrWriteProtection
  | ErrMissingSelector nat
  | ErrInvalidSelector "byte list"
  | ErrNotActivated "byte list"
  | ErrAbi abi_error
  | ErrRole role_error
  | ErrInvalidLen nat
  | ErrCannotModifyAllowList address Role Role
  | ErrCannotChangeFee address
  | ErrFeeConfig fee_error
  | ErrNilBlockNumber
  | ErrCannotMint address
  | ErrCannotAllowFeeRecipients address
  | ErrCannotDisableRewards address
  | ErrCannotSetRewardAddress address
  | ErrEmptyRewardAddress
  | ErrInvalidSendInput abi_error
  | ErrInvalidIndexInput "abi_error option"
  | ErrInvalidPredicateBytes predicate_error
  | ErrInvalidWarpMsg string
  | ErrInvalidAddressedPayload string
  | ErrInvalidBlockHashPayload string
  | ErrAvalanche string

text \<open>The results of a call: returned bytes, remaining gas, error, and the state.\<close>

type_synonym 's runResult = "byte list \<times> u64 \<times> run_error option \<times> 's"

text \<open>RunStatefulPrecompileFunc: accessible state, state, caller, address, input, supplied gas, read-only flag.\<close>

type_synonym 's runFunc =
  "accessibleState \<Rightarrow> 's \<Rightarrow> address \<Rightarrow> address \<Rightarrow> byte list \<Rightarrow> u64 \<Rightarrow> bool \<Rightarrow> 's runResult"

subsection \<open>Gas and activation\<close>

definition SelectorLen :: nat where "SelectorLen = 4"
definition WriteGasCostPerSlot :: u64 where "WriteGasCostPerSlot = 20000"
definition ReadGasCostPerSlot :: u64 where "ReadGasCostPerSlot = 5000"
definition LogGas :: u64 where "LogGas = 375"
definition LogTopicGas :: u64 where "LogTopicGas = 375"
definition LogDataGas :: u64 where "LogDataGas = 8"

lemmas gas_cost_defs =
  WriteGasCostPerSlot_def ReadGasCostPerSlot_def LogGas_def LogTopicGas_def LogDataGas_def

definition DeductGas :: "u64 \<Rightarrow> u64 \<Rightarrow> run_error + u64" where
  "DeductGas suppliedGas requiredGas =
     (if suppliedGas < requiredGas then Inl ErrOutOfGas else Inr (suppliedGas - requiredGas))"

definition IsDurangoActivated :: "accessibleState \<Rightarrow> bool" where
  "IsDurangoActivated E = ccv_IsDurango (as_ChainConfig E) (as_Timestamp E)"

subsection \<open>Functions and contracts\<close>

record 's StatefulPrecompileFunction =
  pf_selector :: "byte list"
  pf_execute :: "'s runFunc"
  pf_activation :: "(accessibleState \<Rightarrow> bool) option"

definition IsActivated :: "'s StatefulPrecompileFunction \<Rightarrow> accessibleState \<Rightarrow> bool" where
  "IsActivated f E = (case pf_activation f of None \<Rightarrow> True | Some act \<Rightarrow> act E)"

definition NewStatefulPrecompileFunction :: "byte list \<Rightarrow> 's runFunc \<Rightarrow> 's StatefulPrecompileFunction" where
  "NewStatefulPrecompileFunction selector execute =
     \<lparr>pf_selector = selector, pf_execute = execute, pf_activation = None\<rparr>"

definition NewStatefulPrecompileFunctionWithActivator ::
    "byte list \<Rightarrow> 's runFunc \<Rightarrow> (accessibleState \<Rightarrow> bool) \<Rightarrow> 's StatefulPrecompileFunction" where
  "NewStatefulPrecompileFunctionWithActivator selector execute activation =
     \<lparr>pf_selector = selector, pf_execute = execute, pf_activation = Some activation\<rparr>"

record 's precompileContract =
  pc_fallback :: "'s runFunc option"
  pc_functions :: "byte list \<rightharpoonup> 's StatefulPrecompileFunction"

datatype contract_error = DuplicateSelector "byte list"

fun addFunctions ::
    "'s StatefulPrecompileFunction list \<Rightarrow> (byte list \<rightharpoonup> 's StatefulPrecompileFunction) \<Rightarrow>
     contract_error + (byte list \<rightharpoonup> 's StatefulPrecompileFunction)" where
  "addFunctions [] m = Inr m"
| "addFunctions (f # fs) m =
     (if m (pf_selector f) \<noteq> None then Inl (DuplicateSelector (pf_selector f))
      else addFunctions fs (m(pf_selector f \<mapsto> f)))"

definition NewStatefulPrecompileContract ::
    "'s runFunc option \<Rightarrow> 's StatefulPrecompileFunction list \<Rightarrow> contract_error + 's precompileContract" where
  "NewStatefulPrecompileContract fallback functions =
     (case addFunctions functions (\<lambda>_. None) of
        Inl e \<Rightarrow> Inl e
      | Inr m \<Rightarrow> Inr \<lparr>pc_fallback = fallback, pc_functions = m\<rparr>)"

definition Contract_Run :: "'s precompileContract \<Rightarrow> 's runFunc" where
  "Contract_Run c E s caller addr input suppliedGas readOnly =
     (case (pc_fallback c, input) of
        (Some fallback, []) \<Rightarrow> fallback E s caller addr [] suppliedGas readOnly
      | _ \<Rightarrow>
          if length input < SelectorLen then ([], suppliedGas, Some (ErrMissingSelector (length input)), s)
          else
            (let selector = take SelectorLen input;
                 functionInput = drop SelectorLen input in
             case pc_functions c selector of
               None \<Rightarrow> ([], suppliedGas, Some (ErrInvalidSelector selector), s)
             | Some f \<Rightarrow>
                 if \<not> IsActivated f E then ([], suppliedGas, Some (ErrNotActivated selector), s)
                 else pf_execute f E s caller addr functionInput suppliedGas readOnly))"

subsection \<open>The contract of the state interface\<close>

text \<open>What a precompile can observe of the state.\<close>

record stateObs =
  ob_slot :: "address \<Rightarrow> hash \<Rightarrow> hash"
  ob_nonce :: "address \<Rightarrow> u64"
  ob_balance :: "address \<Rightarrow> u256"
  ob_exist :: "address \<Rightarrow> bool"
  ob_logs :: "(address \<times> hash list \<times> byte list \<times> u64) list"

locale contract_state =
  fixes S :: "'s contractState" and inv :: "'s \<Rightarrow> bool" and obs :: "'s \<Rightarrow> stateObs"
  assumes GetState_law: "inv s \<Longrightarrow> cs_GetState S s a k = (h, s') \<Longrightarrow>
      h = ob_slot (obs s) a k \<and> obs s' = obs s \<and> inv s'"
    and GetNonce_law: "inv s \<Longrightarrow> cs_GetNonce S s a = (n, s') \<Longrightarrow>
      n = ob_nonce (obs s) a \<and> obs s' = obs s \<and> inv s'"
    and GetBalance_law: "inv s \<Longrightarrow> cs_GetBalance S s a = (b, s') \<Longrightarrow>
      b = ob_balance (obs s) a \<and> obs s' = obs s \<and> inv s'"
    and Exist_law: "inv s \<Longrightarrow> cs_Exist S s a = (e, s') \<Longrightarrow>
      e = ob_exist (obs s) a \<and> obs s' = obs s \<and> inv s'"
    and SetState_law: "inv s \<Longrightarrow>
      obs (cs_SetState S s a k v) =
        (obs s)\<lparr>ob_slot := (ob_slot (obs s))(a := (ob_slot (obs s) a)(k := v)), ob_exist := (ob_exist (obs s))(a := True)\<rparr> \<and>
      inv (cs_SetState S s a k v)"
    and SetNonce_law: "inv s \<Longrightarrow>
      obs (cs_SetNonce S s a n) =
        (obs s)\<lparr>ob_nonce := (ob_nonce (obs s))(a := n), ob_exist := (ob_exist (obs s))(a := True)\<rparr> \<and>
      inv (cs_SetNonce S s a n)"
    and AddBalance_law: "inv s \<Longrightarrow>
      obs (cs_AddBalance S s a b) =
        (obs s)\<lparr>ob_balance := (ob_balance (obs s))(a := ob_balance (obs s) a + b), ob_exist := (ob_exist (obs s))(a := True)\<rparr> \<and>
      inv (cs_AddBalance S s a b)"
    and CreateAccount_law: "inv s \<Longrightarrow>
      obs (cs_CreateAccount S s a) =
        (obs s)\<lparr>ob_slot := (ob_slot (obs s))(a := (\<lambda>_. 0)), ob_nonce := (ob_nonce (obs s))(a := 0),
               ob_exist := (ob_exist (obs s))(a := True)\<rparr> \<and>
      inv (cs_CreateAccount S s a)"
    and AddLog_law: "inv s \<Longrightarrow>
      obs (cs_AddLog S s a topics data n) = (obs s)\<lparr>ob_logs := ob_logs (obs s) @ [(a, topics, data, n)]\<rparr> \<and>
      inv (cs_AddLog S s a topics data n)"
    and absent_law: "inv s \<Longrightarrow> \<not> ob_exist (obs s) a \<Longrightarrow>
      ob_slot (obs s) a = (\<lambda>_. 0) \<and> ob_nonce (obs s) a = 0 \<and> ob_balance (obs s) a = 0"
begin

lemmas getter_laws = GetState_law GetNonce_law GetBalance_law Exist_law
lemmas setter_laws = SetState_law SetNonce_law AddBalance_law CreateAccount_law AddLog_law

end

subsection \<open>Facts\<close>

lemma DeductGas_cases:
  obtains "DeductGas g r = Inl ErrOutOfGas" "unat g < unat r"
  | g' where "DeductGas g r = Inr g'" "unat r \<le> unat g" "unat g' = unat g - unat r"
proof (cases "g < r")
  case True
  then show thesis using that(1) by (simp add: DeductGas_def word_less_nat_alt)
next
  case False
  then have "unat r \<le> unat g" by (simp add: word_less_nat_alt)
  with False show thesis using that(2) [of "g - r"] by (simp add: DeductGas_def unat_sub word_le_nat_alt)
qed

lemma addFunctions_spec:
  "addFunctions fs m = Inr m' \<Longrightarrow>
     m' = m ++ map_of (map (\<lambda>f. (pf_selector f, f)) fs) \<and> distinct (map pf_selector fs) \<and>
     dom m \<inter> pf_selector ` set fs = {}"
proof (induction fs arbitrary: m)
  case (Cons f fs)
  from Cons.prems have n: "m (pf_selector f) = None" and r: "addFunctions fs (m(pf_selector f \<mapsto> f)) = Inr m'"
    by (auto split: if_splits)
  have dom: "dom (m(pf_selector f \<mapsto> f)) = insert (pf_selector f) (dom m)" by simp
  note IH = Cons.IH [OF r, unfolded dom]
  from IH have m': "m' = m(pf_selector f \<mapsto> f) ++ map_of (map (\<lambda>f. (pf_selector f, f)) fs)"
    and d: "distinct (map pf_selector fs)" and disj: "insert (pf_selector f) (dom m) \<inter> pf_selector ` set fs = {}"
    by blast+
  have "pf_selector f \<notin> dom (map_of (map (\<lambda>f. (pf_selector f, f)) fs))"
    using disj by (simp add: dom_map_of_conv_image_fst image_image)
  then have "m' = m ++ map_of (map (\<lambda>f. (pf_selector f, f)) (f # fs))" by (simp add: m' map_add_upd_left)
  moreover have "distinct (map pf_selector (f # fs))" "dom m \<inter> pf_selector ` set (f # fs) = {}"
    using d disj n by auto
  ultimately show ?case by blast
qed simp

lemma addFunctions_distinct:
  "distinct (map pf_selector fs) \<Longrightarrow> dom m \<inter> pf_selector ` set fs = {} \<Longrightarrow> \<exists>m'. addFunctions fs m = Inr m'"
proof (induction fs arbitrary: m)
  case (Cons f fs)
  then have "m (pf_selector f) = None" by auto
  moreover have "dom (m(pf_selector f \<mapsto> f)) = insert (pf_selector f) (dom m)" by simp
  then have "dom (m(pf_selector f \<mapsto> f)) \<inter> pf_selector ` set fs = {}"
    using Cons.prems by (simp only: Int_insert_left) auto
  with Cons.IH have "\<exists>m'. addFunctions fs (m(pf_selector f \<mapsto> f)) = Inr m'"
    using Cons.prems(1) by (metis distinct.simps(2) list.simps(9))
  ultimately show ?case by simp
qed simp

text \<open>A contract exists exactly if its selectors are distinct, and dispatches to the function with the selector.\<close>

lemma NewStatefulPrecompileContract_ok:
  "NewStatefulPrecompileContract fb fs = Inr c \<longleftrightarrow>
     distinct (map pf_selector fs) \<and>
     c = \<lparr>pc_fallback = fb, pc_functions = map_of (map (\<lambda>f. (pf_selector f, f)) fs)\<rparr>"
  using addFunctions_spec [of fs "\<lambda>_. None"] addFunctions_distinct [of fs "\<lambda>_. None"]
  by (auto simp: NewStatefulPrecompileContract_def split: sum.splits)

lemma Contract_Run_cases:
  assumes "pc_fallback c = None" "Contract_Run c E s caller addr input gas ro = (ret, gas', err, s')"
  obtains "err \<noteq> None" "s' = s" "gas' = gas" "ret = []"
  | f where "4 \<le> length input" "pc_functions c (take 4 input) = Some f" "IsActivated f E"
      "pf_execute f E s caller addr (drop 4 input) gas ro = (ret, gas', err, s')"
  using assms by (auto simp: Contract_Run_def SelectorLen_def Let_def split: if_splits option.splits list.splits)

end
