(* ===== verification/AbiRoundTrip.thy ===== *)
theory AbiRoundTrip
  imports Abi
begin

text \<open>
  Decoding inverts encoding. \<open>decodes_to t v p\<close> says that wherever the bytes \<open>p\<close> stand (in place for a static
  type, behind an offset for a dynamic one), the decoder reads \<open>v\<close> back; \<open>pack_reads\<close> shows it of every
  value the encoder accepts, by induction on the type.
\<close>

subsection \<open>Well-formed types and values\<close>

fun type_ok :: "abiType \<Rightarrow> bool" where
  "type_ok (FixedBytesTy n) = (n \<le> 32)"
| "type_ok (SliceTy e) = type_ok e"
| "type_ok (ArrayTy n e) = (0 < n \<and> type_ok e)"
| "type_ok (TupleTy ts raws flds) =
     (ts \<noteq> [] \<and> length raws = length ts \<and> flds = map ToCamelCase raws \<and> distinct flds \<and> '''' \<notin> set flds \<and>
      (\<forall>t \<in> set ts. type_ok t))"
| "type_ok HashTy = False"
| "type_ok FixedPointTy = False"
| "type_ok _ = True"

definition intWidth :: "nat \<Rightarrow> nat" where
  "intWidth n = (if n \<in> {8, 16, 32, 64} then n else 256)"

function value_ok :: "abiType \<Rightarrow> goValue \<Rightarrow> bool" where
  "value_ok (UintTy n) v =
     (case v of GoInt k i \<Rightarrow> k = reflectIntType True n \<and> 0 \<le> i \<and> i < 2 ^ intWidth n | _ \<Rightarrow> False)"
| "value_ok (IntTy n) v =
     (case v of
        GoInt k i \<Rightarrow> k = reflectIntType False n \<and> - (2 ^ (intWidth n - 1)) \<le> i \<and> i < 2 ^ (intWidth n - 1)
      | _ \<Rightarrow> False)"
| "value_ok BoolTy v = (case v of GoBool _ \<Rightarrow> True | _ \<Rightarrow> False)"
| "value_ok StringTy v = (case v of GoString _ \<Rightarrow> True | _ \<Rightarrow> False)"
| "value_ok BytesTy v = (case v of GoBytes _ \<Rightarrow> True | _ \<Rightarrow> False)"
| "value_ok AddressTy v = (case v of GoAddress _ \<Rightarrow> True | _ \<Rightarrow> False)"
| "value_ok (FixedBytesTy n) v = (case v of GoFixed bs \<Rightarrow> length bs = n | _ \<Rightarrow> False)"
| "value_ok FunctionTy v = (case v of GoFixed bs \<Rightarrow> length bs = 24 | _ \<Rightarrow> False)"
| "value_ok (SliceTy e) v =
     (valueKind v = KSlice \<and> v = goSlice (typeKind e) (elements v) \<and> (\<forall>x \<in> set (elements v). value_ok e x))"
| "value_ok (ArrayTy n e) v =
     (valueKind v = KArray \<and> v = goArray (typeKind e) (elements v) \<and> length (elements v) = n \<and>
      (\<forall>x \<in> set (elements v). value_ok e x))"
| "value_ok (TupleTy ts raws flds) v =
     (case v of
        GoStruct fs \<Rightarrow> map fst fs = flds \<and> length fs = length ts \<and> (\<forall>(t, f) \<in> set (zip ts fs). value_ok t (snd f))
      | _ \<Rightarrow> False)"
| "value_ok HashTy _ = False"
| "value_ok FixedPointTy _ = False"
  by pat_completeness auto
termination
  by (relation "measure (\<lambda>(t, v). size t)")
     (auto dest!: set_zip_leftD simp: less_Suc_eq_le intro: size_list_estimation' order.refl trans_le_add1)

lemma elementKind_goSlice [simp]: "elementKind (goSlice k vs) = k"
  and elementKind_goArray [simp]: "elementKind (goArray k vs) = k"
  by (simp_all add: goSlice_def goArray_def)

lemma value_ok_kind: "value_ok t v \<Longrightarrow> valueKind v = typeKind t"
  by (cases t) (auto split: goValue.splits)

lemma value_ok_sliceTypeCheck: "isSequence t \<Longrightarrow> value_ok t v \<Longrightarrow> sliceTypeCheck t v"
proof (induction t arbitrary: v)
  case (SliceTy e)
  then have "elementKind v = typeKind e" by (metis elementKind_goSlice value_ok.simps(9))
  with SliceTy show ?case by auto
next
  case (ArrayTy n e)
  then have "elementKind v = typeKind e" by (metis elementKind_goArray value_ok.simps(10))
  with ArrayTy show ?case by auto
qed simp_all

lemma value_ok_typeCheck: "value_ok t v \<Longrightarrow> typeCheck t v"
  using value_ok_kind [of t v] value_ok_sliceTypeCheck [of t v]
  by (cases t) (auto split: goValue.splits simp: byteValues_def)

lemma value_ok_nonnil: "value_ok t v \<Longrightarrow> v \<noteq> GoNilBig"
  by (cases t) (auto simp: goSlice_def goArray_def split: if_splits)

subsection \<open>Sizes\<close>

lemma getTypeSize_dvd: "32 dvd getTypeSize t"
proof (induction t)
  case (TupleTy ts raws flds)
  then have "32 dvd sum_list (map getTypeSize ts)" by (induction ts) auto
  then show ?case by simp
qed auto

lemma getTypeSize_ge: "type_ok t \<Longrightarrow> 32 \<le> getTypeSize t"
proof (induction t)
  case (ArrayTy n e)
  then have "1 * 32 \<le> n * getTypeSize e" by (intro mult_le_mono) auto
  with ArrayTy show ?case by auto
next
  case (TupleTy ts raws flds)
  then obtain t ts' where ts: "ts = t # ts'" by (cases ts) auto
  with TupleTy have "32 \<le> getTypeSize t" by auto
  with ts show ?case by simp
qed auto

lemma getTypeSize_dynamic: "isDynamicType t \<Longrightarrow> getTypeSize t = 32"
  by (cases t) auto

lemma getTypeSize_array: "\<not> isDynamicType e \<Longrightarrow> getTypeSize (ArrayTy n e) = n * getTypeSize e"
  by (cases e) auto

fun positions :: "nat \<Rightarrow> abiType list \<Rightarrow> nat list" where
  "positions p [] = []"
| "positions p (t # ts) = p # positions (p + getTypeSize t) ts"

lemma unpackPositions_eq:
  "0 \<le> index + virt \<Longrightarrow> unpackPositions index virt ts = positions (nat ((index + virt) * 32)) ts"
proof (induction ts arbitrary: index virt)
  case (Cons t ts)
  obtain k where k: "getTypeSize t = 32 * k" using getTypeSize_dvd [of t] by (auto simp: dvd_def)
  have "nat ((index + virt) * 32) + getTypeSize t = nat ((index + virt + int k) * 32)"
    using Cons.prems k by (simp add: nat_add_distrib nat_mult_distrib algebra_simps)
  moreover have "k = 1" if "\<not> (isAggregate t \<and> \<not> isDynamicType t)"
    using that k by (cases t) auto
  ultimately show ?case
    using Cons.IH [of "index + 1" "virt + (int k - 1)"] Cons.IH [of "index + 1" virt] Cons.prems k
    by (auto simp: algebra_simps)
qed simp

lemma zip_positions_replicate:
  "zip (positions p (replicate n e)) (replicate n e) = map (\<lambda>j. (p + j * getTypeSize e, e)) [0..<n]"
proof (induction n arbitrary: p)
  case (Suc n)
  have "[0..<Suc n] = 0 # map Suc [0..<n]" by (simp add: upt_conv_Cons map_Suc_upt del: upt_Suc)
  with Suc show ?case by (simp add: o_def algebra_simps del: upt_Suc)
qed simp

subsection \<open>Bytes at a position\<close>

definition stands_at :: "nat \<Rightarrow> byte list \<Rightarrow> byte list \<Rightarrow> bool" where
  "stands_at i out p \<longleftrightarrow> i \<le> length out \<and> (\<exists>rest. drop i out = p @ rest)"

lemma stands_at_le: "stands_at i out p \<Longrightarrow> i + length p \<le> length out"
  by (auto simp: stands_at_def dest!: arg_cong [where f = length])

lemma stands_at_append: "stands_at i out (p @ q) \<longleftrightarrow> stands_at i out p \<and> stands_at (i + length p) out q"
proof
  assume l: "stands_at i out (p @ q)"
  then obtain rest where "drop i out = p @ q @ rest" by (auto simp: stands_at_def)
  moreover from this have "drop (i + length p) out = q @ rest" by (metis add.commute append_eq_conv_conj drop_drop)
  ultimately show "stands_at i out p \<and> stands_at (i + length p) out q"
    using stands_at_le [OF l] by (auto simp: stands_at_def)
next
  assume "stands_at i out p \<and> stands_at (i + length p) out q"
  then obtain r r' where "drop i out = p @ r" "drop (i + length p) out = q @ r'" "i \<le> length out"
    by (auto simp: stands_at_def)
  moreover from this(1) have "drop (i + length p) out = r" by (metis add.commute append_eq_conv_conj drop_drop)
  ultimately show "stands_at i out (p @ q)" by (auto simp: stands_at_def)
qed

lemma stands_at_drop: "j \<le> length out \<Longrightarrow> stands_at i (drop j out) p \<longleftrightarrow> stands_at (i + j) out p"
  by (auto simp: stands_at_def)

lemma stands_at_take: "stands_at i out p \<Longrightarrow> take (length p) (drop i out) = p"
  by (auto simp: stands_at_def)

lemma stands_at_Nil [simp]: "stands_at i out [] \<longleftrightarrow> i \<le> length out"
  by (simp add: stands_at_def)

lemma stands_at_word: "stands_at i out w \<Longrightarrow> length w = 32 \<Longrightarrow> word32 i out = w \<and> i + 32 \<le> length out"
  using stands_at_take [of i out w] stands_at_le [of i out w] by (simp add: word32_def)

lemma packNum_word:
  "geth_ok G \<Longrightarrow> 0 \<le> n \<Longrightarrow> n < 2 ^ 256 \<Longrightarrow> packNum G n = be_bytes 32 (nat n)"
  by (simp add: packNum_def geth_okD)

lemma be_nat_word: "n < 2 ^ 256 \<Longrightarrow> be_nat (be_bytes 32 n) = n"
  by (simp add: be_nat_be_bytes)

lemma packNum_nat: "geth_ok G \<Longrightarrow> n < 2 ^ 63 \<Longrightarrow> packNum G (int n) = be_bytes 32 n \<and> be_nat (be_bytes 32 n) = n"
  by (simp add: packNum_word be_nat_word)

subsection \<open>What the decoder reads\<close>

definition decodes_to :: "abiType \<Rightarrow> goValue \<Rightarrow> byte list \<Rightarrow> bool" where
  "decodes_to t v p \<longleftrightarrow>
     (if isDynamicType t
      then (\<forall>out i off. stands_at i out (be_bytes 32 off) \<longrightarrow> stands_at off out p \<longrightarrow> length out < 2 ^ 63 \<longrightarrow>
              toGoType i t out = Inr v)
      else length p = getTypeSize t \<and>
           (\<forall>out i. stands_at i out p \<longrightarrow> length out < 2 ^ 63 \<longrightarrow> toGoType i t out = Inr v))"

lemma reads_static: "decodes_to t v p \<Longrightarrow> \<not> isDynamicType t \<Longrightarrow> length p = getTypeSize t"
  by (simp add: decodes_to_def)

text \<open>The parts of a head and tail section: the type, the value and the encoding of each.\<close>

type_synonym part = "abiType \<times> goValue \<times> byte list"

definition encodeParts :: "geth \<Rightarrow> nat \<Rightarrow> part list \<Rightarrow> byte list \<times> byte list" where
  "encodeParts G off xs = headTail G off (map (\<lambda>(t, v, p). (isDynamicType t, p)) xs)"

definition parts_ok :: "part list \<Rightarrow> bool" where
  "parts_ok xs \<longleftrightarrow> (\<forall>(t, v, p) \<in> set xs. decodes_to t v p)"

lemma encodeParts_simps:
  "encodeParts G off [] = ([], [])"
  "encodeParts G off ((t, v, p) # xs) =
     (if isDynamicType t
      then (packNum G (int off) @ fst (encodeParts G (off + length p) xs), p @ snd (encodeParts G (off + length p) xs))
      else (p @ fst (encodeParts G off xs), snd (encodeParts G off xs)))"
  by (simp_all add: encodeParts_def case_prod_unfold Let_def)

lemma encodeParts_length:
  "geth_ok G \<Longrightarrow> parts_ok xs \<Longrightarrow> length (fst (encodeParts G off xs)) = sum_list (map (getTypeSize \<circ> fst) xs)"
  by (induction xs arbitrary: off)
     (auto simp: encodeParts_simps packNum_def geth_okD getTypeSize_dynamic parts_ok_def reads_static)

lemma encodeParts_static: "\<forall>(t, v, p) \<in> set xs. \<not> isDynamicType t \<Longrightarrow> snd (encodeParts G off xs) = []"
  by (induction xs) (auto simp: encodeParts_simps)

lemma encodeParts_reads:
  assumes G: "geth_ok G" and len: "length out < 2 ^ 63"
  shows "parts_ok xs \<Longrightarrow> stands_at pos out (fst (encodeParts G off xs)) \<Longrightarrow> stands_at off out (snd (encodeParts G off xs)) \<Longrightarrow>
    map (\<lambda>(i, e). toGoType i e out) (zip (positions pos (map fst xs)) (map fst xs)) = map (\<lambda>(t, v, p). Inr v) xs"
proof (induction xs arbitrary: pos off)
  case (Cons x xs)
  obtain t v p where x: "x = (t, v, p)" by (cases x)
  from Cons.prems(1) x have r: "decodes_to t v p" and ok: "parts_ok xs" by (auto simp: parts_ok_def)
  show ?case
  proof (cases "isDynamicType t")
    case True
    have off: "off < 2 ^ 63" using Cons.prems(3) len by (auto simp: stands_at_def)
    from packNum_nat [OF G off] Cons.prems(2) x True
    have head: "stands_at pos out (be_bytes 32 off)"
      and rest: "stands_at (pos + 32) out (fst (encodeParts G (off + length p) xs))"
      by (auto simp: encodeParts_simps stands_at_append)
    from Cons.prems(3) x True have tail: "stands_at off out p"
      "stands_at (off + length p) out (snd (encodeParts G (off + length p) xs))"
      by (auto simp: encodeParts_simps stands_at_append)
    from r True head tail(1) len have "toGoType pos t out = Inr v" unfolding decodes_to_def by auto
    with Cons.IH [OF ok rest tail(2)] x True show ?thesis by (simp add: getTypeSize_dynamic)
  next
    case False
    from Cons.prems(2) x False have head: "stands_at pos out p"
      and rest: "stands_at (pos + getTypeSize t) out (fst (encodeParts G off xs))"
      using reads_static [OF r False] by (auto simp: encodeParts_simps stands_at_append)
    from Cons.prems(3) x False have tail: "stands_at off out (snd (encodeParts G off xs))"
      by (simp add: encodeParts_simps)
    from r False head len have "toGoType pos t out = Inr v" unfolding decodes_to_def by auto
    with Cons.IH [OF ok rest tail] x show ?thesis by simp
  qed
qed simp

text \<open>A section read from its start.\<close>

lemma encodeParts_joined:
  assumes G: "geth_ok G" and len: "length out < 2 ^ 63" and ok: "parts_ok xs"
    and off: "off = sum_list (map (getTypeSize \<circ> fst) xs) \<or> (\<forall>(t, v, p) \<in> set xs. \<not> isDynamicType t) \<and> off = 0"
    and st: "stands_at 0 out (joinHeadTail (encodeParts G off xs))"
  shows "results (map (\<lambda>(i, e). toGoType i e out) (zip (positions 0 (map fst xs)) (map fst xs))) = Inr (map (fst \<circ> snd) xs)"
proof -
  from st have "stands_at 0 out (fst (encodeParts G off xs))"
    "stands_at (length (fst (encodeParts G off xs))) out (snd (encodeParts G off xs))"
    by (auto simp: joinHeadTail_def stands_at_append)
  moreover from this have "stands_at off out (snd (encodeParts G off xs))"
    using off encodeParts_length [OF G ok, of off] encodeParts_static [of xs G off] by auto
  ultimately have "map (\<lambda>(i, e). toGoType i e out) (zip (positions 0 (map fst xs)) (map fst xs)) =
      map Inr (map (fst \<circ> snd) xs)"
    using encodeParts_reads [OF G len ok] by (auto simp: o_def case_prod_unfold)
  then show ?thesis by (simp only: results_map_Inr)
qed

subsection \<open>The elementary types\<close>

lemma pack_element:
  "value_ok t v \<Longrightarrow> \<not> isSequence t \<Longrightarrow> \<not> isAggregate t \<Longrightarrow> pack G t v = packElement G t v"
  using value_ok_typeCheck [of t v] value_ok_nonnil [of t v]
  by (subst pack.simps) (cases t; simp)

lemma length_packNum [simp]: "geth_ok G \<Longrightarrow> length (packNum G n) = 32"
  by (simp add: packNum_def geth_okD)

lemma ReadInteger_uint:
  assumes "geth_ok G" "0 \<le> i" "i < 2 ^ intWidth n"
  shows "ReadInteger (UintTy n) (packNum G i) = Inr (GoInt (reflectIntType True n) i)"
proof -
  have "i < 2 ^ 256" using assms(3) by (auto simp: intWidth_def split: if_splits)
  with assms have "int (be_nat (packNum G i)) = i" by (simp add: packNum_word be_nat_word nat_less_iff)
  with assms show ?thesis
    by (auto simp: ReadInteger_def Let_def reflectIntType_def intWidth_def big_IsUint64_def split: if_splits)
qed

lemma bit_255: "0 \<le> (n :: int) \<Longrightarrow> n < 2 ^ 256 \<Longrightarrow> bit n 255 \<longleftrightarrow> 2 ^ 255 \<le> n"
proof -
  assume n: "0 \<le> n" "n < 2 ^ 256"
  then have "n div 2 ^ 255 \<in> {0, 1}" by auto
  then show ?thesis by (auto simp: bit_iff_odd n)
qed

lemma ReadInteger_int:
  assumes "geth_ok G" "- (2 ^ (intWidth n - 1)) \<le> i" "i < 2 ^ (intWidth n - 1)"
  shows "ReadInteger (IntTy n) (packNum G i) = Inr (GoInt (reflectIntType False n) i)"
proof -
  have i: "- (2 ^ 255) \<le> i" "i < 2 ^ 255"
    using assms(2,3) by (auto simp: intWidth_def split: if_splits)
  let ?r = "int (be_nat (packNum G i))"
  have "?r = i mod 2 ^ 256"
    using assms(1) by (simp add: packNum_def geth_okD be_nat_word nat_less_iff)
  then have r: "?r = (if i < 0 then i + 2 ^ 256 else i)"
    using i mod_pos_pos_trivial [of i "2 ^ 256"] mod_pos_pos_trivial [of "i + 2 ^ 256" "2 ^ 256"] by auto
  then have "bit ?r 255 \<longleftrightarrow> i < 0" using bit_255 [of ?r] i by auto
  then have "(if bit ?r 255 then - (MaxUint256 + - ?r + 1) else ?r) = i"
    using r by (simp add: MaxUint256_def)
  with assms show ?thesis
    by (auto simp: ReadInteger_def Let_def reflectIntType_def intWidth_def split: if_splits)
qed

lemma reads_word:
  assumes "\<not> isDynamicType t" "getTypeSize t = 32" "length p = 32"
    and "\<And>out i. word32 i out = p \<Longrightarrow> i + 32 \<le> length out \<Longrightarrow> toGoType i t out = Inr v"
  shows "decodes_to t v p"
  using assms stands_at_word by (auto simp: decodes_to_def)

lemma lengthPrefix_at:
  assumes G: "geth_ok G" and st: "stands_at i out (be_bytes 32 off)" "stands_at off out (packNum G (int n) @ p)"
    and n: "n \<le> length p" and len: "length out < 2 ^ 63"
  shows "lengthPrefixPointsTo i out = Inr (off + 32, n)" "stands_at (off + 32) out p" "i + 32 \<le> length out"
    "off + 32 + length p \<le> length out"
proof -
  from st(2) G have p: "stands_at off out (packNum G (int n))" and q: "stands_at (off + 32) out p"
    by (auto simp: stands_at_append)
  note le = stands_at_le [OF q]
  have b: "off < 2 ^ 256" "n < 2 ^ 63" using le len n by auto
  from stands_at_word [OF st(1)] b have w: "be_nat (word32 i out) = off" "i + 32 \<le> length out"
    by (simp_all add: be_nat_word)
  from stands_at_word [OF p] G packNum_nat [OF G b(2)] have w2: "be_nat (word32 off out) = n" by simp
  have "nat_bitlen (off + 32) \<le> 63" "nat_bitlen (off + 32 + n) \<le> 63"
    using le len n by (simp_all add: nat_bitlen_le)
  with w w2 le n show "lengthPrefixPointsTo i out = Inr (off + 32, n)"
    by (simp add: lengthPrefixPointsTo_def Let_def)
  show "stands_at (off + 32) out p" "i + 32 \<le> length out" "off + 32 + length p \<le> length out"
    using q w le by auto
qed

lemma reads_bytes:
  assumes G: "geth_ok G" and t: "t = StringTy \<and> v = GoString bs \<or> t = BytesTy \<and> v = GoBytes bs"
  shows "decodes_to t v (packBytesSlice G bs (length bs))"
proof -
  let ?p = "bs @ replicate ((length bs + 31) div 32 * 32 - length bs) (0 :: byte)"
  have pk: "packBytesSlice G bs (length bs) = packNum G (int (length bs)) @ ?p"
    using G by (simp add: packBytesSlice_def geth_okD)
  have "toGoType i t out = Inr v"
    if st: "stands_at i out (be_bytes 32 off)" "stands_at off out (packBytesSlice G bs (length bs))"
      and len: "length out < 2 ^ 63" for out i off
  proof -
    have "length bs \<le> length ?p" by simp
    note l = lengthPrefix_at [OF G st(1) st(2) [unfolded pk] this len]
    from l(2) have "take (length bs) (drop (off + 32) out) = bs"
      using stands_at_take by (auto simp: stands_at_append)
    with l(1,3) t show ?thesis by (auto simp: toGoType.simps)
  qed
  with t show ?thesis by (auto simp: decodes_to_def)
qed

lemma readBool_word:
  assumes "geth_ok G"
  shows "readBool (PaddedBigBytes G (if b then 1 else 0) 32) = Inr (GoBool b)"
proof -
  have "PaddedBigBytes G (if b then 1 else 0) 32 = be_bytes 32 (if b then 1 else 0)"
    using assms by (simp add: geth_okD)
  also have "\<dots> = be_bytes 31 0 @ [if b then 1 else 0]"
    using be_bytes.simps(2) [of 31 "if b then 1 else 0"] by (simp split: if_splits)
  finally have w: "PaddedBigBytes G (if b then 1 else 0) 32 = be_bytes 31 0 @ [if b then 1 else 0]" .
  have "set (be_bytes k 0) \<subseteq> {0}" for k by (induction k) auto
  then show ?thesis by (auto simp: w readBool_def nth_append subset_iff)
qed

lemma element_reads:
  assumes G: "geth_ok G" and t: "type_ok t" and v: "value_ok t v" and e: "\<not> isSequence t" "\<not> isAggregate t"
  shows "\<exists>p. pack G t v = Inr p \<and> decodes_to t v p"
proof -
  have pk: "pack G t v = packElement G t v" using pack_element [OF v e] .
  show ?thesis
  proof (cases t)
    case (IntTy n)
    with v obtain i where i: "v = GoInt (reflectIntType False n) i"
      "- (2 ^ (intWidth n - 1)) \<le> i" "i < 2 ^ (intWidth n - 1)" by (auto split: goValue.splits)
    have "decodes_to t v (packNum G i)"
      using IntTy i G ReadInteger_int [OF G i(2,3)] by (intro reads_word) (auto simp: toGoType.simps)
    with pk IntTy i show ?thesis by auto
  next
    case (UintTy n)
    with v obtain i where i: "v = GoInt (reflectIntType True n) i" "0 \<le> i" "i < 2 ^ intWidth n"
      by (auto split: goValue.splits)
    have "decodes_to t v (packNum G i)"
      using UintTy i G ReadInteger_uint [OF G i(2,3)] by (intro reads_word) (auto simp: toGoType.simps)
    with pk UintTy i show ?thesis by auto
  next
    case BoolTy
    with v obtain b where b: "v = GoBool b" by (auto split: goValue.splits)
    have "decodes_to t v (PaddedBigBytes G (if b then 1 else 0) 32)"
      using BoolTy b readBool_word [OF G, of b] G
      by (intro reads_word) (auto simp: toGoType.simps geth_okD)
    with pk BoolTy b show ?thesis by auto
  next
    case StringTy
    with v obtain bs where "v = GoString bs" by (auto split: goValue.splits)
    with pk StringTy reads_bytes [OF G, of t v bs] show ?thesis by auto
  next
    case BytesTy
    with v obtain bs where "v = GoBytes bs" by (auto split: goValue.splits)
    with pk BytesTy reads_bytes [OF G, of t v bs] show ?thesis by auto
  next
    case AddressTy
    with v obtain a where a: "v = GoAddress a" by (auto split: goValue.splits)
    have "decodes_to t v (replicate 12 0 @ addressBytes a)"
      using AddressTy a by (intro reads_word) (auto simp: toGoType.simps BytesToAddress_def)
    with pk AddressTy a G show ?thesis by (auto simp: geth_okD)
  next
    case (FixedBytesTy n)
    with v t obtain bs where bs: "v = GoFixed bs" "length bs = n" "n \<le> 32" by (auto split: goValue.splits)
    have "decodes_to t v (bs @ replicate (32 - n) 0)"
      using FixedBytesTy bs by (intro reads_word) (auto simp: toGoType.simps ReadFixedBytes_def)
    with pk FixedBytesTy bs G show ?thesis by (auto simp: geth_okD)
  next
    case FunctionTy
    with v obtain bs where bs: "v = GoFixed bs" "length bs = 24" by (auto split: goValue.splits)
    have "be_nat (replicate 8 0) = 0" using be_nat_replicate_0 [of 8 "[]"] by simp
    then have "decodes_to t v (bs @ replicate 8 0)"
      using FunctionTy bs by (intro reads_word) (auto simp: toGoType.simps readFunctionType_def)
    with pk FunctionTy bs G show ?thesis by (auto simp: geth_okD)
  qed (use t e in auto)
qed

subsection \<open>Slices and arrays\<close>

abbreviation sequenceBody :: "geth \<Rightarrow> abiType \<Rightarrow> nat \<Rightarrow> byte list list \<Rightarrow> byte list" where
  "sequenceBody G e n ps \<equiv>
     joinHeadTail (headTail G (if isDynamicType e then getTypeSize e * n else 0) (map (Pair (isDynamicType e)) ps))"

definition sequence_packed :: "geth \<Rightarrow> abiType \<Rightarrow> goValue list \<Rightarrow> byte list list \<Rightarrow> bool" where
  "sequence_packed G e vs ps \<longleftrightarrow>
     results (map (pack G e) vs) = Inr ps \<and>
     32 * length vs \<le> length (sequenceBody G e (length vs) ps) \<and>
     (\<not> isDynamicType e \<longrightarrow> length (sequenceBody G e (length vs) ps) = length vs * getTypeSize e) \<and>
     (\<forall>out. stands_at 0 out (sequenceBody G e (length vs) ps) \<longrightarrow> length out < 2 ^ 63 \<longrightarrow>
        forEachUnpack (\<lambda>i out. toGoType i e out) (getTypeSize e) out (length vs) = Inr vs)"

lemma sequence_reads:
  assumes G: "geth_ok G" and e: "type_ok e" and IH: "\<forall>x \<in> set vs. \<exists>p. pack G e x = Inr p \<and> decodes_to e x p"
  shows "\<exists>ps. sequence_packed G e vs ps"
proof -
  from bchoice [OF IH] obtain f where f: "\<forall>x \<in> set vs. pack G e x = Inr (f x) \<and> decodes_to e x (f x)" by auto
  define xs where "xs = map (\<lambda>x. (e, x, f x)) vs"
  define off where "off = (if isDynamicType e then getTypeSize e * length vs else 0)"
  have fst_xs: "map fst xs = replicate (length vs) e"
    unfolding xs_def by (induction vs) auto
  have "results (map (pack G e) vs) = results (map Inr (map f vs))"
    using f by (intro arg_cong [where f = results]) auto
  then have 1: "results (map (pack G e) vs) = Inr (map f vs)" by (simp only: results_map_Inr)
  have ok: "parts_ok xs" using f by (auto simp: parts_ok_def xs_def)
  have body: "sequenceBody G e (length vs) (map f vs) = joinHeadTail (encodeParts G off xs)"
    by (simp add: encodeParts_def xs_def off_def o_def)
  have sum: "sum_list (map (getTypeSize \<circ> fst) xs) = length vs * getTypeSize e"
    using fst_xs by (simp flip: map_map add: sum_list_replicate)
  have hd: "length (fst (encodeParts G off xs)) = length vs * getTypeSize e"
    using encodeParts_length [OF G ok] sum by simp
  have "32 * length vs \<le> length vs * getTypeSize e" using getTypeSize_ge [OF e] by simp
  then have 2: "32 * length vs \<le> length (sequenceBody G e (length vs) (map f vs))"
    unfolding body unfolding joinHeadTail_def length_append hd by (rule trans_le_add1)
  have 3: "length (sequenceBody G e (length vs) (map f vs)) = length vs * getTypeSize e" if "\<not> isDynamicType e"
    using that hd encodeParts_static [of xs G off] unfolding body by (auto simp: joinHeadTail_def xs_def)
  have "forEachUnpack (\<lambda>i out. toGoType i e out) (getTypeSize e) out (length vs) = Inr vs"
    if st: "stands_at 0 out (sequenceBody G e (length vs) (map f vs))" and len: "length out < 2 ^ 63" for out
  proof -
    have "off = sum_list (map (getTypeSize \<circ> fst) xs) \<or> (\<forall>(t, v, p) \<in> set xs. \<not> isDynamicType t) \<and> off = 0"
      using sum by (auto simp: off_def xs_def)
    from encodeParts_joined [OF G len ok this st [unfolded body]]
    have "results (map (\<lambda>j. toGoType (j * getTypeSize e) e out) [0..<length vs]) = Inr vs"
      unfolding fst_xs zip_positions_replicate by (simp add: xs_def o_def)
    moreover have "32 * length vs \<le> length out" using stands_at_le [OF st] 2 by simp
    ultimately show ?thesis by (simp add: forEachUnpack_def)
  qed
  with 1 2 3 show ?thesis unfolding sequence_packed_def by blast
qed

lemmas sequence_packedD = sequence_packed_def [THEN iffD1, THEN conjunct1]
  sequence_packed_def [THEN iffD1, THEN conjunct2, THEN conjunct1]
  sequence_packed_def [THEN iffD1, THEN conjunct2, THEN conjunct2, THEN conjunct1, rule_format]
  sequence_packed_def [THEN iffD1, THEN conjunct2, THEN conjunct2, THEN conjunct2, rule_format]

lemma slice_reads:
  assumes G: "geth_ok G" and e: "type_ok e" and v: "value_ok (SliceTy e) v"
    and IH: "\<And>x. value_ok e x \<Longrightarrow> \<exists>p. pack G e x = Inr p \<and> decodes_to e x p"
  shows "\<exists>p. pack G (SliceTy e) v = Inr p \<and> decodes_to (SliceTy e) v p"
proof -
  let ?vs = "elements v"
  from v have "\<forall>x \<in> set ?vs. \<exists>p. pack G e x = Inr p \<and> decodes_to e x p" using IH by simp
  from sequence_reads [OF G e this] obtain ps where "sequence_packed G e ?vs ps" ..
  note ps = sequence_packedD [OF this]
  let ?p = "packNum G (int (length ?vs)) @ sequenceBody G e (length ?vs) ps"
  have "pack G (SliceTy e) v = Inr ?p"
    using value_ok_typeCheck [OF v] value_ok_nonnil [OF v] ps(1) by (simp add: pack.simps [of G "SliceTy e"])
  moreover have "toGoType i (SliceTy e) out = Inr v"
    if st: "stands_at i out (be_bytes 32 off)" "stands_at off out ?p" and len: "length out < 2 ^ 63" for out i off
  proof -
    have "length ?vs \<le> length (sequenceBody G e (length ?vs) ps)" using ps(2) by linarith
    note l = lengthPrefix_at [OF G st this len]
    have "stands_at 0 (drop (off + 32) out) (sequenceBody G e (length ?vs) ps)"
      using l(2,4) by (simp add: stands_at_drop)
    from ps(4) [OF this] len v l(1,3) show ?thesis by (simp add: toGoType.simps [of i "SliceTy e"])
  qed
  ultimately show ?thesis by (auto simp: decodes_to_def)
qed

lemma array_reads:
  assumes G: "geth_ok G" and e: "type_ok e" and n: "0 < n" and v: "value_ok (ArrayTy n e) v"
    and IH: "\<And>x. value_ok e x \<Longrightarrow> \<exists>p. pack G e x = Inr p \<and> decodes_to e x p"
  shows "\<exists>p. pack G (ArrayTy n e) v = Inr p \<and> decodes_to (ArrayTy n e) v p"
proof -
  let ?vs = "elements v"
  from v have "\<forall>x \<in> set ?vs. \<exists>p. pack G e x = Inr p \<and> decodes_to e x p" using IH by simp
  from sequence_reads [OF G e this] obtain ps where "sequence_packed G e ?vs ps" ..
  note ps = sequence_packedD [OF this]
  let ?p = "sequenceBody G e (length ?vs) ps"
  have vs: "length ?vs = n" and gv: "goArray (typeKind e) ?vs = v" using v by auto
  have pk: "pack G (ArrayTy n e) v = Inr ?p"
    using value_ok_typeCheck [OF v] value_ok_nonnil [OF v] ps(1) by (simp add: pack.simps [of G "ArrayTy n e"])
  have rd: "forEachUnpack (\<lambda>i out. toGoType i e out) (getTypeSize e) (drop j out) n = Inr ?vs"
    if "stands_at j out ?p" "length out < 2 ^ 63" for j out
    using ps(4) [of "drop j out"] that vs by (simp add: stands_at_drop stands_at_def)
  have le: "32 \<le> length ?p" using ps(2) n vs by linarith
  show ?thesis
  proof (cases "isDynamicType e")
    case True
    have "toGoType i (ArrayTy n e) out = Inr v"
      if st: "stands_at i out (be_bytes 32 off)" "stands_at off out ?p" and len: "length out < 2 ^ 63" for out i off
    proof -
      have off: "off \<le> length out" "off < 2 ^ 64" using stands_at_le [OF st(2)] len by simp_all
      have "be_bytes 32 off = be_bytes 24 (off div 256 ^ 8) @ be_bytes 8 off"
        using be_bytes_split [of 24 8 off] by simp
      with off(2) have "be_nat (drop 24 (be_bytes 32 off)) = off" by (simp add: be_nat_be_bytes)
      with stands_at_word [OF st(1)] off rd [OF st(2) len] gv True show ?thesis
        by (simp add: toGoType.simps [of i "ArrayTy n e"])
    qed
    with True pk show ?thesis by (auto simp: decodes_to_def)
  next
    case False
    have "toGoType i (ArrayTy n e) out = Inr v" if st: "stands_at i out ?p" and len: "length out < 2 ^ 63" for out i
      using stands_at_le [OF st] le rd [OF st len] gv False by (simp add: toGoType.simps [of i "ArrayTy n e"])
    with False pk ps(3) vs show ?thesis
      by (auto simp: decodes_to_def getTypeSize_array [OF False] simp del: getTypeSize.simps)
  qed
qed

subsection \<open>Tuples\<close>

lemma mapArgNames_distinct:
  assumes "distinct (map ToCamelCase raws)" "'''' \<notin> ToCamelCase ` set raws"
    and "\<forall>r \<in> set raws. abi2struct r = '''' \<and> struct2abi (ToCamelCase r) = '''' \<and> map_of fs (ToCamelCase r) \<noteq> None"
  shows "\<exists>m. mapArgNames raws fs abi2struct struct2abi = Inr m \<and> (\<forall>r \<in> set raws. m r = ToCamelCase r) \<and>
    (\<forall>r. r \<notin> set raws \<longrightarrow> m r = abi2struct r)"
  using assms
proof (induction raws arbitrary: abi2struct struct2abi)
  case (Cons r rs)
  let ?a = "abi2struct(r := ToCamelCase r)" and ?s = "struct2abi(ToCamelCase r := r)"
  have "r \<notin> set rs" using Cons.prems(1) by auto
  moreover from Cons.prems have "\<exists>m. mapArgNames rs fs ?a ?s = Inr m \<and> (\<forall>r \<in> set rs. m r = ToCamelCase r) \<and>
      (\<forall>x. x \<notin> set rs \<longrightarrow> m x = ?a x)"
    by (intro Cons.IH) (auto simp: image_iff)
  ultimately show ?case using Cons.prems by (auto simp: Let_def image_iff)
qed simp

lemma map_of_fields:
  assumes "map fst fs = ns" "distinct ns" "length fs = length ns"
  shows "map (\<lambda>n. map_of fs n) ns = map (Some \<circ> snd) fs"
proof -
  have "map_of fs (fst f) = Some (snd f)" if "f \<in> set fs" for f
    using assms that by (metis map_of_eq_Some_iff prod.collapse)
  then have "map (map_of fs) (map fst fs) = map (Some \<circ> snd) fs" by simp
  then show ?thesis unfolding assms(1) .
qed

lemma pack_tuple:
  assumes t: "type_ok (TupleTy ts raws flds)" and v: "value_ok (TupleTy ts raws flds) (GoStruct fs)"
  shows "pack G (TupleTy ts raws flds) (GoStruct fs) =
    (case results (map (\<lambda>(e, x). pack G e x) (zip ts (map snd fs))) of
       Inl err \<Rightarrow> Inl err
     | Inr ps \<Rightarrow> Inr (joinHeadTail (headTail G (sum_list (map getTypeSize ts)) (zip (map isDynamicType ts) ps))))"
proof -
  from t v have d: "distinct (map ToCamelCase raws)" "'''' \<notin> ToCamelCase ` set raws"
    and fs: "map fst fs = map ToCamelCase raws" "length fs = length ts" "length raws = length ts" by auto
  have some: "map_of fs (ToCamelCase r) \<noteq> None" if "r \<in> set raws" for r
    using that fs(1) by (metis image_eqI list.set_map map_of_eq_None_iff)
  obtain m where m: "mapArgNamesToStructFields raws fs = Inr m" "\<forall>r \<in> set raws. m r = ToCamelCase r"
    using mapArgNames_distinct [OF d, of "\<lambda>_. ''''" "\<lambda>_. ''''" fs] some
    by (auto simp: mapArgNamesToStructFields_def)
  have "map (\<lambda>r. map_of fs (m r)) raws = map (\<lambda>n. map_of fs n) (map ToCamelCase raws)" using m(2) by simp
  also have "\<dots> = map (Some \<circ> snd) fs"
    using map_of_fields [OF fs(1) d(1)] fs by simp
  finally have look: "map (\<lambda>r. map_of fs (m r)) raws = map (Some \<circ> snd) fs" .
  have "map_of fs (m (raws ! i)) = Some (snd (fs ! i))" if "i < length ts" for i
    using arg_cong [OF look, of "\<lambda>xs. xs ! i"] that fs by simp
  then have "map (\<lambda>(e, raw). case map_of fs (m raw) of None \<Rightarrow> Inl ErrFieldMissing | Some f \<Rightarrow> pack G e f) (zip ts raws) =
      map (\<lambda>(e, x). pack G e x) (zip ts (map snd fs))"
    using fs by (intro nth_equalityI) auto
  with m(1) value_ok_typeCheck [OF v] show ?thesis
    by (simp add: pack.simps [of G "TupleTy ts raws flds"])
qed

lemma parts_reads:
  assumes G: "geth_ok G" and len: "length vs = length ts"
    and IH: "\<forall>(t, x) \<in> set (zip ts vs). \<exists>p. pack G t x = Inr p \<and> decodes_to t x p"
  obtains ps where "results (map (\<lambda>(e, x). pack G e x) (zip ts vs)) = Inr ps" "length ps = length ts"
    "parts_ok (zip ts (zip vs ps))"
proof -
  from IH have "\<forall>z \<in> set (zip ts vs). \<exists>p. pack G (fst z) (snd z) = Inr p \<and> decodes_to (fst z) (snd z) p" by auto
  from bchoice [OF this] obtain f where
    f: "\<forall>z \<in> set (zip ts vs). pack G (fst z) (snd z) = Inr (f z) \<and> decodes_to (fst z) (snd z) (f z)" by auto
  let ?ps = "map f (zip ts vs)"
  have "map (\<lambda>(e, x). pack G e x) (zip ts vs) = map Inr ?ps"
    using f by (auto simp: case_prod_unfold)
  then have "results (map (\<lambda>(e, x). pack G e x) (zip ts vs)) = Inr ?ps" by (simp only: results_map_Inr)
  moreover have "parts_ok (zip ts (zip vs ?ps))"
  proof -
    have "decodes_to (ts ! i) (vs ! i) (f (ts ! i, vs ! i))" if "i < length ts" for i
      using f [rule_format, of "(ts ! i, vs ! i)"] that len by (auto simp: in_set_zip)
    with len show ?thesis by (auto simp: parts_ok_def in_set_zip)
  qed
  ultimately show thesis using that [of ?ps] len by simp
qed

lemma tuple_section:
  assumes "length vs = length ts" "length ps = length ts"
  shows "headTail G off (zip (map isDynamicType ts) ps) = encodeParts G off (zip ts (zip vs ps))"
proof -
  have "zip (map isDynamicType ts) ps = map (\<lambda>(t, v, p). (isDynamicType t, p)) (zip ts (zip vs ps))"
    using assms by (intro nth_equalityI) auto
  then show ?thesis by (simp add: encodeParts_def)
qed

lemma joined_length:
  assumes G: "geth_ok G" and ok: "parts_ok (zip ts (zip vs ps))" and n: "length vs = length ts" "length ps = length ts"
    and static: "\<forall>t \<in> set ts. \<not> isDynamicType t"
  shows "length (joinHeadTail (headTail G off (zip (map isDynamicType ts) ps))) = sum_list (map getTypeSize ts)"
proof -
  let ?xs = "zip ts (zip vs ps)"
  have "map fst ?xs = ts" using n by simp
  then have "sum_list (map (getTypeSize \<circ> fst) ?xs) = sum_list (map getTypeSize ts)" by (simp flip: map_map)
  moreover have "\<forall>(t, v, p) \<in> set ?xs. \<not> isDynamicType t" using static by (auto dest: set_zip_leftD)
  ultimately show ?thesis
    using encodeParts_length [OF G ok] encodeParts_static [of ?xs G]
    by (simp add: tuple_section [OF n] joinHeadTail_def)
qed

text \<open>Encoding and decoding a list of arguments, as tuples and argument lists do.\<close>

lemma arguments_read:
  assumes G: "geth_ok G" and ok: "parts_ok (zip ts (zip vs ps))" and n: "length vs = length ts" "length ps = length ts"
    and st: "stands_at 0 out (joinHeadTail (headTail G (sum_list (map getTypeSize ts)) (zip (map isDynamicType ts) ps)))"
    and len: "length out < 2 ^ 63"
  shows "results (map (\<lambda>(i, e). toGoType i e out) (zip (unpackPositions 0 0 ts) ts)) = Inr vs"
proof -
  let ?xs = "zip ts (zip vs ps)"
  have m: "map fst ?xs = ts" "map (fst \<circ> snd) ?xs = vs"
    using n by (simp_all flip: map_map add: map_fst_zip map_snd_zip)
  then have "sum_list (map getTypeSize ts) = sum_list (map (getTypeSize \<circ> fst) ?xs)" by (simp flip: map_map)
  with encodeParts_joined [OF G len ok, of "sum_list (map getTypeSize ts)"] st m show ?thesis
    by (simp add: tuple_section [OF n] unpackPositions_eq)
qed

lemma tuple_reads:
  assumes G: "geth_ok G" and t: "type_ok (TupleTy ts raws flds)" and v: "value_ok (TupleTy ts raws flds) v"
    and IH: "\<And>t x. t \<in> set ts \<Longrightarrow> value_ok t x \<Longrightarrow> \<exists>p. pack G t x = Inr p \<and> decodes_to t x p"
  shows "\<exists>p. pack G (TupleTy ts raws flds) v = Inr p \<and> decodes_to (TupleTy ts raws flds) v p"
proof -
  let ?t = "TupleTy ts raws flds"
  from v obtain fs where fs: "v = GoStruct fs" "map fst fs = flds" "length fs = length ts"
    "\<forall>(t, f) \<in> set (zip ts fs). value_ok t (snd f)" by (auto split: goValue.splits)
  have n: "length (map snd fs) = length ts" using fs by simp
  have "\<forall>(t, x) \<in> set (zip ts (map snd fs)). \<exists>p. pack G t x = Inr p \<and> decodes_to t x p"
    using fs(4) IH by (fastforce simp: zip_map2 dest: set_zip_leftD)
  from parts_reads [OF G n this] obtain ps where
    ps: "results (map (\<lambda>(e, x). pack G e x) (zip ts (map snd fs))) = Inr ps" "length ps = length ts"
      "parts_ok (zip ts (zip (map snd fs) ps))" .
  let ?p = "joinHeadTail (headTail G (sum_list (map getTypeSize ts)) (zip (map isDynamicType ts) ps))"
  have pk: "pack G ?t v = Inr ?p" using pack_tuple [OF t, of fs G] v fs(1) ps(1) by simp
  have zip: "GoStruct (zip flds (map snd fs)) = v" using fs(1,2) by (metis zip_map_fst_snd)
  have rd: "results (map (\<lambda>(i, e). toGoType i e (drop j out)) (zip (unpackPositions 0 0 ts) ts)) = Inr (map snd fs)"
    if "stands_at j out ?p" "length out < 2 ^ 63" for j out
    using arguments_read [OF G ps(3) n ps(2), of "drop j out"] that
    by (simp add: stands_at_drop stands_at_def)
  have static: "length ?p = getTypeSize ?t" if "\<not> isDynamicType ?t"
    using joined_length [OF G ps(3) n ps(2)] that by simp
  show ?thesis
  proof (cases "isDynamicType ?t")
    case True
    have "toGoType i ?t out = Inr v"
      if st: "stands_at i out (be_bytes 32 off)" "stands_at off out ?p" and len: "length out < 2 ^ 63" for out i off
    proof -
      have off: "off \<le> length out" "off < 2 ^ 63" using stands_at_le [OF st(2)] len by simp_all
      have "nat_bitlen off \<le> 63" using off by (simp add: nat_bitlen_le)
      with stands_at_word [OF st(1)] off have "tuplePointsTo i out = Inr off"
        by (simp add: tuplePointsTo_def be_nat_word)
      with stands_at_word [OF st(1)] rd [OF st(2) len] zip True show ?thesis
        by (simp add: toGoType.simps [of i ?t] Let_def)
    qed
    with True pk show ?thesis by (auto simp: decodes_to_def)
  next
    case False
    have "toGoType i ?t out = Inr v" if st: "stands_at i out ?p" and len: "length out < 2 ^ 63" for out i
      using stands_at_le [OF st] getTypeSize_ge [OF t] static [OF False] rd [OF st len] zip False
      by (simp add: toGoType.simps [of i ?t] Let_def)
    with False pk static show ?thesis by (auto simp: decodes_to_def simp del: getTypeSize.simps)
  qed
qed

theorem pack_reads:
  assumes "geth_ok G"
  shows "type_ok t \<Longrightarrow> value_ok t v \<Longrightarrow> \<exists>p. pack G t v = Inr p \<and> decodes_to t v p"
proof (induction t arbitrary: v)
  case (SliceTy e)
  then show ?case using slice_reads [OF assms] by simp
next
  case (ArrayTy n e)
  then show ?case using array_reads [OF assms, of e n v] by simp
next
  case (TupleTy ts raws flds)
  show ?case by (rule tuple_reads [OF assms TupleTy.prems]) (use TupleTy in auto)
qed (use element_reads [OF assms] in auto)

subsection \<open>Argument lists\<close>

definition arguments_ok :: "Argument list \<Rightarrow> goValue list \<Rightarrow> bool" where
  "arguments_ok args vs \<longleftrightarrow>
     length vs = length args \<and> (\<forall>a \<in> set args. \<not> arg_Indexed a \<and> type_ok (arg_Type a)) \<and>
     (\<forall>(a, v) \<in> set (zip args vs). value_ok (arg_Type a) v)"

lemma Arguments_roundtrip:
  assumes G: "geth_ok G" and ok: "arguments_ok args vs"
  shows "\<exists>data. Arguments_Pack G args vs = Inr data \<and>
    ((\<forall>a \<in> set args. \<not> isDynamicType (arg_Type a)) \<longrightarrow> length data = sum_list (map (getTypeSize \<circ> arg_Type) args)) \<and>
    (length data + length rest < 2 ^ 63 \<longrightarrow> (args = [] \<longrightarrow> rest = []) \<longrightarrow> Arguments_Unpack args (data @ rest) = Inr vs)"
proof -
  let ?ts = "map arg_Type args"
  from ok have n: "length vs = length ?ts" by (simp add: arguments_ok_def)
  have "\<forall>(t, x) \<in> set (zip ?ts vs). \<exists>p. pack G t x = Inr p \<and> decodes_to t x p"
    using ok pack_reads [OF G] by (fastforce simp: arguments_ok_def zip_map1 dest: set_zip_leftD)
  from parts_reads [OF G n this] obtain ps where
    ps: "results (map (\<lambda>(e, x). pack G e x) (zip ?ts vs)) = Inr ps" "length ps = length ?ts"
      "parts_ok (zip ?ts (zip vs ps))" .
  let ?d = "joinHeadTail (headTail G (sum_list (map getTypeSize ?ts)) (zip (map isDynamicType ?ts) ps))"
  have pk: "Arguments_Pack G args vs = Inr ?d"
    using n ps(1) by (simp add: Arguments_Pack_def Let_def)
  have non: "NonIndexed args = args" using ok by (auto simp: NonIndexed_def arguments_ok_def)
  have "Arguments_Unpack args (?d @ rest) = Inr vs"
    if len: "length ?d + length rest < 2 ^ 63" and nil: "args = [] \<longrightarrow> rest = []"
  proof (cases "args = []")
    case True
    with n nil show ?thesis by (simp add: Arguments_Unpack_def NonIndexed_def joinHeadTail_def)
  next
    case False
    have "stands_at 0 (?d @ rest) ?d" by (simp add: stands_at_def)
    from arguments_read [OF G ps(3) n ps(2) this] len
    have rd: "results (map (\<lambda>(i, e). toGoType i e (?d @ rest)) (zip (unpackPositions 0 0 ?ts) ?ts)) = Inr vs"
      by simp
    from False n have "vs \<noteq> []" by auto
    with rd have "?d @ rest \<noteq> []"
      by (cases args; cases vs) (auto simp: toGoType.simps split: sum.splits)
    with rd non False show ?thesis by (simp add: Arguments_Unpack_def UnpackValues_def Let_def)
  qed
  moreover have "length ?d = sum_list (map (getTypeSize \<circ> arg_Type) args)"
    if "\<forall>a \<in> set args. \<not> isDynamicType (arg_Type a)"
    using joined_length [OF G ps(3) n ps(2)] that by simp
  ultimately show ?thesis using pk by blast
qed

lemma Arguments_Unpack_NonIndexed: "Arguments_Unpack (NonIndexed args) d = Arguments_Unpack args d"
  by (simp add: Arguments_Unpack_def UnpackValues_def NonIndexed_def)

lemma Arguments_Unpack_values:
  assumes "Arguments_Unpack args d = Inr vs"
  shows "length vs = length (NonIndexed args)"
    "i < length vs \<Longrightarrow> \<exists>pos. toGoType pos (arg_Type (NonIndexed args ! i)) d = Inr (vs ! i)"
proof -
  let ?ts = "map arg_Type (NonIndexed args)"
  let ?z = "zip (unpackPositions 0 0 ?ts) ?ts"
  have len: "length (unpackPositions a b ts) = length ts" for a b ts
    by (induction ts arbitrary: a b) auto
  have "vs = [] \<and> NonIndexed args = [] \<or> map (\<lambda>(i, t). toGoType i t d) ?z = map Inr vs"
    using assms by (auto simp: Arguments_Unpack_def UnpackValues_def Let_def results_Inr split: if_splits)
  then have r: "map (\<lambda>(i, t). toGoType i t d) ?z = map Inr vs" by auto
  from arg_cong [OF r, of length] show l: "length vs = length (NonIndexed args)" by (simp add: len)
  show "\<exists>pos. toGoType pos (arg_Type (NonIndexed args ! i)) d = Inr (vs ! i)" if "i < length vs"
    using arg_cong [OF r, of "\<lambda>xs. xs ! i"] that l by (auto simp: len)
qed

lemma toGoType_uint256:
  assumes "toGoType i (UintTy 256) d = Inr v"
  shows "\<exists>n. v = GoInt BigInt n \<and> 0 \<le> n \<and> n < 2 ^ 256"
proof -
  have "be_nat (word32 i d) < 256 ^ length (word32 i d)" by (rule be_nat_bound)
  also have "\<dots> \<le> 256 ^ 32" by (rule power_increasing) (simp_all add: word32_def)
  finally have "int (be_nat (word32 i d)) < 2 ^ 256" by simp
  with assms show ?thesis by (auto simp: toGoType.simps ReadInteger_def Let_def split: if_splits)
qed

subsection \<open>Single words\<close>

lemma pack_uint256: "geth_ok G \<Longrightarrow> 0 \<le> n \<Longrightarrow> n < 2 ^ 256 \<Longrightarrow> pack G (UintTy 256) (GoInt BigInt n) = Inr (be_bytes 32 (nat n))"
  by (simp add: pack.simps reflectIntType_def packNum_word)

lemma pack_address: "geth_ok G \<Longrightarrow> pack G AddressTy (GoAddress a) = Inr (replicate 12 0 @ addressBytes a)"
  by (simp add: pack.simps geth_okD)

lemma pack_bool: "geth_ok G \<Longrightarrow> pack G BoolTy (GoBool b) = Inr (be_bytes 32 (if b then 1 else 0))"
  by (simp add: pack.simps geth_okD)

lemma Arguments_Pack_single:
  "pack G t v = Inr p \<Longrightarrow> \<not> isDynamicType t \<Longrightarrow> Arguments_Pack G [\<lparr>arg_Name = n, arg_Type = t, arg_Indexed = ix\<rparr>] [v] = Inr p"
  by (simp add: Arguments_Pack_def joinHeadTail_def)

lemma unpack_address:
  "Arguments_Unpack [inputArg n AddressTy] input =
     (if input = [] then Inl ErrEmptyInput
      else if length input < 32 then Inl ErrLength
      else Inr [GoAddress (BytesToAddress (take 32 input))])"
  by (simp add: Arguments_Unpack_def UnpackValues_def NonIndexed_def toGoType.simps word32_def)

lemma be_bytes_hash: "be_bytes 32 (unat (h :: hash)) = hashBytes h"
  by (simp add: hashBytes_def)

lemma BytesToHash_word [simp]: "BytesToHash (be_bytes 32 n) = of_nat n"
  by (simp add: BytesToHash_def be_nat_be_bytes word_unat_eq_iff unat_of_nat)

lemma packTopic_address [simp]: "packTopic G (GoAddress a) = Inr (ucast a)"
  by (simp add: packTopic_def BytesToHash_def word_unat_eq_iff unsigned_ucast_eq)

lemma packTopic_hash: "geth_ok G \<Longrightarrow> packTopic G (GoInt BigInt (uint (h :: hash))) = Inr h"
  using uint_lt2p [of h] by (simp add: packTopic_def geth_okD word_unat_eq_iff unat_of_nat)

lemma pack_hash: "geth_ok G \<Longrightarrow> pack G (UintTy 256) (GoInt BigInt (uint (h :: hash))) = Inr (hashBytes h)"
  using uint_lt2p [of h] by (simp add: pack_uint256 hashBytes_def)

end
