(* ===== verification/AllowList.thy ===== *)
theory AllowList
  imports Contract AbiRoundTrip Modules
begin

text \<open>
  The allow list every permissioned precompile embeds (precompile/allowlist): roles in the storage of the
  precompile, the functions that read and set them, the RoleSet event, and Configure.
\<close>

subsection \<open>The ABI (allowlist.abi)\<close>

definition allowListMethods :: "geth \<Rightarrow> Method list" where
  "allowListMethods G =
     [NewMethod G ''readAllowList'' ''readAllowList'' [inputArg ''addr'' AddressTy] [inputArg ''role'' (UintTy 256)],
      NewMethod G ''setAdmin'' ''setAdmin'' [inputArg ''addr'' AddressTy] [],
      NewMethod G ''setEnabled'' ''setEnabled'' [inputArg ''addr'' AddressTy] [],
      NewMethod G ''setManager'' ''setManager'' [inputArg ''addr'' AddressTy] [],
      NewMethod G ''setNone'' ''setNone'' [inputArg ''addr'' AddressTy] []]"

definition allowListEvents :: "geth \<Rightarrow> Event list" where
  "allowListEvents G =
     [NewEvent G ''RoleSet'' ''RoleSet'' False
        [indexedArg ''role'' (UintTy 256), indexedArg ''account'' AddressTy, indexedArg ''sender'' AddressTy,
         inputArg ''oldRole'' (UintTy 256)]]"

definition AllowListABI :: "geth \<Rightarrow> ABI" where
  "AllowListABI G = makeABI (allowListMethods G) (allowListEvents G)"

definition ModifyAllowListGasCost :: u64 where
  "ModifyAllowListGasCost = WriteGasCostPerSlot"

definition ReadAllowListGasCost :: u64 where
  "ReadAllowListGasCost = ReadGasCostPerSlot"

definition allowListInputLen :: nat where
  "allowListInputLen = 32"

definition AllowListEventGasCost :: u64 where
  "AllowListEventGasCost = LogGas + LogTopicGas * 4 + LogDataGas * 32"

text \<open>A common.Hash literal that sets its first bytes.\<close>

definition firstBytes :: "byte list \<Rightarrow> hash" where
  "firstBytes bs = BytesToHash (bs @ replicate (32 - length bs) 0)"

subsection \<open>Roles in the state\<close>

definition GetAllowListStatus :: "'s contractState \<Rightarrow> 's \<Rightarrow> address \<Rightarrow> address \<Rightarrow> Role \<times> 's" where
  "GetAllowListStatus S s precompileAddr a =
     (let addressKey = BytesToHash (addressBytes a) in cs_GetState S s precompileAddr addressKey)"

definition SetAllowListRole :: "'s contractState \<Rightarrow> 's \<Rightarrow> address \<Rightarrow> address \<Rightarrow> Role \<Rightarrow> 's" where
  "SetAllowListRole S s precompileAddr a role =
     (let addressKey = BytesToHash (addressBytes a) in cs_SetState S s precompileAddr addressKey role)"

definition PackModifyAllowList :: "geth \<Rightarrow> address \<Rightarrow> Role \<Rightarrow> run_error + byte list" where
  "PackModifyAllowList G a role =
     (case GetSetterFunctionName role of
        Inl e \<Rightarrow> Inl (ErrRole e)
      | Inr funcName \<Rightarrow>
          (case ABI_Pack G (AllowListABI G) funcName [GoAddress a] of Inl e \<Rightarrow> Inl (ErrAbi e) | Inr bs \<Rightarrow> Inr bs))"

text \<open>Arguments.Copy of the one unpacked value into a common.Address.\<close>

definition copyAddress :: "abi_error + goValue list \<Rightarrow> run_error + address" where
  "copyAddress r =
     (case r of
        Inl e \<Rightarrow> Inl (ErrAbi e)
      | Inr vs \<Rightarrow> (case vs of [GoAddress a] \<Rightarrow> Inr a | _ \<Rightarrow> Inl (ErrAbi ErrTypeMismatch)))"

definition UnpackModifyAllowListInput :: "geth \<Rightarrow> byte list \<Rightarrow> Role \<Rightarrow> bool \<Rightarrow> run_error + address" where
  "UnpackModifyAllowListInput G input r useStrictMode =
     (if useStrictMode \<and> length input \<noteq> allowListInputLen then Inl (ErrInvalidLen (length input))
      else (case GetSetterFunctionName r of
              Inl e \<Rightarrow> Inl (ErrRole e)
            | Inr funcName \<Rightarrow> copyAddress (UnpackInput (AllowListABI G) funcName input useStrictMode)))"

definition PackRoleSetEvent ::
    "geth \<Rightarrow> Role \<Rightarrow> address \<Rightarrow> address \<Rightarrow> Role \<Rightarrow> abi_error + (hash list \<times> byte list)" where
  "PackRoleSetEvent G role account caller oldRole =
     PackEvent G (AllowListABI G) ''RoleSet''
       [GoInt BigInt (uint role), GoAddress account, GoAddress caller, GoInt BigInt (uint oldRole)]"

definition UnpackRoleSetEventData :: "geth \<Rightarrow> byte list \<Rightarrow> run_error + Role" where
  "UnpackRoleSetEventData G dataBytes =
     (case ABI_Unpack (AllowListABI G) ''RoleSet'' dataBytes of
        Inl e \<Rightarrow> Inl (ErrAbi e)
      | Inr vs \<Rightarrow>
          (case vs of
             [GoInt BigInt oldRole] \<Rightarrow> (case FromBig oldRole of Inl e \<Rightarrow> Inl (ErrRole e) | Inr r \<Rightarrow> Inr r)
           | _ \<Rightarrow> Inl (ErrAbi ErrTypeMismatch)))"

subsection \<open>The functions\<close>

definition createAllowListRoleSetter :: "geth \<Rightarrow> 's contractState \<Rightarrow> address \<Rightarrow> Role \<Rightarrow> 's runFunc" where
  "createAllowListRoleSetter G S precompileAddr role E s callerAddr addr input suppliedGas readOnly =
     (case DeductGas suppliedGas ModifyAllowListGasCost of
        Inl e \<Rightarrow> ([], 0, Some e, s)
      | Inr remainingGas \<Rightarrow>
     (let useStrictMode = \<not> IsDurangoActivated E in
      case UnpackModifyAllowListInput G input role useStrictMode of
        Inl e \<Rightarrow> ([], remainingGas, Some e, s)
      | Inr modifyAddress \<Rightarrow>
      if readOnly then ([], remainingGas, Some ErrWriteProtection, s)
      else
       (let (callerStatus, s) = GetAllowListStatus S s precompileAddr callerAddr;
            (modifyStatus, s) = GetAllowListStatus S s precompileAddr modifyAddress in
        if \<not> CanModify callerStatus modifyStatus role
        then ([], remainingGas, Some (ErrCannotModifyAllowList callerAddr modifyStatus role), s)
        else if IsDurangoActivated E then
          (case DeductGas remainingGas AllowListEventGasCost of
             Inl e \<Rightarrow> ([], 0, Some e, s)
           | Inr remainingGas \<Rightarrow>
               (case PackRoleSetEvent G role modifyAddress callerAddr modifyStatus of
                  Inl e \<Rightarrow> ([], remainingGas, Some (ErrAbi e), s)
                | Inr (topics, data) \<Rightarrow>
                    (let s = cs_AddLog S s precompileAddr topics data (big_Uint64 (as_Number E)) in
                     ([], remainingGas, None, SetAllowListRole S s precompileAddr modifyAddress role))))
        else ([], remainingGas, None, SetAllowListRole S s precompileAddr modifyAddress role))))"

definition PackReadAllowList :: "geth \<Rightarrow> address \<Rightarrow> abi_error + byte list" where
  "PackReadAllowList G a = ABI_Pack G (AllowListABI G) ''readAllowList'' [GoAddress a]"

definition UnpackReadAllowListInput :: "geth \<Rightarrow> byte list \<Rightarrow> bool \<Rightarrow> run_error + address" where
  "UnpackReadAllowListInput G input useStrictMode =
     (if useStrictMode \<and> length input \<noteq> allowListInputLen then Inl (ErrInvalidLen (length input))
      else copyAddress (UnpackInput (AllowListABI G) ''readAllowList'' input useStrictMode))"

definition PackReadAllowListOutput :: "geth \<Rightarrow> int \<Rightarrow> abi_error + byte list" where
  "PackReadAllowListOutput G roleNumber =
     ABI_PackOutput G (AllowListABI G) ''readAllowList'' [GoInt BigInt roleNumber]"

definition createReadAllowList :: "geth \<Rightarrow> 's contractState \<Rightarrow> address \<Rightarrow> 's runFunc" where
  "createReadAllowList G S precompileAddr E s callerAddr addr input suppliedGas readOnly =
     (case DeductGas suppliedGas ReadAllowListGasCost of
        Inl e \<Rightarrow> ([], 0, Some e, s)
      | Inr remainingGas \<Rightarrow>
     (let useStrictMode = \<not> IsDurangoActivated E in
      case UnpackReadAllowListInput G input useStrictMode of
        Inl e \<Rightarrow> ([], remainingGas, Some e, s)
      | Inr readAddress \<Rightarrow>
          (let (role, s) = GetAllowListStatus S s precompileAddr readAddress in
           case PackReadAllowListOutput G (uint role) of
             Inl e \<Rightarrow> ([], remainingGas, Some (ErrAbi e), s)
           | Inr packedOutput \<Rightarrow> (packedOutput, remainingGas, None, s))))"

text \<open>
  One function per method of the ABI; a method with another name panics (\<open>None\<close>). The source iterates
  over a Go map; the functions end in a map again, so their order is irrelevant.
\<close>

fun allowListFunctions :: "geth \<Rightarrow> 's contractState \<Rightarrow> address \<Rightarrow> Method list \<Rightarrow> 's StatefulPrecompileFunction list option" where
  "allowListFunctions G S precompileAddr [] = Some []"
| "allowListFunctions G S precompileAddr (m # ms) =
     (let fn =
        (if mth_Name m = ''readAllowList''
           then Some (NewStatefulPrecompileFunction (mth_ID m) (createReadAllowList G S precompileAddr))
         else if GetSetterFunctionName AdminRole = Inr (mth_Name m)
           then Some (NewStatefulPrecompileFunction (mth_ID m) (createAllowListRoleSetter G S precompileAddr AdminRole))
         else if GetSetterFunctionName EnabledRole = Inr (mth_Name m)
           then Some (NewStatefulPrecompileFunction (mth_ID m) (createAllowListRoleSetter G S precompileAddr EnabledRole))
         else if GetSetterFunctionName NoRole = Inr (mth_Name m)
           then Some (NewStatefulPrecompileFunction (mth_ID m) (createAllowListRoleSetter G S precompileAddr NoRole))
         else if GetSetterFunctionName ManagerRole = Inr (mth_Name m)
           then Some (NewStatefulPrecompileFunctionWithActivator (mth_ID m)
                        (createAllowListRoleSetter G S precompileAddr ManagerRole) IsDurangoActivated)
         else None)
      in case (fn, allowListFunctions G S precompileAddr ms) of
           (Some f, Some fs) \<Rightarrow> Some (f # fs)
         | _ \<Rightarrow> None)"

definition CreateAllowListFunctions ::
    "geth \<Rightarrow> 's contractState \<Rightarrow> address \<Rightarrow> 's StatefulPrecompileFunction list option" where
  "CreateAllowListFunctions G S precompileAddr = allowListFunctions G S precompileAddr (allowListMethods G)"

definition CreateAllowListPrecompile :: "geth \<Rightarrow> 's contractState \<Rightarrow> address \<Rightarrow> 's precompileContract option" where
  "CreateAllowListPrecompile G S precompileAddr =
     (case CreateAllowListFunctions G S precompileAddr of
        None \<Rightarrow> None
      | Some fs \<Rightarrow> (case NewStatefulPrecompileContract None fs of Inl _ \<Rightarrow> None | Inr c \<Rightarrow> Some c))"

text \<open>
  The functions of a precompile that extends the allow list: those of the allow list and one for each
  entry of the map from names to functions, whose name the ABI must have.
\<close>

fun abiFunctions :: "ABI \<Rightarrow> (string \<times> 's runFunc) list \<Rightarrow> 's StatefulPrecompileFunction list option" where
  "abiFunctions abi [] = Some []"
| "abiFunctions abi ((name, f) # fs) =
     (case (abi_Methods abi name, abiFunctions abi fs) of
        (Some m, Some rest) \<Rightarrow> Some (NewStatefulPrecompileFunction (mth_ID m) f # rest)
      | _ \<Rightarrow> None)"

definition createPrecompile ::
    "geth \<Rightarrow> 's contractState \<Rightarrow> address \<Rightarrow> ABI \<Rightarrow> (string \<times> 's runFunc) list \<Rightarrow> 's precompileContract option" where
  "createPrecompile G S addr abi abiFunctionMap =
     (case (CreateAllowListFunctions G S addr, abiFunctions abi abiFunctionMap) of
        (Some functions, Some others) \<Rightarrow>
          (case NewStatefulPrecompileContract None (functions @ others) of Inl _ \<Rightarrow> None | Inr c \<Rightarrow> Some c)
      | _ \<Rightarrow> None)"

subsection \<open>Configuration\<close>

definition AllowListConfig_Configure :: "'s contractState \<Rightarrow> AllowListConfig \<Rightarrow> address \<Rightarrow> 's \<Rightarrow> 's" where
  "AllowListConfig_Configure S c precompileAddr s =
     (let s = fold (\<lambda>a s. SetAllowListRole S s precompileAddr a EnabledRole) (alc_EnabledAddresses c) s;
          s = fold (\<lambda>a s. SetAllowListRole S s precompileAddr a AdminRole) (alc_AdminAddresses c) s
      in fold (\<lambda>a s. SetAllowListRole S s precompileAddr a ManagerRole) (alc_ManagerAddresses c) s)"

subsection \<open>The two plain allow lists\<close>

definition TxAllowListPrecompile :: "geth \<Rightarrow> 's contractState \<Rightarrow> 's precompileContract option" where
  "TxAllowListPrecompile G S = CreateAllowListPrecompile G S txAllowList_ContractAddress"

definition GetTxAllowListStatus :: "'s contractState \<Rightarrow> 's \<Rightarrow> address \<Rightarrow> Role \<times> 's" where
  "GetTxAllowListStatus S s a = GetAllowListStatus S s txAllowList_ContractAddress a"

definition SetTxAllowListStatus :: "'s contractState \<Rightarrow> 's \<Rightarrow> address \<Rightarrow> Role \<Rightarrow> 's" where
  "SetTxAllowListStatus S s a role = SetAllowListRole S s txAllowList_ContractAddress a role"

definition ContractDeployerAllowListPrecompile :: "geth \<Rightarrow> 's contractState \<Rightarrow> 's precompileContract option" where
  "ContractDeployerAllowListPrecompile G S = CreateAllowListPrecompile G S deployerAllowList_ContractAddress"

definition GetContractDeployerAllowListStatus :: "'s contractState \<Rightarrow> 's \<Rightarrow> address \<Rightarrow> Role \<times> 's" where
  "GetContractDeployerAllowListStatus S s a = GetAllowListStatus S s deployerAllowList_ContractAddress a"

definition SetContractDeployerAllowListStatus :: "'s contractState \<Rightarrow> 's \<Rightarrow> address \<Rightarrow> Role \<Rightarrow> 's" where
  "SetContractDeployerAllowListStatus S s a role = SetAllowListRole S s deployerAllowList_ContractAddress a role"

subsection \<open>Facts\<close>

definition role_of :: "stateObs \<Rightarrow> address \<Rightarrow> address \<Rightarrow> Role" where
  "role_of ob pa a = ob_slot ob pa (ucast a)"

definition put_slot :: "stateObs \<Rightarrow> address \<Rightarrow> hash \<Rightarrow> hash \<Rightarrow> stateObs" where
  "put_slot ob a k v =
     ob\<lparr>ob_slot := (ob_slot ob)(a := (ob_slot ob a)(k := v)), ob_exist := (ob_exist ob)(a := True)\<rparr>"

definition set_role :: "stateObs \<Rightarrow> address \<Rightarrow> address \<Rightarrow> Role \<Rightarrow> stateObs" where
  "set_role ob pa a r = put_slot ob pa (ucast a) r"

definition add_log :: "stateObs \<Rightarrow> address \<times> hash list \<times> byte list \<times> u64 \<Rightarrow> stateObs" where
  "add_log ob l = ob\<lparr>ob_logs := ob_logs ob @ [l]\<rparr>"

lemma ucast_address_inj [simp]: "(ucast (a :: address) :: hash) = ucast b \<longleftrightarrow> a = b"
proof -
  have "take_bit 256 (uint x) = uint x" for x :: address
    by (rule take_bit_int_eq_self) (use uint_lt2p [of x] in auto)
  then show ?thesis by (simp add: word_uint_eq_iff unsigned_ucast_eq)
qed

lemma slot_put_slot [simp]:
  "ob_slot (put_slot ob a k v) a' k' = (if a' = a \<and> k' = k then v else ob_slot ob a' k')"
  by (simp add: put_slot_def)

lemma put_slot_frame [simp]:
  "ob_balance (put_slot ob a k v) = ob_balance ob" "ob_nonce (put_slot ob a k v) = ob_nonce ob"
  "ob_logs (put_slot ob a k v) = ob_logs ob"
  by (simp_all add: put_slot_def)

lemma role_of_set_role [simp]:
  "role_of (set_role ob pa a r) pa' b = (if pa' = pa \<and> b = a then r else role_of ob pa' b)"
  by (simp add: role_of_def set_role_def)

lemma role_of_add_log [simp]: "role_of (add_log ob l) pa a = role_of ob pa a"
  by (simp add: role_of_def add_log_def)

lemma setter_name: "GetSetterFunctionName r = Inr name \<Longrightarrow> abi_Methods (AllowListABI G) name = Some (NewMethod G name name [inputArg ''addr'' AddressTy] [])"
  by (auto simp: GetSetterFunctionName_def AllowListABI_def makeABI_def allowListMethods_def NewMethod_def Let_def split: if_splits)

lemma AllowListABI_no_event: "name \<noteq> ''RoleSet'' \<Longrightarrow> abi_Events (AllowListABI G) name = None"
  by (simp add: AllowListABI_def makeABI_def allowListEvents_def NewEvent_def Let_def)

lemma setter_input:
  assumes "GetSetterFunctionName r = Inr name"
  shows "getInputs (AllowListABI G) name input strict =
    (if strict \<and> length input mod 32 \<noteq> 0 then Inl ErrFormat else Inr [inputArg ''addr'' AddressTy])"
proof -
  have "name \<noteq> ''RoleSet''" using assms by (auto simp: GetSetterFunctionName_def split: if_splits)
  with setter_name [OF assms] AllowListABI_no_event show ?thesis
    by (simp add: getInputs_def NewMethod_def Let_def)
qed

lemma Unpack_modify_padded:
  assumes "GetSetterFunctionName r = Inr name" "32 \<le> length input" "strict \<longrightarrow> length input = 32"
  shows "UnpackModifyAllowListInput G input r strict = Inr (BytesToAddress (take 32 input))"
  using assms
  by (auto simp: UnpackModifyAllowListInput_def UnpackInput_def setter_input unpack_address copyAddress_def allowListInputLen_def)

definition roleSetID :: "geth \<Rightarrow> hash" where
  "roleSetID G = ev_ID (hd (allowListEvents G))"

lemma PackRoleSetEvent_eq:
  assumes "geth_ok G"
  shows "PackRoleSetEvent G role account caller oldRole =
    Inr ([roleSetID G, role, ucast account, ucast caller], hashBytes oldRole)"
  using pack_hash [OF assms, of oldRole] packTopic_hash [OF assms, of role]
  by (simp add: PackRoleSetEvent_def PackEvent_def AllowListABI_def makeABI_def allowListEvents_def NewEvent_def
      nameInputs_def Let_def Arguments_Pack_single PackTopics_def roleSetID_def)

definition roleSetLog :: "geth \<Rightarrow> accessibleState \<Rightarrow> address \<Rightarrow> Role \<Rightarrow> address \<Rightarrow> address \<Rightarrow> Role \<Rightarrow>
    address \<times> hash list \<times> byte list \<times> u64" where
  "roleSetLog G E pa role account caller oldRole =
     (pa, [roleSetID G, role, ucast account, ucast caller], hashBytes oldRole, big_Uint64 (as_Number E))"

definition modifyCost :: "accessibleState \<Rightarrow> nat" where
  "modifyCost E = 20000 + (if IsDurangoActivated E then 2131 else 0)"

text \<open>The state a successful setter leaves.\<close>

definition roleSetObs :: "geth \<Rightarrow> accessibleState \<Rightarrow> address \<Rightarrow> Role \<Rightarrow> address \<Rightarrow> address \<Rightarrow> stateObs \<Rightarrow> stateObs" where
  "roleSetObs G E pa role account caller ob =
     set_role (if IsDurangoActivated E then add_log ob (roleSetLog G E pa role account caller (role_of ob pa account)) else ob)
       pa account role"

context contract_state
begin

lemma GetAllowListStatus_law:
  "inv s \<Longrightarrow> GetAllowListStatus S s pa a = (r, s') \<Longrightarrow> r = role_of (obs s) pa a \<and> obs s' = obs s \<and> inv s'"
  using GetState_law by (simp add: GetAllowListStatus_def role_of_def)

lemma SetState_obs: "inv s \<Longrightarrow> obs (cs_SetState S s a k v) = put_slot (obs s) a k v \<and> inv (cs_SetState S s a k v)"
  using SetState_law by (simp add: put_slot_def)

lemma SetAllowListRole_law:
  "inv s \<Longrightarrow> obs (SetAllowListRole S s pa a r) = set_role (obs s) pa a r \<and> inv (SetAllowListRole S s pa a r)"
  using SetState_obs by (simp add: SetAllowListRole_def set_role_def)

lemma AddLog_obs: "inv s \<Longrightarrow> obs (cs_AddLog S s a ts d n) = add_log (obs s) (a, ts, d, n) \<and> inv (cs_AddLog S s a ts d n)"
  using AddLog_law by (simp add: add_log_def)

lemma setter_outcome:
  assumes G: "geth_ok G" and s: "inv s"
    and run: "createAllowListRoleSetter G S pa role E s caller addr input gas ro = (ret, gas', err, s')"
  shows "inv s' \<and> unat gas' \<le> unat gas \<and> ret = [] \<and>
    (case err of
       Some _ \<Rightarrow> obs s' = obs s
     | None \<Rightarrow> \<not> ro \<and> (\<exists>m. UnpackModifyAllowListInput G input role (\<not> IsDurangoActivated E) = Inr m \<and>
         CanModify (role_of (obs s) pa caller) (role_of (obs s) pa m) role \<and>
         obs s' = roleSetObs G E pa role m caller (obs s) \<and> unat gas' + modifyCost E = unat gas))"
proof -
  obtain cs s1 where g1: "GetAllowListStatus S s pa caller = (cs, s1)" by force
  note l1 = GetAllowListStatus_law [OF s g1]
  show ?thesis
  proof (cases "DeductGas gas ModifyAllowListGasCost")
    case (Inl e)
    with run s show ?thesis by (auto simp: createAllowListRoleSetter_def)
  next
    case (Inr rem)
    then have rem: "unat rem + 20000 = unat gas"
      by (cases rule: DeductGas_cases [of gas ModifyAllowListGasCost])
         (simp_all add: ModifyAllowListGasCost_def gas_cost_defs)
    show ?thesis
    proof (cases "UnpackModifyAllowListInput G input role (\<not> IsDurangoActivated E)")
      case (Inl e)
      with run s Inr rem show ?thesis by (auto simp: createAllowListRoleSetter_def)
    next
      case m: (Inr m)
      obtain ms s2 where g2: "GetAllowListStatus S s1 pa m = (ms, s2)" by force
      from l1 have "inv s1" by simp
      note l2 = GetAllowListStatus_law [OF this g2]
      note run' = run [unfolded createAllowListRoleSetter_def Let_def Inr m g1 g2 sum.case prod.case]
      show ?thesis
      proof (cases "ro \<or> \<not> CanModify cs ms role")
        case True
        with run' g1 g2 l1 l2 s rem show ?thesis by (auto split: if_splits)
      next
        case False
        show ?thesis
        proof (cases "IsDurangoActivated E")
          case True
          note l3 = AddLog_obs [of s2 pa _ _ "big_Uint64 (as_Number E)"]
          show ?thesis
          proof (cases rule: DeductGas_cases [of rem AllowListEventGasCost])
            case 1
            with run' g1 g2 l1 l2 False True rem show ?thesis by auto
          next
            case (2 rem')
            have "obs s' = roleSetObs G E pa role m caller (obs s) \<and> inv s' \<and> err = None \<and> gas' = rem' \<and> ret = []"
              using run' g1 g2 l1 l2 False True 2(1) PackRoleSetEvent_eq [OF G]
                l3 SetAllowListRole_law [of "cs_AddLog S s2 pa _ _ _"]
              by (auto simp: roleSetObs_def roleSetLog_def)
            with 2 False m True l1 l2 rem show ?thesis
              by (auto simp: modifyCost_def AllowListEventGasCost_def gas_cost_defs)
          qed
        next
          case no: False
          with run' g1 g2 l1 l2 False m rem SetAllowListRole_law [of s2 pa m role] show ?thesis
            by (auto simp: roleSetObs_def modifyCost_def)
        qed
      qed
    qed
  qed
qed

end

subsection \<open>Access control\<close>

text \<open>A role changes only if the caller's role allows that change.\<close>

definition role_guard :: "address \<Rightarrow> address \<Rightarrow> stateObs \<Rightarrow> stateObs \<Rightarrow> bool" where
  "role_guard pa caller ob ob' \<longleftrightarrow>
     (\<forall>a. role_of ob' pa a \<noteq> role_of ob pa a \<longrightarrow>
        CanModify (role_of ob pa caller) (role_of ob pa a) (role_of ob' pa a))"

lemma role_guard_refl [simp]: "role_guard pa caller ob ob"
  by (simp add: role_guard_def)

lemma role_guard_set_role:
  "CanModify (role_of ob pa caller) (role_of ob pa m) role \<Longrightarrow> role_guard pa caller ob (roleSetObs G E pa role m caller ob)"
  by (auto simp: role_guard_def roleSetObs_def split: if_splits)

lemma roleSetObs_role: "role_of (roleSetObs G E pa role m caller ob) pa a = (if a = m then role else role_of ob pa a)"
  by (simp add: roleSetObs_def)

lemma CreateAllowListFunctions_eq:
  "CreateAllowListFunctions G S pa =
     Some [NewStatefulPrecompileFunction (mth_ID (allowListMethods G ! 0)) (createReadAllowList G S pa),
           NewStatefulPrecompileFunction (mth_ID (allowListMethods G ! 1)) (createAllowListRoleSetter G S pa AdminRole),
           NewStatefulPrecompileFunction (mth_ID (allowListMethods G ! 2)) (createAllowListRoleSetter G S pa EnabledRole),
           NewStatefulPrecompileFunctionWithActivator (mth_ID (allowListMethods G ! 3))
             (createAllowListRoleSetter G S pa ManagerRole) IsDurangoActivated,
           NewStatefulPrecompileFunction (mth_ID (allowListMethods G ! 4)) (createAllowListRoleSetter G S pa NoRole)]"
  by (simp add: CreateAllowListFunctions_def allowListMethods_def NewMethod_def GetSetterFunctionName_def Let_def)

lemma allow_list_function_cases:
  assumes "CreateAllowListFunctions G S pa = Some fs" "f \<in> set fs"
  obtains "pf_execute f = createReadAllowList G S pa"
  | role where "pf_execute f = createAllowListRoleSetter G S pa role"
  using assms
  by (auto simp: CreateAllowListFunctions_eq NewStatefulPrecompileFunction_def
      NewStatefulPrecompileFunctionWithActivator_def)

lemma PackReadAllowListOutput_eq:
  "geth_ok G \<Longrightarrow> PackReadAllowListOutput G (uint (r :: hash)) = Inr (hashBytes r)"
  using pack_hash [of G r]
  by (simp add: PackReadAllowListOutput_def ABI_PackOutput_def AllowListABI_def makeABI_def allowListMethods_def
      NewMethod_def Let_def Arguments_Pack_single)

context contract_state
begin

text \<open>What every function of a permissioned precompile at \<open>pa\<close> guarantees.\<close>

definition guarded :: "address \<Rightarrow> 's runFunc \<Rightarrow> bool" where
  "guarded pa run \<longleftrightarrow>
     (\<forall>E s caller addr input gas ro ret gas' err s'.
        inv s \<longrightarrow> run E s caller addr input gas ro = (ret, gas', err, s') \<longrightarrow>
        inv s' \<and> unat gas' \<le> unat gas \<and> role_guard pa caller (obs s) (obs s') \<and> (ro \<longrightarrow> obs s' = obs s))"

lemma read_outcome:
  assumes G: "geth_ok G" and s: "inv s"
    and run: "createReadAllowList G S pa E s caller addr input gas ro = (ret, gas', err, s')"
  shows "inv s' \<and> obs s' = obs s \<and> unat gas' \<le> unat gas \<and>
    (case err of
       Some _ \<Rightarrow> ret = []
     | None \<Rightarrow> (\<exists>a. UnpackReadAllowListInput G input (\<not> IsDurangoActivated E) = Inr a \<and>
         ret = hashBytes (role_of (obs s) pa a) \<and> unat gas' + 5000 = unat gas))"
proof (cases rule: DeductGas_cases [of gas ReadAllowListGasCost])
  case 1
  with run s show ?thesis by (auto simp: createReadAllowList_def)
next
  case (2 rem)
  show ?thesis
  proof (cases "UnpackReadAllowListInput G input (\<not> IsDurangoActivated E)")
    case (Inl e)
    with run s 2 show ?thesis by (auto simp: createReadAllowList_def)
  next
    case (Inr a)
    obtain r s1 where g: "GetAllowListStatus S s pa a = (r, s1)" by force
    from GetAllowListStatus_law [OF s g] run 2 Inr g PackReadAllowListOutput_eq [OF G, of r] show ?thesis
      by (auto simp: createReadAllowList_def ReadAllowListGasCost_def gas_cost_defs)
  qed
qed

lemma setter_guarded: "geth_ok G \<Longrightarrow> guarded pa (createAllowListRoleSetter G S pa role)"
  unfolding guarded_def using setter_outcome role_guard_set_role by (fastforce split: option.splits)

lemma read_guarded: "geth_ok G \<Longrightarrow> guarded pa (createReadAllowList G S pa)"
  unfolding guarded_def using read_outcome by fastforce

lemma allow_list_guarded:
  "geth_ok G \<Longrightarrow> CreateAllowListFunctions G S pa = Some fs \<Longrightarrow> f \<in> set fs \<Longrightarrow> guarded pa (pf_execute f)"
  by (erule allow_list_function_cases) (auto simp: setter_guarded read_guarded)

lemma contract_guarded:
  assumes "NewStatefulPrecompileContract None fs = Inr c" "\<And>f. f \<in> set fs \<Longrightarrow> guarded pa (pf_execute f)"
  shows "guarded pa (Contract_Run c)"
  unfolding guarded_def
proof (intro allI impI)
  fix E s caller addr input gas ro ret gas' err s'
  assume s: "inv s" and run: "Contract_Run c E s caller addr input gas ro = (ret, gas', err, s')"
  from assms(1) have c: "pc_fallback c = None" "pc_functions c = map_of (map (\<lambda>f. (pf_selector f, f)) fs)"
    by (auto simp: NewStatefulPrecompileContract_ok)
  from c(1) run show "inv s' \<and> unat gas' \<le> unat gas \<and> role_guard pa caller (obs s) (obs s') \<and> (ro \<longrightarrow> obs s' = obs s)"
  proof (cases rule: Contract_Run_cases)
    case 1
    with s show ?thesis by simp
  next
    case (2 f)
    then have "f \<in> set fs" using c(2) by (auto dest!: map_of_SomeD)
    from assms(2) [OF this] s 2(4) show ?thesis by (auto simp: guarded_def)
  qed
qed

lemma setter_succeeds:
  assumes G: "geth_ok G" and s: "inv s" and gas: "modifyCost E \<le> unat gas"
    and m: "UnpackModifyAllowListInput G input role (\<not> IsDurangoActivated E) = Inr m"
    and ok: "CanModify (role_of (obs s) pa caller) (role_of (obs s) pa m) role"
  shows "\<exists>gas' s'. createAllowListRoleSetter G S pa role E s caller addr input gas False = ([], gas', None, s')"
proof -
  obtain cs s1 where g1: "GetAllowListStatus S s pa caller = (cs, s1)" by force
  obtain ms s2 where g2: "GetAllowListStatus S s1 pa m = (ms, s2)" by force
  note l1 = GetAllowListStatus_law [OF s g1]
  with GetAllowListStatus_law [of s1, OF _ g2] ok have can: "CanModify cs ms role" by simp
  obtain rem where rem: "DeductGas gas ModifyAllowListGasCost = Inr rem" "unat rem = unat gas - 20000"
    using gas by (cases rule: DeductGas_cases [of gas ModifyAllowListGasCost])
      (auto simp: ModifyAllowListGasCost_def modifyCost_def gas_cost_defs)
  have "\<exists>rem'. DeductGas rem AllowListEventGasCost = Inr rem'" if "IsDurangoActivated E"
    using gas rem(2) that by (cases rule: DeductGas_cases [of rem AllowListEventGasCost])
      (auto simp: AllowListEventGasCost_def modifyCost_def gas_cost_defs)
  with rem(1) m can g1 g2 PackRoleSetEvent_eq [OF G] show ?thesis
    by (auto simp: createAllowListRoleSetter_def)
qed

text \<open>Configuration.\<close>

lemma fold_SetAllowListRole:
  "inv s \<Longrightarrow>
     obs (fold (\<lambda>a s. SetAllowListRole S s pa a r) as s) = fold (\<lambda>a ob. set_role ob pa a r) as (obs s) \<and>
     inv (fold (\<lambda>a s. SetAllowListRole S s pa a r) as s)"
  by (induction as arbitrary: s) (simp_all add: SetAllowListRole_law)

end

lemma fold_set_role:
  "role_of (fold (\<lambda>a ob. set_role ob pa a r) as ob) pa' a = (if pa' = pa \<and> a \<in> set as then r else role_of ob pa' a)"
  by (induction as arbitrary: ob) auto

text \<open>The storage keys roles are kept under.\<close>

definition address_keys :: "hash set" where
  "address_keys = range (ucast :: address \<Rightarrow> hash)"

lemma address_key [simp]: "(ucast (a :: address) :: hash) \<in> address_keys"
  by (simp add: address_keys_def)

lemma not_address_key: "2 ^ 160 \<le> unat k \<Longrightarrow> k \<notin> address_keys"
proof
  assume k: "2 ^ 160 \<le> unat k" "k \<in> address_keys"
  then obtain a :: address where "k = ucast a" by (auto simp: address_keys_def)
  then have "unat k \<le> unat a" by (simp add: unsigned_ucast_eq)
  with k(1) show False using unsigned_less [of a, where ?'a = nat] by simp
qed

lemma be_nat_zeros: "be_nat (bs @ replicate n 0) = be_nat bs * 256 ^ n"
proof -
  have "be_nat (replicate n (0 :: byte)) = 0" using be_nat_replicate_0 [of n "[]"] by simp
  then show ?thesis by (simp add: be_nat_append)
qed

lemma unat_BytesToHash: "length bs \<le> 32 \<Longrightarrow> unat (BytesToHash bs) = be_nat bs"
proof -
  assume "length bs \<le> 32"
  then have "be_nat bs < 256 ^ 32"
    using be_nat_bound [of bs] power_increasing [of "length bs" 32 "256 :: nat"] by (meson less_le_trans one_le_numeral)
  then show ?thesis by (simp add: BytesToHash_def unat_of_nat)
qed

lemma unat_firstBytes: "length bs \<le> 32 \<Longrightarrow> unat (firstBytes bs) = be_nat bs * 256 ^ (32 - length bs)"
  by (simp add: firstBytes_def unat_BytesToHash be_nat_zeros)

lemma firstBytes_inj:
  "length bs \<le> 32 \<Longrightarrow> length cs = length bs \<Longrightarrow> firstBytes bs = firstBytes cs \<longleftrightarrow> bs = cs"
proof
  assume l: "length bs \<le> 32" "length cs = length bs" and "firstBytes bs = firstBytes cs"
  then have "unat (firstBytes bs) = unat (firstBytes cs)" by simp
  with l have "be_nat bs = be_nat cs" by (simp add: unat_firstBytes)
  with l show "bs = cs" by (metis be_bytes_be_nat)
next
  assume "bs = cs"
  then show "firstBytes bs = firstBytes cs" by (rule arg_cong)
qed

text \<open>A key whose first byte is not zero is no address.\<close>

lemma firstBytes_not_address: "b \<noteq> 0 \<Longrightarrow> length bs < 12 \<Longrightarrow> firstBytes (b # bs) \<notin> address_keys"
proof (rule not_address_key)
  assume b: "b \<noteq> 0" "length bs < 12"
  then have "1 * 256 ^ length bs \<le> unat b * 256 ^ length bs" by (intro mult_right_mono) (auto simp: unat_gt_0 Suc_le_eq)
  then have "256 ^ length bs \<le> be_nat (b # bs)" unfolding be_nat.simps by linarith
  then have "256 ^ length bs * 256 ^ (31 - length bs) \<le> be_nat (b # bs) * 256 ^ (31 - length bs)"
    by (rule mult_right_mono) simp
  moreover have "(256 :: nat) ^ length bs * 256 ^ (31 - length bs) = 256 ^ 31"
    using b(2) by (simp flip: power_add)
  ultimately show "2 ^ 160 \<le> unat (firstBytes (b # bs))" using b(2) by (simp add: unat_firstBytes)
qed

lemma set_role_frame:
  "ob_balance (set_role ob pa a r) = ob_balance ob" "ob_nonce (set_role ob pa a r) = ob_nonce ob"
  "ob_logs (set_role ob pa a r) = ob_logs ob" "pa' \<noteq> pa \<Longrightarrow> ob_slot (set_role ob pa a r) pa' = ob_slot ob pa'"
  "k \<notin> address_keys \<Longrightarrow> ob_slot (set_role ob pa a r) pa' k = ob_slot ob pa' k"
  by (auto simp: set_role_def fun_eq_iff)

definition configureObs :: "AllowListConfig \<Rightarrow> address \<Rightarrow> stateObs \<Rightarrow> stateObs" where
  "configureObs c pa ob =
     fold (\<lambda>a ob. set_role ob pa a ManagerRole) (alc_ManagerAddresses c)
       (fold (\<lambda>a ob. set_role ob pa a AdminRole) (alc_AdminAddresses c)
         (fold (\<lambda>a ob. set_role ob pa a EnabledRole) (alc_EnabledAddresses c) ob))"

lemma fold_set_role_frame:
  "ob_balance (fold (\<lambda>a ob. set_role ob pa a r) as ob) = ob_balance ob"
  "ob_nonce (fold (\<lambda>a ob. set_role ob pa a r) as ob) = ob_nonce ob"
  "ob_logs (fold (\<lambda>a ob. set_role ob pa a r) as ob) = ob_logs ob"
  "pa' \<noteq> pa \<Longrightarrow> ob_slot (fold (\<lambda>a ob. set_role ob pa a r) as ob) pa' = ob_slot ob pa'"
  "k \<notin> address_keys \<Longrightarrow> ob_slot (fold (\<lambda>a ob. set_role ob pa a r) as ob) pa' k = ob_slot ob pa' k"
  by (induction as arbitrary: ob) (simp_all add: set_role_frame)

lemma configureObs_frame:
  "ob_balance (configureObs c pa ob) = ob_balance ob" "ob_nonce (configureObs c pa ob) = ob_nonce ob"
  "ob_logs (configureObs c pa ob) = ob_logs ob" "pa' \<noteq> pa \<Longrightarrow> ob_slot (configureObs c pa ob) pa' = ob_slot ob pa'"
  "k \<notin> address_keys \<Longrightarrow> ob_slot (configureObs c pa ob) pa' k = ob_slot ob pa' k"
  by (simp_all add: configureObs_def fold_set_role_frame)

lemma configureObs_role:
  "role_of (configureObs c pa ob) pa a =
     (if a \<in> set (alc_ManagerAddresses c) then ManagerRole
      else if a \<in> set (alc_AdminAddresses c) then AdminRole
      else if a \<in> set (alc_EnabledAddresses c) then EnabledRole
      else role_of ob pa a)"
  by (simp add: configureObs_def fold_set_role)

context contract_state
begin

lemma AllowListConfig_Configure_law:
  "inv s \<Longrightarrow> obs (AllowListConfig_Configure S c pa s) = configureObs c pa (obs s) \<and> inv (AllowListConfig_Configure S c pa s)"
  by (simp add: AllowListConfig_Configure_def configureObs_def Let_def fold_SetAllowListRole)

end

subsection \<open>Precompiles that extend the allow list\<close>

lemma abiFunctions_execute:
  "abiFunctions abi fm = Some fs \<Longrightarrow> f \<in> set fs \<Longrightarrow> pf_execute f \<in> snd ` set fm \<and> pf_activation f = None"
  by (induction abi fm arbitrary: fs rule: abiFunctions.induct)
     (auto simp: NewStatefulPrecompileFunction_def split: option.splits)

lemma createPrecompile_cases:
  assumes "createPrecompile G S addr abi fm = Some c"
  obtains afs mfs where "CreateAllowListFunctions G S addr = Some afs" "abiFunctions abi fm = Some mfs"
    "NewStatefulPrecompileContract None (afs @ mfs) = Inr c"
  using assms by (auto simp: createPrecompile_def split: option.splits sum.splits)

context contract_state
begin

lemma precompile_guarded:
  assumes "geth_ok G" "createPrecompile G S pa abi fm = Some c" "\<forall>run \<in> snd ` set fm. guarded pa run"
  shows "guarded pa (Contract_Run c)"
  using assms(2)
proof (cases rule: createPrecompile_cases)
  case (1 afs mfs)
  show ?thesis
  proof (rule contract_guarded [OF 1(3)])
    fix f assume "f \<in> set (afs @ mfs)"
    then show "guarded pa (pf_execute f)"
      using allow_list_guarded [OF assms(1) 1(1)] abiFunctions_execute [OF 1(2)] assms(3)
      by (metis Un_iff set_append)
  qed
qed

end

context contract_state
begin

text \<open>A relation between the states before and after a call that holds for every function holds for the contract.\<close>

definition run_respects :: "(address \<Rightarrow> stateObs \<Rightarrow> stateObs \<Rightarrow> bool) \<Rightarrow> 's runFunc \<Rightarrow> bool" where
  "run_respects P run \<longleftrightarrow>
     (\<forall>E s caller addr input gas ro ret gas' err s'.
        inv s \<longrightarrow> run E s caller addr input gas ro = (ret, gas', err, s') \<longrightarrow> P caller (obs s) (obs s'))"

lemma respectsI:
  assumes "\<And>E s caller addr input gas ro ret gas' err s'.
    inv s \<Longrightarrow> run E s caller addr input gas ro = (ret, gas', err, s') \<Longrightarrow> P caller (obs s) (obs s')"
  shows "run_respects P run"
  using assms unfolding run_respects_def by blast

lemma respects_same:
  assumes "\<And>E s caller addr input gas ro ret gas' err s'.
    inv s \<Longrightarrow> run E s caller addr input gas ro = (ret, gas', err, s') \<Longrightarrow> obs s' = obs s"
    and "\<And>caller ob. P caller ob ob"
  shows "run_respects P run"
  by (rule respectsI) (simp add: assms)

lemma respects_contract:
  assumes "NewStatefulPrecompileContract None fs = Inr c" "\<And>caller ob. P caller ob ob"
    and "\<And>f. f \<in> set fs \<Longrightarrow> run_respects P (pf_execute f)"
  shows "run_respects P (Contract_Run c)"
proof (rule respectsI)
  fix E s caller addr input gas ro ret gas' err s'
  assume s: "inv s" and run: "Contract_Run c E s caller addr input gas ro = (ret, gas', err, s')"
  from assms(1) have c: "pc_fallback c = None" "pc_functions c = map_of (map (\<lambda>f. (pf_selector f, f)) fs)"
    by (auto simp: NewStatefulPrecompileContract_ok)
  from c(1) run show "P caller (obs s) (obs s')"
  proof (cases rule: Contract_Run_cases)
    case 1
    with assms(2) show ?thesis by simp
  next
    case (2 f)
    then have "f \<in> set fs" using c(2) by (auto dest!: map_of_SomeD)
    from assms(3) [OF this] s 2(4) show ?thesis by (auto simp: run_respects_def)
  qed
qed

lemma respects_precompile:
  assumes G: "geth_ok G" and c: "createPrecompile G S pa abi fm = Some c" and refl: "\<And>caller ob. P caller ob ob"
    and roles: "\<And>E role m caller ob. CanModify (role_of ob pa caller) (role_of ob pa m) role \<Longrightarrow>
      P caller ob (roleSetObs G E pa role m caller ob)"
    and funs: "\<forall>run \<in> snd ` set fm. run_respects P run"
  shows "run_respects P (Contract_Run c)"
  using c
proof (cases rule: createPrecompile_cases)
  case (1 afs mfs)
  have setter: "run_respects P (createAllowListRoleSetter G S pa role)" for role
  proof (rule respectsI)
    fix E s caller addr input gas ro ret gas' err s'
    assume s: "inv s"
      and run: "createAllowListRoleSetter G S pa role E s caller addr input gas ro = (ret, gas', err, s')"
    from setter_outcome [OF G s run] show "P caller (obs s) (obs s')"
      using refl roles by (auto split: option.splits)
  qed
  have read: "run_respects P (createReadAllowList G S pa)"
    by (rule respects_same [OF _ refl]) (drule (1) read_outcome [OF G], simp)
  show ?thesis
  proof (rule respects_contract [OF 1(3) refl])
    fix f assume "f \<in> set (afs @ mfs)"
    then consider "f \<in> set afs" | "f \<in> set mfs" by auto
    then show "run_respects P (pf_execute f)"
    proof cases
      case 1
      from allow_list_function_cases [OF \<open>CreateAllowListFunctions G S pa = Some afs\<close> this]
      show ?thesis using setter read by metis
    next
      case 2
      from abiFunctions_execute [OF \<open>abiFunctions abi fm = Some mfs\<close> this] funs show ?thesis by blast
    qed
  qed
qed

end

end
