(* ===== verification/FeeManager.thy ===== *)
theory FeeManager
  imports AllowList PrecompileConfig
begin

text \<open>
  The fee manager precompile (precompile/contracts/feemanager): the fee configuration in its storage, the
  functions that read and set it, the FeeConfigChanged event, and Configure.
\<close>

subsection \<open>The ABI (contract.abi)\<close>

definition feeConfigNames :: "string list" where
  "feeConfigNames =
     [''gasLimit'', ''targetBlockRate'', ''minBaseFee'', ''targetGas'', ''baseFeeChangeDenominator'',
      ''minBlockGasCost'', ''maxBlockGasCost'', ''blockGasCostStep'']"

definition feeConfigArgs :: "Argument list" where
  "feeConfigArgs = map (\<lambda>n. inputArg n (UintTy 256)) feeConfigNames"

definition feeConfigTuple :: abiType where
  "feeConfigTuple = TupleTy (map (\<lambda>_. UintTy 256) feeConfigNames) feeConfigNames (map ToCamelCase feeConfigNames)"

definition feeManagerMethods :: "geth \<Rightarrow> Method list" where
  "feeManagerMethods G =
     [NewMethod G ''getFeeConfig'' ''getFeeConfig'' [] feeConfigArgs,
      NewMethod G ''getFeeConfigLastChangedAt'' ''getFeeConfigLastChangedAt'' [] [inputArg ''blockNumber'' (UintTy 256)],
      NewMethod G ''setFeeConfig'' ''setFeeConfig'' feeConfigArgs []]"

definition feeManagerEvents :: "geth \<Rightarrow> Event list" where
  "feeManagerEvents G =
     [NewEvent G ''FeeConfigChanged'' ''FeeConfigChanged'' False
        [indexedArg ''sender'' AddressTy, inputArg ''oldFeeConfig'' feeConfigTuple, inputArg ''newFeeConfig'' feeConfigTuple]]"

definition FeeManagerABI :: "geth \<Rightarrow> ABI" where
  "FeeManagerABI G = makeABI (feeManagerMethods G @ allowListMethods G) (feeManagerEvents G)"

subsection \<open>Keys and gas\<close>

definition numFeeConfigField :: nat where "numFeeConfigField = 8"

definition feeConfigInputLen :: nat where
  "feeConfigInputLen = 32 * numFeeConfigField"

definition SetFeeConfigGasCost :: u64 where
  "SetFeeConfigGasCost = WriteGasCostPerSlot * (of_nat numFeeConfigField + 1)"

definition GetFeeConfigGasCost :: u64 where
  "GetFeeConfigGasCost = ReadGasCostPerSlot * of_nat numFeeConfigField"

definition GetLastChangedAtGasCost :: u64 where
  "GetLastChangedAtGasCost = ReadGasCostPerSlot"

definition FeeConfigChangedEventGasCost :: u64 where
  "FeeConfigChangedEventGasCost =
     GetFeeConfigGasCost + LogGas + LogTopicGas * 2 + 2 * of_nat feeConfigInputLen * LogDataGas"

definition feeConfigKey :: "nat \<Rightarrow> hash" where
  "feeConfigKey i = firstBytes [of_nat i]"

definition feeConfigLastChangedAtKey :: hash where
  "feeConfigLastChangedAtKey = firstBytes (stringBytes ''lca'')"

subsection \<open>The stored configuration\<close>

definition GetFeeManagerStatus :: "'s contractState \<Rightarrow> 's \<Rightarrow> address \<Rightarrow> Role \<times> 's" where
  "GetFeeManagerStatus S s a = GetAllowListStatus S s feeManager_ContractAddress a"

definition SetFeeManagerStatus :: "'s contractState \<Rightarrow> 's \<Rightarrow> address \<Rightarrow> Role \<Rightarrow> 's" where
  "SetFeeManagerStatus S s a role = SetAllowListRole S s feeManager_ContractAddress a role"

text \<open>
  The switch of the loading loop; the loop runs over the keys 1 to 8, so that its default branch, a
  panic, is never taken.
\<close>

definition loadFeeField :: "nat \<Rightarrow> hash \<Rightarrow> FeeConfig \<Rightarrow> FeeConfig" where
  "loadFeeField i val c =
     (if i = 1 then c\<lparr>fc_GasLimit := Some (uint val)\<rparr>
      else if i = 2 then c\<lparr>fc_TargetBlockRate := big_Uint64 (uint val)\<rparr>
      else if i = 3 then c\<lparr>fc_MinBaseFee := Some (uint val)\<rparr>
      else if i = 4 then c\<lparr>fc_TargetGas := Some (uint val)\<rparr>
      else if i = 5 then c\<lparr>fc_BaseFeeChangeDenominator := Some (uint val)\<rparr>
      else if i = 6 then c\<lparr>fc_MinBlockGasCost := Some (uint val)\<rparr>
      else if i = 7 then c\<lparr>fc_MaxBlockGasCost := Some (uint val)\<rparr>
      else if i = 8 then c\<lparr>fc_BlockGasCostStep := Some (uint val)\<rparr>
      else c)"

fun loadFeeConfig :: "'s contractState \<Rightarrow> nat list \<Rightarrow> FeeConfig \<Rightarrow> 's \<Rightarrow> FeeConfig \<times> 's" where
  "loadFeeConfig S [] c s = (c, s)"
| "loadFeeConfig S (i # is) c s =
     (let (val, s) = cs_GetState S s feeManager_ContractAddress (feeConfigKey i)
      in loadFeeConfig S is (loadFeeField i val c) s)"

definition GetStoredFeeConfig :: "'s contractState \<Rightarrow> 's \<Rightarrow> FeeConfig \<times> 's" where
  "GetStoredFeeConfig S s = loadFeeConfig S [1..<Suc numFeeConfigField] EmptyFeeConfig s"

definition GetFeeConfigLastChangedAt :: "'s contractState \<Rightarrow> 's \<Rightarrow> int \<times> 's" where
  "GetFeeConfigLastChangedAt S s =
     (let (val, s) = cs_GetState S s feeManager_ContractAddress feeConfigLastChangedAtKey in (uint val, s))"

text \<open>
  The switch of the storing loop. Verify has excluded nil fields, on which BigToHash would panic.
\<close>

definition feeFieldHash :: "nat \<Rightarrow> FeeConfig \<Rightarrow> hash" where
  "feeFieldHash i c =
     (let bigHash = (\<lambda>x. case x of Some n \<Rightarrow> BigToHash n | None \<Rightarrow> 0) in
      if i = 1 then bigHash (fc_GasLimit c)
      else if i = 2 then BigToHash (uint (fc_TargetBlockRate c))
      else if i = 3 then bigHash (fc_MinBaseFee c)
      else if i = 4 then bigHash (fc_TargetGas c)
      else if i = 5 then bigHash (fc_BaseFeeChangeDenominator c)
      else if i = 6 then bigHash (fc_MinBlockGasCost c)
      else if i = 7 then bigHash (fc_MaxBlockGasCost c)
      else bigHash (fc_BlockGasCostStep c))"

definition StoreFeeConfig ::
    "'s contractState \<Rightarrow> 's \<Rightarrow> FeeConfig \<Rightarrow> configBlockContext \<Rightarrow> run_error option \<times> 's" where
  "StoreFeeConfig S s feeConfig blockContext =
     (case FeeConfig_Verify feeConfig of
        Some e \<Rightarrow> (Some (ErrFeeConfig e), s)
      | None \<Rightarrow>
          (let s = fold (\<lambda>i s. cs_SetState S s feeManager_ContractAddress (feeConfigKey i) (feeFieldHash i feeConfig))
                     [1..<Suc numFeeConfigField] s in
           case bc_Number blockContext of
             None \<Rightarrow> (Some ErrNilBlockNumber, s)
           | Some blockNumber \<Rightarrow>
               (None, cs_SetState S s feeManager_ContractAddress feeConfigLastChangedAtKey (BigToHash blockNumber))))"

subsection \<open>Packing\<close>

definition bigValue :: "int option \<Rightarrow> goValue" where
  "bigValue x = (case x of None \<Rightarrow> GoNilBig | Some n \<Rightarrow> GoInt BigInt n)"

text \<open>The fields of FeeConfigABIStruct and of changeFeeConfigEventData, in order.\<close>

definition convertFromCommonConfig :: "FeeConfig \<Rightarrow> goValue list" where
  "convertFromCommonConfig c =
     [bigValue (fc_GasLimit c), GoInt BigInt (uint (fc_TargetBlockRate c)), bigValue (fc_MinBaseFee c),
      bigValue (fc_TargetGas c), bigValue (fc_BaseFeeChangeDenominator c), bigValue (fc_MinBlockGasCost c),
      bigValue (fc_MaxBlockGasCost c), bigValue (fc_BlockGasCostStep c)]"

fun bigOf :: "goValue \<Rightarrow> int option" where
  "bigOf (GoInt BigInt n) = Some n"
| "bigOf _ = None"

definition convertToCommonConfig :: "goValue list \<Rightarrow> FeeConfig" where
  "convertToCommonConfig vs =
     \<lparr>fc_GasLimit = bigOf (vs ! 0),
      fc_TargetBlockRate = (case bigOf (vs ! 1) of None \<Rightarrow> 0 | Some n \<Rightarrow> big_Uint64 n),
      fc_MinBaseFee = bigOf (vs ! 2), fc_TargetGas = bigOf (vs ! 3), fc_BaseFeeChangeDenominator = bigOf (vs ! 4),
      fc_MinBlockGasCost = bigOf (vs ! 5), fc_MaxBlockGasCost = bigOf (vs ! 6), fc_BlockGasCostStep = bigOf (vs ! 7)\<rparr>"

definition feeConfigStruct :: "FeeConfig \<Rightarrow> goValue" where
  "feeConfigStruct c = GoStruct (zip (map ToCamelCase feeConfigNames) (convertFromCommonConfig c))"

definition PackSetFeeConfig :: "geth \<Rightarrow> FeeConfig \<Rightarrow> abi_error + byte list" where
  "PackSetFeeConfig G input = ABI_Pack G (FeeManagerABI G) ''setFeeConfig'' (convertFromCommonConfig input)"

definition UnpackSetFeeConfigInput :: "geth \<Rightarrow> byte list \<Rightarrow> bool \<Rightarrow> run_error + FeeConfig" where
  "UnpackSetFeeConfigInput G input useStrictMode =
     (if useStrictMode \<and> length input \<noteq> feeConfigInputLen then Inl (ErrInvalidLen (length input))
      else (case UnpackInput (FeeManagerABI G) ''setFeeConfig'' input useStrictMode of
              Inl e \<Rightarrow> Inl (ErrAbi e)
            | Inr vs \<Rightarrow> Inr (convertToCommonConfig vs)))"

definition PackGetFeeConfigOutput :: "geth \<Rightarrow> FeeConfig \<Rightarrow> abi_error + byte list" where
  "PackGetFeeConfigOutput G output = ABI_PackOutput G (FeeManagerABI G) ''getFeeConfig'' (convertFromCommonConfig output)"

definition UnpackGetFeeConfigOutput :: "geth \<Rightarrow> byte list \<Rightarrow> bool \<Rightarrow> run_error + FeeConfig" where
  "UnpackGetFeeConfigOutput G output skipLenCheck =
     (if \<not> skipLenCheck \<and> length output \<noteq> feeConfigInputLen then Inl (ErrInvalidLen (length output))
      else (case ABI_Unpack (FeeManagerABI G) ''getFeeConfig'' output of
              Inl e \<Rightarrow> Inl (ErrAbi e)
            | Inr vs \<Rightarrow> Inr (convertToCommonConfig vs)))"

definition PackGetFeeConfigLastChangedAtOutput :: "geth \<Rightarrow> int \<Rightarrow> abi_error + byte list" where
  "PackGetFeeConfigLastChangedAtOutput G blockNumber =
     ABI_PackOutput G (FeeManagerABI G) ''getFeeConfigLastChangedAt'' [GoInt BigInt blockNumber]"

definition PackFeeConfigChangedEvent ::
    "geth \<Rightarrow> address \<Rightarrow> FeeConfig \<Rightarrow> FeeConfig \<Rightarrow> abi_error + (hash list \<times> byte list)" where
  "PackFeeConfigChangedEvent G sender oldConfig newConfig =
     PackEvent G (FeeManagerABI G) ''FeeConfigChanged''
       [GoAddress sender, feeConfigStruct oldConfig, feeConfigStruct newConfig]"

definition UnpackFeeConfigChangedEventData :: "geth \<Rightarrow> byte list \<Rightarrow> run_error + (FeeConfig \<times> FeeConfig)" where
  "UnpackFeeConfigChangedEventData G dataBytes =
     (case ABI_Unpack (FeeManagerABI G) ''FeeConfigChanged'' dataBytes of
        Inl e \<Rightarrow> Inl (ErrAbi e)
      | Inr vs \<Rightarrow>
          (case vs of
             [GoStruct a, GoStruct b] \<Rightarrow> Inr (convertToCommonConfig (map snd a), convertToCommonConfig (map snd b))
           | _ \<Rightarrow> Inl (ErrAbi ErrTypeMismatch)))"

subsection \<open>The functions\<close>

definition setFeeConfig :: "geth \<Rightarrow> 's contractState \<Rightarrow> 's runFunc" where
  "setFeeConfig G S E s caller addr input suppliedGas readOnly =
     (case DeductGas suppliedGas SetFeeConfigGasCost of
        Inl e \<Rightarrow> ([], 0, Some e, s)
      | Inr remainingGas \<Rightarrow>
      if readOnly then ([], remainingGas, Some ErrWriteProtection, s)
      else
     (let useStrictMode = \<not> IsDurangoActivated E in
      case UnpackSetFeeConfigInput G input useStrictMode of
        Inl e \<Rightarrow> ([], remainingGas, Some e, s)
      | Inr feeConfig \<Rightarrow>
     (let (callerStatus, s) = GetFeeManagerStatus S s caller in
      if \<not> IsEnabled callerStatus then ([], remainingGas, Some (ErrCannotChangeFee caller), s)
      else
     (let store = (\<lambda>remainingGas s.
            case StoreFeeConfig S s feeConfig (as_BlockContext E) of
              (Some e, s) \<Rightarrow> ([], remainingGas, Some e, s)
            | (None, s) \<Rightarrow> ([], remainingGas, None, s)) in
      if IsDurangoActivated E then
        (case DeductGas remainingGas FeeConfigChangedEventGasCost of
           Inl e \<Rightarrow> ([], 0, Some e, s)
         | Inr remainingGas \<Rightarrow>
             (let (oldConfig, s) = GetStoredFeeConfig S s in
              case PackFeeConfigChangedEvent G caller oldConfig feeConfig of
                Inl e \<Rightarrow> ([], remainingGas, Some (ErrAbi e), s)
              | Inr (topics, data) \<Rightarrow>
                  store remainingGas
                    (cs_AddLog S s feeManager_ContractAddress topics data (big_Uint64 (as_Number E)))))
      else store remainingGas s))))"

definition getFeeConfig :: "geth \<Rightarrow> 's contractState \<Rightarrow> 's runFunc" where
  "getFeeConfig G S E s caller addr input suppliedGas readOnly =
     (case DeductGas suppliedGas GetFeeConfigGasCost of
        Inl e \<Rightarrow> ([], 0, Some e, s)
      | Inr remainingGas \<Rightarrow>
          (let (feeConfig, s) = GetStoredFeeConfig S s in
           case PackGetFeeConfigOutput G feeConfig of
             Inl e \<Rightarrow> ([], remainingGas, Some (ErrAbi e), s)
           | Inr output \<Rightarrow> (output, remainingGas, None, s)))"

definition getFeeConfigLastChangedAt :: "geth \<Rightarrow> 's contractState \<Rightarrow> 's runFunc" where
  "getFeeConfigLastChangedAt G S E s caller addr input suppliedGas readOnly =
     (case DeductGas suppliedGas GetLastChangedAtGasCost of
        Inl e \<Rightarrow> ([], 0, Some e, s)
      | Inr remainingGas \<Rightarrow>
          (let (lastChangedAt, s) = GetFeeConfigLastChangedAt S s in
           case PackGetFeeConfigLastChangedAtOutput G lastChangedAt of
             Inl e \<Rightarrow> ([], remainingGas, Some (ErrAbi e), s)
           | Inr output \<Rightarrow> (output, remainingGas, None, s)))"

definition createFeeManagerPrecompile :: "geth \<Rightarrow> 's contractState \<Rightarrow> 's precompileContract option" where
  "createFeeManagerPrecompile G S =
     createPrecompile G S feeManager_ContractAddress (FeeManagerABI G)
       [(''getFeeConfig'', getFeeConfig G S), (''getFeeConfigLastChangedAt'', getFeeConfigLastChangedAt G S),
        (''setFeeConfig'', setFeeConfig G S)]"

subsection \<open>Configuration\<close>

definition feeManager_Configure ::
    "'s contractState \<Rightarrow> ChainConfigView \<Rightarrow> FeeManagerConfig \<Rightarrow> configBlockContext \<Rightarrow> 's \<Rightarrow> run_error option \<times> 's" where
  "feeManager_Configure S chainConfig config blockContext s =
     (let feeConfig = (case fm_InitialFeeConfig config of Some c \<Rightarrow> c | None \<Rightarrow> ccv_GetFeeConfig chainConfig) in
      case StoreFeeConfig S s feeConfig blockContext of
        (Some e, s) \<Rightarrow> (Some e, s)
      | (None, s) \<Rightarrow> (None, AllowListConfig_Configure S (fm_AllowListConfig config) feeManager_ContractAddress s))"

subsection \<open>Keys\<close>

lemma feeConfigKey_inj: "i < 256 \<Longrightarrow> j < 256 \<Longrightarrow> feeConfigKey i = feeConfigKey j \<longleftrightarrow> i = j"
proof -
  assume "i < 256" "j < 256"
  then have "(of_nat i :: byte) = of_nat j \<longleftrightarrow> i = j" by (simp add: word_unat_eq_iff)
  then show ?thesis by (simp add: feeConfigKey_def firstBytes_inj)
qed

lemma feeConfigKey_not_address: "0 < i \<Longrightarrow> i < 256 \<Longrightarrow> feeConfigKey i \<notin> address_keys"
  unfolding feeConfigKey_def by (rule firstBytes_not_address) (simp_all add: word_unat_eq_iff)

lemma lca_not_address: "feeConfigLastChangedAtKey \<notin> address_keys"
  unfolding feeConfigLastChangedAtKey_def stringBytes_def
  by (simp add: firstBytes_not_address)

lemma lca_not_fee_key: "i < 256 \<Longrightarrow> feeConfigKey i \<noteq> feeConfigLastChangedAtKey"
proof
  assume i: "i < 256" and eq: "feeConfigKey i = feeConfigLastChangedAtKey"
  have "feeConfigKey i = firstBytes [of_nat i, 0, 0]"
    by (simp add: feeConfigKey_def firstBytes_def numeral_eq_Suc)
  with eq have "[of_nat i, 0, 0] = stringBytes ''lca''"
    by (simp add: feeConfigLastChangedAtKey_def firstBytes_inj stringBytes_def)
  then show False by (simp add: stringBytes_def)
qed

subsection \<open>Storing and loading\<close>

abbreviation FM :: address where "FM \<equiv> feeManager_ContractAddress"

definition loadedConfig :: "stateObs \<Rightarrow> FeeConfig" where
  "loadedConfig ob =
     (let val = (\<lambda>i. uint (ob_slot ob FM (feeConfigKey i))) in
      \<lparr>fc_GasLimit = Some (val 1), fc_TargetBlockRate = big_Uint64 (val 2), fc_MinBaseFee = Some (val 3),
       fc_TargetGas = Some (val 4), fc_BaseFeeChangeDenominator = Some (val 5), fc_MinBlockGasCost = Some (val 6),
       fc_MaxBlockGasCost = Some (val 7), fc_BlockGasCostStep = Some (val 8)\<rparr>)"

definition fieldsObs :: "FeeConfig \<Rightarrow> stateObs \<Rightarrow> stateObs" where
  "fieldsObs c ob = fold (\<lambda>i ob. put_slot ob FM (feeConfigKey i) (feeFieldHash i c)) [1..<Suc numFeeConfigField] ob"

definition storeObs :: "FeeConfig \<Rightarrow> int \<Rightarrow> stateObs \<Rightarrow> stateObs" where
  "storeObs c n ob = put_slot (fieldsObs c ob) FM feeConfigLastChangedAtKey (BigToHash n)"

lemma field_keys: "[1..<Suc numFeeConfigField] = [1, 2, 3, 4, 5, 6, 7, 8]"
  by (simp add: numFeeConfigField_def upt_rec)

lemma fieldsObs_eq:
  "fieldsObs c ob =
     (let put = (\<lambda>i ob. put_slot ob FM (feeConfigKey i) (feeFieldHash i c))
      in put 8 (put 7 (put 6 (put 5 (put 4 (put 3 (put 2 (put 1 ob))))))))"
  unfolding fieldsObs_def field_keys by (simp add: Let_def)

lemma fieldsObs_key: "1 \<le> i \<Longrightarrow> i \<le> 8 \<Longrightarrow> ob_slot (fieldsObs c ob) FM (feeConfigKey i) = feeFieldHash i c"
proof -
  assume "1 \<le> i" "i \<le> 8"
  then have "i \<in> {1, 2, 3, 4, 5, 6, 7, 8}" by auto
  then show ?thesis by (auto simp: fieldsObs_eq Let_def feeConfigKey_inj)
qed

lemma fieldsObs_other:
  assumes "a \<noteq> FM \<or> k \<in> address_keys \<or> k = feeConfigLastChangedAtKey"
  shows "ob_slot (fieldsObs c ob) a k = ob_slot ob a k"
proof -
  have ne: "\<not> (a = FM \<and> k = feeConfigKey i)" if "0 < i" "i < 256" for i
    using assms feeConfigKey_not_address [of i] lca_not_fee_key [of i] that by auto
  from ne [of 1] ne [of 2] ne [of 3] ne [of 4] ne [of 5] ne [of 6] ne [of 7] ne [of 8] show ?thesis
    by (cases "a = FM") (simp_all add: fieldsObs_eq Let_def)
qed

lemma fieldsObs_frame:
  "ob_balance (fieldsObs c ob) = ob_balance ob" "ob_nonce (fieldsObs c ob) = ob_nonce ob"
  "ob_logs (fieldsObs c ob) = ob_logs ob"
  by (simp_all add: fieldsObs_eq Let_def)

lemma role_of_storeObs [simp]: "role_of (storeObs c n ob) pa a = role_of ob pa a"
proof -
  have "(ucast a :: hash) \<noteq> feeConfigLastChangedAtKey" using lca_not_address by (metis address_key)
  then show ?thesis by (simp add: storeObs_def role_of_def fieldsObs_other)
qed

lemma storeObs_frame:
  "ob_balance (storeObs c n ob) = ob_balance ob" "ob_nonce (storeObs c n ob) = ob_nonce ob"
  "ob_logs (storeObs c n ob) = ob_logs ob" "a \<noteq> FM \<Longrightarrow> ob_slot (storeObs c n ob) a = ob_slot ob a"
  by (simp_all add: storeObs_def fieldsObs_frame fun_eq_iff fieldsObs_other)

lemma uint_BigToHash: "0 \<le> n \<Longrightarrow> n < 2 ^ 256 \<Longrightarrow> uint (BigToHash n) = n"
  by (simp add: BigToHash_def take_bit_int_eq_self uint_word_of_int_eq)

text \<open>Loading returns what was stored.\<close>

lemma loaded_storeObs:
  assumes "fee_config_ok c"
  shows "loadedConfig (storeObs c n ob) = c"
proof -
  have slot: "ob_slot (storeObs c n ob) FM (feeConfigKey i) = feeFieldHash i c" if "1 \<le> i" "i \<le> 8" for i
    using that lca_not_fee_key [of i] by (simp add: storeObs_def fieldsObs_key)
  have "uint (fc_TargetBlockRate c) < 2 ^ 256" using uint_lt2p [of "fc_TargetBlockRate c"] by simp
  then have "uint (feeFieldHash 2 c) = uint (fc_TargetBlockRate c)"
    by (simp add: feeFieldHash_def Let_def uint_BigToHash)
  with assms show ?thesis
    by (intro FeeConfig.equality) (auto simp: loadedConfig_def Let_def slot fee_config_ok_def feeFieldHash_def uint_BigToHash)
qed

lemma loadedConfig_cong: "(\<And>i. 1 \<le> i \<Longrightarrow> i \<le> 8 \<Longrightarrow> ob_slot ob' FM (feeConfigKey i) = ob_slot ob FM (feeConfigKey i)) \<Longrightarrow>
    loadedConfig ob' = loadedConfig ob"
  by (simp add: loadedConfig_def Let_def)

lemma loadedConfig_add_log [simp]: "loadedConfig (add_log ob l) = loadedConfig ob"
  by (rule loadedConfig_cong) (simp add: add_log_def)

lemma loadedConfig_set_role [simp]: "loadedConfig (set_role ob pa a r) = loadedConfig ob"
  by (rule loadedConfig_cong) (simp add: set_role_frame feeConfigKey_not_address)

context contract_state
begin

lemma loadFeeConfig_law:
  "inv s \<Longrightarrow> loadFeeConfig S is c s = (c', s') \<Longrightarrow>
     c' = fold (\<lambda>i. loadFeeField i (ob_slot (obs s) FM (feeConfigKey i))) is c \<and> obs s' = obs s \<and> inv s'"
proof (induction "is" arbitrary: c s)
  case (Cons i "is")
  obtain v t where g: "cs_GetState S s FM (feeConfigKey i) = (v, t)" by force
  from GetState_law [OF Cons.prems(1) g] Cons.prems(2) Cons.IH [of t "loadFeeField i v c"] g show ?case by simp
qed simp

lemma GetStoredFeeConfig_law:
  assumes "inv s" "GetStoredFeeConfig S s = (c, s')"
  shows "c = loadedConfig (obs s) \<and> obs s' = obs s \<and> inv s'"
  using loadFeeConfig_law [OF assms(1) assms(2) [unfolded GetStoredFeeConfig_def]]
  unfolding field_keys by (simp add: loadFeeField_def EmptyFeeConfig_def loadedConfig_def Let_def)

lemma GetFeeConfigLastChangedAt_law:
  "inv s \<Longrightarrow> GetFeeConfigLastChangedAt S s = (n, s') \<Longrightarrow>
     n = uint (ob_slot (obs s) FM feeConfigLastChangedAtKey) \<and> obs s' = obs s \<and> inv s'"
  using GetState_law by (auto simp: GetFeeConfigLastChangedAt_def split: prod.splits)

lemma fold_SetState_law:
  "inv s \<Longrightarrow> obs (fold (\<lambda>i s. cs_SetState S s a (f i) (g i)) is s) = fold (\<lambda>i ob. put_slot ob a (f i) (g i)) is (obs s) \<and>
     inv (fold (\<lambda>i s. cs_SetState S s a (f i) (g i)) is s)"
  by (induction "is" arbitrary: s) (simp_all add: SetState_obs)

lemma StoreFeeConfig_law:
  assumes "inv s" "StoreFeeConfig S s c bc = (err, s')"
  shows "inv s' \<and>
    (case (FeeConfig_Verify c, bc_Number bc) of
       (Some e, _) \<Rightarrow> err = Some (ErrFeeConfig e) \<and> s' = s
     | (None, None) \<Rightarrow> err = Some ErrNilBlockNumber \<and> obs s' = fieldsObs c (obs s)
     | (None, Some n) \<Rightarrow> err = None \<and> obs s' = storeObs c n (obs s))"
  using assms fold_SetState_law [of s FM feeConfigKey "\<lambda>i. feeFieldHash i c" "[1..<Suc numFeeConfigField]"]
  by (auto simp: StoreFeeConfig_def fieldsObs_def storeObs_def Let_def SetState_obs split: option.splits)

end

subsection \<open>Encoding the configuration\<close>

definition fee_config_fits :: "FeeConfig \<Rightarrow> bool" where
  "fee_config_fits c \<longleftrightarrow>
     (\<forall>f \<in> {fc_GasLimit, fc_MinBaseFee, fc_TargetGas, fc_BaseFeeChangeDenominator, fc_MinBlockGasCost,
            fc_MaxBlockGasCost, fc_BlockGasCostStep}.
        \<exists>n. f c = Some n \<and> 0 \<le> n \<and> n < 2 ^ 256)"

lemma fee_config_ok_fits: "fee_config_ok c \<Longrightarrow> fee_config_fits c"
  by (auto simp: fee_config_ok_def fee_config_fits_def)

lemma loadedConfig_fits: "fee_config_fits (loadedConfig ob)"
proof -
  have "uint h < 2 ^ 256" for h :: hash using uint_lt2p [of h] by simp
  then show ?thesis by (simp add: fee_config_fits_def loadedConfig_def Let_def)
qed

lemma convert_inverse: "fee_config_fits c \<Longrightarrow> convertToCommonConfig (convertFromCommonConfig c) = c"
  by (cases c) (auto simp: fee_config_fits_def convertToCommonConfig_def convertFromCommonConfig_def bigValue_def)

lemma uint_fits [simp]: "uint (x :: u64) < 2 ^ 256"
  using uint_lt2p [of x] by simp

lemma feeConfigArgs_ok: "fee_config_fits c \<Longrightarrow> arguments_ok feeConfigArgs (convertFromCommonConfig c)"
  using uint_fits [of "fc_TargetBlockRate c"]
  by (auto simp: fee_config_fits_def arguments_ok_def feeConfigArgs_def feeConfigNames_def convertFromCommonConfig_def
      bigValue_def reflectIntType_def intWidth_def)

lemma feeConfigTuple_ok: "type_ok feeConfigTuple"
  by (simp add: feeConfigTuple_def feeConfigNames_def ToCamelCase_def upperChar_def Let_def)

lemma feeConfigStruct_ok:
  "fee_config_fits c \<Longrightarrow> value_ok feeConfigTuple (feeConfigStruct c)"
  using uint_fits [of "fc_TargetBlockRate c"]
  by (auto simp: fee_config_fits_def feeConfigStruct_def feeConfigTuple_def feeConfigNames_def convertFromCommonConfig_def
      bigValue_def reflectIntType_def intWidth_def)

lemma feeConfigTuple_size: "getTypeSize feeConfigTuple = 256" "\<not> isDynamicType feeConfigTuple"
  by (simp_all add: feeConfigTuple_def feeConfigNames_def)

lemma FeeManagerABI_methods:
  "abi_Methods (FeeManagerABI G) ''setFeeConfig'' = Some (NewMethod G ''setFeeConfig'' ''setFeeConfig'' feeConfigArgs [])"
  "abi_Methods (FeeManagerABI G) ''getFeeConfig'' = Some (NewMethod G ''getFeeConfig'' ''getFeeConfig'' [] feeConfigArgs)"
  "abi_Methods (FeeManagerABI G) ''getFeeConfigLastChangedAt'' =
     Some (NewMethod G ''getFeeConfigLastChangedAt'' ''getFeeConfigLastChangedAt'' [] [inputArg ''blockNumber'' (UintTy 256)])"
  by (simp_all add: FeeManagerABI_def makeABI_def feeManagerMethods_def NewMethod_def Let_def)

lemma FeeManagerABI_no_method: "abi_Methods (FeeManagerABI G) ''FeeConfigChanged'' = None"
  by (simp add: FeeManagerABI_def makeABI_def feeManagerMethods_def allowListMethods_def NewMethod_def Let_def)

lemma FeeManagerABI_events:
  "abi_Events (FeeManagerABI G) name = (if name = ''FeeConfigChanged'' then Some (hd (feeManagerEvents G)) else None)"
  by (simp add: FeeManagerABI_def makeABI_def feeManagerEvents_def NewEvent_def Let_def)

lemma feeConfigArgs_size: "sum_list (map (getTypeSize \<circ> arg_Type) feeConfigArgs) = 256"
  "\<forall>a \<in> set feeConfigArgs. \<not> isDynamicType (arg_Type a)" "feeConfigArgs \<noteq> []" "NonIndexed feeConfigArgs = feeConfigArgs"
  by (simp_all add: feeConfigArgs_def feeConfigNames_def NonIndexed_def)

text \<open>The input of setFeeConfig survives packing and unpacking, with or without trailing bytes.\<close>

lemma SetFeeConfig_roundtrip:
  assumes "geth_ok G" "fee_config_fits c"
  shows "\<exists>data. PackSetFeeConfig G c = Inr (mth_ID (feeManagerMethods G ! 2) @ data) \<and> length data = 256 \<and>
    UnpackSetFeeConfigInput G data True = Inr c \<and>
    (length rest < 2 ^ 62 \<longrightarrow> UnpackSetFeeConfigInput G (data @ rest) False = Inr c)"
proof -
  from Arguments_roundtrip [OF assms(1) feeConfigArgs_ok [OF assms(2)], of "[]"] obtain d where
    d: "Arguments_Pack G feeConfigArgs (convertFromCommonConfig c) = Inr d" "length d = 256"
      "Arguments_Unpack feeConfigArgs d = Inr (convertFromCommonConfig c)"
    using feeConfigArgs_size by auto
  from Arguments_roundtrip [OF assms(1) feeConfigArgs_ok [OF assms(2)], of rest] d feeConfigArgs_size(3)
  have rest: "length rest < 2 ^ 62 \<longrightarrow> Arguments_Unpack feeConfigArgs (d @ rest) = Inr (convertFromCommonConfig c)" by auto
  show ?thesis
    using d rest convert_inverse [OF assms(2)]
    by (intro exI [of _ d])
       (auto simp: PackSetFeeConfig_def ABI_Pack_def UnpackSetFeeConfigInput_def UnpackInput_def getInputs_def FeeManagerABI_methods
         FeeManagerABI_events NewMethod_def Let_def feeManagerMethods_def feeConfigInputLen_def numFeeConfigField_def)
qed

lemma UnpackSetFeeConfigInput_fits:
  assumes "UnpackSetFeeConfigInput G input strict = Inr c"
  shows "fee_config_fits c"
proof -
  from assms obtain vs where u: "Arguments_Unpack feeConfigArgs input = Inr vs" and c: "c = convertToCommonConfig vs"
    by (auto simp: UnpackSetFeeConfigInput_def UnpackInput_def getInputs_def FeeManagerABI_methods FeeManagerABI_events
        NewMethod_def Let_def split: if_splits sum.splits)
  note v = Arguments_Unpack_values [OF u, unfolded feeConfigArgs_size(4)]
  have "length vs = 8" using v(1) by (simp add: feeConfigArgs_def feeConfigNames_def)
  have "\<exists>n. bigOf (vs ! i) = Some n \<and> 0 \<le> n \<and> n < 2 ^ 256" if "i < 8" for i
  proof -
    have "i < length feeConfigNames" using that by (simp add: feeConfigNames_def)
    then have "arg_Type (feeConfigArgs ! i) = UintTy 256" by (simp add: feeConfigArgs_def)
    with v(2) [of i] toGoType_uint256 that \<open>length vs = 8\<close> show ?thesis by fastforce
  qed
  then show ?thesis by (simp add: c fee_config_fits_def convertToCommonConfig_def)
qed

definition feeConfigChangedID :: "geth \<Rightarrow> hash" where
  "feeConfigChangedID G = ev_ID (hd (feeManagerEvents G))"

lemma FeeConfigChanged_roundtrip:
  assumes G: "geth_ok G" and fits: "fee_config_fits old" "fee_config_fits new"
  shows "\<exists>data. PackFeeConfigChangedEvent G sender old new = Inr ([feeConfigChangedID G, ucast sender], data) \<and>
    UnpackFeeConfigChangedEventData G data = Inr (old, new)"
proof -
  let ?args = "[inputArg ''oldFeeConfig'' feeConfigTuple, inputArg ''newFeeConfig'' feeConfigTuple]"
  let ?vs = "[feeConfigStruct old, feeConfigStruct new]"
  have "arguments_ok ?args ?vs"
    using fits feeConfigTuple_ok feeConfigStruct_ok by (simp add: arguments_ok_def)
  from Arguments_roundtrip [OF G this, of "[]"] feeConfigTuple_size obtain d where
    d: "Arguments_Pack G ?args ?vs = Inr d" "Arguments_Unpack ?args d = Inr ?vs" by auto
  have ev: "ev_Inputs (hd (feeManagerEvents G)) = indexedArg ''sender'' AddressTy # ?args"
    "ev_Anonymous (hd (feeManagerEvents G)) = False"
    by (simp_all add: feeManagerEvents_def NewEvent_def nameInputs_def Let_def)
  have "NonIndexed (indexedArg ''sender'' AddressTy # ?args) = ?args" by (simp add: NonIndexed_def)
  then have "Arguments_Unpack (indexedArg ''sender'' AddressTy # ?args) d = Inr ?vs"
    using d(2) Arguments_Unpack_NonIndexed [of "indexedArg ''sender'' AddressTy # ?args" d] by simp
  moreover have "map snd (zip (map ToCamelCase feeConfigNames) (convertFromCommonConfig c)) = convertFromCommonConfig c" for c
    by (simp add: feeConfigNames_def convertFromCommonConfig_def)
  ultimately have "UnpackFeeConfigChangedEventData G d = Inr (old, new)"
    using fits by (simp add: UnpackFeeConfigChangedEventData_def ABI_Unpack_def getArguments_def FeeManagerABI_events ev
      FeeManagerABI_no_method feeConfigStruct_def convert_inverse)
  with d(1) show ?thesis
    by (auto simp: PackFeeConfigChangedEvent_def PackEvent_def FeeManagerABI_events ev Let_def PackTopics_def feeConfigChangedID_def)
qed

subsection \<open>Calls\<close>

definition feeConfigLog :: "geth \<Rightarrow> accessibleState \<Rightarrow> address \<Rightarrow> byte list \<Rightarrow> address \<times> hash list \<times> byte list \<times> u64" where
  "feeConfigLog G E caller data = (FM, [feeConfigChangedID G, ucast caller], data, big_Uint64 (as_Number E))"

definition setFeeConfigCost :: "accessibleState \<Rightarrow> nat" where
  "setFeeConfigCost E = 180000 + (if IsDurangoActivated E then 45221 else 0)"

text \<open>The state a successful call leaves, with the event of the change after Durango.\<close>

definition fee_config_set :: "geth \<Rightarrow> accessibleState \<Rightarrow> address \<Rightarrow> FeeConfig \<Rightarrow> stateObs \<Rightarrow> stateObs \<Rightarrow> bool" where
  "fee_config_set G E caller c ob ob' \<longleftrightarrow>
     (if IsDurangoActivated E
      then (\<exists>data. UnpackFeeConfigChangedEventData G data = Inr (loadedConfig ob, c) \<and>
              ob' = storeObs c (as_Number E) (add_log ob (feeConfigLog G E caller data)))
      else ob' = storeObs c (as_Number E) ob)"

lemma fee_config_set_loaded:
  "fee_config_set G E caller c ob ob' \<Longrightarrow> fee_config_ok c \<Longrightarrow> loadedConfig ob' = c"
  by (auto simp: fee_config_set_def loaded_storeObs split: if_splits)

lemma fee_config_set_role: "fee_config_set G E caller c ob ob' \<Longrightarrow> role_of ob' pa a = role_of ob pa a"
  by (auto simp: fee_config_set_def split: if_splits)

context contract_state
begin

lemma GetFeeManagerStatus_law:
  "inv s \<Longrightarrow> GetFeeManagerStatus S s a = (r, s') \<Longrightarrow> r = role_of (obs s) FM a \<and> obs s' = obs s \<and> inv s'"
  using GetAllowListStatus_law by (simp add: GetFeeManagerStatus_def)

lemma setFeeConfig_outcome:
  assumes G: "geth_ok G" and s: "inv s"
    and run: "setFeeConfig G S E s caller addr input gas ro = (ret, gas', err, s')"
  shows "inv s' \<and> unat gas' \<le> unat gas \<and> ret = [] \<and>
    (case err of
       Some _ \<Rightarrow> obs s' = obs s \<or> \<not> ro \<and> IsEnabled (role_of (obs s) FM caller) \<and> (\<exists>l. obs s' = add_log (obs s) l)
     | None \<Rightarrow> \<not> ro \<and> IsEnabled (role_of (obs s) FM caller) \<and> unat gas' + setFeeConfigCost E = unat gas \<and>
         (\<exists>c. UnpackSetFeeConfigInput G input (\<not> IsDurangoActivated E) = Inr c \<and> FeeConfig_Verify c = None \<and>
            fee_config_set G E caller c (obs s) (obs s')))"
proof (cases rule: DeductGas_cases [of gas SetFeeConfigGasCost])
  case 1
  with run s show ?thesis by (auto simp: setFeeConfig_def)
next
  case (2 rem)
  then have rem: "unat rem + 180000 = unat gas"
    by (simp add: SetFeeConfigGasCost_def gas_cost_defs numFeeConfigField_def)
  show ?thesis
  proof (cases "ro \<or> (\<exists>e. UnpackSetFeeConfigInput G input (\<not> IsDurangoActivated E) = Inl e)")
    case True
    with run s 2 rem show ?thesis by (auto simp: setFeeConfig_def Let_def split: if_splits)
  next
    case False
    then obtain c where c: "UnpackSetFeeConfigInput G input (\<not> IsDurangoActivated E) = Inr c" and ro: "\<not> ro"
      by (cases "UnpackSetFeeConfigInput G input (\<not> IsDurangoActivated E)") auto
    obtain st s1 where g: "GetFeeManagerStatus S s caller = (st, s1)" by force
    note l1 = GetFeeManagerStatus_law [OF s g]
    show ?thesis
    proof (cases "IsEnabled st")
      case False
      with run s 2 rem c ro g l1 show ?thesis by (auto simp: setFeeConfig_def Let_def)
    next
      case en: True
      show ?thesis
      proof (cases "IsDurangoActivated E")
        case False
        obtain e s2 where st: "StoreFeeConfig S s1 c (as_BlockContext E) = (e, s2)" by force
        have res: "err = e \<and> s' = s2 \<and> gas' = rem \<and> ret = []"
          using run 2 c ro g en False st by (auto simp: setFeeConfig_def Let_def split: option.splits)
        from l1 have "inv s1" by simp
        from StoreFeeConfig_law [OF this st] res l1 c ro en rem False show ?thesis
          by (auto simp: as_BlockContext_def fee_config_set_def setFeeConfigCost_def split: option.splits)
      next
        case dur: True
        show ?thesis
        proof (cases rule: DeductGas_cases [of rem FeeConfigChangedEventGasCost])
          case 1
          with run s 2 rem c ro g en dur l1 show ?thesis by (auto simp: setFeeConfig_def Let_def)
        next
          case (2 rem')
          obtain old s2 where ld: "GetStoredFeeConfig S s1 = (old, s2)" by force
          from l1 have "inv s1" by simp
          note l2 = GetStoredFeeConfig_law [OF this ld]
          obtain data where data: "PackFeeConfigChangedEvent G caller old c = Inr ([feeConfigChangedID G, ucast caller], data)"
            "UnpackFeeConfigChangedEventData G data = Inr (old, c)"
            using FeeConfigChanged_roundtrip [OF G, of old c caller] l2 loadedConfig_fits [of "obs s1"]
              UnpackSetFeeConfigInput_fits [OF c] by auto
          define s3 where "s3 = cs_AddLog S s2 FM [feeConfigChangedID G, ucast caller] data (big_Uint64 (as_Number E))"
          have l3: "obs s3 = add_log (obs s) (feeConfigLog G E caller data)" "inv s3"
            using AddLog_obs [of s2] l1 l2 by (simp_all add: s3_def feeConfigLog_def)
          obtain e s4 where st: "StoreFeeConfig S s3 c (as_BlockContext E) = (e, s4)" by force
          have res: "err = e \<and> s' = s4 \<and> gas' = rem' \<and> ret = []"
            using run \<open>DeductGas gas SetFeeConfigGasCost = Inr rem\<close> 2 c ro g en dur ld data(1) st
            by (auto simp: setFeeConfig_def Let_def s3_def split: option.splits)
          have g': "unat gas' + setFeeConfigCost E = unat gas"
            using res 2 rem dur by (simp add: setFeeConfigCost_def FeeConfigChangedEventGasCost_def GetFeeConfigGasCost_def
                gas_cost_defs numFeeConfigField_def feeConfigInputLen_def)
          from StoreFeeConfig_law [OF l3(2) st] res l1 l2 l3 c ro en g' dur data(2) show ?thesis
            by (auto simp: as_BlockContext_def fee_config_set_def feeConfigLog_def split: option.splits)
        qed
      qed
    qed
  qed
qed

end

lemma GetFeeConfigOutput_roundtrip:
  assumes "geth_ok G" "fee_config_fits c"
  shows "\<exists>out. PackGetFeeConfigOutput G c = Inr out \<and> UnpackGetFeeConfigOutput G out skip = Inr c"
proof -
  from Arguments_roundtrip [OF assms(1) feeConfigArgs_ok [OF assms(2)], of "[]"] obtain d where
    d: "Arguments_Pack G feeConfigArgs (convertFromCommonConfig c) = Inr d" "length d = 256"
      "Arguments_Unpack feeConfigArgs d = Inr (convertFromCommonConfig c)"
    using feeConfigArgs_size by auto
  with convert_inverse [OF assms(2)] show ?thesis
    by (intro exI [of _ d])
       (auto simp: PackGetFeeConfigOutput_def ABI_PackOutput_def UnpackGetFeeConfigOutput_def ABI_Unpack_def getArguments_def
         FeeManagerABI_methods FeeManagerABI_events NewMethod_def Let_def feeConfigInputLen_def numFeeConfigField_def)
qed

text \<open>The fee configuration changes only if an enabled caller sets a verified one.\<close>

definition fee_guard :: "address \<Rightarrow> stateObs \<Rightarrow> stateObs \<Rightarrow> bool" where
  "fee_guard caller ob ob' \<longleftrightarrow>
     (loadedConfig ob' \<noteq> loadedConfig ob \<longrightarrow>
        IsEnabled (role_of ob FM caller) \<and> FeeConfig_Verify (loadedConfig ob') = None)"

context contract_state
begin

lemma getFeeConfig_outcome:
  assumes G: "geth_ok G" and s: "inv s"
    and run: "getFeeConfig G S E s caller addr input gas ro = (ret, gas', err, s')"
  shows "inv s' \<and> obs s' = obs s \<and> unat gas' \<le> unat gas \<and>
    (case err of
       Some _ \<Rightarrow> ret = [] \<and> unat gas < 40000
     | None \<Rightarrow> UnpackGetFeeConfigOutput G ret skip = Inr (loadedConfig (obs s)) \<and> unat gas' + 40000 = unat gas)"
proof (cases rule: DeductGas_cases [of gas GetFeeConfigGasCost])
  case 1
  with run s show ?thesis
    by (auto simp: getFeeConfig_def GetFeeConfigGasCost_def gas_cost_defs numFeeConfigField_def)
next
  case (2 rem)
  obtain c s1 where g: "GetStoredFeeConfig S s = (c, s1)" by force
  note l = GetStoredFeeConfig_law [OF s g]
  obtain out where "PackGetFeeConfigOutput G c = Inr out" "UnpackGetFeeConfigOutput G out skip = Inr c"
    using GetFeeConfigOutput_roundtrip [OF G, of c] l loadedConfig_fits by auto
  with run 2 g l show ?thesis
    by (auto simp: getFeeConfig_def GetFeeConfigGasCost_def gas_cost_defs numFeeConfigField_def)
qed

lemma getFeeConfigLastChangedAt_outcome:
  assumes G: "geth_ok G" and s: "inv s"
    and run: "getFeeConfigLastChangedAt G S E s caller addr input gas ro = (ret, gas', err, s')"
  shows "inv s' \<and> obs s' = obs s \<and> unat gas' \<le> unat gas \<and>
    (case err of
       Some _ \<Rightarrow> ret = [] \<and> unat gas < 5000
     | None \<Rightarrow> ret = hashBytes (ob_slot (obs s) FM feeConfigLastChangedAtKey) \<and> unat gas' + 5000 = unat gas)"
proof (cases rule: DeductGas_cases [of gas GetLastChangedAtGasCost])
  case 1
  with run s show ?thesis
    by (auto simp: getFeeConfigLastChangedAt_def GetLastChangedAtGasCost_def gas_cost_defs)
next
  case (2 rem)
  obtain n s1 where g: "GetFeeConfigLastChangedAt S s = (n, s1)" by force
  note l = GetFeeConfigLastChangedAt_law [OF s g]
  have "PackGetFeeConfigLastChangedAtOutput G n = Inr (hashBytes (ob_slot (obs s) FM feeConfigLastChangedAtKey))"
    using l pack_hash [OF G, of "ob_slot (obs s) FM feeConfigLastChangedAtKey"]
    by (simp add: PackGetFeeConfigLastChangedAtOutput_def ABI_PackOutput_def FeeManagerABI_methods NewMethod_def Let_def
        Arguments_Pack_single)
  with run 2 g l show ?thesis
    by (auto simp: getFeeConfigLastChangedAt_def GetLastChangedAtGasCost_def gas_cost_defs)
qed

lemma fee_functions_guarded:
  assumes "geth_ok G"
  shows "guarded FM (getFeeConfig G S)" "guarded FM (getFeeConfigLastChangedAt G S)" "guarded FM (setFeeConfig G S)"
proof -
  show "guarded FM (getFeeConfig G S)"
    unfolding guarded_def
    by (intro allI impI) (drule (1) getFeeConfig_outcome [OF assms, where skip = True], simp)
  show "guarded FM (getFeeConfigLastChangedAt G S)"
    unfolding guarded_def
    by (intro allI impI) (drule (1) getFeeConfigLastChangedAt_outcome [OF assms], simp)
  show "guarded FM (setFeeConfig G S)"
    unfolding guarded_def
  proof (intro allI impI)
    fix E s caller addr input gas ro ret gas' err s'
    assume s: "inv s" and run: "setFeeConfig G S E s caller addr input gas ro = (ret, gas', err, s')"
    note out = setFeeConfig_outcome [OF assms s run]
    have "role_of (obs s') FM a = role_of (obs s) FM a" for a
      using out fee_config_set_role by (auto split: option.splits)
    with out show "inv s' \<and> unat gas' \<le> unat gas \<and> role_guard FM caller (obs s) (obs s') \<and> (ro \<longrightarrow> obs s' = obs s)"
      by (auto simp: role_guard_def split: option.splits)
  qed
qed

lemma feeManager_guarded:
  assumes "geth_ok G" "createFeeManagerPrecompile G S = Some c"
  shows "guarded FM (Contract_Run c)"
  using fee_functions_guarded [OF assms(1)] assms(2) unfolding createFeeManagerPrecompile_def
  by (intro precompile_guarded [OF assms(1)]) auto

lemma setFeeConfig_fee_guard: "geth_ok G \<Longrightarrow> run_respects fee_guard (setFeeConfig G S)"
proof (rule respectsI)
  fix E s caller addr input gas ro ret gas' err s'
  assume G: "geth_ok G" and s: "inv s" and run: "setFeeConfig G S E s caller addr input gas ro = (ret, gas', err, s')"
  from setFeeConfig_outcome [OF G s run] show "fee_guard caller (obs s) (obs s')"
    by (auto simp: fee_guard_def FeeConfig_Verify_iff_ok fee_config_set_loaded split: option.splits)
qed

lemma feeManager_fee_guard:
  assumes G: "geth_ok G" and c: "createFeeManagerPrecompile G S = Some c"
  shows "run_respects fee_guard (Contract_Run c)"
proof (rule respects_precompile [OF G c [unfolded createFeeManagerPrecompile_def]])
  have "run_respects fee_guard (getFeeConfig G S)"
    by (rule respects_same, drule (1) getFeeConfig_outcome [OF G, where skip = True]) (simp_all add: fee_guard_def)
  moreover have "run_respects fee_guard (getFeeConfigLastChangedAt G S)"
    by (rule respects_same, drule (1) getFeeConfigLastChangedAt_outcome [OF G]) (simp_all add: fee_guard_def)
  ultimately show "\<forall>run \<in> snd ` set [(''getFeeConfig'', getFeeConfig G S),
      (''getFeeConfigLastChangedAt'', getFeeConfigLastChangedAt G S), (''setFeeConfig'', setFeeConfig G S)].
      run_respects fee_guard run"
    using setFeeConfig_fee_guard [OF G] by simp
qed (simp_all add: fee_guard_def roleSetObs_def)

end

end
