(* ===== verification/NativeMinter.thy ===== *)
theory NativeMinter
  imports AllowList PrecompileConfig
begin

text \<open>
  The native minter precompile (precompile/contracts/nativeminter): minting to an address, the
  NativeCoinMinted event, and Configure with its initial mint.
\<close>

subsection \<open>The ABI (contract.abi) and gas\<close>

definition mintArgs :: "Argument list" where
  "mintArgs = [inputArg ''addr'' AddressTy, inputArg ''amount'' (UintTy 256)]"

definition nativeMinterMethods :: "geth \<Rightarrow> Method list" where
  "nativeMinterMethods G = [NewMethod G ''mintNativeCoin'' ''mintNativeCoin'' mintArgs []]"

definition nativeMinterEvents :: "geth \<Rightarrow> Event list" where
  "nativeMinterEvents G =
     [NewEvent G ''NativeCoinMinted'' ''NativeCoinMinted'' False
        [indexedArg ''sender'' AddressTy, indexedArg ''recipient'' AddressTy, inputArg ''amount'' (UintTy 256)]]"

definition NativeMinterABI :: "geth \<Rightarrow> ABI" where
  "NativeMinterABI G = makeABI (nativeMinterMethods G @ allowListMethods G) (nativeMinterEvents G)"

definition mintInputLen :: nat where "mintInputLen = 32 + 32"

definition MintGasCost :: u64 where "MintGasCost = 30000"

definition NativeCoinMintedEventGasCost :: u64 where
  "NativeCoinMintedEventGasCost = LogGas + LogTopicGas * 3 + LogDataGas * 32"

subsection \<open>The functions\<close>

definition GetContractNativeMinterStatus :: "'s contractState \<Rightarrow> 's \<Rightarrow> address \<Rightarrow> Role \<times> 's" where
  "GetContractNativeMinterStatus S s a = GetAllowListStatus S s nativeMinter_ContractAddress a"

definition SetContractNativeMinterStatus :: "'s contractState \<Rightarrow> 's \<Rightarrow> address \<Rightarrow> Role \<Rightarrow> 's" where
  "SetContractNativeMinterStatus S s a role = SetAllowListRole S s nativeMinter_ContractAddress a role"

definition PackMintNativeCoin :: "geth \<Rightarrow> address \<Rightarrow> int \<Rightarrow> abi_error + byte list" where
  "PackMintNativeCoin G a amount = ABI_Pack G (NativeMinterABI G) ''mintNativeCoin'' [GoAddress a, GoInt BigInt amount]"

definition UnpackMintNativeCoinInput :: "geth \<Rightarrow> byte list \<Rightarrow> bool \<Rightarrow> run_error + (address \<times> int)" where
  "UnpackMintNativeCoinInput G input useStrictMode =
     (if useStrictMode \<and> length input \<noteq> mintInputLen then Inl (ErrInvalidLen (length input))
      else (case UnpackInput (NativeMinterABI G) ''mintNativeCoin'' input useStrictMode of
              Inl e \<Rightarrow> Inl (ErrAbi e)
            | Inr vs \<Rightarrow>
                (case vs of
                   [GoAddress a, GoInt BigInt n] \<Rightarrow> Inr (a, n)
                 | _ \<Rightarrow> Inl (ErrAbi ErrTypeMismatch))))"

definition PackNativeCoinMintedEvent ::
    "geth \<Rightarrow> address \<Rightarrow> address \<Rightarrow> int \<Rightarrow> abi_error + (hash list \<times> byte list)" where
  "PackNativeCoinMintedEvent G sender recipient amount =
     PackEvent G (NativeMinterABI G) ''NativeCoinMinted'' [GoAddress sender, GoAddress recipient, GoInt BigInt amount]"

definition UnpackNativeCoinMintedEventData :: "geth \<Rightarrow> byte list \<Rightarrow> run_error + int" where
  "UnpackNativeCoinMintedEventData G dataBytes =
     (case ABI_Unpack (NativeMinterABI G) ''NativeCoinMinted'' dataBytes of
        Inl e \<Rightarrow> Inl (ErrAbi e)
      | Inr vs \<Rightarrow> (case vs of [GoInt BigInt n] \<Rightarrow> Inr n | _ \<Rightarrow> Inl (ErrAbi ErrTypeMismatch)))"

text \<open>\<open>uint256.FromBig\<close> keeps the amount modulo the word size.\<close>

definition mintNativeCoin :: "geth \<Rightarrow> 's contractState \<Rightarrow> 's runFunc" where
  "mintNativeCoin G S E s caller addr input suppliedGas readOnly =
     (case DeductGas suppliedGas MintGasCost of
        Inl e \<Rightarrow> ([], 0, Some e, s)
      | Inr remainingGas \<Rightarrow>
      if readOnly then ([], remainingGas, Some ErrWriteProtection, s)
      else
     (let useStrictMode = \<not> IsDurangoActivated E in
      case UnpackMintNativeCoinInput G input useStrictMode of
        Inl e \<Rightarrow> ([], remainingGas, Some e, s)
      | Inr (to, amount) \<Rightarrow>
     (let (callerStatus, s) = GetAllowListStatus S s nativeMinter_ContractAddress caller in
      if \<not> IsEnabled callerStatus then ([], remainingGas, Some (ErrCannotMint caller), s)
      else
     (let mint = (\<lambda>remainingGas s.
            (let (exists, s) = cs_Exist S s to;
                 s = (if \<not> exists then cs_CreateAccount S s to else s)
             in ([], remainingGas, None, cs_AddBalance S s to (word_of_int amount)))) in
      if IsDurangoActivated E then
        (case DeductGas remainingGas NativeCoinMintedEventGasCost of
           Inl e \<Rightarrow> ([], 0, Some e, s)
         | Inr remainingGas \<Rightarrow>
             (case PackNativeCoinMintedEvent G caller to amount of
                Inl e \<Rightarrow> ([], remainingGas, Some (ErrAbi e), s)
              | Inr (topics, data) \<Rightarrow>
                  mint remainingGas
                    (cs_AddLog S s nativeMinter_ContractAddress topics data (big_Uint64 (as_Number E)))))
      else mint remainingGas s))))"

definition createNativeMinterPrecompile :: "geth \<Rightarrow> 's contractState \<Rightarrow> 's precompileContract option" where
  "createNativeMinterPrecompile G S =
     createPrecompile G S nativeMinter_ContractAddress (NativeMinterABI G) [(''mintNativeCoin'', mintNativeCoin G S)]"

subsection \<open>Configuration\<close>

definition nativeMinter_Configure :: "'s contractState \<Rightarrow> NativeMinterConfig \<Rightarrow> 's \<Rightarrow> 's" where
  "nativeMinter_Configure S config s =
     (let s = fold (\<lambda>(to, amount) s. case amount of None \<Rightarrow> s | Some n \<Rightarrow> cs_AddBalance S s to (word_of_int n))
                (nm_InitialMint config) s
      in AllowListConfig_Configure S (nm_AllowListConfig config) nativeMinter_ContractAddress s)"

subsection \<open>Encoding\<close>

abbreviation NM :: address where "NM \<equiv> nativeMinter_ContractAddress"

lemma NativeMinterABI_methods:
  "abi_Methods (NativeMinterABI G) ''mintNativeCoin'' = Some (NewMethod G ''mintNativeCoin'' ''mintNativeCoin'' mintArgs [])"
  "abi_Methods (NativeMinterABI G) ''NativeCoinMinted'' = None"
  by (simp_all add: NativeMinterABI_def makeABI_def nativeMinterMethods_def allowListMethods_def NewMethod_def Let_def)

lemma NativeMinterABI_events:
  "abi_Events (NativeMinterABI G) name = (if name = ''NativeCoinMinted'' then Some (hd (nativeMinterEvents G)) else None)"
  by (simp add: NativeMinterABI_def makeABI_def nativeMinterEvents_def NewEvent_def Let_def)

lemma mintArgs_nonindexed: "NonIndexed mintArgs = mintArgs"
  by (simp add: mintArgs_def NonIndexed_def)

lemma MintNativeCoin_roundtrip:
  assumes G: "geth_ok G" and n: "0 \<le> n" "n < 2 ^ 256"
  shows "\<exists>data. PackMintNativeCoin G a n = Inr (mth_ID (nativeMinterMethods G ! 0) @ data) \<and> length data = 64 \<and>
    UnpackMintNativeCoinInput G data True = Inr (a, n) \<and>
    (length rest < 2 ^ 62 \<longrightarrow> UnpackMintNativeCoinInput G (data @ rest) False = Inr (a, n))"
proof -
  let ?vs = "[GoAddress a, GoInt BigInt n]"
  have ok: "arguments_ok mintArgs ?vs"
    using n by (simp add: arguments_ok_def mintArgs_def reflectIntType_def intWidth_def)
  have static: "\<forall>x \<in> set mintArgs. \<not> isDynamicType (arg_Type x)" "sum_list (map (getTypeSize \<circ> arg_Type) mintArgs) = 64"
    "mintArgs \<noteq> []" by (simp_all add: mintArgs_def)
  from Arguments_roundtrip [OF G ok, of "[]"] static obtain d where
    d: "Arguments_Pack G mintArgs ?vs = Inr d" "length d = 64" "Arguments_Unpack mintArgs d = Inr ?vs" by auto
  from Arguments_roundtrip [OF G ok, of rest] d static
  have rest: "length rest < 2 ^ 62 \<longrightarrow> Arguments_Unpack mintArgs (d @ rest) = Inr ?vs" by auto
  show ?thesis
    using d rest
    by (intro exI [of _ d])
       (auto simp: PackMintNativeCoin_def ABI_Pack_def UnpackMintNativeCoinInput_def UnpackInput_def getInputs_def
         NativeMinterABI_methods NativeMinterABI_events NewMethod_def Let_def nativeMinterMethods_def mintInputLen_def)
qed

lemma UnpackMint_range:
  assumes "UnpackMintNativeCoinInput G input strict = Inr (a, n)"
  shows "0 \<le> n \<and> n < 2 ^ 256"
proof -
  from assms have u: "Arguments_Unpack mintArgs input = Inr [GoAddress a, GoInt BigInt n]"
    by (auto simp: UnpackMintNativeCoinInput_def UnpackInput_def getInputs_def NativeMinterABI_methods NativeMinterABI_events
        NewMethod_def Let_def split: if_splits sum.splits list.splits goValue.splits intKind.splits)
  from Arguments_Unpack_values(2) [OF u, of 1] show ?thesis
    using toGoType_uint256 by (fastforce simp: mintArgs_nonindexed mintArgs_def NonIndexed_def)
qed

definition nativeCoinMintedID :: "geth \<Rightarrow> hash" where
  "nativeCoinMintedID G = ev_ID (hd (nativeMinterEvents G))"

lemma PackNativeCoinMintedEvent_eq:
  assumes "geth_ok G" "0 \<le> n" "n < 2 ^ 256"
  shows "PackNativeCoinMintedEvent G sender recipient n =
    Inr ([nativeCoinMintedID G, ucast sender, ucast recipient], be_bytes 32 (nat n))"
  using pack_uint256 [OF assms]
  by (simp add: PackNativeCoinMintedEvent_def PackEvent_def NativeMinterABI_events nativeMinterEvents_def NewEvent_def
      nameInputs_def Let_def Arguments_Pack_single PackTopics_def nativeCoinMintedID_def)

subsection \<open>Calls\<close>

definition mintCost :: "accessibleState \<Rightarrow> nat" where
  "mintCost E = 30000 + (if IsDurangoActivated E then 1756 else 0)"

definition add_balance :: "stateObs \<Rightarrow> address \<Rightarrow> u256 \<Rightarrow> stateObs" where
  "add_balance ob a b = ob\<lparr>ob_balance := (ob_balance ob)(a := ob_balance ob a + b), ob_exist := (ob_exist ob)(a := True)\<rparr>"

definition mintObs :: "geth \<Rightarrow> accessibleState \<Rightarrow> address \<Rightarrow> address \<Rightarrow> int \<Rightarrow> stateObs \<Rightarrow> stateObs" where
  "mintObs G E caller to n ob =
     add_balance
       (if IsDurangoActivated E
        then add_log ob (NM, [nativeCoinMintedID G, ucast caller, ucast to], be_bytes 32 (nat n), big_Uint64 (as_Number E))
        else ob) to (word_of_int n)"

lemma mintObs_frame [simp]:
  "ob_slot (mintObs G E caller to n ob) = ob_slot ob" "ob_nonce (mintObs G E caller to n ob) = ob_nonce ob"
  "ob_balance (mintObs G E caller to n ob) = (ob_balance ob)(to := ob_balance ob to + word_of_int n)"
  by (simp_all add: mintObs_def add_balance_def add_log_def)

text \<open>Balances change only if an enabled caller mints, and then by the amount, at one address.\<close>

definition mint_guard :: "address \<Rightarrow> stateObs \<Rightarrow> stateObs \<Rightarrow> bool" where
  "mint_guard caller ob ob' \<longleftrightarrow>
     ob_nonce ob' = ob_nonce ob \<and>
     (ob_balance ob' \<noteq> ob_balance ob \<longrightarrow>
        IsEnabled (role_of ob NM caller) \<and> (\<exists>to amount. ob_balance ob' = (ob_balance ob)(to := ob_balance ob to + amount)))"

context contract_state
begin

lemma create_absent:
  assumes s: "inv s" and e: "cs_Exist S s a = (ex, s1)"
  shows "inv (if \<not> ex then cs_CreateAccount S s1 a else s1) \<and>
    obs (if \<not> ex then cs_CreateAccount S s1 a else s1) = (obs s)\<lparr>ob_exist := (ob_exist (obs s))(a := True)\<rparr>"
proof (cases ex)
  case True
  with Exist_law [OF s e] show ?thesis by (cases "obs s") (auto simp: fun_upd_idem)
next
  case False
  from Exist_law [OF s e] have "inv s1" "obs s1 = obs s" "\<not> ob_exist (obs s1) a" using False by auto
  with CreateAccount_law [of s1 a] absent_law [of s1 a] False show ?thesis
    by (cases "obs s") (auto simp: fun_upd_idem)
qed

lemma mint_step:
  assumes s: "inv s" and e: "cs_Exist S s a = (ex, s1)"
  shows "obs (cs_AddBalance S (if \<not> ex then cs_CreateAccount S s1 a else s1) a b) = add_balance (obs s) a b \<and>
    inv (cs_AddBalance S (if \<not> ex then cs_CreateAccount S s1 a else s1) a b)"
  using create_absent [OF s e] AddBalance_law [of "if \<not> ex then cs_CreateAccount S s1 a else s1" a b]
  by (simp add: add_balance_def)

lemma mint_outcome:
  assumes G: "geth_ok G" and s: "inv s"
    and run: "mintNativeCoin G S E s caller addr input gas ro = (ret, gas', err, s')"
  shows "inv s' \<and> unat gas' \<le> unat gas \<and> ret = [] \<and>
    (case err of
       Some _ \<Rightarrow> obs s' = obs s
     | None \<Rightarrow> \<not> ro \<and> IsEnabled (role_of (obs s) NM caller) \<and> unat gas' + mintCost E = unat gas \<and>
         (\<exists>to n. UnpackMintNativeCoinInput G input (\<not> IsDurangoActivated E) = Inr (to, n) \<and>
            obs s' = mintObs G E caller to n (obs s)))"
proof (cases rule: DeductGas_cases [of gas MintGasCost])
  case 1
  with run s show ?thesis by (auto simp: mintNativeCoin_def)
next
  case (2 rem)
  note gas1 = 2(1)
  from 2 have rem: "unat rem + 30000 = unat gas" by (simp add: MintGasCost_def)
  show ?thesis
  proof (cases "ro \<or> (\<exists>e. UnpackMintNativeCoinInput G input (\<not> IsDurangoActivated E) = Inl e)")
    case True
    with run s gas1 rem show ?thesis by (auto simp: mintNativeCoin_def Let_def split: if_splits)
  next
    case False
    then obtain to n where u: "UnpackMintNativeCoinInput G input (\<not> IsDurangoActivated E) = Inr (to, n)" and ro: "\<not> ro"
      by (cases "UnpackMintNativeCoinInput G input (\<not> IsDurangoActivated E)") auto
    note n = UnpackMint_range [OF u]
    obtain st s1 where g: "GetAllowListStatus S s NM caller = (st, s1)" by force
    note l1 = GetAllowListStatus_law [OF s g]
    show ?thesis
    proof (cases "IsEnabled st")
      case False
      with run s gas1 rem u ro g l1 show ?thesis by (auto simp: mintNativeCoin_def Let_def)
    next
      case en: True
      show ?thesis
      proof (cases "IsDurangoActivated E")
        case False
        obtain ex s2 where ex: "cs_Exist S s1 to = (ex, s2)" by force
        from l1 have "inv s1" by simp
        from mint_step [OF this ex, of "word_of_int n"] run gas1 u ro g en False ex l1 rem show ?thesis
          by (auto simp: mintNativeCoin_def Let_def mintObs_def mintCost_def)
      next
        case dur: True
        show ?thesis
        proof (cases rule: DeductGas_cases [of rem NativeCoinMintedEventGasCost])
          case 1
          with run s gas1 rem u ro g en dur l1 show ?thesis by (auto simp: mintNativeCoin_def Let_def)
        next
          case (2 rem')
          let ?s2 = "cs_AddLog S s1 NM [nativeCoinMintedID G, ucast caller, ucast to] (be_bytes 32 (nat n)) (big_Uint64 (as_Number E))"
          from l1 have "inv s1" by simp
          note l2 = AddLog_obs [OF this, of NM "[nativeCoinMintedID G, ucast caller, ucast to]" "be_bytes 32 (nat n)" "big_Uint64 (as_Number E)"]
          obtain ex s3 where ex: "cs_Exist S ?s2 to = (ex, s3)" by force
          from l2 have "inv ?s2" by simp
          from mint_step [OF this ex, of "word_of_int n"] l2 run gas1 2 u ro g en dur ex l1 rem n
            PackNativeCoinMintedEvent_eq [OF G, of n caller to]
          show ?thesis
            by (auto simp: mintNativeCoin_def Let_def mintObs_def mintCost_def NativeCoinMintedEventGasCost_def gas_cost_defs)
        qed
      qed
    qed
  qed
qed

lemma mint_guarded: "geth_ok G \<Longrightarrow> guarded NM (mintNativeCoin G S)"
  unfolding guarded_def
proof (intro allI impI)
  fix E s caller addr input gas ro ret gas' err s'
  assume G: "geth_ok G" and s: "inv s" and run: "mintNativeCoin G S E s caller addr input gas ro = (ret, gas', err, s')"
  from mint_outcome [OF G s run]
  show "inv s' \<and> unat gas' \<le> unat gas \<and> role_guard NM caller (obs s) (obs s') \<and> (ro \<longrightarrow> obs s' = obs s)"
    by (auto simp: role_guard_def role_of_def split: option.splits)
qed

lemma nativeMinter_guarded:
  assumes "geth_ok G" "createNativeMinterPrecompile G S = Some c"
  shows "guarded NM (Contract_Run c)"
  using mint_guarded [OF assms(1)] assms(2) unfolding createNativeMinterPrecompile_def
  by (intro precompile_guarded [OF assms(1)]) auto

lemma nativeMinter_mint_guard:
  assumes G: "geth_ok G" and c: "createNativeMinterPrecompile G S = Some c"
  shows "run_respects mint_guard (Contract_Run c)"
proof (rule respects_precompile [OF G c [unfolded createNativeMinterPrecompile_def]])
  have "run_respects mint_guard (mintNativeCoin G S)"
  proof (rule respectsI)
    fix E s caller addr input gas ro ret gas' err s'
    assume s: "inv s" and run: "mintNativeCoin G S E s caller addr input gas ro = (ret, gas', err, s')"
    from mint_outcome [OF G s run] show "mint_guard caller (obs s) (obs s')"
      by (auto simp: mint_guard_def split: option.splits) blast
  qed
  then show "\<forall>run \<in> snd ` set [(''mintNativeCoin'', mintNativeCoin G S)]. run_respects mint_guard run" by simp
qed (simp_all add: mint_guard_def roleSetObs_def set_role_def add_log_def)

end

end
