(* ===== verification/RewardManager.thy ===== *)
theory RewardManager
  imports AllowList PrecompileConfig
begin

text \<open>
  The reward manager precompile (precompile/contracts/rewardmanager): the reward address in its storage,
  the functions that read and set it, its events, and Configure.
\<close>

subsection \<open>The ABI (contract.abi), keys and gas\<close>

definition rewardManagerMethods :: "geth \<Rightarrow> Method list" where
  "rewardManagerMethods G =
     [NewMethod G ''allowFeeRecipients'' ''allowFeeRecipients'' [] [],
      NewMethod G ''areFeeRecipientsAllowed'' ''areFeeRecipientsAllowed'' [] [inputArg ''isAllowed'' BoolTy],
      NewMethod G ''currentRewardAddress'' ''currentRewardAddress'' [] [inputArg ''rewardAddress'' AddressTy],
      NewMethod G ''disableRewards'' ''disableRewards'' [] [],
      NewMethod G ''setRewardAddress'' ''setRewardAddress'' [inputArg ''addr'' AddressTy] []]"

definition rewardManagerEvents :: "geth \<Rightarrow> Event list" where
  "rewardManagerEvents G =
     [NewEvent G ''FeeRecipientsAllowed'' ''FeeRecipientsAllowed'' False [indexedArg ''sender'' AddressTy],
      NewEvent G ''RewardAddressChanged'' ''RewardAddressChanged'' False
        [indexedArg ''sender'' AddressTy, indexedArg ''oldRewardAddress'' AddressTy, indexedArg ''newRewardAddress'' AddressTy],
      NewEvent G ''RewardsDisabled'' ''RewardsDisabled'' False [indexedArg ''sender'' AddressTy]]"

definition RewardManagerABI :: "geth \<Rightarrow> ABI" where
  "RewardManagerABI G = makeABI (rewardManagerMethods G @ allowListMethods G) (rewardManagerEvents G)"

definition AllowFeeRecipientsGasCost :: u64 where "AllowFeeRecipientsGasCost = WriteGasCostPerSlot + ReadAllowListGasCost"
definition AreFeeRecipientsAllowedGasCost :: u64 where "AreFeeRecipientsAllowedGasCost = ReadAllowListGasCost"
definition CurrentRewardAddressGasCost :: u64 where "CurrentRewardAddressGasCost = ReadAllowListGasCost"
definition DisableRewardsGasCost :: u64 where "DisableRewardsGasCost = WriteGasCostPerSlot + ReadAllowListGasCost"
definition SetRewardAddressGasCost :: u64 where "SetRewardAddressGasCost = WriteGasCostPerSlot + ReadAllowListGasCost"

definition FeeRecipientsAllowedEventGasCost :: u64 where "FeeRecipientsAllowedEventGasCost = LogGas + LogTopicGas * 2"
definition RewardAddressChangedEventGasCost :: u64 where
  "RewardAddressChangedEventGasCost = LogGas + LogTopicGas * 4 + ReadGasCostPerSlot"
definition RewardsDisabledEventGasCost :: u64 where "RewardsDisabledEventGasCost = LogGas + LogTopicGas * 2"

definition rewardAddressStorageKey :: hash where
  "rewardAddressStorageKey = firstBytes (stringBytes ''rask'')"

definition allowFeeRecipientsAddressValue :: hash where
  "allowFeeRecipientsAddressValue = firstBytes (stringBytes ''afrav'')"

subsection \<open>The stored reward address\<close>

definition GetRewardManagerAllowListStatus :: "'s contractState \<Rightarrow> 's \<Rightarrow> address \<Rightarrow> Role \<times> 's" where
  "GetRewardManagerAllowListStatus S s a = GetAllowListStatus S s rewardManager_ContractAddress a"

definition SetRewardManagerAllowListStatus :: "'s contractState \<Rightarrow> 's \<Rightarrow> address \<Rightarrow> Role \<Rightarrow> 's" where
  "SetRewardManagerAllowListStatus S s a role = SetAllowListRole S s rewardManager_ContractAddress a role"

definition EnableAllowFeeRecipients :: "'s contractState \<Rightarrow> 's \<Rightarrow> 's" where
  "EnableAllowFeeRecipients S s =
     cs_SetState S s rewardManager_ContractAddress rewardAddressStorageKey allowFeeRecipientsAddressValue"

definition DisableFeeRewards :: "'s contractState \<Rightarrow> 's \<Rightarrow> 's" where
  "DisableFeeRewards S s =
     cs_SetState S s rewardManager_ContractAddress rewardAddressStorageKey (BytesToHash (addressBytes BlackholeAddr))"

definition StoreRewardAddress :: "'s contractState \<Rightarrow> 's \<Rightarrow> address \<Rightarrow> 's" where
  "StoreRewardAddress S s val =
     cs_SetState S s rewardManager_ContractAddress rewardAddressStorageKey (BytesToHash (addressBytes val))"

definition GetStoredRewardAddress :: "'s contractState \<Rightarrow> 's \<Rightarrow> (address \<times> bool) \<times> 's" where
  "GetStoredRewardAddress S s =
     (let (val, s) = cs_GetState S s rewardManager_ContractAddress rewardAddressStorageKey
      in ((BytesToAddress (hashBytes val), val = allowFeeRecipientsAddressValue), s))"

subsection \<open>Packing\<close>

definition PackAreFeeRecipientsAllowedOutput :: "geth \<Rightarrow> bool \<Rightarrow> abi_error + byte list" where
  "PackAreFeeRecipientsAllowedOutput G isAllowed =
     ABI_PackOutput G (RewardManagerABI G) ''areFeeRecipientsAllowed'' [GoBool isAllowed]"

definition PackCurrentRewardAddressOutput :: "geth \<Rightarrow> address \<Rightarrow> abi_error + byte list" where
  "PackCurrentRewardAddressOutput G rewardAddress =
     ABI_PackOutput G (RewardManagerABI G) ''currentRewardAddress'' [GoAddress rewardAddress]"

definition PackSetRewardAddress :: "geth \<Rightarrow> address \<Rightarrow> abi_error + byte list" where
  "PackSetRewardAddress G addr = ABI_Pack G (RewardManagerABI G) ''setRewardAddress'' [GoAddress addr]"

definition UnpackSetRewardAddressInput :: "geth \<Rightarrow> byte list \<Rightarrow> bool \<Rightarrow> run_error + address" where
  "UnpackSetRewardAddressInput G input useStrictMode =
     copyAddress (UnpackInput (RewardManagerABI G) ''setRewardAddress'' input useStrictMode)"

definition PackFeeRecipientsAllowedEvent :: "geth \<Rightarrow> address \<Rightarrow> abi_error + (hash list \<times> byte list)" where
  "PackFeeRecipientsAllowedEvent G sender = PackEvent G (RewardManagerABI G) ''FeeRecipientsAllowed'' [GoAddress sender]"

definition PackRewardAddressChangedEvent ::
    "geth \<Rightarrow> address \<Rightarrow> address \<Rightarrow> address \<Rightarrow> abi_error + (hash list \<times> byte list)" where
  "PackRewardAddressChangedEvent G sender oldRewardAddress newRewardAddress =
     PackEvent G (RewardManagerABI G) ''RewardAddressChanged''
       [GoAddress sender, GoAddress oldRewardAddress, GoAddress newRewardAddress]"

definition PackRewardsDisabledEvent :: "geth \<Rightarrow> address \<Rightarrow> abi_error + (hash list \<times> byte list)" where
  "PackRewardsDisabledEvent G sender = PackEvent G (RewardManagerABI G) ''RewardsDisabled'' [GoAddress sender]"

subsection \<open>The functions\<close>

definition allowFeeRecipients :: "geth \<Rightarrow> 's contractState \<Rightarrow> 's runFunc" where
  "allowFeeRecipients G S E s caller addr input suppliedGas readOnly =
     (case DeductGas suppliedGas AllowFeeRecipientsGasCost of
        Inl e \<Rightarrow> ([], 0, Some e, s)
      | Inr remainingGas \<Rightarrow>
      if readOnly then ([], remainingGas, Some ErrWriteProtection, s)
      else
     (let (callerStatus, s) = GetAllowListStatus S s rewardManager_ContractAddress caller in
      if \<not> IsEnabled callerStatus then ([], remainingGas, Some (ErrCannotAllowFeeRecipients caller), s)
      else if IsDurangoActivated E then
        (case DeductGas remainingGas FeeRecipientsAllowedEventGasCost of
           Inl e \<Rightarrow> ([], 0, Some e, s)
         | Inr remainingGas \<Rightarrow>
             (case PackFeeRecipientsAllowedEvent G caller of
                Inl e \<Rightarrow> ([], remainingGas, Some (ErrAbi e), s)
              | Inr (topics, data) \<Rightarrow>
                  (let s = cs_AddLog S s rewardManager_ContractAddress topics data (big_Uint64 (as_Number E))
                   in ([], remainingGas, None, EnableAllowFeeRecipients S s))))
      else ([], remainingGas, None, EnableAllowFeeRecipients S s)))"

definition areFeeRecipientsAllowed :: "geth \<Rightarrow> 's contractState \<Rightarrow> 's runFunc" where
  "areFeeRecipientsAllowed G S E s caller addr input suppliedGas readOnly =
     (case DeductGas suppliedGas AreFeeRecipientsAllowedGasCost of
        Inl e \<Rightarrow> ([], 0, Some e, s)
      | Inr remainingGas \<Rightarrow>
          (let ((_, output), s) = GetStoredRewardAddress S s in
           case PackAreFeeRecipientsAllowedOutput G output of
             Inl e \<Rightarrow> ([], remainingGas, Some (ErrAbi e), s)
           | Inr packedOutput \<Rightarrow> (packedOutput, remainingGas, None, s)))"

definition setRewardAddress :: "geth \<Rightarrow> 's contractState \<Rightarrow> 's runFunc" where
  "setRewardAddress G S E s caller addr input suppliedGas readOnly =
     (case DeductGas suppliedGas SetRewardAddressGasCost of
        Inl e \<Rightarrow> ([], 0, Some e, s)
      | Inr remainingGas \<Rightarrow>
      if readOnly then ([], remainingGas, Some ErrWriteProtection, s)
      else
     (let useStrictMode = \<not> IsDurangoActivated E in
      case UnpackSetRewardAddressInput G input useStrictMode of
        Inl e \<Rightarrow> ([], remainingGas, Some e, s)
      | Inr rewardAddress \<Rightarrow>
     (let (callerStatus, s) = GetAllowListStatus S s rewardManager_ContractAddress caller in
      if \<not> IsEnabled callerStatus then ([], remainingGas, Some (ErrCannotSetRewardAddress caller), s)
      else if rewardAddress = 0 then ([], remainingGas, Some ErrEmptyRewardAddress, s)
      else if IsDurangoActivated E then
        (case DeductGas remainingGas RewardAddressChangedEventGasCost of
           Inl e \<Rightarrow> ([], 0, Some e, s)
         | Inr remainingGas \<Rightarrow>
             (let ((oldRewardAddress, _), s) = GetStoredRewardAddress S s in
              case PackRewardAddressChangedEvent G caller oldRewardAddress rewardAddress of
                Inl e \<Rightarrow> ([], remainingGas, Some (ErrAbi e), s)
              | Inr (topics, data) \<Rightarrow>
                  (let s = cs_AddLog S s rewardManager_ContractAddress topics data (big_Uint64 (as_Number E))
                   in ([], remainingGas, None, StoreRewardAddress S s rewardAddress))))
      else ([], remainingGas, None, StoreRewardAddress S s rewardAddress))))"

definition currentRewardAddress :: "geth \<Rightarrow> 's contractState \<Rightarrow> 's runFunc" where
  "currentRewardAddress G S E s caller addr input suppliedGas readOnly =
     (case DeductGas suppliedGas CurrentRewardAddressGasCost of
        Inl e \<Rightarrow> ([], 0, Some e, s)
      | Inr remainingGas \<Rightarrow>
          (let ((output, _), s) = GetStoredRewardAddress S s in
           case PackCurrentRewardAddressOutput G output of
             Inl e \<Rightarrow> ([], remainingGas, Some (ErrAbi e), s)
           | Inr packedOutput \<Rightarrow> (packedOutput, remainingGas, None, s)))"

definition disableRewards :: "geth \<Rightarrow> 's contractState \<Rightarrow> 's runFunc" where
  "disableRewards G S E s caller addr input suppliedGas readOnly =
     (case DeductGas suppliedGas DisableRewardsGasCost of
        Inl e \<Rightarrow> ([], 0, Some e, s)
      | Inr remainingGas \<Rightarrow>
      if readOnly then ([], remainingGas, Some ErrWriteProtection, s)
      else
     (let (callerStatus, s) = GetAllowListStatus S s rewardManager_ContractAddress caller in
      if \<not> IsEnabled callerStatus then ([], remainingGas, Some (ErrCannotDisableRewards caller), s)
      else if IsDurangoActivated E then
        (case DeductGas remainingGas RewardsDisabledEventGasCost of
           Inl e \<Rightarrow> ([], 0, Some e, s)
         | Inr remainingGas \<Rightarrow>
             (case PackRewardsDisabledEvent G caller of
                Inl e \<Rightarrow> ([], remainingGas, Some (ErrAbi e), s)
              | Inr (topics, data) \<Rightarrow>
                  (let s = cs_AddLog S s rewardManager_ContractAddress topics data (big_Uint64 (as_Number E))
                   in ([], remainingGas, None, DisableFeeRewards S s))))
      else ([], remainingGas, None, DisableFeeRewards S s)))"

definition createRewardManagerPrecompile :: "geth \<Rightarrow> 's contractState \<Rightarrow> 's precompileContract option" where
  "createRewardManagerPrecompile G S =
     createPrecompile G S rewardManager_ContractAddress (RewardManagerABI G)
       [(''allowFeeRecipients'', allowFeeRecipients G S), (''areFeeRecipientsAllowed'', areFeeRecipientsAllowed G S),
        (''currentRewardAddress'', currentRewardAddress G S), (''disableRewards'', disableRewards G S),
        (''setRewardAddress'', setRewardAddress G S)]"

subsection \<open>Configuration\<close>

definition InitialRewardConfig_Configure :: "'s contractState \<Rightarrow> InitialRewardConfig \<Rightarrow> 's \<Rightarrow> 's" where
  "InitialRewardConfig_Configure S i s =
     (if ir_AllowFeeRecipients i then EnableAllowFeeRecipients S s
      else if ir_RewardAddress i = 0 then DisableFeeRewards S s
      else StoreRewardAddress S s (ir_RewardAddress i))"

definition rewardManager_Configure ::
    "'s contractState \<Rightarrow> ChainConfigView \<Rightarrow> RewardManagerConfig \<Rightarrow> 's \<Rightarrow> 's" where
  "rewardManager_Configure S chainConfig config s =
     (let s = (case rm_InitialRewardConfig config of
                 Some i \<Rightarrow> InitialRewardConfig_Configure S i s
               | None \<Rightarrow>
                   if ccv_AllowedFeeRecipients chainConfig then EnableAllowFeeRecipients S s
                   else DisableFeeRewards S s)
      in AllowListConfig_Configure S (rm_AllowListConfig config) rewardManager_ContractAddress s)"

subsection \<open>The reward in the state\<close>

abbreviation RM :: address where "RM \<equiv> rewardManager_ContractAddress"

definition stored_reward :: "stateObs \<Rightarrow> address \<times> bool" where
  "stored_reward ob =
     (let val = ob_slot ob RM rewardAddressStorageKey in (ucast val, val = allowFeeRecipientsAddressValue))"

lemma reward_keys:
  "rewardAddressStorageKey \<notin> address_keys" "allowFeeRecipientsAddressValue \<notin> address_keys"
  unfolding rewardAddressStorageKey_def allowFeeRecipientsAddressValue_def stringBytes_def
  by (simp_all add: firstBytes_not_address)

lemma ucast_address_back [simp]: "(ucast (ucast (a :: address) :: hash) :: address) = a"
proof -
  have "take_bit 256 (uint a) = uint a"
    by (rule take_bit_int_eq_self) (use uint_lt2p [of a] in auto)
  then show ?thesis by (simp add: word_uint_eq_iff unsigned_ucast_eq unsigned_take_bit_eq)
qed

lemma address_not_allow_value [simp]: "(ucast (a :: address) :: hash) \<noteq> allowFeeRecipientsAddressValue"
  using reward_keys(2) by (metis address_key)

lemma stored_reward_put:
  "stored_reward (put_slot ob RM rewardAddressStorageKey (ucast (a :: address))) = (a, False)"
  "snd (stored_reward (put_slot ob RM rewardAddressStorageKey allowFeeRecipientsAddressValue))"
  by (simp_all add: stored_reward_def Let_def)

lemma stored_reward_set_role [simp]: "stored_reward (set_role ob pa a r) = stored_reward ob"
  using reward_keys(1) by (simp add: stored_reward_def Let_def set_role_frame)

lemma stored_reward_add_log [simp]: "stored_reward (add_log ob l) = stored_reward ob"
  by (simp add: stored_reward_def add_log_def)

lemma role_of_put_reward [simp]: "role_of (put_slot ob RM rewardAddressStorageKey v) pa a = role_of ob pa a"
proof -
  have "(ucast a :: hash) \<noteq> rewardAddressStorageKey" using reward_keys(1) by (metis address_key)
  then show ?thesis by (simp add: role_of_def)
qed

lemma RewardManagerABI_methods:
  "abi_Methods (RewardManagerABI G) ''areFeeRecipientsAllowed'' =
     Some (NewMethod G ''areFeeRecipientsAllowed'' ''areFeeRecipientsAllowed'' [] [inputArg ''isAllowed'' BoolTy])"
  "abi_Methods (RewardManagerABI G) ''currentRewardAddress'' =
     Some (NewMethod G ''currentRewardAddress'' ''currentRewardAddress'' [] [inputArg ''rewardAddress'' AddressTy])"
  "abi_Methods (RewardManagerABI G) ''setRewardAddress'' =
     Some (NewMethod G ''setRewardAddress'' ''setRewardAddress'' [inputArg ''addr'' AddressTy] [])"
  "abi_Events (RewardManagerABI G) ''setRewardAddress'' = None"
  by (simp_all add: RewardManagerABI_def makeABI_def rewardManagerMethods_def rewardManagerEvents_def NewMethod_def
      NewEvent_def Let_def)

text \<open>The events: the signature and the addresses as topics, no data.\<close>

lemma reward_events:
  "\<exists>i. PackFeeRecipientsAllowedEvent G sender = Inr ([i, ucast sender], [])"
  "\<exists>i. PackRewardsDisabledEvent G sender = Inr ([i, ucast sender], [])"
  "\<exists>i. PackRewardAddressChangedEvent G sender old new = Inr ([i, ucast sender, ucast old, ucast new], [])"
  by (simp_all add: PackFeeRecipientsAllowedEvent_def PackRewardsDisabledEvent_def PackRewardAddressChangedEvent_def
      PackEvent_def RewardManagerABI_def makeABI_def rewardManagerEvents_def NewEvent_def nameInputs_def Let_def
      Arguments_Pack_def joinHeadTail_def PackTopics_def)

lemma reward_outputs:
  assumes "geth_ok G"
  shows "PackAreFeeRecipientsAllowedOutput G b = Inr (be_bytes 32 (if b then 1 else 0))"
    "PackCurrentRewardAddressOutput G a = Inr (replicate 12 0 @ addressBytes a)"
  using pack_bool [OF assms, of b] pack_address [OF assms, of a]
  by (simp_all add: PackAreFeeRecipientsAllowedOutput_def PackCurrentRewardAddressOutput_def ABI_PackOutput_def
      RewardManagerABI_methods NewMethod_def Let_def Arguments_Pack_single)

text \<open>
  What a call that changes the reward does: with \<open>val\<close> the new value of the slot, an event after Durango
  and the write.
\<close>

definition reward_set :: "accessibleState \<Rightarrow> address \<Rightarrow> hash \<Rightarrow> stateObs \<Rightarrow> stateObs \<Rightarrow> bool" where
  "reward_set E caller val ob ob' \<longleftrightarrow>
     (if IsDurangoActivated E
      then (\<exists>i rest. ob' = put_slot (add_log ob (RM, i # ucast caller # rest, [], big_Uint64 (as_Number E)))
              RM rewardAddressStorageKey val)
      else ob' = put_slot ob RM rewardAddressStorageKey val)"

lemma reward_set_stored:
  "reward_set E caller (ucast (a :: address)) ob ob' \<Longrightarrow> stored_reward ob' = (a, False)"
  "reward_set E caller allowFeeRecipientsAddressValue ob ob' \<Longrightarrow> snd (stored_reward ob')"
  by (auto simp: reward_set_def stored_reward_put split: if_splits)

lemma reward_set_role: "reward_set E caller val ob ob' \<Longrightarrow> role_of ob' pa a = role_of ob pa a"
  by (auto simp: reward_set_def split: if_splits)

definition reward_outcome ::
    "(stateObs \<Rightarrow> stateObs \<Rightarrow> bool) \<Rightarrow> address \<Rightarrow> bool \<Rightarrow> run_error option \<Rightarrow> stateObs \<Rightarrow> stateObs \<Rightarrow> bool" where
  "reward_outcome R caller ro err ob ob' \<longleftrightarrow>
     (case err of
        Some _ \<Rightarrow> ob' = ob
      | None \<Rightarrow> \<not> ro \<and> IsEnabled (role_of ob RM caller) \<and> R ob ob')"

context contract_state
begin

lemma GetStoredRewardAddress_law:
  "inv s \<Longrightarrow> GetStoredRewardAddress S s = (r, s') \<Longrightarrow> r = stored_reward (obs s) \<and> obs s' = obs s \<and> inv s'"
  using GetState_law by (auto simp: GetStoredRewardAddress_def stored_reward_def Let_def split: prod.splits)

lemma store_laws:
  "inv s \<Longrightarrow> obs (EnableAllowFeeRecipients S s) = put_slot (obs s) RM rewardAddressStorageKey allowFeeRecipientsAddressValue \<and>
     inv (EnableAllowFeeRecipients S s)"
  "inv s \<Longrightarrow> obs (DisableFeeRewards S s) = put_slot (obs s) RM rewardAddressStorageKey (ucast BlackholeAddr) \<and>
     inv (DisableFeeRewards S s)"
  "inv s \<Longrightarrow> obs (StoreRewardAddress S s a) = put_slot (obs s) RM rewardAddressStorageKey (ucast a) \<and>
     inv (StoreRewardAddress S s a)"
  using SetState_obs by (simp_all add: EnableAllowFeeRecipients_def DisableFeeRewards_def StoreRewardAddress_def)

lemma allowFeeRecipients_outcome:
  assumes s: "inv s" and run: "allowFeeRecipients G S E s caller addr input gas ro = (ret, gas', err, s')"
  shows "inv s' \<and> unat gas' \<le> unat gas \<and> ret = [] \<and>
    reward_outcome (reward_set E caller allowFeeRecipientsAddressValue) caller ro err (obs s) (obs s')"
proof -
  obtain st s1 where g: "GetAllowListStatus S s RM caller = (st, s1)" by force
  note l = GetAllowListStatus_law [OF s g]
  obtain i where ev: "PackFeeRecipientsAllowedEvent G caller = Inr ([i, ucast caller], [])" using reward_events(1) by blast
  note a = AddLog_obs [of s1 RM "[i, ucast caller]" "[]" "big_Uint64 (as_Number E)"]
    store_laws(1) [of s1] store_laws(1) [of "cs_AddLog S s1 RM [i, ucast caller] [] (big_Uint64 (as_Number E))"]
  show ?thesis
    using run s g l ev a
    by (cases rule: DeductGas_cases [of gas AllowFeeRecipientsGasCost];
        cases rule: DeductGas_cases [of "gas - AllowFeeRecipientsGasCost" FeeRecipientsAllowedEventGasCost])
       (auto simp: allowFeeRecipients_def reward_outcome_def reward_set_def DeductGas_def Let_def split: if_splits)
qed

lemma disableRewards_outcome:
  assumes s: "inv s" and run: "disableRewards G S E s caller addr input gas ro = (ret, gas', err, s')"
  shows "inv s' \<and> unat gas' \<le> unat gas \<and> ret = [] \<and>
    reward_outcome (reward_set E caller (ucast BlackholeAddr)) caller ro err (obs s) (obs s')"
proof -
  obtain st s1 where g: "GetAllowListStatus S s RM caller = (st, s1)" by force
  note l = GetAllowListStatus_law [OF s g]
  obtain i where ev: "PackRewardsDisabledEvent G caller = Inr ([i, ucast caller], [])" using reward_events(2) by blast
  note a = AddLog_obs [of s1 RM "[i, ucast caller]" "[]" "big_Uint64 (as_Number E)"]
    store_laws(2) [of s1] store_laws(2) [of "cs_AddLog S s1 RM [i, ucast caller] [] (big_Uint64 (as_Number E))"]
  show ?thesis
    using run s g l ev a
    by (cases rule: DeductGas_cases [of gas DisableRewardsGasCost];
        cases rule: DeductGas_cases [of "gas - DisableRewardsGasCost" RewardsDisabledEventGasCost])
       (auto simp: disableRewards_def reward_outcome_def reward_set_def DeductGas_def Let_def split: if_splits)
qed

end

text \<open>The reward changes only if an enabled caller changes it, and never to the empty address.\<close>

definition reward_guard :: "address \<Rightarrow> stateObs \<Rightarrow> stateObs \<Rightarrow> bool" where
  "reward_guard caller ob ob' \<longleftrightarrow>
     (stored_reward ob' \<noteq> stored_reward ob \<longrightarrow>
        IsEnabled (role_of ob RM caller) \<and> (snd (stored_reward ob') \<or> fst (stored_reward ob') \<noteq> 0))"

lemma BlackholeAddr_nonzero: "BlackholeAddr \<noteq> 0"
  by (simp add: BlackholeAddr_def)

context contract_state
begin

lemma setRewardAddress_outcome:
  assumes s: "inv s" and run: "setRewardAddress G S E s caller addr input gas ro = (ret, gas', err, s')"
  shows "inv s' \<and> unat gas' \<le> unat gas \<and> ret = [] \<and>
    reward_outcome (\<lambda>ob ob'. \<exists>a. UnpackSetRewardAddressInput G input (\<not> IsDurangoActivated E) = Inr a \<and> a \<noteq> 0 \<and>
      reward_set E caller (ucast a) ob ob') caller ro err (obs s) (obs s')"
proof (cases rule: DeductGas_cases [of gas SetRewardAddressGasCost])
  case 1
  with run s show ?thesis by (auto simp: setRewardAddress_def reward_outcome_def)
next
  case (2 rem)
  note gas1 = 2
  show ?thesis
  proof (cases "UnpackSetRewardAddressInput G input (\<not> IsDurangoActivated E)")
    case (Inl e)
    with run s gas1 show ?thesis by (auto simp: setRewardAddress_def reward_outcome_def split: if_splits)
  next
    case (Inr a)
    obtain st s1 where g: "GetAllowListStatus S s RM caller = (st, s1)" by force
    note l = GetAllowListStatus_law [OF s g]
    show ?thesis
    proof (cases "ro \<or> \<not> IsEnabled st \<or> a = 0 \<or> \<not> IsDurangoActivated E")
      case True
      with run s gas1 Inr g l store_laws(3) [of s1 a] show ?thesis
        by (auto simp: setRewardAddress_def reward_outcome_def reward_set_def split: if_splits)
    next
      case False
      show ?thesis
      proof (cases rule: DeductGas_cases [of rem RewardAddressChangedEventGasCost])
        case 1
        with False run s gas1 Inr g l show ?thesis by (auto simp: setRewardAddress_def reward_outcome_def)
      next
        case (2 rem')
        obtain old b s2 where o: "GetStoredRewardAddress S s1 = ((old, b), s2)" by (metis prod.exhaust)
        from l have "inv s1" by simp
        note l2 = GetStoredRewardAddress_law [OF this o]
        obtain i where ev: "PackRewardAddressChangedEvent G caller old a = Inr ([i, ucast caller, ucast old, ucast a], [])"
          using reward_events(3) by blast
        let ?s3 = "cs_AddLog S s2 RM [i, ucast caller, ucast old, ucast a] [] (big_Uint64 (as_Number E))"
        have res: "err = None \<and> s' = StoreRewardAddress S ?s3 a \<and> gas' = rem' \<and> ret = []"
          using False run gas1(1) 2(1) Inr g o ev by (auto simp: setRewardAddress_def)
        have l3: "obs ?s3 = add_log (obs s) (RM, [i, ucast caller, ucast old, ucast a], [], big_Uint64 (as_Number E))" "inv ?s3"
          using AddLog_obs [of s2] l l2 by simp_all
        from store_laws(3) [OF l3(2), of a] l3(1) res False Inr l gas1 2 show ?thesis
          by (auto simp: reward_outcome_def reward_set_def)
      qed
    qed
  qed
qed

lemma reward_getters_outcome:
  assumes G: "geth_ok G" and s: "inv s"
  shows "areFeeRecipientsAllowed G S E s caller addr input gas ro = (ret, gas', err, s') \<Longrightarrow>
      inv s' \<and> obs s' = obs s \<and> unat gas' \<le> unat gas \<and>
      (err = None \<longrightarrow> ret = be_bytes 32 (if snd (stored_reward (obs s)) then 1 else 0))"
    "currentRewardAddress G S E s caller addr input gas ro = (ret, gas', err, s') \<Longrightarrow>
      inv s' \<and> obs s' = obs s \<and> unat gas' \<le> unat gas \<and>
      (err = None \<longrightarrow> ret = replicate 12 0 @ addressBytes (fst (stored_reward (obs s))))"
proof -
  obtain a b s1 where o: "GetStoredRewardAddress S s = ((a, b), s1)" by (metis prod.exhaust)
  note l = GetStoredRewardAddress_law [OF s o]
  from l have ab: "a = fst (stored_reward (obs s))" "b = snd (stored_reward (obs s))" by (metis fst_conv, metis snd_conv)
  show "areFeeRecipientsAllowed G S E s caller addr input gas ro = (ret, gas', err, s') \<Longrightarrow>
      inv s' \<and> obs s' = obs s \<and> unat gas' \<le> unat gas \<and>
      (err = None \<longrightarrow> ret = be_bytes 32 (if snd (stored_reward (obs s)) then 1 else 0))"
    using s o l ab reward_outputs(1) [OF G, of b]
    by (cases rule: DeductGas_cases [of gas AreFeeRecipientsAllowedGasCost])
       (auto simp: areFeeRecipientsAllowed_def split: prod.splits)
  show "currentRewardAddress G S E s caller addr input gas ro = (ret, gas', err, s') \<Longrightarrow>
      inv s' \<and> obs s' = obs s \<and> unat gas' \<le> unat gas \<and>
      (err = None \<longrightarrow> ret = replicate 12 0 @ addressBytes (fst (stored_reward (obs s))))"
    using s o l ab reward_outputs(2) [OF G, of a]
    by (cases rule: DeductGas_cases [of gas CurrentRewardAddressGasCost])
       (auto simp: currentRewardAddress_def split: prod.splits)
qed

lemma reward_outcome_guards:
  assumes "reward_outcome R caller ro err ob ob'"
    and "\<And>ob ob'. R ob ob' \<Longrightarrow> (\<forall>pa a. role_of ob' pa a = role_of ob pa a) \<and> (snd (stored_reward ob') \<or> fst (stored_reward ob') \<noteq> 0)"
  shows "role_guard RM caller ob ob' \<and> (ro \<longrightarrow> ob' = ob) \<and> reward_guard caller ob ob'"
  using assms by (fastforce simp: reward_outcome_def role_guard_def reward_guard_def split: option.splits)

lemma reward_functions:
  assumes G: "geth_ok G"
  shows "\<forall>run \<in> {allowFeeRecipients G S, areFeeRecipientsAllowed G S, currentRewardAddress G S, disableRewards G S, setRewardAddress G S}.
    guarded RM run \<and> run_respects reward_guard run"
proof -
  have g: "guarded RM run \<and> run_respects reward_guard run"
    if "\<And>E s caller addr input gas ro ret gas' err s'. inv s \<Longrightarrow> run E s caller addr input gas ro = (ret, gas', err, s') \<Longrightarrow>
      inv s' \<and> unat gas' \<le> unat gas \<and> role_guard RM caller (obs s) (obs s') \<and> (ro \<longrightarrow> obs s' = obs s) \<and>
      reward_guard caller (obs s) (obs s')" for run
    unfolding guarded_def run_respects_def using that by meson
  have "guarded RM (allowFeeRecipients G S) \<and> run_respects reward_guard (allowFeeRecipients G S)"
    by (rule g, drule (1) allowFeeRecipients_outcome)
       (use reward_outcome_guards [where R = "reward_set E caller allowFeeRecipientsAddressValue" for E caller]
          reward_set_role reward_set_stored(2) in blast)
  moreover have "guarded RM (disableRewards G S) \<and> run_respects reward_guard (disableRewards G S)"
    by (rule g, drule (1) disableRewards_outcome)
       (use reward_outcome_guards [where R = "reward_set E caller (ucast BlackholeAddr)" for E caller]
          reward_set_role reward_set_stored(1) BlackholeAddr_nonzero in fastforce)
  moreover have "guarded RM (setRewardAddress G S) \<and> run_respects reward_guard (setRewardAddress G S)"
  proof (rule g)
    fix E s caller addr input gas ro ret gas' err s'
    assume s: "inv s" and run: "setRewardAddress G S E s caller addr input gas ro = (ret, gas', err, s')"
    note out = setRewardAddress_outcome [OF s run]
    from reward_outcome_guards [OF conjunct2 [OF conjunct2 [OF conjunct2 [OF out]]]] out
    show "inv s' \<and> unat gas' \<le> unat gas \<and> role_guard RM caller (obs s) (obs s') \<and> (ro \<longrightarrow> obs s' = obs s) \<and>
        reward_guard caller (obs s) (obs s')"
      using reward_set_role reward_set_stored(1) by fastforce
  qed
  moreover have "guarded RM (areFeeRecipientsAllowed G S) \<and> run_respects reward_guard (areFeeRecipientsAllowed G S)"
    by (rule g, drule reward_getters_outcome(1) [OF G, rotated]) (simp_all add: reward_guard_def)
  moreover have "guarded RM (currentRewardAddress G S) \<and> run_respects reward_guard (currentRewardAddress G S)"
    by (rule g, drule reward_getters_outcome(2) [OF G, rotated]) (simp_all add: reward_guard_def)
  ultimately show ?thesis by simp
qed

lemma rewardManager_guards:
  assumes G: "geth_ok G" and c: "createRewardManagerPrecompile G S = Some c"
  shows "guarded RM (Contract_Run c)" "run_respects reward_guard (Contract_Run c)"
  using reward_functions [OF G]
  by (auto intro!: precompile_guarded [OF G c [unfolded createRewardManagerPrecompile_def]]
      respects_precompile [OF G c [unfolded createRewardManagerPrecompile_def]] simp: reward_guard_def roleSetObs_def)

end

end
