(* ===== verification/ContractState.thy ===== *)
theory ContractState
  imports FeeManager NativeMinter RewardManager StateEffects
begin

text \<open>
  The world state as the state interface of precompiles: the methods of core/state/statedb.go that
  implement StateDB of precompile/contract/interfaces.go, and the proof that they satisfy its contract.
\<close>

definition stateDB_iface :: "'e backend \<Rightarrow> 'e StateDB contractState" where
  "stateDB_iface B =
     \<lparr>cs_GetState = GetState B, cs_SetState = SetState B, cs_GetNonce = GetNonce B, cs_SetNonce = SetNonce B,
      cs_GetBalance = GetBalance B, cs_AddBalance = AddBalance B, cs_CreateAccount = CreateAccount B,
      cs_Exist = Exist B, cs_AddLog = AddLog, cs_GetPredicateStorageSlots = GetPredicateStorageSlots,
      cs_GetTxHash = sdb_thash\<rparr>"

text \<open>What a precompile observes of a view.\<close>

definition log_entry :: "Log \<Rightarrow> address \<times> hash list \<times> byte list \<times> u64" where
  "log_entry l = (log_Address l, log_Topics l, log_Data l, log_BlockNumber l)"

definition view_obs :: "state_view \<Rightarrow> stateObs" where
  "view_obs v =
     \<lparr>ob_slot = state_at v, ob_nonce = nonce_at v, ob_balance = balance_at v,
      ob_exist = (\<lambda>a. account_at v a \<noteq> None), ob_logs = map log_entry (sv_logs v (sv_thash v))\<rparr>"

definition state_obs :: "'e backend \<Rightarrow> 'e StateDB \<Rightarrow> stateObs" where
  "state_obs B s = view_obs (view B s)"

definition state_inv :: "'e backend \<Rightarrow> 'e StateDB \<Rightarrow> bool" where
  "state_inv B s \<longleftrightarrow> database_ok B \<and> live_ok B s"

lemma reads_obs:
  assumes "reads B f g" "state_inv B s" "f s = (r, s')" "\<And>v. g v = h (view_obs v)"
  shows "r = h (state_obs B s) \<and> state_obs B s' = state_obs B s \<and> state_inv B s'"
  using assms by (auto simp: reads_def state_inv_def state_obs_def dest!: spec [of _ s])

lemma changes_obs:
  assumes ch: "changes_account B v v' a f" and db: "database_ok B"
    and nonce: "\<And>ov. sa_Nonce (ov_data (f ov)) = gn (sa_Nonce (ov_data ov))"
    and bal: "\<And>ov. sa_Balance (ov_data (f ov)) = gb (sa_Balance (ov_data ov))"
    and st: "\<And>ov. ov_state (f ov) = gs (ov_state ov)"
  shows "view_obs v' =
    (view_obs v)\<lparr>ob_slot := (ob_slot (view_obs v))(a := gs (ob_slot (view_obs v) a)),
      ob_nonce := (ob_nonce (view_obs v))(a := gn (ob_nonce (view_obs v) a)),
      ob_balance := (ob_balance (view_obs v))(a := gb (ob_balance (view_obs v) a)),
      ob_exist := (ob_exist (view_obs v))(a := True)\<rparr>"
  using changes_nonce [OF ch nonce] changes_balance [OF ch bal] changes_state [OF ch db st] changes_exist [OF ch]
    changes_rest [OF ch]
  by (auto simp: view_obs_def same_rest_def fun_eq_iff)

lemma CreateAccount_obs:
  assumes "live_ok B s" "database_ok B"
  shows "view_obs (view B (CreateAccount B s a)) =
    (view_obs (view B s))\<lparr>ob_slot := (ob_slot (view_obs (view B s)))(a := (\<lambda>_. 0)),
      ob_nonce := (ob_nonce (view_obs (view B s)))(a := 0), ob_exist := (ob_exist (view_obs (view B s)))(a := True)\<rparr>"
proof -
  let ?v = "view B s" and ?v' = "view B (CreateAccount B s a)"
  from CreateAccount_changes [OF assms(1), of a] obtain ov where
    other: "\<And>b. b \<noteq> a \<Longrightarrow> account_at ?v' b = account_at ?v b" and
    ov: "fresh_account B ov" "account_at ?v' a = Some (set_balance (balance_at ?v a) ov)" and
    rest: "same_rest ?v ?v'" by auto
  have "state_at ?v' b = (if b = a then (\<lambda>_. 0) else state_at ?v b)"
    "nonce_at ?v' b = (if b = a then 0 else nonce_at ?v b)" "balance_at ?v' b = balance_at ?v b" for b
    using other [of b] ov assms(2)
    by (cases "b = a"; auto simp: state_at_def nonce_at_def balance_at_def fresh_account_def NewEmptyStateAccount_def fun_eq_iff)+
  moreover have "account_at ?v' b \<noteq> None \<longleftrightarrow> b = a \<or> account_at ?v b \<noteq> None" for b
    using other [of b] ov(2) by (cases "b = a") auto
  ultimately show ?thesis
    using rest by (auto simp: view_obs_def same_rest_def fun_eq_iff)
qed

lemma AddLog_view_obs:
  "view_obs (view B (AddLog s a topics data n)) =
     (view_obs (view B s))\<lparr>ob_logs := ob_logs (view_obs (view B s)) @ [(a, topics, data, n)]\<rparr>"
proof -
  from AddLog_view [of a topics data n s B] obtain log where
    log: "log_Address log = a" "log_Topics log = topics" "log_Data log = data" "log_BlockNumber log = n" and
    v: "view B (AddLog s a topics data n) =
       (view B s)\<lparr>sv_logs := (sv_logs (view B s))(sdb_thash s := sv_logs (view B s) (sdb_thash s) @ [log]),
                  sv_logSize := Suc (sdb_logSize s)\<rparr>" by blast
  have "sv_thash (view B s) = sdb_thash s" by (simp add: view_def)
  with log show ?thesis
    by (simp add: v view_obs_def log_entry_def state_at_def nonce_at_def balance_at_def account_at_def fun_eq_iff)
qed

interpretation sdb: contract_state "stateDB_iface B" "state_inv B" "state_obs B" for B :: "'e backend"
proof (unfold_locales, goal_cases)
  case (1 s a k h s')
  with reads_obs [OF GetState_reads, of B s a k h s' "\<lambda>ob. ob_slot ob a k"] show ?case
    by (auto simp: stateDB_iface_def view_obs_def state_at_def)
next
  case (2 s a n s')
  with reads_obs [OF GetNonce_reads, of B s a n s' "\<lambda>ob. ob_nonce ob a"] show ?case
    by (auto simp: stateDB_iface_def view_obs_def nonce_at_def)
next
  case (3 s a b s')
  with reads_obs [OF GetBalance_reads, of B s a b s' "\<lambda>ob. ob_balance ob a"] show ?case
    by (auto simp: stateDB_iface_def view_obs_def balance_at_def)
next
  case (4 s a e s')
  with reads_obs [OF Exist_reads, of B s a e s' "\<lambda>ob. ob_exist ob a"] show ?case
    by (auto simp: stateDB_iface_def view_obs_def)
next
  case (5 s a k v)
  then have s: "live_ok B s" "database_ok B" by (simp_all add: state_inv_def)
  from changes_obs [OF SetState_changes [OF s(1), of a k v] s(2),
      where gn = "\<lambda>x. x" and gb = "\<lambda>x. x" and gs = "\<lambda>f. f(k := v)"]
    journalled_live [OF SetState_journalled [OF s(1)]] s(2)
  show ?case by (simp add: stateDB_iface_def state_obs_def state_inv_def)
next
  case (6 s a n)
  then have s: "live_ok B s" "database_ok B" by (simp_all add: state_inv_def)
  from changes_obs [OF SetNonce_changes [OF s(1), of a n] s(2),
      where gn = "\<lambda>_. n" and gb = "\<lambda>x. x" and gs = "\<lambda>x. x"]
    journalled_live [OF SetNonce_journalled [OF s(1)]] s(2)
  show ?case by (simp add: stateDB_iface_def state_obs_def state_inv_def)
next
  case (7 s a b)
  then have s: "live_ok B s" "database_ok B" by (simp_all add: state_inv_def)
  from changes_obs [OF AddBalance_changes [OF s(1), of a b] s(2),
      where gn = "\<lambda>x. x" and gb = "\<lambda>x. x + b" and gs = "\<lambda>x. x"]
    journalled_live [OF AddBalance_journalled [OF s(1)]] s(2)
  show ?case by (simp add: stateDB_iface_def state_obs_def state_inv_def)
next
  case (8 s a)
  then have s: "live_ok B s" "database_ok B" by (simp_all add: state_inv_def)
  from CreateAccount_obs [OF s] journalled_live [OF CreateAccount_journalled [OF s(1)]] s(2) show ?case
    by (simp add: stateDB_iface_def state_obs_def state_inv_def)
next
  case (9 s a topics data n)
  then have s: "live_ok B s" "database_ok B" by (simp_all add: state_inv_def)
  from AddLog_view_obs journalled_live [OF AddLog_journalled [OF s(1)]] s(2) show ?case
    by (simp add: stateDB_iface_def state_obs_def state_inv_def)
next
  case (10 s a)
  then show ?case
    by (simp add: state_obs_def view_obs_def state_at_def nonce_at_def balance_at_def fun_eq_iff)
qed

end
