(* ===== verification/Compatibility.thy ===== *)
theory Compatibility
  imports ChainConfig
begin

text \<open>
  Whether a chain that has run up to a head under one configuration can go on under another:
  checkCompatible and CheckCompatible of params/config.go, with the checks of
  params/precompile_upgrade.go and params/state_upgrade.go.
\<close>

subsection \<open>The checks\<close>

text \<open>
  The loop that CheckStateUpgradesCompatible and checkPrecompileCompatible both run over the upgrades
  that are active at the head, with the check for additional upgrades that follows it.
\<close>

fun checkActivated ::
    "string \<Rightarrow> ('u \<Rightarrow> 'u \<Rightarrow> bool) \<Rightarrow> ('u \<Rightarrow> u64 option) \<Rightarrow> nat \<Rightarrow> 'u list \<Rightarrow> 'u list
       \<Rightarrow> ConfigCompatError option" where
  "checkActivated what eq ts i [] [] = None"
| "checkActivated what eq ts i [] (n # _) =
     Some (newTimestampCompatError
             (''cannot retroactively enable '' @ what @ ''['' @ nat_dec i @ '']'') None (ts n))"
| "checkActivated what eq ts i (u # _) [] =
     Some (newTimestampCompatError (''missing '' @ what @ ''['' @ nat_dec i @ '']'') (ts u) None)"
| "checkActivated what eq ts i (u # us) (n # ns) =
     (if \<not> eq u n
      then Some (newTimestampCompatError (what @ ''['' @ nat_dec i @ '']'') (ts u) (ts n))
      else checkActivated what eq ts (Suc i) us ns)"

definition checkPrecompileCompatible ::
    "('c, 'f) Module list \<Rightarrow> ChainConfig \<Rightarrow> address \<Rightarrow> Config list \<Rightarrow> u64 \<Rightarrow> ConfigCompatError option" where
  "checkPrecompileCompatible mods c addr precompileUpgrades time =
     (let activeUpgrades =
            GetActivatingPrecompileConfigs mods c addr None time (cc_PrecompileUpgrades c);
          newUpgrades = GetActivatingPrecompileConfigs mods c addr None time precompileUpgrades
      in checkActivated ''PrecompileUpgrade'' Config_Equal Config_Timestamp 0 activeUpgrades newUpgrades)"

fun first_some :: "'e option list \<Rightarrow> 'e option" where
  "first_some [] = None"
| "first_some (x # xs) = (case x of Some e \<Rightarrow> Some e | None \<Rightarrow> first_some xs)"

definition CheckPrecompilesCompatible ::
    "('c, 'f) Module list \<Rightarrow> ChainConfig \<Rightarrow> Config list \<Rightarrow> u64 \<Rightarrow> ConfigCompatError option" where
  "CheckPrecompilesCompatible mods c precompileUpgrades time =
     first_some (map (\<lambda>module. checkPrecompileCompatible mods c (mod_Address module)
                                 precompileUpgrades time) mods)"

definition CheckStateUpgradesCompatible ::
    "ChainConfig \<Rightarrow> StateUpgrade list \<Rightarrow> u64 \<Rightarrow> ConfigCompatError option" where
  "CheckStateUpgradesCompatible c stateUpgrades lastTimestamp =
     (let activeUpgrades = GetActivatingStateUpgrades None lastTimestamp (cc_StateUpgrades c);
          newUpgrades = GetActivatingStateUpgrades None lastTimestamp stateUpgrades
      in checkActivated ''StateUpgrade'' StateUpgrade_Equal su_BlockTimestamp 0 activeUpgrades newUpgrades)"

definition checkBlock ::
    "string \<Rightarrow> int option \<Rightarrow> int option \<Rightarrow> int option \<Rightarrow> ConfigCompatError option" where
  "checkBlock what stored new head =
     (if isForkBlockIncompatible stored new head then Some (newBlockCompatError what stored new)
      else None)"

definition checkTime ::
    "string \<Rightarrow> u64 option \<Rightarrow> u64 option \<Rightarrow> u64 \<Rightarrow> ConfigCompatError option" where
  "checkTime what stored new head =
     (if isForkTimestampIncompatible stored new head then Some (newTimestampCompatError what stored new)
      else None)"

definition checkCompatible ::
    "('c, 'f) Module list \<Rightarrow> ChainConfig \<Rightarrow> ChainConfig \<Rightarrow> int option \<Rightarrow> u64
       \<Rightarrow> ConfigCompatError option" where
  "checkCompatible mods c newcfg headNumber headTimestamp =
     first_some
       [checkBlock ''Homestead fork block'' (cc_HomesteadBlock c) (cc_HomesteadBlock newcfg) headNumber,
        checkBlock ''EIP150 fork block'' (cc_EIP150Block c) (cc_EIP150Block newcfg) headNumber,
        checkBlock ''EIP155 fork block'' (cc_EIP155Block c) (cc_EIP155Block newcfg) headNumber,
        checkBlock ''EIP158 fork block'' (cc_EIP158Block c) (cc_EIP158Block newcfg) headNumber,
        if IsEIP158 c headNumber \<and> \<not> BigNumEqual (cc_ChainID c) (cc_ChainID newcfg)
          then Some (newBlockCompatError ''EIP158 chain ID'' (cc_EIP158Block c) (cc_EIP158Block newcfg))
          else None,
        checkBlock ''Byzantium fork block'' (cc_ByzantiumBlock c) (cc_ByzantiumBlock newcfg) headNumber,
        checkBlock ''Constantinople fork block'' (cc_ConstantinopleBlock c)
          (cc_ConstantinopleBlock newcfg) headNumber,
        if isForkBlockIncompatible (cc_PetersburgBlock c) (cc_PetersburgBlock newcfg) headNumber \<and>
           isForkBlockIncompatible (cc_ConstantinopleBlock c) (cc_PetersburgBlock newcfg) headNumber
          then Some (newBlockCompatError ''Petersburg fork block'' (cc_PetersburgBlock c)
                       (cc_PetersburgBlock newcfg))
          else None,
        checkBlock ''Istanbul fork block'' (cc_IstanbulBlock c) (cc_IstanbulBlock newcfg) headNumber,
        checkBlock ''Muir Glacier fork block'' (cc_MuirGlacierBlock c) (cc_MuirGlacierBlock newcfg)
          headNumber,
        checkBlock ''Berlin fork block'' (cc_BerlinBlock c) (cc_BerlinBlock newcfg) headNumber,
        checkBlock ''London fork block'' (cc_LondonBlock c) (cc_LondonBlock newcfg) headNumber,
        checkTime ''Shanghai fork timestamp'' (cc_ShanghaiTime c) (cc_ShanghaiTime newcfg) headTimestamp,
        checkTime ''Cancun fork timestamp'' (cc_CancunTime c) (cc_CancunTime newcfg) headTimestamp,
        checkTime ''Verkle fork timestamp'' (cc_VerkleTime c) (cc_VerkleTime newcfg) headTimestamp,
        CheckNetworkUpgradesCompatible (cc_NetworkUpgrades c) (cc_NetworkUpgrades newcfg) headTimestamp,
        CheckPrecompilesCompatible mods c (cc_PrecompileUpgrades newcfg) headTimestamp,
        CheckStateUpgradesCompatible c (cc_StateUpgrades newcfg) headTimestamp]"

subsection \<open>Rewinding\<close>

lemma first_some_None: "first_some xs = None \<longleftrightarrow> (\<forall>x \<in> set xs. x = None)"
  by (induction xs) (auto split: option.splits)

lemma first_some_Some: "first_some xs = Some e \<Longrightarrow> Some e \<in> set xs"
  by (induction xs) (auto split: option.splits)

declare first_some.simps(2) [simp del]

text \<open>
  The errors a check returns rewind below the head it was run at, in the one coordinate they concern,
  or to zero.
\<close>

definition rewinds_below :: "u64 \<Rightarrow> u64 \<Rightarrow> ConfigCompatError \<Rightarrow> bool" where
  "rewinds_below head time e \<longleftrightarrow>
     RewindToBlock e = 0 \<and> (RewindToTime e = 0 \<or> RewindToTime e < time) \<or>
     RewindToTime e = 0 \<and> (RewindToBlock e = 0 \<or> RewindToBlock e < head)"

lemma rewinds_below_time:
  "isTimestampForked s1 time \<or> isTimestampForked s2 time \<Longrightarrow>
     rewinds_below head time (newTimestampCompatError w s1 s2)"
  using newTimestampCompatError_rewind [of s1 time s2 w] by (simp add: rewinds_below_def)

lemma rewinds_below_block:
  assumes "isBlockForked s1 (Some (uint head)) \<or> isBlockForked s2 (Some (uint head))"
  shows "rewinds_below head time (newBlockCompatError w s1 s2)"
  using newBlockCompatError_rewind [OF assms, of w] uint_lt2p [of head]
  by (auto simp: rewinds_below_def word_less_def)

lemma checkBlock_rewinds: "checkBlock w s1 s2 (Some (uint head)) = Some e \<Longrightarrow> rewinds_below head time e"
  by (auto simp: checkBlock_def isForkBlockIncompatible_def split: if_splits
      intro!: rewinds_below_block)

lemma checkTime_rewinds: "checkTime w s1 s2 time = Some e \<Longrightarrow> rewinds_below head time e"
  by (auto simp: checkTime_def isForkTimestampIncompatible_def split: if_splits
      intro!: rewinds_below_time)

lemma CheckNetworkUpgradesCompatible_rewinds:
  "CheckNetworkUpgradesCompatible n n' time = Some e \<Longrightarrow> rewinds_below head time e"
  by (auto simp: CheckNetworkUpgradesCompatible_def isForkTimestampIncompatible_def split: if_splits
      intro!: rewinds_below_time)

lemma checkActivated_rewinds:
  assumes "checkActivated w eq ts i us ns = Some e"
    and "\<forall>u \<in> set us \<union> set ns. isTimestampForked (ts u) time"
  shows "rewinds_below head time e"
  using assms
  by (induction w eq ts i us ns rule: checkActivated.induct)
    (auto split: if_splits intro!: rewinds_below_time)

lemma GetActivatingPrecompileConfigs_active:
  "u \<in> set (GetActivatingPrecompileConfigs mods c addr None time ups) \<Longrightarrow>
     isTimestampForked (Config_Timestamp u) time"
  by (auto simp: GetActivatingPrecompileConfigs_def Let_def split: option.splits if_splits)

lemma GetActivatingStateUpgrades_active:
  "u \<in> set (GetActivatingStateUpgrades None time ups) \<Longrightarrow> isTimestampForked (su_BlockTimestamp u) time"
  by (auto simp: GetActivatingStateUpgrades_def)

lemma CheckPrecompilesCompatible_rewinds:
  assumes "CheckPrecompilesCompatible mods c ups time = Some e"
  shows "rewinds_below head time e"
proof -
  from first_some_Some [OF assms [unfolded CheckPrecompilesCompatible_def]] obtain module where
    "module \<in> set mods" "Some e = checkPrecompileCompatible mods c (mod_Address module) ups time"
    by auto
  from this(2) [symmetric] show ?thesis
    unfolding checkPrecompileCompatible_def Let_def
    by (rule checkActivated_rewinds) (auto dest: GetActivatingPrecompileConfigs_active)
qed

lemma CheckStateUpgradesCompatible_rewinds:
  assumes "CheckStateUpgradesCompatible c ups time = Some e"
  shows "rewinds_below head time e"
  using assms unfolding CheckStateUpgradesCompatible_def Let_def
  by (rule checkActivated_rewinds) (auto dest: GetActivatingStateUpgrades_active)

lemma checkCompatible_rewinds:
  assumes "checkCompatible mods c newcfg (Some (uint head)) time = Some e"
  shows "rewinds_below head time e"
  using first_some_Some [OF assms [unfolded checkCompatible_def]]
  by (auto simp: IsEIP158_def isForkBlockIncompatible_def split: if_splits
      dest: checkBlock_rewinds [OF sym] checkTime_rewinds [OF sym]
        CheckNetworkUpgradesCompatible_rewinds [OF sym] CheckPrecompilesCompatible_rewinds [OF sym]
        CheckStateUpgradesCompatible_rewinds [OF sym]
      intro: rewinds_below_block)

subsection \<open>The search for the lowest conflict\<close>

definition rewound_to_zero :: "ConfigCompatError option \<Rightarrow> bool" where
  "rewound_to_zero lasterr =
     (case lasterr of None \<Rightarrow> False | Some l \<Rightarrow> RewindToBlock l = 0 \<and> RewindToTime l = 0)"

function CheckCompatible_loop ::
    "('c, 'f) Module list \<Rightarrow> ChainConfig \<Rightarrow> ChainConfig \<Rightarrow> u64 \<Rightarrow> u64 \<Rightarrow> ConfigCompatError option
       \<Rightarrow> ConfigCompatError option" where
  "CheckCompatible_loop mods c newcfg bhead btime lasterr =
     (case checkCompatible mods c newcfg (Some (uint bhead)) btime of
        None \<Rightarrow> lasterr
      | Some err \<Rightarrow>
          if (case lasterr of
                None \<Rightarrow> False
              | Some l \<Rightarrow> RewindToBlock err = RewindToBlock l \<and> RewindToTime err = RewindToTime l)
          then lasterr
          else if 0 < RewindToTime err
          then CheckCompatible_loop mods c newcfg bhead (RewindToTime err) (Some err)
          else CheckCompatible_loop mods c newcfg (RewindToBlock err) btime (Some err))"
  by pat_completeness auto

termination
proof (relation "measure (\<lambda>(mods, c, newcfg, bhead, btime, lasterr).
    2 * (unat bhead + unat btime) + (if rewound_to_zero lasterr then 0 else 1))", goal_cases)
  case 1
  show ?case by simp
next
  case (2 mods c newcfg bhead btime lasterr err)
  then have "rewinds_below bhead btime err" by (intro checkCompatible_rewinds) auto
  with 2 have "unat (RewindToTime err) < unat btime"
    by (auto simp: rewinds_below_def word_less_nat_alt)
  then show ?case by auto
next
  case (3 mods c newcfg bhead btime lasterr err)
  then have b: "rewinds_below bhead btime err" by (intro checkCompatible_rewinds) auto
  from 3 have t: "RewindToTime err = 0" by (simp add: not_less word_le_nat_alt unat_eq_zero)
  show ?case
  proof (cases "RewindToBlock err = 0")
    case True
    with 3(2) t have "\<not> rewound_to_zero lasterr" "rewound_to_zero (Some err)"
      by (auto simp: rewound_to_zero_def split: option.splits)
    with True show ?thesis by simp
  next
    case False
    with b t have "unat (RewindToBlock err) < unat bhead"
      by (auto simp: rewinds_below_def word_less_nat_alt)
    then show ?thesis by auto
  qed
qed

declare CheckCompatible_loop.simps [simp del]

definition CheckCompatible ::
    "('c, 'f) Module list \<Rightarrow> ChainConfig \<Rightarrow> ChainConfig \<Rightarrow> u64 \<Rightarrow> u64 \<Rightarrow> ConfigCompatError option" where
  "CheckCompatible mods c newcfg height time = CheckCompatible_loop mods c newcfg height time None"

lemma CheckCompatible_loop_Some:
  "\<exists>e. CheckCompatible_loop mods c newcfg bhead btime (Some l) = Some e"
proof (induction mods c newcfg bhead btime "Some l" arbitrary: l rule: CheckCompatible_loop.induct)
  case (1 mods c newcfg bhead btime l)
  then show ?case
    by (subst CheckCompatible_loop.simps) (auto split: option.splits)
qed

lemma CheckCompatible_None_iff:
  "CheckCompatible mods c newcfg height time = None \<longleftrightarrow>
     checkCompatible mods c newcfg (Some (uint height)) time = None"
  unfolding CheckCompatible_def
  by (subst CheckCompatible_loop.simps)
    (simp add: CheckCompatible_loop_Some split: option.split)

subsection \<open>Soundness\<close>

lemma checkActivated_None: "checkActivated w eq ts i us ns = None \<longleftrightarrow> list_all2 eq us ns"
  by (induction w eq ts i us ns rule: checkActivated.induct) auto

lemma list_all2_filter_same:
  assumes "list_all2 r xs ys" and "\<And>x y. r x y \<Longrightarrow> P x = P y"
  shows "list_all2 r (filter P xs) (filter P ys)"
  using assms by (induction xs ys rule: list_all2_induct) auto

lemma GetActivatingPrecompileConfigs_earlier:
  assumes "t \<le> head"
  shows "GetActivatingPrecompileConfigs mods c addr None t ups =
    filter (\<lambda>u. isTimestampForked (Config_Timestamp u) t)
      (GetActivatingPrecompileConfigs mods c addr None head ups)"
proof -
  have "isTimestampForked s head" if "isTimestampForked s t" for s
    using that assms by (rule isTimestampForked_mono)
  then show ?thesis
    by (auto simp: GetActivatingPrecompileConfigs_def Let_def split: option.splits
        intro!: filter_cong)
qed

lemma GetActivatingStateUpgrades_earlier:
  assumes "t \<le> head"
  shows "GetActivatingStateUpgrades None t ups =
    filter (\<lambda>u. isTimestampForked (su_BlockTimestamp u) t) (GetActivatingStateUpgrades None head ups)"
  using isTimestampForked_mono [OF _ assms]
  by (auto simp: GetActivatingStateUpgrades_def intro!: filter_cong)

lemma GetActivatingPrecompileConfigs_genesis_cong:
  "cc_GenesisPrecompiles c = cc_GenesisPrecompiles d \<Longrightarrow>
     GetActivatingPrecompileConfigs mods c addr frm to ups =
     GetActivatingPrecompileConfigs mods d addr frm to ups"
  by (simp add: GetActivatingPrecompileConfigs_def cong: option.case_cong)

lemma checkCompatible_precompiles:
  assumes "checkCompatible mods c newcfg h head = None" and "module \<in> set mods" and "t \<le> head"
  shows "list_all2 Config_Equal
    (GetActivatingPrecompileConfigs mods c (mod_Address module) None t (cc_PrecompileUpgrades c))
    (GetActivatingPrecompileConfigs mods c (mod_Address module) None t (cc_PrecompileUpgrades newcfg))"
proof -
  from assms(1,2) have "checkPrecompileCompatible mods c (mod_Address module)
      (cc_PrecompileUpgrades newcfg) head = None"
    by (auto simp: checkCompatible_def CheckPrecompilesCompatible_def first_some_None)
  then show ?thesis
    unfolding GetActivatingPrecompileConfigs_earlier [OF assms(3)] checkPrecompileCompatible_def
      Let_def checkActivated_None
    by (rule list_all2_filter_same) (simp add: Config_Equal_Timestamp)
qed

lemma checkCompatible_state_upgrades:
  assumes "checkCompatible mods c newcfg h head = None" and "t \<le> head"
  shows "list_all2 StateUpgrade_Equal
    (GetActivatingStateUpgrades None t (cc_StateUpgrades c))
    (GetActivatingStateUpgrades None t (cc_StateUpgrades newcfg))"
proof -
  from assms(1) have "CheckStateUpgradesCompatible c (cc_StateUpgrades newcfg) head = None"
    by (simp add: checkCompatible_def first_some_None)
  then show ?thesis
    unfolding GetActivatingStateUpgrades_earlier [OF assms(2)] CheckStateUpgradesCompatible_def
      Let_def checkActivated_None
    by (rule list_all2_filter_same) (simp add: StateUpgrade_Equal_def)
qed

lemma list_all2_last: "list_all2 r xs ys \<Longrightarrow> xs \<noteq> [] \<Longrightarrow> r (last xs) (last ys)"
  by (induction xs ys rule: list_all2_induct) auto

lemma getActivePrecompileConfig_last:
  "getActivePrecompileConfig mods c addr t =
     (let configs = GetActivatingPrecompileConfigs mods c addr None t (cc_PrecompileUpgrades c)
      in if configs = [] then None else Some (last configs))"
  by (simp add: getActivePrecompileConfig_def Let_def last_conv_nth)

lemma checkCompatible_active:
  assumes "checkCompatible mods c newcfg h head = None" and "module \<in> set mods" and "t \<le> head"
    and "cc_GenesisPrecompiles newcfg = cc_GenesisPrecompiles c"
  shows "rel_option Config_Equal (getActivePrecompileConfig mods c (mod_Address module) t)
    (getActivePrecompileConfig mods newcfg (mod_Address module) t)"
  using checkCompatible_precompiles [OF assms(1-3)]
  unfolding getActivePrecompileConfig_last Let_def
    GetActivatingPrecompileConfigs_genesis_cong [OF assms(4)]
  by (auto dest: list_all2_last)

lemma checkBlock_agree:
  "checkBlock w s1 s2 (Some head) = None \<Longrightarrow> n \<le> head \<Longrightarrow>
     isBlockForked s1 (Some n) \<longleftrightarrow> isBlockForked s2 (Some n)"
  by (rule block_compatible_agree) (auto simp: checkBlock_def split: if_splits)

lemma checkTime_agree:
  "checkTime w s1 s2 head = None \<Longrightarrow> t \<le> head \<Longrightarrow> isTimestampForked s1 t \<longleftrightarrow> isTimestampForked s2 t"
  by (rule timestamp_compatible_agree) (auto simp: checkTime_def split: if_splits)

lemma petersburg_agree:
  assumes "\<not> (isForkBlockIncompatible p p' (Some head) \<and> isForkBlockIncompatible k p' (Some head))"
    and "\<not> isForkBlockIncompatible k k' (Some head)" and "p = k" and "n \<le> head"
  shows "isBlockForked p (Some n) \<or> p = None \<and> isBlockForked k (Some n) \<longleftrightarrow>
    isBlockForked p' (Some n) \<or> p' = None \<and> isBlockForked k' (Some n)"
  using assms
  by (cases p; cases p'; cases k; cases k') (auto simp: isForkBlockIncompatible_def)

lemma checkCompatible_eth_rules:
  assumes "checkCompatible mods c newcfg (Some head) htime = None" and "n \<le> head" "t \<le> htime"
    and "cc_PetersburgBlock c = cc_ConstantinopleBlock c"
  shows "eth_rules c (Some n) t = eth_rules newcfg (Some n) t"
proof -
  note none = assms(1) [unfolded checkCompatible_def first_some_None, simplified]
  have pet: "IsPetersburg c (Some n) = IsPetersburg newcfg (Some n)"
    unfolding IsPetersburg_def
    using none assms(2,4) by (intro petersburg_agree) (auto simp: checkBlock_def split: if_splits)
  show ?thesis
    unfolding eth_rules_def pet
    using none checkBlock_agree [OF _ assms(2)] checkTime_agree [OF _ assms(3)]
    by (simp add: fork_predicate_defs) metis
qed

lemma checkCompatible_avalanche_rules:
  assumes "checkCompatible mods c newcfg h htime = None" and "t \<le> htime"
  shows "GetAvalancheRules (cc_NetworkUpgrades c) t = GetAvalancheRules (cc_NetworkUpgrades newcfg) t"
proof -
  from assms(1)
  have "CheckNetworkUpgradesCompatible (cc_NetworkUpgrades c) (cc_NetworkUpgrades newcfg) htime = None"
    by (simp add: checkCompatible_def first_some_None)
  then show ?thesis
    using timestamp_compatible_agree [OF _ assms(2)]
    by (auto simp: CheckNetworkUpgradesCompatible_def GetAvalancheRules_def IsSubnetEVM_def
        IsDurango_def IsEtna_def split: if_splits)
qed

end
