(* ===== verification/UpgradeSchedule.thy ===== *)
theory UpgradeSchedule
  imports ChainConfig
begin

text \<open>
  What the verification of the upgrade schedule guarantees. The scan of verifyPrecompileUpgrades over
  all upgrades with its map of last upgrades is equivalent to a specification of the upgrades of each
  key on its own, and a verified schedule is activated piecewise: the upgrades that activate in the
  steps of a chain are those that activate over the whole of it, each once and in order.
\<close>

subsection \<open>The schedule of one key\<close>

text \<open>
  Starting from the last upgrade of a key, its upgrades have timestamps that strictly increase and
  alternate between enabling and disabling; without a previous upgrade the first one enables.
\<close>

fun alternates :: "lastUpgradeData option \<Rightarrow> Config list \<Rightarrow> bool" where
  "alternates prev [] = True"
| "alternates prev (u # us) =
     (case Config_Timestamp u of
        None \<Rightarrow> False
      | Some t \<Rightarrow>
          Config_IsDisabled u \<noteq> (case prev of None \<Rightarrow> True | Some l \<Rightarrow> lu_disabled l) \<and>
          (case prev of None \<Rightarrow> True | Some l \<Rightarrow> lu_blockTimestamp l < t) \<and>
          alternates (Some \<lparr>lu_blockTimestamp = t, lu_disabled = Config_IsDisabled u\<rparr>) us)"

fun timestamps_mono :: "u64 option \<Rightarrow> Config list \<Rightarrow> bool" where
  "timestamps_mono previous [] = True"
| "timestamps_mono previous (u # us) =
     (case Config_Timestamp u of
        None \<Rightarrow> False
      | Some t \<Rightarrow> (case previous of None \<Rightarrow> True | Some p \<Rightarrow> p \<le> t) \<and> timestamps_mono (Some t) us)"

abbreviation of_key :: "string \<Rightarrow> Config list \<Rightarrow> Config list" where
  "of_key key \<equiv> filter (\<lambda>u. Config_Key u = key)"

definition genesis_upgrade :: "ChainConfig \<Rightarrow> string \<Rightarrow> lastUpgradeData option" where
  "genesis_upgrade c key =
     (case Option.bind (map_of (cc_GenesisPrecompiles c) key) Config_Timestamp of
        None \<Rightarrow> None
      | Some t \<Rightarrow> Some \<lparr>lu_blockTimestamp = t, lu_disabled = False\<rparr>)"

lemma alternates_all_keys_Cons:
  "(\<forall>key. alternates (m key) (of_key key (u # us))) \<longleftrightarrow>
     alternates (m (Config_Key u)) (u # of_key (Config_Key u) us) \<and>
     (\<forall>key. key \<noteq> Config_Key u \<longrightarrow> alternates (m key) (of_key key us))"
  by auto

lemma alternates_upd:
  "(\<forall>key. alternates ((m(k \<mapsto> l)) key) (of_key key us)) \<longleftrightarrow>
     alternates (Some l) (of_key k us) \<and>
     (\<forall>key. key \<noteq> k \<longrightarrow> alternates (m key) (of_key key us))"
  by auto

lemma verifyUpgrades_iff:
  "verifyUpgrades cv i us m previous = None \<longleftrightarrow>
     (\<forall>key. alternates (m key) (of_key key us)) \<and> timestamps_mono previous us \<and>
     (\<forall>u \<in> set us. Config_Verify u cv = None)"
proof (induction us arbitrary: i m previous)
  case Nil
  then show ?case by simp
next
  case (Cons u us)
  show ?case
  proof (cases "Config_Timestamp u")
    case None
    then show ?thesis by (simp add: Let_def)
  next
    case (Some t)
    show ?thesis
      unfolding alternates_all_keys_Cons
      using Some
      by (cases "m (Config_Key u)"; cases previous)
        (auto simp: Let_def Cons.IH alternates_upd not_less not_le split: option.splits)
  qed
qed

lemma verifyGenesisPrecompiles_Inr:
  assumes "distinct (map fst gs)"
  shows "verifyGenesisPrecompiles cv gs m = Inr m' \<longleftrightarrow>
    (\<forall>(key, config) \<in> set gs. Config_Verify config cv = None) \<and>
    m' = (\<lambda>key. case Option.bind (map_of gs key) Config_Timestamp of
             None \<Rightarrow> m key
           | Some t \<Rightarrow> Some \<lparr>lu_blockTimestamp = t, lu_disabled = False\<rparr>)"
  using assms
proof (induction cv gs m rule: verifyGenesisPrecompiles.induct)
  case (1 cv m)
  then show ?case by auto
next
  case (2 cv key config rest m)
  have fresh: "map_of rest key = None" using 2(2) by (simp add: map_of_eq_None_iff)
  show ?case
  proof (cases "Config_Verify config cv")
    case (Some e)
    then show ?thesis by auto
  next
    case None
    have "(\<lambda>k. case Option.bind (map_of rest k) Config_Timestamp of
             None \<Rightarrow> (case Config_Timestamp config of None \<Rightarrow> m
                | Some t \<Rightarrow> m(key \<mapsto> \<lparr>lu_blockTimestamp = t, lu_disabled = False\<rparr>)) k
           | Some t \<Rightarrow> Some \<lparr>lu_blockTimestamp = t, lu_disabled = False\<rparr>) =
         (\<lambda>k. case Option.bind (map_of ((key, config) # rest) k) Config_Timestamp of
             None \<Rightarrow> m k
           | Some t \<Rightarrow> Some \<lparr>lu_blockTimestamp = t, lu_disabled = False\<rparr>)"
      using fresh by (auto simp: fun_eq_iff split: option.splits)
    with None 2 show ?thesis by simp
  qed
qed

text \<open>The scan and the specification by keys.\<close>

lemma verifyPrecompileUpgrades_iff:
  assumes "distinct (map fst (cc_GenesisPrecompiles c))"
  shows "verifyPrecompileUpgrades c = None \<longleftrightarrow>
    (\<forall>(key, config) \<in> set (cc_GenesisPrecompiles c). Config_Verify config (ChainConfig_view c) = None) \<and>
    (\<forall>u \<in> set (cc_PrecompileUpgrades c). Config_Verify u (ChainConfig_view c) = None) \<and>
    timestamps_mono None (cc_PrecompileUpgrades c) \<and>
    (\<forall>key. alternates (genesis_upgrade c key) (of_key key (cc_PrecompileUpgrades c)))"
proof -
  have gen: "verifyGenesisPrecompiles (ChainConfig_view c) (cc_GenesisPrecompiles c) Map.empty = Inr m \<longleftrightarrow>
      (\<forall>(key, config) \<in> set (cc_GenesisPrecompiles c). Config_Verify config (ChainConfig_view c) = None) \<and>
      m = genesis_upgrade c" for m
    unfolding verifyGenesisPrecompiles_Inr [OF assms]
    by (simp add: genesis_upgrade_def [abs_def])
  have ok: "(case x of Inl e \<Rightarrow> Some (ConfigErr e) | Inr m \<Rightarrow> g m) = None \<longleftrightarrow>
      (\<exists>m. x = Inr m \<and> g m = None)"
    for x :: "config_error + (string \<rightharpoonup> lastUpgradeData)" and g
    by (cases x) auto
  show ?thesis
    unfolding verifyPrecompileUpgrades_def ok gen verifyUpgrades_iff by blast
qed

subsection \<open>Piecewise activation\<close>

abbreviation ts_sorted :: "('u \<Rightarrow> u64 option) \<Rightarrow> 'u list \<Rightarrow> bool" where
  "ts_sorted ts \<equiv> sorted_wrt (\<lambda>u v. \<forall>a b. ts u = Some a \<longrightarrow> ts v = Some b \<longrightarrow> a < b)"

lemma filter_transition_split:
  assumes "ts_sorted ts us" and "frm = None \<or> (\<exists>t0. frm = Some t0 \<and> t0 \<le> t1)" and "t1 \<le> t2"
  shows "filter (\<lambda>u. IsForkTransition (ts u) frm t2) us =
    filter (\<lambda>u. IsForkTransition (ts u) frm t1) us @
    filter (\<lambda>u. IsForkTransition (ts u) (Some t1) t2) us"
  using assms(1)
proof (induction us)
  case Nil
  then show ?case by simp
next
  case (Cons u us)
  then have IH: "filter (\<lambda>u. IsForkTransition (ts u) frm t2) us =
    filter (\<lambda>u. IsForkTransition (ts u) frm t1) us @
    filter (\<lambda>u. IsForkTransition (ts u) (Some t1) t2) us" by simp
  show ?case
  proof (cases "IsForkTransition (ts u) (Some t1) t2")
    case True
    then obtain a where a: "ts u = Some a" "t1 < a" "a \<le> t2"
      by (cases "ts u") (auto simp: IsForkTransition_def not_le)
    have "\<not> IsForkTransition (ts v) frm t1" if "v \<in> set us" for v
      using Cons.prems that a
      by (cases "ts v") (force simp: IsForkTransition_def dest: order.strict_trans)+
    then have nil: "filter (\<lambda>u. IsForkTransition (ts u) frm t1) us = []" by (simp add: filter_empty_conv)
    from a assms(2) have "IsForkTransition (ts u) frm t2" "\<not> IsForkTransition (ts u) frm t1"
      by (auto simp: IsForkTransition_def dest: leD order.strict_trans2)
    with True IH nil show ?thesis by simp
  next
    case False
    then have "IsForkTransition (ts u) frm t2 \<longleftrightarrow> IsForkTransition (ts u) frm t1"
      using assms(2,3) by (cases "ts u") (auto simp: IsForkTransition_def)
    with False IH show ?thesis by simp
  qed
qed

lemma alternates_sorted:
  "alternates prev us \<Longrightarrow>
     ts_sorted Config_Timestamp us \<and>
     (\<forall>l. prev = Some l \<longrightarrow> (\<forall>u \<in> set us. \<forall>t. Config_Timestamp u = Some t \<longrightarrow> lu_blockTimestamp l < t))"
proof (induction prev us rule: alternates.induct)
  case (1 prev)
  then show ?case by simp
next
  case (2 prev u us)
  then obtain t where t: "Config_Timestamp u = Some t" by (auto split: option.splits)
  with 2 show ?case by (cases prev) (fastforce dest: order.strict_trans)+
qed

definition key_configs :: "ChainConfig \<Rightarrow> string \<Rightarrow> Config list \<Rightarrow> Config list" where
  "key_configs c key ups =
     (case map_of (cc_GenesisPrecompiles c) key of None \<Rightarrow> [] | Some g \<Rightarrow> [g]) @ of_key key ups"

lemma GetActivatingPrecompileConfigs_filter:
  "GetActivatingPrecompileConfigs mods c addr frm to ups =
     (case GetPrecompileModuleByAddress mods addr of
        None \<Rightarrow> []
      | Some module \<Rightarrow> filter (\<lambda>u. IsForkTransition (Config_Timestamp u) frm to)
                         (key_configs c (mod_ConfigKey module) ups))"
  by (auto simp: GetActivatingPrecompileConfigs_def key_configs_def Let_def conj_commute
      split: option.splits)

lemma key_configs_sorted:
  assumes "alternates (genesis_upgrade c key) (of_key key ups)"
  shows "ts_sorted Config_Timestamp (key_configs c key ups)"
  using alternates_sorted [OF assms]
  by (auto simp: key_configs_def genesis_upgrade_def split: option.splits)

lemma GetActivatingPrecompileConfigs_split:
  assumes "\<forall>key. alternates (genesis_upgrade c key) (of_key key ups)"
    and "frm = None \<or> (\<exists>t0. frm = Some t0 \<and> t0 \<le> t1)" and "t1 \<le> t2"
  shows "GetActivatingPrecompileConfigs mods c addr frm t2 ups =
    GetActivatingPrecompileConfigs mods c addr frm t1 ups @
    GetActivatingPrecompileConfigs mods c addr (Some t1) t2 ups"
  unfolding GetActivatingPrecompileConfigs_filter
  using filter_transition_split [OF key_configs_sorted [OF assms(1) [rule_format]] assms(2,3)]
  by (simp split: option.split)

text \<open>The upgrades of an address that activate in each step of a chain with the given timestamps.\<close>

fun chain_activations ::
    "('c, 'f) Module list \<Rightarrow> ChainConfig \<Rightarrow> address \<Rightarrow> u64 option \<Rightarrow> u64 list \<Rightarrow> Config list" where
  "chain_activations mods c addr parent [] = []"
| "chain_activations mods c addr parent (t # ts) =
     GetActivatingPrecompileConfigs mods c addr parent t (cc_PrecompileUpgrades c) @
     chain_activations mods c addr (Some t) ts"

lemma chain_activations_whole:
  assumes "\<forall>key. alternates (genesis_upgrade c key) (of_key key (cc_PrecompileUpgrades c))"
    and "sorted (t # ts)" and "parent = None \<or> (\<exists>t0. parent = Some t0 \<and> t0 \<le> t)"
  shows "chain_activations mods c addr parent (t # ts) =
    GetActivatingPrecompileConfigs mods c addr parent (last (t # ts)) (cc_PrecompileUpgrades c)"
  using assms(2,3)
proof (induction ts arbitrary: parent t)
  case Nil
  then show ?case by simp
next
  case (Cons s ts)
  have le: "t \<le> last (s # ts)" using Cons.prems(1) by auto
  have "chain_activations mods c addr (Some t) (s # ts) =
      GetActivatingPrecompileConfigs mods c addr (Some t) (last (s # ts)) (cc_PrecompileUpgrades c)"
    using Cons.prems by (intro Cons.IH) auto
  then show ?case
    using GetActivatingPrecompileConfigs_split [OF assms(1) Cons.prems(2) le, of mods addr] by simp
qed

subsection \<open>State upgrades\<close>

lemma verifyStateUpgrades_loop_sorted:
  "verifyStateUpgrades_loop i us p = None \<Longrightarrow>
     ts_sorted su_BlockTimestamp us \<and>
     (\<forall>u \<in> set us. \<exists>t. su_BlockTimestamp u = Some t \<and> 0 < t \<and> (\<forall>q. p = Some q \<longrightarrow> q < t))"
proof (induction i us p rule: verifyStateUpgrades_loop.induct)
  case (1 i p)
  then show ?case by simp
next
  case (2 i u us p)
  then obtain t where t: "su_BlockTimestamp u = Some t" by (auto split: option.splits)
  with 2 show ?case
    by (cases p) (fastforce simp: word_neq_0_conv not_le split: if_splits dest: order.strict_trans)+
qed

end
