(* ===== verification/CompatibilityRewind.thy ===== *)
theory CompatibilityRewind
  imports Compatibility UpgradeSchedule
begin

text \<open>
  What the error of CheckCompatible says. The block it rewinds to is the highest one, and the time the latest
  one, at which the configurations do not conflict. The two are separate: the forks by block number are
  compared first, and an error that names a time says nothing of the conflicts by block number met before it.
\<close>

subsection \<open>The forks by block number and the upgrades by time\<close>

definition blockConflict :: "ChainConfig \<Rightarrow> ChainConfig \<Rightarrow> int option \<Rightarrow> ConfigCompatError option" where
  "blockConflict c newcfg head =
     first_some
       [checkBlock ''Homestead fork block'' (cc_HomesteadBlock c) (cc_HomesteadBlock newcfg) head,
        checkBlock ''EIP150 fork block'' (cc_EIP150Block c) (cc_EIP150Block newcfg) head,
        checkBlock ''EIP155 fork block'' (cc_EIP155Block c) (cc_EIP155Block newcfg) head,
        checkBlock ''EIP158 fork block'' (cc_EIP158Block c) (cc_EIP158Block newcfg) head,
        if IsEIP158 c head \<and> \<not> BigNumEqual (cc_ChainID c) (cc_ChainID newcfg)
          then Some (newBlockCompatError ''EIP158 chain ID'' (cc_EIP158Block c) (cc_EIP158Block newcfg))
          else None,
        checkBlock ''Byzantium fork block'' (cc_ByzantiumBlock c) (cc_ByzantiumBlock newcfg) head,
        checkBlock ''Constantinople fork block'' (cc_ConstantinopleBlock c)
          (cc_ConstantinopleBlock newcfg) head,
        if isForkBlockIncompatible (cc_PetersburgBlock c) (cc_PetersburgBlock newcfg) head \<and>
           isForkBlockIncompatible (cc_ConstantinopleBlock c) (cc_PetersburgBlock newcfg) head
          then Some (newBlockCompatError ''Petersburg fork block'' (cc_PetersburgBlock c)
                       (cc_PetersburgBlock newcfg))
          else None,
        checkBlock ''Istanbul fork block'' (cc_IstanbulBlock c) (cc_IstanbulBlock newcfg) head,
        checkBlock ''Muir Glacier fork block'' (cc_MuirGlacierBlock c) (cc_MuirGlacierBlock newcfg) head,
        checkBlock ''Berlin fork block'' (cc_BerlinBlock c) (cc_BerlinBlock newcfg) head,
        checkBlock ''London fork block'' (cc_LondonBlock c) (cc_LondonBlock newcfg) head]"

definition timeConflict ::
    "('c, 'f) Module list \<Rightarrow> ChainConfig \<Rightarrow> ChainConfig \<Rightarrow> u64 \<Rightarrow> ConfigCompatError option" where
  "timeConflict mods c newcfg head =
     first_some
       [checkTime ''Shanghai fork timestamp'' (cc_ShanghaiTime c) (cc_ShanghaiTime newcfg) head,
        checkTime ''Cancun fork timestamp'' (cc_CancunTime c) (cc_CancunTime newcfg) head,
        checkTime ''Verkle fork timestamp'' (cc_VerkleTime c) (cc_VerkleTime newcfg) head,
        CheckNetworkUpgradesCompatible (cc_NetworkUpgrades c) (cc_NetworkUpgrades newcfg) head,
        CheckPrecompilesCompatible mods c (cc_PrecompileUpgrades newcfg) head,
        CheckStateUpgradesCompatible c (cc_StateUpgrades newcfg) head]"

lemma first_some_append:
  "first_some (xs @ ys) = (case first_some xs of Some e \<Rightarrow> Some e | None \<Rightarrow> first_some ys)"
  by (induction xs) (auto simp: first_some.simps(2) split: option.split)

lemma checkCompatible_parts:
  "checkCompatible mods c newcfg h t =
     (case blockConflict c newcfg h of Some e \<Rightarrow> Some e | None \<Rightarrow> timeConflict mods c newcfg t)"
  unfolding checkCompatible_def blockConflict_def timeConflict_def first_some_append [symmetric] by simp

lemma checkCompatible_None_parts:
  "checkCompatible mods c newcfg h t = None \<longleftrightarrow>
     blockConflict c newcfg h = None \<and> timeConflict mods c newcfg t = None"
  by (simp add: checkCompatible_parts split: option.split)

subsection \<open>A conflict by block number\<close>

lemma isForkBlockIncompatible_mono:
  "isForkBlockIncompatible s1 s2 (Some h) \<Longrightarrow> h \<le> h' \<Longrightarrow> isForkBlockIncompatible s1 s2 (Some h')"
  by (auto simp: isForkBlockIncompatible_def dest: isBlockForked_mono)

lemma checkBlock_None [simp]: "checkBlock w s1 s2 h = None \<longleftrightarrow> \<not> isForkBlockIncompatible s1 s2 h"
  by (simp add: checkBlock_def)

lemma blockConflict_mono:
  assumes "blockConflict c newcfg (Some h') = None" "h \<le> h'"
  shows "blockConflict c newcfg (Some h) = None"
  using assms isForkBlockIncompatible_mono [OF _ assms(2)] isBlockForked_mono [OF _ assms(2)]
  by (auto simp: blockConflict_def first_some_None IsEIP158_def split: if_splits)

lemma newBlockCompatError_covers:
  fixes head :: u64
  assumes "isBlockForked s1 (Some (uint head)) \<or> isBlockForked s2 (Some (uint head))"
    and "\<not> isBlockForked s1 (Some (uint h))" "\<not> isBlockForked s2 (Some (uint h))"
  shows "h \<le> RewindToBlock (newBlockCompatError w s1 s2)"
proof -
  have le: "h \<le> big_Uint64 r - 1" if "uint h < r" "r \<le> uint head" for r
  proof -
    have "r < 2 ^ 64" using order.strict_trans1 [OF that(2) uint_lt2p] by simp
    moreover have pos: "0 < r" using uint_ge_0 [of h] that(1) by linarith
    ultimately have r: "uint (big_Uint64 r) = r" by (simp add: uint_big_Uint64)
    with pos have "uint (big_Uint64 r - 1) = r - 1" using uint_sub_lem [of 1 "big_Uint64 r"] by simp
    with that(1) show ?thesis by (simp add: word_le_def)
  qed
  have pos: "0 < r" if "uint h < r" for r using that uint_ge_0 [of h] by linarith
  show ?thesis
    using assms
    by (cases s1; cases s2)
      (auto simp: newBlockCompatError_def Let_def not_le intro!: le dest: pos)
qed

lemma fork_covers:
  fixes head :: u64
  assumes "isForkBlockIncompatible s1 s2 (Some (uint head))" "\<not> isForkBlockIncompatible s1 s2 (Some (uint h))"
  shows "h \<le> RewindToBlock (newBlockCompatError w s1 s2)"
  using assms by (intro newBlockCompatError_covers) (auto simp: isForkBlockIncompatible_def)

lemma checkBlock_covers:
  fixes head :: u64
  assumes "checkBlock w s1 s2 (Some (uint head)) = Some e" "\<not> isForkBlockIncompatible s1 s2 (Some (uint h))"
  shows "h \<le> RewindToBlock e"
  using assms by (auto simp: checkBlock_def fork_covers split: if_splits)

text \<open>Petersburg is not scheduled before Constantinople.\<close>

definition petersburg_after :: "ChainConfig \<Rightarrow> bool" where
  "petersburg_after c \<longleftrightarrow>
     (case cc_PetersburgBlock c of None \<Rightarrow> True | Some p \<Rightarrow> isBlockForked (cc_ConstantinopleBlock c) (Some p))"

lemma petersburg_covers:
  fixes head :: u64
  assumes "petersburg_after c"
    and "isForkBlockIncompatible (cc_PetersburgBlock c) p' (Some (uint head))"
    and "isForkBlockIncompatible (cc_ConstantinopleBlock c) p' (Some (uint head))"
    and "\<not> (isForkBlockIncompatible (cc_PetersburgBlock c) p' (Some (uint h)) \<and>
            isForkBlockIncompatible (cc_ConstantinopleBlock c) p' (Some (uint h)))"
  shows "h \<le> RewindToBlock (newBlockCompatError w (cc_PetersburgBlock c) p')"
proof (rule newBlockCompatError_covers)
  have k: "isBlockForked (cc_ConstantinopleBlock c) (Some (uint h))"
    if "isBlockForked (cc_PetersburgBlock c) (Some (uint h))"
    using that assms(1)
    by (cases "cc_PetersburgBlock c") (auto simp: petersburg_after_def dest: isBlockForked_mono)
  with assms(2-4)
  show "\<not> isBlockForked (cc_PetersburgBlock c) (Some (uint h))" "\<not> isBlockForked p' (Some (uint h))"
    by (auto simp: isForkBlockIncompatible_def)
qed (use assms(2) in \<open>auto simp: isForkBlockIncompatible_def\<close>)

lemma eip158_covers:
  fixes head :: u64
  assumes "IsEIP158 c (Some (uint head))" "\<not> IsEIP158 c (Some (uint h))"
    and "\<not> isForkBlockIncompatible (cc_EIP158Block c) s (Some (uint h))"
  shows "h \<le> RewindToBlock (newBlockCompatError w (cc_EIP158Block c) s)"
  using assms block_compatible_agree [OF assms(3) order_refl]
  by (intro newBlockCompatError_covers) (auto simp: IsEIP158_def)

lemma blockConflict_covers:
  fixes head :: u64
  assumes "blockConflict c newcfg (Some (uint head)) = Some e" and "petersburg_after c"
    and "blockConflict c newcfg (Some (uint h)) = None"
  shows "h \<le> RewindToBlock e"
proof -
  note none = assms(3) [unfolded blockConflict_def first_some_None, simplified]
  from first_some_Some [OF assms(1) [unfolded blockConflict_def]] none show ?thesis
    by (auto split: if_splits intro: petersburg_covers [OF assms(2)] eip158_covers
        dest!: checkBlock_covers [OF sym])
qed

lemma newBlockCompatError_time [simp]: "RewindToTime (newBlockCompatError w s1 s2) = 0"
  by (simp add: newBlockCompatError_def Let_def)

lemma checkBlock_time: "checkBlock w s1 s2 h = Some e \<Longrightarrow> RewindToTime e = 0"
  by (auto simp: checkBlock_def split: if_splits)

lemma blockConflict_time:
  assumes "blockConflict c newcfg h = Some e"
  shows "RewindToTime e = 0"
  using first_some_Some [OF assms [unfolded blockConflict_def]]
  by (auto split: if_splits dest: checkBlock_time [OF sym])

subsection \<open>A conflict by time\<close>

lemma isForkTimestampIncompatible_mono:
  "isForkTimestampIncompatible s1 s2 t \<Longrightarrow> t \<le> t' \<Longrightarrow> isForkTimestampIncompatible s1 s2 t'"
  by (auto simp: isForkTimestampIncompatible_def dest: isTimestampForked_mono)

lemma checkTime_None [simp]: "checkTime w s1 s2 t = None \<longleftrightarrow> \<not> isForkTimestampIncompatible s1 s2 t"
  by (simp add: checkTime_def)

lemma newTimestampCompatError_covers:
  assumes "s1 \<noteq> None \<or> s2 \<noteq> None" and "\<not> isTimestampForked s1 t" "\<not> isTimestampForked s2 t"
  shows "t \<le> RewindToTime (newTimestampCompatError w s1 s2)"
proof -
  have le: "t \<le> r - 1" if "t < r" for r
  proof -
    from that have "r \<noteq> 0" by auto
    then have "unat (r - 1) = unat r - 1" by (rule unat_minus_one)
    with that show ?thesis by (simp add: word_less_nat_alt word_le_nat_alt)
  qed
  have pos: "0 < r" if "t < r" for r using that by (auto simp: word_gt_0)
  show ?thesis
    using assms
    by (cases s1; cases s2)
      (auto simp: newTimestampCompatError_def Let_def not_le intro!: le dest: pos)
qed

lemma fork_time_covers:
  assumes "isForkTimestampIncompatible s1 s2 head" "\<not> isForkTimestampIncompatible s1 s2 t"
  shows "t \<le> RewindToTime (newTimestampCompatError w s1 s2)"
  using assms by (intro newTimestampCompatError_covers) (auto simp: isForkTimestampIncompatible_def)

lemma checkTime_covers:
  "checkTime w s1 s2 head = Some e \<Longrightarrow> \<not> isForkTimestampIncompatible s1 s2 t \<Longrightarrow> t \<le> RewindToTime e"
  by (auto simp: checkTime_def fork_time_covers split: if_splits)

lemma network_covers:
  "CheckNetworkUpgradesCompatible n n' head = Some e \<Longrightarrow> CheckNetworkUpgradesCompatible n n' t = None \<Longrightarrow>
     t \<le> RewindToTime e"
  by (auto simp: CheckNetworkUpgradesCompatible_def fork_time_covers split: if_splits)

text \<open>
  Two schedules in order differ first at an upgrade of one of them: while its time is not reached, all that
  is active is in the common part.
\<close>

abbreviation active_at :: "('u \<Rightarrow> u64 option) \<Rightarrow> u64 \<Rightarrow> 'u list \<Rightarrow> 'u list" where
  "active_at ts t \<equiv> filter (\<lambda>u. isTimestampForked (ts u) t)"

lemma isTimestampForked_set: "isTimestampForked s t \<Longrightarrow> \<exists>a. s = Some a"
  by (cases s) auto

lemma active_at_sorted:
  assumes "ts_sorted ts (u # us)" "ts u \<noteq> None" "\<not> isTimestampForked (ts u) t"
  shows "active_at ts t (u # us) = []"
proof -
  have "\<not> isTimestampForked (ts v) t" if "v \<in> set us" for v
    using assms that by (cases "ts u"; cases "ts v") (auto simp: not_le)
  with assms(3) show ?thesis by (simp add: filter_empty_conv)
qed

lemma checkActivated_covers:
  assumes "checkActivated w eq ts i us ns = Some e" and "ts_sorted ts us" "ts_sorted ts ns"
    and "\<forall>u \<in> set us \<union> set ns. ts u \<noteq> None" and "\<forall>u n. eq u n \<longrightarrow> ts u = ts n"
    and "list_all2 eq (active_at ts t us) (active_at ts t ns)"
  shows "t \<le> RewindToTime e"
  using assms
proof (induction w eq ts i us ns rule: checkActivated.induct)
  case (4 w eq ts i u us n ns)
  note some = 4(5) [rule_format]
  show ?case
  proof (cases "eq u n")
    case True
    with 4(6) have "ts u = ts n" by blast
    with 4(7) have "list_all2 eq (active_at ts t us) (active_at ts t ns)" by (simp split: if_splits)
    moreover have "checkActivated w eq ts (Suc i) us ns = Some e" using 4(2) True by simp
    moreover have "ts_sorted ts us" "ts_sorted ts ns" using 4(3,4) by simp_all
    ultimately show ?thesis using 4(1) [OF _ _ _ _ _ 4(6)] True some by simp
  next
    case False
    have "\<not> isTimestampForked (ts u) t \<and> \<not> isTimestampForked (ts n) t"
      using 4(7) False active_at_sorted [OF 4(3) some, of t] active_at_sorted [OF 4(4) some, of t]
      by (cases "isTimestampForked (ts u) t"; cases "isTimestampForked (ts n) t") simp_all
    then have "t \<le> RewindToTime (newTimestampCompatError (w @ ''['' @ nat_dec i @ '']'') (ts u) (ts n))"
      using some [of u] by (intro newTimestampCompatError_covers) simp_all
    with 4(2) False show ?thesis by auto
  qed
next
  case (2 w eq ts i n ns)
  from 2(6) have "\<not> isTimestampForked (ts n) t" by (auto split: if_splits)
  with 2(1,4) show ?case by (auto intro: newTimestampCompatError_covers)
next
  case (3 w eq ts i u us)
  from 3(6) have "\<not> isTimestampForked (ts u) t" by (auto split: if_splits)
  with 3(1,4) show ?case by (auto intro: newTimestampCompatError_covers)
qed simp

text \<open>Configurations whose schedules of upgrades pass their verification, over the same genesis.\<close>

definition schedules_ok :: "ChainConfig \<Rightarrow> ChainConfig \<Rightarrow> bool" where
  "schedules_ok c newcfg \<longleftrightarrow>
     distinct (map fst (cc_GenesisPrecompiles c)) \<and> cc_GenesisPrecompiles newcfg = cc_GenesisPrecompiles c \<and>
     verifyPrecompileUpgrades c = None \<and> verifyPrecompileUpgrades newcfg = None \<and>
     verifyStateUpgrades c = None \<and> verifyStateUpgrades newcfg = None"

lemma schedules_ok_precompiles:
  assumes "schedules_ok c newcfg" "ups = cc_PrecompileUpgrades c \<or> ups = cc_PrecompileUpgrades newcfg"
  shows "ts_sorted Config_Timestamp (GetActivatingPrecompileConfigs mods c addr None t ups)"
proof -
  have "genesis_upgrade newcfg key = genesis_upgrade c key" for key
    using assms(1) by (simp add: schedules_ok_def genesis_upgrade_def)
  moreover have "\<forall>key. alternates (genesis_upgrade d key) (of_key key (cc_PrecompileUpgrades d))"
    if "d = c \<or> d = newcfg" for d
    using assms(1) that verifyPrecompileUpgrades_iff [of d] by (auto simp: schedules_ok_def)
  ultimately have "alternates (genesis_upgrade c key) (of_key key ups)" for key
    using assms(2) by metis
  then have "ts_sorted Config_Timestamp (key_configs c key ups)" for key by (rule key_configs_sorted)
  then show ?thesis
    unfolding GetActivatingPrecompileConfigs_filter by (auto intro: sorted_wrt_filter split: option.split)
qed

lemma checkPrecompileCompatible_covers:
  assumes "schedules_ok c newcfg" and "t \<le> head"
    and "checkPrecompileCompatible mods c addr (cc_PrecompileUpgrades newcfg) head = Some e"
    and "checkPrecompileCompatible mods c addr (cc_PrecompileUpgrades newcfg) t = None"
  shows "t \<le> RewindToTime e"
proof (rule checkActivated_covers)
  let ?f = "\<lambda>t. GetActivatingPrecompileConfigs mods c addr None t"
  show "checkActivated ''PrecompileUpgrade'' Config_Equal Config_Timestamp 0
      (?f head (cc_PrecompileUpgrades c)) (?f head (cc_PrecompileUpgrades newcfg)) = Some e"
    using assms(3) by (simp add: checkPrecompileCompatible_def)
  show "list_all2 Config_Equal (active_at Config_Timestamp t (?f head (cc_PrecompileUpgrades c)))
      (active_at Config_Timestamp t (?f head (cc_PrecompileUpgrades newcfg)))"
    using assms(4)
    by (simp add: checkPrecompileCompatible_def checkActivated_None
        GetActivatingPrecompileConfigs_earlier [OF assms(2), symmetric])
  show "\<forall>u \<in> set (?f head (cc_PrecompileUpgrades c)) \<union> set (?f head (cc_PrecompileUpgrades newcfg)).
      Config_Timestamp u \<noteq> None"
    by (auto dest!: GetActivatingPrecompileConfigs_active isTimestampForked_set)
qed (use Config_Equal_Timestamp in \<open>blast intro: schedules_ok_precompiles [OF assms(1)]\<close>)+

lemma checkStateUpgrades_covers:
  assumes "schedules_ok c newcfg" and "t \<le> head"
    and "CheckStateUpgradesCompatible c (cc_StateUpgrades newcfg) head = Some e"
    and "CheckStateUpgradesCompatible c (cc_StateUpgrades newcfg) t = None"
  shows "t \<le> RewindToTime e"
proof (rule checkActivated_covers)
  let ?f = "\<lambda>t. GetActivatingStateUpgrades None t"
  show "checkActivated ''StateUpgrade'' StateUpgrade_Equal su_BlockTimestamp 0
      (?f head (cc_StateUpgrades c)) (?f head (cc_StateUpgrades newcfg)) = Some e"
    using assms(3) by (simp add: CheckStateUpgradesCompatible_def)
  show "list_all2 StateUpgrade_Equal (active_at su_BlockTimestamp t (?f head (cc_StateUpgrades c)))
      (active_at su_BlockTimestamp t (?f head (cc_StateUpgrades newcfg)))"
    using assms(4)
    by (simp add: CheckStateUpgradesCompatible_def checkActivated_None
        GetActivatingStateUpgrades_earlier [OF assms(2), symmetric])
  show "\<forall>u \<in> set (?f head (cc_StateUpgrades c)) \<union> set (?f head (cc_StateUpgrades newcfg)).
      su_BlockTimestamp u \<noteq> None"
    by (auto dest!: GetActivatingStateUpgrades_active isTimestampForked_set)
  have sorted: "ts_sorted su_BlockTimestamp (?f head (cc_StateUpgrades d))" if "verifyStateUpgrades d = None" for d
    unfolding GetActivatingStateUpgrades_def
    using verifyStateUpgrades_loop_sorted [OF that [unfolded verifyStateUpgrades_def]]
    by (blast intro: sorted_wrt_filter)
  show "ts_sorted su_BlockTimestamp (?f head (cc_StateUpgrades c))"
    "ts_sorted su_BlockTimestamp (?f head (cc_StateUpgrades newcfg))"
    by (rule sorted; use assms(1) in \<open>simp add: schedules_ok_def\<close>)+
qed (simp add: StateUpgrade_Equal_def)

lemma checkActivated_mono:
  assumes "list_all2 eq us ns" "\<And>u n. eq u n \<Longrightarrow> ts u = ts n"
  shows "list_all2 eq (active_at ts t us) (active_at ts t ns)"
  using assms(1) by (rule list_all2_filter_same) (simp add: assms(2))

lemma timeConflict_mono:
  assumes "timeConflict mods c newcfg t' = None" "t \<le> t'"
  shows "timeConflict mods c newcfg t = None"
proof -
  note none = assms(1) [unfolded timeConflict_def first_some_None, simplified]
  have "checkPrecompileCompatible mods c addr (cc_PrecompileUpgrades newcfg) t = None"
    if "checkPrecompileCompatible mods c addr (cc_PrecompileUpgrades newcfg) t' = None" for addr
    using that checkActivated_mono [OF _ Config_Equal_Timestamp]
    by (simp add: checkPrecompileCompatible_def checkActivated_None
        GetActivatingPrecompileConfigs_earlier [OF assms(2)])
  moreover have "StateUpgrade_Equal u n \<Longrightarrow> su_BlockTimestamp u = su_BlockTimestamp n" for u n
    by (simp add: StateUpgrade_Equal_def)
  then have "CheckStateUpgradesCompatible c (cc_StateUpgrades newcfg) t = None"
    using none checkActivated_mono [of StateUpgrade_Equal _ _ su_BlockTimestamp]
    by (simp add: CheckStateUpgradesCompatible_def checkActivated_None
        GetActivatingStateUpgrades_earlier [OF assms(2)])
  ultimately show ?thesis
    using none isForkTimestampIncompatible_mono [OF _ assms(2)]
    by (auto simp: timeConflict_def first_some_None CheckPrecompilesCompatible_def
        CheckNetworkUpgradesCompatible_def split: if_splits)
qed

lemma CheckPrecompilesCompatible_covers:
  assumes "schedules_ok c newcfg" and "t \<le> head"
    and "CheckPrecompilesCompatible mods c (cc_PrecompileUpgrades newcfg) head = Some e"
    and "CheckPrecompilesCompatible mods c (cc_PrecompileUpgrades newcfg) t = None"
  shows "t \<le> RewindToTime e"
  using first_some_Some [OF assms(3) [unfolded CheckPrecompilesCompatible_def]]
    assms(4)
  by (auto simp: CheckPrecompilesCompatible_def first_some_None
      intro: checkPrecompileCompatible_covers [OF assms(1,2) sym])

lemma timeConflict_covers:
  assumes "timeConflict mods c newcfg head = Some e" and "schedules_ok c newcfg"
    and "timeConflict mods c newcfg t = None"
  shows "t \<le> RewindToTime e"
proof -
  have le: "t \<le> head"
  proof (rule ccontr)
    assume "\<not> t \<le> head"
    then have "head \<le> t" by simp
    from timeConflict_mono [OF assms(3) this] assms(1) show False by simp
  qed
  note none = assms(3) [unfolded timeConflict_def first_some_None, simplified]
  from first_some_Some [OF assms(1) [unfolded timeConflict_def]] none show ?thesis
    by (auto dest: checkTime_covers [OF sym] network_covers [OF sym]
        CheckPrecompilesCompatible_covers [OF assms(2) le sym] checkStateUpgrades_covers [OF assms(2) le sym])
qed

lemma newTimestampCompatError_block [simp]: "RewindToBlock (newTimestampCompatError w s1 s2) = 0"
  by (simp add: newTimestampCompatError_def Let_def)

lemma checkActivated_block: "checkActivated w eq ts i us ns = Some e \<Longrightarrow> RewindToBlock e = 0"
  by (induction w eq ts i us ns rule: checkActivated.induct) (auto split: if_splits)

lemma timeConflict_block:
  assumes "timeConflict mods c newcfg t = Some e"
  shows "RewindToBlock e = 0"
proof -
  have "RewindToBlock e = 0" if "Some e \<in> set (map f mods)"
    "\<And>x. f x = checkPrecompileCompatible mods c (mod_Address x) (cc_PrecompileUpgrades newcfg) t" for f
    using that by (auto simp: checkPrecompileCompatible_def dest!: checkActivated_block [OF sym])
  then show ?thesis
    using first_some_Some [OF assms [unfolded timeConflict_def]]
    by (auto simp: checkTime_def CheckNetworkUpgradesCompatible_def CheckPrecompilesCompatible_def
        CheckStateUpgradesCompatible_def Let_def split: if_splits
        dest!: checkActivated_block [OF sym] first_some_Some [OF sym])
qed

subsection \<open>The scan\<close>

text \<open>
  An error is a bound: a height and a time at which the configurations do not conflict lie at or below
  what it rewinds to. An error that rewinds to zero leaves only the genesis block or the time zero.
\<close>

definition bounds_compatible ::
    "('c, 'f) Module list \<Rightarrow> ChainConfig \<Rightarrow> ChainConfig \<Rightarrow> ConfigCompatError \<Rightarrow> bool" where
  "bounds_compatible mods c newcfg e \<longleftrightarrow>
     (\<forall>h t. checkCompatible mods c newcfg (Some (uint h)) t = None \<longrightarrow>
        (if 0 < RewindToTime e then t \<le> RewindToTime e
         else if 0 < RewindToBlock e then h \<le> RewindToBlock e else h = (0 :: u64) \<or> t = 0))"

lemma checkCompatible_bounds:
  fixes head :: u64
  assumes "checkCompatible mods c newcfg (Some (uint head)) time = Some e"
    and "petersburg_after c" "schedules_ok c newcfg"
  shows "bounds_compatible mods c newcfg e"
proof (cases "blockConflict c newcfg (Some (uint head))")
  case None
  with assms(1) have t: "timeConflict mods c newcfg time = Some e" by (simp add: checkCompatible_parts)
  from timeConflict_covers [OF t assms(3)] timeConflict_block [OF t] show ?thesis
    by (auto simp: bounds_compatible_def checkCompatible_None_parts not_less)
next
  case (Some e')
  with assms(1) have b: "blockConflict c newcfg (Some (uint head)) = Some e" by (simp add: checkCompatible_parts)
  from blockConflict_covers [OF b assms(2)] blockConflict_time [OF b] show ?thesis
    by (auto simp: bounds_compatible_def checkCompatible_None_parts not_less)
qed

text \<open>
  The state of the scan below the head it started from: the last error bounds the compatible points, and the
  scan stands at what that error rewinds to. Times are lowered only after the conflicts by block number
  are gone.
\<close>

definition scan_inv ::
    "('c, 'f) Module list \<Rightarrow> ChainConfig \<Rightarrow> ChainConfig \<Rightarrow> u64 \<Rightarrow> u64 \<Rightarrow> u64 \<Rightarrow> u64
       \<Rightarrow> ConfigCompatError option \<Rightarrow> bool" where
  "scan_inv mods c newcfg height time bhead btime lasterr \<longleftrightarrow>
     bhead \<le> height \<and> btime \<le> time \<and> (blockConflict c newcfg (Some (uint bhead)) \<noteq> None \<longrightarrow> btime = time) \<and>
     (\<forall>l. lasterr = Some l \<longrightarrow> bounds_compatible mods c newcfg l \<and>
        (0 < RewindToTime l \<longrightarrow> RewindToBlock l = 0 \<and> RewindToTime l < time \<and> btime = RewindToTime l) \<and>
        (0 < RewindToBlock l \<longrightarrow>
           RewindToTime l = 0 \<and> RewindToBlock l < height \<and> bhead = RewindToBlock l \<and> btime = time))"

lemma scan_inv_step:
  assumes inv: "scan_inv mods c newcfg height time bhead btime lasterr"
    and err: "checkCompatible mods c newcfg (Some (uint bhead)) btime = Some err"
    and ok: "petersburg_after c" "schedules_ok c newcfg"
  shows "0 < RewindToTime err \<Longrightarrow> scan_inv mods c newcfg height time bhead (RewindToTime err) (Some err)"
    and "\<not> 0 < RewindToTime err \<Longrightarrow> scan_inv mods c newcfg height time (RewindToBlock err) btime (Some err)"
proof -
  note below = checkCompatible_rewinds [OF err] and bounds = checkCompatible_bounds [OF err ok]
  note i = inv [unfolded scan_inv_def]
  {
    assume pos: "0 < RewindToTime err"
    with err blockConflict_time have none: "blockConflict c newcfg (Some (uint bhead)) = None"
      by (fastforce simp: checkCompatible_parts split: option.splits)
    with err have t: "timeConflict mods c newcfg btime = Some err" by (simp add: checkCompatible_parts)
    from below pos have "RewindToTime err < btime" by (auto simp: rewinds_below_def)
    with i pos none timeConflict_block [OF t] bounds
    show "scan_inv mods c newcfg height time bhead (RewindToTime err) (Some err)"
      by (auto simp: scan_inv_def)
  next
    assume "\<not> 0 < RewindToTime err"
    then have zero: "RewindToTime err = 0" by (simp add: not_less)
    with below have le: "RewindToBlock err \<le> bhead" "0 < RewindToBlock err \<longrightarrow> RewindToBlock err < bhead"
      by (auto simp: rewinds_below_def)
    have bt: "btime = time" if "0 < RewindToBlock err"
    proof (rule ccontr)
      assume "btime \<noteq> time"
      with i have "blockConflict c newcfg (Some (uint bhead)) = None" by blast
      with err have "timeConflict mods c newcfg btime = Some err" by (simp add: checkCompatible_parts)
      from timeConflict_block [OF this] that show False by simp
    qed
    have "btime = time" if "blockConflict c newcfg (Some (uint (RewindToBlock err))) \<noteq> None"
      using i that blockConflict_mono [of c newcfg "uint bhead"] le(1) by (auto simp: word_le_def)
    with i zero le bt bounds
    show "scan_inv mods c newcfg height time (RewindToBlock err) btime (Some err)"
      by (auto simp: scan_inv_def)
  }
qed

lemma scan_inv_end:
  assumes inv: "scan_inv mods c newcfg height time bhead btime (Some e)"
    and last: "case checkCompatible mods c newcfg (Some (uint bhead)) btime of None \<Rightarrow> True
      | Some err \<Rightarrow> RewindToBlock err = RewindToBlock e \<and> RewindToTime err = RewindToTime e"
  shows "0 < RewindToBlock e \<Longrightarrow> checkCompatible mods c newcfg (Some (uint (RewindToBlock e))) time = None"
    and "0 < RewindToTime e \<Longrightarrow> timeConflict mods c newcfg (RewindToTime e) = None"
proof -
  note i = inv [unfolded scan_inv_def, THEN conjunct2, THEN conjunct2, THEN conjunct2, rule_format, OF refl]
  have none: "checkCompatible mods c newcfg (Some (uint bhead)) btime = None"
    if "0 < RewindToBlock e \<or> 0 < RewindToTime e"
  proof (cases "checkCompatible mods c newcfg (Some (uint bhead)) btime")
    case (Some err)
    from checkCompatible_rewinds [OF Some] last Some i that show ?thesis by (auto simp: rewinds_below_def)
  qed
  show "checkCompatible mods c newcfg (Some (uint (RewindToBlock e))) time = None" if "0 < RewindToBlock e"
    using none that i by simp
  show "timeConflict mods c newcfg (RewindToTime e) = None" if "0 < RewindToTime e"
    using none that i by (simp add: checkCompatible_None_parts)
qed

lemma CheckCompatible_loop_rewind:
  assumes "CheckCompatible_loop mods c newcfg bhead btime lasterr = Some e"
    and "scan_inv mods c newcfg height time bhead btime lasterr"
    and "petersburg_after c" "schedules_ok c newcfg"
  shows "\<exists>bh bt. scan_inv mods c newcfg height time bh bt (Some e) \<and>
     (case checkCompatible mods c newcfg (Some (uint bh)) bt of None \<Rightarrow> True
      | Some err \<Rightarrow> RewindToBlock err = RewindToBlock e \<and> RewindToTime err = RewindToTime e)"
  using assms
proof (induction mods c newcfg bhead btime lasterr rule: CheckCompatible_loop.induct)
  case (1 mods c newcfg bhead btime lasterr)
  note loop = 1(3) [unfolded CheckCompatible_loop.simps [of mods c newcfg bhead btime lasterr]]
  show ?case
  proof (cases "checkCompatible mods c newcfg (Some (uint bhead)) btime")
    case None
    with loop 1(4) show ?thesis by (intro exI [of _ bhead] exI [of _ btime]) auto
  next
    case (Some err)
    note step = scan_inv_step [OF 1(4) Some 1(5,6)]
    let ?same = "case lasterr of None \<Rightarrow> False
      | Some l \<Rightarrow> RewindToBlock err = RewindToBlock l \<and> RewindToTime err = RewindToTime l"
    consider ?same | "\<not> ?same" "0 < RewindToTime err" | "\<not> ?same" "\<not> 0 < RewindToTime err" by blast
    then show ?thesis
    proof cases
      case 1
      with loop Some \<open>scan_inv mods c newcfg height time bhead btime lasterr\<close> show ?thesis
        by (intro exI [of _ bhead] exI [of _ btime]) (auto split: option.splits)
    next
      case 2
      with loop Some have "CheckCompatible_loop mods c newcfg bhead (RewindToTime err) (Some err) = Some e" by simp
      from "1.IH"(1) [OF Some 2 this step(1) [OF 2(2)] 1(5,6)] show ?thesis .
    next
      case 3
      with loop Some have "CheckCompatible_loop mods c newcfg (RewindToBlock err) btime (Some err) = Some e" by simp
      from "1.IH"(2) [OF Some 3 this step(2) [OF 3(2)] 1(5,6)] show ?thesis .
    qed
  qed
qed

lemma CheckCompatible_rewinds:
  assumes e: "CheckCompatible mods c newcfg height time = Some e"
    and ok: "petersburg_after c" "schedules_ok c newcfg"
  shows "bounds_compatible mods c newcfg e"
    and "0 < RewindToBlock e \<Longrightarrow> RewindToTime e = 0 \<and> RewindToBlock e < height \<and>
       checkCompatible mods c newcfg (Some (uint (RewindToBlock e))) time = None"
    and "0 < RewindToTime e \<Longrightarrow> RewindToBlock e = 0 \<and> RewindToTime e < time \<and>
       timeConflict mods c newcfg (RewindToTime e) = None"
proof -
  have "scan_inv mods c newcfg height time height time None" by (simp add: scan_inv_def)
  from CheckCompatible_loop_rewind [OF e [unfolded CheckCompatible_def] this ok] obtain bh bt where
    inv: "scan_inv mods c newcfg height time bh bt (Some e)"
    and last: "case checkCompatible mods c newcfg (Some (uint bh)) bt of None \<Rightarrow> True
      | Some err \<Rightarrow> RewindToBlock err = RewindToBlock e \<and> RewindToTime err = RewindToTime e"
    by blast
  note i = inv [unfolded scan_inv_def, THEN conjunct2, THEN conjunct2, THEN conjunct2, rule_format, OF refl]
  from i show "bounds_compatible mods c newcfg e" by blast
  show "RewindToTime e = 0 \<and> RewindToBlock e < height \<and>
      checkCompatible mods c newcfg (Some (uint (RewindToBlock e))) time = None" if "0 < RewindToBlock e"
    using i scan_inv_end(1) [OF inv last] that by simp
  show "RewindToBlock e = 0 \<and> RewindToTime e < time \<and> timeConflict mods c newcfg (RewindToTime e) = None"
    if "0 < RewindToTime e"
    using i scan_inv_end(2) [OF inv last] that by simp
qed

end
