(* ===== verification/Examples.thy ===== *)
theory Examples
  imports Consensus StateFinalise ContractState FeeManager NativeMinter RewardManager CompatibilityRewind
begin

text \<open>
  Concrete values for evaluating the model: a chain with the default fee configuration and the Subnet
  EVM upgrade at genesis, its first two headers, and a world state over an empty database.
\<close>

definition ex_config :: ChainConfig where
  "ex_config =
     \<lparr>cc_ChainID = Some 43214, cc_HomesteadBlock = Some 0, cc_EIP150Block = Some 0,
      cc_EIP155Block = Some 0, cc_EIP158Block = Some 0, cc_ByzantiumBlock = Some 0,
      cc_ConstantinopleBlock = Some 0, cc_PetersburgBlock = Some 0, cc_IstanbulBlock = Some 0,
      cc_MuirGlacierBlock = Some 0, cc_BerlinBlock = None, cc_LondonBlock = None,
      cc_ShanghaiTime = None, cc_CancunTime = None, cc_VerkleTime = None,
      cc_NetworkUpgrades = \<lparr>SubnetEVMTimestamp = Some 0, DurangoTimestamp = None, EtnaTimestamp = None\<rparr>,
      cc_SnowCtx = None, cc_FeeConfig = DefaultFeeConfig, cc_AllowFeeRecipients = True,
      cc_GenesisPrecompiles = [],
      cc_UpgradeConfig = \<lparr>uc_NetworkUpgradeOverrides = None, uc_StateUpgrades = [], uc_PrecompileUpgrades = []\<rparr>\<rparr>"

definition ex_engine :: DummyEngine where
  "ex_engine =
     \<lparr>eng_clock = 1000,
      eng_consensusMode = \<lparr>ModeSkipHeader = False, ModeSkipBlockFee = False, ModeSkipCoinbase = False\<rparr>\<rparr>"

definition ex_chain :: "unit ChainHeaderReader" where
  "ex_chain =
     \<lparr>chr_Config = ex_config, chr_GetHeader = (\<lambda>h n. None),
      chr_GetFeeConfigAt = (\<lambda>h. Inr (DefaultFeeConfig, Some 0)),
      chr_GetCoinbaseAt = (\<lambda>h. Inr (0, True))\<rparr>"

definition ex_genesis :: Header where
  "ex_genesis =
     \<lparr>hdr_ParentHash = 0, hdr_UncleHash = 0, hdr_Coinbase = 0, hdr_Root = 0, hdr_TxHash = 0,
      hdr_ReceiptHash = 0, hdr_Bloom = [], hdr_Difficulty = Some 0, hdr_Number = Some 0,
      hdr_GasLimit = 8000000, hdr_GasUsed = 0, hdr_Time = 0, hdr_Extra = [], hdr_MixDigest = 0,
      hdr_Nonce = 0, hdr_BaseFee = Some 25000000000, hdr_BlockGasCost = Some 0,
      hdr_BlobGasUsed = None, hdr_ExcessBlobGas = None, hdr_ParentBeaconRoot = None\<rparr>"

definition ex_block1 :: Header where
  "ex_block1 =
     ex_genesis\<lparr>hdr_Number := Some 1, hdr_GasUsed := 21000, hdr_Time := 5, hdr_Extra := replicate 80 0,
       hdr_Difficulty := Some 1\<rparr>"

text \<open>Block 2 is one second later, so the gas of block 1 is in the last slot but one of its window.\<close>

definition ex_window :: "byte list" where
  "ex_window = replicate 64 0 @ be_bytes 8 21000 @ replicate 8 0"

definition ex_block2 :: Header where
  "ex_block2 =
     ex_block1\<lparr>hdr_Number := Some 2, hdr_Time := 6, hdr_BlockGasCost := Some 200000,
       hdr_Extra := ex_window\<rparr>"

definition ex_backend :: "unit backend" where
  "ex_backend =
     \<lparr>bk_Keccak256Hash = (\<lambda>bs. of_nat (be_nat bs) + 1), bk_snap = None, bk_rlpSplit = (\<lambda>bs. (bs, None)),
      bk_GetAccount = (\<lambda>a. Inr None), bk_OpenStorageTrie = (\<lambda>a root. Inr (\<lambda>k. Inr [])),
      bk_ContractCode = (\<lambda>a h. (None, None)), bk_ContractCodeSize = (\<lambda>a h. (0, None))\<rparr>"

lemma hash_SetBytes_nil [simp]: "hash_SetBytes h [] = h"
proof -
  have "be_nat (hashBytes h) = unat h mod 256 ^ 32"
    unfolding hashBytes_def by (rule be_nat_be_bytes)
  moreover have "unat h < 256 ^ 32"
    using unsigned_less [of h, where ?'a = nat] by simp
  moreover have "take 32 (hashBytes h) = hashBytes h" by (simp add: hashBytes_def)
  ultimately show ?thesis by (simp add: hash_SetBytes_def BytesToHash_def)
qed

lemma ex_backend_ok [simp]: "database_ok ex_backend"
  by (simp add: database_ok_def ex_backend_def readStorage_def)

lemma ex_window_step: "window_step geth_ref (replicate 80 0) 1 21000 = Some ex_window"
proof -
  have "replicate 72 0 @ replicate 8 0 = (replicate 80 0 :: byte list)"
    by (simp flip: replicate_add)
  then have "nextRollupWindow geth_ref (replicate 80 0) 1 21000 = Some (Inr ex_window)"
    by (simp add: nextRollupWindow_def rollLongWindow_def rollWindow_def updateLongWindow_def
        getUint64_def putUint64_def geth_ref_def RollupWindow_def LongLen_def ex_window_def)
  then show ?thesis by (simp add: window_step_def)
qed

lemma ex_gas: "(\<Sum>a<10. gas_at [(1, 21000)] a) = 21000"
proof -
  have "{..<10::nat} = {0,1,2,3,4,5,6,7,8,9}" by auto
  then show ?thesis by simp
qed

lemma ex_window_total: "window_total geth_ref ex_window = Some 21000"
proof -
  have "fee_window.run [(1, 21000)] = Some ex_window" by (simp add: ex_window_step)
  from fee_window.run_total [OF _ this]
  have "window_total geth_ref ex_window = Some (of_nat (sat (\<Sum>a<10. gas_at [(1, 21000)] a)))"
    by (simp del: gas_at.simps)
  then show ?thesis unfolding ex_gas by (simp add: sat_le)
qed

lemma length_ex_window [simp]: "length ex_window = 80"
  by (simp add: ex_window_def)

lemmas ex_defs = ex_config_def ex_engine_def ex_chain_def ex_genesis_def ex_block1_def ex_block2_def
  DefaultFeeConfig_def IsSubnetEVM_def IsDurango_def isTimestampForked_def

lemma ex_subnet [simp]: "IsSubnetEVM (cc_NetworkUpgrades ex_config) t"
  by (simp add: ex_defs)

lemma ex_calc1: "CalcBaseFee geth_ref ex_config DefaultFeeConfig ex_genesis 5 =
    Some (Inr (replicate 80 0, Some 25000000000))"
  by (simp add: CalcBaseFee_def DynamicFeeExtraDataSize_def ex_genesis_def DefaultFeeConfig_def)

lemma ex_calc2: "CalcBaseFee geth_ref ex_config DefaultFeeConfig ex_block1 6 =
    Some (Inr (ex_window, Some 25000000000))"
proof -
  have "can_price ex_config ex_block1 6" by (simp add: can_price_def ex_block1_def ex_genesis_def)
  from CalcBaseFee_eq [OF geth_ok_ref this, of 25000000000 DefaultFeeConfig 15000000 36 25000000000 ex_window 21000]
  show ?thesis
    by (simp add: ex_window_step ex_window_total base_fee_spec_def ex_block1_def ex_genesis_def DefaultFeeConfig_def)
qed

lemma ex_gas_fields:
  "verifyHeaderGasFields geth_ref ex_chain ex_block1 ex_genesis = Some None"
  "verifyHeaderGasFields geth_ref ex_chain ex_block2 ex_block1 = Some None"
  using ex_calc1 ex_calc2
  by (simp_all add: verifyHeaderGasFields_def ex_chain_def MaxGasLimit_def ex_block1_def ex_block2_def
      ex_genesis_def DefaultFeeConfig_def big_Uint64_def calcBlockGasCost_def selectBigWithinBounds_def
      big_IsUint64_def big_BitLen_def nat_bitlen.simps)

lemma ex_verified1: "verifyHeader geth_ref ex_engine ex_chain ex_block1 ex_genesis False = Some None"
  using ex_gas_fields(1)
  by (simp add: verifyHeader_def extraDataLengthOk_def verifyCoinbase_def verifyCancunFields_def
      DynamicFeeExtraDataSize_def IsCancun_def ex_defs)

lemma ex_verified2: "verifyHeader geth_ref ex_engine ex_chain ex_block2 ex_block1 False = Some None"
  using ex_gas_fields(2)
  by (simp add: verifyHeader_def extraDataLengthOk_def verifyCoinbase_def verifyCancunFields_def
      DynamicFeeExtraDataSize_def IsCancun_def ex_defs)

lemma ex_verified_chain: "verified_chain geth_ref ex_engine ex_chain [ex_block2, ex_block1, ex_genesis]"
  by (intro verified_chain.intros ex_verified1 ex_verified2)
     (simp_all add: ex_chain_def ex_genesis_def ex_block1_def)

definition ex_hasher :: "unit trieHasher" where
  "ex_hasher = \<lparr>DeriveShaTxs = (\<lambda>_. 1), DeriveShaReceipts = (\<lambda>_. 2), CalcUncleHash = (\<lambda>_. 3)\<rparr>"

definition ex_log :: Log where
  "ex_log =
     \<lparr>log_Address = 1, log_Topics = [7], log_Data = [], log_BlockNumber = 1, log_TxHash = 0,
      log_TxIndex = 0, log_BlockHash = 0, log_Index = 0, log_Removed = False\<rparr>"

definition ex_receipt :: Receipt where
  "ex_receipt =
     \<lparr>rc_Type = 0, rc_PostState = [], rc_Status = 1, rc_CumulativeGasUsed = 21000, rc_Bloom = [],
      rc_Logs = [ex_log], rc_TxHash = 0, rc_ContractAddress = 0, rc_GasUsed = 21000,
      rc_EffectiveGasPrice = Some 0, rc_BlobGasUsed = 0, rc_BlobGasPrice = None, rc_BlockHash = 0,
      rc_BlockNumber = Some 1, rc_TransactionIndex = 0\<rparr>"

definition ex_tx :: DynamicFeeTx where
  "ex_tx =
     \<lparr>df_ChainID = 43214, df_Nonce = 0, df_GasTipCap = 2, df_GasFeeCap = 200, df_Gas = 21000,
      df_To = Some 2, df_Value = 5, df_Data = [], df_AccessList = [], df_V = 0, df_R = 0, df_S = 0\<rparr>"

definition ex_reward_config :: RewardManagerConfig where
  "ex_reward_config = rewardManager_NewConfig (Some 10) [] [1] [] None"

definition ex_modules :: "(unit, unit) Module list" where
  "ex_modules =
     [\<lparr>mod_ConfigKey = txAllowList_ConfigKey, mod_Address = txAllowList_ContractAddress,
       mod_Contract = (), mod_Configurator = ()\<rparr>]"

text \<open>The tx allow list enabled at time 150 and disabled at time 200.\<close>

definition ex_config2 :: ChainConfig where
  "ex_config2 =
     ex_config\<lparr>cc_UpgradeConfig := \<lparr>uc_NetworkUpgradeOverrides = None, uc_StateUpgrades = [],
       uc_PrecompileUpgrades = [TxAllowList (txAllowList_NewConfig (Some 150) [] [1] []),
                                TxAllowList (txAllowList_NewDisableConfig (Some 200))]\<rparr>\<rparr>"

text \<open>Homestead at a block and Etna at a time of choice.\<close>

definition ex_forks :: "int \<Rightarrow> u64 \<Rightarrow> ChainConfig" where
  "ex_forks homestead etna =
     ex_config\<lparr>cc_HomesteadBlock := Some homestead,
       cc_NetworkUpgrades := \<lparr>SubnetEVMTimestamp = Some 0, DurangoTimestamp = None, EtnaTimestamp = Some etna\<rparr>\<rparr>"

lemma ex_config2_fields [simp]:
  "cc_UpgradeConfig ex_config = \<lparr>uc_NetworkUpgradeOverrides = None, uc_StateUpgrades = [], uc_PrecompileUpgrades = []\<rparr>"
  "cc_GenesisPrecompiles ex_config = []" "cc_GenesisPrecompiles ex_config2 = []"
  "cc_PrecompileUpgrades ex_config2 =
     [TxAllowList (txAllowList_NewConfig (Some 150) [] [1] []), TxAllowList (txAllowList_NewDisableConfig (Some 200))]"
  by (simp_all add: ex_config_def ex_config2_def)

lemma ex_activating [simp]:
  "GetActivatingPrecompileConfigs ex_modules ex_config addr None 100 (cc_PrecompileUpgrades ex_config) = []"
  "GetActivatingPrecompileConfigs ex_modules ex_config addr None 100 (cc_PrecompileUpgrades ex_config2) = []"
  by (simp_all add: GetActivatingPrecompileConfigs_def Let_def IsForkTransition_def isTimestampForked_def
      Config_Timestamp_def Upgrade_Timestamp_def txAllowList_NewConfig_def txAllowList_NewDisableConfig_def
      split: option.split)

lemma ex_check_fields:
  "checkBlock what x x head = None" "checkTime what' t t htime = None"
  by (simp_all add: checkBlock_def checkTime_def isForkBlockIncompatible_def isForkTimestampIncompatible_def)

lemma ex_compatible: "CheckCompatible ex_modules ex_config ex_config2 100 100 = None"
proof -
  have "checkPrecompileCompatible ex_modules ex_config addr (cc_PrecompileUpgrades ex_config2) 100 = None" for addr
    unfolding checkPrecompileCompatible_def Let_def ex_activating by simp
  then have "CheckPrecompilesCompatible ex_modules ex_config (cc_PrecompileUpgrades ex_config2) 100 = None"
    by (simp add: CheckPrecompilesCompatible_def first_some_None del: ex_config2_fields)
  moreover have "CheckStateUpgradesCompatible ex_config (cc_StateUpgrades ex_config2) 100 = None"
    by (simp add: CheckStateUpgradesCompatible_def GetActivatingStateUpgrades_def ex_config2_def)
  ultimately show ?thesis
    unfolding CheckCompatible_None_iff checkCompatible_def first_some_None
    by (simp add: ex_config2_def ex_check_fields isForkBlockIncompatible_def CheckNetworkUpgradesCompatible_def
        isForkTimestampIncompatible_def ex_config_def [THEN arg_cong, of cc_NetworkUpgrades])
qed

lemma ex_forks_check:
  "checkCompatible ex_modules (ex_forks a x) (ex_forks b y) (Some n) t =
     (if isForkBlockIncompatible (Some a) (Some b) (Some n)
      then Some (newBlockCompatError ''Homestead fork block'' (Some a) (Some b))
      else if isForkTimestampIncompatible (Some x) (Some y) t
      then Some (newTimestampCompatError ''Etna fork block timestamp'' (Some x) (Some y)) else None)"
proof -
  have "GetActivatingPrecompileConfigs ex_modules (ex_forks a x) addr None t [] = []" for addr
    by (simp add: GetActivatingPrecompileConfigs_def Let_def ex_forks_def split: option.split)
  then have "CheckPrecompilesCompatible ex_modules (ex_forks a x) (cc_PrecompileUpgrades (ex_forks b y)) t = None"
    by (simp add: CheckPrecompilesCompatible_def checkPrecompileCompatible_def first_some_None ex_forks_def)
  moreover have "CheckStateUpgradesCompatible (ex_forks a x) (cc_StateUpgrades (ex_forks b y)) t = None"
    by (simp add: CheckStateUpgradesCompatible_def GetActivatingStateUpgrades_def ex_forks_def)
  ultimately show ?thesis
    unfolding checkCompatible_def
    by (simp add: first_some.simps(2) ex_forks_def ex_check_fields checkBlock_def isForkBlockIncompatible_def
        CheckNetworkUpgradesCompatible_def isForkTimestampIncompatible_def)
qed

lemma ex_forks_error:
  "RewindToTime (newTimestampCompatError w (Some 100) (Some 101)) = 99"
  "RewindToBlock (newBlockCompatError w (Some 5) (Some 6)) = 4"
  by (simp_all add: newTimestampCompatError_def newBlockCompatError_def big_Uint64_def)

lemmas ex_forks_eval = ex_forks_check ex_forks_error CheckCompatible_loop.simps isForkBlockIncompatible_def
  isForkTimestampIncompatible_def

text \<open>A conflict by time alone, and one by block number and by time.\<close>

lemma ex_time_conflict:
  "CheckCompatible ex_modules (ex_forks 5 100) (ex_forks 5 101) 100 200 =
     Some (newTimestampCompatError ''Etna fork block timestamp'' (Some 100) (Some 101))"
  by (simp add: CheckCompatible_def ex_forks_eval)

lemma ex_both_conflict:
  "CheckCompatible ex_modules (ex_forks 5 100) (ex_forks 6 101) 100 200 =
     Some (newTimestampCompatError ''Etna fork block timestamp'' (Some 100) (Some 101))"
  by (simp add: CheckCompatible_def ex_forks_eval)

text \<open>
  When both kinds of forks conflict, the error rewinds to a time alone, and the blocks up to that time may
  still be in conflict: the block number found first is lost.
\<close>

lemma CheckCompatible_block_lost:
  "\<exists>e. CheckCompatible ex_modules (ex_forks 5 100) (ex_forks 6 101) 100 200 = Some e \<and> RewindToTime e = 99 \<and>
     RewindToBlock e = 0 \<and>
     checkCompatible ex_modules (ex_forks 5 100) (ex_forks 6 101) (Some 100) (RewindToTime e) \<noteq> None"
  by (simp add: ex_both_conflict ex_forks_eval)

lemma ex_forks_schedules: "schedules_ok (ex_forks a x) (ex_forks b y)" "petersburg_after (ex_forks a x)"
  by (simp_all add: schedules_ok_def petersburg_after_def verifyPrecompileUpgrades_def verifyStateUpgrades_def
      ex_forks_def ex_config_def)

lemma ex_config2_verifies: "verifyPrecompileUpgrades ex_config2 = None"
proof -
  have "Config_Verify u (ChainConfig_view ex_config2) = None" if "u \<in> set (cc_PrecompileUpgrades ex_config2)" for u
    using that
    by (auto simp: txAllowList_Verify_def AllowListConfig_Verify_iff txAllowList_NewConfig_def
        txAllowList_NewDisableConfig_def NewAllowListConfig_def)
  moreover have "alternates (genesis_upgrade ex_config2 key) (of_key key (cc_PrecompileUpgrades ex_config2))" for key
    by (simp add: genesis_upgrade_def Config_Timestamp_def Upgrade_Timestamp_def Config_IsDisabled_def
        Upgrade_IsDisabled_def txAllowList_NewConfig_def txAllowList_NewDisableConfig_def)
  moreover have "timestamps_mono None (cc_PrecompileUpgrades ex_config2)"
    by (simp add: Config_Timestamp_def Upgrade_Timestamp_def txAllowList_NewConfig_def
        txAllowList_NewDisableConfig_def)
  ultimately show ?thesis by (simp add: verifyPrecompileUpgrades_iff del: ex_config2_fields(4))
qed

end
