(* ===== verification/Upgrades.thy ===== *)
theory Upgrades
  imports StateFinalise ContractState FeeManager NativeMinter RewardManager UpgradeSchedule
begin

text \<open>
  The upgrades a block applies before its transactions (ApplyUpgrades of core/state_processor.go): the
  activation and deactivation of precompiles, and the state upgrades of the package stateupgrade. The
  modules are those that the packages under precompile/contracts register.
\<close>

subsection \<open>Modules\<close>

text \<open>A configurator is an interface value: its constructor is the package that implements it.\<close>

datatype configurator =
    FeeManagerConfigurator
  | NativeMinterConfigurator
  | RewardManagerConfigurator
  | TxAllowListConfigurator
  | DeployerAllowListConfigurator
  | WarpConfigurator

datatype configure_error =
    ExpectedConfigType configurator Config
  | ConfigureFailed run_error

definition txAllowList_Configure :: "'s contractState \<Rightarrow> TxAllowListConfig \<Rightarrow> 's \<Rightarrow> 's" where
  [simp]: "txAllowList_Configure S config s =
     AllowListConfig_Configure S (ta_AllowListConfig config) txAllowList_ContractAddress s"

definition deployerAllowList_Configure :: "'s contractState \<Rightarrow> DeployerAllowListConfig \<Rightarrow> 's \<Rightarrow> 's" where
  [simp]: "deployerAllowList_Configure S config s =
     AllowListConfig_Configure S (da_AllowListConfig config) deployerAllowList_ContractAddress s"

definition warp_Configure :: "'s contractState \<Rightarrow> WarpConfig \<Rightarrow> 's \<Rightarrow> 's" where
  [simp]: "warp_Configure S config s = s"

fun Configure ::
    "'s contractState \<Rightarrow> configurator \<Rightarrow> ChainConfigView \<Rightarrow> Config \<Rightarrow> configBlockContext \<Rightarrow> 's \<Rightarrow>
     configure_error option \<times> 's" where
  "Configure S FeeManagerConfigurator chainConfig cfg blockContext s =
     (case cfg of
        FeeManager config \<Rightarrow>
          apfst (map_option ConfigureFailed) (feeManager_Configure S chainConfig config blockContext s)
      | _ \<Rightarrow> (Some (ExpectedConfigType FeeManagerConfigurator cfg), s))"
| "Configure S NativeMinterConfigurator chainConfig cfg blockContext s =
     (case cfg of
        NativeMinter config \<Rightarrow> (None, nativeMinter_Configure S config s)
      | _ \<Rightarrow> (Some (ExpectedConfigType NativeMinterConfigurator cfg), s))"
| "Configure S RewardManagerConfigurator chainConfig cfg blockContext s =
     (case cfg of
        RewardManager config \<Rightarrow> (None, rewardManager_Configure S chainConfig config s)
      | _ \<Rightarrow> (Some (ExpectedConfigType RewardManagerConfigurator cfg), s))"
| "Configure S TxAllowListConfigurator chainConfig cfg blockContext s =
     (case cfg of
        TxAllowList config \<Rightarrow> (None, txAllowList_Configure S config s)
      | _ \<Rightarrow> (Some (ExpectedConfigType TxAllowListConfigurator cfg), s))"
| "Configure S DeployerAllowListConfigurator chainConfig cfg blockContext s =
     (case cfg of
        DeployerAllowList config \<Rightarrow> (None, deployerAllowList_Configure S config s)
      | _ \<Rightarrow> (Some (ExpectedConfigType DeployerAllowListConfigurator cfg), s))"
| "Configure S WarpConfigurator chainConfig cfg blockContext s =
     (case cfg of
        Warp config \<Rightarrow> (None, warp_Configure S config s)
      | _ \<Rightarrow> (Some (ExpectedConfigType WarpConfigurator cfg), s))"

fun configuratorKey :: "configurator \<Rightarrow> string" where
  "configuratorKey FeeManagerConfigurator = feeManager_ConfigKey"
| "configuratorKey NativeMinterConfigurator = nativeMinter_ConfigKey"
| "configuratorKey RewardManagerConfigurator = rewardManager_ConfigKey"
| "configuratorKey TxAllowListConfigurator = txAllowList_ConfigKey"
| "configuratorKey DeployerAllowListConfigurator = deployerAllowList_ConfigKey"
| "configuratorKey WarpConfigurator = warp_ConfigKey"

fun configuratorAddress :: "configurator \<Rightarrow> address" where
  "configuratorAddress FeeManagerConfigurator = feeManager_ContractAddress"
| "configuratorAddress NativeMinterConfigurator = nativeMinter_ContractAddress"
| "configuratorAddress RewardManagerConfigurator = rewardManager_ContractAddress"
| "configuratorAddress TxAllowListConfigurator = txAllowList_ContractAddress"
| "configuratorAddress DeployerAllowListConfigurator = deployerAllowList_ContractAddress"
| "configuratorAddress WarpConfigurator = warp_ContractAddress"

text \<open>The variable Module of each package; the contract is the one it creates.\<close>

definition precompileModule :: "(configurator \<Rightarrow> 'c) \<Rightarrow> configurator \<Rightarrow> ('c, configurator) Module" where
  "precompileModule contractOf c =
     \<lparr>mod_ConfigKey = configuratorKey c, mod_Address = configuratorAddress c, mod_Contract = contractOf c,
      mod_Configurator = c\<rparr>"

text \<open>The init functions of the packages that precompile/registry imports, run one after the other.\<close>

fun registerAll :: "('c, 'f) Module list \<Rightarrow> ('c, 'f) Module list \<Rightarrow> register_error + ('c, 'f) Module list" where
  "registerAll [] ms = Inr ms"
| "registerAll (m # rest) ms = (case RegisterModule m ms of Inl e \<Rightarrow> Inl e | Inr ms' \<Rightarrow> registerAll rest ms')"

definition registeredModules :: "(configurator \<Rightarrow> 'c) \<Rightarrow> ('c, configurator) Module list" where
  "registeredModules contractOf =
     map (precompileModule contractOf)
       [DeployerAllowListConfigurator, NativeMinterConfigurator, TxAllowListConfigurator,
        FeeManagerConfigurator, RewardManagerConfigurator, WarpConfigurator]"

subsection \<open>Activation of precompiles\<close>

text \<open>A loop that stops at the first error.\<close>

fun forEach :: "('a \<Rightarrow> 's \<Rightarrow> 'e option \<times> 's) \<Rightarrow> 'a list \<Rightarrow> 's \<Rightarrow> 'e option \<times> 's" where
  "forEach f [] s = (None, s)"
| "forEach f (x # xs) s = (case f x s of (Some e, s') \<Rightarrow> (Some e, s') | (None, s') \<Rightarrow> forEach f xs s')"

datatype upgrade_error = CannotConfigure string configure_error

definition activatePrecompile ::
    "'e backend \<Rightarrow> ChainConfig \<Rightarrow> configBlockContext \<Rightarrow> ('c, configurator) Module \<Rightarrow> Config \<Rightarrow> 'e StateDB \<Rightarrow>
     upgrade_error option \<times> 'e StateDB" where
  "activatePrecompile B c blockContext module activatingConfig s =
     (if Config_IsDisabled activatingConfig
      then (None, Finalise B (SelfDestruct B s (mod_Address module)) True)
      else
        (let s = SetNonce B s (mod_Address module) 1;
             s = SetCode B s (mod_Address module) (Some [1])
         in apfst (map_option (CannotConfigure (mod_ConfigKey module)))
              (Configure (stateDB_iface B) (mod_Configurator module) (ChainConfig_view c) activatingConfig blockContext s)))"

definition ApplyPrecompileActivations ::
    "'e backend \<Rightarrow> ('c, configurator) Module list \<Rightarrow> ChainConfig \<Rightarrow> u64 option \<Rightarrow> configBlockContext \<Rightarrow> 'e StateDB \<Rightarrow>
     upgrade_error option \<times> 'e StateDB" where
  "ApplyPrecompileActivations B mods c parentTimestamp blockContext =
     forEach (\<lambda>module.
       forEach (activatePrecompile B c blockContext module)
         (GetActivatingPrecompileConfigs mods c (mod_Address module) parentTimestamp (bc_Timestamp blockContext)
            (cc_PrecompileUpgrades c))) mods"

subsection \<open>State upgrades\<close>

definition upgradeAccount ::
    "'e backend \<Rightarrow> address \<Rightarrow> StateUpgradeAccount \<Rightarrow> bool \<Rightarrow> 'e StateDB \<Rightarrow> 'e StateDB" where
  "upgradeAccount B account upgrade isEIP158 s =
     (let s = (case Exist B s account of (True, s) \<Rightarrow> s | (False, s) \<Rightarrow> CreateAccount B s account);
          s = (case sua_BalanceChange upgrade of
                 None \<Rightarrow> s
               | Some n \<Rightarrow> AddBalance B s account (word_of_int n));
          s = (case sua_Code upgrade of
                 None \<Rightarrow> s
               | Some code \<Rightarrow>
                   if code = [] then s
                   else
                     (let s = (if isEIP158
                               then (case GetNonce B s account of
                                       (n, s) \<Rightarrow> if n = 0 then SetNonce B s account 1 else s)
                               else s)
                      in SetCode B s account (Some code)))
      in fold (\<lambda>(key, value) s. SetState B s account key value)
           (case sua_Storage upgrade of None \<Rightarrow> [] | Some m \<Rightarrow> m) s)"

text \<open>Configure of package stateupgrade, which never fails.\<close>

definition stateUpgrade_Configure ::
    "'e backend \<Rightarrow> ChainConfig \<Rightarrow> configBlockContext \<Rightarrow> StateUpgrade \<Rightarrow> 'e StateDB \<Rightarrow> 'e StateDB" where
  "stateUpgrade_Configure B c blockContext stateUpgrade s =
     (let isEIP158 = IsEIP158 c (bc_Number blockContext)
      in fold (\<lambda>(account, upgrade). upgradeAccount B account upgrade isEIP158)
           (case su_StateUpgradeAccounts stateUpgrade of None \<Rightarrow> [] | Some m \<Rightarrow> m) s)"

definition applyStateUpgrades ::
    "'e backend \<Rightarrow> ChainConfig \<Rightarrow> u64 option \<Rightarrow> configBlockContext \<Rightarrow> 'e StateDB \<Rightarrow> 'e StateDB" where
  "applyStateUpgrades B c parentTimestamp blockContext s =
     fold (stateUpgrade_Configure B c blockContext)
       (GetActivatingStateUpgrades parentTimestamp (bc_Timestamp blockContext)
          (uc_StateUpgrades (cc_UpgradeConfig c))) s"

definition ApplyUpgrades ::
    "'e backend \<Rightarrow> ('c, configurator) Module list \<Rightarrow> ChainConfig \<Rightarrow> u64 option \<Rightarrow> configBlockContext \<Rightarrow> 'e StateDB \<Rightarrow>
     upgrade_error option \<times> 'e StateDB" where
  "ApplyUpgrades B mods c parentTimestamp blockContext s =
     (case ApplyPrecompileActivations B mods c parentTimestamp blockContext s of
        (Some e, s) \<Rightarrow> (Some e, s)
      | (None, s) \<Rightarrow> (None, applyStateUpgrades B c parentTimestamp blockContext s))"

subsection \<open>The registry\<close>

lemma mod_sel_precompileModule [simp]:
  "mod_ConfigKey (precompileModule f c) = configuratorKey c" "mod_Address (precompileModule f c) = configuratorAddress c"
  "mod_Configurator (precompileModule f c) = c"
  by (simp_all add: precompileModule_def)

lemma configuratorAddress_inj [simp]: "configuratorAddress c = configuratorAddress c' \<longleftrightarrow> c = c'"
  by (cases c; cases c') (simp_all add: contract_address_defs)

lemmas config_key_defs = feeManager_ConfigKey_def nativeMinter_ConfigKey_def rewardManager_ConfigKey_def
  txAllowList_ConfigKey_def deployerAllowList_ConfigKey_def warp_ConfigKey_def

lemma configuratorKey_inj [simp]: "configuratorKey c = configuratorKey c' \<longleftrightarrow> c = c'"
  by (cases c; cases c') (simp_all add: config_key_defs)

lemma UNIV_configurator:
  "UNIV = {DeployerAllowListConfigurator, NativeMinterConfigurator, TxAllowListConfigurator,
     FeeManagerConfigurator, RewardManagerConfigurator, WarpConfigurator}"
proof (rule set_eqI)
  fix c :: configurator
  show "c \<in> UNIV \<longleftrightarrow> c \<in> {DeployerAllowListConfigurator, NativeMinterConfigurator, TxAllowListConfigurator,
      FeeManagerConfigurator, RewardManagerConfigurator, WarpConfigurator}"
    by (cases c) simp_all
qed

lemma set_registeredModules: "set (registeredModules f) = range (precompileModule f)"
  by (simp add: registeredModules_def UNIV_configurator)

lemma registeredModules_distinct: "distinct (map mod_Address (registeredModules f))"
  by (simp add: registeredModules_def contract_address_defs)

text \<open>The registrations succeed in every order and give the modules sorted by address.\<close>

lemma registerAll_inv:
  "registry_inv ms \<Longrightarrow> distinct (map mod_ConfigKey (stms @ ms)) \<Longrightarrow> distinct (map mod_Address (stms @ ms)) \<Longrightarrow>
     \<forall>m\<in>set stms. ReservedAddress (mod_Address m) \<and> mod_Address m \<noteq> BlackholeAddr \<Longrightarrow>
     \<exists>ms'. registerAll stms ms = Inr ms' \<and> registry_inv ms' \<and> set ms' = set stms \<union> set ms"
proof (induction stms arbitrary: ms)
  case (Cons m stms)
  then obtain ms1 where r: "RegisterModule m ms = Inr ms1"
    by (auto simp: RegisterModule_Inr)
  note inv = RegisterModule_inv [OF Cons.prems(1) r]
  have "distinct (map mod_ConfigKey (stms @ ms1))" "distinct (map mod_Address (stms @ ms1))"
    using Cons.prems(2,3) inv by (auto simp: registry_inv_def)
  with Cons.IH [of ms1] inv Cons.prems(4) r show ?case by auto
qed simp

lemma sorted_distinct_addresses:
  assumes "registry_inv ms" "registry_inv ms'" "set ms = set ms'"
  shows "ms = ms'"
proof -
  have "inj_on mod_Address (set ms)" using assms(1) by (simp add: registry_inv_def distinct_map)
  moreover have "map mod_Address ms = map mod_Address ms'"
    using assms by (intro sorted_distinct_set_unique) (simp_all add: registry_inv_def)
  ultimately show ?thesis using assms(3) by (metis inj_on_map_eq_map Un_absorb)
qed

lemma registry_inv_registered: "registry_inv (registeredModules f)"
  by (simp add: registry_inv_def registeredModules_def contract_address_defs ReservedAddress_def reservedRanges_def
      AddressRange_Contains_def BlackholeAddr_def config_key_defs)

lemma registerAll_any_order:
  assumes "distinct cs" "set cs = UNIV"
  shows "registerAll (map (precompileModule f) cs) [] = Inr (registeredModules f)"
proof -
  have d: "distinct (map mod_ConfigKey (map (precompileModule f) cs @ []))"
    "distinct (map mod_Address (map (precompileModule f) cs @ []))"
    using assms(1) by (auto simp: distinct_map inj_on_def)
  have "\<forall>m\<in>set (map (precompileModule f) cs). ReservedAddress (mod_Address m) \<and> mod_Address m \<noteq> BlackholeAddr"
    using registry_inv_registered [of f] by (auto simp: registry_inv_def set_registeredModules)
  from registerAll_inv [OF registry_inv_Nil d this] assms(2) sorted_distinct_addresses registry_inv_registered [of f]
  show ?thesis by (metis set_registeredModules list.set_map list.set(1) sup_bot_right)
qed

end
