(* ===== verification/UpgradeEffects.thy ===== *)
theory UpgradeEffects
  imports Upgrades
begin

text \<open>
  What the upgrades of a block do to the state: the roles that the allow lists of the precompiles have
  afterwards, that a precompile which is disabled leaves nothing behind, and the effect of a state upgrade
  on an account.
\<close>

subsection \<open>Roles\<close>

fun configAllowList :: "Config \<Rightarrow> AllowListConfig option" where
  "configAllowList (FeeManager c) = Some (fm_AllowListConfig c)"
| "configAllowList (NativeMinter c) = Some (nm_AllowListConfig c)"
| "configAllowList (RewardManager c) = Some (rm_AllowListConfig c)"
| "configAllowList (TxAllowList c) = Some (ta_AllowListConfig c)"
| "configAllowList (DeployerAllowList c) = Some (da_AllowListConfig c)"
| "configAllowList (Warp _) = None"

definition listedRoles :: "AllowListConfig \<Rightarrow> (address \<Rightarrow> Role) \<Rightarrow> address \<Rightarrow> Role" where
  "listedRoles c r a =
     (if a \<in> set (alc_ManagerAddresses c) then ManagerRole
      else if a \<in> set (alc_AdminAddresses c) then AdminRole
      else if a \<in> set (alc_EnabledAddresses c) then EnabledRole
      else r a)"

definition configuredRoles :: "Config \<Rightarrow> (address \<Rightarrow> Role) \<Rightarrow> address \<Rightarrow> Role" where
  "configuredRoles config r = (case configAllowList config of None \<Rightarrow> r | Some c \<Rightarrow> listedRoles c r)"

text \<open>The roles after an upgrade: none after a disabling one, the listed ones on top after an enabling one.\<close>

definition rolesAfter :: "(address \<Rightarrow> Role) \<Rightarrow> Config \<Rightarrow> address \<Rightarrow> Role" where
  "rolesAfter r config = (if Config_IsDisabled config then (\<lambda>_. NoRole) else configuredRoles config r)"

lemma configureObs_listed: "role_of (configureObs c pa ob) pa = listedRoles c (role_of ob pa)"
  by (simp add: fun_eq_iff configureObs_role listedRoles_def)

text \<open>The parts of the state that configuring a precompile touches.\<close>

definition configured :: "address \<Rightarrow> Config \<Rightarrow> stateObs \<Rightarrow> stateObs \<Rightarrow> bool" where
  "configured pa config ob ob' \<longleftrightarrow>
     role_of ob' pa = configuredRoles config (role_of ob pa) \<and>
     ob_nonce ob' = ob_nonce ob \<and> (\<forall>b. b \<noteq> pa \<longrightarrow> ob_slot ob' b = ob_slot ob b)"

lemma put_slot_sel [simp]:
  "ob_nonce (put_slot ob a k v) = ob_nonce ob" "b \<noteq> a \<Longrightarrow> ob_slot (put_slot ob a k v) b = ob_slot ob b"
  by (simp_all add: put_slot_def)

definition configFor :: "configurator \<Rightarrow> Config \<Rightarrow> bool" where
  "configFor k config \<longleftrightarrow> Config_Key config = configuratorKey k"

lemma configFor_cases:
  assumes "configFor k config"
  obtains c where "k = FeeManagerConfigurator" "config = FeeManager c"
  | c where "k = NativeMinterConfigurator" "config = NativeMinter c"
  | c where "k = RewardManagerConfigurator" "config = RewardManager c"
  | c where "k = TxAllowListConfigurator" "config = TxAllowList c"
  | c where "k = DeployerAllowListConfigurator" "config = DeployerAllowList c"
  | c where "k = WarpConfigurator" "config = Warp c"
  using assms by (cases config; cases k) (auto simp: configFor_def config_key_defs)

lemma Configure_type: "Configure S k cc config bc s = (None, s') \<Longrightarrow> configFor k config"
  by (cases k; cases config) (simp_all add: configFor_def)

context contract_state
begin

lemma fold_mint_law:
  "inv s \<Longrightarrow>
     inv (fold (\<lambda>(to, amount) s. case amount of None \<Rightarrow> s | Some n \<Rightarrow> cs_AddBalance S s to (word_of_int n)) mints s) \<and>
     ob_slot (obs (fold (\<lambda>(to, amount) s. case amount of None \<Rightarrow> s | Some n \<Rightarrow> cs_AddBalance S s to (word_of_int n)) mints s)) =
       ob_slot (obs s) \<and>
     ob_nonce (obs (fold (\<lambda>(to, amount) s. case amount of None \<Rightarrow> s | Some n \<Rightarrow> cs_AddBalance S s to (word_of_int n)) mints s)) =
       ob_nonce (obs s)"
proof (induction mints arbitrary: s)
  case (Cons m mints)
  obtain a n where m: "m = (a, n)" by force
  show ?case
  proof (cases n)
    case None
    with m Cons.IH [OF Cons.prems] show ?thesis by simp
  next
    case (Some x)
    note l = AddBalance_law [OF Cons.prems, of a "word_of_int x"]
    from Cons.IH [OF l [THEN conjunct2]] l m Some show ?thesis by simp
  qed
qed simp

lemma initial_reward_law:
  assumes "inv s"
  shows "\<exists>v. obs (case rm_InitialRewardConfig c of
         Some i \<Rightarrow> InitialRewardConfig_Configure S i s
       | None \<Rightarrow> if b then EnableAllowFeeRecipients S s else DisableFeeRewards S s) =
         put_slot (obs s) RM rewardAddressStorageKey v"
    and "inv (case rm_InitialRewardConfig c of
         Some i \<Rightarrow> InitialRewardConfig_Configure S i s
       | None \<Rightarrow> if b then EnableAllowFeeRecipients S s else DisableFeeRewards S s)"
  using store_laws [OF assms] by (auto simp: InitialRewardConfig_Configure_def split: option.split)

lemma configured_AllowList:
  assumes "inv s" "ob_slot (obs s) = ob_slot ob \<or> (\<exists>k v. obs s = put_slot ob pa k v \<and> k \<notin> address_keys)
      \<or> (role_of (obs s) pa = role_of ob pa \<and> (\<forall>b. b \<noteq> pa \<longrightarrow> ob_slot (obs s) b = ob_slot ob b))"
    and "ob_nonce (obs s) = ob_nonce ob" "configAllowList config = Some c"
  shows "inv (AllowListConfig_Configure S c pa s) \<and> configured pa config ob (obs (AllowListConfig_Configure S c pa s))"
proof -
  have "role_of (obs s) pa = role_of ob pa" "\<And>b. b \<noteq> pa \<Longrightarrow> ob_slot (obs s) b = ob_slot ob b"
    using assms(2) address_key by (fastforce simp: role_of_def put_slot_def fun_eq_iff)+
  with AllowListConfig_Configure_law [OF assms(1), of c pa] assms(3,4) show ?thesis
    by (simp add: configured_def configureObs_frame configureObs_listed configuredRoles_def)
qed

lemma Configure_law:
  assumes s: "inv s" and run: "Configure S c cc config bc s = (None, s')"
  shows "inv s' \<and> configured (configuratorAddress c) config (obs s) (obs s')"
  using Configure_type [OF run]
proof (cases rule: configFor_cases)
  case (1 fc)
  let ?f = "case fm_InitialFeeConfig fc of Some f \<Rightarrow> f | None \<Rightarrow> ccv_GetFeeConfig cc"
  obtain e s1 where st: "StoreFeeConfig S s ?f bc = (e, s1)" by force
  with 1 run have e: "e = None" and s': "s' = AllowListConfig_Configure S (fm_AllowListConfig fc) FM s1"
    by (auto simp: feeManager_Configure_def Let_def split: option.splits prod.splits)
  from StoreFeeConfig_law [OF s st] e obtain n where "inv s1" "obs s1 = storeObs ?f n (obs s)"
    by (auto split: option.splits)
  with configured_AllowList [of s1 "obs s" FM config "fm_AllowListConfig fc"] 1 s' show ?thesis
    by (simp add: storeObs_frame fun_eq_iff)
next
  case (2 nc)
  let ?s1 = "fold (\<lambda>(to, amount) s. case amount of None \<Rightarrow> s | Some n \<Rightarrow> cs_AddBalance S s to (word_of_int n)) (nm_InitialMint nc) s"
  from fold_mint_law [OF s, of "nm_InitialMint nc"] configured_AllowList [of ?s1 "obs s" NM config "nm_AllowListConfig nc"]
    2 run show ?thesis by (auto simp: nativeMinter_Configure_def Let_def)
next
  case (3 rc)
  let ?s1 = "case rm_InitialRewardConfig rc of
       Some i \<Rightarrow> InitialRewardConfig_Configure S i s
     | None \<Rightarrow> if ccv_AllowedFeeRecipients cc then EnableAllowFeeRecipients S s else DisableFeeRewards S s"
  note l = initial_reward_law [OF s, where c = rc and b = "ccv_AllowedFeeRecipients cc"]
  then obtain v where "obs ?s1 = put_slot (obs s) RM rewardAddressStorageKey v" by blast
  with configured_AllowList [OF l(2), of "obs s" RM config "rm_AllowListConfig rc"] reward_keys(1) 3
  have "inv (AllowListConfig_Configure S (rm_AllowListConfig rc) RM ?s1) \<and>
      configured RM config (obs s) (obs (AllowListConfig_Configure S (rm_AllowListConfig rc) RM ?s1))"
    by (metis configAllowList.simps(3) put_slot_sel(1))
  moreover have "s' = AllowListConfig_Configure S (rm_AllowListConfig rc) RM ?s1" "configuratorAddress c = RM"
    using 3 run by (auto simp: rewardManager_Configure_def Let_def split del: if_split)
  ultimately show ?thesis by simp
next
  case (4 tc)
  with configured_AllowList [OF s, of "obs s" txAllowList_ContractAddress config "ta_AllowListConfig tc"] run
  show ?thesis by auto
next
  case (5 dc)
  with configured_AllowList [OF s, of "obs s" deployerAllowList_ContractAddress config "da_AllowListConfig dc"] run
  show ?thesis by auto
next
  case (6 wc)
  with run s show ?thesis by (auto simp: configured_def configuredRoles_def)
qed

end

subsection \<open>States without self-destructed accounts\<close>

definition no_destructed :: "state_view \<Rightarrow> bool" where
  "no_destructed v \<longleftrightarrow> (\<forall>a ov. account_at v a = Some ov \<longrightarrow> \<not> ov_selfDestructed ov)"

definition calm :: "'e backend \<Rightarrow> 'e StateDB \<Rightarrow> bool" where
  "calm B s \<longleftrightarrow> state_inv B s \<and> no_destructed (view B s)"

lemma no_destructed_changes:
  assumes "changes_account B v v' a f" "no_destructed v" "\<And>ov. ov_selfDestructed (f ov) = ov_selfDestructed ov"
  shows "no_destructed v'"
  unfolding no_destructed_def
proof (intro allI impI)
  fix b ov assume b: "account_at v' b = Some ov"
  show "\<not> ov_selfDestructed ov"
  proof (cases "b = a")
    case True
    with b assms show ?thesis by (auto simp: changes_account_def no_destructed_def fresh_account_def)
  next
    case False
    with b assms(1,2) show ?thesis by (metis changes_account_def no_destructed_def)
  qed
qed

lemma calm_reads: "reads B f g \<Longrightarrow> calm B s \<Longrightarrow> f s = (r, s') \<Longrightarrow> calm B s'"
  by (auto simp: calm_def reads_def state_inv_def dest!: spec [of _ s])

lemma calm_changes:
  assumes "calm B s" "changes_account B (view B s) (view B s') a f" "state_inv B s'"
    "\<And>ov. ov_selfDestructed (f ov) = ov_selfDestructed ov"
  shows "calm B s'"
  using no_destructed_changes [OF assms(2) _ assms(4)] assms(1,3) by (simp add: calm_def)

lemma calm_CreateAccount: "calm B s \<Longrightarrow> no_destructed (view B (CreateAccount B s a))"
  using CreateAccount_changes [of B s a] by (auto simp: calm_def no_destructed_def state_inv_def fresh_account_def)
    (metis object_view.select_convs(6) object_view.surjective object_view.update_convs(2) option.sel)

lemma calm_AddLog: "calm B s \<Longrightarrow> no_destructed (view B (AddLog s a topics data n))"
  using AddLog_view [of a topics data n s B] by (auto simp: calm_def no_destructed_def account_at_def)

interpretation calm: contract_state "stateDB_iface B" "calm B" "state_obs B" for B :: "'e backend"
proof (unfold_locales, goal_cases)
  case (1 s a k h s')
  with sdb.GetState_law [of B s a k h s'] calm_reads [OF GetState_reads, of B s a k h s'] show ?case
    by (simp add: calm_def stateDB_iface_def)
next
  case (2 s a n s')
  with sdb.GetNonce_law [of B s a n s'] calm_reads [OF GetNonce_reads, of B s a n s'] show ?case
    by (simp add: calm_def stateDB_iface_def)
next
  case (3 s a b s')
  with sdb.GetBalance_law [of B s a b s'] calm_reads [OF GetBalance_reads, of B s a b s'] show ?case
    by (simp add: calm_def stateDB_iface_def)
next
  case (4 s a e s')
  with sdb.Exist_law [of B s a e s'] calm_reads [OF Exist_reads, of B s a e s'] show ?case
    by (simp add: calm_def stateDB_iface_def)
next
  case (5 s a k v)
  with sdb.SetState_law [of B s a k v] calm_changes [OF 5 SetState_changes] show ?case
    by (simp add: calm_def stateDB_iface_def state_inv_def)
next
  case (6 s a n)
  with sdb.SetNonce_law [of B s a n] calm_changes [OF 6 SetNonce_changes] show ?case
    by (simp add: calm_def stateDB_iface_def state_inv_def)
next
  case (7 s a b)
  with sdb.AddBalance_law [of B s a b] calm_changes [OF 7 AddBalance_changes] show ?case
    by (simp add: calm_def stateDB_iface_def state_inv_def)
next
  case (8 s a)
  with sdb.CreateAccount_law [of B s a] calm_CreateAccount [of B s a] show ?case
    by (simp add: calm_def stateDB_iface_def)
next
  case (9 s a topics data n)
  with sdb.AddLog_law [of B s a topics data n] calm_AddLog [of B s a topics data n] show ?case
    by (simp add: calm_def stateDB_iface_def)
next
  case (10 s a)
  then show ?case using sdb.absent_law [of B s a] by (simp add: calm_def)
qed

subsection \<open>Disabling a precompile\<close>

lemma SetCode_calm:
  assumes "calm B s"
  shows "calm B (SetCode B s a c) \<and>
    state_obs B (SetCode B s a c) = (state_obs B s)\<lparr>ob_exist := (ob_exist (state_obs B s))(a := True)\<rparr>"
proof -
  from assms have s: "live_ok B s" "database_ok B" by (simp_all add: calm_def state_inv_def)
  note ch = SetCode_changes [OF s(1), of a c]
  from changes_obs [OF ch s(2), where gn = "\<lambda>x. x" and gb = "\<lambda>x. x" and gs = "\<lambda>x. x"]
  have "state_obs B (SetCode B s a c) = (state_obs B s)\<lparr>ob_exist := (ob_exist (state_obs B s))(a := True)\<rparr>"
    by (simp add: state_obs_def Let_def)
  moreover have "state_inv B (SetCode B s a c)"
    using journalled_live [OF SetCode_journalled [OF s(1)]] s(2) by (simp add: state_inv_def)
  with calm_changes [OF assms ch] have "calm B (SetCode B s a c)" by (simp add: Let_def)
  ultimately show ?thesis by simp
qed

lemma SelfDestruct_account:
  assumes ok: "live_ok B s"
  shows "account_at (view B (SelfDestruct B s a)) b =
      (if b = a then map_option (\<lambda>ov. set_balance 0 (ov\<lparr>ov_selfDestructed := True\<rparr>)) (account_at (view B s) a)
       else account_at (view B s) b)"
    and "account_at (view B s) a \<noteq> None \<Longrightarrow> a \<in> finalised_addresses (SelfDestruct B s a)"
    and "same_rest (view B s) (view B (SelfDestruct B s a))"
proof -
  obtain r t where g: "getStateObject B s a = (r, t)" by force
  note spec = getStateObject_spec [OF ok g] and acc = getStateObject_view [OF ok g]
  have "account_at (view B (SelfDestruct B s a)) b =
      (if b = a then map_option (\<lambda>ov. set_balance 0 (ov\<lparr>ov_selfDestructed := True\<rparr>)) (account_at (view B s) a)
       else account_at (view B s) b) \<and>
    (account_at (view B s) a \<noteq> None \<longrightarrow> a \<in> finalised_addresses (SelfDestruct B s a)) \<and>
    same_rest (view B s) (view B (SelfDestruct B s a))"
  proof (cases r)
    case None
    with acc spec(2) g show ?thesis by (simp add: SelfDestruct_def)
  next
    case (Some obj)
    let ?e = "selfDestructChange a (so_selfDestructed obj) (sa_Balance (so_data obj))"
    let ?o = "so_setBalance (obj\<lparr>so_selfDestructed := True\<rparr>) 0"
    from spec(6) [OF Some] have o: "so_address obj = a" "\<not> so_deleted obj" "sdb_stateObjects t a = Some obj" by auto
    have ov: "object_view B d ?o = set_balance 0 ((object_view B d obj)\<lparr>ov_selfDestructed := True\<rparr>)" for d
      by simp
    have sd: "SelfDestruct B s a = setStateObject (journal_append t ?e) ?o"
      using g Some by (simp add: SelfDestruct_def)
    have "view B (SelfDestruct B s a) = (view B s)\<lparr>sv_objects := (sv_objects (view B s))
        (a \<mapsto> set_balance 0 ((object_view B (sdb_stateObjectsDestruct t) obj)\<lparr>ov_selfDestructed := True\<rparr>))\<rparr>"
      unfolding sd view_setStateObject using o(1) spec(2) by simp
    moreover have "account_at (view B s) a = Some (object_view B (sdb_stateObjectsDestruct t) obj)"
      using acc Some spec(5) by simp
    moreover have "a \<in> finalised_addresses (SelfDestruct B s a)"
      unfolding sd using o by (simp add: finalised_addresses_def so_setBalance_def journal_append_def incDirty_def dom_update flip: dom_map_of_conv_image_fst)
        (auto simp: update_conv' dom_map_of_conv_image_fst)
    ultimately show ?thesis using o(2) by (auto simp: account_at_def same_rest_def object_view_def)
  qed
  then show "account_at (view B (SelfDestruct B s a)) b =
      (if b = a then map_option (\<lambda>ov. set_balance 0 (ov\<lparr>ov_selfDestructed := True\<rparr>)) (account_at (view B s) a)
       else account_at (view B s) b)"
    "account_at (view B s) a \<noteq> None \<Longrightarrow> a \<in> finalised_addresses (SelfDestruct B s a)"
    "same_rest (view B s) (view B (SelfDestruct B s a))"
    by blast+
qed

lemma destruct_finalise_account:
  fixes a :: address
  assumes s: "calm B s"
  defines "t \<equiv> Finalise B (SelfDestruct B s a) True"
  shows "account_at (view B t) a = None"
    and "b \<noteq> a \<Longrightarrow> account_at (view B t) b \<in>
      {account_at (view B s) b, None, map_option (\<lambda>ov. ov\<lparr>ov_committed := ov_state ov, ov_created := False\<rparr>) (account_at (view B s) b)}"
    and "b \<noteq> a \<Longrightarrow> nonce_at (view B s) b \<noteq> 0 \<Longrightarrow> account_at (view B t) b \<noteq> None"
    and "state_inv B t"
proof -
  from s have l: "live_ok B s" "database_ok B" and nd: "no_destructed (view B s)" by (simp_all add: calm_def state_inv_def)
  note sd = SelfDestruct_account [OF l(1), of a]
  have l': "live_ok B (SelfDestruct B s a)" by (rule journalled_live [OF SelfDestruct_journalled [OF l(1)]])
  note fin = Finalise_account [OF l', of True]
  show "account_at (view B t) a = None"
    unfolding t_def using fin(1) [of a] sd(1) [of a] sd(2)
    by (cases "account_at (view B s) a") (auto simp: ov_finalised_def)
  show "b \<noteq> a \<Longrightarrow> account_at (view B t) b \<in>
      {account_at (view B s) b, None, map_option (\<lambda>ov. ov\<lparr>ov_committed := ov_state ov, ov_created := False\<rparr>) (account_at (view B s) b)}"
    unfolding t_def using fin(1) [of b] sd(1) [of b]
    by (cases "account_at (view B s) b") (auto simp: ov_finalised_def)
  show "b \<noteq> a \<Longrightarrow> nonce_at (view B s) b \<noteq> 0 \<Longrightarrow> account_at (view B t) b \<noteq> None"
    unfolding t_def using fin(1) [of b] sd(1) [of b] nd
    by (cases "account_at (view B s) b") (auto simp: ov_finalised_def ov_empty_def nonce_at_def no_destructed_def)
  show "state_inv B t" unfolding t_def using fin(2) l(2) by (simp add: state_inv_def)
qed

lemma destruct_finalise_law:
  fixes a :: address
  assumes s: "calm B s"
  defines "t \<equiv> Finalise B (SelfDestruct B s a) True"
  shows "calm B t" "ob_slot (state_obs B t) a = (\<lambda>_. 0)" "\<not> ob_exist (state_obs B t) a"
    "b \<noteq> a \<Longrightarrow> ob_nonce (state_obs B s) b \<noteq> 0 \<Longrightarrow>
       ob_slot (state_obs B t) b = ob_slot (state_obs B s) b \<and> ob_nonce (state_obs B t) b = ob_nonce (state_obs B s) b"
    "ob_slot (state_obs B s) b = (\<lambda>_. 0) \<Longrightarrow> ob_slot (state_obs B t) b = (\<lambda>_. 0)"
proof -
  note d = destruct_finalise_account [OF s, where a = a, folded t_def]
  have "no_destructed (view B t)"
    unfolding no_destructed_def
  proof (intro allI impI)
    fix b ov assume b: "account_at (view B t) b = Some ov"
    with d(1) have "b \<noteq> a" by auto
    from d(2) [OF this] b s show "\<not> ov_selfDestructed ov"
      by (cases "account_at (view B s) b") (auto simp: calm_def no_destructed_def)
  qed
  with d(4) show "calm B t" by (simp add: calm_def)
  from d(1) show slot: "ob_slot (state_obs B t) a = (\<lambda>_. 0)" "\<not> ob_exist (state_obs B t) a"
    by (simp_all add: state_obs_def view_obs_def state_at_def fun_eq_iff)
  show "b \<noteq> a \<Longrightarrow> ob_nonce (state_obs B s) b \<noteq> 0 \<Longrightarrow>
       ob_slot (state_obs B t) b = ob_slot (state_obs B s) b \<and> ob_nonce (state_obs B t) b = ob_nonce (state_obs B s) b"
    using d(2,3) [of b]
    by (cases "account_at (view B s) b") (auto simp: state_obs_def view_obs_def state_at_def nonce_at_def fun_eq_iff)
  show "ob_slot (state_obs B s) b = (\<lambda>_. 0) \<Longrightarrow> ob_slot (state_obs B t) b = (\<lambda>_. 0)"
    using d(2) [of b] slot
    by (cases "b = a"; cases "account_at (view B s) b") (auto simp: state_obs_def view_obs_def state_at_def fun_eq_iff)
qed

subsection \<open>The roles after the activations of a block\<close>

text \<open>
  The account of a precompile either has a nonce, or no storage. Finalise may remove it in the second case
  only, so the storage that the precompiles have stays as it is while others are configured.
\<close>

definition module_ok :: "stateObs \<Rightarrow> address \<Rightarrow> bool" where
  "module_ok ob b \<longleftrightarrow> ob_nonce ob b \<noteq> 0 \<or> ob_slot ob b = (\<lambda>_. 0)"

lemma activatePrecompile_law:
  assumes s: "calm B s" and run: "activatePrecompile B c bc (precompileModule f k) config s = (None, s')"
  shows "calm B s'" "role_of (state_obs B s') (configuratorAddress k) =
      rolesAfter (role_of (state_obs B s) (configuratorAddress k)) config"
    "module_ok (state_obs B s') (configuratorAddress k)"
    "b \<noteq> configuratorAddress k \<Longrightarrow> module_ok (state_obs B s) b \<Longrightarrow>
       module_ok (state_obs B s') b \<and> ob_slot (state_obs B s') b = ob_slot (state_obs B s) b"
proof -
  let ?a = "configuratorAddress k" and ?ob = "state_obs B s" and ?ob' = "state_obs B s'"
  have "calm B s' \<and> role_of ?ob' ?a = rolesAfter (role_of ?ob ?a) config \<and> module_ok ?ob' ?a \<and>
    (b \<noteq> ?a \<longrightarrow> module_ok ?ob b \<longrightarrow> module_ok ?ob' b \<and> ob_slot ?ob' b = ob_slot ?ob b)"
  proof (cases "Config_IsDisabled config")
    case True
    with run have s': "s' = Finalise B (SelfDestruct B s ?a) True" by (simp add: activatePrecompile_def)
    from destruct_finalise_law [OF s, where a = ?a] True show ?thesis
      unfolding s' by (auto simp: rolesAfter_def role_of_def module_ok_def NoRole_def fun_eq_iff)
  next
    case False
    let ?s1 = "SetNonce B s ?a 1"
    let ?s2 = "SetCode B ?s1 ?a (Some [1])"
    have s1: "calm B ?s1" "state_obs B ?s1 = ?ob\<lparr>ob_nonce := (ob_nonce ?ob)(?a := 1), ob_exist := (ob_exist ?ob)(?a := True)\<rparr>"
      using calm.SetNonce_law [OF s, of ?a 1] by (simp_all add: stateDB_iface_def)
    note s2 = SetCode_calm [OF s1(1), of ?a "Some [1]"]
    have "Configure (stateDB_iface B) k (ChainConfig_view c) config bc ?s2 = (None, s')"
      using run False by (cases "Configure (stateDB_iface B) k (ChainConfig_view c) config bc ?s2")
        (simp add: activatePrecompile_def Let_def)
    moreover have "role_of (?ob\<lparr>ob_nonce := n, ob_exist := e\<rparr>) = role_of ?ob" for n e
      by (simp add: role_of_def fun_eq_iff)
    ultimately show ?thesis
      using calm.Configure_law [OF s2 [THEN conjunct1]] s1(2) s2 False
      by (auto simp: configured_def rolesAfter_def module_ok_def)
  qed
  then show "calm B s'" "role_of ?ob' ?a = rolesAfter (role_of ?ob ?a) config" "module_ok ?ob' ?a"
    "b \<noteq> ?a \<Longrightarrow> module_ok ?ob b \<Longrightarrow> module_ok ?ob' b \<and> ob_slot ?ob' b = ob_slot ?ob b"
    by blast+
qed

lemma activations_of_module:
  assumes "calm B s" "forEach (activatePrecompile B c bc (precompileModule f k)) configs s = (None, s')"
    "module_ok (state_obs B s) (configuratorAddress k)"
  shows "calm B s' \<and>
    role_of (state_obs B s') (configuratorAddress k) =
      foldl rolesAfter (role_of (state_obs B s) (configuratorAddress k)) configs \<and>
    module_ok (state_obs B s') (configuratorAddress k) \<and>
    (\<forall>b. b \<noteq> configuratorAddress k \<longrightarrow> module_ok (state_obs B s) b \<longrightarrow>
       module_ok (state_obs B s') b \<and> ob_slot (state_obs B s') b = ob_slot (state_obs B s) b)"
  using assms
proof (induction configs arbitrary: s)
  case (Cons config configs)
  obtain e t where t: "activatePrecompile B c bc (precompileModule f k) config s = (e, t)" by force
  with Cons.prems have e: "e = None" and rest: "forEach (activatePrecompile B c bc (precompileModule f k)) configs t = (None, s')"
    by (auto split: option.splits)
  note l = activatePrecompile_law [OF Cons.prems(1) t [unfolded e]]
  from Cons.IH [OF l(1) rest l(3)] l(2,4) show ?case by auto
qed simp

lemma role_of_slot: "ob_slot ob' pa = ob_slot ob pa \<Longrightarrow> role_of ob' pa = role_of ob pa"
  by (simp add: role_of_def fun_eq_iff)

lemma activations_of_modules:
  assumes "calm B s" "forEach (\<lambda>m. forEach (activatePrecompile B c bc m) (cfgs m)) (map (precompileModule f) ks) s = (None, s')"
    "distinct ks" "\<forall>k. module_ok (state_obs B s) (configuratorAddress k)"
  shows "calm B s' \<and> (\<forall>k. module_ok (state_obs B s') (configuratorAddress k)) \<and>
    (\<forall>k. role_of (state_obs B s') (configuratorAddress k) =
       (if k \<in> set ks then foldl rolesAfter (role_of (state_obs B s) (configuratorAddress k)) (cfgs (precompileModule f k))
        else role_of (state_obs B s) (configuratorAddress k)))"
  using assms
proof (induction ks arbitrary: s)
  case (Cons k ks)
  obtain e t where t: "forEach (activatePrecompile B c bc (precompileModule f k)) (cfgs (precompileModule f k)) s = (e, t)" by force
  with Cons.prems have e: "e = None" and
    rest: "forEach (\<lambda>m. forEach (activatePrecompile B c bc m) (cfgs m)) (map (precompileModule f) ks) t = (None, s')"
    by (auto split: option.splits)
  note l = activations_of_module [OF Cons.prems(1) t [unfolded e]]
  have ok: "module_ok (state_obs B t) (configuratorAddress k')" for k'
    using l Cons.prems(4) by (cases "k' = k") auto
  have role: "role_of (state_obs B t) (configuratorAddress k') = role_of (state_obs B s) (configuratorAddress k')"
    if "k' \<noteq> k" for k'
    using l Cons.prems(4) that by (intro role_of_slot) auto
  then have "role_of (state_obs B t) (configuratorAddress k') = role_of (state_obs B s) (configuratorAddress k')"
    if "k' \<in> set ks" for k'
    using that Cons.prems(3) by (metis distinct.simps(2))
  with Cons.IH [OF _ rest] l ok Cons.prems(3,4) role show ?case by auto
qed simp

lemma ApplyPrecompileActivations_roles:
  assumes "calm B s" "\<forall>k. module_ok (state_obs B s) (configuratorAddress k)"
    and "ApplyPrecompileActivations B (registeredModules f) c parentTime bc s = (None, s')"
  shows "calm B s' \<and> (\<forall>k. module_ok (state_obs B s') (configuratorAddress k)) \<and>
    role_of (state_obs B s') (configuratorAddress k) =
      foldl rolesAfter (role_of (state_obs B s) (configuratorAddress k))
        (GetActivatingPrecompileConfigs (registeredModules f) c (configuratorAddress k) parentTime (bc_Timestamp bc)
          (cc_PrecompileUpgrades c))"
proof -
  let ?ks = "[DeployerAllowListConfigurator, NativeMinterConfigurator, TxAllowListConfigurator,
        FeeManagerConfigurator, RewardManagerConfigurator, WarpConfigurator]"
  let ?cfgs = "\<lambda>m. GetActivatingPrecompileConfigs (registeredModules f) c (mod_Address m) parentTime (bc_Timestamp bc)
      (cc_PrecompileUpgrades c)"
  have "forEach (\<lambda>m. forEach (activatePrecompile B c bc m) (?cfgs m)) (map (precompileModule f) ?ks) s = (None, s')"
    using assms(3) by (simp only: ApplyPrecompileActivations_def registeredModules_def)
  from activations_of_modules [OF assms(1) this _ assms(2)]
  have "calm B s' \<and> (\<forall>k. module_ok (state_obs B s') (configuratorAddress k)) \<and>
    (\<forall>k. role_of (state_obs B s') (configuratorAddress k) =
       (if k \<in> set ?ks then foldl rolesAfter (role_of (state_obs B s) (configuratorAddress k)) (?cfgs (precompileModule f k))
        else role_of (state_obs B s) (configuratorAddress k)))"
    by simp
  moreover have "k \<in> set ?ks" by (cases k) simp_all
  ultimately show ?thesis by simp
qed

subsection \<open>A configuration that verifies can be applied\<close>

context contract_state
begin

lemma Configure_succeeds:
  assumes s: "inv s" and k: "configFor k config" and v: "Config_Verify config cc = None"
    and fee: "FeeConfig_Verify (ccv_GetFeeConfig cc) = None" and n: "bc_Number bc = Some m"
  shows "\<exists>s'. Configure S k cc config bc s = (None, s')"
  using k
proof (cases rule: configFor_cases)
  case (1 c)
  let ?f = "case fm_InitialFeeConfig c of Some f \<Rightarrow> f | None \<Rightarrow> ccv_GetFeeConfig cc"
  have ok: "FeeConfig_Verify ?f = None"
    using v fee 1 by (auto simp: feeManager_Verify_def split: option.splits)
  obtain e s1 where st: "StoreFeeConfig S s ?f bc = (e, s1)" by force
  from StoreFeeConfig_law [OF s st] ok n have "e = None" by auto
  with st 1 show ?thesis by (auto simp: feeManager_Configure_def Let_def)
qed simp_all

end

lemma activatePrecompile_succeeds:
  assumes s: "calm B s" and k: "configFor k config" and v: "Config_Verify config (ChainConfig_view c) = None"
    and fee: "FeeConfig_Verify (cc_FeeConfig c) = None" and n: "bc_Number bc = Some m"
  shows "\<exists>s'. activatePrecompile B c bc (precompileModule f k) config s = (None, s')"
proof (cases "Config_IsDisabled config")
  case False
  let ?a = "configuratorAddress k"
  have s1: "calm B (SetNonce B s ?a 1)"
    using calm.SetNonce_law [OF s, of ?a 1] by (simp add: stateDB_iface_def)
  have "FeeConfig_Verify (ccv_GetFeeConfig (ChainConfig_view c)) = None"
    using fee by (simp add: ChainConfig_view_def GetFeeConfig_def)
  from calm.Configure_succeeds [OF SetCode_calm [OF s1, THEN conjunct1] k v this n] False show ?thesis
    by (auto simp: activatePrecompile_def Let_def) (metis apfst_conv option.map_disc_iff)
qed (simp add: activatePrecompile_def)

lemma activations_succeed:
  assumes "calm B s" "module_ok (state_obs B s) (configuratorAddress k)"
    "\<And>config. config \<in> set configs \<Longrightarrow> configFor k config \<and> Config_Verify config (ChainConfig_view c) = None"
    "FeeConfig_Verify (cc_FeeConfig c) = None" "bc_Number bc = Some m"
  shows "\<exists>s'. forEach (activatePrecompile B c bc (precompileModule f k)) configs s = (None, s')"
  using assms
proof (induction configs arbitrary: s)
  case (Cons config configs)
  then obtain t where t: "activatePrecompile B c bc (precompileModule f k) config s = (None, t)"
    using activatePrecompile_succeeds [OF Cons.prems(1) _ _ Cons.prems(4,5), of k config f] by auto
  note l = activatePrecompile_law [OF Cons.prems(1) t]
  from Cons.IH [OF l(1,3)] Cons.prems(3,4,5) t show ?case by auto
qed simp

lemma all_activations_succeed:
  assumes "calm B s" "\<forall>k. module_ok (state_obs B s) (configuratorAddress k)"
    "\<And>k config. config \<in> set (cfgs (precompileModule f k)) \<Longrightarrow>
       configFor k config \<and> Config_Verify config (ChainConfig_view c) = None"
    "FeeConfig_Verify (cc_FeeConfig c) = None" "bc_Number bc = Some m"
  shows "\<exists>s'. forEach (\<lambda>m. forEach (activatePrecompile B c bc m) (cfgs m)) (map (precompileModule f) ks) s = (None, s')"
  using assms(1,2)
proof (induction ks arbitrary: s)
  case (Cons k ks)
  obtain t where t: "forEach (activatePrecompile B c bc (precompileModule f k)) (cfgs (precompileModule f k)) s = (None, t)"
    using activations_succeed [OF Cons.prems(1) _ assms(3) assms(4,5)] Cons.prems(2) by blast
  have "module_ok (state_obs B s) (configuratorAddress k)" using Cons.prems(2) by blast
  note l = activations_of_module [OF Cons.prems(1) t this]
  have "\<forall>k'. module_ok (state_obs B t) (configuratorAddress k')"
    using l Cons.prems(2) by (metis configuratorAddress_inj)
  from Cons.IH [OF _ this] l t show ?case by auto
qed simp

lemma ApplyPrecompileActivations_succeeds:
  assumes "calm B s" "\<forall>k. module_ok (state_obs B s) (configuratorAddress k)"
    and v: "verifyPrecompileUpgrades c = None" and d: "distinct (map fst (cc_GenesisPrecompiles c))"
    and g: "\<And>key config. (key, config) \<in> set (cc_GenesisPrecompiles c) \<Longrightarrow> Config_Key config = key"
    and "FeeConfig_Verify (cc_FeeConfig c) = None" "bc_Number bc = Some m"
  shows "\<exists>s'. ApplyPrecompileActivations B (registeredModules f) c parentTime bc s = (None, s')"
proof -
  let ?cfgs = "\<lambda>m. GetActivatingPrecompileConfigs (registeredModules f) c (mod_Address m) parentTime (bc_Timestamp bc)
      (cc_PrecompileUpgrades c)"
  have ok: "configFor k config \<and> Config_Verify config (ChainConfig_view c) = None"
    if "config \<in> set (?cfgs (precompileModule f k))" for k config
  proof -
    have m: "GetPrecompileModuleByAddress (registeredModules f) (configuratorAddress k) = Some (precompileModule f k)"
      by (simp add: GetPrecompileModuleByAddress_unique [OF registeredModules_distinct] set_registeredModules)
    from that have "map_of (cc_GenesisPrecompiles c) (configuratorKey k) = Some config \<or>
        config \<in> set (cc_PrecompileUpgrades c) \<and> Config_Key config = configuratorKey k"
      by (auto simp: GetActivatingPrecompileConfigs_def m Let_def split: option.splits if_splits)
    with g show ?thesis
      using v [unfolded verifyPrecompileUpgrades_iff [OF d]] by (fastforce simp: configFor_def dest: map_of_SomeD)
  qed
  from all_activations_succeed [OF assms(1,2) ok assms(6,7)] show ?thesis
    by (simp only: ApplyPrecompileActivations_def registeredModules_def)
qed

subsection \<open>State upgrades\<close>

definition code_at :: "state_view \<Rightarrow> address \<Rightarrow> byte list option" where
  "code_at v a = (case account_at v a of None \<Rightarrow> None | Some ov \<Rightarrow> ov_code ov)"

lemma changes_code:
  assumes "changes_account B v v' a f" "\<And>ov. ov_code (f ov) = g (ov_code ov)"
  shows "code_at v' b = (if b = a then g (code_at v a) else code_at v b)"
  using assms by (auto simp: changes_account_def code_at_def fresh_account_def)

text \<open>The effect of an upgrade on what the state shows of an account.\<close>

fun put_all :: "('k \<times> 'v) list \<Rightarrow> ('k \<Rightarrow> 'v) \<Rightarrow> 'k \<Rightarrow> 'v" where
  "put_all [] m = m"
| "put_all ((k, v) # kvs) m = put_all kvs (m(k := v))"

definition upgradedObs :: "address \<Rightarrow> StateUpgradeAccount \<Rightarrow> bool \<Rightarrow> stateObs \<Rightarrow> stateObs" where
  "upgradedObs a upgrade isEIP158 ob =
     ob\<lparr>ob_balance := (ob_balance ob)(a := ob_balance ob a +
            (case sua_BalanceChange upgrade of None \<Rightarrow> 0 | Some n \<Rightarrow> word_of_int n)),
        ob_nonce := (ob_nonce ob)(a :=
            (if isEIP158 \<and> sua_Code upgrade \<notin> {None, Some []} \<and> ob_nonce ob a = 0 then 1 else ob_nonce ob a)),
        ob_slot := (ob_slot ob)(a := put_all (case sua_Storage upgrade of None \<Rightarrow> [] | Some m \<Rightarrow> m) (ob_slot ob a)),
        ob_exist := (ob_exist ob)(a := True)\<rparr>"

definition upgradedCode :: "StateUpgradeAccount \<Rightarrow> byte list option \<Rightarrow> byte list option" where
  "upgradedCode upgrade code = (if sua_Code upgrade \<in> {None, Some []} then code else sua_Code upgrade)"

definition only_code :: "'e backend \<Rightarrow> 'e StateDB \<Rightarrow> 'e StateDB \<Rightarrow> address \<Rightarrow> byte list option \<Rightarrow> bool" where
  "only_code B s s' a code \<longleftrightarrow> (\<forall>b. code_at (view B s') b = (if b = a then code else code_at (view B s) b))"

lemma only_code_refl: "only_code B s s a (code_at (view B s) a)"
  by (simp add: only_code_def)

lemma state_inv_live: "state_inv B s \<Longrightarrow> live_ok B s"
  by (simp add: state_inv_def)

lemma setters_code:
  assumes "live_ok B s" "only_code B r s a code"
  shows "only_code B r (AddBalance B s a n) a code" "only_code B r (SetNonce B s a m) a code"
    "only_code B r (SetState B s a k v) a code" "only_code B r (SetCode B s a (Some c)) a (Some c)"
  using changes_code [OF AddBalance_changes [OF assms(1), of a n], where g = "\<lambda>x. x"]
    changes_code [OF SetNonce_changes [OF assms(1), of a m], where g = "\<lambda>x. x"]
    changes_code [OF SetState_changes [OF assms(1), of a k v], where g = "\<lambda>x. x"]
    changes_code [OF SetCode_changes [OF assms(1), of a "Some c"], where g = "\<lambda>_. Some c"] assms(2)
  by (simp_all add: only_code_def Let_def codeOf_def)

lemma reads_code: "reads B f g \<Longrightarrow> live_ok B s \<Longrightarrow> f s = (r, s') \<Longrightarrow> only_code B t s a code \<Longrightarrow> only_code B t s' a code"
  by (auto simp: reads_def only_code_def dest!: spec [of _ s])

lemma SetStates_law:
  "calm B s \<Longrightarrow> only_code B r s a code \<Longrightarrow> ob_exist (state_obs B s) a \<Longrightarrow>
     calm B (fold (\<lambda>(key, value) s. SetState B s a key value) kvs s) \<and>
     only_code B r (fold (\<lambda>(key, value) s. SetState B s a key value) kvs s) a code \<and>
     state_obs B (fold (\<lambda>(key, value) s. SetState B s a key value) kvs s) =
       (state_obs B s)\<lparr>ob_slot := (ob_slot (state_obs B s))(a := put_all kvs (ob_slot (state_obs B s) a))\<rparr>"
proof (induction kvs arbitrary: s)
  case (Cons kv kvs)
  obtain k v where kv: "kv = (k, v)" by force
  let ?ob = "state_obs B s"
  have ex: "(ob_exist ?ob)(a := True) = ob_exist ?ob" using Cons.prems(3) by (auto simp: fun_eq_iff)
  have l: "calm B (SetState B s a k v)"
    "state_obs B (SetState B s a k v) = ?ob\<lparr>ob_slot := (ob_slot ?ob)(a := (ob_slot ?ob a)(k := v))\<rparr>"
    using calm.SetState_law [OF Cons.prems(1), of a k v] ex by (simp_all add: stateDB_iface_def)
  have "only_code B r (SetState B s a k v) a code"
    using setters_code(3) [OF _ Cons.prems(2)] Cons.prems(1) by (simp add: calm_def state_inv_def)
  with Cons.IH [OF l(1)] Cons.prems(3) show ?case
    by (auto simp: kv l(2) fun_eq_iff fun_upd_def intro!: stateObs.equality)
qed simp

lemma calm_live: "calm B s \<Longrightarrow> live_ok B s"
  by (simp add: calm_def state_inv_def)

lemma create_missing_law:
  fixes a :: address
  assumes s: "calm B s"
  defines "t \<equiv> (case Exist B s a of (True, s) \<Rightarrow> s | (False, s) \<Rightarrow> CreateAccount B s a)"
  shows "calm B t" "only_code B s t a (code_at (view B s) a)"
    "state_obs B t = (state_obs B s)\<lparr>ob_exist := (ob_exist (state_obs B s))(a := True)\<rparr>"
proof -
  let ?ob = "state_obs B s"
  obtain e s1 where e: "Exist B s a = (e, s1)" by force
  from calm.Exist_law [OF s, of a e s1] e have l: "e = ob_exist ?ob a" "state_obs B s1 = ?ob" "calm B s1"
    by (simp_all add: stateDB_iface_def)
  have v: "view B s1 = view B s"
    using Exist_reads [of B a] calm_live [OF s] e by (auto simp: reads_def dest!: spec [of _ s])
  have "calm B t \<and> only_code B s t a (code_at (view B s) a) \<and>
    state_obs B t = ?ob\<lparr>ob_exist := (ob_exist ?ob)(a := True)\<rparr>"
  proof (cases e)
    case True
    then have t: "t = s1" by (simp add: t_def e)
    from True l(1) have "(ob_exist ?ob)(a := True) = ob_exist ?ob" by (auto simp: fun_eq_iff)
    with l t v show ?thesis by (simp add: only_code_def)
  next
    case False
    then have t: "t = CreateAccount B s1 a" by (simp add: t_def e)
    from calm.absent_law [OF s, of a] False l(1)
    have z: "(ob_slot ?ob)(a := (\<lambda>_. 0)) = ob_slot ?ob" "(ob_nonce ?ob)(a := 0) = ob_nonce ?ob"
      by (auto simp: fun_eq_iff)
    from calm.CreateAccount_law [OF l(3), of a] l(2) z
    have "calm B t" "state_obs B t = ?ob\<lparr>ob_exist := (ob_exist ?ob)(a := True)\<rparr>"
      by (simp_all add: t stateDB_iface_def)
    moreover have "account_at (view B s) a = None"
      using False l(1) by (simp add: state_obs_def view_obs_def)
    with CreateAccount_changes [OF calm_live [OF l(3)], of a] v
    have "only_code B s t a (code_at (view B s) a)"
      by (auto simp: only_code_def code_at_def t fresh_account_def)
    ultimately show ?thesis by blast
  qed
  then show "calm B t" "only_code B s t a (code_at (view B s) a)"
    "state_obs B t = ?ob\<lparr>ob_exist := (ob_exist ?ob)(a := True)\<rparr>" by blast+
qed

lemma upgrade_code_law:
  fixes isEIP158 :: bool
  assumes s: "calm B s" "only_code B r s a code" "ob_exist (state_obs B s) a" "c \<noteq> []"
  defines "t \<equiv> (let s = (if isEIP158 then (case GetNonce B s a of (n, s) \<Rightarrow> if n = 0 then SetNonce B s a 1 else s) else s)
      in SetCode B s a (Some c))"
  shows "calm B t" "only_code B r t a (Some c)"
    "state_obs B t = (state_obs B s)\<lparr>ob_nonce := (ob_nonce (state_obs B s))
       (a := (if isEIP158 \<and> ob_nonce (state_obs B s) a = 0 then 1 else ob_nonce (state_obs B s) a))\<rparr>"
proof -
  let ?ob = "state_obs B s"
  let ?u = "if isEIP158 then (case GetNonce B s a of (n, s) \<Rightarrow> if n = 0 then SetNonce B s a 1 else s) else s"
  have ex: "(ob_exist ?ob)(a := True) = ob_exist ?ob" using s(3) by (auto simp: fun_eq_iff)
  obtain n s1 where n: "GetNonce B s a = (n, s1)" by force
  from calm.GetNonce_law [OF s(1), of a n s1] n have l: "n = ob_nonce ?ob a" "state_obs B s1 = ?ob" "calm B s1"
    by (simp_all add: stateDB_iface_def)
  have c1: "only_code B r s1 a code" by (rule reads_code [OF GetNonce_reads calm_live [OF s(1)] n s(2)])
  have u: "calm B ?u \<and> only_code B r ?u a code \<and> state_obs B ?u = ?ob\<lparr>ob_nonce := (ob_nonce ?ob)
       (a := (if isEIP158 \<and> ob_nonce ?ob a = 0 then 1 else ob_nonce ?ob a))\<rparr>"
    using calm.SetNonce_law [OF l(3), of a 1] setters_code(2) [OF calm_live [OF l(3)] c1] l s(1,2) c1 ex
    by (auto simp: n stateDB_iface_def)
  then have u1: "calm B ?u" by blast
  have "t = SetCode B ?u a (Some c)" by (simp add: t_def Let_def)
  with SetCode_calm [OF u1, of a "Some c"] setters_code(4) [OF calm_live [OF u1]] u ex
  show "calm B t" "only_code B r t a (Some c)"
    "state_obs B t = ?ob\<lparr>ob_nonce := (ob_nonce ?ob)(a := (if isEIP158 \<and> ob_nonce ?ob a = 0 then 1 else ob_nonce ?ob a))\<rparr>"
    by auto
qed

lemma upgradeAccount_law:
  assumes s: "calm B s"
  shows "calm B (upgradeAccount B a u isEIP158 s) \<and>
    state_obs B (upgradeAccount B a u isEIP158 s) = upgradedObs a u isEIP158 (state_obs B s) \<and>
    only_code B s (upgradeAccount B a u isEIP158 s) a (upgradedCode u (code_at (view B s) a))"
proof -
  let ?ob = "state_obs B s"
  define s1 where "s1 = (case Exist B s a of (True, s) \<Rightarrow> s | (False, s) \<Rightarrow> CreateAccount B s a)"
  define s2 where "s2 = (case sua_BalanceChange u of None \<Rightarrow> s1 | Some n \<Rightarrow> AddBalance B s1 a (word_of_int n))"
  define s3 where "s3 = (case sua_Code u of None \<Rightarrow> s2 | Some c \<Rightarrow> if c = [] then s2 else
     (let s = (if isEIP158 then (case GetNonce B s2 a of (n, s) \<Rightarrow> if n = 0 then SetNonce B s a 1 else s) else s2)
      in SetCode B s a (Some c)))"
  note l1 = create_missing_law [OF s, of a, folded s1_def]
  have "calm B s2 \<and> only_code B s s2 a (code_at (view B s) a) \<and>
      state_obs B s2 = ?ob\<lparr>ob_exist := (ob_exist ?ob)(a := True), ob_balance := (ob_balance ?ob)
        (a := ob_balance ?ob a + (case sua_BalanceChange u of None \<Rightarrow> 0 | Some n \<Rightarrow> word_of_int n))\<rparr>"
    using calm.AddBalance_law [OF l1(1), of a] setters_code(1) [OF calm_live [OF l1(1)] l1(2)] l1
    by (auto simp: s2_def stateDB_iface_def fun_upd_idem split: option.split)
  then have l2: "calm B s2" "only_code B s s2 a (code_at (view B s) a)" and
    ob2: "state_obs B s2 = ?ob\<lparr>ob_exist := (ob_exist ?ob)(a := True), ob_balance := (ob_balance ?ob)
        (a := ob_balance ?ob a + (case sua_BalanceChange u of None \<Rightarrow> 0 | Some n \<Rightarrow> word_of_int n))\<rparr>" by blast+
  have ex2: "ob_exist (state_obs B s2) a" by (simp add: ob2)
  have l3: "calm B s3 \<and> only_code B s s3 a (upgradedCode u (code_at (view B s) a)) \<and>
      state_obs B s3 = (state_obs B s2)\<lparr>ob_nonce := (ob_nonce (state_obs B s2))(a :=
        (if isEIP158 \<and> sua_Code u \<notin> {None, Some []} \<and> ob_nonce (state_obs B s2) a = 0 then 1 else ob_nonce (state_obs B s2) a))\<rparr>"
  proof (cases "sua_Code u \<in> {None, Some []}")
    case True
    with l2 show ?thesis by (auto simp: s3_def upgradedCode_def)
  next
    case False
    then obtain c where c: "sua_Code u = Some c" "c \<noteq> []" by auto
    with upgrade_code_law [OF l2 ex2 c(2), of isEIP158] show ?thesis by (auto simp: s3_def upgradedCode_def)
  qed
  have "upgradeAccount B a u isEIP158 s =
      fold (\<lambda>(key, value) s. SetState B s a key value) (case sua_Storage u of None \<Rightarrow> [] | Some m \<Rightarrow> m) s3"
    unfolding upgradeAccount_def s1_def s2_def s3_def Let_def by (rule refl)
  with SetStates_law [of B s3 s a "upgradedCode u (code_at (view B s) a)"] l3 ob2 show ?thesis
    by (auto simp: upgradedObs_def)
qed

text \<open>A state upgrade applies the effect on each of its accounts, a block the upgrades that activate.\<close>

definition stateUpgradedObs :: "ChainConfig \<Rightarrow> configBlockContext \<Rightarrow> StateUpgrade \<Rightarrow> stateObs \<Rightarrow> stateObs" where
  "stateUpgradedObs c bc su =
     fold (\<lambda>(a, u). upgradedObs a u (IsEIP158 c (bc_Number bc)))
       (case su_StateUpgradeAccounts su of None \<Rightarrow> [] | Some m \<Rightarrow> m)"

lemma upgradeAccounts_law:
  "calm B s \<Longrightarrow>
     calm B (fold (\<lambda>(a, u). upgradeAccount B a u e) accounts s) \<and>
     state_obs B (fold (\<lambda>(a, u). upgradeAccount B a u e) accounts s) =
       fold (\<lambda>(a, u). upgradedObs a u e) accounts (state_obs B s)"
proof (induction accounts arbitrary: s)
  case (Cons au accounts)
  obtain a u where au: "au = (a, u)" by force
  note l = upgradeAccount_law [OF Cons.prems, of a u e]
  from Cons.IH [OF l [THEN conjunct1]] l show ?case unfolding au by simp
qed simp

lemma applyStateUpgrades_law:
  assumes "calm B s"
  shows "calm B (applyStateUpgrades B c parentTime bc s) \<and>
    state_obs B (applyStateUpgrades B c parentTime bc s) =
      fold (stateUpgradedObs c bc)
        (GetActivatingStateUpgrades parentTime (bc_Timestamp bc) (uc_StateUpgrades (cc_UpgradeConfig c))) (state_obs B s)"
proof -
  have "calm B (fold (stateUpgrade_Configure B c bc) sus s) \<and>
      state_obs B (fold (stateUpgrade_Configure B c bc) sus s) = fold (stateUpgradedObs c bc) sus (state_obs B s)" for sus
    using assms
  proof (induction sus arbitrary: s)
    case (Cons su sus)
    note l = upgradeAccounts_law [OF Cons.prems, of "IsEIP158 c (bc_Number bc)"
        "case su_StateUpgradeAccounts su of None \<Rightarrow> [] | Some m \<Rightarrow> m",
        folded stateUpgrade_Configure_def [of B c bc su s, unfolded Let_def] stateUpgradedObs_def]
    from Cons.IH [OF l [THEN conjunct1]] l show ?case by simp
  qed simp
  then show ?thesis by (simp add: applyStateUpgrades_def)
qed

end
