(* ===== verification/Precompiles.thy ===== *)
theory Precompiles
  imports UpgradeEffects
begin

text \<open>
  The precompiles together: the contract of each module, and what sequences of calls by arbitrary callers
  can do to the state.
\<close>

text \<open>The contracts of the permissioned modules. The contract of the warp module is in Warp.\<close>

fun precompileContractOf :: "geth \<Rightarrow> 's contractState \<Rightarrow> configurator \<Rightarrow> 's precompileContract option" where
  "precompileContractOf G S FeeManagerConfigurator = createFeeManagerPrecompile G S"
| "precompileContractOf G S NativeMinterConfigurator = createNativeMinterPrecompile G S"
| "precompileContractOf G S RewardManagerConfigurator = createRewardManagerPrecompile G S"
| "precompileContractOf G S TxAllowListConfigurator = TxAllowListPrecompile G S"
| "precompileContractOf G S DeployerAllowListConfigurator = ContractDeployerAllowListPrecompile G S"
| "precompileContractOf G S WarpConfigurator = None"

text \<open>A caller whom the allow list does not enable changes nothing at all.\<close>

definition outsider_guard :: "address \<Rightarrow> address \<Rightarrow> stateObs \<Rightarrow> stateObs \<Rightarrow> bool" where
  "outsider_guard pa caller ob ob' \<longleftrightarrow> (\<not> IsEnabled (role_of ob pa caller) \<longrightarrow> ob' = ob)"

definition slot_frame :: "address \<Rightarrow> address \<Rightarrow> stateObs \<Rightarrow> stateObs \<Rightarrow> bool" where
  "slot_frame pa caller ob ob' \<longleftrightarrow> (\<forall>b. b \<noteq> pa \<longrightarrow> ob_slot ob' b = ob_slot ob b)"

lemma add_log_slot [simp]: "ob_slot (add_log ob l) = ob_slot ob"
  by (simp add: add_log_def)

lemma CanModify_enabled: "CanModify r frm target \<Longrightarrow> IsEnabled r"
  by (auto simp: CanModify_iff IsEnabled_def IsAdmin_def)

lemma outsider_guard_refl [simp]: "outsider_guard pa caller ob ob"
  by (simp add: outsider_guard_def)

lemma CreateAllowListPrecompile_create:
  "CreateAllowListPrecompile G S pa = createPrecompile G S pa abi []"
  by (auto simp: CreateAllowListPrecompile_def createPrecompile_def split: option.split)

context contract_state
begin

lemma outsider_respected:
  assumes "\<And>E s caller addr input gas ro ret gas' err s'. inv s \<Longrightarrow>
    run E s caller addr input gas ro = (ret, gas', err, s') \<Longrightarrow> \<not> IsEnabled (role_of (obs s) pa caller) \<Longrightarrow> obs s' = obs s"
  shows "run_respects (outsider_guard pa) run"
  by (rule respectsI) (use assms in \<open>auto simp: outsider_guard_def\<close>)

lemma outsider_precompile:
  assumes "geth_ok G" "createPrecompile G S pa abi fm = Some c"
    "\<forall>run \<in> snd ` set fm. run_respects (outsider_guard pa) run"
  shows "run_respects (outsider_guard pa) (Contract_Run c)"
  using assms(3) by (intro respects_precompile [OF assms(1,2)]) (auto simp: outsider_guard_def CanModify_enabled)

lemma outsider_functions:
  assumes G: "geth_ok G"
  shows "run_respects (outsider_guard FM) (setFeeConfig G S)" "run_respects (outsider_guard FM) (getFeeConfig G S)"
    "run_respects (outsider_guard FM) (getFeeConfigLastChangedAt G S)" "run_respects (outsider_guard NM) (mintNativeCoin G S)"
    "run_respects (outsider_guard RM) (allowFeeRecipients G S)" "run_respects (outsider_guard RM) (disableRewards G S)"
    "run_respects (outsider_guard RM) (setRewardAddress G S)" "run_respects (outsider_guard RM) (areFeeRecipientsAllowed G S)"
    "run_respects (outsider_guard RM) (currentRewardAddress G S)"
proof -
  show "run_respects (outsider_guard FM) (setFeeConfig G S)"
    by (rule outsider_respected, drule (1) setFeeConfig_outcome [OF G]) (auto split: option.splits)
  show "run_respects (outsider_guard FM) (getFeeConfig G S)"
    by (rule outsider_respected, drule (1) getFeeConfig_outcome [OF G, where skip = True]) simp
  show "run_respects (outsider_guard FM) (getFeeConfigLastChangedAt G S)"
    by (rule outsider_respected, drule (1) getFeeConfigLastChangedAt_outcome [OF G]) simp
  show "run_respects (outsider_guard NM) (mintNativeCoin G S)"
    by (rule outsider_respected, drule (1) mint_outcome [OF G]) (auto split: option.splits)
  show "run_respects (outsider_guard RM) (allowFeeRecipients G S)"
    by (rule outsider_respected, drule (1) allowFeeRecipients_outcome) (auto simp: reward_outcome_def split: option.splits)
  show "run_respects (outsider_guard RM) (disableRewards G S)"
    by (rule outsider_respected, drule (1) disableRewards_outcome) (auto simp: reward_outcome_def split: option.splits)
  show "run_respects (outsider_guard RM) (setRewardAddress G S)"
    by (rule outsider_respected, drule (1) setRewardAddress_outcome) (auto simp: reward_outcome_def split: option.splits)
  show "run_respects (outsider_guard RM) (areFeeRecipientsAllowed G S)"
    by (rule outsider_respected, drule reward_getters_outcome(1) [OF G, rotated]) simp_all
  show "run_respects (outsider_guard RM) (currentRewardAddress G S)"
    by (rule outsider_respected, drule reward_getters_outcome(2) [OF G, rotated]) simp_all
qed

lemma precompile_cases:
  assumes "precompileContractOf G S k = Some c"
  obtains abi fm where "createPrecompile G S (configuratorAddress k) abi fm = Some c"
    "geth_ok G \<Longrightarrow> \<forall>run \<in> snd ` set fm. run_respects (outsider_guard (configuratorAddress k)) run"
    "geth_ok G \<Longrightarrow> \<forall>run \<in> snd ` set fm. guarded (configuratorAddress k) run"
proof (cases k)
  case FeeManagerConfigurator
  with assms that outsider_functions fee_functions_guarded show ?thesis
    by (auto simp: createFeeManagerPrecompile_def)
next
  case NativeMinterConfigurator
  with assms that outsider_functions mint_guarded show ?thesis
    by (auto simp: createNativeMinterPrecompile_def)
next
  case RewardManagerConfigurator
  with assms that outsider_functions reward_functions show ?thesis
    by (auto simp: createRewardManagerPrecompile_def)
next
  case TxAllowListConfigurator
  with assms that [of "AllowListABI G" "[]"] show ?thesis
    by (auto simp: TxAllowListPrecompile_def CreateAllowListPrecompile_create [of _ _ _ "AllowListABI G"])
next
  case DeployerAllowListConfigurator
  with assms that [of "AllowListABI G" "[]"] show ?thesis
    by (auto simp: ContractDeployerAllowListPrecompile_def CreateAllowListPrecompile_create [of _ _ _ "AllowListABI G"])
next
  case WarpConfigurator
  with assms show ?thesis by simp
qed

text \<open>A call changes the storage of its own precompile only.\<close>

lemma slot_frame_functions:
  assumes G: "geth_ok G"
  shows "run_respects (slot_frame FM) (setFeeConfig G S)" "run_respects (slot_frame FM) (getFeeConfig G S)"
    "run_respects (slot_frame FM) (getFeeConfigLastChangedAt G S)" "run_respects (slot_frame NM) (mintNativeCoin G S)"
    "run_respects (slot_frame RM) (allowFeeRecipients G S)" "run_respects (slot_frame RM) (disableRewards G S)"
    "run_respects (slot_frame RM) (setRewardAddress G S)" "run_respects (slot_frame RM) (areFeeRecipientsAllowed G S)"
    "run_respects (slot_frame RM) (currentRewardAddress G S)"
proof -
  show "run_respects (slot_frame FM) (setFeeConfig G S)"
    by (rule respectsI, drule (1) setFeeConfig_outcome [OF G])
       (auto simp: slot_frame_def fee_config_set_def storeObs_frame split: option.splits if_splits)
  show "run_respects (slot_frame FM) (getFeeConfig G S)"
    by (rule respects_same, drule (1) getFeeConfig_outcome [OF G, where skip = True]) (simp_all add: slot_frame_def)
  show "run_respects (slot_frame FM) (getFeeConfigLastChangedAt G S)"
    by (rule respects_same, drule (1) getFeeConfigLastChangedAt_outcome [OF G]) (simp_all add: slot_frame_def)
  show "run_respects (slot_frame NM) (mintNativeCoin G S)"
    by (rule respectsI, drule (1) mint_outcome [OF G]) (auto simp: slot_frame_def split: option.splits)
  show "run_respects (slot_frame RM) (allowFeeRecipients G S)"
    by (rule respectsI, drule (1) allowFeeRecipients_outcome)
       (auto simp: slot_frame_def reward_outcome_def reward_set_def split: option.splits if_splits)
  show "run_respects (slot_frame RM) (disableRewards G S)"
    by (rule respectsI, drule (1) disableRewards_outcome)
       (auto simp: slot_frame_def reward_outcome_def reward_set_def split: option.splits if_splits)
  show "run_respects (slot_frame RM) (setRewardAddress G S)"
    by (rule respectsI, drule (1) setRewardAddress_outcome)
       (auto simp: slot_frame_def reward_outcome_def reward_set_def split: option.splits if_splits)
  show "run_respects (slot_frame RM) (areFeeRecipientsAllowed G S)"
    by (rule respects_same, drule reward_getters_outcome(1) [OF G, rotated]) (simp_all add: slot_frame_def)
  show "run_respects (slot_frame RM) (currentRewardAddress G S)"
    by (rule respects_same, drule reward_getters_outcome(2) [OF G, rotated]) (simp_all add: slot_frame_def)
qed

lemma slot_frame_precompile:
  assumes "geth_ok G" "createPrecompile G S pa abi fm = Some c" "\<forall>run \<in> snd ` set fm. run_respects (slot_frame pa) run"
  shows "run_respects (slot_frame pa) (Contract_Run c)"
  using assms(3) by (intro respects_precompile [OF assms(1,2)]) (auto simp: slot_frame_def roleSetObs_def set_role_def)

lemma precompile_slot_frame:
  assumes G: "geth_ok G" and c: "precompileContractOf G S k = Some c" and s: "inv s"
    and run: "Contract_Run c E s caller addr input gas ro = (ret, gas', err, s')"
  shows "slot_frame (configuratorAddress k) caller (obs s) (obs s')"
proof -
  have "run_respects (slot_frame (configuratorAddress k)) (Contract_Run c)"
    using c slot_frame_functions [OF G]
    by (cases k)
       (auto simp: createFeeManagerPrecompile_def createNativeMinterPrecompile_def createRewardManagerPrecompile_def
         TxAllowListPrecompile_def ContractDeployerAllowListPrecompile_def
         CreateAllowListPrecompile_create [of _ _ _ "AllowListABI G"] intro!: slot_frame_precompile [OF G])
  with s run show ?thesis unfolding run_respects_def by meson
qed

lemma precompile_call:
  assumes G: "geth_ok G" and c: "precompileContractOf G S k = Some c" and s: "inv s"
    and run: "Contract_Run c E s caller addr input gas ro = (ret, gas', err, s')"
  shows "inv s' \<and> unat gas' \<le> unat gas \<and> (ro \<longrightarrow> obs s' = obs s) \<and>
    role_guard (configuratorAddress k) caller (obs s) (obs s') \<and>
    outsider_guard (configuratorAddress k) caller (obs s) (obs s')"
  using c
proof (rule precompile_cases)
  fix abi fm
  assume p: "createPrecompile G S (configuratorAddress k) abi fm = Some c"
    "geth_ok G \<Longrightarrow> \<forall>run \<in> snd ` set fm. run_respects (outsider_guard (configuratorAddress k)) run"
    "geth_ok G \<Longrightarrow> \<forall>run \<in> snd ` set fm. guarded (configuratorAddress k) run"
  have "outsider_guard (configuratorAddress k) caller (obs s) (obs s')"
    using outsider_precompile [OF G p(1) p(2) [OF G]] s run unfolding run_respects_def by meson
  moreover have "inv s' \<and> unat gas' \<le> unat gas \<and> role_guard (configuratorAddress k) caller (obs s) (obs s') \<and> (ro \<longrightarrow> obs s' = obs s)"
    using precompile_guarded [OF G p(1) p(3) [OF G]] s run unfolding guarded_def by meson
  ultimately show ?thesis by simp
qed

end

subsection \<open>Sequences of calls\<close>

text \<open>
  The states that calls of precompiles reach, in any order and number and with any input, when all callers
  are in a given set. The state is kept even where a call fails.
\<close>

inductive precompile_calls :: "geth \<Rightarrow> 'e backend \<Rightarrow> address set \<Rightarrow> 'e StateDB \<Rightarrow> 'e StateDB \<Rightarrow> bool"
  for G B callers s where
  no_call: "precompile_calls G B callers s s"
| a_call: "precompile_calls G B callers s t \<Longrightarrow> precompileContractOf G (stateDB_iface B) k = Some c \<Longrightarrow>
     caller \<in> callers \<Longrightarrow> Contract_Run c E t caller addr input gas ro = (ret, gas', err, t') \<Longrightarrow>
     precompile_calls G B callers s t'"

inductive_cases precompile_callsE: "precompile_calls G B callers s s'"

lemma outsiders_change_nothing:
  assumes G: "geth_ok G" and s: "state_inv B s" and calls: "precompile_calls G B callers s s'"
    and out: "\<And>k caller. caller \<in> callers \<Longrightarrow> \<not> IsEnabled (role_of (state_obs B s) (configuratorAddress k) caller)"
  shows "state_inv B s' \<and> state_obs B s' = state_obs B s"
  using calls
proof induction
  case (a_call t k c caller E addr input gas ro ret gas' err t')
  with sdb.precompile_call [OF G a_call(2) _ a_call(4)] out show ?case
    by (auto simp: outsider_guard_def)
qed (use s in simp)

text \<open>Callers who may not modify a list leave the roles in it as they are.\<close>

lemma unprivileged_keep_roles:
  assumes G: "geth_ok G" and s: "state_inv B s" and calls: "precompile_calls G B callers s s'"
    and out: "\<And>k caller. caller \<in> callers \<Longrightarrow>
      role_of (state_obs B s) (configuratorAddress k) caller \<in> {NoRole, EnabledRole}"
  shows "state_inv B s' \<and> (\<forall>k. role_of (state_obs B s') (configuratorAddress k) = role_of (state_obs B s) (configuratorAddress k))"
  using calls
proof induction
  case (a_call t k c caller E addr input gas ro ret gas' err t')
  then have t: "state_inv B t" by simp
  note l = sdb.precompile_call [OF G a_call(2) t a_call(4)]
  have "\<not> CanModify (role_of (state_obs B t) (configuratorAddress k) caller) frm target" for frm target
    using out [OF a_call(3), of k] a_call.IH by (auto simp: CanModify_iff IsAdmin_def NoRole_def EnabledRole_def AdminRole_def ManagerRole_def)
  with l have "role_of (state_obs B t') (configuratorAddress k) = role_of (state_obs B t) (configuratorAddress k)"
    by (auto simp: role_guard_def fun_eq_iff)
  moreover have "role_of (state_obs B t') (configuratorAddress k') = role_of (state_obs B t) (configuratorAddress k')"
    if "k' \<noteq> k" for k'
    using sdb.precompile_slot_frame [OF G a_call(2) t a_call(4)] that by (intro role_of_slot) (simp add: slot_frame_def)
  ultimately show ?case using l a_call.IH by metis
qed (use s in simp)

end
