(* ===== verification/ExamplesPrecompiles.thy ===== *)
theory ExamplesPrecompiles
  imports Examples Precompiles
begin

text \<open>
  Concrete values for the precompiles: a hash function under which the selectors of the allow list are
  distinct, the empty world state, and a state in which the address 1 is an admin of the tx allow list.
\<close>

definition ex_hash :: "byte list \<Rightarrow> hash" where
  "ex_hash bs = of_nat (sum_list (map unat bs) * 256 ^ 28)"

definition ex_geth :: geth where
  "ex_geth = geth_ref\<lparr>Keccak256Hash := ex_hash\<rparr>"

lemma geth_ok_ex [simp]: "geth_ok ex_geth"
  using geth_ok_ref by (simp add: geth_ok_def ex_geth_def)

lemma ex_selector:
  assumes "sum_list (map unat bs) < 2 ^ 32"
  shows "take 4 (hashBytes (Keccak256Hash ex_geth bs)) = be_bytes 4 (sum_list (map unat bs))"
proof -
  let ?n = "sum_list (map unat bs)"
  have "?n * 256 ^ 28 < 2 ^ 256" using assms by simp
  moreover have "unat (of_nat m :: hash) = m" if "m < 2 ^ 256" for m
    using that by (simp add: unsigned_of_nat take_bit_nat_eq_self)
  ultimately have "unat (of_nat (?n * 256 ^ 28) :: hash) = ?n * 256 ^ 28" by blast
  then have "hashBytes (Keccak256Hash ex_geth bs) = be_bytes (4 + 28) (?n * 256 ^ 28)"
    unfolding hashBytes_def by (simp add: ex_geth_def ex_hash_def)
  then show ?thesis
    unfolding be_bytes_split by simp
qed

lemma be_bytes_4_inj:
  assumes "a < 2 ^ 32" "b < 2 ^ 32"
  shows "be_bytes 4 a = be_bytes 4 b \<longleftrightarrow> a = b"
proof -
  have "a mod 256 ^ 4 = a" "b mod 256 ^ 4 = b" using assms by simp_all
  then show ?thesis using be_nat_be_bytes [of 4] by metis
qed

lemma ex_method_ID:
  "mth_ID (NewMethod ex_geth name raw ins outs) =
     (let n = sum_list (map unat (stringBytes (signature raw ins)))
      in if n < 2 ^ 32 then be_bytes 4 n else take 4 (hashBytes (Keccak256Hash ex_geth (stringBytes (signature raw ins)))))"
  by (simp add: NewMethod_def Let_def ex_selector)

lemma ex_allow_list_IDs:
  "map mth_ID (allowListMethods ex_geth) = map (be_bytes 4) [2158, 1644, 1838, 1854, 1555]"
  by (simp add: allowListMethods_def ex_method_ID Let_def signature_def stringBytes_def)

lemma ex_allow_list_ID [simp]:
  "mth_ID (allowListMethods ex_geth ! 0) = be_bytes 4 2158" "mth_ID (allowListMethods ex_geth ! Suc 0) = be_bytes 4 1644"
  "mth_ID (allowListMethods ex_geth ! 2) = be_bytes 4 1838" "mth_ID (allowListMethods ex_geth ! 3) = be_bytes 4 1854"
  "mth_ID (allowListMethods ex_geth ! 4) = be_bytes 4 1555"
  using ex_allow_list_IDs by (simp_all add: allowListMethods_def)

lemmas ex_contract_defs = CreateAllowListFunctions_eq NewStatefulPrecompileContract_def NewStatefulPrecompileFunction_def
  NewStatefulPrecompileFunctionWithActivator_def be_bytes_4_inj

lemma nat_dec_256: "nat_dec 256 = ''256''"
  by code_simp

lemma ex_fee_IDs [simp]:
  "mth_ID (NewMethod ex_geth name ''setFeeConfig'' feeConfigArgs outs) = be_bytes 4 6431"
  "mth_ID (NewMethod ex_geth name ''getFeeConfig'' [] outs) = be_bytes 4 1271"
  "mth_ID (NewMethod ex_geth name ''getFeeConfigLastChangedAt'' [] outs) = be_bytes 4 2538"
  "mth_ID (NewMethod ex_geth name ''mintNativeCoin'' mintArgs outs) = be_bytes 4 2920"
  by (simp_all add: ex_method_ID Let_def signature_def stringBytes_def feeConfigArgs_def feeConfigNames_def mintArgs_def nat_dec_256)

lemma ex_contracts:
  "\<exists>c. precompileContractOf ex_geth S TxAllowListConfigurator = Some c"
  "\<exists>c. precompileContractOf ex_geth S DeployerAllowListConfigurator = Some c"
  "\<exists>c. precompileContractOf ex_geth S NativeMinterConfigurator = Some c"
  "\<exists>c. precompileContractOf ex_geth S FeeManagerConfigurator = Some c"
  by (simp_all add: TxAllowListPrecompile_def ContractDeployerAllowListPrecompile_def CreateAllowListPrecompile_def ex_contract_defs
      createNativeMinterPrecompile_def createPrecompile_def NativeMinterABI_methods createFeeManagerPrecompile_def FeeManagerABI_methods)

text \<open>The empty world state.\<close>

lemma ex_readAccount [simp]: "readAccount ex_backend a = Inr None"
  by (simp add: readAccount_def ex_backend_def)

lemma ex_empty_account [simp]: "account_at (view ex_backend NewStateDB) a = None"
  by (simp add: account_at_def view_def lookup_def NewStateDB_def)

lemma ex_calm [simp]: "calm ex_backend NewStateDB"
  by (simp add: calm_def state_inv_def no_destructed_def) (simp add: live_ok_def NewStateDB_def)

lemma ex_obs [simp]:
  "ob_slot (state_obs ex_backend NewStateDB) a = (\<lambda>_. 0)" "ob_nonce (state_obs ex_backend NewStateDB) a = 0"
  "ob_balance (state_obs ex_backend NewStateDB) a = 0"
  by (simp_all add: state_obs_def view_obs_def state_at_def nonce_at_def balance_at_def fun_eq_iff)

lemma ex_roles [simp]: "role_of (state_obs ex_backend NewStateDB) pa = (\<lambda>_. NoRole)"
  by (simp add: role_of_def NoRole_def fun_eq_iff)

lemma ex_module_ok [simp]: "module_ok (state_obs ex_backend NewStateDB) a"
  by (simp add: module_ok_def)

lemma ex_inv [simp]: "state_inv ex_backend NewStateDB"
  using ex_calm by (simp add: calm_def)

text \<open>The address 1 as admin of the tx allow list.\<close>

definition ex_admin_state :: "unit StateDB" where
  "ex_admin_state = SetTxAllowListStatus (stateDB_iface ex_backend) NewStateDB 1 AdminRole"

lemma ex_admin:
  "state_inv ex_backend ex_admin_state"
  "role_of (state_obs ex_backend ex_admin_state) txAllowList_ContractAddress a = (if a = 1 then AdminRole else NoRole)"
proof -
  have l: "state_obs ex_backend ex_admin_state = set_role (state_obs ex_backend NewStateDB) txAllowList_ContractAddress 1 AdminRole"
    "state_inv ex_backend ex_admin_state"
    using sdb.SetAllowListRole_law [of ex_backend NewStateDB]
    by (simp_all add: ex_admin_state_def SetTxAllowListStatus_def)
  then show "state_inv ex_backend ex_admin_state" by simp
  show "role_of (state_obs ex_backend ex_admin_state) txAllowList_ContractAddress a = (if a = 1 then AdminRole else NoRole)"
    by (simp add: l(1))
qed

definition ex_env :: accessibleState where
  "ex_env =
     \<lparr>as_ChainConfig = ChainConfig_view ex_config, as_Number = 1, as_Timestamp = 160,
      as_GetPredicateResults = (\<lambda>_ _. []), as_SnowContext = \<lparr>snow_NetworkID = 1, snow_ChainID = 99\<rparr>\<rparr>"

lemma ex_config2_fee: "FeeConfig_Verify (cc_FeeConfig ex_config2) = None"
  using DefaultFeeConfig_ok by (simp add: ex_config2_def ex_config_def)

lemma ex_activations_succeed:
  "\<exists>s'. ApplyPrecompileActivations ex_backend (registeredModules (\<lambda>_. ())) ex_config2 (Some 100)
     \<lparr>bc_Number = Some 1, bc_Timestamp = 160\<rparr> NewStateDB = (None, s')"
  by (rule ApplyPrecompileActivations_succeeds [OF ex_calm _ ex_config2_verifies _ _ ex_config2_fee]) simp_all

lemma ex_activating2:
  "GetActivatingPrecompileConfigs (registeredModules (\<lambda>_. ())) ex_config2 txAllowList_ContractAddress (Some 100) 160
     (cc_PrecompileUpgrades ex_config2) = [TxAllowList (txAllowList_NewConfig (Some 150) [] [1] [])]"
proof -
  have "GetPrecompileModuleByAddress (registeredModules (\<lambda>_. ())) txAllowList_ContractAddress =
      Some (precompileModule (\<lambda>_. ()) TxAllowListConfigurator)"
    using GetPrecompileModuleByAddress_unique [OF registeredModules_distinct, of "\<lambda>_. ()" txAllowList_ContractAddress]
    by (force simp: set_registeredModules)
  then show ?thesis
    by (simp add: GetActivatingPrecompileConfigs_def Let_def IsForkTransition_def isTimestampForked_def
        Config_Timestamp_def Upgrade_Timestamp_def txAllowList_NewConfig_def txAllowList_NewDisableConfig_def)
qed

lemma ex_unpack: "UnpackModifyAllowListInput ex_geth (replicate 12 0 @ addressBytes 7) EnabledRole (\<not> IsDurangoActivated ex_env) = Inr 7"
  using Unpack_modify_padded [of EnabledRole "''setEnabled''" "replicate 12 0 @ addressBytes 7"]
  by (simp add: GetSetterFunctionName_def BytesToAddress_def)

end
