(* ===== verification/TrieEncoding.thy ===== *)
theory TrieEncoding
  imports Prelude
begin

unbundle bit_operations_syntax

text \<open>
  The three encodings of trie keys (trie/encoding.go): the bytes of a key, its nibbles with an optional
  terminator, and the compact form that is stored.
\<close>

definition hasTerm :: "byte list \<Rightarrow> bool" where
  "hasTerm s \<longleftrightarrow> s \<noteq> [] \<and> s ! (length s - 1) = 16"

text \<open>decodeNibbles fills its second argument; an odd number of nibbles is an index out of range.\<close>

fun decodeNibbles :: "byte list \<Rightarrow> byte list option" where
  "decodeNibbles [] = Some []"
| "decodeNibbles [_] = None"
| "decodeNibbles (a # b # rest) = map_option (\<lambda>bs. (push_bit 4 a OR b) # bs) (decodeNibbles rest)"

definition hexToCompact :: "byte list \<Rightarrow> byte list option" where
  "hexToCompact hex =
     (let terminator = (if hasTerm hex then 1 else 0 :: byte);
          hex = (if hasTerm hex then take (length hex - 1) hex else hex);
          flag = push_bit 5 terminator
      in if length hex mod 2 = 1
         then map_option (\<lambda>bs. (flag OR push_bit 4 1 OR hex ! 0) # bs) (decodeNibbles (drop 1 hex))
         else map_option (\<lambda>bs. flag # bs) (decodeNibbles hex))"

text \<open>
  The loop of hexToCompactInPlace, which reads and writes the same buffer. The function writes to the first
  byte of the buffer: None is the panic on an empty one.
\<close>

function compactInPlace_loop :: "nat \<Rightarrow> nat \<Rightarrow> nat \<Rightarrow> byte list \<Rightarrow> byte list" where
  "compactInPlace_loop hexLen bi ni hex =
     (if ni < hexLen
      then compactInPlace_loop hexLen (bi + 1) (ni + 2) (hex[bi := push_bit 4 (hex ! ni) OR hex ! (ni + 1)])
      else hex)"
  by pat_completeness auto
termination by (relation "measure (\<lambda>(hexLen, bi, ni, hex). hexLen - ni)") auto

definition hexToCompactInPlace :: "byte list \<Rightarrow> byte list option" where
  "hexToCompactInPlace hex =
     (if hex = [] then None
      else
     (let isTerm = (0 < length hex \<and> hex ! (length hex - 1) = 16);
          hexLen = (if isTerm then length hex - 1 else length hex);
          firstByte = (if isTerm then push_bit 5 1 else 0 :: byte);
          binLen = hexLen div 2 + 1;
          odd = (hexLen mod 2 = 1);
          firstByte = (if odd then firstByte OR push_bit 4 1 OR hex ! 0 else firstByte);
          hex = compactInPlace_loop hexLen 1 (if odd then 1 else 0) hex
      in Some (take binLen (hex[0 := firstByte]))))"

fun keyNibbles :: "byte list \<Rightarrow> byte list" where
  "keyNibbles [] = []"
| "keyNibbles (b # bs) = (b div 16) # (b mod 16) # keyNibbles bs"

definition keybytesToHex :: "byte list \<Rightarrow> byte list" where
  "keybytesToHex str = keyNibbles str @ [16]"

definition compactToHex :: "byte list \<Rightarrow> byte list" where
  "compactToHex compact =
     (if compact = [] then compact
      else
        (let base = keybytesToHex compact;
             base = (if base ! 0 < 2 then take (length base - 1) base else base);
             chop = 2 - (base ! 0 AND 1)
         in drop (unat chop) base))"

text \<open>None is the panic on a key of odd length.\<close>

definition hexToKeybytes :: "byte list \<Rightarrow> byte list option" where
  "hexToKeybytes hex =
     (let hex = (if hasTerm hex then take (length hex - 1) hex else hex)
      in if length hex mod 2 \<noteq> 0 then None else decodeNibbles hex)"

fun prefixLen :: "byte list \<Rightarrow> byte list \<Rightarrow> nat" where
  "prefixLen (x # xs) (y # ys) = (if x = y then Suc (prefixLen xs ys) else 0)"
| "prefixLen _ _ = 0"

subsection \<open>Nibbles\<close>

abbreviation nibbles :: "byte list \<Rightarrow> bool" where
  "nibbles ns \<equiv> \<forall>n \<in> set ns. n < 16"

text \<open>A key in hex encoding: nibbles, and perhaps the terminator.\<close>

definition hex_key :: "byte list \<Rightarrow> bool" where
  "hex_key h \<longleftrightarrow> nibbles h \<or> (\<exists>ns. nibbles ns \<and> h = ns @ [16])"

lemma nibble_bit:
  fixes a :: byte
  assumes "a < 16" "bit a n"
  shows "n < 4"
proof -
  have "a = take_bit 4 a" using assms(1) by (simp add: take_bit_eq_mod word_mod_less_divisor word_less_nat_alt word_unat_eq_iff unat_mod)
  with assms(2) show ?thesis by (metis bit_take_bit_iff)
qed

lemma div_mod_16: "b div 16 = drop_bit 4 (b :: byte)" "b mod 16 = take_bit 4 (b :: byte)"
  by (simp_all add: drop_bit_eq_div take_bit_eq_mod)

lemma join_nibbles:
  fixes a b :: byte
  assumes "a < 16" "b < 16"
  shows "(push_bit 4 a OR b) div 16 = a" "(push_bit 4 a OR b) mod 16 = b"
  using nibble_bit [OF assms(1)] nibble_bit [OF assms(2)]
  by (fastforce simp: div_mod_16 bit_eq_iff bit_simps)+

lemma split_byte: "push_bit 4 (b div 16) OR b mod 16 = (b :: byte)"
  by (auto simp: div_mod_16 bit_eq_iff bit_simps)

lemma nibble_parts: "b div 16 < (16 :: byte)" "b mod 16 < (16 :: byte)"
  using unat_byte_less [of b] by (simp_all add: word_less_nat_alt unat_div unat_mod less_mult_imp_div_less)

lemma length_keyNibbles [simp]: "length (keyNibbles bs) = 2 * length bs"
  by (induction bs) auto

lemma nibbles_keyNibbles: "nibbles (keyNibbles bs)"
  using nibble_parts by (induction bs) auto

lemma decode_keyNibbles [simp]: "decodeNibbles (keyNibbles bs) = Some bs"
  by (induction bs) (auto simp: split_byte)

lemma decodeNibbles_even:
  "nibbles ns \<Longrightarrow> length ns mod 2 = 0 \<Longrightarrow> \<exists>bs. decodeNibbles ns = Some bs \<and> keyNibbles bs = ns"
  by (induction ns rule: decodeNibbles.induct) (auto simp: join_nibbles)

lemma hasTerm_simps [simp]: "hasTerm (ns @ [16])" "nibbles ns \<Longrightarrow> \<not> hasTerm ns"
proof -
  show "\<not> hasTerm ns" if "nibbles ns"
  proof (cases "ns = []")
    case False
    then have "ns ! (length ns - 1) \<in> set ns" by simp
    with that have "ns ! (length ns - 1) < 16" by blast
    then show ?thesis unfolding hasTerm_def by auto
  qed (simp add: hasTerm_def)
qed (simp add: hasTerm_def)

subsection \<open>Round trips\<close>

lemma hexToKeybytes_keybytesToHex: "hexToKeybytes (keybytesToHex key) = Some key"
  by (simp add: hexToKeybytes_def keybytesToHex_def Let_def)

text \<open>The first byte of the compact form: two flags and, for an odd number of nibbles, the first one.\<close>

lemma flag_byte:
  fixes x :: byte
  assumes "x < 16" "t \<in> {0, 1 :: byte}"
  shows "(push_bit 5 t OR push_bit 4 1 OR x) div 16 = 2 * t + 1 \<and> (push_bit 5 t OR push_bit 4 1 OR x) mod 16 = x"
proof -
  have "2 * t + 1 < 16" "push_bit 5 t OR push_bit 4 1 = push_bit 4 (2 * t + 1)" using assms(2) by auto
  then show ?thesis using join_nibbles [of "2 * t + 1" x] assms(1) by (simp add: or.assoc [symmetric])
qed

lemma compactToHex_hexToCompact:
  assumes "hex_key h"
  shows "\<exists>c. hexToCompact h = Some c \<and> compactToHex c = h"
proof -
  obtain t ns where t: "t = (if hasTerm h then 1 else 0 :: byte)" and ns: "nibbles ns"
    and h: "h = (if hasTerm h then ns @ [16] else ns)" "(if hasTerm h then take (length h - 1) h else h) = ns"
    using assms by (auto simp: hex_key_def)
  have bool: "t \<in> {0, 1}" "(t = 1) = hasTerm h" by (auto simp: t)
  show ?thesis
  proof (cases "length ns mod 2 = 1")
    case True
    then obtain x ns' where x: "ns = x # ns'" by (cases ns) auto
    from True x have "length ns' mod 2 = 0" by (simp add: mod_Suc split: if_splits)
    with x ns obtain bs where bs: "decodeNibbles ns' = Some bs" "keyNibbles bs = ns'"
      using decodeNibbles_even [of ns'] by auto
    let ?b = "push_bit 5 t OR push_bit 4 1 OR x"
    have "hexToCompact h = Some (?b # bs)"
      unfolding hexToCompact_def Let_def h(2) t [symmetric] using True x bs by simp
    moreover have "compactToHex (?b # bs) = h"
      using flag_byte [of x t] bool ns x bs h(1)
      by (auto simp: compactToHex_def keybytesToHex_def Let_def)
    ultimately show ?thesis by blast
  next
    case False
    with ns obtain bs where bs: "decodeNibbles ns = Some bs" "keyNibbles bs = ns"
      using decodeNibbles_even [of ns] by auto
    have "hexToCompact h = Some (push_bit 5 t # bs)"
      unfolding hexToCompact_def Let_def h(2) t [symmetric] using False bs by simp
    moreover have "compactToHex (push_bit 5 t # bs) = h"
      using bool bs h(1) by (auto simp: compactToHex_def keybytesToHex_def Let_def)
    ultimately show ?thesis by blast
  qed
qed

subsection \<open>Compaction in place\<close>

text \<open>
  The writes of the loop stay behind its reads, so it leaves in the buffer what decoding the nibbles into
  another one would.
\<close>

lemma compactInPlace_loop_eq:
  assumes "bi \<le> ni + 1" "hexLen \<le> length hex" "decodeNibbles (drop ni (take hexLen hex)) = Some bs"
  shows "compactInPlace_loop hexLen bi ni hex = take bi hex @ bs @ drop (bi + length bs) hex"
  using assms
proof (induction hexLen bi ni hex arbitrary: bs rule: compactInPlace_loop.induct)
  case (1 hexLen bi ni hex)
  show ?case
  proof (cases "ni < hexLen")
    case False
    with 1(4) show ?thesis by (simp add: compactInPlace_loop.simps [of hexLen bi ni hex])
  next
    case True
    let ?x = "push_bit 4 (hex ! ni) OR hex ! (ni + 1)"
    have len: "length (drop ni (take hexLen hex)) = hexLen - ni" using 1(3) by simp
    with True 1(4) have two: "ni + 1 < hexLen"
      by (cases "drop ni (take hexLen hex)" rule: decodeNibbles.cases) auto
    then have d: "drop ni (take hexLen hex) = hex ! ni # hex ! (ni + 1) # drop (ni + 2) (take hexLen hex)"
      using 1(3) by (simp add: Cons_nth_drop_Suc [symmetric])
    with 1(4) obtain bs' where bs: "bs = ?x # bs'" "decodeNibbles (drop (ni + 2) (take hexLen hex)) = Some bs'" by auto
    have bi: "bi < length hex" using 1(2,3) two by linarith
    have same: "drop (ni + 2) (take hexLen (hex[bi := ?x])) = drop (ni + 2) (take hexLen hex)"
      using 1(2) by (simp add: take_update_swap drop_update_cancel)
    have "compactInPlace_loop hexLen (bi + 1) (ni + 2) (hex[bi := ?x]) =
        take (bi + 1) (hex[bi := ?x]) @ bs' @ drop (bi + 1 + length bs') (hex[bi := ?x])"
      using 1(2,3) bs(2) same by (intro 1(1) [OF True]) simp_all
    then show ?thesis
      using True bs(1) bi by (simp add: compactInPlace_loop.simps [of hexLen bi ni hex] take_Suc_conv_app_nth drop_update_cancel)
  qed
qed

lemma hexToCompactInPlace_eq:
  assumes "hex_key h" "h \<noteq> []"
  shows "hexToCompactInPlace h = hexToCompact h"
proof -
  define n where "n = (if hasTerm h then length h - 1 else length h)"
  obtain x r where h: "h = x # r" using assms(2) by (cases h) auto
  have isTerm: "(0 < length h \<and> h ! (length h - 1) = 16) = hasTerm h" by (simp add: hasTerm_def)
  have n: "n \<le> length h" "(if hasTerm h then take (length h - 1) h else h) = take n h" by (auto simp: n_def)
  have nib: "nibbles (take n h)" using assms(1) by (auto simp: hex_key_def n_def)
  have len: "length (take n h) = n" using n(1) by simp
  show ?thesis
  proof (cases "n mod 2 = 1")
    case True
    then obtain m where m: "n = Suc m" by (cases n) auto
    with h have tk: "take n h = x # take m r" by simp
    have "length (take m r) = m" using n(1) h m by simp
    then have "length (take m r) mod 2 = 0" using True m by (simp add: mod_Suc split: if_splits)
    then obtain bs where bs: "decodeNibbles (take m r) = Some bs" "keyNibbles bs = take m r"
      using decodeNibbles_even [of "take m r"] nib tk by auto
    from bs(2) have "2 * length bs = length (take m r)" by (metis length_keyNibbles)
    then have lb: "n div 2 = length bs" using n(1) h m by simp
    have "compactInPlace_loop n 1 1 h = take 1 h @ bs @ drop (1 + length bs) h"
      using bs(1) n(1) h m by (intro compactInPlace_loop_eq) simp_all
    then show ?thesis
      using assms(2) True bs(1) tk lb h
      unfolding hexToCompactInPlace_def hexToCompact_def Let_def isTerm n(2) n_def [symmetric] len by simp
  next
    case False
    then obtain bs where bs: "decodeNibbles (take n h) = Some bs" "keyNibbles bs = take n h"
      using decodeNibbles_even [OF nib] len by auto
    from bs(2) have "2 * length bs = length (take n h)" by (metis length_keyNibbles)
    then have lb: "n div 2 = length bs" using len by simp
    have "compactInPlace_loop n 1 0 h = take 1 h @ bs @ drop (1 + length bs) h"
      using bs(1) n(1) by (intro compactInPlace_loop_eq) simp_all
    then show ?thesis
      using assms(2) False bs(1) lb h
      unfolding hexToCompactInPlace_def hexToCompact_def Let_def isTerm n(2) n_def [symmetric] len by simp
  qed
qed

end
