(* ===== verification/TrieNode.thy ===== *)
theory TrieNode
  imports TrieEncoding
begin

text \<open>
  The nodes of a Merkle Patricia trie (trie/node.go), the reader that loads them (trie/trie_reader.go) and
  the tracer that records which paths were created, deleted and loaded (trie/tracer.go).

  A nil node is a constructor. A hashNode and a valueNode are their bytes; the hash cached in the flags of
  a node is an option, since the sources compare it with nil. The rlp package is third-party code: the
  functions of it that the sources call are a record, with the laws relied on in \<open>rlp_ok\<close>.
\<close>

subsection \<open>Nodes\<close>

record nodeFlag =
  nf_hash :: "byte list option"
  nf_dirty :: bool

datatype node =
    NilNode
  | ValueNode "byte list"
  | HashNode "byte list"
  | ShortNode "byte list" node nodeFlag
  | FullNode "node list" nodeFlag

definition newFlag :: nodeFlag where
  "newFlag = \<lparr>nf_hash = None, nf_dirty = True\<rparr>"

text \<open>The method cache of an interface value that is nil panics.\<close>

fun node_cache :: "node \<Rightarrow> (byte list option \<times> bool) option" where
  "node_cache NilNode = None"
| "node_cache (ValueNode v) = Some (None, True)"
| "node_cache (HashNode h) = Some (None, True)"
| "node_cache (ShortNode k v fl) = Some (nf_hash fl, nf_dirty fl)"
| "node_cache (FullNode cs fl) = Some (nf_hash fl, nf_dirty fl)"

text \<open>Indexing the array of children with a byte of the key; None is an index out of range.\<close>

definition child :: "node list \<Rightarrow> byte \<Rightarrow> node option" where
  "child cs b = (if unat b < length cs then Some (cs ! unat b) else None)"

subsection \<open>RLP\<close>

datatype rlp_kind = RlpByte | RlpString | RlpList

record rlp =
  rlp_WriteBytes :: "byte list \<Rightarrow> byte list"
  rlp_WriteList :: "byte list \<Rightarrow> byte list"
  rlp_EmptyString :: "byte list"
  rlp_Split :: "byte list \<Rightarrow> string + (rlp_kind \<times> byte list \<times> byte list)"
  rlp_SplitString :: "byte list \<Rightarrow> string + (byte list \<times> byte list)"
  rlp_SplitList :: "byte list \<Rightarrow> string + (byte list \<times> byte list)"
  rlp_CountValues :: "byte list \<Rightarrow> nat"

text \<open>
  WriteBytes appends the encoding of a byte string; a list is opened with List, receives its payload and is
  closed with ListEnd, which is \<open>rlp_WriteList\<close> of the payload. The laws are stated for contents shorter
  than \<open>2 ^ 32\<close> bytes.
\<close>

abbreviation rlp_fits :: "byte list \<Rightarrow> bool" where
  "rlp_fits s \<equiv> length s < 2 ^ 32"

definition rlp_item :: "rlp \<Rightarrow> byte list \<Rightarrow> bool" where
  "rlp_item L x \<longleftrightarrow> (\<exists>s. rlp_fits s \<and> (x = rlp_WriteBytes L s \<or> x = rlp_WriteList L s))"

definition rlp_ok :: "rlp \<Rightarrow> bool" where
  "rlp_ok L \<longleftrightarrow>
     rlp_WriteBytes L [] = rlp_EmptyString L \<and>
     (\<forall>s. rlp_fits s \<longrightarrow> length s < length (rlp_WriteList L s)) \<and>
     (\<forall>s. rlp_fits s \<longrightarrow> length (rlp_WriteBytes L s) \<le> length s + 5) \<and>
     (\<forall>s r. rlp_fits s \<longrightarrow> rlp_SplitString L (rlp_WriteBytes L s @ r) = Inr (s, r)) \<and>
     (\<forall>s r. rlp_fits s \<longrightarrow> rlp_SplitList L (rlp_WriteList L s @ r) = Inr (s, r)) \<and>
     (\<forall>s r. rlp_fits s \<longrightarrow>
        rlp_Split L (rlp_WriteBytes L s @ r) = Inr (if length s = 1 \<and> s ! 0 < 128 then RlpByte else RlpString, s, r)) \<and>
     (\<forall>s r. rlp_fits s \<longrightarrow> rlp_Split L (rlp_WriteList L s @ r) = Inr (RlpList, s, r)) \<and>
     (\<forall>xs. list_all (rlp_item L) xs \<longrightarrow> rlp_CountValues L (concat xs) = length xs)"

subsection \<open>Encoding (node_enc.go)\<close>

fun node_encode :: "rlp \<Rightarrow> node \<Rightarrow> byte list" where
  "node_encode L NilNode = rlp_EmptyString L"
| "node_encode L (ValueNode v) = rlp_WriteBytes L v"
| "node_encode L (HashNode h) = rlp_WriteBytes L h"
| "node_encode L (ShortNode k v fl) = rlp_WriteList L (rlp_WriteBytes L k @ node_encode L v)"
| "node_encode L (FullNode cs fl) = rlp_WriteList L (concat (map (node_encode L) cs))"

definition nodeToBytes :: "rlp \<Rightarrow> node \<Rightarrow> byte list" where
  "nodeToBytes L n = node_encode L n"

subsection \<open>Decoding\<close>

datatype decode_ctx = CtxShort | CtxFull | CtxVal | CtxIndex nat

datatype decode_error =
    ErrUnexpectedEOF
  | RlpError string
  | NotAList string
  | InvalidElements nat
  | InvalidValueNode string
  | OversizedEmbedded nat
  | InvalidStringSize nat
  | DecodeError decode_error "decode_ctx list"

fun wrapError :: "decode_error \<Rightarrow> decode_ctx \<Rightarrow> decode_error" where
  "wrapError (DecodeError what stack) ctx = DecodeError what (stack @ [ctx])"
| "wrapError err ctx = DecodeError err [ctx]"

text \<open>
  decodeRef, decodeShort and decodeFull call decodeNode again for a node that is embedded in its parent:
  that call is their argument \<open>rec\<close>. Its None is a decoder that does not return.
\<close>

definition decodeRef ::
  "rlp \<Rightarrow> (byte list \<Rightarrow> (decode_error + node) option) \<Rightarrow> byte list \<Rightarrow> (decode_error + (node \<times> byte list)) option" where
  "decodeRef L rec buf =
     (case rlp_Split L buf of
        Inl e \<Rightarrow> Some (Inl (RlpError e))
      | Inr (kind, val, rest) \<Rightarrow>
          if kind = RlpList then
            (let size = length buf - length rest
             in if size > 32 then Some (Inl (OversizedEmbedded size))
                else (case rec buf of
                        None \<Rightarrow> None
                      | Some (Inl e) \<Rightarrow> Some (Inl e)
                      | Some (Inr n) \<Rightarrow> Some (Inr (n, rest))))
          else if kind = RlpString \<and> length val = 0 then Some (Inr (NilNode, rest))
          else if kind = RlpString \<and> length val = 32 then Some (Inr (HashNode val, rest))
          else Some (Inl (InvalidStringSize (length val))))"

definition decodeShort ::
  "rlp \<Rightarrow> (byte list \<Rightarrow> (decode_error + node) option) \<Rightarrow> byte list option \<Rightarrow> byte list \<Rightarrow> (decode_error + node) option" where
  "decodeShort L rec hash elems =
     (case rlp_SplitString L elems of
        Inl e \<Rightarrow> Some (Inl (RlpError e))
      | Inr (kbuf, rest) \<Rightarrow>
          (let flag = \<lparr>nf_hash = hash, nf_dirty = False\<rparr>;
               key = compactToHex kbuf
           in if hasTerm key then
                (case rlp_SplitString L rest of
                   Inl e \<Rightarrow> Some (Inl (InvalidValueNode e))
                 | Inr (val, _) \<Rightarrow> Some (Inr (ShortNode key (ValueNode val) flag)))
              else
                (case decodeRef L rec rest of
                   None \<Rightarrow> None
                 | Some (Inl e) \<Rightarrow> Some (Inl (wrapError e CtxVal))
                 | Some (Inr (r, _)) \<Rightarrow> Some (Inr (ShortNode key r flag)))))"

text \<open>The loop over the sixteen children, from index \<open>i\<close> with \<open>k\<close> of them left.\<close>

fun decodeChildren ::
  "rlp \<Rightarrow> (byte list \<Rightarrow> (decode_error + node) option) \<Rightarrow> nat \<Rightarrow> nat \<Rightarrow> byte list \<Rightarrow>
   (decode_error + (node list \<times> byte list)) option" where
  "decodeChildren L rec 0 i elems = Some (Inr ([], elems))"
| "decodeChildren L rec (Suc k) i elems =
     (case decodeRef L rec elems of
        None \<Rightarrow> None
      | Some (Inl e) \<Rightarrow> Some (Inl (wrapError e (CtxIndex i)))
      | Some (Inr (cld, rest)) \<Rightarrow>
          (case decodeChildren L rec k (i + 1) rest of
             None \<Rightarrow> None
           | Some (Inl e) \<Rightarrow> Some (Inl e)
           | Some (Inr (cs, rest)) \<Rightarrow> Some (Inr (cld # cs, rest))))"

definition decodeFull ::
  "rlp \<Rightarrow> (byte list \<Rightarrow> (decode_error + node) option) \<Rightarrow> byte list option \<Rightarrow> byte list \<Rightarrow> (decode_error + node) option" where
  "decodeFull L rec hash elems =
     (case decodeChildren L rec 16 0 elems of
        None \<Rightarrow> None
      | Some (Inl e) \<Rightarrow> Some (Inl e)
      | Some (Inr (cs, elems)) \<Rightarrow>
          (case rlp_SplitString L elems of
             Inl e \<Rightarrow> Some (Inl (RlpError e))
           | Inr (val, _) \<Rightarrow>
               Some (Inr (FullNode (cs @ [if length val > 0 then ValueNode val else NilNode])
                 \<lparr>nf_hash = hash, nf_dirty = False\<rparr>))))"

text \<open>
  decodeNodeUnsafe with a bound on the depth of embedding. decodeNode bounds it by the length of the
  buffer: an embedded node is an element of the list that its parent is, so it is shorter.
\<close>

fun decodeNodeUnsafe :: "rlp \<Rightarrow> nat \<Rightarrow> byte list option \<Rightarrow> byte list \<Rightarrow> (decode_error + node) option" where
  "decodeNodeUnsafe L 0 hash buf = None"
| "decodeNodeUnsafe L (Suc d) hash buf =
     (if length buf = 0 then Some (Inl ErrUnexpectedEOF)
      else
        case rlp_SplitList L buf of
          Inl e \<Rightarrow> Some (Inl (NotAList e))
        | Inr (elems, _) \<Rightarrow>
            let c = rlp_CountValues L elems
            in if c = 2 then map_option (map_sum (\<lambda>e. wrapError e CtxShort) id) (decodeShort L (decodeNodeUnsafe L d None) hash elems)
               else if c = 17 then map_option (map_sum (\<lambda>e. wrapError e CtxFull) id) (decodeFull L (decodeNodeUnsafe L d None) hash elems)
               else Some (Inl (InvalidElements c)))"

definition decodeNode :: "rlp \<Rightarrow> byte list option \<Rightarrow> byte list \<Rightarrow> (decode_error + node) option" where
  "decodeNode L hash buf = decodeNodeUnsafe L (Suc (length buf)) hash buf"

definition mustDecodeNode :: "rlp \<Rightarrow> byte list option \<Rightarrow> byte list \<Rightarrow> node option" where
  "mustDecodeNode L hash buf =
     (case decodeNode L hash buf of Some (Inr n) \<Rightarrow> Some n | _ \<Rightarrow> None)"

subsection \<open>The reader\<close>

datatype trie_error =
    ErrCommitted
  | MissingNodeError hash hash "byte list" "string option"
  | NonConsensusNode

record trieReader =
  rd_owner :: hash
  rd_reader :: "(hash \<Rightarrow> byte list \<Rightarrow> hash \<Rightarrow> string + byte list) option"
  rd_banned :: "byte list set option"

definition reader_node :: "trieReader \<Rightarrow> byte list \<Rightarrow> hash \<Rightarrow> trie_error + byte list" where
  "reader_node r path h =
     (if (case rd_banned r of None \<Rightarrow> False | Some b \<Rightarrow> path \<in> b) then Inl (MissingNodeError (rd_owner r) h path None)
      else case rd_reader r of
        None \<Rightarrow> Inl (MissingNodeError (rd_owner r) h path None)
      | Some reader \<Rightarrow>
          (case reader (rd_owner r) path h of
             Inl e \<Rightarrow> Inl (MissingNodeError (rd_owner r) h path (Some e))
           | Inr blob \<Rightarrow> if length blob = 0 then Inl (MissingNodeError (rd_owner r) h path None) else Inr blob))"

subsection \<open>The tracer\<close>

record tracer =
  tc_inserts :: "byte list set"
  tc_deletes :: "byte list list"
  tc_accessList :: "byte list \<rightharpoonup> byte list"

definition newTracer :: tracer where
  "newTracer = \<lparr>tc_inserts = {}, tc_deletes = [], tc_accessList = Map.empty\<rparr>"

definition onRead :: "tracer \<Rightarrow> byte list \<Rightarrow> byte list \<Rightarrow> tracer" where
  "onRead t path val = t\<lparr>tc_accessList := (tc_accessList t)(path \<mapsto> val)\<rparr>"

definition onInsert :: "tracer \<Rightarrow> byte list \<Rightarrow> tracer" where
  "onInsert t path =
     (if path \<in> set (tc_deletes t) then t\<lparr>tc_deletes := removeAll path (tc_deletes t)\<rparr>
      else t\<lparr>tc_inserts := insert path (tc_inserts t)\<rparr>)"

definition onDelete :: "tracer \<Rightarrow> byte list \<Rightarrow> tracer" where
  "onDelete t path =
     (if path \<in> tc_inserts t then t\<lparr>tc_inserts := tc_inserts t - {path}\<rparr>
      else t\<lparr>tc_deletes := List.insert path (tc_deletes t)\<rparr>)"

definition tracer_reset :: "tracer \<Rightarrow> tracer" where
  "tracer_reset t = t\<lparr>tc_inserts := {}, tc_deletes := [], tc_accessList := Map.empty\<rparr>"

definition deletedNodes :: "tracer \<Rightarrow> byte list list" where
  "deletedNodes t = filter (\<lambda>path. tc_accessList t path \<noteq> None) (tc_deletes t)"

end
