(* ===== verification/Trie.thy ===== *)
theory Trie
  imports TrieNode "HOL-Library.Monad_Syntax"
begin

text \<open>
  The operations of a trie (trie/trie.go). The recursive ones load the nodes they meet from the reader, so
  nothing bounds them by the size of a node in memory: they are partial functions whose None is a panic or
  a recursion that does not end. They return the tracer they updated with an error or a result; what the
  sources return beside an error is not looked at by any caller.
\<close>

record Trie =
  t_root :: node
  t_owner :: hash
  t_committed :: bool
  t_unhashed :: int
  t_reader :: trieReader
  t_tracer :: tracer

subsection \<open>Loading nodes\<close>

definition resolveAndTrack ::
  "rlp \<Rightarrow> trieReader \<Rightarrow> tracer \<Rightarrow> byte list \<Rightarrow> byte list \<Rightarrow> (tracer \<times> (trie_error + node)) option" where
  "resolveAndTrack L r tr n prefix =
     (case reader_node r prefix (BytesToHash n) of
        Inl e \<Rightarrow> Some (tr, Inl e)
      | Inr blob \<Rightarrow> map_option (\<lambda>m. (onRead tr prefix blob, Inr m)) (mustDecodeNode L (Some n) blob))"

definition resolve :: "rlp \<Rightarrow> trieReader \<Rightarrow> tracer \<Rightarrow> node \<Rightarrow> byte list \<Rightarrow> (tracer \<times> (trie_error + node)) option" where
  "resolve L r tr n prefix =
     (case n of HashNode h \<Rightarrow> resolveAndTrack L r tr h prefix | _ \<Rightarrow> Some (tr, Inr n))"

subsection \<open>Reading\<close>

partial_function (option) trie_get ::
  "rlp \<Rightarrow> trieReader \<Rightarrow> tracer \<Rightarrow> node \<Rightarrow> byte list \<Rightarrow> nat \<Rightarrow>
   (tracer \<times> (trie_error + (byte list option \<times> node \<times> bool))) option" where
  [code]: "trie_get L r tr n key pos =
     (case n of
        NilNode \<Rightarrow> Some (tr, Inr (None, NilNode, False))
      | ValueNode v \<Rightarrow> Some (tr, Inr (Some v, n, False))
      | ShortNode k c fl \<Rightarrow>
          if length key < pos + length k \<or> k \<noteq> take (length k) (drop pos key)
          then Some (tr, Inr (None, n, False))
          else
            trie_get L r tr c key (pos + length k) \<bind> (\<lambda>(tr, res).
            Some (tr, map_sum id (\<lambda>(value, newnode, didResolve).
              (value, if didResolve then ShortNode k newnode fl else n, didResolve)) res))
      | FullNode cs fl \<Rightarrow>
          if length key \<le> pos then None
          else
            child cs (key ! pos) \<bind> (\<lambda>c.
            trie_get L r tr c key (pos + 1) \<bind> (\<lambda>(tr, res).
            Some (tr, map_sum id (\<lambda>(value, newnode, didResolve).
              (value, if didResolve then FullNode (cs[unat (key ! pos) := newnode]) fl else n, didResolve)) res)))
      | HashNode h \<Rightarrow>
          resolveAndTrack L r tr h (take pos key) \<bind> (\<lambda>(tr, res).
          case res of
            Inl e \<Rightarrow> Some (tr, Inl e)
          | Inr m \<Rightarrow>
              trie_get L r tr m key pos \<bind> (\<lambda>(tr, res).
              Some (tr, map_sum id (\<lambda>(value, newnode, _). (value, newnode, True)) res))))"

definition Get :: "rlp \<Rightarrow> Trie \<Rightarrow> byte list \<Rightarrow> (Trie \<times> (trie_error + byte list option)) option" where
  "Get L t key =
     (if t_committed t then Some (t, Inl ErrCommitted)
      else
        trie_get L (t_reader t) (t_tracer t) (t_root t) (keybytesToHex key) 0 \<bind> (\<lambda>(tr, res).
        let t = t\<lparr>t_tracer := tr\<rparr>
        in Some (case res of
             Inl e \<Rightarrow> (t, Inl e)
           | Inr (value, newroot, didResolve) \<Rightarrow> (if didResolve then t\<lparr>t_root := newroot\<rparr> else t, Inr value))))"

text \<open>GetNode returns the stored encoding of the node at a path, and how many nodes it loaded.\<close>

partial_function (option) trie_getNode ::
  "rlp \<Rightarrow> trieReader \<Rightarrow> tracer \<Rightarrow> node \<Rightarrow> byte list \<Rightarrow> nat \<Rightarrow>
   (tracer \<times> nat \<times> (trie_error + (byte list option \<times> node))) option" where
  [code]: "trie_getNode L r tr n path pos =
     (if n = NilNode then Some (tr, 0, Inr (None, NilNode))
      else if length path \<le> pos then
        (case (case n of HashNode h \<Rightarrow> Some h | _ \<Rightarrow> (case node_cache n of None \<Rightarrow> None | Some (h, _) \<Rightarrow> h)) of
           None \<Rightarrow> Some (tr, 0, Inl NonConsensusNode)
         | Some h \<Rightarrow> Some (tr, 1, map_sum id (\<lambda>blob. (Some blob, n)) (reader_node r path (BytesToHash h))))
      else
        (case n of
           ShortNode k c fl \<Rightarrow>
             if length path < pos + length k \<or> k \<noteq> take (length k) (drop pos path)
             then Some (tr, 0, Inr (None, n))
             else
               trie_getNode L r tr c path (pos + length k) \<bind> (\<lambda>(tr, resolved, res).
               Some (tr, resolved, map_sum id (\<lambda>(item, newnode).
                 (item, if 0 < resolved then ShortNode k newnode fl else n)) res))
         | FullNode cs fl \<Rightarrow>
             child cs (path ! pos) \<bind> (\<lambda>c.
             trie_getNode L r tr c path (pos + 1) \<bind> (\<lambda>(tr, resolved, res).
             Some (tr, resolved, map_sum id (\<lambda>(item, newnode).
               (item, if 0 < resolved then FullNode (cs[unat (path ! pos) := newnode]) fl else n)) res)))
         | HashNode h \<Rightarrow>
             resolveAndTrack L r tr h (take pos path) \<bind> (\<lambda>(tr, res).
             case res of
               Inl e \<Rightarrow> Some (tr, 1, Inl e)
             | Inr m \<Rightarrow>
                 trie_getNode L r tr m path pos \<bind> (\<lambda>(tr, resolved, res). Some (tr, resolved + 1, res)))
         | _ \<Rightarrow> Some (tr, 0, Inr (None, NilNode))))"

definition GetNode :: "rlp \<Rightarrow> Trie \<Rightarrow> byte list \<Rightarrow> (Trie \<times> nat \<times> (trie_error + byte list option)) option" where
  "GetNode L t path =
     (if t_committed t then Some (t, 0, Inl ErrCommitted)
      else
        trie_getNode L (t_reader t) (t_tracer t) (t_root t) (compactToHex path) 0 \<bind> (\<lambda>(tr, resolved, res).
        let t = t\<lparr>t_tracer := tr\<rparr>
        in Some (case res of
             Inl e \<Rightarrow> (t, resolved, Inl e)
           | Inr (item, newroot) \<Rightarrow> (if 0 < resolved then t\<lparr>t_root := newroot\<rparr> else t, resolved, Inr item))))"

subsection \<open>Inserting\<close>

partial_function (option) trie_insert ::
  "rlp \<Rightarrow> trieReader \<Rightarrow> tracer \<Rightarrow> node \<Rightarrow> byte list \<Rightarrow> byte list \<Rightarrow> node \<Rightarrow>
   (tracer \<times> (trie_error + (bool \<times> node))) option" where
  [code]: "trie_insert L r tr n prefix key value =
     (if key = [] then
        (case n of
           ValueNode v \<Rightarrow> (case value of ValueNode w \<Rightarrow> Some (tr, Inr (v \<noteq> w, value)) | _ \<Rightarrow> None)
         | _ \<Rightarrow> Some (tr, Inr (True, value)))
      else
        (case n of
           ShortNode k c fl \<Rightarrow>
             (let matchlen = prefixLen key k in
              if matchlen = length k then
                trie_insert L r tr c (prefix @ take matchlen key) (drop matchlen key) value \<bind> (\<lambda>(tr, res).
                Some (tr, map_sum id (\<lambda>(dirty, nn).
                  if dirty then (True, ShortNode k nn newFlag) else (False, n)) res))
              else if length key \<le> matchlen \<or> 17 \<le> unat (k ! matchlen) \<or> 17 \<le> unat (key ! matchlen) then None
              else
                trie_insert L r tr NilNode (prefix @ take (matchlen + 1) k) (drop (matchlen + 1) k) c \<bind> (\<lambda>(tr, res).
                case res of
                  Inl e \<Rightarrow> Some (tr, Inl e)
                | Inr (_, c1) \<Rightarrow>
                    trie_insert L r tr NilNode (prefix @ take (matchlen + 1) key) (drop (matchlen + 1) key) value \<bind> (\<lambda>(tr, res).
                    case res of
                      Inl e \<Rightarrow> Some (tr, Inl e)
                    | Inr (_, c2) \<Rightarrow>
                        let branch = FullNode ((replicate 17 NilNode)[unat (k ! matchlen) := c1, unat (key ! matchlen) := c2]) newFlag
                        in if matchlen = 0 then Some (tr, Inr (True, branch))
                           else Some (onInsert tr (prefix @ take matchlen key),
                                      Inr (True, ShortNode (take matchlen key) branch newFlag)))))
         | FullNode cs fl \<Rightarrow>
             child cs (key ! 0) \<bind> (\<lambda>c.
             trie_insert L r tr c (prefix @ [key ! 0]) (drop 1 key) value \<bind> (\<lambda>(tr, res).
             Some (tr, map_sum id (\<lambda>(dirty, nn).
               if dirty then (True, FullNode (cs[unat (key ! 0) := nn]) newFlag) else (False, n)) res)))
         | NilNode \<Rightarrow> Some (onInsert tr prefix, Inr (True, ShortNode key value newFlag))
         | HashNode h \<Rightarrow>
             resolveAndTrack L r tr h prefix \<bind> (\<lambda>(tr, res).
             case res of
               Inl e \<Rightarrow> Some (tr, Inl e)
             | Inr rn \<Rightarrow>
                 trie_insert L r tr rn prefix key value \<bind> (\<lambda>(tr, res).
                 Some (tr, map_sum id (\<lambda>(dirty, nn). if dirty then (True, nn) else (False, rn)) res)))
         | ValueNode _ \<Rightarrow> None))"

subsection \<open>Deleting\<close>

text \<open>The loop that looks for the single child left: its index, -1 without any child, -2 with several.\<close>

fun reduce_pos :: "nat \<Rightarrow> int \<Rightarrow> node list \<Rightarrow> int" where
  "reduce_pos i pos [] = pos"
| "reduce_pos i pos (cld # cs) =
     (if cld \<noteq> NilNode then (if pos = -1 then reduce_pos (i + 1) (int i) cs else -2)
      else reduce_pos (i + 1) pos cs)"

definition concat_bytes :: "byte list \<Rightarrow> byte list \<Rightarrow> byte list" where
  "concat_bytes s1 s2 = s1 @ s2"

text \<open>What delete does with a full node that has lost the child at the head of the key.\<close>

definition reduceFull ::
  "rlp \<Rightarrow> trieReader \<Rightarrow> tracer \<Rightarrow> byte list \<Rightarrow> node list \<Rightarrow> (tracer \<times> (trie_error + (bool \<times> node))) option" where
  "reduceFull L r tr prefix cs =
     (let pos = reduce_pos 0 (-1) cs in
      if 0 \<le> pos then
        (let p = nat pos; single = ShortNode [of_nat p] (cs ! p) newFlag in
         if p \<noteq> 16 then
           resolve L r tr (cs ! p) (prefix @ [of_nat p]) \<bind> (\<lambda>(tr, res).
           case res of
             Inl e \<Rightarrow> Some (tr, Inl e)
           | Inr (ShortNode k c _) \<Rightarrow>
               Some (onDelete tr (prefix @ [of_nat p]), Inr (True, ShortNode ([of_nat p] @ k) c newFlag))
           | Inr _ \<Rightarrow> Some (tr, Inr (True, single)))
         else Some (tr, Inr (True, single)))
      else Some (tr, Inr (True, FullNode cs newFlag)))"

partial_function (option) trie_delete ::
  "rlp \<Rightarrow> trieReader \<Rightarrow> tracer \<Rightarrow> node \<Rightarrow> byte list \<Rightarrow> byte list \<Rightarrow> (tracer \<times> (trie_error + (bool \<times> node))) option" where
  [code]: "trie_delete L r tr n prefix key =
     (case n of
        ShortNode k c fl \<Rightarrow>
          (let matchlen = prefixLen key k in
           if matchlen < length k then Some (tr, Inr (False, n))
           else if matchlen = length key then Some (onDelete tr prefix, Inr (True, NilNode))
           else
             trie_delete L r tr c (prefix @ take (length k) key) (drop (length k) key) \<bind> (\<lambda>(tr, res).
             Some (case res of
               Inl e \<Rightarrow> (tr, Inl e)
             | Inr (dirty, nn) \<Rightarrow>
                 if \<not> dirty then (tr, Inr (False, n))
                 else
                   (case nn of
                      ShortNode k' c' _ \<Rightarrow> (onDelete tr (prefix @ k), Inr (True, ShortNode (concat_bytes k k') c' newFlag))
                    | _ \<Rightarrow> (tr, Inr (True, ShortNode k nn newFlag))))))
      | FullNode cs fl \<Rightarrow>
          if key = [] then None
          else
            child cs (key ! 0) \<bind> (\<lambda>c.
            trie_delete L r tr c (prefix @ [key ! 0]) (drop 1 key) \<bind> (\<lambda>(tr, res).
            case res of
              Inl e \<Rightarrow> Some (tr, Inl e)
            | Inr (dirty, nn) \<Rightarrow>
                if \<not> dirty then Some (tr, Inr (False, n))
                else
                  (let cs = cs[unat (key ! 0) := nn]
                   in if nn \<noteq> NilNode then Some (tr, Inr (True, FullNode cs newFlag))
                      else reduceFull L r tr prefix cs)))
      | ValueNode _ \<Rightarrow> Some (tr, Inr (True, NilNode))
      | NilNode \<Rightarrow> Some (tr, Inr (False, NilNode))
      | HashNode h \<Rightarrow>
          resolveAndTrack L r tr h prefix \<bind> (\<lambda>(tr, res).
          case res of
            Inl e \<Rightarrow> Some (tr, Inl e)
          | Inr rn \<Rightarrow>
              trie_delete L r tr rn prefix key \<bind> (\<lambda>(tr, res).
              Some (tr, map_sum id (\<lambda>(dirty, nn). if dirty then (True, nn) else (False, rn)) res))))"

definition setRoot :: "Trie \<Rightarrow> tracer \<times> (trie_error + (bool \<times> node)) \<Rightarrow> Trie \<times> trie_error option" where
  "setRoot t out =
     (case out of
        (tr, Inl e) \<Rightarrow> (t\<lparr>t_tracer := tr\<rparr>, Some e)
      | (tr, Inr (_, n)) \<Rightarrow> (t\<lparr>t_tracer := tr, t_root := n\<rparr>, None))"

definition trie_update :: "rlp \<Rightarrow> Trie \<Rightarrow> byte list \<Rightarrow> byte list \<Rightarrow> (Trie \<times> trie_error option) option" where
  "trie_update L t key value =
     (let t = t\<lparr>t_unhashed := t_unhashed t + 1\<rparr>; k = keybytesToHex key
      in if length value \<noteq> 0
         then map_option (setRoot t) (trie_insert L (t_reader t) (t_tracer t) (t_root t) [] k (ValueNode value))
         else map_option (setRoot t) (trie_delete L (t_reader t) (t_tracer t) (t_root t) [] k))"

definition Update :: "rlp \<Rightarrow> Trie \<Rightarrow> byte list \<Rightarrow> byte list \<Rightarrow> (Trie \<times> trie_error option) option" where
  "Update L t key value = (if t_committed t then Some (t, Some ErrCommitted) else trie_update L t key value)"

definition Delete :: "rlp \<Rightarrow> Trie \<Rightarrow> byte list \<Rightarrow> (Trie \<times> trie_error option) option" where
  "Delete L t key =
     (if t_committed t then Some (t, Some ErrCommitted)
      else
        (let t = t\<lparr>t_unhashed := t_unhashed t + 1\<rparr>; k = keybytesToHex key
         in map_option (setRoot t) (trie_delete L (t_reader t) (t_tracer t) (t_root t) [] k)))"

subsection \<open>Opening and resetting\<close>

record trie_ID =
  id_StateRoot :: hash
  id_Owner :: hash
  id_Root :: hash

text \<open>The Reader method of the database is an argument.\<close>

definition newTrieReader ::
  "hash \<Rightarrow> hash \<Rightarrow> (hash \<Rightarrow> string + (hash \<Rightarrow> byte list \<Rightarrow> hash \<Rightarrow> string + byte list)) \<Rightarrow> trie_error + trieReader" where
  "newTrieReader stateRoot owner db =
     (if stateRoot = 0 \<or> stateRoot = EmptyRootHash then Inr \<lparr>rd_owner = owner, rd_reader = None, rd_banned = None\<rparr>
      else case db stateRoot of
        Inl e \<Rightarrow> Inl (MissingNodeError owner stateRoot [] (Some e))
      | Inr reader \<Rightarrow> Inr \<lparr>rd_owner = owner, rd_reader = Some reader, rd_banned = None\<rparr>)"

definition trie_New ::
  "rlp \<Rightarrow> trie_ID \<Rightarrow> (hash \<Rightarrow> string + (hash \<Rightarrow> byte list \<Rightarrow> hash \<Rightarrow> string + byte list)) \<Rightarrow> (trie_error + Trie) option" where
  "trie_New L i db =
     (case newTrieReader (id_StateRoot i) (id_Owner i) db of
        Inl e \<Rightarrow> Some (Inl e)
      | Inr reader \<Rightarrow>
          (let trie = \<lparr>t_root = NilNode, t_owner = id_Owner i, t_committed = False, t_unhashed = 0,
                       t_reader = reader, t_tracer = newTracer\<rparr>
           in if id_Root i \<noteq> 0 \<and> id_Root i \<noteq> EmptyRootHash
              then resolveAndTrack L reader newTracer (hashBytes (id_Root i)) [] \<bind> (\<lambda>(tr, res).
                   Some (map_sum id (\<lambda>rootnode. trie\<lparr>t_root := rootnode, t_tracer := tr\<rparr>) res))
              else Some (Inr trie)))"

text \<open>NewEmpty drops the error of New and returns its trie, which is nil with an error.\<close>

definition NewEmpty :: "rlp \<Rightarrow> (hash \<Rightarrow> string + (hash \<Rightarrow> byte list \<Rightarrow> hash \<Rightarrow> string + byte list)) \<Rightarrow> Trie option" where
  "NewEmpty L db =
     (case trie_New L \<lparr>id_StateRoot = EmptyRootHash, id_Owner = 0, id_Root = EmptyRootHash\<rparr> db of
        Some (Inr t) \<Rightarrow> Some t
      | _ \<Rightarrow> None)"

definition trie_Copy :: "Trie \<Rightarrow> Trie" where
  "trie_Copy t =
     \<lparr>t_root = t_root t, t_owner = t_owner t, t_committed = t_committed t, t_unhashed = t_unhashed t,
      t_reader = t_reader t, t_tracer = t_tracer t\<rparr>"

definition trie_Reset :: "Trie \<Rightarrow> Trie" where
  "trie_Reset t =
     t\<lparr>t_root := NilNode, t_owner := 0, t_unhashed := 0, t_tracer := tracer_reset (t_tracer t), t_committed := False\<rparr>"

end
