(* ===== verification/TrieSpec.thy ===== *)
theory TrieSpec
  imports TrieEncoding
begin

text \<open>
  What a trie is in the abstract: a tree without hashes, cached flags or anything left to load. The
  operations of trie.go refine the ones below; here they are shown to act on the keys as a finite map does,
  to keep the tree canonical, and a canonical tree is shown to be determined by its keys and values.
\<close>

datatype ptrie =
    PNil
  | PVal "byte list"
  | PShort "byte list" ptrie
  | PFull "ptrie list"

text \<open>Keys in hex encoding with their terminator.\<close>

fun tkey :: "byte list \<Rightarrow> bool" where
  "tkey [] = False"
| "tkey (b # s) = (if s = [] then b = 16 else b < 16 \<and> tkey s)"

fun plookup :: "ptrie \<Rightarrow> byte list \<Rightarrow> byte list option" where
  "plookup PNil s = None"
| "plookup (PVal v) s = (if s = [] then Some v else None)"
| "plookup (PShort k t) s = (if take (length k) s = k then plookup t (drop (length k) s) else None)"
| "plookup (PFull ts) s = (if s \<noteq> [] \<and> unat (s ! 0) < length ts then plookup (ts ! unat (s ! 0)) (drop 1 s) else None)"

text \<open>
  Canonical trees: every value is behind the terminator and not empty, a key leads to a value or to a
  branch, and a branch has two children at least.
\<close>

definition is_leaf :: "ptrie \<Rightarrow> bool" where
  "is_leaf t \<longleftrightarrow> (\<exists>v. t = PVal v \<and> v \<noteq> [])"

definition branches :: "ptrie list \<Rightarrow> bool" where
  "branches ts \<longleftrightarrow> (\<exists>i j. i < j \<and> j < length ts \<and> ts ! i \<noteq> PNil \<and> ts ! j \<noteq> PNil)"

fun pnode :: "ptrie \<Rightarrow> bool" where
  "pnode PNil = False"
| "pnode (PVal v) = False"
| "pnode (PShort k t) = (tkey k \<and> is_leaf t \<or> k \<noteq> [] \<and> nibbles k \<and> (\<exists>ts. t = PFull ts) \<and> pnode t)"
| "pnode (PFull ts) =
     (length ts = 17 \<and> (\<forall>t \<in> set ts. t = PNil \<or> is_leaf t \<or> pnode t) \<and>
      (\<forall>i < 16. \<not> is_leaf (ts ! i)) \<and> (ts ! 16 = PNil \<or> is_leaf (ts ! 16)) \<and> branches ts)"

definition pwf :: "ptrie \<Rightarrow> bool" where
  "pwf t \<longleftrightarrow> t = PNil \<or> pnode t"

definition pshort :: "byte list \<Rightarrow> ptrie \<Rightarrow> ptrie" where
  "pshort k t = (if k = [] then t else PShort k t)"

definition pbranch :: "byte \<Rightarrow> ptrie \<Rightarrow> byte \<Rightarrow> ptrie \<Rightarrow> ptrie" where
  "pbranch b t b' t' = PFull ((replicate 17 PNil)[unat b := t, unat b' := t'])"

fun pinsert :: "ptrie \<Rightarrow> byte list \<Rightarrow> byte list \<Rightarrow> ptrie" where
  "pinsert PNil s v = pshort s (PVal v)"
| "pinsert (PVal w) s v = PVal v"
| "pinsert (PShort k t) s v =
     (let m = prefixLen s k in
      if m = length k then PShort k (pinsert t (drop m s) v)
      else pshort (take m s)
             (pbranch (k ! m) (pshort (drop (m + 1) k) t) (s ! m) (pshort (drop (m + 1) s) (PVal v))))"
| "pinsert (PFull ts) s v =
     (if s \<noteq> [] \<and> unat (s ! 0) < length ts then PFull (ts[unat (s ! 0) := pinsert (ts ! unat (s ! 0)) (drop 1 s) v]) else PFull ts)"

definition pjoin :: "byte list \<Rightarrow> ptrie \<Rightarrow> ptrie" where
  "pjoin k t = (case t of PShort k' t' \<Rightarrow> PShort (k @ k') t' | _ \<Rightarrow> PShort k t)"

definition preduce :: "ptrie list \<Rightarrow> ptrie" where
  "preduce ts =
     (case filter (\<lambda>i. ts ! i \<noteq> PNil) [0..<length ts] of
        [i] \<Rightarrow> pjoin [of_nat i] (ts ! i)
      | _ \<Rightarrow> PFull ts)"

fun pdel :: "ptrie \<Rightarrow> byte list \<Rightarrow> ptrie" where
  "pdel PNil s = PNil"
| "pdel (PVal w) s = PNil"
| "pdel (PShort k t) s = (if s = k then PNil else pjoin k (pdel t (drop (length k) s)))"
| "pdel (PFull ts) s =
     (if s \<noteq> [] \<and> unat (s ! 0) < length ts
      then let t' = pdel (ts ! unat (s ! 0)) (drop 1 s); ts' = ts[unat (s ! 0) := t']
           in if t' \<noteq> PNil then PFull ts' else preduce ts'
      else PFull ts)"

definition pdelete :: "ptrie \<Rightarrow> byte list \<Rightarrow> ptrie" where
  "pdelete t s = (if plookup t s = None then t else pdel t s)"

subsection \<open>Keys\<close>

lemma tkey_nonempty [simp]: "tkey s \<Longrightarrow> s \<noteq> []"
  by (cases s) auto

lemma tkey_iff: "tkey s \<longleftrightarrow> (\<exists>ns. nibbles ns \<and> s = ns @ [16])"
proof (induction s rule: tkey.induct)
  case (2 b s)
  have "(\<exists>ns. nibbles ns \<and> b # s = ns @ [16]) \<longleftrightarrow> (if s = [] then b = 16 else b < 16 \<and> (\<exists>ns. nibbles ns \<and> s = ns @ [16]))"
    by (cases "s = []") (auto simp: Cons_eq_append_conv)
  with 2 show ?case by (cases "s = []") auto
qed simp

lemma tkey_keybytesToHex [simp]: "tkey (keybytesToHex key)"
  using nibbles_keyNibbles by (auto simp: tkey_iff keybytesToHex_def)

lemma tkey_append: "s \<noteq> [] \<Longrightarrow> tkey (k @ s) \<longleftrightarrow> nibbles k \<and> tkey s"
  by (induction k) (auto split: if_splits)

lemma tkey_head: "tkey (b # s) \<Longrightarrow> unat b < 17"
  by (auto simp: word_less_nat_alt split: if_splits)

lemma not_tkey_nibbles: "nibbles k \<Longrightarrow> \<not> tkey k"
  by (auto simp: tkey_iff)

lemma take_eq_appendE: "take (length k) s = k \<Longrightarrow> (\<And>r. s = k @ r \<Longrightarrow> thesis) \<Longrightarrow> thesis"
  by (metis append_take_drop_id)

lemma take_drop_exact: "take (length k) s = k \<and> drop (length k) s = [] \<longleftrightarrow> s = k"
  using append_take_drop_id [of "length k" s] by auto

lemma prefixLen_split:
  "prefixLen s k \<le> length s \<and> prefixLen s k \<le> length k \<and> take (prefixLen s k) s = take (prefixLen s k) k \<and>
   (prefixLen s k < length s \<longrightarrow> prefixLen s k < length k \<longrightarrow> s ! prefixLen s k \<noteq> k ! prefixLen s k)"
  by (induction s k rule: prefixLen.induct) auto

lemma prefixLen_full: "prefixLen s k = length k \<longleftrightarrow> take (length k) s = k"
  by (induction s k rule: prefixLen.induct) auto

text \<open>A terminated key that is not an extension of the key of a short node leaves it before either ends.\<close>

lemma prefixLen_branch:
  assumes "tkey s" "tkey k \<or> nibbles k" "prefixLen s k \<noteq> length k"
  shows "\<exists>p b b' s' k'. nibbles p \<and> s = p @ b # s' \<and> k = p @ b' # k' \<and> b \<noteq> b' \<and> length p = prefixLen s k"
proof -
  let ?m = "prefixLen s k"
  note m = prefixLen_split [of s k]
  have k: "?m < length k" using m assms(3) by linarith
  have s: "?m < length s"
  proof (rule ccontr)
    assume "\<not> ?m < length s"
    with m have "take (length s) k = s" by (metis le_antisym not_less take_all_iff le_refl)
    then obtain r where r: "k = s @ r" by (rule take_eq_appendE)
    with k m \<open>\<not> ?m < length s\<close> have "r \<noteq> []" by auto
    with assms(1,2) r have "nibbles s" using tkey_append [of r s] by (auto simp: tkey_nonempty)
    with assms(1) show False using not_tkey_nibbles by blast
  qed
  have "s = take ?m s @ s ! ?m # drop (Suc ?m) s" "k = take ?m s @ k ! ?m # drop (Suc ?m) k"
    using s k m by (metis id_take_nth_drop)+
  moreover have "nibbles (take ?m s)"
    using assms(1) tkey_append [of "drop ?m s" "take ?m s"] s by (cases "take ?m s = []") auto
  ultimately show ?thesis using m s k by (metis length_take min.absorb2 less_imp_le)
qed

subsection \<open>Lookup\<close>

lemma plookup_short_append [simp]: "plookup (PShort k t) (k @ s) = plookup t s"
  by simp

lemma plookup_pshort: "plookup (pshort k t) s = (if take (length k) s = k then plookup t (drop (length k) s) else None)"
  by (simp add: pshort_def)

lemma plookup_pjoin: "plookup (pjoin k t) s = plookup (PShort k t) s"
proof -
  have "take (length k + length k') s = k @ k' \<longleftrightarrow> take (length k) s = k \<and> take (length k') (drop (length k) s) = k'" for k'
  proof
    assume "take (length k + length k') s = k @ k'"
    then obtain r where "s = (k @ k') @ r" by (metis append_take_drop_id)
    then show "take (length k) s = k \<and> take (length k') (drop (length k) s) = k'" by simp
  qed (simp add: take_add)
  then show ?thesis by (auto simp: pjoin_def add.commute split: ptrie.splits)
qed

lemma pnode_leaf: "is_leaf t \<Longrightarrow> \<not> pnode t \<and> t \<noteq> PNil"
  by (auto simp: is_leaf_def)

lemma pnode_full_child:
  assumes "pnode (PFull ts)" "i < 17"
  shows "if i = 16 then ts ! i = PNil \<or> is_leaf (ts ! i) else ts ! i = PNil \<or> pnode (ts ! i)"
  using assms nth_mem [of i ts] by (cases "i = 16") auto

text \<open>Every key of a canonical tree is terminated.\<close>

lemma plookup_tkey: "pnode t \<Longrightarrow> plookup t s = Some v \<Longrightarrow> tkey s"
proof (induction t s rule: plookup.induct)
  case (3 k t s)
  then obtain r where r: "s = k @ r" by (auto elim: take_eq_appendE split: if_splits)
  show ?case
  proof (cases "tkey k \<and> is_leaf t")
    case True
    with 3 r show ?thesis by (auto simp: is_leaf_def split: if_splits)
  next
    case False
    with 3 r have "tkey r" "nibbles k" "k \<noteq> []" by auto
    with r show ?thesis by (simp add: tkey_append)
  qed
next
  case (4 ts s)
  then obtain b r where s: "s = b # r" by (cases s) auto
  with 4 have b: "unat b < 17" and l: "plookup (ts ! unat b) r = Some v" by (auto split: if_splits)
  show ?case
  proof (cases "unat b = 16")
    case True
    then have "b = 16" by (simp add: word_unat_eq_iff)
    with l True 4(2) pnode_full_child [of ts 16] s show ?thesis by (auto simp: is_leaf_def split: if_splits)
  next
    case False
    with b have "b < 16" by (simp add: word_less_nat_alt)
    moreover from pnode_full_child [OF 4(2) b] False l have "pnode (ts ! unat b)" by auto
    ultimately show ?thesis using 4 s b l by auto
  qed
qed (auto simp: is_leaf_def)

subsection \<open>Insertion\<close>

text \<open>A key and the part of the tree that it leads to.\<close>

definition pfits :: "byte list \<Rightarrow> ptrie \<Rightarrow> bool" where
  "pfits s t \<longleftrightarrow> (if s = [] then t = PNil \<or> is_leaf t else tkey s \<and> pwf t)"

lemma pfits_cases:
  "pfits s PNil \<longleftrightarrow> s = [] \<or> tkey s"
  "pfits s (PVal v) \<longleftrightarrow> s = [] \<and> v \<noteq> []"
  "pfits s (PShort k t) \<longleftrightarrow> tkey s \<and> pnode (PShort k t)"
  "pfits s (PFull ts) \<longleftrightarrow> tkey s \<and> pnode (PFull ts)"
  by (auto simp: pfits_def pwf_def is_leaf_def)

lemma pfits_full:
  assumes "pnode (PFull ts)" "tkey s"
  shows "\<exists>b r. s = b # r \<and> unat b < 17 \<and> pfits r (ts ! unat b) \<and> (unat b = 16 \<longleftrightarrow> r = [])"
proof -
  obtain b r where s: "s = b # r" using assms(2) by (cases s) auto
  with assms(2) have b: "unat b < 17" by (simp add: tkey_head)
  have "(r = []) = (unat b = 16)" "r \<noteq> [] \<Longrightarrow> tkey r"
    using assms(2) s by (auto simp: word_less_nat_alt split: if_splits)
  then have "pfits r (ts ! unat b)"
    using pnode_full_child [OF assms(1) b] by (auto simp: pfits_def pwf_def)
  then show ?thesis using s b \<open>(r = []) = (unat b = 16)\<close> by auto
qed

lemma pfits_short:
  assumes "pnode (PShort k t)" "tkey (k @ r)"
  shows "pfits r t \<and> (tkey k \<and> is_leaf t \<and> r = [] \<or> nibbles k \<and> k \<noteq> [] \<and> (\<exists>ts. t = PFull ts) \<and> pnode t \<and> tkey r)"
proof (cases "tkey k \<and> is_leaf t")
  case True
  then have "r = []" using assms(2) not_tkey_nibbles tkey_append by blast
  with True show ?thesis by (simp add: pfits_def)
next
  case False
  with assms(1) have k: "nibbles k" "k \<noteq> []" "\<exists>ts. t = PFull ts" "pnode t" by auto
  then have "r \<noteq> []" using assms(2) not_tkey_nibbles by auto
  with k assms(2) show ?thesis by (auto simp: tkey_append pfits_def pwf_def)
qed

lemma plookup_pbranch:
  assumes "unat b < 17" "unat b' < 17" "b \<noteq> b'"
  shows "plookup (pbranch b t b' t') s =
    (case s of [] \<Rightarrow> None | c # r \<Rightarrow> if c = b then plookup t r else if c = b' then plookup t' r else None)"
  using assms by (cases s) (auto simp: pbranch_def nth_list_update word_unat_eq_iff)

lemma pnode_pbranch:
  assumes "unat b < 17" "unat b' < 17" "b \<noteq> b'"
    and "if unat b = 16 then is_leaf t else pnode t" "if unat b' = 16 then is_leaf t' else pnode t'"
  shows "pnode (pbranch b t b' t')"
proof -
  let ?ts = "(replicate 17 PNil)[unat b := t, unat b' := t']"
  have ne: "unat b \<noteq> unat b'" using assms(3) by (simp add: word_unat_eq_iff)
  have nth: "?ts ! i = (if i = unat b then t else if i = unat b' then t' else PNil)" if "i < 17" for i
    using that assms(1,2) ne by (auto simp: nth_list_update)
  have t: "t \<noteq> PNil" "t' \<noteq> PNil" using assms(4,5) pnode_leaf by (auto split: if_splits)
  have "branches ?ts"
    unfolding branches_def using ne nth t assms(1,2)
    by (intro exI [of _ "min (unat b) (unat b')"] exI [of _ "max (unat b) (unat b')"]) auto
  moreover have "\<forall>x \<in> set ?ts. x = PNil \<or> is_leaf x \<or> pnode x"
    using assms(4,5) by (auto dest!: set_update_subset_insert [THEN subsetD] split: if_splits)
  moreover have "\<not> is_leaf (?ts ! i)" if "i < 16" for i
    using nth [of i] that assms(4,5) pnode_leaf by (auto simp: is_leaf_def split: if_splits)
  moreover have "?ts ! 16 = PNil \<or> is_leaf (?ts ! 16)"
    using nth [of 16] assms(4,5) by (auto split: if_splits)
  ultimately show ?thesis by (simp add: pbranch_def)
qed

text \<open>The two ways an insertion meets a short node.\<close>

lemma pinsert_short_cases:
  assumes "pnode (PShort k t)" "tkey s"
  obtains (follow) r where "s = k @ r" "prefixLen s k = length k"
    | (branch) p b s' b' k' where "nibbles p" "s = p @ b # s'" "k = p @ b' # k'" "b \<noteq> b'" "unat b < 17" "unat b' < 17"
        "prefixLen s k = length p" "prefixLen s k \<noteq> length k"
proof (cases "prefixLen s k = length k")
  case True
  then show ?thesis using follow by (auto simp: prefixLen_full elim: take_eq_appendE)
next
  case False
  have k: "tkey k \<or> nibbles k" using assms(1) by auto
  from prefixLen_branch [OF assms(2) k False] obtain p b b' s' k' where
    p: "nibbles p" "s = p @ b # s'" "k = p @ b' # k'" "b \<noteq> b'" "length p = prefixLen s k" by blast
  moreover from p assms(2) have "unat b < 17" by (simp add: tkey_append tkey_head)
  moreover have "unat b' < 17" using k p by (auto simp: tkey_append tkey_head word_less_nat_alt)
  ultimately show ?thesis using branch False by metis
qed

lemma pinsert_lookup:
  "pfits s t \<Longrightarrow> plookup (pinsert t s v) s' = (if s' = s then Some v else plookup t s')"
proof (induction t s v arbitrary: s' rule: pinsert.induct)
  case (1 s v)
  show ?case using take_drop_exact [of s s'] by (auto simp: plookup_pshort)
next
  case (3 k t s v)
  then have n: "pnode (PShort k t)" "tkey s" by (auto simp: pfits_cases)
  then show ?case
  proof (cases rule: pinsert_short_cases)
    case (follow r)
    with n pfits_short [of k t r] have "pfits r t" by auto
    with 3(1) [OF refl follow(2)] follow have IH: "plookup (pinsert t r v) x = (if x = r then Some v else plookup t x)" for x by simp
    show ?thesis
    proof (cases "take (length k) s' = k")
      case True
      then obtain r' where "s' = k @ r'" by (rule take_eq_appendE)
      with IH follow show ?thesis by simp
    next
      case False
      then have "s' \<noteq> s" using follow by auto
      with False follow show ?thesis by simp
    qed
  next
    case (branch p b x b' k')
    have eq: "pinsert (PShort k t) s v = pshort p (pbranch b' (pshort k' t) b (pshort x (PVal v)))"
      using branch by (simp add: Let_def)
    show ?thesis
    proof (cases "take (length p) s' = p")
      case True
      then obtain r' where r': "s' = p @ r'" by (rule take_eq_appendE)
      show ?thesis
      proof (cases r')
        case (Cons c q)
        then show ?thesis
          unfolding eq using branch r' take_drop_exact [of x q] by (auto simp: plookup_pshort plookup_pbranch)
      qed (use branch r' in \<open>simp add: eq plookup_pshort plookup_pbranch\<close>)
    next
      case False
      then have "s' \<noteq> s" "s' \<noteq> k @ r" for r using branch(2,3) by auto
      moreover from this have "take (length k) s' \<noteq> k" by (metis append_take_drop_id)
      ultimately show ?thesis unfolding eq using False by (simp add: plookup_pshort)
    qed
  qed
next
  case (4 ts s v)
  then have n: "pnode (PFull ts)" "tkey s" by (auto simp: pfits_cases)
  from pfits_full [OF this] obtain b r where s: "s = b # r" "unat b < 17" "pfits r (ts ! unat b)" by blast
  have len: "length ts = 17" using n by simp
  with 4(1) s have IH: "plookup (pinsert (ts ! unat b) r v) x = (if x = r then Some v else plookup (ts ! unat b) x)" for x by simp
  show ?case
  proof (cases s')
    case (Cons c q)
    then show ?thesis using s len IH by (auto simp: nth_list_update word_unat_eq_iff)
  qed (use s len in simp)
qed (auto simp: pfits_cases)

lemma branches_update:
  assumes "branches ts" "t \<noteq> PNil"
  shows "branches (ts[i := t])"
proof -
  from assms(1) obtain a b where "a < b" "b < length ts" "ts ! a \<noteq> PNil" "ts ! b \<noteq> PNil"
    unfolding branches_def by blast
  then have "a < b \<and> b < length (ts[i := t]) \<and> ts[i := t] ! a \<noteq> PNil \<and> ts[i := t] ! b \<noteq> PNil"
    using assms(2) by (cases "i < length ts") (simp_all add: nth_list_update)
  then show ?thesis unfolding branches_def by blast
qed

lemma pnode_full_update:
  assumes "pnode (PFull ts)" "i < 17" "if i = 16 then is_leaf t else pnode t"
  shows "pnode (PFull (ts[i := t]))"
proof -
  have "t \<noteq> PNil" "is_leaf t \<or> pnode t" using assms(3) pnode_leaf by (auto split: if_splits)
  then have "\<forall>x \<in> set (ts[i := t]). x = PNil \<or> is_leaf x \<or> pnode x"
    using assms(1) by (auto dest!: set_update_subset_insert [THEN subsetD])
  moreover have "branches (ts[i := t])" using assms(1) \<open>t \<noteq> PNil\<close> by (simp add: branches_update)
  moreover have "j < 16 \<Longrightarrow> \<not> is_leaf (ts[i := t] ! j)" for j
    using assms pnode_leaf by (cases "i = j") (auto split: if_splits)
  moreover have "ts[i := t] ! 16 = PNil \<or> is_leaf (ts[i := t] ! 16)"
    using assms by (cases "i = 16") auto
  ultimately show ?thesis using assms(1) by simp
qed

lemma pinsert_wf:
  "pfits s t \<Longrightarrow> v \<noteq> [] \<Longrightarrow>
   if s = [] then is_leaf (pinsert t s v)
   else pnode (pinsert t s v) \<and> ((\<exists>ts. t = PFull ts) \<longrightarrow> (\<exists>ts. pinsert t s v = PFull ts))"
proof (induction t s v rule: pinsert.induct)
  case (1 s v)
  then show ?case by (auto simp: pfits_cases pshort_def is_leaf_def)
next
  case (2 w s v)
  then show ?case by (auto simp: pfits_cases is_leaf_def)
next
  case (3 k t s v)
  then have n: "pnode (PShort k t)" "tkey s" by (auto simp: pfits_cases)
  then show ?case
  proof (cases rule: pinsert_short_cases)
    case (follow r)
    note r = pfits_short [of k t r]
    have d: "drop (prefixLen s k) s = r" using follow by simp
    from 3(1) [OF refl follow(2), unfolded d] r n follow(1) 3(3) have
      "if r = [] then is_leaf (pinsert t r v) else pnode (pinsert t r v) \<and> ((\<exists>ts. t = PFull ts) \<longrightarrow> (\<exists>ts. pinsert t r v = PFull ts))"
      by simp
    with n r follow show ?thesis by (auto split: if_splits)
  next
    case (branch p b x b' k')
    have eq: "pinsert (PShort k t) s v = pshort p (pbranch b' (pshort k' t) b (pshort x (PVal v)))"
      using branch by (simp add: Let_def)
    have x: "if unat b = 16 then is_leaf (pshort x (PVal v)) else pnode (pshort x (PVal v))"
      using n(2) branch(2) 3(3) by (auto simp: tkey_append pshort_def is_leaf_def word_less_nat_alt split: if_splits)
    have k: "if unat b' = 16 then is_leaf (pshort k' t) else pnode (pshort k' t)"
      using n(1) branch(3) by (auto simp: tkey_append pshort_def word_less_nat_alt split: if_splits)
    have "pnode (pbranch b' (pshort k' t) b (pshort x (PVal v)))"
      using branch x k by (intro pnode_pbranch) auto
    then show ?thesis unfolding eq using branch n by (auto simp: pshort_def pbranch_def)
  qed
next
  case (4 ts s v)
  then have n: "pnode (PFull ts)" "tkey s" by (auto simp: pfits_cases)
  from pfits_full [OF this] obtain b r where
    s: "s = b # r" "unat b < 17" "pfits r (ts ! unat b)" "unat b = 16 \<longleftrightarrow> r = []" by blast
  have len: "length ts = 17" using n by simp
  with 4(1) s 4(3) have "if unat b = 16 then is_leaf (pinsert (ts ! unat b) r v) else pnode (pinsert (ts ! unat b) r v)"
    by (auto split: if_splits)
  with n s have "pnode (PFull (ts[unat b := pinsert (ts ! unat b) r v]))" by (intro pnode_full_update) auto
  then show ?case using s len by simp
qed

subsection \<open>Deletion\<close>

lemma plookup_preduce:
  assumes "length ts \<le> 256"
  shows "plookup (preduce ts) s = plookup (PFull ts) s"
proof (cases "\<exists>i. filter (\<lambda>i. ts ! i \<noteq> PNil) [0..<length ts] = [i]")
  case True
  then obtain i where f: "filter (\<lambda>i. ts ! i \<noteq> PNil) [0..<length ts] = [i]" by blast
  then have i: "j < length ts \<and> ts ! j \<noteq> PNil \<longleftrightarrow> j = i" for j
    using f [THEN arg_cong, of set, unfolded set_filter] by (auto simp: set_eq_iff)
  from i [of i] assms have u: "unat (of_nat i :: byte) = i" by (simp add: unat_of_nat)
  have "plookup (preduce ts) s = plookup (PShort [of_nat i] (ts ! i)) s"
    by (simp add: preduce_def f plookup_pjoin)
  also have "\<dots> = plookup (PFull ts) s"
  proof (cases s)
    case (Cons b r)
    then show ?thesis
    proof (cases "b = of_nat i")
      case False
      then have "unat b \<noteq> i" by auto
      with i [of "unat b"] False Cons show ?thesis by auto
    qed (use i [of i] u in auto)
  qed simp
  finally show ?thesis .
qed (auto simp: preduce_def split: list.splits)

lemma pnode_fullI:
  assumes "length ts = 17" "branches ts"
    and "\<And>i. i < 17 \<Longrightarrow> if i = 16 then ts ! i = PNil \<or> is_leaf (ts ! i) else ts ! i = PNil \<or> pnode (ts ! i)"
  shows "pnode (PFull ts)"
proof -
  have "x = PNil \<or> is_leaf x \<or> pnode x" if "x \<in> set ts" for x
    using that assms(1,3) by (metis in_set_conv_nth)
  moreover have "\<not> is_leaf (ts ! i)" if "i < 16" for i
    using assms(3) [of i] that pnode_leaf by (auto simp: is_leaf_def)
  ultimately show ?thesis using assms(1,2) assms(3) [of 16] by simp
qed

lemma pnode_pjoin: "nibbles k \<Longrightarrow> k \<noteq> [] \<Longrightarrow> pnode t \<Longrightarrow> pnode (pjoin k t)"
  by (auto simp: pjoin_def tkey_append split: ptrie.splits)

lemma pnode_preduce:
  assumes "length ts = 17" "i < 17" "ts ! i \<noteq> PNil"
    and kids: "\<And>i. i < 17 \<Longrightarrow> if i = 16 then ts ! i = PNil \<or> is_leaf (ts ! i) else ts ! i = PNil \<or> pnode (ts ! i)"
  shows "pnode (preduce ts)"
proof -
  let ?is = "filter (\<lambda>i. ts ! i \<noteq> PNil) [0..<length ts]"
  have s: "set ?is = {j. j < 17 \<and> ts ! j \<noteq> PNil}" using assms(1) by auto
  then obtain j js where js: "?is = j # js" using assms(2,3) by (cases ?is) auto
  with s have j: "j < 17" "ts ! j \<noteq> PNil" by auto
  show ?thesis
  proof (cases js)
    case Nil
    with js have eq: "preduce ts = pjoin [of_nat j] (ts ! j)" by (simp add: preduce_def)
    show ?thesis
    proof (cases "j = 16")
      case True
      with kids [of 16] j show ?thesis by (auto simp: eq pjoin_def is_leaf_def)
    next
      case False
      with j have "nibbles [of_nat j]" by (auto simp: word_less_nat_alt unat_of_nat)
      then show ?thesis unfolding eq using kids [OF j(1)] False j(2) by (intro pnode_pjoin) auto
    qed
  next
    case (Cons j' js')
    have "sorted_wrt (<) ?is" by (intro sorted_wrt_filter sorted_wrt_upt)
    moreover have "j' \<in> set ?is" using js Cons by simp
    ultimately have "j < j'" "j' < 17" "ts ! j' \<noteq> PNil" using js Cons s by auto
    then have "branches ts" unfolding branches_def using j assms(1) by auto
    then have "pnode (PFull ts)" using assms(1) kids by (intro pnode_fullI) auto
    then show ?thesis using js Cons by (simp add: preduce_def)
  qed
qed

lemma pdel_wf:
  "pfits s t \<Longrightarrow> plookup t s = Some v \<Longrightarrow>
   if s = [] then pdel t s = PNil else pwf (pdel t s) \<and> ((\<exists>ts. t = PFull ts) \<longrightarrow> pnode (pdel t s))"
proof (induction t s rule: pdel.induct)
  case (3 k t s)
  then have n: "pnode (PShort k t)" "tkey s" by (auto simp: pfits_cases)
  from 3(3) obtain r where s: "s = k @ r" "plookup t r = Some v" by (auto elim: take_eq_appendE split: if_splits)
  show ?case
  proof (cases "r = []")
    case False
    with pfits_short [of k t r] n s have r: "pfits r t" "nibbles k" "k \<noteq> []" "\<exists>ts. t = PFull ts" "tkey r" by auto
    with 3(1) s False have "pnode (pdel t r)" by auto
    with r have "pnode (pjoin k (pdel t r))" by (simp add: pnode_pjoin)
    then show ?thesis using s False by (simp add: pwf_def)
  qed (use s n in \<open>simp add: pwf_def\<close>)
next
  case (4 ts s)
  then have n: "pnode (PFull ts)" "tkey s" by (auto simp: pfits_cases)
  from pfits_full [OF this] obtain b r where
    s: "s = b # r" "unat b < 17" "pfits r (ts ! unat b)" "unat b = 16 \<longleftrightarrow> r = []" by blast
  have len: "length ts = 17" using n by simp
  let ?t = "pdel (ts ! unat b) r"
  have IH: "if r = [] then ?t = PNil else pwf ?t" using 4 s len by (auto split: if_splits)
  have eq: "pdel (PFull ts) s = (if ?t \<noteq> PNil then PFull (ts[unat b := ?t]) else preduce (ts[unat b := ?t]))"
    using s len by (simp add: Let_def)
  have "pnode (pdel (PFull ts) s)"
  proof (cases "?t = PNil")
    case False
    with IH s have "unat b \<noteq> 16" "pnode ?t" by (auto simp: pwf_def split: if_splits)
    with n s False show ?thesis unfolding eq by (simp only: pnode_full_update not_False_eq_True if_True if_False simp_thms)
  next
    case True
    from n obtain i j where ij: "i < j" "j < 17" "ts ! i \<noteq> PNil" "ts ! j \<noteq> PNil"
      by (auto simp: branches_def)
    define l where "l = (if i = unat b then j else i)"
    have l: "l < 17" "ts[unat b := ?t] ! l \<noteq> PNil" using ij by (auto simp: l_def)
    have "if m = 16 then ts[unat b := ?t] ! m = PNil \<or> is_leaf (ts[unat b := ?t] ! m)
        else ts[unat b := ?t] ! m = PNil \<or> pnode (ts[unat b := ?t] ! m)" if "m < 17" for m
      using that pnode_full_child [OF n(1), of m] True len by (cases "m = unat b") auto
    with len l have "pnode (preduce (ts[unat b := ?t]))" by (intro pnode_preduce [of _ l]) auto
    then show ?thesis unfolding eq using True by simp
  qed
  then show ?case using s by (simp add: pwf_def)
qed (auto simp: pfits_cases)

lemma pdel_lookup:
  "pfits s t \<Longrightarrow> plookup t s = Some v \<Longrightarrow> plookup (pdel t s) s' = (if s' = s then None else plookup t s')"
proof (induction t s arbitrary: s' rule: pdel.induct)
  case (3 k t s)
  then have n: "pnode (PShort k t)" "tkey s" by (auto simp: pfits_cases)
  from 3(3) obtain r where s: "s = k @ r" "plookup t r = Some v" by (auto elim: take_eq_appendE split: if_splits)
  note r = pfits_short [OF n(1) n(2) [unfolded s(1)]]
  show ?case
  proof (cases "take (length k) s' = k")
    case True
    then obtain r' where "s' = k @ r'" by (rule take_eq_appendE)
    with 3(1) s r not_tkey_nibbles show ?thesis by (cases "r = []") (auto simp: plookup_pjoin is_leaf_def)
  next
    case False
    then have "s' \<noteq> s" using s by auto
    with False show ?thesis by (simp add: plookup_pjoin)
  qed
next
  case (4 ts s)
  then have n: "pnode (PFull ts)" "tkey s" by (auto simp: pfits_cases)
  from pfits_full [OF this] obtain b r where s: "s = b # r" "unat b < 17" "pfits r (ts ! unat b)" by blast
  have len: "length ts = 17" using n by simp
  let ?t = "pdel (ts ! unat b) r"
  have "plookup ?t x = (if x = r then None else plookup (ts ! unat b) x)" for x
    using 4 s len by (auto split: if_splits)
  then have "plookup (PFull (ts[unat b := ?t])) s' = (if s' = s then None else plookup (PFull ts) s')"
    using s len by (cases s') (auto simp: nth_list_update word_unat_eq_iff)
  moreover have "plookup (pdel (PFull ts) s) s' = plookup (PFull (ts[unat b := ?t])) s'"
    using s len plookup_preduce [of "ts[unat b := ?t]" s'] by (auto simp: Let_def simp del: plookup.simps)
  ultimately show ?case by simp
qed (auto simp: pfits_cases)

subsection \<open>A canonical tree is determined by its keys and values\<close>

definition ptree :: "ptrie \<Rightarrow> bool" where
  "ptree t \<longleftrightarrow> t = PNil \<or> is_leaf t \<or> pnode t"

lemma ptree_full_child: "pnode (PFull ts) \<Longrightarrow> i < 17 \<Longrightarrow> ptree (ts ! i)"
  using pnode_full_child [of ts i] by (auto simp: ptree_def split: if_splits)

lemma plookup_child: "i < length ts \<Longrightarrow> length ts \<le> 256 \<Longrightarrow> plookup (PFull ts) (of_nat i # s) = plookup (ts ! i) s"
  by (simp add: unat_of_nat)

lemma ptree_has_key: "ptree t \<Longrightarrow> t \<noteq> PNil \<Longrightarrow> \<exists>s. plookup t s \<noteq> None"
proof (induction t)
  case (PShort k t)
  then have "ptree t" "t \<noteq> PNil" by (auto simp: ptree_def is_leaf_def)
  with PShort obtain s where "plookup t s \<noteq> None" by blast
  then have "plookup (PShort k t) (k @ s) \<noteq> None" by simp
  then show ?case by blast
next
  case (PFull ts)
  then have n: "pnode (PFull ts)" by (auto simp: ptree_def is_leaf_def)
  then obtain i where i: "i < 17" "ts ! i \<noteq> PNil" by (auto simp: branches_def)
  moreover from n have len: "length ts = 17" by simp
  ultimately obtain s where "plookup (ts ! i) s \<noteq> None"
    using PFull.IH [of "ts ! i"] ptree_full_child [OF n] by auto
  with i len have "plookup (PFull ts) (of_nat i # s) \<noteq> None" by (simp add: plookup_child del: plookup.simps)
  then show ?case by blast
qed auto

lemma full_two_heads:
  assumes "pnode (PFull ts)"
  obtains b b' r r' where "b \<noteq> b'" "plookup (PFull ts) (b # r) \<noteq> None" "plookup (PFull ts) (b' # r') \<noteq> None"
proof -
  have len: "length ts = 17" using assms by simp
  obtain i j where ij: "i < j" "j < 17" "ts ! i \<noteq> PNil" "ts ! j \<noteq> PNil" using assms by (auto simp: branches_def)
  obtain r where "plookup (ts ! i) r \<noteq> None" using ij ptree_has_key ptree_full_child [OF assms] by fastforce
  moreover obtain r' where "plookup (ts ! j) r' \<noteq> None" using ij ptree_has_key ptree_full_child [OF assms] by fastforce
  moreover have "(of_nat i :: byte) \<noteq> of_nat j" using ij by (simp add: word_unat_eq_iff unat_of_nat)
  ultimately show ?thesis using that ij len by (simp add: plookup_child del: plookup.simps)
qed

lemma plookup_short_prefix: "plookup (PShort k t) s \<noteq> None \<Longrightarrow> \<exists>r. s = k @ r \<and> plookup t r \<noteq> None"
  by (auto elim: take_eq_appendE split: if_splits)

lemma short_keys_le:
  assumes n: "pnode (PShort k t)" and n': "pnode (PShort k' t')"
    and eq: "\<And>s. plookup (PShort k t) s = plookup (PShort k' t') s" and le: "length k \<le> length k'"
  shows "k = k'"
proof (rule ccontr)
  assume ne: "k \<noteq> k'"
  have ext: "\<exists>r'. k @ r = k' @ r'" if "plookup t r \<noteq> None" for r
    using plookup_short_prefix [of k' t' "k @ r"] that eq [of "k @ r"] by auto
  obtain s where s: "plookup t s \<noteq> None" using n ptree_has_key [of t] by (auto simp: ptree_def is_leaf_def)
  from ext [OF this] le ne obtain b x where k': "k' = k @ b # x"
    by (metis append_Nil2 append_eq_append_conv_if append_take_drop_id neq_Nil_conv)
  show False
  proof (cases "is_leaf t")
    case True
    with s have "s = []" by (auto simp: is_leaf_def split: if_splits)
    with ext [OF s] k' show False by simp
  next
    case False
    with n obtain ts where "t = PFull ts" "pnode (PFull ts)" by auto
    from full_two_heads [OF this(2)] this(1) obtain c c' r r' where
      "c \<noteq> c'" "plookup t (c # r) \<noteq> None" "plookup t (c' # r') \<noteq> None" by metis
    with ext [of "c # r"] ext [of "c' # r'"] k' show False by auto
  qed
qed

theorem ptree_unique:
  "ptree t \<Longrightarrow> ptree t' \<Longrightarrow> (\<And>s. plookup t s = plookup t' s) \<Longrightarrow> t = t'"
proof (induction t arbitrary: t')
  case PNil
  from PNil(3) have "plookup t' s = None" for s by simp
  then show ?case using ptree_has_key [OF PNil(2)] by metis
next
  case (PVal v)
  have "plookup t' [] = Some v" using PVal(3) [of "[]"] by simp
  with PVal(2) plookup_tkey [of t' "[]" v] show ?case by (auto simp: ptree_def is_leaf_def split: if_splits)
next
  case (PShort k t)
  from PShort.prems(1) have n: "pnode (PShort k t)" by (simp add: ptree_def is_leaf_def)
  obtain s where s: "plookup (PShort k t) s \<noteq> None" using PShort.prems(1) ptree_has_key by blast
  then have "tkey s" using plookup_tkey [OF n] by auto
  moreover have "plookup t' s \<noteq> None" using s unfolding PShort.prems(3) .
  ultimately have n': "pnode t'" using PShort.prems(2) by (auto simp: ptree_def is_leaf_def split: if_splits)
  show ?case
  proof (cases t')
    case (PShort k' u)
    note u = n' [unfolded PShort]
    have eq: "plookup (PShort k t) s = plookup (PShort k' u) s" for s by (rule PShort.prems(3) [unfolded PShort])
    have k: "k = k'"
      using short_keys_le [OF n u eq] short_keys_le [OF u n eq [symmetric]] by (cases "length k \<le> length k'") auto
    have "t = u"
    proof (rule PShort.IH)
      show "plookup t r = plookup u r" for r using eq [of "k @ r"] k by simp
      show "ptree t" "ptree u" using n u by (auto simp: ptree_def)
    qed
    with k PShort show ?thesis by simp
  next
    case (PFull ts)
    from full_two_heads [OF n' [unfolded PFull]] obtain b b' r r' where
      two: "b \<noteq> b'" "plookup t' (b # r) \<noteq> None" "plookup t' (b' # r') \<noteq> None" unfolding PFull by metis
    have "\<exists>x. b # r = k @ x" "\<exists>x. b' # r' = k @ x"
      using two(2,3) plookup_short_prefix unfolding PShort.prems(3) [symmetric] by blast+
    with two(1) n show ?thesis by (cases k) auto
  qed (use n' in auto)
next
  case (PFull ts)
  from PFull.prems(1) have n: "pnode (PFull ts)" by (simp add: ptree_def is_leaf_def)
  obtain b b' r r' where two: "b \<noteq> b'" "plookup (PFull ts) (b # r) \<noteq> None" "plookup (PFull ts) (b' # r') \<noteq> None"
    using full_two_heads [OF n] by metis
  have "plookup t' (b # r) \<noteq> None" using two(2) unfolding PFull.prems(3) .
  then have n': "pnode t'" using PFull.prems(2) by (auto simp: ptree_def is_leaf_def split: if_splits)
  show ?case
  proof (cases t')
    case (PShort k u)
    have "\<exists>x. b # r = k @ x" "\<exists>x. b' # r' = k @ x"
      using two(2,3) plookup_short_prefix unfolding PFull.prems(3) PShort by blast+
    with two(1) n' PShort show ?thesis by (cases k) auto
  next
    case (PFull us)
    have len: "length ts = 17" "length us = 17" using n n' PFull by auto
    have "ts ! i = us ! i" if "i < 17" for i
    proof (rule PFull.IH)
      show "ts ! i \<in> set ts" using that len by simp
      show "ptree (ts ! i)" "ptree (us ! i)" using that n n' PFull ptree_full_child by auto
      show "plookup (ts ! i) s = plookup (us ! i) s" for s
        using PFull.prems(3) [of "of_nat i # s", unfolded PFull] plookup_child [of i ts s] plookup_child [of i us s] that len
        by (simp del: plookup.simps)
    qed
    then show ?thesis using len PFull by (simp add: list_eq_iff_nth_eq)
  qed (use n' in auto)
qed

subsection \<open>The tree as a map\<close>

lemma pfits_pwf: "tkey s \<Longrightarrow> pwf t \<Longrightarrow> pfits s t"
  by (simp add: pfits_def)

lemma pinsert_map:
  assumes "pwf t" "tkey s" "v \<noteq> []"
  shows "pwf (pinsert t s v) \<and> plookup (pinsert t s v) = (plookup t)(s \<mapsto> v)"
  using assms pinsert_wf [of s t v] pinsert_lookup [of s t v] by (auto simp: pfits_pwf pwf_def fun_eq_iff)

lemma pdelete_map:
  assumes "pwf t" "tkey s"
  shows "pwf (pdelete t s) \<and> plookup (pdelete t s) = (plookup t)(s := None)"
proof (cases "plookup t s")
  case (Some v)
  with assms pdel_wf [of s t v] pdel_lookup [of s t v] show ?thesis
    by (auto simp: pdelete_def pfits_pwf fun_eq_iff)
qed (use assms in \<open>auto simp: pdelete_def fun_eq_iff\<close>)

end
