(* ===== verification/TrieCodec.thy ===== *)
theory TrieCodec
  imports TrieNode TrieSpec
begin

text \<open>
  The stored form of a tree. A node smaller than 32 bytes is embedded in its parent, a larger one is
  referred to by its hash. Decoding the stored form of a canonical tree gives back its root node, with the
  larger children as hashes.
\<close>

definition compact :: "byte list \<Rightarrow> byte list" where
  "compact k = the (hexToCompact k)"

definition hashData :: "geth \<Rightarrow> byte list \<Rightarrow> byte list" where
  "hashData G data = hashBytes (Keccak256Hash G data)"

definition inner :: "ptrie \<Rightarrow> bool" where
  "inner t \<longleftrightarrow> (case t of PShort _ _ \<Rightarrow> True | PFull _ \<Rightarrow> True | _ \<Rightarrow> False)"

definition ref_of :: "rlp \<Rightarrow> geth \<Rightarrow> ptrie \<Rightarrow> byte list \<Rightarrow> byte list" where
  "ref_of L G t e = (if inner t \<and> 32 \<le> length e then rlp_WriteBytes L (hashData G e) else e)"

fun penc :: "rlp \<Rightarrow> geth \<Rightarrow> ptrie \<Rightarrow> byte list" where
  "penc L G PNil = rlp_EmptyString L"
| "penc L G (PVal v) = rlp_WriteBytes L v"
| "penc L G (PShort k t) = rlp_WriteList L (rlp_WriteBytes L (compact k) @ ref_of L G t (penc L G t))"
| "penc L G (PFull ts) = rlp_WriteList L (concat (map (\<lambda>t. ref_of L G t (penc L G t)) ts))"

abbreviation pref :: "rlp \<Rightarrow> geth \<Rightarrow> ptrie \<Rightarrow> byte list" where
  "pref L G t \<equiv> ref_of L G t (penc L G t)"

definition phash :: "rlp \<Rightarrow> geth \<Rightarrow> ptrie \<Rightarrow> byte list" where
  "phash L G t = hashData G (penc L G t)"

text \<open>The node that decoding gives.\<close>

definition cleanFlag :: "byte list option \<Rightarrow> nodeFlag" where
  "cleanFlag h = \<lparr>nf_hash = h, nf_dirty = False\<rparr>"

fun pload :: "rlp \<Rightarrow> geth \<Rightarrow> byte list option \<Rightarrow> ptrie \<Rightarrow> node" where
  "pload L G h PNil = NilNode"
| "pload L G h (PVal v) = ValueNode v"
| "pload L G h (PShort k t) =
     ShortNode k (if inner t \<and> 32 \<le> length (penc L G t) then HashNode (phash L G t) else pload L G None t) (cleanFlag h)"
| "pload L G h (PFull ts) =
     FullNode (map (\<lambda>t. if inner t \<and> 32 \<le> length (penc L G t) then HashNode (phash L G t) else pload L G None t) ts) (cleanFlag h)"

abbreviation pref_node :: "rlp \<Rightarrow> geth \<Rightarrow> ptrie \<Rightarrow> node" where
  "pref_node L G t \<equiv> (if inner t \<and> 32 \<le> length (penc L G t) then HashNode (phash L G t) else pload L G None t)"

text \<open>Sizes: keys of fewer than \<open>2 ^ 16\<close> nibbles and values of fewer than \<open>2 ^ 31\<close> bytes.\<close>

definition psmall :: "ptrie \<Rightarrow> bool" where
  "psmall t \<longleftrightarrow> (\<forall>s v. plookup t s = Some v \<longrightarrow> length s < 2 ^ 16 \<and> length v < 2 ^ 31)"

lemma psmall_short:
  assumes "psmall (PShort k t)" "ptree t" "t \<noteq> PNil"
  shows "length k < 2 ^ 16 \<and> psmall t"
proof -
  have *: "plookup t s = Some v \<Longrightarrow> length k + length s < 2 ^ 16 \<and> length v < 2 ^ 31" for s v
    using assms(1) plookup_short_append [of k t s] unfolding psmall_def by (metis length_append)
  from ptree_has_key [OF assms(2,3)] obtain s v where "plookup t s = Some v" by blast
  from * [OF this] have "length k < 2 ^ 16" by simp
  moreover have "psmall t" unfolding psmall_def using * by fastforce
  ultimately show ?thesis by blast
qed

lemma psmall_full:
  assumes "psmall (PFull ts)" "length ts \<le> 256" "i < length ts"
  shows "psmall (ts ! i)"
  unfolding psmall_def
proof (intro allI impI)
  fix s v
  assume "plookup (ts ! i) s = Some v"
  then have "plookup (PFull ts) (of_nat i # s) = Some v" using assms plookup_child by simp
  with assms(1) have "length (of_nat i # s :: byte list) < 2 ^ 16 \<and> length v < 2 ^ 31" unfolding psmall_def by blast
  then show "length s < 2 ^ 16 \<and> length v < 2 ^ 31" by simp
qed

lemma psmall_val: "psmall (PVal v) \<Longrightarrow> length v < 2 ^ 31"
  by (auto simp: psmall_def)

subsection \<open>Laws of RLP\<close>

lemma rlp_laws:
  assumes "rlp_ok L"
  shows "rlp_WriteBytes L [] = rlp_EmptyString L"
    and "rlp_fits s \<Longrightarrow> length s < length (rlp_WriteList L s)"
    and "rlp_fits s \<Longrightarrow> length (rlp_WriteBytes L s) \<le> length s + 5"
    and "rlp_fits s \<Longrightarrow> rlp_SplitString L (rlp_WriteBytes L s @ r) = Inr (s, r)"
    and "rlp_fits s \<Longrightarrow> rlp_SplitList L (rlp_WriteList L s @ r) = Inr (s, r)"
    and "rlp_fits s \<Longrightarrow> length s \<noteq> 1 \<Longrightarrow> rlp_Split L (rlp_WriteBytes L s @ r) = Inr (RlpString, s, r)"
    and "rlp_fits s \<Longrightarrow> rlp_Split L (rlp_WriteList L s @ r) = Inr (RlpList, s, r)"
    and "list_all (rlp_item L) xs \<Longrightarrow> rlp_CountValues L (concat xs) = length xs"
  using assms unfolding rlp_ok_def by auto

lemmas rlp_empty = rlp_laws(1)
  and rlp_list_longer = rlp_laws(2)
  and rlp_bytes_length = rlp_laws(3)
  and rlp_SplitString_bytes = rlp_laws(4)
  and rlp_SplitList_list = rlp_laws(5)
  and rlp_Split_bytes = rlp_laws(6)
  and rlp_Split_list = rlp_laws(7)
  and rlp_CountValues_items = rlp_laws(8)

lemma rlp_SplitString_bytes' : "rlp_ok L \<Longrightarrow> rlp_fits s \<Longrightarrow> rlp_SplitString L (rlp_WriteBytes L s) = Inr (s, [])"
  using rlp_SplitString_bytes [of L s "[]"] by simp

lemma length_hashData [simp]: "length (hashData G e) = 32" "hashData G e \<noteq> []"
proof -
  show "length (hashData G e) = 32" by (simp add: hashData_def)
  then show "hashData G e \<noteq> []" by auto
qed

lemma compact_ok:
  assumes "hex_key k"
  shows "hexToCompact k = Some (compact k)" "compactToHex (compact k) = k"
  using compactToHex_hexToCompact [OF assms] by (auto simp: compact_def)

lemma length_decodeNibbles: "decodeNibbles ns = Some bs \<Longrightarrow> 2 * length bs = length ns"
  by (induction ns arbitrary: bs rule: decodeNibbles.induct) auto

lemma length_compact: "hex_key k \<Longrightarrow> length (compact k) \<le> length k + 1"
  using compact_ok(1) [of k]
  by (auto simp: hexToCompact_def Let_def split: if_splits dest!: length_decodeNibbles sym [of _ "compact k"])

lemma hex_key_short: "pnode (PShort k t) \<Longrightarrow> hex_key k \<and> hasTerm k = is_leaf t"
  by (auto simp: hex_key_def tkey_iff is_leaf_def)

subsection \<open>Sizes\<close>

lemma inner_simps [simp]: "\<not> inner PNil" "\<not> inner (PVal v)" "inner (PShort k t)" "inner (PFull ts)"
  by (simp_all add: inner_def)

lemma length_pref:
  assumes "rlp_ok L" "psmall t" "t = PNil \<or> inner t"
  shows "length (pref L G t) \<le> 37"
proof (cases "inner t")
  case True
  then show ?thesis
    using rlp_bytes_length [OF assms(1), of "hashData G (penc L G t)"] by (auto simp: ref_of_def)
next
  case False
  with assms(3) show ?thesis
    using rlp_bytes_length [OF assms(1), of "[]"] by (auto simp: ref_of_def rlp_empty [OF assms(1)])
qed

lemma length_pref_val: "rlp_ok L \<Longrightarrow> psmall (PVal v) \<Longrightarrow> length (pref L G (PVal v)) \<le> 2 ^ 31 + 5"
  using rlp_bytes_length [of L v] psmall_val [of v] by (auto simp: ref_of_def)

lemma length_concat_le: "(\<And>x. x \<in> set xs \<Longrightarrow> length (f x) \<le> m) \<Longrightarrow> length (concat (map f xs)) \<le> m * length xs"
  by (induction xs) (fastforce simp: algebra_simps)+

fun ppay :: "rlp \<Rightarrow> geth \<Rightarrow> ptrie \<Rightarrow> byte list list" where
  "ppay L G (PShort k t) = [rlp_WriteBytes L (compact k), pref L G t]"
| "ppay L G (PFull ts) = map (pref L G) ts"
| "ppay L G t = []"

lemma penc_inner: "inner t \<Longrightarrow> penc L G t = rlp_WriteList L (concat (ppay L G t))"
  by (cases t) (auto simp: inner_def)

lemma pnode_inner: "pnode t \<Longrightarrow> inner t"
  by (cases t) auto

lemma full_split: "length ts = 17 \<Longrightarrow> ts = take 16 ts @ [ts ! 16]"
  using take_Suc_conv_app_nth [of 16 ts] by simp

lemma full_children:
  assumes "pnode (PFull ts)" "psmall (PFull ts)" "t \<in> set (take 16 ts)"
  shows "(t = PNil \<or> pnode t) \<and> psmall t"
proof -
  have len: "length ts = 17" using assms(1) by simp
  obtain i where "i < 16" "t = ts ! i" using assms(3) len by (auto simp: in_set_conv_nth)
  then show ?thesis using pnode_full_child [OF assms(1), of i] psmall_full [OF assms(2), of i] len by auto
qed

lemma full_value:
  assumes "pnode (PFull ts)" "psmall (PFull ts)"
  shows "(ts ! 16 = PNil \<or> is_leaf (ts ! 16)) \<and> psmall (ts ! 16)"
  using assms pnode_full_child [OF assms(1), of 16] psmall_full [OF assms(2), of 16] by auto

lemma ppay_fits:
  assumes L: "rlp_ok L" and t: "pnode t" "psmall t"
  shows "rlp_fits (concat (ppay L G t))"
proof (cases t)
  case (PShort k c)
  have c: "ptree c" "c \<noteq> PNil" using t(1) PShort by (auto simp: ptree_def is_leaf_def)
  with psmall_short t(2) PShort have s: "length k < 2 ^ 16" "psmall c" by blast+
  have k: "length (compact k) \<le> length k + 1" using hex_key_short t(1) PShort length_compact by blast
  then have kl: "length (rlp_WriteBytes L (compact k)) \<le> length k + 6"
    using rlp_bytes_length [OF L, of "compact k"] s(1) by auto
  have "length (pref L G c) \<le> 2 ^ 31 + 5"
  proof (cases "is_leaf c")
    case True
    then show ?thesis using s(2) length_pref_val [OF L] by (auto simp: is_leaf_def)
  next
    case False
    with t(1) PShort have "inner c" by (auto simp: pnode_inner)
    then show ?thesis using length_pref [OF L s(2), of G] by simp
  qed
  then show ?thesis using kl s(1) PShort by simp
next
  case (PFull ts)
  have len: "length ts = 17" using t(1) PFull by simp
  have "length (concat (map (pref L G) (take 16 ts))) \<le> 37 * length (take 16 ts)"
    using t PFull full_children length_pref [OF L] pnode_inner by (intro length_concat_le) blast
  moreover have "length (pref L G (ts ! 16)) \<le> 2 ^ 31 + 5"
  proof (cases "is_leaf (ts ! 16)")
    case True
    then obtain v where "ts ! 16 = PVal v" by (auto simp: is_leaf_def)
    then show ?thesis using full_value [of ts] t PFull length_pref_val [OF L, of v G] by simp
  next
    case False
    then have "ts ! 16 = PNil" "psmall (ts ! 16)" using full_value [of ts] t PFull by blast+
    then show ?thesis using length_pref [OF L, of "ts ! 16" G] by simp
  qed
  moreover have "concat (map (pref L G) ts) = concat (map (pref L G) (take 16 ts)) @ pref L G (ts ! 16)"
    by (subst full_split [OF len]) simp
  ultimately show ?thesis using PFull len by simp
qed (use t in auto)

lemma rlp_item_pref:
  assumes "rlp_ok L" "ptree t" "psmall t"
  shows "rlp_item L (pref L G t)"
proof (cases "inner t")
  case True
  with assms(2) have n: "pnode t" by (auto simp: ptree_def is_leaf_def)
  have "rlp_item L (penc L G t)" unfolding rlp_item_def penc_inner [OF True] using ppay_fits [OF assms(1) n assms(3)] by blast
  moreover have "rlp_item L (rlp_WriteBytes L (hashData G (penc L G t)))"
    unfolding rlp_item_def by (rule exI [of _ "hashData G (penc L G t)"]) simp
  ultimately show ?thesis by (simp add: ref_of_def)
next
  case False
  with assms(2) consider "t = PNil" | v where "t = PVal v" by (auto simp: ptree_def is_leaf_def pnode_inner)
  then show ?thesis
  proof cases
    case 1
    then show ?thesis unfolding rlp_item_def using rlp_empty [OF assms(1)] by (auto simp: ref_of_def intro!: exI [of _ "[]"])
  next
    case (2 v)
    then have "rlp_fits v" using psmall_val assms(3) by fastforce
    with 2 show ?thesis unfolding rlp_item_def by (auto simp: ref_of_def)
  qed
qed

subsection \<open>Decoding the stored form\<close>

lemma ppay_count:
  assumes "rlp_ok L" "pnode t" "psmall t"
  shows "rlp_CountValues L (concat (ppay L G t)) = length (ppay L G t)"
proof (rule rlp_CountValues_items [OF assms(1)], cases t)
  case (PShort k c)
  have c: "ptree c" "c \<noteq> PNil" using assms(2) PShort by (auto simp: ptree_def is_leaf_def)
  with psmall_short assms(3) PShort have s: "length k < 2 ^ 16" "psmall c" by blast+
  have "length (compact k) \<le> length k + 1" using hex_key_short assms(2) PShort length_compact by blast
  with s(1) have "rlp_fits (compact k)" by simp
  then have "rlp_item L (rlp_WriteBytes L (compact k))" unfolding rlp_item_def by blast
  then show "list_all (rlp_item L) (ppay L G t)" using PShort rlp_item_pref [OF assms(1) c(1) s(2)] by simp
next
  case (PFull ts)
  then have len: "length ts = 17" using assms(2) by simp
  have "rlp_item L (pref L G x)" if "x \<in> set ts" for x
  proof -
    from that len obtain i where "i < 17" "x = ts ! i" by (auto simp: in_set_conv_nth)
    then show ?thesis
      using assms PFull len ptree_full_child psmall_full by (intro rlp_item_pref) auto
  qed
  then show "list_all (rlp_item L) (ppay L G t)" using PFull by (simp add: list_all_iff)
qed (use assms in auto)

definition decodes :: "rlp \<Rightarrow> geth \<Rightarrow> (byte list \<Rightarrow> (decode_error + node) option) \<Rightarrow> ptrie \<Rightarrow> bool" where
  "decodes L G rec t \<longleftrightarrow> (\<forall>rest. rec (penc L G t @ rest) = Some (Inr (pload L G None t)))"

lemma decodeRef_pref:
  assumes L: "rlp_ok L" and t: "t = PNil \<or> pnode t" "psmall t"
    and rec: "pnode t \<Longrightarrow> length (penc L G t) < 32 \<Longrightarrow> decodes L G rec t"
  shows "decodeRef L rec (pref L G t @ rest) = Some (Inr (pref_node L G t, rest))"
proof (cases "pnode t")
  case False
  with t(1) have "pref L G t = rlp_WriteBytes L []" by (simp add: ref_of_def rlp_empty [OF L])
  then show ?thesis using False t(1) rlp_Split_bytes [OF L, of "[]" rest] by (simp add: decodeRef_def)
next
  case True
  note inner = pnode_inner [OF True]
  show ?thesis
  proof (cases "32 \<le> length (penc L G t)")
    case True
    then show ?thesis
      using inner rlp_Split_bytes [OF L, of "hashData G (penc L G t)" rest]
      by (simp add: ref_of_def decodeRef_def phash_def)
  next
    case False
    then have "pref L G t = penc L G t" by (simp add: ref_of_def)
    moreover have "rlp_Split L (penc L G t @ rest) = Inr (RlpList, concat (ppay L G t), rest)"
      unfolding penc_inner [OF inner] using rlp_Split_list [OF L ppay_fits [OF L True t(2)]] .
    ultimately show ?thesis
      using rec [OF True] False by (simp add: decodeRef_def decodes_def)
  qed
qed

lemma decodeChildren_pref:
  assumes L: "rlp_ok L"
    and "\<And>t. t \<in> set ts \<Longrightarrow> (t = PNil \<or> pnode t) \<and> psmall t \<and> (pnode t \<longrightarrow> length (penc L G t) < 32 \<longrightarrow> decodes L G rec t)"
  shows "decodeChildren L rec (length ts) i (concat (map (pref L G) ts) @ rest) = Some (Inr (map (pref_node L G) ts, rest))"
  using assms(2)
proof (induction ts arbitrary: i)
  case (Cons t ts)
  then have "decodeRef L rec (pref L G t @ (concat (map (pref L G) ts) @ rest)) =
      Some (Inr (pref_node L G t, concat (map (pref L G) ts) @ rest))"
    by (intro decodeRef_pref [OF L]) auto
  with Cons show ?case by simp
qed simp

lemma decodeShort_pref:
  assumes L: "rlp_ok L" and t: "pnode (PShort k t)" "psmall (PShort k t)"
    and rec: "pnode t \<Longrightarrow> length (penc L G t) < 32 \<Longrightarrow> decodes L G rec t"
  shows "decodeShort L rec h (concat (ppay L G (PShort k t))) = Some (Inr (pload L G h (PShort k t)))"
proof -
  have c: "ptree t" "t \<noteq> PNil" using t(1) by (auto simp: ptree_def is_leaf_def)
  with psmall_short t(2) have s: "length k < 2 ^ 16" "psmall t" by blast+
  have k: "hex_key k" "hasTerm k = is_leaf t" using hex_key_short t(1) by blast+
  have "length (compact k) \<le> length k + 1" using k(1) length_compact by blast
  with s(1) have split: "rlp_SplitString L (rlp_WriteBytes L (compact k) @ pref L G t) = Inr (compact k, pref L G t)"
    by (intro rlp_SplitString_bytes [OF L]) simp
  show ?thesis
  proof (cases "is_leaf t")
    case True
    then obtain v where v: "t = PVal v" by (auto simp: is_leaf_def)
    with s(2) psmall_val have "rlp_fits v" by fastforce
    then have "rlp_SplitString L (pref L G t) = Inr (v, [])"
      using rlp_SplitString_bytes' [OF L] v by (simp add: ref_of_def)
    with split k compact_ok(2) [OF k(1)] True v show ?thesis by (simp add: decodeShort_def cleanFlag_def)
  next
    case False
    with t(1) have n: "pnode t" by auto
    have "decodeRef L rec (pref L G t @ []) = Some (Inr (pref_node L G t, []))"
      using n s(2) rec by (intro decodeRef_pref [OF L]) auto
    with split k compact_ok(2) [OF k(1)] False show ?thesis by (simp add: decodeShort_def cleanFlag_def)
  qed
qed

lemma decodeFull_pref:
  assumes L: "rlp_ok L" and t: "pnode (PFull ts)" "psmall (PFull ts)"
    and rec: "\<And>t. t \<in> set ts \<Longrightarrow> pnode t \<Longrightarrow> length (penc L G t) < 32 \<Longrightarrow> decodes L G rec t"
  shows "decodeFull L rec h (concat (ppay L G (PFull ts))) = Some (Inr (pload L G h (PFull ts)))"
proof -
  have len: "length ts = 17" using t(1) by simp
  have sub: "x \<in> set (take 16 ts) \<Longrightarrow> x \<in> set ts" for x by (auto dest: in_set_takeD)
  have "decodeChildren L rec (length (take 16 ts)) 0 (concat (map (pref L G) (take 16 ts)) @ pref L G (ts ! 16)) =
      Some (Inr (map (pref_node L G) (take 16 ts), pref L G (ts ! 16)))"
    using full_children [OF t] rec sub by (intro decodeChildren_pref [OF L]) auto
  then have children: "decodeChildren L rec 16 0 (concat (map (pref L G) ts)) =
      Some (Inr (map (pref_node L G) (take 16 ts), pref L G (ts ! 16)))"
    using len by (subst full_split [OF len]) simp
  have split: "\<exists>v. rlp_SplitString L (pref L G (ts ! 16)) = Inr (v, []) \<and> pload L G None (ts ! 16) = (if v = [] then NilNode else ValueNode v) \<and> \<not> inner (ts ! 16)"
  proof (cases "is_leaf (ts ! 16)")
    case True
    then obtain v where v: "ts ! 16 = PVal v" "v \<noteq> []" by (auto simp: is_leaf_def)
    then have "rlp_fits v" using full_value [OF t] psmall_val by fastforce
    then show ?thesis using rlp_SplitString_bytes' [OF L] v by (simp add: ref_of_def)
  next
    case False
    then have "ts ! 16 = PNil" using full_value [OF t] by blast
    then show ?thesis using rlp_SplitString_bytes' [OF L, of "[]"] rlp_empty [OF L] by (simp add: ref_of_def)
  qed
  then have "decodeFull L rec h (concat (map (pref L G) ts)) =
      Some (Inr (FullNode (map (pref_node L G) (take 16 ts) @ [pref_node L G (ts ! 16)]) (cleanFlag h)))"
    using children by (auto simp: decodeFull_def cleanFlag_def)
  also have "map (pref_node L G) (take 16 ts) @ [pref_node L G (ts ! 16)] = map (pref_node L G) ts"
    by (subst (3) full_split [OF len]) simp
  finally show ?thesis by simp
qed

lemma length_child_le: "x \<in> set xs \<Longrightarrow> length x \<le> length (concat xs)"
  by (induction xs) auto

lemma decodeNodeUnsafe_list:
  assumes "rlp_ok L" "rlp_fits p"
  shows "rlp_CountValues L p = 2 \<Longrightarrow> decodeShort L (decodeNodeUnsafe L d None) h p = Some (Inr n) \<Longrightarrow>
      decodeNodeUnsafe L (Suc d) h (rlp_WriteList L p @ rest) = Some (Inr n)"
    and "rlp_CountValues L p = 17 \<Longrightarrow> decodeFull L (decodeNodeUnsafe L d None) h p = Some (Inr n) \<Longrightarrow>
      decodeNodeUnsafe L (Suc d) h (rlp_WriteList L p @ rest) = Some (Inr n)"
  using rlp_list_longer [OF assms] rlp_SplitList_list [OF assms, of rest] by auto

lemma decodeNodeUnsafe_penc:
  assumes L: "rlp_ok L"
  shows "pnode t \<Longrightarrow> psmall t \<Longrightarrow> length (penc L G t) \<le> d \<Longrightarrow>
    decodeNodeUnsafe L d h (penc L G t @ rest) = Some (Inr (pload L G h t))"
proof (induction t arbitrary: d h rest)
  case (PShort k t)
  note fits = ppay_fits [OF L PShort.prems(1,2), of G] and count = ppay_count [OF L PShort.prems(1,2), of G]
  have len: "length (concat (ppay L G (PShort k t))) < length (penc L G (PShort k t))"
    using rlp_list_longer [OF L fits] by (simp add: penc_inner)
  then obtain d' where d: "d = Suc d'" using PShort.prems(3) by (cases d) auto
  have "decodes L G (decodeNodeUnsafe L d' None) t" if n: "pnode t" and "length (penc L G t) < 32"
    unfolding decodes_def
  proof (intro allI PShort.IH n)
    show "psmall t" using psmall_short [OF PShort.prems(2)] n by (cases t) (auto simp: ptree_def)
    have "length (penc L G t) \<le> length (concat (ppay L G (PShort k t)))" using that(2) by (simp add: ref_of_def)
    then show "length (penc L G t) \<le> d'" using len d PShort.prems(3) by linarith
  qed
  then have "decodeShort L (decodeNodeUnsafe L d' None) h (concat (ppay L G (PShort k t))) = Some (Inr (pload L G h (PShort k t)))"
    by (intro decodeShort_pref [OF L PShort.prems(1,2)])
  then show ?case
    unfolding d penc_inner [OF inner_simps(3)] using count by (intro decodeNodeUnsafe_list(1) [OF L fits]) simp_all
next
  case (PFull ts)
  note fits = ppay_fits [OF L PFull.prems(1,2), of G] and count = ppay_count [OF L PFull.prems(1,2), of G]
  have len: "length (concat (ppay L G (PFull ts))) < length (penc L G (PFull ts))"
    using rlp_list_longer [OF L fits] by (simp add: penc_inner)
  then obtain d' where d: "d = Suc d'" using PFull.prems(3) by (cases d) auto
  have l17: "length ts = 17" using PFull.prems(1) by simp
  have "decodes L G (decodeNodeUnsafe L d' None) t" if t: "t \<in> set ts" and n: "pnode t" and "length (penc L G t) < 32" for t
    unfolding decodes_def
  proof (intro allI PFull.IH t n)
    show "psmall t" using PFull.prems(2) psmall_full t l17 by (auto simp: in_set_conv_nth)
    have "penc L G t \<in> set (ppay L G (PFull ts))" using t that(3) by (force simp: ref_of_def)
    then show "length (penc L G t) \<le> d'" using length_child_le len d PFull.prems(3) by fastforce
  qed
  then have "decodeFull L (decodeNodeUnsafe L d' None) h (concat (ppay L G (PFull ts))) = Some (Inr (pload L G h (PFull ts)))"
    by (intro decodeFull_pref [OF L PFull.prems(1,2)])
  then show ?case
    unfolding d penc_inner [OF inner_simps(4)] using count l17 by (intro decodeNodeUnsafe_list(2) [OF L fits]) simp_all
qed auto

lemma mustDecodeNode_penc:
  assumes "rlp_ok L" "pnode t" "psmall t"
  shows "mustDecodeNode L h (penc L G t) = Some (pload L G h t)"
  using decodeNodeUnsafe_penc [OF assms, of G "Suc (length (penc L G t))" h "[]"]
  by (simp add: mustDecodeNode_def decodeNode_def)

end
