(* ===== verification/TrieRefine.thy ===== *)
theory TrieRefine
  imports Trie TrieCodec
begin

text \<open>
  The nodes in memory and in the store represent a canonical tree, and the operations of the trie act on
  that tree as the operations of TrieSpec do, whatever part of it still has to be loaded.
\<close>

subsection \<open>What is stored\<close>

definition in_store :: "rlp \<Rightarrow> geth \<Rightarrow> trieReader \<Rightarrow> byte list \<Rightarrow> ptrie \<Rightarrow> bool" where
  "in_store L G r p t \<longleftrightarrow> reader_node r p (BytesToHash (phash L G t)) = Inr (penc L G t)"

abbreviation hashed :: "rlp \<Rightarrow> geth \<Rightarrow> ptrie \<Rightarrow> bool" where
  "hashed L G t \<equiv> inner t \<and> 32 \<le> length (penc L G t)"

lemma size_nth_less [termination_simp]: "i < length ts \<Longrightarrow> size (ts ! i) < Suc (size_list size ts)"
  using size_list_estimation' [of "ts ! i" ts "size (ts ! i)" size] by simp

text \<open>
  Everything below the root of a tree that is referred to by its hash is provided for: \<open>S\<close> says which tree
  is, at which path.
\<close>

fun kept :: "rlp \<Rightarrow> geth \<Rightarrow> (byte list \<Rightarrow> ptrie \<Rightarrow> bool) \<Rightarrow> byte list \<Rightarrow> ptrie \<Rightarrow> bool" where
  "kept L G S p PNil = True"
| "kept L G S p (PVal v) = True"
| "kept L G S p (PShort k t) = ((hashed L G t \<longrightarrow> S (p @ k) t) \<and> kept L G S (p @ k) t)"
| "kept L G S p (PFull ts) =
     (\<forall>i < length ts. (hashed L G (ts ! i) \<longrightarrow> S (p @ [of_nat i]) (ts ! i)) \<and> kept L G S (p @ [of_nat i]) (ts ! i))"

text \<open>A hash that stands for a tree: its own hash, which only the root has when it is small.\<close>

definition hash_ok :: "rlp \<Rightarrow> geth \<Rightarrow> byte list \<Rightarrow> byte list \<Rightarrow> ptrie \<Rightarrow> bool" where
  "hash_ok L G p h t \<longleftrightarrow> h = phash L G t \<and> (p = [] \<or> 32 \<le> length (penc L G t))"

text \<open>
  The hash cached in a node is right, and a node that is not dirty is in the store with all below it or so
  small that its parent holds it.
\<close>

definition cache_ok :: "rlp \<Rightarrow> geth \<Rightarrow> trieReader \<Rightarrow> byte list \<Rightarrow> nodeFlag \<Rightarrow> ptrie \<Rightarrow> bool" where
  "cache_ok L G r p fl t \<longleftrightarrow>
     (case nf_hash fl of
        None \<Rightarrow> nf_dirty fl \<or> p \<noteq> [] \<and> length (penc L G t) < 32
      | Some h \<Rightarrow> hash_ok L G p h t \<and> (\<not> nf_dirty fl \<longrightarrow> in_store L G r p t \<and> kept L G (in_store L G r) p t))"

text \<open>
  A node is settled when every node in memory from it on has its hash cached, the small ones apart. What is
  below a node with a cached hash is settled.
\<close>

fun settled :: "rlp \<Rightarrow> geth \<Rightarrow> byte list \<Rightarrow> node \<Rightarrow> ptrie \<Rightarrow> bool" where
  "settled L G p (ShortNode k c fl) t =
     ((nf_hash fl = None \<longrightarrow> p \<noteq> [] \<and> length (penc L G t) < 32) \<and>
      (case t of PShort _ t' \<Rightarrow> settled L G (p @ k) c t' | _ \<Rightarrow> True))"
| "settled L G p (FullNode cs fl) t =
     ((nf_hash fl = None \<longrightarrow> p \<noteq> [] \<and> length (penc L G t) < 32) \<and>
      (case t of PFull ts \<Rightarrow> \<forall>i < length cs. settled L G (p @ [of_nat i]) (cs ! i) (ts ! i) | _ \<Rightarrow> True))"
| "settled L G p n t = True"

inductive reps :: "rlp \<Rightarrow> geth \<Rightarrow> trieReader \<Rightarrow> byte list \<Rightarrow> node \<Rightarrow> ptrie \<Rightarrow> bool" for L G r where
  reps_nil: "reps L G r p NilNode PNil"
| reps_val: "reps L G r p (ValueNode v) (PVal v)"
| reps_short: "reps L G r (p @ k) c t \<Longrightarrow> cache_ok L G r p fl (PShort k t) \<Longrightarrow>
    (nf_hash fl \<noteq> None \<longrightarrow> settled L G (p @ k) c t) \<Longrightarrow> reps L G r p (ShortNode k c fl) (PShort k t)"
| reps_full: "length cs = length ts \<Longrightarrow> (\<And>i. i < length ts \<Longrightarrow> reps L G r (p @ [of_nat i]) (cs ! i) (ts ! i)) \<Longrightarrow>
    cache_ok L G r p fl (PFull ts) \<Longrightarrow>
    (\<And>i. i < length ts \<Longrightarrow> nf_hash fl \<noteq> None \<longrightarrow> settled L G (p @ [of_nat i]) (cs ! i) (ts ! i)) \<Longrightarrow>
    reps L G r p (FullNode cs fl) (PFull ts)"
| reps_hash: "hash_ok L G p h t \<Longrightarrow> in_store L G r p t \<Longrightarrow> kept L G (in_store L G r) p t \<Longrightarrow> pnode t \<Longrightarrow> psmall t \<Longrightarrow>
    reps L G r p (HashNode h) t"

inductive_simps reps_simps:
  "reps L G r p NilNode t"
  "reps L G r p (ValueNode v) t"
  "reps L G r p (HashNode h) t"
  "reps L G r p (ShortNode k c fl) t"
  "reps L G r p (FullNode cs fl) t"

inductive_cases reps_PNil: "reps L G r p n PNil"
inductive_cases reps_PVal: "reps L G r p n (PVal v)"

text \<open>The node of a tree with children is in memory, or a hash to load it by.\<close>

lemma reps_inner_cases [consumes 1, case_names short full load other]:
  assumes "reps L G r p n t"
  obtains k c fl t' where "n = ShortNode k c fl" "t = PShort k t'"
    | cs fl ts where "n = FullNode cs fl" "t = PFull ts"
    | h where "n = HashNode h"
    | "\<not> inner t"
  using assms by (cases n) (auto simp: reps_simps)

lemma newFlag_hash [simp]: "nf_hash newFlag = None" "nf_dirty newFlag"
  by (simp_all add: newFlag_def)

lemma cleanFlag_hash [simp]: "nf_hash (cleanFlag h) = h" "\<not> nf_dirty (cleanFlag h)"
  by (simp_all add: cleanFlag_def)

lemma cache_ok_new [simp]: "cache_ok L G r p newFlag t"
  by (simp add: cache_ok_def)

lemma cache_ok_none: "cache_ok L G r p (cleanFlag None) t \<longleftrightarrow> p \<noteq> [] \<and> length (penc L G t) < 32"
  by (simp add: cache_ok_def cleanFlag_def)

lemma cache_ok_clean: "cache_ok L G r p (cleanFlag (Some h)) t \<longleftrightarrow> hash_ok L G p h t \<and> in_store L G r p t \<and> kept L G (in_store L G r) p t"
  by (simp add: cache_ok_def cleanFlag_def)

lemma reps_nil_iff: "reps L G r p n t \<Longrightarrow> n = NilNode \<longleftrightarrow> t = PNil"
  by (auto simp: reps_simps elim: reps_PNil)

subsection \<open>Loading\<close>

text \<open>The node that decoding gives represents the tree that was encoded.\<close>

lemma reps_pref:
  assumes "rlp_ok L" "ptree t" "psmall t" "kept L G (in_store L G r) p t" "p \<noteq> []" "hashed L G t \<longrightarrow> in_store L G r p t"
    and "\<not> hashed L G t \<Longrightarrow> reps L G r p (pload L G None t) t"
  shows "reps L G r p (pref_node L G t) t"
proof (cases "hashed L G t")
  case True
  with assms(2) have "pnode t" by (auto simp: ptree_def is_leaf_def)
  with True assms(3-6) show ?thesis by (auto simp: reps_simps hash_ok_def)
qed (use assms(7) in auto)

lemma settled_pload:
  "ptree t \<Longrightarrow> h = None \<longrightarrow> p \<noteq> [] \<and> length (penc L G t) < 32 \<Longrightarrow> settled L G p (pload L G h t) t"
proof (induction t arbitrary: p h)
  case (PShort k t)
  then have "pnode (PShort k t)" by (simp add: ptree_def is_leaf_def)
  then have "ptree t" "k \<noteq> []" by (auto simp: ptree_def is_leaf_def)
  then show ?case using PShort by (cases "inner t") (auto simp: inner_def split: ptrie.splits)
next
  case (PFull ts)
  then have n: "pnode (PFull ts)" by (simp add: ptree_def is_leaf_def)
  then have len: "length ts = 17" by simp
  have "settled L G (p @ [of_nat i]) (pref_node L G (ts ! i)) (ts ! i)" if "i < 17" for i
  proof (cases "inner (ts ! i)")
    case True
    then show ?thesis using PFull.IH [of "ts ! i"] that len ptree_full_child [OF n that] by auto
  next
    case False
    then show ?thesis by (cases "ts ! i") (auto simp: inner_def)
  qed
  then show ?case using PFull.prems len by simp
qed simp_all

lemma settled_pref: "ptree t \<Longrightarrow> p \<noteq> [] \<Longrightarrow> settled L G p (pref_node L G t) t"
  using settled_pload [of t None p L G] by (cases "inner t") (auto simp: inner_def split: ptrie.splits)

lemma reps_pload:
  assumes L: "rlp_ok L"
  shows "ptree t \<Longrightarrow> psmall t \<Longrightarrow> kept L G (in_store L G r) p t \<Longrightarrow>
    (\<And>h'. h = Some h' \<Longrightarrow> hash_ok L G p h' t \<and> in_store L G r p t) \<Longrightarrow>
    h = None \<longrightarrow> inner t \<longrightarrow> p \<noteq> [] \<and> length (penc L G t) < 32 \<Longrightarrow>
    reps L G r p (pload L G h t) t"
proof (induction t arbitrary: p h)
  case (PShort k t)
  then have n: "pnode (PShort k t)" by (simp add: ptree_def is_leaf_def)
  then have t: "ptree t" "t \<noteq> PNil" "k \<noteq> []" by (auto simp: ptree_def is_leaf_def)
  then have s: "psmall t" using psmall_short PShort.prems(2) by blast
  have "reps L G r (p @ k) (pref_node L G t) t"
    using t s PShort.prems(3) PShort.IH [of "p @ k" None] by (intro reps_pref [OF L]) auto
  moreover have "cache_ok L G r p (cleanFlag h) (PShort k t)"
    using PShort.prems(3,4,5) by (cases h) (auto simp: cache_ok_clean cache_ok_none)
  moreover have "settled L G (p @ k) (pref_node L G t) t" using t by (intro settled_pref) auto
  ultimately show ?case by (simp add: reps_simps split del: if_split)
next
  case (PFull ts)
  then have n: "pnode (PFull ts)" by (simp add: ptree_def is_leaf_def)
  then have len: "length ts = 17" by simp
  have "reps L G r (p @ [of_nat i]) (pref_node L G (ts ! i)) (ts ! i)" if i: "i < 17" for i
    using i len PFull.prems(3) psmall_full [OF PFull.prems(2), of i] ptree_full_child [OF n i]
      PFull.IH [of "ts ! i" "p @ [of_nat i]" None] by (intro reps_pref [OF L]) auto
  moreover have "cache_ok L G r p (cleanFlag h) (PFull ts)"
    using PFull.prems(3,4,5) by (cases h) (auto simp: cache_ok_clean cache_ok_none)
  moreover have "settled L G (p @ [of_nat i]) (pref_node L G (ts ! i)) (ts ! i)" if i: "i < 17" for i
    using ptree_full_child [OF n i] by (intro settled_pref) auto
  ultimately show ?case using len by (simp add: reps_simps split del: if_split)
qed (simp_all add: reps_simps)

text \<open>
  The reader of a trie may have lost nodes: it finds some of what a complete reader \<open>R\<close> finds, and nothing
  else. An operation that meets a lost node returns the error of the reader.
\<close>

definition sub_reader :: "trieReader \<Rightarrow> trieReader \<Rightarrow> bool" where
  "sub_reader r R \<longleftrightarrow> (\<forall>p h blob. reader_node r p h = Inr blob \<longrightarrow> reader_node R p h = Inr blob)"

definition lost :: "trieReader \<Rightarrow> trieReader \<Rightarrow> trie_error \<Rightarrow> bool" where
  "lost R r e \<longleftrightarrow> (\<exists>p h blob. reader_node R p h = Inr blob \<and> reader_node r p h = Inl e)"

definition outcome :: "trieReader \<Rightarrow> trieReader \<Rightarrow> (tracer \<times> (trie_error + 'a)) option \<Rightarrow> ('a \<Rightarrow> bool) \<Rightarrow> bool" where
  "outcome R r out P \<longleftrightarrow>
     (case out of None \<Rightarrow> False | Some (_, Inl e) \<Rightarrow> lost R r e | Some (_, Inr x) \<Rightarrow> P x)"

lemma outcome_simps [simp]:
  "outcome R r (Some (tr, Inl e)) P = lost R r e" "outcome R r (Some (tr, Inr x)) P = P x" "\<not> outcome R r None P"
  by (simp_all add: outcome_def)

lemma outcome_cases [consumes 1, case_names lost ok]:
  assumes "outcome R r out P"
  obtains tr e where "out = Some (tr, Inl e)" "lost R r e" | tr x where "out = Some (tr, Inr x)" "P x"
proof (cases out)
  case (Some x)
  then show ?thesis using assms that by (cases x; cases "snd x") auto
qed (use assms in simp)

lemma sub_reader_refl [simp]: "sub_reader r r"
  by (simp add: sub_reader_def)

lemma outcome_complete: "outcome R R out P \<Longrightarrow> \<exists>tr x. out = Some (tr, Inr x) \<and> P x"
  by (erule outcome_cases) (auto simp: lost_def)

lemma pload_reps:
  assumes "rlp_ok L" "reps L G R p (HashNode h) t"
  shows "reps L G R p (pload L G (Some h) t) t \<and> pnode t"
  using assms by (auto simp: reps_simps ptree_def intro!: reps_pload)

lemma resolveAndTrack_outcome:
  assumes L: "rlp_ok L" and rep: "reps L G R p (HashNode h) t" and r: "sub_reader r R"
  shows "outcome R r (resolveAndTrack L r tr h p) (\<lambda>n. n = pload L G (Some h) t)"
proof -
  have h: "hash_ok L G p h t" "in_store L G R p t" "pnode t" "psmall t" using rep by (auto simp: reps_simps)
  then have found: "reader_node R p (BytesToHash h) = Inr (penc L G t)" by (simp add: in_store_def hash_ok_def)
  show ?thesis
  proof (cases "reader_node r p (BytesToHash h)")
    case (Inl e)
    then show ?thesis using found by (auto simp: resolveAndTrack_def lost_def)
  next
    case (Inr blob)
    then have "blob = penc L G t" using found r unfolding sub_reader_def by (metis sum.inject(2))
    then show ?thesis
      using Inr mustDecodeNode_penc [OF L h(3,4), of "Some h" G] by (simp add: resolveAndTrack_def)
  qed
qed

lemma resolveAndTrack_reps:
  assumes "rlp_ok L" "reps L G R p (HashNode h) t"
  shows "\<exists>tr'. resolveAndTrack L R tr h p = Some (tr', Inr (pload L G (Some h) t))"
  using resolveAndTrack_outcome [OF assms sub_reader_refl, of tr] by (auto dest: outcome_complete)

subsection \<open>Get\<close>

definition get_ok :: "rlp \<Rightarrow> geth \<Rightarrow> trieReader \<Rightarrow> trieReader \<Rightarrow> tracer \<Rightarrow> node \<Rightarrow> byte list \<Rightarrow> nat \<Rightarrow> ptrie \<Rightarrow> bool" where
  "get_ok L G R r tr n key pos t \<longleftrightarrow>
     outcome R r (trie_get L r tr n key pos) (\<lambda>(v, n', d). v = plookup t (drop pos key) \<and>
       reps L G R (take pos key) n' t \<and> (\<not> d \<longrightarrow> n' = n) \<and>
       (settled L G (take pos key) n t \<longrightarrow> settled L G (take pos key) n' t))"

lemma get_ok_hash:
  assumes "rlp_ok L" "reps L G R (take pos key) (HashNode h) t" "sub_reader r R"
    and "\<And>tr. get_ok L G R r tr (pload L G (Some h) t) key pos t"
  shows "get_ok L G R r tr (HashNode h) key pos t"
proof -
  have "pnode t" using assms(2) by (simp add: reps_simps)
  then have set: "settled L G (take pos key) (pload L G (Some h) t) t" by (intro settled_pload) (auto simp: ptree_def)
  from resolveAndTrack_outcome [OF assms(1-3), of tr] show ?thesis
  proof (cases rule: outcome_cases)
    case (lost tr' e)
    then show ?thesis unfolding get_ok_def by (subst trie_get.simps) simp
  next
    case res: (ok tr' n)
    from assms(4) [of tr', unfolded get_ok_def] show ?thesis
    proof (cases rule: outcome_cases)
      case (lost tr'' e)
      then show ?thesis unfolding get_ok_def using res by (subst trie_get.simps) simp
    next
      case (ok tr'' x)
      then show ?thesis unfolding get_ok_def using res set by (subst trie_get.simps) auto
    qed
  qed
qed

lemma trie_get_reps:
  assumes L: "rlp_ok L" and r: "sub_reader r R"
  shows "reps L G R (take pos key) n t \<Longrightarrow> pfits (drop pos key) t \<Longrightarrow> get_ok L G R r tr n key pos t"
proof (induction t arbitrary: n pos tr)
  case PNil
  then show ?case unfolding get_ok_def by (subst trie_get.simps) (auto elim!: reps_PNil simp: reps_simps)
next
  case (PVal v)
  then show ?case
    unfolding get_ok_def by (subst trie_get.simps) (auto elim!: reps_PVal simp: reps_simps pfits_cases)
next
  case (PShort k t)
  have n: "pnode (PShort k t)" "tkey (drop pos key)" using PShort.prems(2) by (auto simp: pfits_cases)
  have direct: "get_ok L G R r tr (ShortNode k c fl) key pos (PShort k t)"
    if rep: "reps L G R (take pos key) (ShortNode k c fl) (PShort k t)" for c fl tr
  proof (cases "take (length k) (drop pos key) = k")
    case True
    then have len: "\<not> length key < pos + length k" "take (pos + length k) key = take pos key @ k"
      using n(2) arg_cong [OF True, of length] by (auto simp: take_add)
    have rep': "reps L G R (take (pos + length k) key) c t" using rep len(2) by (simp add: reps_simps)
    have d: "drop pos key = k @ drop (pos + length k) key"
      using append_take_drop_id [of "length k" "drop pos key"] True by (simp add: add.commute)
    have "pfits (drop (pos + length k) key) t" using pfits_short [OF n(1) n(2) [unfolded d]] by simp
    from PShort.IH [OF rep' this, of tr] show ?thesis
      unfolding get_ok_def d using rep True len
      by (subst trie_get.simps, cases rule: outcome_cases) (auto simp: reps_simps)
  next
    case False
    then show ?thesis unfolding get_ok_def using rep by (subst trie_get.simps) auto
  qed
  from PShort.prems(1) show ?case
  proof (cases rule: reps_inner_cases)
    case (load h)
    have "get_ok L G R r tr (pload L G (Some h) (PShort k t)) key pos (PShort k t)" for tr
      using pload_reps [OF L, of G R "take pos key" h "PShort k t"] PShort.prems(1) load direct by simp
    then show ?thesis using PShort.prems(1) unfolding load by (intro get_ok_hash [OF L _ r]) auto
  qed (use direct PShort.prems(1) in auto)
next
  case (PFull ts)
  have n: "pnode (PFull ts)" "tkey (drop pos key)" using PFull.prems(2) by (auto simp: pfits_cases)
  then have len: "length ts = 17" by simp
  from pfits_full [OF n] obtain b s where
    b: "drop pos key = b # s" "unat b < 17" "pfits s (ts ! unat b)" by blast
  have pos: "pos < length key" using b(1) by (cases "pos < length key") auto
  then have key: "pos < length key" "key ! pos = b" "drop (pos + 1) key = s" "take (pos + 1) key = take pos key @ [b]"
    using nth_via_drop [OF b(1)] Cons_nth_drop_Suc [OF pos] b(1) by (auto simp: take_Suc_conv_app_nth)
  have direct: "get_ok L G R r tr (FullNode cs fl) key pos (PFull ts)"
    if rep: "reps L G R (take pos key) (FullNode cs fl) (PFull ts)" for cs fl tr
  proof -
    have rep': "reps L G R (take (pos + 1) key) (cs ! unat b) (ts ! unat b)" and l: "length cs = 17"
      using rep b(2) len key(4) by (auto simp: reps_simps)
    have "get_ok L G R r tr (cs ! unat b) key (pos + 1) (ts ! unat b)"
      using b rep' len key(3) by (intro PFull.IH) auto
    from this [unfolded get_ok_def] show ?thesis
    proof (cases rule: outcome_cases)
      case (lost tr' e)
      then show ?thesis unfolding get_ok_def
        using key(1,2) b(1,2) len l by (subst trie_get.simps) (simp add: child_def)
    next
      case (ok tr' x)
      then obtain n' d where
        g: "trie_get L r tr (cs ! unat b) key (pos + 1) = Some (tr', Inr (plookup (ts ! unat b) s, n', d))"
          "reps L G R (take (pos + 1) key) n' (ts ! unat b)" "\<not> d \<longrightarrow> n' = cs ! unat b"
          "settled L G (take (pos + 1) key) (cs ! unat b) (ts ! unat b) \<longrightarrow> settled L G (take (pos + 1) key) n' (ts ! unat b)"
        unfolding key(3) by (cases x) auto
      have "reps L G R (take pos key) (FullNode (cs[unat b := n']) fl) (PFull ts)"
        using rep g(2,4) key(4) len l b(2) by (auto simp: reps_simps nth_list_update)
      moreover have "settled L G (take pos key) (FullNode (cs[unat b := n']) fl) (PFull ts)"
        if "settled L G (take pos key) (FullNode cs fl) (PFull ts)"
        using that g(4) key(4) len l b(2) by (auto simp: nth_list_update)
      ultimately show ?thesis unfolding get_ok_def
        using rep g(1,3) key(1,2) b(1,2) len l
        by (subst trie_get.simps) (auto simp: child_def simp del: settled.simps)
    qed
  qed
  from PFull.prems(1) show ?case
  proof (cases rule: reps_inner_cases)
    case (load h)
    have "get_ok L G R r tr (pload L G (Some h) (PFull ts)) key pos (PFull ts)" for tr
      using pload_reps [OF L, of G R "take pos key" h "PFull ts"] PFull.prems(1) load direct by simp
    then show ?thesis using PFull.prems(1) unfolding load by (intro get_ok_hash [OF L _ r]) auto
  qed (use direct PFull.prems(1) in auto)
qed

subsection \<open>Insert\<close>

lemma pinsert_same:
  assumes "pfits s t" "v \<noteq> []" "plookup t s = Some v"
  shows "pinsert t s v = t"
proof (rule ptree_unique)
  show "ptree (pinsert t s v)" using pinsert_wf [OF assms(1,2)] by (auto simp: ptree_def split: if_splits)
  show "ptree t" using assms(1) by (auto simp: ptree_def pfits_def pwf_def split: if_splits)
  show "plookup (pinsert t s v) x = plookup t x" for x using pinsert_lookup [OF assms(1), of v x] assms(3) by simp
qed

definition short_node :: "byte list \<Rightarrow> node \<Rightarrow> node" where
  "short_node k c = (if k = [] then c else ShortNode k c newFlag)"

lemma trie_insert_nil:
  "trie_insert L r tr NilNode p s c = Some (if s = [] then tr else onInsert tr p, Inr (True, short_node s c))"
  by (subst trie_insert.simps) (simp add: short_node_def)

lemma reps_short_node: "reps L G R (p @ k) c t \<Longrightarrow> reps L G R p (short_node k c) (pshort k t)"
  by (cases "k = []") (simp_all add: short_node_def pshort_def reps_simps)

lemma reps_branch:
  assumes "unat b < 17" "unat b' < 17" "b \<noteq> b'" "reps L G R (p @ [b]) c t" "reps L G R (p @ [b']) c' t'"
  shows "reps L G R p (FullNode ((replicate 17 NilNode)[unat b := c, unat b' := c']) newFlag) (pbranch b t b' t')"
  using assms by (auto simp: pbranch_def reps_simps nth_list_update word_unat_eq_iff)

definition insert_ok :: "rlp \<Rightarrow> geth \<Rightarrow> trieReader \<Rightarrow> trieReader \<Rightarrow> tracer \<Rightarrow> node \<Rightarrow> byte list \<Rightarrow> byte list \<Rightarrow> byte list \<Rightarrow> ptrie \<Rightarrow> bool" where
  "insert_ok L G R r tr n prefix key v t \<longleftrightarrow>
     outcome R r (trie_insert L r tr n prefix key (ValueNode v)) (\<lambda>(d, n'). d = (plookup t key \<noteq> Some v) \<and>
       reps L G R prefix n' (pinsert t key v))"

lemma insert_ok_hash:
  assumes "rlp_ok L" "reps L G R prefix (HashNode h) t" "sub_reader r R" "key \<noteq> []" "pfits key t" "v \<noteq> []"
    and "\<And>tr. insert_ok L G R r tr (pload L G (Some h) t) prefix key v t"
  shows "insert_ok L G R r tr (HashNode h) prefix key v t"
  using resolveAndTrack_outcome [OF assms(1-3), of tr]
proof (cases rule: outcome_cases)
  case (lost tr' e)
  then show ?thesis unfolding insert_ok_def using assms(4) by (subst trie_insert.simps) simp
next
  case res: (ok tr' n)
  from assms(7) [of tr', unfolded insert_ok_def] show ?thesis
  proof (cases rule: outcome_cases)
    case (lost tr'' e)
    then show ?thesis unfolding insert_ok_def using res assms(4) by (subst trie_insert.simps) simp
  next
    case (ok tr'' x)
    then show ?thesis
      unfolding insert_ok_def using res assms(4) pinsert_same [OF assms(5,6)] pload_reps [OF assms(1,2)]
      by (subst trie_insert.simps) (auto split: if_splits)
  qed
qed

lemma trie_insert_reps:
  assumes L: "rlp_ok L" and r: "sub_reader r R" and v: "v \<noteq> []"
  shows "reps L G R prefix n t \<Longrightarrow> pfits key t \<Longrightarrow> insert_ok L G R r tr n prefix key v t"
proof (induction t arbitrary: n prefix key tr)
  case PNil
  then have "n = NilNode" using reps_nil_iff by blast
  then show ?case
    unfolding insert_ok_def using reps_short_node [of L G R prefix key "ValueNode v" "PVal v"]
    by (auto simp: trie_insert_nil reps_simps)
next
  case (PVal w)
  then have "n = ValueNode w" "key = []" by (auto elim: reps_PVal simp: pfits_cases)
  then show ?case unfolding insert_ok_def by (subst trie_insert.simps) (auto simp: reps_simps)
next
  case (PShort k t)
  have n: "pnode (PShort k t)" "tkey key" using PShort.prems(2) by (auto simp: pfits_cases)
  have direct: "insert_ok L G R r tr (ShortNode k c fl) prefix key v (PShort k t)"
    if rep: "reps L G R prefix (ShortNode k c fl) (PShort k t)" for c fl tr
    using n
  proof (cases rule: pinsert_short_cases)
    case (follow s)
    have c: "reps L G R (prefix @ k) c t" using rep by (simp add: reps_simps)
    have "pfits s t" using pfits_short n follow(1) by blast
    from PShort.IH [OF c this, of tr, unfolded insert_ok_def] show ?thesis
    proof (cases rule: outcome_cases)
      case (lost tr' e)
      then show ?thesis unfolding insert_ok_def using follow n(2) tkey_nonempty by (subst trie_insert.simps) auto
    next
      case (ok tr' x)
      show ?thesis
      proof (cases "plookup t s = Some v")
        case True
        then have "pinsert (PShort k t) key v = PShort k t" using PShort.prems(2) v follow(1) by (intro pinsert_same) auto
        then show ?thesis unfolding insert_ok_def using ok True follow rep n(2) tkey_nonempty
          by (subst trie_insert.simps) (auto simp del: pinsert.simps)
      next
        case False
        then show ?thesis unfolding insert_ok_def using ok follow n(2) tkey_nonempty
          by (subst trie_insert.simps) (auto simp: reps_simps)
      qed
    qed
  next
    case (branch p b s b' k')
    let ?c1 = "short_node k' c" and ?c2 = "short_node s (ValueNode v)"
    have "reps L G R ((prefix @ p) @ [b']) ?c1 (pshort k' t)"
      using rep branch(3) by (intro reps_short_node) (simp add: reps_simps)
    moreover have "reps L G R ((prefix @ p) @ [b]) ?c2 (pshort s (PVal v))"
      by (intro reps_short_node) (simp add: reps_simps)
    ultimately have br: "reps L G R (prefix @ p)
        (FullNode ((replicate 17 NilNode)[unat b' := ?c1, unat b := ?c2]) newFlag) (pbranch b' (pshort k' t) b (pshort s (PVal v)))"
      using branch(4-6) by (intro reps_branch) auto
    have nv: "plookup (PShort k t) key \<noteq> Some v"
      using branch(7,8) prefixLen_full [of key k] by simp
    have pi: "pinsert (PShort k t) key v = pshort p (pbranch b' (pshort k' t) b (pshort s (PVal v)))"
      using branch by (simp add: Let_def)
    show ?thesis
      unfolding insert_ok_def pi using branch nv br reps_short_node [OF br]
      by (subst trie_insert.simps) (auto simp: Let_def trie_insert_nil short_node_def not_le simp del: plookup.simps)
  qed
  from PShort.prems(1) show ?case
  proof (cases rule: reps_inner_cases)
    case (load h)
    have "insert_ok L G R r tr (pload L G (Some h) (PShort k t)) prefix key v (PShort k t)" for tr
      using pload_reps [OF L, of G R prefix h "PShort k t"] PShort.prems(1) load direct by simp
    then show ?thesis using PShort.prems n(2) v unfolding load by (intro insert_ok_hash [OF L _ r]) auto
  qed (use direct PShort.prems(1) in auto)
next
  case (PFull ts)
  have n: "pnode (PFull ts)" "tkey key" using PFull.prems(2) by (auto simp: pfits_cases)
  then have len: "length ts = 17" by simp
  from pfits_full [OF n] obtain b s where b: "key = b # s" "unat b < 17" "pfits s (ts ! unat b)" by blast
  have direct: "insert_ok L G R r tr (FullNode cs fl) prefix key v (PFull ts)"
    if rep: "reps L G R prefix (FullNode cs fl) (PFull ts)" for cs fl tr
  proof -
    have c: "reps L G R (prefix @ [b]) (cs ! unat b) (ts ! unat b)" and l: "length cs = 17"
      using rep b(2) len by (auto simp: reps_simps)
    have "insert_ok L G R r tr (cs ! unat b) (prefix @ [b]) s v (ts ! unat b)"
      using b c len by (intro PFull.IH) auto
    from this [unfolded insert_ok_def] show ?thesis
    proof (cases rule: outcome_cases)
      case (lost tr' e)
      then show ?thesis unfolding insert_ok_def using b l by (subst trie_insert.simps) (auto simp: child_def)
    next
      case (ok tr' x)
      then obtain n' where
        i: "trie_insert L r tr (cs ! unat b) (prefix @ [b]) s (ValueNode v) = Some (tr', Inr (plookup (ts ! unat b) s \<noteq> Some v, n'))"
          "reps L G R (prefix @ [b]) n' (pinsert (ts ! unat b) s v)" by (cases x) auto
      show ?thesis
      proof (cases "plookup (ts ! unat b) s = Some v")
        case True
        then have "pinsert (PFull ts) key v = PFull ts" using PFull.prems(2) v b len by (intro pinsert_same) auto
        then show ?thesis unfolding insert_ok_def using i True b l len rep
          by (subst trie_insert.simps) (auto simp: child_def simp del: pinsert.simps)
      next
        case False
        have "reps L G R prefix (FullNode (cs[unat b := n']) newFlag) (PFull (ts[unat b := pinsert (ts ! unat b) s v]))"
          using rep i(2) len l b(2) by (auto simp: reps_simps nth_list_update)
        then show ?thesis unfolding insert_ok_def using i False b l len
          by (subst trie_insert.simps) (auto simp: child_def)
      qed
    qed
  qed
  from PFull.prems(1) show ?case
  proof (cases rule: reps_inner_cases)
    case (load h)
    have "insert_ok L G R r tr (pload L G (Some h) (PFull ts)) prefix key v (PFull ts)" for tr
      using pload_reps [OF L, of G R prefix h "PFull ts"] PFull.prems(1) load direct by simp
    then show ?thesis using PFull.prems n(2) v unfolding load by (intro insert_ok_hash [OF L _ r]) auto
  qed (use direct PFull.prems(1) in auto)
qed

subsection \<open>Delete\<close>

lemma reduce_pos_found: "0 \<le> pos \<Longrightarrow> reduce_pos i pos cs = (if \<forall>c \<in> set cs. c = NilNode then pos else -2)"
  by (induction cs arbitrary: i) auto

lemma upt_filter_shift:
  "filter (\<lambda>j. P ((c # cs) ! (j - i))) [i..<i + length (c # cs)] =
   (if P c then [i] else []) @ filter (\<lambda>j. P (cs ! (j - Suc i))) [Suc i..<Suc i + length cs]"
proof -
  have "filter (\<lambda>j. P ((c # cs) ! (j - i))) [Suc i..<Suc i + length cs] = filter (\<lambda>j. P (cs ! (j - Suc i))) [Suc i..<Suc i + length cs]"
    by (intro filter_cong refl) (auto simp: nth_Cons' simp del: upt_Suc)
  moreover have "[i..<i + length (c # cs)] = i # [Suc i..<Suc i + length cs]" by (simp add: upt_conv_Cons del: upt_Suc)
  ultimately show ?thesis by simp
qed

lemma reduce_pos_filter:
  "reduce_pos i (-1) cs =
   (case filter (\<lambda>j. cs ! (j - i) \<noteq> NilNode) [i..<i + length cs] of [] \<Rightarrow> -1 | [j] \<Rightarrow> int j | _ \<Rightarrow> -2)"
proof (induction cs arbitrary: i)
  case (Cons c cs)
  have none: "(\<forall>c \<in> set cs. c = NilNode) \<longleftrightarrow> filter (\<lambda>j. cs ! (j - Suc i) \<noteq> NilNode) [Suc i..<Suc i + length cs] = []"
  proof
    assume "\<forall>c \<in> set cs. c = NilNode"
    then show "filter (\<lambda>j. cs ! (j - Suc i) \<noteq> NilNode) [Suc i..<Suc i + length cs] = []"
      by (auto simp: filter_empty_conv simp del: upt_Suc intro!: nth_mem)
  next
    assume "filter (\<lambda>j. cs ! (j - Suc i) \<noteq> NilNode) [Suc i..<Suc i + length cs] = []"
    then have "cs ! (j - Suc i) = NilNode" if "Suc i \<le> j" "j < Suc i + length cs" for j
      using that by (simp add: filter_empty_conv del: upt_Suc)
    from this [of "Suc i + k" for k] show "\<forall>c \<in> set cs. c = NilNode" by (auto simp: in_set_conv_nth)
  qed
  show ?case
    unfolding upt_filter_shift [of "\<lambda>c. c \<noteq> NilNode"] using Cons [of "Suc i"] none
    by (auto simp: reduce_pos_found split: list.splits)
qed simp

lemma reduce_pos_0:
  "reduce_pos 0 (-1) cs = (case filter (\<lambda>j. cs ! j \<noteq> NilNode) [0..<length cs] of [] \<Rightarrow> -1 | [j] \<Rightarrow> int j | _ \<Rightarrow> -2)"
  using reduce_pos_filter [of 0 cs] by simp

definition is_hash :: "node \<Rightarrow> bool" where
  "is_hash n \<longleftrightarrow> (\<exists>h. n = HashNode h)"

definition delete_ok :: "rlp \<Rightarrow> geth \<Rightarrow> trieReader \<Rightarrow> trieReader \<Rightarrow> tracer \<Rightarrow> node \<Rightarrow> byte list \<Rightarrow> byte list \<Rightarrow> ptrie \<Rightarrow> bool" where
  "delete_ok L G R r tr n prefix key t \<longleftrightarrow>
     outcome R r (trie_delete L r tr n prefix key) (\<lambda>(d, n'). d = (plookup t key \<noteq> None) \<and>
       reps L G R prefix n' (pdelete t key) \<and> (plookup t key \<noteq> None \<longrightarrow> \<not> is_hash n'))"

lemma delete_ok_hash:
  assumes "rlp_ok L" "reps L G R prefix (HashNode h) t" "sub_reader r R"
    and "\<And>tr. delete_ok L G R r tr (pload L G (Some h) t) prefix key t"
  shows "delete_ok L G R r tr (HashNode h) prefix key t"
  using resolveAndTrack_outcome [OF assms(1-3), of tr]
proof (cases rule: outcome_cases)
  case (lost tr' e)
  then show ?thesis unfolding delete_ok_def by (subst trie_delete.simps) simp
next
  case res: (ok tr' n)
  from assms(4) [of tr', unfolded delete_ok_def] show ?thesis
  proof (cases rule: outcome_cases)
    case (lost tr'' e)
    then show ?thesis unfolding delete_ok_def using res by (subst trie_delete.simps) simp
  next
    case (ok tr'' x)
    then show ?thesis
      unfolding delete_ok_def using res pload_reps [OF assms(1,2)]
      by (subst trie_delete.simps) (auto simp: pdelete_def split: if_splits)
  qed
qed

text \<open>A node merged with the key above it.\<close>

lemma reps_join:
  assumes "reps L G R (p @ k) n t" "\<not> is_hash n"
  shows "reps L G R p (case n of ShortNode k' c' _ \<Rightarrow> ShortNode (k @ k') c' newFlag | _ \<Rightarrow> ShortNode k n newFlag) (pjoin k t)"
  using assms by (cases n) (auto simp: reps_simps pjoin_def is_hash_def)

lemma pload_not_hash: "inner t \<Longrightarrow> \<not> is_hash (pload L G h t)"
  by (cases t) (auto simp: is_hash_def)

lemma reduceFull_reps:
  assumes L: "rlp_ok L" and r: "sub_reader r R" and len: "length ts = 17" "length cs = 17"
    and rep: "\<And>i. i < 17 \<Longrightarrow> reps L G R (p @ [of_nat i]) (cs ! i) (ts ! i)"
    and kids: "\<And>i. i < 17 \<Longrightarrow> if i = 16 then ts ! i = PNil \<or> is_leaf (ts ! i) else ts ! i = PNil \<or> pnode (ts ! i)"
  shows "outcome R r (reduceFull L r tr p cs) (\<lambda>(d, n'). d \<and> reps L G R p n' (preduce ts) \<and> \<not> is_hash n')"
proof -
  have f: "filter (\<lambda>j. cs ! j \<noteq> NilNode) [0..<length cs] = filter (\<lambda>j. ts ! j \<noteq> PNil) [0..<length ts]"
    using len reps_nil_iff [OF rep] by (intro filter_cong) auto
  show ?thesis
  proof (cases "\<exists>i. filter (\<lambda>j. ts ! j \<noteq> PNil) [0..<length ts] = [i]")
    case False
    then have "reduce_pos 0 (-1) cs < 0" by (auto simp: reduce_pos_0 f split: list.splits)
    moreover have "preduce ts = PFull ts" using False by (auto simp: preduce_def split: list.splits)
    ultimately show ?thesis using rep len by (auto simp: reduceFull_def reps_simps is_hash_def)
  next
    case True
    then obtain i where i: "filter (\<lambda>j. ts ! j \<noteq> PNil) [0..<length ts] = [i]" by blast
    then have "i \<in> set (filter (\<lambda>j. ts ! j \<noteq> PNil) [0..<length ts])" by simp
    then have il: "i < 17" "ts ! i \<noteq> PNil" using len by auto
    have pos: "reduce_pos 0 (-1) cs = int i" by (simp add: reduce_pos_0 f i)
    have pre: "preduce ts = pjoin [of_nat i] (ts ! i)" by (simp add: preduce_def i)
    show ?thesis
    proof (cases "i = 16")
      case True
      with kids [of 16] il obtain v where "ts ! 16 = PVal v" by (auto simp: is_leaf_def)
      then show ?thesis
        using True rep [of 16] by (auto simp: reduceFull_def pos pre pjoin_def reps_simps is_hash_def)
    next
      case False
      with kids [OF il(1)] il(2) have inner: "inner (ts ! i)" by (auto simp: pnode_inner)
      show ?thesis
      proof (cases "is_hash (cs ! i)")
        case True
        then obtain h where h: "cs ! i = HashNode h" by (auto simp: is_hash_def)
        have rep_h: "reps L G R (p @ [of_nat i]) (HashNode h) (ts ! i)" using rep [OF il(1)] h by simp
        note n = pload_reps [OF L rep_h]
        from resolveAndTrack_outcome [OF L rep_h r, of tr] show ?thesis
        proof (cases rule: outcome_cases)
          case (lost tr' e)
          then show ?thesis using False h by (simp add: reduceFull_def pos resolve_def Let_def)
        next
          case (ok tr' x)
          then have "resolve L r tr (cs ! i) (p @ [of_nat i]) = Some (tr', Inr (pload L G (Some h) (ts ! i)))"
            using h by (simp add: resolve_def)
          then show ?thesis
            using inner n rep [OF il(1)] False
            by (cases "ts ! i") (auto simp: reduceFull_def pos pre pjoin_def reps_simps is_hash_def Let_def)
        qed
      next
        case nh: False
        then have res: "resolve L r tr (cs ! i) (p @ [of_nat i]) = Some (tr, Inr (cs ! i))"
          by (auto simp: resolve_def is_hash_def split: node.splits)
        from reps_join [OF rep [OF il(1)] nh] False res show ?thesis
          by (cases "cs ! i") (auto simp: reduceFull_def pos pre is_hash_def Let_def)
      qed
    qed
  qed
qed

lemma trie_delete_reps:
  assumes L: "rlp_ok L" and r: "sub_reader r R"
  shows "reps L G R prefix n t \<Longrightarrow> pfits key t \<Longrightarrow> delete_ok L G R r tr n prefix key t"
proof (induction t arbitrary: n prefix key tr)
  case PNil
  then have "n = NilNode" using reps_nil_iff by blast
  then show ?case unfolding delete_ok_def by (subst trie_delete.simps) (simp add: pdelete_def reps_simps)
next
  case (PVal w)
  then have "n = ValueNode w" "key = []" by (auto elim: reps_PVal simp: pfits_cases)
  then show ?case unfolding delete_ok_def by (subst trie_delete.simps) (simp add: pdelete_def reps_simps is_hash_def)
next
  case (PShort k t)
  have n: "pnode (PShort k t)" "tkey key" using PShort.prems(2) by (auto simp: pfits_cases)
  have direct: "delete_ok L G R r tr (ShortNode k c fl) prefix key (PShort k t)"
    if rep: "reps L G R prefix (ShortNode k c fl) (PShort k t)" for c fl tr
    using n
  proof (cases rule: pinsert_short_cases)
    case (follow s)
    have c: "reps L G R (prefix @ k) c t" using rep by (simp add: reps_simps)
    have fit: "pfits s t" using pfits_short n follow(1) by blast
    show ?thesis
    proof (cases "s = []")
      case True
      with pfits_short n follow(1) have "is_leaf t" using not_tkey_nibbles by auto
      with True follow show ?thesis
        unfolding delete_ok_def by (subst trie_delete.simps) (auto simp: pdelete_def reps_simps is_hash_def is_leaf_def)
    next
      case False
      from PShort.IH [OF c fit, of tr, unfolded delete_ok_def] show ?thesis
      proof (cases rule: outcome_cases)
        case (lost tr' e)
        then show ?thesis unfolding delete_ok_def using follow False by (subst trie_delete.simps) (auto simp: Let_def)
      next
        case (ok tr' x)
        then obtain n' where
          d: "trie_delete L r tr c (prefix @ k) s = Some (tr', Inr (plookup t s \<noteq> None, n'))"
            "reps L G R (prefix @ k) n' (pdelete t s)" "plookup t s \<noteq> None \<longrightarrow> \<not> is_hash n'" by (cases x) auto
        show ?thesis
        proof (cases "plookup t s = None")
          case True
          then show ?thesis unfolding delete_ok_def using d follow rep False
            by (subst trie_delete.simps) (auto simp: pdelete_def Let_def)
        next
          case nn: False
          with d have j: "reps L G R prefix (case n' of ShortNode k' c' _ \<Rightarrow> ShortNode (k @ k') c' newFlag | _ \<Rightarrow> ShortNode k n' newFlag) (pjoin k (pdel t s))"
            by (intro reps_join) (auto simp: pdelete_def)
          have "pdelete (PShort k t) key = pjoin k (pdel t s)" using nn follow False by (auto simp: pdelete_def)
          then show ?thesis unfolding delete_ok_def using d(1) follow False nn j
            by (subst trie_delete.simps) (cases n'; auto simp: Let_def concat_bytes_def is_hash_def)
        qed
      qed
    qed
  next
    case (branch p b s b' k')
    then have "prefixLen key k < length k" using prefixLen_split [of key k] by auto
    moreover have "plookup (PShort k t) key = None" using branch(8) prefixLen_full [of key k] by simp
    ultimately show ?thesis unfolding delete_ok_def using rep
      by (subst trie_delete.simps) (auto simp: pdelete_def Let_def simp del: plookup.simps)
  qed
  from PShort.prems(1) show ?case
  proof (cases rule: reps_inner_cases)
    case (load h)
    have "delete_ok L G R r tr (pload L G (Some h) (PShort k t)) prefix key (PShort k t)" for tr
      using pload_reps [OF L, of G R prefix h "PShort k t"] PShort.prems(1) load direct by simp
    then show ?thesis using PShort.prems n(2) unfolding load by (intro delete_ok_hash [OF L _ r]) auto
  qed (use direct PShort.prems(1) in auto)
next
  case (PFull ts)
  have n: "pnode (PFull ts)" "tkey key" using PFull.prems(2) by (auto simp: pfits_cases)
  then have len: "length ts = 17" by simp
  from pfits_full [OF n] obtain b s where
    b: "key = b # s" "unat b < 17" "pfits s (ts ! unat b)" "unat b = 16 \<longleftrightarrow> s = []" by blast
  have direct: "delete_ok L G R r tr (FullNode cs fl) prefix key (PFull ts)"
    if rep: "reps L G R prefix (FullNode cs fl) (PFull ts)" for cs fl tr
  proof -
    have cs: "reps L G R (prefix @ [of_nat i]) (cs ! i) (ts ! i)" if "i < 17" for i
      using that rep len by (auto simp: reps_simps)
    have c: "reps L G R (prefix @ [b]) (cs ! unat b) (ts ! unat b)" and l: "length cs = 17"
      using rep b(2) len by (auto simp: reps_simps)
    have "delete_ok L G R r tr (cs ! unat b) (prefix @ [b]) s (ts ! unat b)"
      using b c len by (intro PFull.IH) auto
    from this [unfolded delete_ok_def] show ?thesis
    proof (cases rule: outcome_cases)
      case (lost tr' e)
      then show ?thesis unfolding delete_ok_def using b l by (subst trie_delete.simps) (auto simp: child_def)
    next
      case (ok tr' x)
      then obtain n' where
        d: "trie_delete L r tr (cs ! unat b) (prefix @ [b]) s = Some (tr', Inr (plookup (ts ! unat b) s \<noteq> None, n'))"
          "reps L G R (prefix @ [b]) n' (pdelete (ts ! unat b) s)" by (cases x) auto
      show ?thesis
      proof (cases "plookup (ts ! unat b) s")
        case None
        then show ?thesis unfolding delete_ok_def using d b l len rep
          by (subst trie_delete.simps) (auto simp: pdelete_def child_def)
      next
        case (Some v)
        let ?t = "pdel (ts ! unat b) s"
        have n': "reps L G R (prefix @ [b]) n' ?t" using d(2) Some by (simp add: pdelete_def)
        have upd: "reps L G R (prefix @ [of_nat i]) (cs[unat b := n'] ! i) (ts[unat b := ?t] ! i)" if "i < 17" for i
          using cs [OF that] n' len l that by (cases "i = unat b") auto
        have eq: "pdelete (PFull ts) key = (if ?t \<noteq> PNil then PFull (ts[unat b := ?t]) else preduce (ts[unat b := ?t]))"
          using Some b len by (simp add: pdelete_def Let_def)
        show ?thesis
        proof (cases "?t = PNil")
          case True
          have "outcome R r (reduceFull L r tr' prefix (cs[unat b := n']))
              (\<lambda>(d, n''). d \<and> reps L G R prefix n'' (preduce (ts[unat b := ?t])) \<and> \<not> is_hash n'')"
          proof (rule reduceFull_reps [OF L r])
            show "if m = 16 then ts[unat b := ?t] ! m = PNil \<or> is_leaf (ts[unat b := ?t] ! m)
                else ts[unat b := ?t] ! m = PNil \<or> pnode (ts[unat b := ?t] ! m)" if "m < 17" for m
              using that pnode_full_child [OF n(1), of m] True len by (cases "m = unat b") auto
          qed (use len l upd in auto)
          then show ?thesis unfolding delete_ok_def eq using d(1) Some b l len True reps_nil_iff [OF n']
            by (subst trie_delete.simps) (auto simp: child_def outcome_def split: option.splits sum.splits)
        next
          case False
          then show ?thesis unfolding delete_ok_def eq using d(1) Some b l len upd reps_nil_iff [OF n']
            by (subst trie_delete.simps) (auto simp: child_def reps_simps is_hash_def)
        qed
      qed
    qed
  qed
  from PFull.prems(1) show ?case
  proof (cases rule: reps_inner_cases)
    case (load h)
    have "delete_ok L G R r tr (pload L G (Some h) (PFull ts)) prefix key (PFull ts)" for tr
      using pload_reps [OF L, of G R prefix h "PFull ts"] PFull.prems(1) load direct by simp
    then show ?thesis using PFull.prems n(2) unfolding load by (intro delete_ok_hash [OF L _ r]) auto
  qed (use direct PFull.prems(1) in auto)
qed

end
