(* ===== verification/TrieMap.thy ===== *)
theory TrieMap
  imports TrieRefine
begin

text \<open>
  A trie as a map from byte strings to byte strings: what Get, Update and Delete promise to their callers,
  and that the trie keeps the promise over any sequence of calls.
\<close>

subsection \<open>The interface\<close>

datatype kv_op = KvGet "byte list" | KvUpdate "byte list" "byte list" | KvDelete "byte list"

fun kv_apply :: "(byte list \<rightharpoonup> byte list) \<Rightarrow> kv_op \<Rightarrow> (byte list \<rightharpoonup> byte list)" where
  "kv_apply m (KvGet k) = m"
| "kv_apply m (KvUpdate k v) = (if v = [] then m(k := None) else m(k \<mapsto> v))"
| "kv_apply m (KvDelete k) = m(k := None)"

text \<open>A call that panics, does not return or returns an error ends a run.\<close>

fun kv_step ::
  "('s \<Rightarrow> byte list \<Rightarrow> ('s \<times> ('e + byte list option)) option) \<Rightarrow> ('s \<Rightarrow> byte list \<Rightarrow> byte list \<Rightarrow> ('s \<times> 'e option) option) \<Rightarrow>
   ('s \<Rightarrow> byte list \<Rightarrow> ('s \<times> 'e option) option) \<Rightarrow> 's \<Rightarrow> kv_op \<Rightarrow> ('s \<times> byte list option) option" where
  "kv_step get update delete s (KvGet k) =
     get s k \<bind> (\<lambda>(s, res). case res of Inl _ \<Rightarrow> None | Inr v \<Rightarrow> Some (s, v))"
| "kv_step get update delete s (KvUpdate k v) =
     update s k v \<bind> (\<lambda>(s, err). if err = None then Some (s, None) else None)"
| "kv_step get update delete s (KvDelete k) =
     delete s k \<bind> (\<lambda>(s, err). if err = None then Some (s, None) else None)"

fun kv_run ::
  "('s \<Rightarrow> byte list \<Rightarrow> ('s \<times> ('e + byte list option)) option) \<Rightarrow> ('s \<Rightarrow> byte list \<Rightarrow> byte list \<Rightarrow> ('s \<times> 'e option) option) \<Rightarrow>
   ('s \<Rightarrow> byte list \<Rightarrow> ('s \<times> 'e option) option) \<Rightarrow> 's \<Rightarrow> kv_op list \<Rightarrow> ('s \<times> byte list option list) option" where
  "kv_run get update delete s [] = Some (s, [])"
| "kv_run get update delete s (op # ops) =
     kv_step get update delete s op \<bind> (\<lambda>(s, v).
     kv_run get update delete s ops \<bind> (\<lambda>(s, vs). Some (s, v # vs)))"

fun kv_answers :: "(byte list \<rightharpoonup> byte list) \<Rightarrow> kv_op list \<Rightarrow> byte list option list" where
  "kv_answers m [] = []"
| "kv_answers m (op # ops) = (case op of KvGet k \<Rightarrow> m k | _ \<Rightarrow> None) # kv_answers (kv_apply m op) ops"

locale key_value =
  fixes holds :: "'s \<Rightarrow> (byte list \<rightharpoonup> byte list) \<Rightarrow> bool"
    and get :: "'s \<Rightarrow> byte list \<Rightarrow> ('s \<times> ('e + byte list option)) option"
    and update :: "'s \<Rightarrow> byte list \<Rightarrow> byte list \<Rightarrow> ('s \<times> 'e option) option"
    and delete :: "'s \<Rightarrow> byte list \<Rightarrow> ('s \<times> 'e option) option"
    and admits :: "kv_op \<Rightarrow> bool"
  assumes get_law: "holds s m \<Longrightarrow> \<exists>s'. get s k = Some (s', Inr (m k)) \<and> holds s' m"
    and update_law: "holds s m \<Longrightarrow> admits (KvUpdate k v) \<Longrightarrow>
      \<exists>s'. update s k v = Some (s', None) \<and> holds s' (kv_apply m (KvUpdate k v))"
    and delete_law: "holds s m \<Longrightarrow> \<exists>s'. delete s k = Some (s', None) \<and> holds s' (kv_apply m (KvDelete k))"
begin

lemma step_law:
  assumes "holds s m" "admits op"
  shows "\<exists>s'. kv_step get update delete s op = Some (s', case op of KvGet k \<Rightarrow> m k | _ \<Rightarrow> None) \<and> holds s' (kv_apply m op)"
proof (cases op)
  case (KvGet k)
  then show ?thesis using get_law [OF assms(1), of k] by auto
next
  case (KvUpdate k v)
  then show ?thesis using update_law [OF assms(1), of k v] assms(2) by auto
next
  case (KvDelete k)
  then show ?thesis using delete_law [OF assms(1), of k] by auto
qed

lemma run_law:
  "holds s m \<Longrightarrow> list_all admits ops \<Longrightarrow>
   \<exists>s'. kv_run get update delete s ops = Some (s', kv_answers m ops) \<and> holds s' (foldl kv_apply m ops)"
proof (induction ops arbitrary: s m)
  case (Cons op ops)
  then obtain s' where s': "kv_step get update delete s op = Some (s', case op of KvGet k \<Rightarrow> m k | _ \<Rightarrow> None)"
    "holds s' (kv_apply m op)" using step_law [of s m op] by auto
  with Cons show ?case by fastforce
qed simp

end

subsection \<open>The contents of a trie\<close>

definition bytekeys :: "ptrie \<Rightarrow> bool" where
  "bytekeys t \<longleftrightarrow> (\<forall>s. plookup t s \<noteq> None \<longrightarrow> s \<in> range keybytesToHex)"

definition contents :: "ptrie \<Rightarrow> (byte list \<rightharpoonup> byte list)" where
  "contents t = (\<lambda>key. plookup t (keybytesToHex key))"

text \<open>
  The trie represents a tree whose nodes a complete reader \<open>R\<close> would find; the reader of the trie may have
  lost some of them.
\<close>

definition trie_over :: "rlp \<Rightarrow> geth \<Rightarrow> trieReader \<Rightarrow> Trie \<Rightarrow> ptrie \<Rightarrow> bool" where
  "trie_over L G R T t \<longleftrightarrow>
     \<not> t_committed T \<and> sub_reader (t_reader T) R \<and> reps L G R [] (t_root T) t \<and> pwf t \<and> psmall t \<and> bytekeys t"

definition trie_tree :: "rlp \<Rightarrow> geth \<Rightarrow> Trie \<Rightarrow> ptrie \<Rightarrow> bool" where
  "trie_tree L G T t \<longleftrightarrow> trie_over L G (t_reader T) T t"

definition trie_holds :: "rlp \<Rightarrow> geth \<Rightarrow> Trie \<Rightarrow> (byte list \<rightharpoonup> byte list) \<Rightarrow> bool" where
  "trie_holds L G T m \<longleftrightarrow> rlp_ok L \<and> (\<exists>t. trie_tree L G T t \<and> m = contents t)"

text \<open>The sizes under which the encodings of nodes are short enough for RLP.\<close>

fun trie_admits :: "kv_op \<Rightarrow> bool" where
  "trie_admits (KvUpdate k v) = (length k < 2 ^ 14 \<and> length v < 2 ^ 31)"
| "trie_admits _ = True"

lemma keybytesToHex_inj [simp]: "keybytesToHex k = keybytesToHex k' \<longleftrightarrow> k = k'"
  using hexToKeybytes_keybytesToHex by (metis option.inject)

lemma length_keybytesToHex [simp]: "length (keybytesToHex k) = 2 * length k + 1"
  by (simp add: keybytesToHex_def)

lemma contents_upd:
  "plookup t' = (plookup t)(keybytesToHex k := x) \<Longrightarrow> contents t' = (contents t)(k := x)"
  by (auto simp: contents_def fun_eq_iff)

text \<open>Two trees of byte strings with the same contents are the same.\<close>

lemma contents_unique:
  assumes "pwf t" "bytekeys t" "pwf t'" "bytekeys t'" "contents t = contents t'"
  shows "t = t'"
proof (rule ptree_unique)
  show "ptree t" "ptree t'" using assms(1,3) by (auto simp: ptree_def pwf_def)
  show "plookup t s = plookup t' s" for s
  proof (cases "s \<in> range keybytesToHex")
    case True
    then obtain key where "s = keybytesToHex key" by blast
    then show ?thesis using fun_cong [OF assms(5), of key] by (simp add: contents_def)
  next
    case False
    then have "plookup t s = None" "plookup t' s = None" using assms(2,4) unfolding bytekeys_def by blast+
    then show ?thesis by simp
  qed
qed

lemma Get_over:
  assumes "rlp_ok L" "trie_over L G R T t"
  shows "\<exists>T' res. Get L T k = Some (T', res) \<and> trie_over L G R T' t \<and> t_reader T' = t_reader T \<and>
    (case res of Inl e \<Rightarrow> lost R (t_reader T) e | Inr v \<Rightarrow> v = contents t k)"
proof -
  have "get_ok L G R (t_reader T) (t_tracer T) (t_root T) (keybytesToHex k) 0 t"
    using assms by (intro trie_get_reps) (auto simp: trie_over_def pfits_pwf)
  from this [unfolded get_ok_def] show ?thesis
    using assms(2) by (cases rule: outcome_cases) (auto simp: Get_def trie_over_def Let_def contents_def)
qed

lemma pinsert_keeps:
  assumes "pwf t" "psmall t" "bytekeys t" "length k < 2 ^ 14" "v \<noteq> []" "length v < 2 ^ 31"
  shows "pwf (pinsert t (keybytesToHex k) v) \<and> psmall (pinsert t (keybytesToHex k) v) \<and>
    bytekeys (pinsert t (keybytesToHex k) v) \<and> contents (pinsert t (keybytesToHex k) v) = (contents t)(k \<mapsto> v)"
proof -
  let ?s = "keybytesToHex k"
  have map: "pwf (pinsert t ?s v)" "plookup (pinsert t ?s v) = (plookup t)(?s \<mapsto> v)"
    using pinsert_map [of t ?s v] assms by auto
  then show ?thesis using assms contents_upd [OF map(2)] by (auto simp: map(2) psmall_def bytekeys_def)
qed

lemma pdelete_keeps:
  assumes "pwf t" "psmall t" "bytekeys t"
  shows "pwf (pdelete t (keybytesToHex k)) \<and> psmall (pdelete t (keybytesToHex k)) \<and>
    bytekeys (pdelete t (keybytesToHex k)) \<and> contents (pdelete t (keybytesToHex k)) = (contents t)(k := None)"
proof -
  let ?s = "keybytesToHex k"
  have map: "pwf (pdelete t ?s)" "plookup (pdelete t ?s) = (plookup t)(?s := None)"
    using pdelete_map [of t ?s] assms by auto
  then show ?thesis using assms contents_upd [OF map(2)] by (auto simp: map(2) psmall_def bytekeys_def)
qed

text \<open>What writing does: the change, or an error of the reader and no change.\<close>

definition written :: "rlp \<Rightarrow> geth \<Rightarrow> trieReader \<Rightarrow> Trie \<Rightarrow> ptrie \<Rightarrow> ptrie \<Rightarrow> (Trie \<times> trie_error option) option \<Rightarrow> bool" where
  "written L G R T t t' out \<longleftrightarrow>
     (\<exists>T' err. out = Some (T', err) \<and> t_reader T' = t_reader T \<and>
        (case err of Some e \<Rightarrow> lost R (t_reader T) e \<and> trie_over L G R T' t | None \<Rightarrow> trie_over L G R T' t'))"

lemma delete_over:
  assumes "rlp_ok L" "trie_over L G R T t"
  shows "written L G R T t (pdelete t (keybytesToHex k))
    (map_option (setRoot (T\<lparr>t_unhashed := u\<rparr>)) (trie_delete L (t_reader T) (t_tracer T) (t_root T) [] (keybytesToHex k)))"
proof -
  have "delete_ok L G R (t_reader T) (t_tracer T) (t_root T) [] (keybytesToHex k) t"
    using assms by (intro trie_delete_reps) (auto simp: trie_over_def pfits_pwf)
  from this [unfolded delete_ok_def] show ?thesis
    using assms(2) pdelete_keeps [of t k]
    by (cases rule: outcome_cases) (auto simp: written_def setRoot_def trie_over_def)
qed

lemma Delete_over:
  assumes "rlp_ok L" "trie_over L G R T t"
  shows "written L G R T t (pdelete t (keybytesToHex k)) (Delete L T k)"
proof -
  have "\<not> t_committed T" using assms(2) by (simp add: trie_over_def)
  then show ?thesis using delete_over [OF assms, of k "t_unhashed T + 1"] by (simp add: Delete_def)
qed

lemma Update_over:
  assumes "rlp_ok L" "trie_over L G R T t" "trie_admits (KvUpdate k v)"
  shows "written L G R T t (if v = [] then pdelete t (keybytesToHex k) else pinsert t (keybytesToHex k) v) (Update L T k v)"
proof -
  have c: "\<not> t_committed T" using assms(2) by (simp add: trie_over_def)
  show ?thesis
  proof (cases "v = []")
    case True
    then show ?thesis using c delete_over [OF assms(1,2), of k "t_unhashed T + 1"] by (simp add: Update_def trie_update_def)
  next
    case False
    then have "insert_ok L G R (t_reader T) (t_tracer T) (t_root T) [] (keybytesToHex k) v t"
      using assms by (intro trie_insert_reps) (auto simp: trie_over_def pfits_pwf)
    from this [unfolded insert_ok_def] show ?thesis
      using assms(2,3) False c pinsert_keeps [of t k v]
      by (cases rule: outcome_cases) (auto simp: written_def setRoot_def trie_over_def Update_def trie_update_def)
  qed
qed

lemma not_lost_refl [simp]: "\<not> lost r r e"
  by (auto simp: lost_def)

lemma Get_tree:
  assumes "rlp_ok L" "trie_tree L G T t"
  shows "\<exists>T'. Get L T k = Some (T', Inr (contents t k)) \<and> trie_tree L G T' t"
proof -
  from Get_over [OF assms(1), of G "t_reader T" T t k] assms(2) obtain T' res where
    "Get L T k = Some (T', res)" "trie_over L G (t_reader T) T' t" "t_reader T' = t_reader T"
    "case res of Inl e \<Rightarrow> lost (t_reader T) (t_reader T) e | Inr v \<Rightarrow> v = contents t k"
    unfolding trie_tree_def by blast
  then show ?thesis by (cases res) (auto simp: trie_tree_def)
qed

lemma written_tree:
  assumes "written L G (t_reader T) T t t' out"
  shows "\<exists>T'. out = Some (T', None) \<and> trie_tree L G T' t'"
  using assms by (auto simp: written_def trie_tree_def split: option.splits)

interpretation mpt: key_value "trie_holds L G" "Get L" "Update L" "Delete L" trie_admits for L G
proof
  fix T m k
  assume "trie_holds L G T m"
  then show "\<exists>s'. Get L T k = Some (s', Inr (m k)) \<and> trie_holds L G s' m"
    using Get_tree unfolding trie_holds_def by blast
next
  fix T m k
  assume "trie_holds L G T m"
  then obtain t where L: "rlp_ok L" and t: "trie_tree L G T t" "m = contents t" unfolding trie_holds_def by blast
  then have "contents (pdelete t (keybytesToHex k)) = m(k := None)"
    using pdelete_keeps [of t k] by (auto simp: trie_tree_def trie_over_def)
  with written_tree [OF Delete_over [OF L t(1) [unfolded trie_tree_def]]] L
  show "\<exists>s'. Delete L T k = Some (s', None) \<and> trie_holds L G s' (kv_apply m (KvDelete k))"
    unfolding trie_holds_def kv_apply.simps by metis
next
  fix T m k v
  assume "trie_holds L G T m" and adm: "trie_admits (KvUpdate k v)"
  then obtain t where L: "rlp_ok L" and t: "trie_tree L G T t" "m = contents t" unfolding trie_holds_def by blast
  have "contents (if v = [] then pdelete t (keybytesToHex k) else pinsert t (keybytesToHex k) v) = kv_apply m (KvUpdate k v)"
    using pdelete_keeps [of t k] pinsert_keeps [of t k v] t adm by (auto simp: trie_tree_def trie_over_def)
  with written_tree [OF Update_over [OF L t(1) [unfolded trie_tree_def] adm]] L
  show "\<exists>s'. Update L T k v = Some (s', None) \<and> trie_holds L G s' (kv_apply m (KvUpdate k v))"
    unfolding trie_holds_def by metis
qed

subsection \<open>The shape of the nodes in memory\<close>

definition is_value :: "node \<Rightarrow> bool" where
  "is_value n = (case n of ValueNode _ \<Rightarrow> True | _ \<Rightarrow> False)"

definition is_short :: "node \<Rightarrow> bool" where
  "is_short n = (case n of ShortNode _ _ _ \<Rightarrow> True | _ \<Rightarrow> False)"

text \<open>
  What the comments of node.go and trie.go say of the nodes: a short node with a terminated key holds a
  value and any other leads to a full node, which is perhaps not loaded; a full node has seventeen children,
  two of them at least, and a value only as the last; a hash has 32 bytes; no value is empty.
\<close>

fun node_ok :: "node \<Rightarrow> bool" where
  "node_ok NilNode = True"
| "node_ok (ValueNode v) = (v \<noteq> [])"
| "node_ok (HashNode h) = (length h = 32)"
| "node_ok (ShortNode k c fl) =
     (k \<noteq> [] \<and> (if hasTerm k then is_value c else c \<noteq> NilNode \<and> \<not> is_value c \<and> \<not> is_short c) \<and> node_ok c)"
| "node_ok (FullNode cs fl) =
     (length cs = 17 \<and> (\<forall>c \<in> set cs. node_ok c) \<and> (\<forall>i < 16. \<not> is_value (cs ! i)) \<and>
      (cs ! 16 = NilNode \<or> is_value (cs ! 16)) \<and> 2 \<le> length (filter (\<lambda>c. c \<noteq> NilNode) cs))"

lemma two_children:
  assumes "i < j" "j < length cs" "cs ! i \<noteq> x" "cs ! j \<noteq> x"
  shows "2 \<le> length (filter (\<lambda>c. c \<noteq> x) cs)"
proof -
  have "{i, j} \<subseteq> {k. k < length cs \<and> cs ! k \<noteq> x}" using assms by auto
  from card_mono [OF _ this] assms(1) show ?thesis by (simp add: length_filter_conv_card)
qed

lemma reps_value: "reps L G R p n t \<Longrightarrow> is_value n \<longleftrightarrow> (\<exists>v. t = PVal v)"
  by (auto simp: is_value_def reps_simps split: node.splits elim: reps_PVal)

lemma reps_node_ok: "reps L G R p n t \<Longrightarrow> ptree t \<Longrightarrow> node_ok n"
proof (induction rule: reps.induct)
  case (reps_short p k c t fl)
  then have n: "pnode (PShort k t)" by (simp add: ptree_def is_leaf_def)
  then have t: "ptree t" "t \<noteq> PNil" "k \<noteq> []" by (auto simp: ptree_def is_leaf_def)
  have "is_leaf t \<or> (\<exists>ts. t = PFull ts)" using n by auto
  then have "if hasTerm k then is_value c else c \<noteq> NilNode \<and> \<not> is_value c \<and> \<not> is_short c"
    using hex_key_short [OF n] reps_value [OF reps_short(1)] reps_nil_iff [OF reps_short(1)] reps_short(1)
    by (auto simp: is_leaf_def is_short_def reps_simps split: node.splits)
  then show ?case using reps_short t by simp
next
  case (reps_full cs ts p fl)
  then have n: "pnode (PFull ts)" by (simp add: ptree_def is_leaf_def)
  then have len: "length ts = 17" by simp
  from n obtain i j where ij: "i < j" "j < 17" "ts ! i \<noteq> PNil" "ts ! j \<noteq> PNil" by (auto simp: branches_def)
  have rep: "reps L G R (p @ [of_nat i]) (cs ! i) (ts ! i)" if "i < 17" for i using reps_full that len by simp
  have "\<forall>c \<in> set cs. node_ok c"
    using reps_full.hyps(1) reps_full.IH len ptree_full_child [OF n] by (auto simp: in_set_conv_nth)
  moreover have "2 \<le> length (filter (\<lambda>c. c \<noteq> NilNode) cs)"
    using ij reps_nil_iff [OF rep, of i] reps_nil_iff [OF rep, of j] reps_full(1) len by (intro two_children [of i j]) auto
  moreover have "\<not> is_value (cs ! i)" if "i < 16" for i
    using reps_value [OF rep, of i] pnode_full_child [OF n, of i] that by auto
  moreover have "cs ! 16 = NilNode \<or> is_value (cs ! 16)"
    using reps_value [OF rep, of 16] reps_nil_iff [OF rep, of 16] pnode_full_child [OF n, of 16] by (auto simp: is_leaf_def)
  ultimately show ?case using reps_full(1) len by simp
qed (auto simp: ptree_def is_leaf_def hash_ok_def phash_def)

lemma holds_node_ok: "trie_holds L G T m \<Longrightarrow> node_ok (t_root T)"
  unfolding trie_holds_def trie_tree_def trie_over_def pwf_def by (metis ptree_def reps_node_ok)

end
