(* ===== verification/TrieHash.thy ===== *)
theory TrieHash
  imports TrieMap
begin

text \<open>
  Hashing (trie/hasher.go, Trie.Hash) and committing a trie (trie/committer.go, trie/trienode/node.go,
  Trie.Commit).

  hashFullNodeChildren hashes the children one after the other or each in a goroutine of its own, which
  gives the same result: the definitions below do the former.
\<close>

subsection \<open>The hasher\<close>

definition has_children :: "node \<Rightarrow> bool" where
  "has_children n = (case n of ShortNode _ _ _ \<Rightarrow> True | FullNode _ _ \<Rightarrow> True | _ \<Rightarrow> False)"

definition shortnodeToHash :: "rlp \<Rightarrow> geth \<Rightarrow> node \<Rightarrow> bool \<Rightarrow> node" where
  "shortnodeToHash L G n force =
     (let enc = node_encode L n in if length enc < 32 \<and> \<not> force then n else HashNode (hashData G enc))"

definition fullnodeToHash :: "rlp \<Rightarrow> geth \<Rightarrow> node \<Rightarrow> bool \<Rightarrow> node" where
  "fullnodeToHash L G n force =
     (let enc = node_encode L n in if length enc < 32 \<and> \<not> force then n else HashNode (hashData G enc))"

definition hash_of :: "node \<Rightarrow> byte list option" where
  "hash_of n = (case n of HashNode h \<Rightarrow> Some h | _ \<Rightarrow> None)"

text \<open>hash returns the node to refer to and the node with the hashes it computed; None is a panic.\<close>

function (sequential) hasher_hash :: "rlp \<Rightarrow> geth \<Rightarrow> node \<Rightarrow> bool \<Rightarrow> (node \<times> node) option"
  and hashShortNodeChildren :: "rlp \<Rightarrow> geth \<Rightarrow> byte list \<Rightarrow> node \<Rightarrow> nodeFlag \<Rightarrow> (node \<times> node) option"
  and hashFullNodeChildren :: "rlp \<Rightarrow> geth \<Rightarrow> nat \<Rightarrow> node list \<Rightarrow> (node list \<times> node list) option"
where
  "hasher_hash L G NilNode force = None"
| "hasher_hash L G (ShortNode k c fl) force =
     (case nf_hash fl of
        Some h \<Rightarrow> Some (HashNode h, ShortNode k c fl)
      | None \<Rightarrow>
          (case hashShortNodeChildren L G k c fl of
             Some (collapsed, ShortNode k' c' fl') \<Rightarrow>
               (let hashed = shortnodeToHash L G collapsed force
                in Some (hashed, ShortNode k' c' (fl'\<lparr>nf_hash := hash_of hashed\<rparr>)))
           | _ \<Rightarrow> None))"
| "hasher_hash L G (FullNode cs fl) force =
     (case nf_hash fl of
        Some h \<Rightarrow> Some (HashNode h, FullNode cs fl)
      | None \<Rightarrow>
          (case hashFullNodeChildren L G 0 cs of
             None \<Rightarrow> None
           | Some (collapsed, cached) \<Rightarrow>
               (let hashed = fullnodeToHash L G (FullNode collapsed fl) force
                in Some (hashed, FullNode cached (fl\<lparr>nf_hash := hash_of hashed\<rparr>)))))"
| "hasher_hash L G n force = Some (n, n)"
| "hashShortNodeChildren L G k c fl =
     (case hexToCompact k of
        None \<Rightarrow> None
      | Some k' \<Rightarrow>
          if has_children c then
            (case hasher_hash L G c False of
               None \<Rightarrow> None
             | Some (c1, c2) \<Rightarrow> Some (ShortNode k' c1 fl, ShortNode k c2 fl))
          else Some (ShortNode k' c fl, ShortNode k c fl))"
| "hashFullNodeChildren L G i [] = Some ([], [])"
| "hashFullNodeChildren L G i (c # cs) =
     (if i < 16 then
        (case (if c \<noteq> NilNode then hasher_hash L G c False else Some (ValueNode [], NilNode)) of
           None \<Rightarrow> None
         | Some (c1, c2) \<Rightarrow>
             (case hashFullNodeChildren L G (i + 1) cs of
                None \<Rightarrow> None
              | Some (cs1, cs2) \<Rightarrow> Some (c1 # cs1, c2 # cs2)))
      else Some (c # cs, c # cs))"
  by pat_completeness auto
termination
  by (relation "measure (\<lambda>x. case x of
        Inl (_, _, n, _) \<Rightarrow> 2 * size n
      | Inr (Inl (_, _, _, c, _)) \<Rightarrow> 2 * size c + 1
      | Inr (Inr (_, _, _, cs)) \<Rightarrow> 2 * size_list size cs + 1)") auto

definition hashRoot :: "rlp \<Rightarrow> geth \<Rightarrow> Trie \<Rightarrow> (Trie \<times> node \<times> node) option" where
  "hashRoot L G t =
     (if t_root t = NilNode then Some (t, HashNode (hashBytes EmptyRootHash), NilNode)
      else map_option (\<lambda>(hashed, cached). (t\<lparr>t_unhashed := 0\<rparr>, hashed, cached)) (hasher_hash L G (t_root t) True))"

definition Hash :: "rlp \<Rightarrow> geth \<Rightarrow> Trie \<Rightarrow> (Trie \<times> hash) option" where
  "Hash L G t =
     (case hashRoot L G t of
        Some (t, HashNode h, cached) \<Rightarrow> Some (t\<lparr>t_root := cached\<rparr>, BytesToHash h)
      | _ \<Rightarrow> None)"

subsection \<open>The hash is the hash of the tree\<close>

definition by_hash :: "rlp \<Rightarrow> geth \<Rightarrow> byte list \<Rightarrow> ptrie \<Rightarrow> bool" where
  "by_hash L G p t \<longleftrightarrow> inner t \<and> (p = [] \<or> 32 \<le> length (penc L G t))"

definition refers :: "rlp \<Rightarrow> geth \<Rightarrow> byte list \<Rightarrow> node \<Rightarrow> ptrie \<Rightarrow> bool" where
  "refers L G p n t \<longleftrightarrow> (if by_hash L G p t then n = HashNode (phash L G t) else node_encode L n = penc L G t \<and> \<not> is_hash n)"

lemma refers_pref: "refers L G p n t \<Longrightarrow> p \<noteq> [] \<Longrightarrow> node_encode L n = pref L G t"
  by (auto simp: refers_def by_hash_def ref_of_def phash_def split: if_splits)

definition hashes_to :: "rlp \<Rightarrow> geth \<Rightarrow> trieReader \<Rightarrow> byte list \<Rightarrow> node \<Rightarrow> ptrie \<Rightarrow> bool" where
  "hashes_to L G r p n t \<longleftrightarrow>
     (\<exists>hd n'. hasher_hash L G n (p = []) = Some (hd, n') \<and> refers L G p hd t \<and> reps L G r p n' t \<and> settled L G p n' t)"

lemma nodeToHash_refers:
  assumes "inner t" "node_encode L n = penc L G t" "\<not> is_hash n"
  shows "refers L G p (shortnodeToHash L G n (p = [])) t" "shortnodeToHash L G n = fullnodeToHash L G n"
    "hash_of (shortnodeToHash L G n (p = [])) = (if by_hash L G p t then Some (phash L G t) else None)"
  using assms by (auto simp: refers_def by_hash_def shortnodeToHash_def fullnodeToHash_def Let_def phash_def hash_of_def
      is_hash_def fun_eq_iff split: node.splits)

lemma cache_ok_hashed:
  assumes "cache_ok L G r p fl t" "nf_hash fl = None" "inner t"
  shows "cache_ok L G r p (fl\<lparr>nf_hash := if by_hash L G p t then Some (phash L G t) else None\<rparr>) t"
  using assms by (auto simp: cache_ok_def by_hash_def hash_ok_def)

text \<open>A node whose hash is cached already.\<close>

lemma cached_hash:
  assumes "cache_ok L G r p fl t" "nf_hash fl = Some h" "inner t"
  shows "refers L G p (HashNode h) t"
  using assms by (auto simp: cache_ok_def refers_def by_hash_def hash_ok_def)

lemma leaf_refers:
  assumes "rlp_ok L" "reps L G r p n t" "\<not> has_children n" "ptree t" "t \<noteq> PNil"
  shows "refers L G p n t \<and> settled L G p n t"
  using assms by (cases n) (auto simp: reps_simps refers_def by_hash_def hash_ok_def is_hash_def has_children_def pnode_inner)

lemma hashFullNodeChildren_reps:
  assumes L: "rlp_ok L"
  shows "length cs = length ts \<Longrightarrow> i + length cs = 17 \<Longrightarrow>
    (\<And>j. j < length ts \<Longrightarrow> reps L G r (p @ [of_nat (i + j)]) (cs ! j) (ts ! j)) \<Longrightarrow>
    (\<And>j. j < length ts \<Longrightarrow> i + j < 16 \<Longrightarrow> ts ! j = PNil \<or> hashes_to L G r (p @ [of_nat (i + j)]) (cs ! j) (ts ! j)) \<Longrightarrow>
    (\<And>j. j < length ts \<Longrightarrow> i + j = 16 \<Longrightarrow> ts ! j = PNil \<or> is_leaf (ts ! j)) \<Longrightarrow>
    \<exists>cs1 cs2. hashFullNodeChildren L G i cs = Some (cs1, cs2) \<and> length cs2 = length ts \<and>
      map (node_encode L) cs1 = map (pref L G) ts \<and>
      (\<forall>j < length ts. reps L G r (p @ [of_nat (i + j)]) (cs2 ! j) (ts ! j) \<and> settled L G (p @ [of_nat (i + j)]) (cs2 ! j) (ts ! j))"
proof (induction cs arbitrary: i ts)
  case (Cons c cs)
  then obtain t ts' where ts: "ts = t # ts'" by (cases ts) auto
  have c: "reps L G r (p @ [of_nat i]) c t" using Cons.prems(3) [of 0] ts by simp
  show ?case
  proof (cases "i < 16")
    case False
    have "i + length ts' = 16" "length cs = length ts'" using Cons.prems(1,2) ts by auto
    with False have "i = 16" "length ts' = 0" "length cs = 0" by linarith+
    then have i: "i = 16" "cs = []" "ts' = []" by auto
    have "t = PNil \<or> is_leaf t" using Cons.prems(5) [of 0] ts i by simp
    then have "node_encode L c = pref L G t" "settled L G (p @ [of_nat i]) c t"
      using c by (auto simp: is_leaf_def ref_of_def elim!: reps_PNil reps_PVal)
    then show ?thesis using i ts c by simp
  next
    case True
    have "\<exists>c1 c2. (if c \<noteq> NilNode then hasher_hash L G c False else Some (ValueNode [], NilNode)) = Some (c1, c2) \<and>
        node_encode L c1 = pref L G t \<and> reps L G r (p @ [of_nat i]) c2 t \<and> settled L G (p @ [of_nat i]) c2 t"
    proof (cases "t = PNil")
      case True
      then show ?thesis using reps_nil_iff [OF c] rlp_empty [OF L] by (auto simp: reps_simps ref_of_def)
    next
      case False
      then have "hashes_to L G r (p @ [of_nat i]) c t" using Cons.prems(4) [of 0] \<open>i < 16\<close> ts by simp
      then show ?thesis using reps_nil_iff [OF c] False refers_pref by (fastforce simp: hashes_to_def)
    qed
    then obtain c1 c2 where c12: "(if c \<noteq> NilNode then hasher_hash L G c False else Some (ValueNode [], NilNode)) = Some (c1, c2)"
      "node_encode L c1 = pref L G t" "reps L G r (p @ [of_nat i]) c2 t" "settled L G (p @ [of_nat i]) c2 t" by blast
    have "\<exists>cs1 cs2. hashFullNodeChildren L G (i + 1) cs = Some (cs1, cs2) \<and> length cs2 = length ts' \<and>
      map (node_encode L) cs1 = map (pref L G) ts' \<and>
      (\<forall>j < length ts'. reps L G r (p @ [of_nat (i + 1 + j)]) (cs2 ! j) (ts' ! j) \<and> settled L G (p @ [of_nat (i + 1 + j)]) (cs2 ! j) (ts' ! j))"
    proof (rule Cons.IH)
      fix j assume j: "j < length ts'"
      show "reps L G r (p @ [of_nat (i + 1 + j)]) (cs ! j) (ts' ! j)"
        using Cons.prems(3) [of "Suc j"] j ts by simp
      show "ts' ! j = PNil \<or> hashes_to L G r (p @ [of_nat (i + 1 + j)]) (cs ! j) (ts' ! j)" if "i + 1 + j < 16"
        using Cons.prems(4) [of "Suc j"] j ts that by simp
      show "ts' ! j = PNil \<or> is_leaf (ts' ! j)" if "i + 1 + j = 16"
        using Cons.prems(5) [of "Suc j"] j ts that by simp
    qed (use Cons.prems(1,2) ts in auto)
    then obtain cs1 cs2 where r: "hashFullNodeChildren L G (i + 1) cs = Some (cs1, cs2)" "length cs2 = length ts'"
      "map (node_encode L) cs1 = map (pref L G) ts'"
      "\<And>j. j < length ts' \<Longrightarrow> reps L G r (p @ [of_nat (i + 1 + j)]) (cs2 ! j) (ts' ! j) \<and> settled L G (p @ [of_nat (i + 1 + j)]) (cs2 ! j) (ts' ! j)"
      by blast
    have "reps L G r (p @ [of_nat (i + j)]) ((c2 # cs2) ! j) (ts ! j) \<and> settled L G (p @ [of_nat (i + j)]) ((c2 # cs2) ! j) (ts ! j)"
      if "j < length ts" for j
      using that c12(3,4) r(4) [of "j - 1"] ts by (cases j) auto
    then show ?thesis using True c12(1,2) r(1-3) ts by (auto split: if_splits)
  qed
qed simp

lemma hasher_hash_reps:
  assumes L: "rlp_ok L"
  shows "reps L G r p n t \<Longrightarrow> ptree t \<Longrightarrow> t \<noteq> PNil \<Longrightarrow> hashes_to L G r p n t"
proof (induction t arbitrary: n p)
  case (PVal v)
  then have "n = ValueNode v" by (auto elim: reps_PVal)
  then show ?case by (simp add: hashes_to_def refers_def by_hash_def is_hash_def reps_simps)
next
  case (PShort k t)
  then have n: "pnode (PShort k t)" by (simp add: ptree_def is_leaf_def)
  then have t: "ptree t" "t \<noteq> PNil" "k \<noteq> []" by (auto simp: ptree_def is_leaf_def)
  from PShort.prems(1) show ?case
  proof (cases rule: reps_inner_cases)
    case (short k' c fl t')
    then have rep: "reps L G r (p @ k) c t" "cache_ok L G r p fl (PShort k t)" "nf_hash fl \<noteq> None \<longrightarrow> settled L G (p @ k) c t"
      and eq: "n = ShortNode k c fl" using PShort.prems(1) by (auto simp: reps_simps)
    show ?thesis
    proof (cases "nf_hash fl")
      case (Some h)
      then show ?thesis
        using cached_hash [OF rep(2) Some] rep eq PShort.prems(1) by (auto simp: hashes_to_def reps_simps)
    next
      case None
      have "\<exists>c1 c2. (if has_children c then hasher_hash L G c False else Some (c, c)) = Some (c1, c2) \<and>
          node_encode L c1 = pref L G t \<and> reps L G r (p @ k) c2 t \<and> settled L G (p @ k) c2 t"
      proof (cases "has_children c")
        case True
        then show ?thesis
          using PShort.IH [OF rep(1) t(1,2)] t(3) refers_pref [of L G "p @ k" _ t] by (fastforce simp: hashes_to_def)
      next
        case False
        then show ?thesis
          using leaf_refers [OF L rep(1) False t(1,2)] rep(1) t(3) refers_pref [of L G "p @ k" c t] by auto
      qed
      then obtain c1 c2 where c: "(if has_children c then hasher_hash L G c False else Some (c, c)) = Some (c1, c2)"
        "node_encode L c1 = pref L G t" "reps L G r (p @ k) c2 t" "settled L G (p @ k) c2 t" by blast
      have ch: "hashShortNodeChildren L G k c fl = Some (ShortNode (compact k) c1 fl, ShortNode k c2 fl)"
        using c(1) compact_ok(1) [of k] hex_key_short [OF n] by (auto split: if_splits)
      have enc: "node_encode L (ShortNode (compact k) c1 fl) = penc L G (PShort k t)" using c(2) by simp
      note to = nodeToHash_refers [OF inner_simps(3) enc]
      have "hasher_hash L G n (p = []) = Some (shortnodeToHash L G (ShortNode (compact k) c1 fl) (p = []),
          ShortNode k c2 (fl\<lparr>nf_hash := if by_hash L G p (PShort k t) then Some (phash L G (PShort k t)) else None\<rparr>))"
        using eq None ch to by (simp add: is_hash_def Let_def)
      moreover have "reps L G r p (ShortNode k c2 (fl\<lparr>nf_hash := if by_hash L G p (PShort k t) then Some (phash L G (PShort k t)) else None\<rparr>)) (PShort k t)"
        using c(3,4) cache_ok_hashed [OF rep(2) None] by (simp add: reps_simps)
      moreover have "settled L G p (ShortNode k c2 (fl\<lparr>nf_hash := if by_hash L G p (PShort k t) then Some (phash L G (PShort k t)) else None\<rparr>)) (PShort k t)"
        using c(4) by (simp add: by_hash_def del: penc.simps)
      ultimately show ?thesis unfolding hashes_to_def using to(1) by (auto simp: is_hash_def)
    qed
  next
    case (load h)
    then show ?thesis
      using leaf_refers [OF L PShort.prems(1)] PShort.prems by (auto simp: hashes_to_def has_children_def)
  qed auto
next
  case (PFull ts)
  then have n: "pnode (PFull ts)" by (simp add: ptree_def is_leaf_def)
  then have len: "length ts = 17" by simp
  from PFull.prems(1) show ?case
  proof (cases rule: reps_inner_cases)
    case (full cs fl us)
    then have rep: "length cs = 17" "\<And>i. i < 17 \<Longrightarrow> reps L G r (p @ [of_nat i]) (cs ! i) (ts ! i)" "cache_ok L G r p fl (PFull ts)"
      and set: "\<And>i. i < 17 \<Longrightarrow> nf_hash fl \<noteq> None \<longrightarrow> settled L G (p @ [of_nat i]) (cs ! i) (ts ! i)"
      and eq: "n = FullNode cs fl" using PFull.prems(1) len by (auto simp: reps_simps)
    show ?thesis
    proof (cases "nf_hash fl")
      case (Some h)
      then show ?thesis
        using cached_hash [OF rep(3) Some] rep set eq PFull.prems(1) len by (auto simp: hashes_to_def)
    next
      case None
      have kids: "ts ! j = PNil \<or> hashes_to L G r (p @ [of_nat j]) (cs ! j) (ts ! j)" if "j < 17" for j
        using that len ptree_full_child [OF n that] PFull.IH [OF _ rep(2) [OF that]] by auto
      have "\<exists>cs1 cs2. hashFullNodeChildren L G 0 cs = Some (cs1, cs2) \<and> length cs2 = length ts \<and>
          map (node_encode L) cs1 = map (pref L G) ts \<and>
          (\<forall>j < length ts. reps L G r (p @ [of_nat (0 + j)]) (cs2 ! j) (ts ! j) \<and> settled L G (p @ [of_nat (0 + j)]) (cs2 ! j) (ts ! j))"
        using rep len kids pnode_full_child [OF n, of 16] by (intro hashFullNodeChildren_reps [OF L]) auto
      then obtain cs1 cs2 where c: "hashFullNodeChildren L G 0 cs = Some (cs1, cs2)" "length cs2 = 17"
        "map (node_encode L) cs1 = map (pref L G) ts"
        "\<And>j. j < 17 \<Longrightarrow> reps L G r (p @ [of_nat j]) (cs2 ! j) (ts ! j) \<and> settled L G (p @ [of_nat j]) (cs2 ! j) (ts ! j)"
        using len by auto
      have enc: "node_encode L (FullNode cs1 fl) = penc L G (PFull ts)" using c(3) by simp
      note to = nodeToHash_refers [OF inner_simps(4) enc]
      have "hasher_hash L G n (p = []) = Some (shortnodeToHash L G (FullNode cs1 fl) (p = []),
          FullNode cs2 (fl\<lparr>nf_hash := if by_hash L G p (PFull ts) then Some (phash L G (PFull ts)) else None\<rparr>))"
        using eq None c(1) to by (simp add: is_hash_def Let_def)
      moreover have "reps L G r p (FullNode cs2 (fl\<lparr>nf_hash := if by_hash L G p (PFull ts) then Some (phash L G (PFull ts)) else None\<rparr>)) (PFull ts)"
        using c(2,4) len cache_ok_hashed [OF rep(3) None] by (simp add: reps_simps)
      moreover have "settled L G p (FullNode cs2 (fl\<lparr>nf_hash := if by_hash L G p (PFull ts) then Some (phash L G (PFull ts)) else None\<rparr>)) (PFull ts)"
        using c(2,4) len by (simp add: by_hash_def del: penc.simps)
      ultimately show ?thesis unfolding hashes_to_def using to(1) by (auto simp: is_hash_def)
    qed
  next
    case (load h)
    then show ?thesis
      using leaf_refers [OF L PFull.prems(1)] PFull.prems by (auto simp: hashes_to_def has_children_def)
  qed auto
qed simp

definition root_of :: "rlp \<Rightarrow> geth \<Rightarrow> ptrie \<Rightarrow> hash" where
  "root_of L G t = (if t = PNil then EmptyRootHash else Keccak256Hash G (penc L G t))"

lemma Hash_tree:
  assumes "rlp_ok L" "trie_tree L G T t"
  shows "\<exists>T'. Hash L G T = Some (T', root_of L G t) \<and> trie_tree L G T' t \<and> settled L G [] (t_root T') t \<and>
    t_reader T' = t_reader T \<and> t_tracer T' = t_tracer T"
proof (cases "t = PNil")
  case True
  then have "t_root T = NilNode" using assms(2) reps_nil_iff by (auto simp: trie_tree_def trie_over_def)
  then show ?thesis using assms(2) True by (auto simp: Hash_def hashRoot_def root_of_def trie_tree_def trie_over_def)
next
  case False
  have rep: "reps L G (t_reader T) [] (t_root T) t" and "pnode t" using assms(2) False by (auto simp: trie_tree_def trie_over_def pwf_def)
  then have "hashes_to L G (t_reader T) [] (t_root T) t" "by_hash L G [] t"
    using False by (auto simp: hasher_hash_reps [OF assms(1)] ptree_def by_hash_def pnode_inner)
  then obtain n' where n': "hasher_hash L G (t_root T) True = Some (HashNode (phash L G t), n')"
    "reps L G (t_reader T) [] n' t" "settled L G [] n' t" by (auto simp: hashes_to_def refers_def)
  have "BytesToHash (phash L G t) = root_of L G t" using False by (simp add: phash_def hashData_def root_of_def)
  then show ?thesis
    using n' assms(2) reps_nil_iff [OF rep] False by (auto simp: Hash_def hashRoot_def trie_tree_def trie_over_def)
qed

text \<open>The root hash is determined by what the trie holds, not by how it came to hold it.\<close>

lemma Hash_contents:
  assumes "trie_holds L G T m" "trie_holds L G T' m"
  shows "map_option snd (Hash L G T) = map_option snd (Hash L G T') \<and> Hash L G T \<noteq> None"
proof -
  from assms obtain t t' where t: "trie_tree L G T t" "m = contents t" "trie_tree L G T' t'" "m = contents t'" "rlp_ok L"
    by (auto simp: trie_holds_def)
  then have "t = t'" by (intro contents_unique) (auto simp: trie_tree_def trie_over_def)
  then show ?thesis using Hash_tree [OF t(5,1)] Hash_tree [OF t(5,3)] by auto
qed

subsection \<open>The root hash determines the contents\<close>

text \<open>The encodings of a tree and of everything below it.\<close>

fun encodings :: "rlp \<Rightarrow> geth \<Rightarrow> ptrie \<Rightarrow> byte list set" where
  "encodings L G (PShort k t) = insert (penc L G (PShort k t)) (encodings L G t)"
| "encodings L G (PFull ts) = insert (penc L G (PFull ts)) (\<Union>t \<in> set ts. encodings L G t)"
| "encodings L G _ = {}"

definition no_collision :: "rlp \<Rightarrow> geth \<Rightarrow> ptrie \<Rightarrow> ptrie \<Rightarrow> bool" where
  "no_collision L G t t' \<longleftrightarrow>
     (\<forall>x \<in> encodings L G t. \<forall>y \<in> encodings L G t'. Keccak256Hash G x = Keccak256Hash G y \<longrightarrow> x = y)"

lemma penc_in_encodings: "inner t \<Longrightarrow> penc L G t \<in> encodings L G t"
  by (cases t) (auto simp: inner_def)

lemma phash_eq:
  assumes "no_collision L G t t'" "inner t" "inner t'" "phash L G t = phash L G t'"
  shows "penc L G t = penc L G t'"
proof -
  have "Keccak256Hash G (penc L G t) = Keccak256Hash G (penc L G t')"
    using assms(4) BytesToHash_hash unfolding phash_def hashData_def by metis
  then show ?thesis using assms(1-3) penc_in_encodings unfolding no_collision_def by blast
qed

lemma pload_none: "pload L G h t = pload L G h t' \<Longrightarrow> pload L G None t = pload L G None t'"
  by (cases t; cases t') auto

lemma pload_inner: "pload L G h t = pload L G h t' \<Longrightarrow> inner t = inner t'"
  by (cases t; cases t') auto

lemma pref_node_inj:
  assumes L: "rlp_ok L" and t: "ptree t" "psmall t" "ptree t'" "psmall t'" and nc: "no_collision L G t t'"
    and eq: "pref_node L G t = pref_node L G t'" and inj: "pload L G None t = pload L G None t' \<Longrightarrow> t = t'"
  shows "t = t'"
proof (cases "hashed L G t")
  case True
  then have h: "hashed L G t'" "phash L G t = phash L G t'"
    using eq pload_not_hash [of t' L G None] by (cases t'; auto simp: is_hash_def split: if_splits)+
  have n: "pnode t" "pnode t'" using True h t by (auto simp: ptree_def is_leaf_def)
  have "penc L G t = penc L G t'" using phash_eq [OF nc] True h by simp
  then have "pload L G None t = pload L G None t'"
    using mustDecodeNode_penc [OF L n(1) t(2), of None G] mustDecodeNode_penc [OF L n(2) t(4), of None G] by simp
  then show ?thesis by (rule inj)
next
  case False
  then have "pload L G None t = pload L G None t'"
    using eq pload_not_hash [of t L G None] by (cases t; auto simp: is_hash_def split: if_splits)
  then show ?thesis by (rule inj)
qed

lemma pload_inj:
  assumes L: "rlp_ok L"
  shows "ptree t \<Longrightarrow> psmall t \<Longrightarrow> ptree t' \<Longrightarrow> psmall t' \<Longrightarrow> no_collision L G t t' \<Longrightarrow>
    pload L G None t = pload L G None t' \<Longrightarrow> t = t'"
proof (induction t arbitrary: t')
  case (PShort k t)
  from PShort.prems(6) obtain u where u: "t' = PShort k u" "pref_node L G t = pref_node L G u"
    by (cases t') (simp_all split del: if_split)
  have n: "ptree t" "t \<noteq> PNil" "ptree u" "u \<noteq> PNil" using PShort.prems(1,3) u by (auto simp: ptree_def is_leaf_def)
  then have s: "psmall t" "psmall u" using psmall_short PShort.prems(2,4) u by blast+
  have nc: "no_collision L G t u" using PShort.prems(5) u by (auto simp: no_collision_def)
  have "t = u" by (rule pref_node_inj [OF L n(1) s(1) n(3) s(2) nc u(2)], rule PShort.IH) (use n s nc in auto)
  with u show ?case by simp
next
  case (PFull ts)
  from PFull.prems(6) obtain us where u: "t' = PFull us" "map (pref_node L G) ts = map (pref_node L G) us"
    by (cases t') (simp_all split del: if_split)
  have n: "pnode (PFull ts)" "pnode (PFull us)" using PFull.prems(1,3) u by (auto simp: ptree_def is_leaf_def)
  then have len: "length ts = 17" "length us = 17" by auto
  have "ts ! i = us ! i" if i: "i < 17" for i
  proof -
    have m: "ts ! i \<in> set ts" "us ! i \<in> set us" using i len by auto
    have nc: "no_collision L G (ts ! i) (us ! i)" using PFull.prems(5) u m unfolding no_collision_def by auto
    have s: "psmall (ts ! i)" "psmall (us ! i)" using psmall_full PFull.prems(2,4) u i len by auto
    have eq: "pref_node L G (ts ! i) = pref_node L G (us ! i)"
      using arg_cong [OF u(2), of "\<lambda>xs. xs ! i"] i len by (simp del: map_eq_conv)
    note p = ptree_full_child [OF n(1) i] ptree_full_child [OF n(2) i]
    show ?thesis by (rule pref_node_inj [OF L p(1) s(1) p(2) s(2) nc eq], rule PFull.IH [OF m(1)]) (use p s nc in auto)
  qed
  then show ?case using len u(1) by (simp add: list_eq_iff_nth_eq)
next
  case PNil
  then show ?case by (cases t') simp_all
next
  case (PVal v)
  from PVal(6) show ?case by (cases t') simp_all
qed

lemma root_binds:
  assumes "rlp_ok L" "trie_tree L G T t" "trie_tree L G T' t'" "no_collision L G t t'"
    and "t = PNil \<longleftrightarrow> t' = PNil" "root_of L G t = root_of L G t'"
  shows "t = t'"
proof (cases "t = PNil")
  case False
  then have n: "pnode t" "pnode t'" and s: "psmall t" "psmall t'"
    using assms(2,3,5) by (auto simp: trie_tree_def trie_over_def pwf_def)
  have nc: "x \<in> encodings L G t \<Longrightarrow> y \<in> encodings L G t' \<Longrightarrow> Keccak256Hash G x = Keccak256Hash G y \<Longrightarrow> x = y" for x y
    using assms(4) unfolding no_collision_def by blast
  have "Keccak256Hash G (penc L G t) = Keccak256Hash G (penc L G t')" using assms(5,6) False by (simp add: root_of_def)
  then have "penc L G t = penc L G t'"
    using n by (intro nc penc_in_encodings pnode_inner)
  then have "pload L G None t = pload L G None t'"
    using mustDecodeNode_penc [OF assms(1) n(1) s(1), of None G] mustDecodeNode_penc [OF assms(1) n(2) s(2), of None G] by simp
  then show ?thesis using n s assms(4) by (intro pload_inj [OF assms(1)]) (auto simp: ptree_def)
qed (use assms(5) in simp)

end
