(* ===== verification/TrieCommit.thy ===== *)
theory TrieCommit
  imports TrieHash "HOL-Library.Sublist"
begin

text \<open>
  Committing a trie: the nodes it changed are collected (trie/committer.go) in a set keyed by their path
  (trie/trienode/node.go), and the trie opened again from the root hash holds what the committed one held.
\<close>

subsection \<open>Node sets\<close>

record trienode =
  tn_Hash :: hash
  tn_Blob :: "byte list"

record NodeSet =
  ns_Owner :: hash
  ns_Leaves :: "(byte list \<times> hash) list"
  ns_Nodes :: "byte list \<rightharpoonup> trienode"
  ns_updates :: int
  ns_deletes :: int

definition NewNodeSet :: "hash \<Rightarrow> NodeSet" where
  "NewNodeSet owner = \<lparr>ns_Owner = owner, ns_Leaves = [], ns_Nodes = Map.empty, ns_updates = 0, ns_deletes = 0\<rparr>"

definition IsDeleted :: "trienode \<Rightarrow> bool" where
  "IsDeleted n \<longleftrightarrow> length (tn_Blob n) = 0"

definition NewDeleted :: trienode where
  "NewDeleted = \<lparr>tn_Hash = 0, tn_Blob = []\<rparr>"

definition AddNode :: "NodeSet \<Rightarrow> byte list \<Rightarrow> trienode \<Rightarrow> NodeSet" where
  "AddNode ns path n =
     (let ns = (if IsDeleted n then ns\<lparr>ns_deletes := ns_deletes ns + 1\<rparr> else ns\<lparr>ns_updates := ns_updates ns + 1\<rparr>)
      in ns\<lparr>ns_Nodes := (ns_Nodes ns)(path \<mapsto> n)\<rparr>)"

definition AddLeaf :: "NodeSet \<Rightarrow> hash \<Rightarrow> byte list \<Rightarrow> NodeSet" where
  "AddLeaf ns parent blob = ns\<lparr>ns_Leaves := ns_Leaves ns @ [(blob, parent)]\<rparr>"

subsection \<open>The committer\<close>

definition committer_store :: "rlp \<Rightarrow> tracer \<Rightarrow> bool \<Rightarrow> byte list \<Rightarrow> node \<Rightarrow> nodeFlag \<Rightarrow> NodeSet \<Rightarrow> NodeSet \<times> node" where
  "committer_store L tr collectLeaf path n fl ns =
     (case nf_hash fl of
        None \<Rightarrow> (if tc_accessList tr path \<noteq> None then AddNode ns path NewDeleted else ns, n)
      | Some h \<Rightarrow>
          (let nhash = BytesToHash h;
               ns = AddNode ns path \<lparr>tn_Hash = nhash, tn_Blob = nodeToBytes L n\<rparr>;
               ns = (if collectLeaf
                     then (case n of ShortNode _ (ValueNode val) _ \<Rightarrow> AddLeaf ns nhash val | _ \<Rightarrow> ns)
                     else ns)
           in (ns, HashNode h)))"

text \<open>
  commit and commitChildren. The node passed to store carries the flags of the node it was copied from, so
  its cached hash is that node's. None is a panic.
\<close>

fun commit :: "rlp \<Rightarrow> tracer \<Rightarrow> bool \<Rightarrow> byte list \<Rightarrow> node \<Rightarrow> NodeSet \<Rightarrow> (NodeSet \<times> node) option"
  and commitChildren :: "rlp \<Rightarrow> tracer \<Rightarrow> bool \<Rightarrow> byte list \<Rightarrow> nat \<Rightarrow> node list \<Rightarrow> NodeSet \<Rightarrow> (NodeSet \<times> node list) option"
where
  "commit L tr cl path NilNode ns = None"
| "commit L tr cl path (ValueNode v) ns = None"
| "commit L tr cl path (HashNode h) ns = Some (ns, HashNode h)"
| "commit L tr cl path (ShortNode k c fl) ns =
     (if nf_hash fl \<noteq> None \<and> \<not> nf_dirty fl then Some (ns, HashNode (the (nf_hash fl)))
      else
        (case (case c of FullNode _ _ \<Rightarrow> commit L tr cl (path @ k) c ns | _ \<Rightarrow> Some (ns, c)) of
           None \<Rightarrow> None
         | Some (ns, c') \<Rightarrow>
             map_option (\<lambda>k'. committer_store L tr cl path (ShortNode k' c' fl) fl ns) (hexToCompact k)))"
| "commit L tr cl path (FullNode cs fl) ns =
     (if nf_hash fl \<noteq> None \<and> \<not> nf_dirty fl then Some (ns, HashNode (the (nf_hash fl)))
      else
        (case commitChildren L tr cl path 0 cs ns of
           None \<Rightarrow> None
         | Some (ns, cs') \<Rightarrow> Some (committer_store L tr cl path (FullNode cs' fl) fl ns)))"
| "commitChildren L tr cl path i [] ns = Some (ns, [])"
| "commitChildren L tr cl path i (c # cs) ns =
     (if i < 16 then
        (case (if c = NilNode \<or> hash_of c \<noteq> None then Some (ns, c) else commit L tr cl (path @ [of_nat i]) c ns) of
           None \<Rightarrow> None
         | Some (ns, c') \<Rightarrow>
             (case commitChildren L tr cl path (i + 1) cs ns of
                None \<Rightarrow> None
              | Some (ns, cs') \<Rightarrow> Some (ns, c' # cs')))
      else Some (ns, c # cs))"

text \<open>Commit ends with the trie marked as committed and its tracer reset, whichever way it returns.\<close>

definition commit_done :: "Trie \<Rightarrow> Trie" where
  "commit_done t = t\<lparr>t_committed := True, t_tracer := tracer_reset (t_tracer t)\<rparr>"

definition deletedSet :: "Trie \<Rightarrow> NodeSet" where
  "deletedSet t = foldl (\<lambda>ns path. AddNode ns path NewDeleted) (NewNodeSet (t_owner t)) (deletedNodes (t_tracer t))"

definition Commit :: "rlp \<Rightarrow> geth \<Rightarrow> Trie \<Rightarrow> bool \<Rightarrow> (Trie \<times> hash \<times> NodeSet option) option" where
  "Commit L G t collectLeaf =
     (if t_root t = NilNode then
        (if deletedNodes (t_tracer t) = [] then Some (commit_done t, EmptyRootHash, None)
         else Some (commit_done t, EmptyRootHash, Some (deletedSet t)))
      else
        (case Hash L G t of
           None \<Rightarrow> None
         | Some (t, rootHash) \<Rightarrow>
             (case node_cache (t_root t) of
                None \<Rightarrow> None
              | Some (hashedNode, dirty) \<Rightarrow>
                  if \<not> dirty then
                    Some (commit_done (t\<lparr>t_root := HashNode (case hashedNode of None \<Rightarrow> [] | Some h \<Rightarrow> h)\<rparr>), rootHash, None)
                  else
                    (case commit L (t_tracer t) collectLeaf [] (t_root t) (deletedSet t) of
                       Some (nodes, HashNode h) \<Rightarrow> Some (commit_done (t\<lparr>t_root := HashNode h\<rparr>), rootHash, Some nodes)
                     | _ \<Rightarrow> None))))"

subsection \<open>What a commit provides\<close>

text \<open>A tree can be loaded from the store as it was or from the nodes collected.\<close>

definition provided :: "rlp \<Rightarrow> geth \<Rightarrow> trieReader \<Rightarrow> NodeSet \<Rightarrow> byte list \<Rightarrow> ptrie \<Rightarrow> bool" where
  "provided L G r ns p t \<longleftrightarrow>
     in_store L G r p t \<or> ns_Nodes ns p = Some \<lparr>tn_Hash = BytesToHash (phash L G t), tn_Blob = penc L G t\<rparr>"

lemma kept_frame:
  "kept L G S p t \<Longrightarrow> (\<And>q u. prefix p q \<Longrightarrow> S q u \<Longrightarrow> S' q u) \<Longrightarrow> kept L G S' p t"
proof (induction t arbitrary: p)
  case (PShort k t)
  have "prefix p q" if "prefix (p @ k) q" for q using that by (auto simp: prefix_def)
  with PShort show ?case by auto
next
  case (PFull ts)
  have "prefix p q" if "prefix (p @ [b]) q" for q b using that by (auto simp: prefix_def)
  with PFull show ?case by auto
qed auto

lemma provided_frame: "provided L G r ns p t \<Longrightarrow> ns_Nodes ns' p = ns_Nodes ns p \<Longrightarrow> provided L G r ns' p t"
  by (simp add: provided_def)

lemma kept_provided: "kept L G (in_store L G r) p t \<Longrightarrow> kept L G (provided L G r ns) p t"
  by (erule kept_frame) (simp add: provided_def)

lemma AddNode_other [simp]: "ns_Nodes (AddNode ns p n) q = (if q = p then Some n else ns_Nodes ns q)"
  by (simp add: AddNode_def Let_def)

lemma AddLeaf_nodes [simp]: "ns_Nodes (AddLeaf ns h v) = ns_Nodes ns"
  by (simp add: AddLeaf_def)

definition commits_to :: "rlp \<Rightarrow> geth \<Rightarrow> trieReader \<Rightarrow> byte list \<Rightarrow> ptrie \<Rightarrow> NodeSet \<Rightarrow> (NodeSet \<times> node) option \<Rightarrow> bool" where
  "commits_to L G r p t ns out \<longleftrightarrow>
     (\<exists>ns' n'. out = Some (ns', n') \<and> refers L G p n' t \<and> (by_hash L G p t \<longrightarrow> provided L G r ns' p t) \<and>
        kept L G (provided L G r ns') p t \<and> (\<forall>q. \<not> prefix p q \<longrightarrow> ns_Nodes ns' q = ns_Nodes ns q))"

text \<open>A node that is not changed.\<close>

lemma commits_to_clean:
  assumes "cache_ok L G r p fl t" "nf_hash fl = Some h" "\<not> nf_dirty fl" "inner t"
  shows "commits_to L G r p t ns (Some (ns, HashNode h))"
  using assms cached_hash [OF assms(1,2,4)] kept_provided [of L G r p t ns]
  by (auto simp: commits_to_def provided_def cache_ok_def)

lemma commits_to_leaf:
  assumes "rlp_ok L" "reps L G r p n t" "\<not> has_children n" "ptree t" "t \<noteq> PNil"
  shows "commits_to L G r p t ns (Some (ns, n))"
proof -
  have "kept L G (provided L G r ns) p t \<and> (by_hash L G p t \<longrightarrow> provided L G r ns p t)"
    using assms kept_provided [of L G r p t ns]
    by (cases n) (auto simp: reps_simps has_children_def provided_def by_hash_def)
  then show ?thesis using leaf_refers [OF assms] by (auto simp: commits_to_def)
qed

text \<open>Storing a node whose children have been committed.\<close>

lemma commits_to_store:
  assumes enc: "node_encode L n = penc L G t" "\<not> is_hash n" and inner: "inner t"
    and cache: "cache_ok L G r p fl t" "nf_hash fl = None \<longrightarrow> p \<noteq> [] \<and> length (penc L G t) < 32"
    and kept: "\<And>ns'. (\<And>q. q \<noteq> p \<Longrightarrow> ns_Nodes ns' q = ns_Nodes ns1 q) \<Longrightarrow> kept L G (provided L G r ns') p t"
    and frame: "\<And>q. \<not> prefix p q \<Longrightarrow> ns_Nodes ns1 q = ns_Nodes ns q"
  shows "commits_to L G r p t ns (Some (committer_store L tr cl p n fl ns1))"
proof (cases "nf_hash fl")
  case None
  let ?ns = "if tc_accessList tr p \<noteq> None then AddNode ns1 p NewDeleted else ns1"
  have "kept L G (provided L G r ?ns) p t" by (rule kept) auto
  moreover have "\<not> prefix p q \<Longrightarrow> ns_Nodes ?ns q = ns_Nodes ns q" for q using frame by auto
  ultimately show ?thesis
    using None cache(2) enc by (auto simp: commits_to_def committer_store_def refers_def by_hash_def)
next
  case (Some h)
  let ?ns = "fst (committer_store L tr cl p n fl ns1)"
  have nodes: "ns_Nodes ?ns q = (if q = p then Some \<lparr>tn_Hash = BytesToHash h, tn_Blob = nodeToBytes L n\<rparr> else ns_Nodes ns1 q)" for q
    using Some by (auto simp: committer_store_def Let_def split: node.splits)
  have "kept L G (provided L G r ?ns) p t" by (rule kept) (simp add: nodes)
  moreover have "\<not> prefix p q \<Longrightarrow> ns_Nodes ?ns q = ns_Nodes ns q" for q using frame by (auto simp: nodes)
  moreover have "h = phash L G t" using cache(1) Some by (simp add: cache_ok_def hash_ok_def)
  moreover have "committer_store L tr cl p n fl ns1 = (?ns, HashNode h)" using Some by (simp add: committer_store_def Let_def)
  ultimately show ?thesis
    using cached_hash [OF cache(1) Some inner] enc(1) nodes [of p]
    unfolding commits_to_def by (auto simp: provided_def nodeToBytes_def)
qed

lemma commitChildren_reps:
  assumes L: "rlp_ok L"
  shows "length cs = length ts \<Longrightarrow> i + length cs = 17 \<Longrightarrow>
    (\<And>j. j < length ts \<Longrightarrow> reps L G r (p @ [of_nat (i + j)]) (cs ! j) (ts ! j)) \<Longrightarrow>
    (\<And>j ns. j < length ts \<Longrightarrow> i + j < 16 \<Longrightarrow> has_children (cs ! j) \<Longrightarrow>
        commits_to L G r (p @ [of_nat (i + j)]) (ts ! j) ns (commit L tr cl (p @ [of_nat (i + j)]) (cs ! j) ns)) \<Longrightarrow>
    (\<And>j. j < length ts \<Longrightarrow> ptree (ts ! j)) \<Longrightarrow>
    (\<And>j. j < length ts \<Longrightarrow> i + j < 16 \<Longrightarrow> ts ! j = PNil \<or> inner (ts ! j)) \<Longrightarrow>
    (\<And>j. j < length ts \<Longrightarrow> i + j = 16 \<Longrightarrow> \<not> inner (ts ! j)) \<Longrightarrow>
    \<exists>ns' cs'. commitChildren L tr cl p i cs ns = Some (ns', cs') \<and> map (node_encode L) cs' = map (pref L G) ts \<and>
      (\<forall>j < length ts. (hashed L G (ts ! j) \<longrightarrow> provided L G r ns' (p @ [of_nat (i + j)]) (ts ! j)) \<and>
         kept L G (provided L G r ns') (p @ [of_nat (i + j)]) (ts ! j)) \<and>
      (\<forall>q. (\<forall>j < length ts. \<not> prefix (p @ [of_nat (i + j)]) q) \<longrightarrow> ns_Nodes ns' q = ns_Nodes ns q)"
proof (induction cs arbitrary: i ts ns)
  case (Cons c cs)
  then obtain t ts' where ts: "ts = t # ts'" by (cases ts) auto
  have c: "reps L G r (p @ [of_nat i]) c t" "ptree t" using Cons.prems(3,5) [of 0] ts by simp_all
  have lens: "i + length ts' = 16" "length cs = length ts'" using Cons.prems(1,2) ts by auto
  show ?case
  proof (cases "i < 16")
    case False
    with lens have "i = 16" "length ts' = 0" "length cs = 0" by linarith+
    then have i: "i = 16" "cs = []" "ts' = []" by auto
    have "t = PNil \<or> is_leaf t" using Cons.prems(7) [of 0] c(2) ts i by (auto simp: ptree_def pnode_inner)
    then have "node_encode L c = pref L G t" "\<not> hashed L G t" "kept L G (provided L G r ns) (p @ [of_nat i]) t"
      using c by (auto simp: is_leaf_def ref_of_def elim!: reps_PNil reps_PVal)
    then show ?thesis using i ts by auto
  next
    case True
    define out where "out = (if c = NilNode \<or> hash_of c \<noteq> None then Some (ns, c) else commit L tr cl (p @ [of_nat i]) c ns)"
    have "\<exists>ns1 c'. out = Some (ns1, c') \<and> node_encode L c' = pref L G t \<and>
        (hashed L G t \<longrightarrow> provided L G r ns1 (p @ [of_nat i]) t) \<and> kept L G (provided L G r ns1) (p @ [of_nat i]) t \<and>
        (\<forall>q. \<not> prefix (p @ [of_nat i]) q \<longrightarrow> ns_Nodes ns1 q = ns_Nodes ns q)"
    proof (cases "t = PNil")
      case True
      then show ?thesis using reps_nil_iff [OF c(1)] rlp_empty [OF L] by (simp add: out_def ref_of_def)
    next
      case False
      then have "inner t" using Cons.prems(6) [of 0] \<open>i < 16\<close> ts by auto
      have "commits_to L G r (p @ [of_nat i]) t ns out"
      proof (cases "has_children c")
        case True
        then have "out = commit L tr cl (p @ [of_nat i]) c ns"
          by (auto simp: out_def has_children_def hash_of_def split: node.splits)
        then show ?thesis using Cons.prems(4) [of 0 ns] ts True \<open>i < 16\<close> by simp
      next
        case nc: False
        then have "out = Some (ns, c)" using c(1) \<open>inner t\<close>
          by (cases c) (auto simp: out_def has_children_def hash_of_def reps_simps)
        then show ?thesis using commits_to_leaf [OF L c(1) nc c(2) False] by simp
      qed
      then show ?thesis using refers_pref [of L G "p @ [of_nat i]" _ t] by (auto simp: commits_to_def by_hash_def)
    qed
    then obtain ns1 c' where o: "out = Some (ns1, c')" "node_encode L c' = pref L G t"
      "hashed L G t \<longrightarrow> provided L G r ns1 (p @ [of_nat i]) t" "kept L G (provided L G r ns1) (p @ [of_nat i]) t"
      "\<And>q. \<not> prefix (p @ [of_nat i]) q \<Longrightarrow> ns_Nodes ns1 q = ns_Nodes ns q" by blast
    have "\<exists>ns' cs'. commitChildren L tr cl p (i + 1) cs ns1 = Some (ns', cs') \<and> map (node_encode L) cs' = map (pref L G) ts' \<and>
      (\<forall>j < length ts'. (hashed L G (ts' ! j) \<longrightarrow> provided L G r ns' (p @ [of_nat (i + 1 + j)]) (ts' ! j)) \<and>
         kept L G (provided L G r ns') (p @ [of_nat (i + 1 + j)]) (ts' ! j)) \<and>
      (\<forall>q. (\<forall>j < length ts'. \<not> prefix (p @ [of_nat (i + 1 + j)]) q) \<longrightarrow> ns_Nodes ns' q = ns_Nodes ns1 q)"
    proof (rule Cons.IH)
      fix j assume j: "j < length ts'"
      show "reps L G r (p @ [of_nat (i + 1 + j)]) (cs ! j) (ts' ! j)"
        using Cons.prems(3) [of "Suc j"] j ts by simp
      show "commits_to L G r (p @ [of_nat (i + 1 + j)]) (ts' ! j) ns (commit L tr cl (p @ [of_nat (i + 1 + j)]) (cs ! j) ns)"
        if "i + 1 + j < 16" "has_children (cs ! j)" for ns
        using Cons.prems(4) [of "Suc j" ns] j ts that by simp
      show "ptree (ts' ! j)" using Cons.prems(5) [of "Suc j"] j ts by simp
      show "ts' ! j = PNil \<or> inner (ts' ! j)" if "i + 1 + j < 16"
        using Cons.prems(6) [of "Suc j"] j ts that by simp
      show "\<not> inner (ts' ! j)" if "i + 1 + j = 16"
        using Cons.prems(7) [of "Suc j"] j ts that by simp
    qed (use lens in auto)
    then obtain ns' cs' where r: "commitChildren L tr cl p (i + 1) cs ns1 = Some (ns', cs')" "map (node_encode L) cs' = map (pref L G) ts'"
      "\<And>j. j < length ts' \<Longrightarrow> (hashed L G (ts' ! j) \<longrightarrow> provided L G r ns' (p @ [of_nat (i + 1 + j)]) (ts' ! j)) \<and>
         kept L G (provided L G r ns') (p @ [of_nat (i + 1 + j)]) (ts' ! j)"
      "\<And>q. (\<forall>j < length ts'. \<not> prefix (p @ [of_nat (i + 1 + j)]) q) \<Longrightarrow> ns_Nodes ns' q = ns_Nodes ns1 q" by blast
    have same: "ns_Nodes ns' q = ns_Nodes ns1 q" if "prefix (p @ [of_nat i]) q" for q
    proof (rule r(4), intro allI impI)
      fix j assume "j < length ts'"
      with lens have "i < 256" "i + 1 + j < 256" by linarith+
      then have "unat (of_nat i :: byte) = i" "unat (of_nat (i + 1 + j) :: byte) = i + 1 + j"
        by (simp_all only: unat_of_nat) simp_all
      then have "(of_nat i :: byte) \<noteq> of_nat (i + 1 + j)" by (metis add_cancel_right_right add.assoc add_is_0 one_neq_zero)
      with that show "\<not> prefix (p @ [of_nat (i + 1 + j)]) q" by (auto simp: prefix_def)
    qed
    have head: "(hashed L G t \<longrightarrow> provided L G r ns' (p @ [of_nat i]) t) \<and> kept L G (provided L G r ns') (p @ [of_nat i]) t"
      using o(3,4) same provided_frame by (blast intro: kept_frame prefix_order.refl)
    have all: "(hashed L G (ts ! j) \<longrightarrow> provided L G r ns' (p @ [of_nat (i + j)]) (ts ! j)) \<and>
         kept L G (provided L G r ns') (p @ [of_nat (i + j)]) (ts ! j)" if "j < length ts" for j
      using that head r(3) [of "j - 1"] ts by (cases j) auto
    have "ns_Nodes ns' q = ns_Nodes ns q" if q: "\<forall>j < length ts. \<not> prefix (p @ [of_nat (i + j)]) q" for q
    proof -
      have "\<not> prefix (p @ [of_nat i]) q" using q [rule_format, of 0] ts by simp
      moreover have "\<not> prefix (p @ [of_nat (i + 1 + j)]) q" if "j < length ts'" for j
        using q [rule_format, of "Suc j"] that ts by simp
      ultimately show ?thesis using o(5) r(4) by simp
    qed
    then show ?thesis using True o(1,2) r(1,2) ts all by (auto simp: out_def)
  qed
qed simp

lemma commit_reps:
  assumes L: "rlp_ok L"
  shows "reps L G r p n t \<Longrightarrow> settled L G p n t \<Longrightarrow> ptree t \<Longrightarrow> inner t \<Longrightarrow>
    commits_to L G r p t ns (commit L tr cl p n ns)"
proof (induction t arbitrary: n p ns)
  case (PShort k t)
  then have n: "pnode (PShort k t)" by (simp add: ptree_def is_leaf_def)
  then have t: "ptree t" "t \<noteq> PNil" "k \<noteq> []" by (auto simp: ptree_def is_leaf_def)
  from PShort.prems(1) show ?case
  proof (cases rule: reps_inner_cases)
    case (short k' c fl t')
    then have rep: "reps L G r (p @ k) c t" "cache_ok L G r p fl (PShort k t)" and eq: "n = ShortNode k c fl"
      using PShort.prems(1) by (auto simp: reps_simps)
    have set: "settled L G (p @ k) c t" "nf_hash fl = None \<longrightarrow> p \<noteq> [] \<and> length (penc L G (PShort k t)) < 32"
      using PShort.prems(2) eq by auto
    show ?thesis
    proof (cases "nf_hash fl \<noteq> None \<and> \<not> nf_dirty fl")
      case True
      then show ?thesis using commits_to_clean [OF rep(2)] eq by auto
    next
      case False
      define out where "out = (case c of FullNode _ _ \<Rightarrow> commit L tr cl (p @ k) c ns | _ \<Rightarrow> Some (ns, c))"
      have "commits_to L G r (p @ k) t ns out"
      proof (cases "\<exists>cs fl. c = FullNode cs fl")
        case True
        then have "inner t" "out = commit L tr cl (p @ k) c ns" using rep(1) by (auto simp: reps_simps out_def)
        then show ?thesis using PShort.IH [OF rep(1) set(1) t(1)] by simp
      next
        case False
        then have "\<not> has_children c" using rep(1) n by (auto simp: has_children_def is_leaf_def reps_simps split: node.splits)
        moreover have "out = Some (ns, c)" using False by (auto simp: out_def split: node.splits)
        ultimately show ?thesis using commits_to_leaf [OF L rep(1) _ t(1,2)] by simp
      qed
      then obtain ns1 c' where o: "out = Some (ns1, c')" "refers L G (p @ k) c' t" "hashed L G t \<longrightarrow> provided L G r ns1 (p @ k) t"
        "kept L G (provided L G r ns1) (p @ k) t" "\<And>q. \<not> prefix (p @ k) q \<Longrightarrow> ns_Nodes ns1 q = ns_Nodes ns q"
        by (auto simp: commits_to_def by_hash_def)
      have "commit L tr cl p n ns = Some (committer_store L tr cl p (ShortNode (compact k) c' fl) fl ns1)"
        using eq False o(1) compact_ok(1) [of k] hex_key_short [OF n] unfolding out_def by auto
      moreover have "commits_to L G r p (PShort k t) ns (Some (committer_store L tr cl p (ShortNode (compact k) c' fl) fl ns1))"
      proof (rule commits_to_store [OF _ _ inner_simps(3) rep(2) set(2)])
        show "node_encode L (ShortNode (compact k) c' fl) = penc L G (PShort k t)"
          using refers_pref [OF o(2)] t(3) by simp
        show "\<not> is_hash (ShortNode (compact k) c' fl)" by (simp add: is_hash_def)
        fix ns' :: NodeSet assume same: "\<And>q. q \<noteq> p \<Longrightarrow> ns_Nodes ns' q = ns_Nodes ns1 q"
        have "provided L G r ns1 q u \<Longrightarrow> provided L G r ns' q u" if "prefix (p @ k) q" for q u
          using that t(3) same [of q] provided_frame by (auto simp: prefix_def)
        then show "kept L G (provided L G r ns') p (PShort k t)" using o(3,4) by (auto intro: kept_frame)
      next
        fix q assume "\<not> prefix p q"
        then show "ns_Nodes ns1 q = ns_Nodes ns q" by (intro o(5)) (auto simp: prefix_def)
      qed
      ultimately show ?thesis by simp
    qed
  next
    case (load h)
    then show ?thesis using commits_to_leaf [OF L PShort.prems(1)] PShort.prems(3) by (simp add: has_children_def)
  qed auto
next
  case (PFull ts)
  then have n: "pnode (PFull ts)" by (simp add: ptree_def is_leaf_def)
  then have len: "length ts = 17" by simp
  from PFull.prems(1) show ?case
  proof (cases rule: reps_inner_cases)
    case (full cs fl us)
    then have rep: "length cs = 17" "\<And>i. i < 17 \<Longrightarrow> reps L G r (p @ [of_nat i]) (cs ! i) (ts ! i)" "cache_ok L G r p fl (PFull ts)"
      and eq: "n = FullNode cs fl" using PFull.prems(1) len by (auto simp: reps_simps)
    have set: "\<And>i. i < 17 \<Longrightarrow> settled L G (p @ [of_nat i]) (cs ! i) (ts ! i)"
      "nf_hash fl = None \<longrightarrow> p \<noteq> [] \<and> length (penc L G (PFull ts)) < 32"
      using PFull.prems(2) eq rep(1) by auto
    show ?thesis
    proof (cases "nf_hash fl \<noteq> None \<and> \<not> nf_dirty fl")
      case True
      then show ?thesis using commits_to_clean [OF rep(3)] eq by auto
    next
      case False
      have kid: "ts ! j = PNil \<or> pnode (ts ! j)" if "j < 16" for j using pnode_full_child [OF n, of j] that by simp
      have "\<exists>ns' cs'. commitChildren L tr cl p 0 cs ns = Some (ns', cs') \<and> map (node_encode L) cs' = map (pref L G) ts \<and>
          (\<forall>j < length ts. (hashed L G (ts ! j) \<longrightarrow> provided L G r ns' (p @ [of_nat (0 + j)]) (ts ! j)) \<and>
             kept L G (provided L G r ns') (p @ [of_nat (0 + j)]) (ts ! j)) \<and>
          (\<forall>q. (\<forall>j < length ts. \<not> prefix (p @ [of_nat (0 + j)]) q) \<longrightarrow> ns_Nodes ns' q = ns_Nodes ns q)"
      proof (rule commitChildren_reps [OF L])
        fix j ns assume j: "j < length ts" "0 + j < 16" "has_children (cs ! j)"
        then have "inner (ts ! j)" using rep(2) [of j] by (auto simp: has_children_def reps_simps split: node.splits)
        then show "commits_to L G r (p @ [of_nat (0 + j)]) (ts ! j) ns (commit L tr cl (p @ [of_nat (0 + j)]) (cs ! j) ns)"
          using j(1,2) len rep(2) [of j] set(1) [of j] ptree_full_child [OF n, of j] by (simp add: PFull.IH)
      next
        fix j assume "j < length ts" "0 + j = 16"
        then show "\<not> inner (ts ! j)" using pnode_full_child [OF n, of 16] by (auto simp: is_leaf_def)
      qed (use len rep ptree_full_child [OF n] kid pnode_inner in auto)
      then obtain ns1 cs' where o: "commitChildren L tr cl p 0 cs ns = Some (ns1, cs')" "map (node_encode L) cs' = map (pref L G) ts"
        "\<And>j. j < 17 \<Longrightarrow> hashed L G (ts ! j) \<Longrightarrow> provided L G r ns1 (p @ [of_nat j]) (ts ! j)"
        "\<And>j. j < 17 \<Longrightarrow> kept L G (provided L G r ns1) (p @ [of_nat j]) (ts ! j)"
        "\<And>q. (\<forall>j < 17. \<not> prefix (p @ [of_nat j]) q) \<Longrightarrow> ns_Nodes ns1 q = ns_Nodes ns q" unfolding len by auto
      have "commit L tr cl p n ns = Some (committer_store L tr cl p (FullNode cs' fl) fl ns1)"
        using eq False o(1) by auto
      moreover have "commits_to L G r p (PFull ts) ns (Some (committer_store L tr cl p (FullNode cs' fl) fl ns1))"
      proof (rule commits_to_store [OF _ _ inner_simps(4) rep(3) set(2)])
        show "node_encode L (FullNode cs' fl) = penc L G (PFull ts)" using o(2) by simp
        show "\<not> is_hash (FullNode cs' fl)" by (simp add: is_hash_def)
        fix ns' :: NodeSet assume same: "\<And>q. q \<noteq> p \<Longrightarrow> ns_Nodes ns' q = ns_Nodes ns1 q"
        have "provided L G r ns1 q u \<Longrightarrow> provided L G r ns' q u" if "prefix (p @ [b]) q" for q u b
          using that same [of q] provided_frame by (auto simp: prefix_def)
        moreover from this have "kept L G (provided L G r ns') (p @ [of_nat j]) (ts ! j)" if "j < 17" for j
          using o(4) [OF that] by (blast intro: kept_frame)
        ultimately show "kept L G (provided L G r ns') p (PFull ts)" using o(3) len by auto
      next
        fix q assume "\<not> prefix p q"
        then show "ns_Nodes ns1 q = ns_Nodes ns q" by (intro o(5)) (auto simp: prefix_def)
      qed
      ultimately show ?thesis by simp
    qed
  next
    case (load h)
    then show ?thesis using commits_to_leaf [OF L PFull.prems(1)] PFull.prems(3) by (simp add: has_children_def)
  qed auto
qed auto

subsection \<open>Opening a committed trie\<close>

text \<open>
  A reader over the database that a set of nodes was written to: it finds the nodes of the set, and what the
  reader of the trie found before.
\<close>

definition updated_reader :: "trieReader \<Rightarrow> NodeSet option \<Rightarrow> trieReader \<Rightarrow> bool" where
  "updated_reader r nodes r' \<longleftrightarrow>
     (\<forall>p h blob. reader_node r p h = Inr blob \<longrightarrow> reader_node r' p h = Inr blob) \<and>
     (case nodes of
        None \<Rightarrow> True
      | Some ns \<Rightarrow> \<forall>p n. ns_Nodes ns p = Some n \<longrightarrow> \<not> IsDeleted n \<longrightarrow> reader_node r' p (tn_Hash n) = Inr (tn_Blob n))"

lemma penc_nonempty: "rlp_ok L \<Longrightarrow> pnode t \<Longrightarrow> psmall t \<Longrightarrow> penc L G t \<noteq> []"
  using rlp_list_longer [of L "concat (ppay L G t)"] ppay_fits [of L t G] penc_inner [of t L G] pnode_inner [of t] by force

lemma Commit_tree:
  assumes L: "rlp_ok L" and T: "trie_tree L G T t"
  shows "\<exists>T' nodes. Commit L G T cl = Some (T', root_of L G t, nodes) \<and> t_committed T' \<and>
    (\<forall>r'. t \<noteq> PNil \<longrightarrow> updated_reader (t_reader T) nodes r' \<longrightarrow> in_store L G r' [] t \<and> kept L G (in_store L G r') [] t)"
proof (cases "t = PNil")
  case True
  then have "t_root T = NilNode" using T reps_nil_iff by (auto simp: trie_tree_def trie_over_def)
  then show ?thesis using True by (auto simp: Commit_def root_of_def commit_done_def)
next
  case False
  from Hash_tree [OF L T] obtain T1 where T1: "Hash L G T = Some (T1, root_of L G t)" "trie_tree L G T1 t"
    "settled L G [] (t_root T1) t" "t_reader T1 = t_reader T" by blast
  let ?r = "t_reader T"
  have rep: "reps L G ?r [] (t_root T1) t" and n: "pnode t" "psmall t"
    using T1(2,4) False by (auto simp: trie_tree_def trie_over_def pwf_def)
  then have t: "ptree t" "inner t" "by_hash L G [] t" by (auto simp: ptree_def pnode_inner by_hash_def)
  have root: "t_root T \<noteq> NilNode" using T False reps_nil_iff [of L G ?r "[]" "t_root T" t] by (auto simp: trie_tree_def trie_over_def)
  have store: "in_store L G r' q u" if "provided L G ?r ns q u" "updated_reader ?r (Some ns) r'" "penc L G u \<noteq> []" for ns r' q u
    using that by (auto simp: provided_def updated_reader_def in_store_def IsDeleted_def dest!: spec [where x = q])
  have penc_ne: "penc L G u \<noteq> []" if "hashed L G u" for u using that by auto
  have kept_hashed: "kept L G S q u \<Longrightarrow> kept L G (\<lambda>q u. S q u \<and> hashed L G u) q u" for S q u
    by (induction u arbitrary: q) auto
  show ?thesis
  proof (cases "node_cache (t_root T1)")
    case None
    then have "t_root T1 = NilNode" by (cases "t_root T1") auto
    then show ?thesis using reps_nil_iff [OF rep] False by simp
  next
    case (Some hd)
    then obtain h d where c: "node_cache (t_root T1) = Some (h, d)" by (cases hd) auto
    show ?thesis
    proof (cases d)
      case False
      then have "in_store L G ?r [] t \<and> kept L G (in_store L G ?r) [] t"
        using c rep T1(3) by (cases "t_root T1") (auto simp: reps_simps cache_ok_def)
      moreover have "in_store L G r' q u" if "in_store L G ?r q u" "updated_reader ?r None r'" for r' q u
        using that by (simp add: updated_reader_def in_store_def)
      ultimately have "updated_reader ?r None r' \<longrightarrow> in_store L G r' [] t \<and> kept L G (in_store L G r') [] t" for r'
        by (blast intro: kept_frame)
      then show ?thesis using root T1(1) c False by (auto simp: Commit_def commit_done_def)
    next
      case True
      from commit_reps [OF L rep T1(3) t(1,2), of "deletedSet T1" "t_tracer T1" cl] t(3) obtain ns where
        ns: "commit L (t_tracer T1) cl [] (t_root T1) (deletedSet T1) = Some (ns, HashNode (phash L G t))"
          "provided L G ?r ns [] t" "kept L G (provided L G ?r ns) [] t"
        by (auto simp: commits_to_def refers_def)
      have "in_store L G r' [] t \<and> kept L G (in_store L G r') [] t" if u: "updated_reader ?r (Some ns) r'" for r'
      proof
        show "in_store L G r' [] t" using store [OF ns(2) u] penc_nonempty [OF L n] by simp
        show "kept L G (in_store L G r') [] t"
          using kept_hashed [OF ns(3)] by (rule kept_frame) (use store [OF _ u] penc_ne in blast)
      qed
      then show ?thesis using root T1(1) c True ns(1) by (auto simp: Commit_def commit_done_def)
    qed
  qed
qed

lemma Commit_reopens:
  assumes T: "trie_holds L G T m" and C: "Commit L G T cl = Some (T', root, nodes)"
    and db: "newTrieReader (id_StateRoot i) (id_Owner i) db = Inr r'" "updated_reader (t_reader T) nodes r'"
    and i: "id_Root i = root" "m \<noteq> Map.empty \<longrightarrow> root \<noteq> 0 \<and> root \<noteq> EmptyRootHash"
  shows "\<exists>T2. trie_New L i db = Some (Inr T2) \<and> trie_holds L G T2 m"
proof -
  from T obtain t where L: "rlp_ok L" and t: "trie_tree L G T t" "m = contents t" by (auto simp: trie_holds_def)
  from Commit_tree [OF L t(1), of cl] C have root: "root = root_of L G t"
    and st: "t \<noteq> PNil \<Longrightarrow> in_store L G r' [] t \<and> kept L G (in_store L G r') [] t" using db(2) by auto
  show ?thesis
  proof (cases "t = PNil")
    case True
    then show ?thesis
      using db(1) i(1) root t L
      by (auto simp: trie_New_def root_of_def trie_holds_def trie_tree_def trie_over_def reps_simps pwf_def intro!: exI [of _ PNil])
  next
    case False
    then have n: "pnode t" "psmall t" "bytekeys t" using t(1) by (auto simp: trie_tree_def trie_over_def pwf_def)
    then have "ptree t" by (simp add: ptree_def)
    from ptree_has_key [OF this False] obtain s where s: "plookup t s \<noteq> None" by blast
    with n(3) obtain k where "s = keybytesToHex k" by (auto simp: bytekeys_def)
    with s t(2) have "m k \<noteq> None" by (simp add: contents_def)
    then have "m \<noteq> Map.empty" by auto
    with i(2) have ne: "root \<noteq> 0" "root \<noteq> EmptyRootHash" by auto
    have "reps L G r' [] (HashNode (phash L G t)) t"
      using st [OF False] n by (simp add: reps_simps hash_ok_def)
    moreover have "hashBytes root = phash L G t" using root False by (simp add: root_of_def phash_def hashData_def)
    ultimately obtain tr where "resolveAndTrack L r' newTracer (hashBytes root) [] = Some (tr, Inr (pload L G (Some (phash L G t)) t))"
      "reps L G r' [] (pload L G (Some (phash L G t)) t) t"
      using resolveAndTrack_reps [OF L, of G r' "[]" "phash L G t" t newTracer] pload_reps [OF L, of G r' "[]" "phash L G t" t] by auto
    then show ?thesis
      using db(1) i(1) ne n t(2) L by (auto simp: trie_New_def trie_holds_def trie_tree_def trie_over_def pwf_def intro!: exI [of _ t])
  qed
qed

end
