(* ===== verification/ExamplesTrie.thy ===== *)
theory ExamplesTrie
  imports TrieCommit
begin

text \<open>
  Concrete values for the tries: an RLP codec for contents shorter than \<open>2 ^ 32\<close> bytes that obeys the laws
  of \<open>rlp_ok\<close>, and tries over it.
\<close>

definition rlp_header :: "byte \<Rightarrow> nat \<Rightarrow> byte list" where
  "rlp_header off n =
     (if n < 56 then [off + of_nat n] else (let b = nat_bytes n in (off + 55 + of_nat (length b)) # b))"

definition rlp_cut :: "rlp_kind \<Rightarrow> nat \<Rightarrow> byte list \<Rightarrow> string + (rlp_kind \<times> byte list \<times> byte list)" where
  "rlp_cut kind n r = (if length r < n then Inl ''size'' else Inr (kind, take n r, drop n r))"

fun rlp_parse :: "byte list \<Rightarrow> string + (rlp_kind \<times> byte list \<times> byte list)" where
  "rlp_parse [] = Inl ''EOF''"
| "rlp_parse (b # r) =
     (if b < 128 then Inr (RlpByte, [b], r)
      else if b < 184 then rlp_cut RlpString (unat b - 128) r
      else if b < 192 then rlp_cut RlpString (be_nat (take (unat b - 183) r)) (drop (unat b - 183) r)
      else if b < 248 then rlp_cut RlpList (unat b - 192) r
      else rlp_cut RlpList (be_nat (take (unat b - 247) r)) (drop (unat b - 247) r))"

fun rlp_count :: "nat \<Rightarrow> byte list \<Rightarrow> nat" where
  "rlp_count 0 buf = 0"
| "rlp_count (Suc d) buf =
     (if buf = [] then 0 else case rlp_parse buf of Inl _ \<Rightarrow> 0 | Inr (_, _, rest) \<Rightarrow> Suc (rlp_count d rest))"

definition rlp_ref :: rlp where
  "rlp_ref =
     \<lparr>rlp_WriteBytes = (\<lambda>s. if length s = 1 \<and> s ! 0 < 128 then s else rlp_header 128 (length s) @ s),
      rlp_WriteList = (\<lambda>s. rlp_header 192 (length s) @ s),
      rlp_EmptyString = [128],
      rlp_Split = rlp_parse,
      rlp_SplitString = (\<lambda>buf. case rlp_parse buf of
          Inl e \<Rightarrow> Inl e
        | Inr (kind, s, rest) \<Rightarrow> if kind = RlpList then Inl ''list'' else Inr (s, rest)),
      rlp_SplitList = (\<lambda>buf. case rlp_parse buf of
          Inl e \<Rightarrow> Inl e
        | Inr (kind, s, rest) \<Rightarrow> if kind = RlpList then Inr (s, rest) else Inl ''string''),
      rlp_CountValues = (\<lambda>buf. rlp_count (length buf) buf)\<rparr>"

lemma be_nat_nat_bytes: "be_nat (nat_bytes n) = n"
proof (induction n rule: nat_bytes.induct)
  case (1 n)
  then show ?case
    by (cases "n = 0") (simp_all add: nat_bytes.simps [of n] nat_bytes.simps [of 0] be_nat_append unat_of_nat)
qed

lemma rlp_parse_header:
  assumes "rlp_fits s"
  shows "rlp_parse (rlp_header 128 (length s) @ s @ r) = Inr (RlpString, s, r)"
    "rlp_parse (rlp_header 192 (length s) @ s @ r) = Inr (RlpList, s, r)"
proof -
  have u: "unat (off + of_nat n :: byte) = unat off + n" if "unat off + n < 256" for off :: byte and n
    using that by (simp add: unat_word_ariths unat_of_nat)
  have "rlp_parse (rlp_header 128 (length s) @ s @ r) = Inr (RlpString, s, r) \<and>
      rlp_parse (rlp_header 192 (length s) @ s @ r) = Inr (RlpList, s, r)"
  proof (cases "length s < 56")
    case True
    then show ?thesis
      using u [of 128 "length s"] u [of 192 "length s"]
      by (auto simp: rlp_header_def rlp_cut_def word_less_nat_alt)
  next
    case False
    let ?b = "nat_bytes (length s)"
    have "\<not> length ?b \<le> 0" using False unfolding length_nat_bytes_le by auto
    moreover have "length ?b \<le> 4" using assms unfolding length_nat_bytes_le by simp
    ultimately have l: "1 \<le> length ?b" "length ?b \<le> 4" by (auto simp: Suc_le_eq)
    then show ?thesis
      using False u [of 183 "length ?b"] u [of 247 "length ?b"] be_nat_nat_bytes [of "length s"]
      by (auto simp: rlp_header_def rlp_cut_def word_less_nat_alt Let_def)
  qed
  then show "rlp_parse (rlp_header 128 (length s) @ s @ r) = Inr (RlpString, s, r)"
    "rlp_parse (rlp_header 192 (length s) @ s @ r) = Inr (RlpList, s, r)" by auto
qed

lemma rlp_parse_bytes:
  assumes "rlp_fits s"
  shows "rlp_parse (rlp_WriteBytes rlp_ref s @ r) = Inr (if length s = 1 \<and> s ! 0 < 128 then RlpByte else RlpString, s, r)"
proof (cases "length s = 1 \<and> s ! 0 < 128")
  case True
  then obtain b where "s = [b]" "b < 128" by (cases s) auto
  then show ?thesis by (simp add: rlp_ref_def)
next
  case False
  then show ?thesis using rlp_parse_header(1) [OF assms, of r] by (auto simp: rlp_ref_def)
qed

lemma rlp_parse_list: "rlp_fits s \<Longrightarrow> rlp_parse (rlp_WriteList rlp_ref s @ r) = Inr (RlpList, s, r)"
  using rlp_parse_header(2) [of s r] by (simp add: rlp_ref_def)

lemma length_rlp_header: "rlp_fits s \<Longrightarrow> 1 \<le> length (rlp_header off (length s)) \<and> length (rlp_header off (length s)) \<le> 5"
  using length_nat_bytes_le [of "length s" 4] by (simp add: rlp_header_def Let_def)

lemma rlp_header_nonempty [simp]: "rlp_header off n \<noteq> []"
  by (simp add: rlp_header_def Let_def)

lemma rlp_item_parse:
  assumes "rlp_item rlp_ref x"
  shows "x \<noteq> [] \<and> (\<exists>kind s. \<forall>r. rlp_parse (x @ r) = Inr (kind, s, r))"
proof -
  from assms obtain s where s: "rlp_fits s" "x = rlp_WriteBytes rlp_ref s \<or> x = rlp_WriteList rlp_ref s"
    unfolding rlp_item_def by blast
  then have "x \<noteq> []" by (auto simp: rlp_ref_def split: if_splits)
  then show ?thesis using s rlp_parse_bytes [OF s(1)] rlp_parse_list [OF s(1)] by blast
qed

lemma rlp_count_items: "list_all (rlp_item rlp_ref) xs \<Longrightarrow> length (concat xs) \<le> d \<Longrightarrow> rlp_count d (concat xs) = length xs"
proof (induction xs arbitrary: d)
  case Nil
  then show ?case by (cases d) simp_all
next
  case (Cons x xs)
  from Cons.prems(1) rlp_item_parse [of x] obtain kind s where x: "x \<noteq> []" "\<And>r. rlp_parse (x @ r) = Inr (kind, s, r)" by auto
  then obtain d' where d: "d = Suc d'" using Cons.prems(2) by (cases d) auto
  moreover have "length (concat xs) \<le> d'" using Cons.prems(2) d x(1) by (cases x) auto
  ultimately show ?case using Cons x by simp
qed

lemma rlp_ok_ref [simp]: "rlp_ok rlp_ref"
  unfolding rlp_ok_def
proof (intro conjI allI impI)
  fix s r
  assume s: "rlp_fits s"
  show "length s < length (rlp_WriteList rlp_ref s)" using length_rlp_header [OF s, of 192] by (simp add: rlp_ref_def)
  show "length (rlp_WriteBytes rlp_ref s) \<le> length s + 5" using length_rlp_header [OF s, of 128] by (simp add: rlp_ref_def)
  show "rlp_SplitString rlp_ref (rlp_WriteBytes rlp_ref s @ r) = Inr (s, r)"
    using rlp_parse_bytes [OF s, of r] by (simp add: rlp_ref_def)
  show "rlp_SplitList rlp_ref (rlp_WriteList rlp_ref s @ r) = Inr (s, r)"
    using rlp_parse_list [OF s, of r] by (simp add: rlp_ref_def)
  show "rlp_Split rlp_ref (rlp_WriteBytes rlp_ref s @ r) = Inr (if length s = 1 \<and> s ! 0 < 128 then RlpByte else RlpString, s, r)"
    using rlp_parse_bytes [OF s, of r] by (simp add: rlp_ref_def)
  show "rlp_Split rlp_ref (rlp_WriteList rlp_ref s @ r) = Inr (RlpList, s, r)"
    using rlp_parse_list [OF s, of r] by (simp add: rlp_ref_def)
next
  fix xs
  assume "list_all (rlp_item rlp_ref) xs"
  then show "rlp_CountValues rlp_ref (concat xs) = length xs" using rlp_count_items [of xs] by (simp add: rlp_ref_def)
qed (simp add: rlp_ref_def rlp_header_def)

subsection \<open>Tries\<close>

definition ex_db :: "hash \<Rightarrow> string + (hash \<Rightarrow> byte list \<Rightarrow> hash \<Rightarrow> string + byte list)" where
  "ex_db root = Inl ''empty''"

definition ex_empty_trie :: Trie where
  "ex_empty_trie =
     \<lparr>t_root = NilNode, t_owner = 0, t_committed = False, t_unhashed = 0,
      t_reader = \<lparr>rd_owner = 0, rd_reader = None, rd_banned = None\<rparr>, t_tracer = newTracer\<rparr>"

lemma NewEmpty_ex: "NewEmpty L ex_db = Some ex_empty_trie"
  by (simp add: NewEmpty_def trie_New_def newTrieReader_def ex_empty_trie_def)

lemma ex_empty_tree: "trie_tree rlp_ref G ex_empty_trie PNil"
  by (simp add: trie_tree_def trie_over_def ex_empty_trie_def reps_simps pwf_def psmall_def bytekeys_def)

lemma ex_empty_holds: "trie_holds rlp_ref G ex_empty_trie Map.empty"
  using ex_empty_tree [of G] by (auto simp: trie_holds_def contents_def intro!: exI [of _ PNil])

text \<open>A trie with one key, in memory and not hashed yet.\<close>

definition ex_tree :: ptrie where
  "ex_tree = PShort [0, 1, 16] (PVal [2])"

definition ex_leaf_trie :: Trie where
  "ex_leaf_trie = ex_empty_trie\<lparr>t_root := ShortNode [0, 1, 16] (ValueNode [2]) newFlag\<rparr>"

lemma ex_leaf_tree: "trie_tree rlp_ref G ex_leaf_trie ex_tree"
proof -
  have only: "s = [0, 1, 16] \<and> v = [2]" if "plookup ex_tree s = Some v" for s v
  proof -
    from that have "take 3 s = [0, 1, 16]" "drop 3 s = []" "v = [2]" by (auto simp: ex_tree_def split: if_splits)
    then show ?thesis by (metis append_Nil2 append_take_drop_id)
  qed
  have "psmall ex_tree" unfolding psmall_def by (auto dest!: only)
  moreover have "keybytesToHex [1] = [0, 1, 16]" by (simp add: keybytesToHex_def)
  then have "bytekeys ex_tree" using only unfolding bytekeys_def by (metis option.exhaust rangeI)
  moreover have "pwf ex_tree" by (simp add: ex_tree_def pwf_def is_leaf_def)
  moreover have "reps rlp_ref G (t_reader ex_leaf_trie) [] (t_root ex_leaf_trie) ex_tree"
    by (simp add: ex_leaf_trie_def ex_tree_def reps_simps)
  ultimately show ?thesis by (simp add: trie_tree_def trie_over_def) (simp add: ex_leaf_trie_def ex_empty_trie_def)
qed

lemma ex_leaf_holds: "trie_holds rlp_ref G ex_leaf_trie (contents ex_tree)"
  using ex_leaf_tree [of G] by (auto simp: trie_holds_def)

lemma ex_tree_contents: "contents ex_tree [1] = Some [2]"
  by (simp add: contents_def ex_tree_def keybytesToHex_def)

text \<open>A database written with the nodes of a commit.\<close>

definition ex_written :: "NodeSet option \<Rightarrow> hash \<Rightarrow> string + (hash \<Rightarrow> byte list \<Rightarrow> hash \<Rightarrow> string + byte list)" where
  "ex_written nodes root =
     Inr (\<lambda>owner p h. case nodes of
       None \<Rightarrow> Inr []
     | Some ns \<Rightarrow> (case ns_Nodes ns p of
          None \<Rightarrow> Inr []
        | Some n \<Rightarrow> if tn_Hash n = h then Inr (tn_Blob n) else Inr []))"

definition ex_const_geth :: geth where
  "ex_const_geth = geth_ref\<lparr>Keccak256Hash := \<lambda>_. 7\<rparr>"

lemma ex_written_reader:
  "updated_reader (t_reader ex_leaf_trie) nodes \<lparr>rd_owner = 0, rd_reader = Some (\<lambda>owner p h. case nodes of
       None \<Rightarrow> Inr []
     | Some ns \<Rightarrow> (case ns_Nodes ns p of
          None \<Rightarrow> Inr []
        | Some n \<Rightarrow> if tn_Hash n = h then Inr (tn_Blob n) else Inr [])), rd_banned = None\<rparr>"
  by (auto simp: updated_reader_def reader_node_def ex_leaf_trie_def ex_empty_trie_def IsDeleted_def split: option.splits)

text \<open>A trie whose only node was written to a database that has lost it.\<close>

definition ex_complete :: trieReader where
  "ex_complete =
     \<lparr>rd_owner = 0, rd_reader = Some (\<lambda>owner p h. Inr (penc rlp_ref ex_const_geth ex_tree)), rd_banned = None\<rparr>"

definition ex_lost_trie :: Trie where
  "ex_lost_trie = ex_empty_trie\<lparr>t_root := HashNode (phash rlp_ref ex_const_geth ex_tree)\<rparr>"

lemma ex_lost_over: "trie_over rlp_ref ex_const_geth ex_complete ex_lost_trie ex_tree"
proof -
  have t: "pnode ex_tree" "psmall ex_tree" "bytekeys ex_tree"
    using ex_leaf_tree [of ex_const_geth] by (auto simp: trie_tree_def trie_over_def pwf_def ex_tree_def)
  have "penc rlp_ref ex_const_geth ex_tree \<noteq> []" using penc_nonempty [OF rlp_ok_ref t(1,2)] .
  then have "reps rlp_ref ex_const_geth ex_complete [] (HashNode (phash rlp_ref ex_const_geth ex_tree)) ex_tree"
    using t by (simp add: reps_simps hash_ok_def in_store_def reader_node_def ex_complete_def) (simp add: ex_tree_def)
  then show ?thesis
    using t by (simp add: trie_over_def pwf_def sub_reader_def ex_lost_trie_def ex_empty_trie_def reader_node_def)
qed

end
