(* ===== verification/Warp.thy ===== *)
theory Warp
  imports AllowList PrecompileConfig
begin

text \<open>
  The warp precompile (precompile/contracts/warp): sending an Avalanche Warp Message, reading a verified
  message of the transaction's predicates, and the gas and the verification of a predicate; the wrapper of the
  validator state that verification uses (warp/validators).
\<close>

subsection \<open>Avalanche warp messages\<close>

text \<open>
  Functions of avalanchego's warp, payload and set packages that the sources call. They are not part of the
  repository: each definition that uses one takes the record as its argument. A parsed message is its source
  chain, its payload and its signature; a validator set is opaque.
\<close>

record warpMessage =
  wm_SourceChainID :: hash
  wm_Payload :: "byte list"
  wm_Signature :: "byte list"

record unsignedMessage =
  um_ID :: hash
  um_Bytes :: "byte list"

type_synonym validatorSet = "(address \<times> byte list) list"

type_synonym validatorState = "u64 \<Rightarrow> hash \<Rightarrow> string + validatorSet"

record avalanche =
  NewAddressedCall :: "byte list \<Rightarrow> byte list \<Rightarrow> string + byte list"
  NewUnsignedMessage :: "32 word \<Rightarrow> hash \<Rightarrow> byte list \<Rightarrow> string + unsignedMessage"
  ParseUnsignedMessage :: "byte list \<Rightarrow> string + unsignedMessage"
  ParseMessage :: "byte list \<Rightarrow> string + warpMessage"
  ParseAddressedCall :: "byte list \<Rightarrow> string + (byte list \<times> byte list)"
  ParseHash :: "byte list \<Rightarrow> string + hash"
  ParsePayload :: "byte list \<Rightarrow> string option"
  NumSigners :: "byte list \<Rightarrow> string + nat"
  VerifySignature :: "warpMessage \<Rightarrow> 32 word \<Rightarrow> validatorState \<Rightarrow> u64 \<Rightarrow> u64 \<Rightarrow> u64 \<Rightarrow> string option"
  BitsFromBytes :: "byte list \<Rightarrow> nat set"
  BitsBytes :: "nat set \<Rightarrow> byte list"
  PrimaryNetworkID :: hash
  PlatformChainID :: hash

text \<open>A set of bits is read back from its bytes.\<close>

definition avalanche_ok :: "avalanche \<Rightarrow> bool" where
  "avalanche_ok A \<longleftrightarrow> (\<forall>b. finite b \<longrightarrow> BitsFromBytes A (BitsBytes A b) = b)"

subsection \<open>The ABI (contract.abi) and gas\<close>

definition warpBlockHashTy :: abiType where
  "warpBlockHashTy =
     TupleTy [FixedBytesTy 32, FixedBytesTy 32] [''sourceChainID'', ''blockHash''] [''SourceChainID'', ''BlockHash'']"

definition warpMessageTy :: abiType where
  "warpMessageTy =
     TupleTy [FixedBytesTy 32, AddressTy, BytesTy] [''sourceChainID'', ''originSenderAddress'', ''payload'']
       [''SourceChainID'', ''OriginSenderAddress'', ''Payload'']"

definition warpMethods :: "geth \<Rightarrow> Method list" where
  "warpMethods G =
     [NewMethod G ''getBlockchainID'' ''getBlockchainID'' [] [inputArg ''blockchainID'' (FixedBytesTy 32)],
      NewMethod G ''getVerifiedWarpBlockHash'' ''getVerifiedWarpBlockHash'' [inputArg ''index'' (UintTy 32)]
        [inputArg ''warpBlockHash'' warpBlockHashTy, inputArg ''valid'' BoolTy],
      NewMethod G ''getVerifiedWarpMessage'' ''getVerifiedWarpMessage'' [inputArg ''index'' (UintTy 32)]
        [inputArg ''message'' warpMessageTy, inputArg ''valid'' BoolTy],
      NewMethod G ''sendWarpMessage'' ''sendWarpMessage'' [inputArg ''payload'' BytesTy]
        [inputArg ''messageID'' (FixedBytesTy 32)]]"

definition warpEvents :: "geth \<Rightarrow> Event list" where
  "warpEvents G =
     [NewEvent G ''SendWarpMessage'' ''SendWarpMessage'' False
        [indexedArg ''sender'' AddressTy, indexedArg ''messageID'' (FixedBytesTy 32), inputArg ''message'' BytesTy]]"

definition WarpABI :: "geth \<Rightarrow> ABI" where
  "WarpABI G = makeABI (warpMethods G) (warpEvents G)"

definition GetVerifiedWarpMessageBaseCost :: u64 where "GetVerifiedWarpMessageBaseCost = 2"
definition GetBlockchainIDGasCost :: u64 where "GetBlockchainIDGasCost = 2"
definition AddWarpMessageGasCost :: u64 where "AddWarpMessageGasCost = 20000"

definition SendWarpMessageGasCost :: u64 where
  "SendWarpMessageGasCost = LogGas + 3 * LogTopicGas + AddWarpMessageGasCost + WriteGasCostPerSlot"

definition SendWarpMessageGasCostPerByte :: u64 where "SendWarpMessageGasCostPerByte = LogDataGas"
definition GasCostPerWarpSigner :: u64 where "GasCostPerWarpSigner = 500"
definition GasCostPerWarpMessageBytes :: u64 where "GasCostPerWarpMessageBytes = 100"
definition GasCostPerSignatureVerification :: u64 where "GasCostPerSignatureVerification = 200000"

subsection \<open>Encoding of arguments and results\<close>

definition PackGetBlockchainIDOutput :: "geth \<Rightarrow> hash \<Rightarrow> abi_error + byte list" where
  "PackGetBlockchainIDOutput G blockchainID =
     ABI_PackOutput G (WarpABI G) ''getBlockchainID'' [GoFixed (hashBytes blockchainID)]"

definition UnpackGetVerifiedWarpMessageInput :: "geth \<Rightarrow> byte list \<Rightarrow> abi_error + nat" where
  "UnpackGetVerifiedWarpMessageInput G input =
     (case UnpackInput (WarpABI G) ''getVerifiedWarpMessage'' input False of
        Inl e \<Rightarrow> Inl e
      | Inr vs \<Rightarrow> (case vs of [GoInt Uint32 n] \<Rightarrow> Inr (nat n) | _ \<Rightarrow> Inl ErrTypeMismatch))"

definition PackGetVerifiedWarpMessage :: "geth \<Rightarrow> nat \<Rightarrow> abi_error + byte list" where
  "PackGetVerifiedWarpMessage G index =
     ABI_Pack G (WarpABI G) ''getVerifiedWarpMessage'' [GoInt Uint32 (int index)]"

definition PackGetVerifiedWarpBlockHashOutput :: "geth \<Rightarrow> hash \<Rightarrow> hash \<Rightarrow> bool \<Rightarrow> abi_error + byte list" where
  "PackGetVerifiedWarpBlockHashOutput G sourceChainID blockHash valid =
     ABI_PackOutput G (WarpABI G) ''getVerifiedWarpBlockHash''
       [GoStruct [(''SourceChainID'', GoFixed (hashBytes sourceChainID)), (''BlockHash'', GoFixed (hashBytes blockHash))],
        GoBool valid]"

definition PackGetVerifiedWarpMessageOutput ::
    "geth \<Rightarrow> hash \<Rightarrow> address \<Rightarrow> byte list \<Rightarrow> bool \<Rightarrow> abi_error + byte list" where
  "PackGetVerifiedWarpMessageOutput G sourceChainID originSenderAddress payload valid =
     ABI_PackOutput G (WarpABI G) ''getVerifiedWarpMessage''
       [GoStruct [(''SourceChainID'', GoFixed (hashBytes sourceChainID)),
          (''OriginSenderAddress'', GoAddress originSenderAddress), (''Payload'', GoBytes payload)],
        GoBool valid]"

definition UnpackSendWarpMessageInput :: "geth \<Rightarrow> byte list \<Rightarrow> abi_error + byte list" where
  "UnpackSendWarpMessageInput G input =
     (case UnpackInput (WarpABI G) ''sendWarpMessage'' input False of
        Inl e \<Rightarrow> Inl e
      | Inr vs \<Rightarrow> (case vs of [GoBytes bs] \<Rightarrow> Inr bs | _ \<Rightarrow> Inl ErrTypeMismatch))"

definition PackSendWarpMessage :: "geth \<Rightarrow> byte list \<Rightarrow> abi_error + byte list" where
  "PackSendWarpMessage G payloadData = ABI_Pack G (WarpABI G) ''sendWarpMessage'' [GoBytes payloadData]"

definition PackSendWarpMessageOutput :: "geth \<Rightarrow> hash \<Rightarrow> abi_error + byte list" where
  "PackSendWarpMessageOutput G messageID =
     ABI_PackOutput G (WarpABI G) ''sendWarpMessage'' [GoFixed (hashBytes messageID)]"

definition PackSendWarpMessageEvent ::
    "geth \<Rightarrow> address \<Rightarrow> hash \<Rightarrow> byte list \<Rightarrow> abi_error + (hash list \<times> byte list)" where
  "PackSendWarpMessageEvent G sourceAddress unsignedMessageID unsignedMessageBytes =
     PackEvent G (WarpABI G) ''SendWarpMessage''
       [GoAddress sourceAddress, GoFixed (hashBytes unsignedMessageID), GoBytes unsignedMessageBytes]"

definition UnpackSendWarpEventDataToMessage :: "geth \<Rightarrow> avalanche \<Rightarrow> byte list \<Rightarrow> run_error + unsignedMessage" where
  "UnpackSendWarpEventDataToMessage G A data =
     (case ABI_Unpack (WarpABI G) ''SendWarpMessage'' data of
        Inl e \<Rightarrow> Inl (ErrAbi e)
      | Inr vs \<Rightarrow>
          (case vs of
             [GoBytes message] \<Rightarrow>
               (case ParseUnsignedMessage A message of Inl e \<Rightarrow> Inl (ErrAvalanche e) | Inr m \<Rightarrow> Inr m)
           | _ \<Rightarrow> Inl (ErrAbi ErrTypeMismatch)))"

subsection \<open>The handlers of verified messages (contract_warp_handler.go)\<close>

text \<open>
  The method packFailed of a handler returns bytes that init packed; packing these values does not fail
  (\<open>packFailed_packs\<close>), so that the panic of init is not part of the model.
\<close>

datatype messageHandler = addressedPayloadHandler | blockHashHandler

definition packed_or_empty :: "abi_error + byte list \<Rightarrow> byte list" where
  "packed_or_empty r = (case r of Inl _ \<Rightarrow> [] | Inr bs \<Rightarrow> bs)"

fun packFailed :: "geth \<Rightarrow> messageHandler \<Rightarrow> byte list" where
  "packFailed G addressedPayloadHandler = packed_or_empty (PackGetVerifiedWarpMessageOutput G 0 0 [] False)"
| "packFailed G blockHashHandler = packed_or_empty (PackGetVerifiedWarpBlockHashOutput G 0 0 False)"

fun handleMessage :: "geth \<Rightarrow> avalanche \<Rightarrow> messageHandler \<Rightarrow> warpMessage \<Rightarrow> run_error + byte list" where
  "handleMessage G A addressedPayloadHandler msg =
     (case ParseAddressedCall A (wm_Payload msg) of
        Inl e \<Rightarrow> Inl (ErrInvalidAddressedPayload e)
      | Inr (sourceAddress, payload) \<Rightarrow>
          (case PackGetVerifiedWarpMessageOutput G (wm_SourceChainID msg) (BytesToAddress sourceAddress) payload True of
             Inl e \<Rightarrow> Inl (ErrAbi e)
           | Inr bs \<Rightarrow> Inr bs))"
| "handleMessage G A blockHashHandler msg =
     (case ParseHash A (wm_Payload msg) of
        Inl e \<Rightarrow> Inl (ErrInvalidBlockHashPayload e)
      | Inr h \<Rightarrow>
          (case PackGetVerifiedWarpBlockHashOutput G (wm_SourceChainID msg) h True of
             Inl e \<Rightarrow> Inl (ErrAbi e)
           | Inr bs \<Rightarrow> Inr bs))"

definition handleWarpMessage ::
    "geth \<Rightarrow> avalanche \<Rightarrow> 's contractState \<Rightarrow> accessibleState \<Rightarrow> 's \<Rightarrow> byte list \<Rightarrow> u64 \<Rightarrow> messageHandler \<Rightarrow>
       's runResult" where
  "handleWarpMessage G A S E s input suppliedGas handler =
     (case DeductGas suppliedGas GetVerifiedWarpMessageBaseCost of
        Inl e \<Rightarrow> ([], 0, Some e, s)
      | Inr remainingGas \<Rightarrow>
     (case UnpackGetVerifiedWarpMessageInput G input of
        Inl e \<Rightarrow> ([], remainingGas, Some (ErrInvalidIndexInput (Some e)), s)
      | Inr warpIndex \<Rightarrow>
      if warpIndex > 2147483647 then ([], remainingGas, Some (ErrInvalidIndexInput None), s)
      else
     (let predicateBytes = cs_GetPredicateStorageSlots S s warp_ContractAddress warpIndex;
          predicateResults = as_GetPredicateResults E (cs_GetTxHash S s) warp_ContractAddress;
          valid = predicateBytes \<noteq> None \<and> warpIndex \<notin> BitsFromBytes A predicateResults;
          predicateBytes = (case predicateBytes of None \<Rightarrow> [] | Some bs \<Rightarrow> bs)
      in if \<not> valid then (packFailed G handler, remainingGas, None, s)
         else
     (let (msgBytesGas, overflow) = SafeMul G GasCostPerWarpMessageBytes (of_nat (length predicateBytes)) in
      if overflow then ([], 0, Some ErrOutOfGas, s)
      else
     (case DeductGas remainingGas msgBytesGas of
        Inl e \<Rightarrow> ([], 0, Some e, s)
      | Inr remainingGas \<Rightarrow>
     (case UnpackPredicate G predicateBytes of
        Inl e \<Rightarrow> ([], remainingGas, Some (ErrInvalidPredicateBytes e), s)
      | Inr unpackedPredicateBytes \<Rightarrow>
     (case ParseMessage A unpackedPredicateBytes of
        Inl e \<Rightarrow> ([], remainingGas, Some (ErrInvalidWarpMsg e), s)
      | Inr warpMessage \<Rightarrow>
     (case handleMessage G A handler warpMessage of
        Inl e \<Rightarrow> ([], remainingGas, Some e, s)
      | Inr res \<Rightarrow> (res, remainingGas, None, s)))))))))"

subsection \<open>The functions of the contract\<close>

definition getBlockchainID :: "geth \<Rightarrow> 's runFunc" where
  "getBlockchainID G E s caller addr input suppliedGas readOnly =
     (case DeductGas suppliedGas GetBlockchainIDGasCost of
        Inl e \<Rightarrow> ([], 0, Some e, s)
      | Inr remainingGas \<Rightarrow>
          (case PackGetBlockchainIDOutput G (snow_ChainID (as_SnowContext E)) of
             Inl e \<Rightarrow> ([], remainingGas, Some (ErrAbi e), s)
           | Inr packedOutput \<Rightarrow> (packedOutput, remainingGas, None, s)))"

definition getVerifiedWarpBlockHash :: "geth \<Rightarrow> avalanche \<Rightarrow> 's contractState \<Rightarrow> 's runFunc" where
  "getVerifiedWarpBlockHash G A S E s caller addr input suppliedGas readOnly =
     handleWarpMessage G A S E s input suppliedGas blockHashHandler"

definition getVerifiedWarpMessage :: "geth \<Rightarrow> avalanche \<Rightarrow> 's contractState \<Rightarrow> 's runFunc" where
  "getVerifiedWarpMessage G A S E s caller addr input suppliedGas readOnly =
     handleWarpMessage G A S E s input suppliedGas addressedPayloadHandler"

definition sendWarpMessage :: "geth \<Rightarrow> avalanche \<Rightarrow> 's contractState \<Rightarrow> 's runFunc" where
  "sendWarpMessage G A S E s caller addr input suppliedGas readOnly =
     (case DeductGas suppliedGas SendWarpMessageGasCost of
        Inl e \<Rightarrow> ([], 0, Some e, s)
      | Inr remainingGas \<Rightarrow>
     (let (payloadGas, overflow) = SafeMul G SendWarpMessageGasCostPerByte (of_nat (length input)) in
      if overflow then ([], 0, Some ErrOutOfGas, s)
      else
     (case DeductGas remainingGas payloadGas of
        Inl e \<Rightarrow> ([], 0, Some e, s)
      | Inr remainingGas \<Rightarrow>
      if readOnly then ([], remainingGas, Some ErrWriteProtection, s)
      else
     (case UnpackSendWarpMessageInput G input of
        Inl e \<Rightarrow> ([], remainingGas, Some (ErrInvalidSendInput e), s)
      | Inr payloadData \<Rightarrow>
     (case NewAddressedCall A (addressBytes caller) payloadData of
        Inl e \<Rightarrow> ([], remainingGas, Some (ErrAvalanche e), s)
      | Inr addressedPayload \<Rightarrow>
     (case NewUnsignedMessage A (snow_NetworkID (as_SnowContext E)) (snow_ChainID (as_SnowContext E)) addressedPayload of
        Inl e \<Rightarrow> ([], remainingGas, Some (ErrAvalanche e), s)
      | Inr msg \<Rightarrow>
     (case PackSendWarpMessageEvent G caller (um_ID msg) (um_Bytes msg) of
        Inl e \<Rightarrow> ([], remainingGas, Some (ErrAbi e), s)
      | Inr (topics, data) \<Rightarrow>
     (let s = cs_AddLog S s warp_ContractAddress topics data (big_Uint64 (as_Number E)) in
      case PackSendWarpMessageOutput G (um_ID msg) of
        Inl e \<Rightarrow> ([], remainingGas, Some (ErrAbi e), s)
      | Inr packed \<Rightarrow> (packed, remainingGas, None, s)))))))))"

definition createWarpPrecompile :: "geth \<Rightarrow> avalanche \<Rightarrow> 's contractState \<Rightarrow> 's precompileContract option" where
  "createWarpPrecompile G A S =
     (case abiFunctions (WarpABI G)
             [(''getBlockchainID'', getBlockchainID G),
              (''getVerifiedWarpBlockHash'', getVerifiedWarpBlockHash G A S),
              (''getVerifiedWarpMessage'', getVerifiedWarpMessage G A S),
              (''sendWarpMessage'', sendWarpMessage G A S)] of
        None \<Rightarrow> None
      | Some functions \<Rightarrow>
          (case NewStatefulPrecompileContract None functions of Inl _ \<Rightarrow> None | Inr c \<Rightarrow> Some c))"

subsection \<open>Predicates (config.go)\<close>

datatype warp_error =
    ErrOverflowBytesGas nat
  | ErrInvalidPredicateBytes_warp predicate_error
  | ErrInvalidWarpMsg_warp string
  | ErrInvalidWarpMsgPayload string
  | ErrCannotGetNumSigners string
  | ErrOverflowSignersGasCost
  | ErrOverflowSignerGas u64 u64
  | ErrCannotParseWarpMsg string
  | ErrFailedVerification string

definition PredicateGas :: "geth \<Rightarrow> avalanche \<Rightarrow> byte list \<Rightarrow> warp_error + u64" where
  "PredicateGas G A predicateBytes =
     (let (bytesGasCost, overflow) = SafeMul G GasCostPerWarpMessageBytes (of_nat (length predicateBytes)) in
      if overflow then Inl (ErrOverflowBytesGas (length predicateBytes))
      else
     (let (totalGas, overflow) = SafeAdd G GasCostPerSignatureVerification bytesGasCost in
      if overflow then Inl (ErrOverflowBytesGas (length predicateBytes))
      else
     (case UnpackPredicate G predicateBytes of
        Inl e \<Rightarrow> Inl (ErrInvalidPredicateBytes_warp e)
      | Inr unpackedPredicateBytes \<Rightarrow>
     (case ParseMessage A unpackedPredicateBytes of
        Inl e \<Rightarrow> Inl (ErrInvalidWarpMsg_warp e)
      | Inr warpMessage \<Rightarrow>
     (case ParsePayload A (wm_Payload warpMessage) of
        Some e \<Rightarrow> Inl (ErrInvalidWarpMsgPayload e)
      | None \<Rightarrow>
     (case NumSigners A (wm_Signature warpMessage) of
        Inl e \<Rightarrow> Inl (ErrCannotGetNumSigners e)
      | Inr numSigners \<Rightarrow>
     (let (signerGas, overflow) = SafeMul G (of_nat numSigners) GasCostPerWarpSigner in
      if overflow then Inl ErrOverflowSignersGasCost
      else
     (let (total, overflow) = SafeAdd G totalGas signerGas in
      if overflow then Inl (ErrOverflowSignerGas total signerGas) else Inr total))))))))"

text \<open>GetValidatorSet of the state that NewState (warp/validators/state.go) wraps.\<close>

definition NewState :: "avalanche \<Rightarrow> validatorState \<Rightarrow> hash \<Rightarrow> hash \<Rightarrow> bool \<Rightarrow> validatorState" where
  "NewState A state mySubnetID sourceChainID requirePrimaryNetworkSigners height subnetID =
     (let usePrimary = requirePrimaryNetworkSigners \<and> sourceChainID \<noteq> PlatformChainID A in
      if usePrimary \<or> subnetID \<noteq> PrimaryNetworkID A then state height subnetID else state height mySubnetID)"

text \<open>PredicateContext: the network, the subnet and the validator state of snow.Context, and the P-chain height.\<close>

record predicateContext =
  pcx_NetworkID :: "32 word"
  pcx_SubnetID :: hash
  pcx_ValidatorState :: validatorState
  pcx_PChainHeight :: u64

definition VerifyPredicate ::
    "geth \<Rightarrow> avalanche \<Rightarrow> WarpConfig \<Rightarrow> predicateContext \<Rightarrow> byte list \<Rightarrow> warp_error option" where
  "VerifyPredicate G A c ctx predicateBytes =
     (case UnpackPredicate G predicateBytes of
        Inl e \<Rightarrow> Some (ErrInvalidPredicateBytes_warp e)
      | Inr unpackedPredicateBytes \<Rightarrow>
     (case ParseMessage A unpackedPredicateBytes of
        Inl e \<Rightarrow> Some (ErrCannotParseWarpMsg e)
      | Inr warpMsg \<Rightarrow>
     (let quorumNumerator =
            (if wc_QuorumNumerator c \<noteq> 0 then wc_QuorumNumerator c else WarpDefaultQuorumNumerator);
          state = NewState A (pcx_ValidatorState ctx) (pcx_SubnetID ctx) (wm_SourceChainID warpMsg)
                    (wc_RequirePrimaryNetworkSigners c)
      in case VerifySignature A warpMsg (pcx_NetworkID ctx) state (pcx_PChainHeight ctx) quorumNumerator
                WarpQuorumDenominator of
           Some e \<Rightarrow> Some (ErrFailedVerification e)
         | None \<Rightarrow> None)))"

subsection \<open>Encoding\<close>

lemma WarpABI_methods:
  "abi_Methods (WarpABI G) ''getBlockchainID'' = Some (warpMethods G ! 0)"
  "abi_Methods (WarpABI G) ''getVerifiedWarpBlockHash'' = Some (warpMethods G ! 1)"
  "abi_Methods (WarpABI G) ''getVerifiedWarpMessage'' = Some (warpMethods G ! 2)"
  "abi_Methods (WarpABI G) ''sendWarpMessage'' = Some (warpMethods G ! 3)"
  "abi_Methods (WarpABI G) ''SendWarpMessage'' = None"
  by (simp_all add: WarpABI_def makeABI_def warpMethods_def NewMethod_def Let_def)

lemma WarpABI_events:
  "abi_Events (WarpABI G) name = (if name = ''SendWarpMessage'' then Some (hd (warpEvents G)) else None)"
  by (simp add: WarpABI_def makeABI_def warpEvents_def NewEvent_def Let_def)

definition sendWarpMessageID :: "geth \<Rightarrow> hash" where
  "sendWarpMessageID G = ev_ID (hd (warpEvents G))"

lemma pack_message:
  assumes G: "geth_ok G"
  shows "\<exists>data. Arguments_Pack G [inputArg ''message'' BytesTy] [GoBytes bs] = Inr data \<and>
    (length data < 2 ^ 63 \<longrightarrow> Arguments_Unpack [inputArg ''message'' BytesTy] data = Inr [GoBytes bs])"
proof -
  have ok: "arguments_ok [inputArg ''message'' BytesTy] [GoBytes bs]" by (simp add: arguments_ok_def)
  from Arguments_roundtrip [OF G ok, of "[]"] show ?thesis by auto
qed

lemma packTopic_fixed [simp]: "packTopic G (GoFixed (hashBytes h)) = Inr h"
  by (simp add: packTopic_def)

lemma SendWarpMessageEvent_roundtrip:
  assumes G: "geth_ok G"
  shows "\<exists>data. PackSendWarpMessageEvent G sender h bs = Inr ([sendWarpMessageID G, ucast sender, h], data) \<and>
    (length data < 2 ^ 63 \<longrightarrow>
       UnpackSendWarpEventDataToMessage G A data =
         (case ParseUnsignedMessage A bs of Inl e \<Rightarrow> Inl (ErrAvalanche e) | Inr m \<Rightarrow> Inr m))"
proof -
  from pack_message [OF G, of bs] obtain data where
    data: "Arguments_Pack G [inputArg ''message'' BytesTy] [GoBytes bs] = Inr data"
      "length data < 2 ^ 63 \<longrightarrow> Arguments_Unpack [inputArg ''message'' BytesTy] data = Inr [GoBytes bs]" by blast
  have "Arguments_Unpack (ev_Inputs (hd (warpEvents G))) d = Arguments_Unpack [inputArg ''message'' BytesTy] d" for d
    by (simp add: Arguments_Unpack_def UnpackValues_def NonIndexed_def warpEvents_def NewEvent_def nameInputs_def Let_def)
  with data show ?thesis
    by (intro exI [of _ data])
       (simp add: PackSendWarpMessageEvent_def PackEvent_def WarpABI_events warpEvents_def NewEvent_def nameInputs_def
         Let_def PackTopics_def sendWarpMessageID_def UnpackSendWarpEventDataToMessage_def ABI_Unpack_def getArguments_def
         WarpABI_methods)
qed

lemma warp_field_names:
  "ToCamelCase ''sourceChainID'' = ''SourceChainID''" "ToCamelCase ''blockHash'' = ''BlockHash''"
  "ToCamelCase ''originSenderAddress'' = ''OriginSenderAddress''" "ToCamelCase ''payload'' = ''Payload''"
  by code_simp+

lemma warp_outputs_ok:
  "arguments_ok (mth_Outputs (warpMethods G ! 1))
     [GoStruct [(''SourceChainID'', GoFixed (hashBytes c)), (''BlockHash'', GoFixed (hashBytes h))], GoBool v]"
  "arguments_ok (mth_Outputs (warpMethods G ! 2))
     [GoStruct [(''SourceChainID'', GoFixed (hashBytes c)), (''OriginSenderAddress'', GoAddress a), (''Payload'', GoBytes p)],
      GoBool v]"
  by (simp_all add: arguments_ok_def warpMethods_def NewMethod_def Let_def warpBlockHashTy_def warpMessageTy_def
      warp_field_names)

lemma packFailed_packs:
  assumes G: "geth_ok G"
  shows "\<exists>bs. PackGetVerifiedWarpMessageOutput G c a p v = Inr bs"
    and "\<exists>bs. PackGetVerifiedWarpBlockHashOutput G c h v = Inr bs"
  using Arguments_roundtrip [OF G warp_outputs_ok(1) [of G c h v], of "[]"]
    Arguments_roundtrip [OF G warp_outputs_ok(2) [of G c a p v], of "[]"]
  by (auto simp: PackGetVerifiedWarpMessageOutput_def PackGetVerifiedWarpBlockHashOutput_def ABI_PackOutput_def
      WarpABI_methods)

subsection \<open>Calls\<close>

lemma DeductGas_le: "DeductGas g r = Inr g' \<Longrightarrow> unat g' \<le> unat g"
  by (cases rule: DeductGas_cases [of g r]) auto

lemma handleWarpMessage_pure:
  assumes "handleWarpMessage G A S E s input gas handler = (ret, gas', err, s')"
  shows "s' = s \<and> unat gas' \<le> unat gas"
  using assms
  by (auto simp: handleWarpMessage_def Let_def split: sum.splits if_splits prod.splits option.splits
      dest!: DeductGas_le)

lemma getBlockchainID_pure:
  assumes "getBlockchainID G E s caller addr input gas ro = (ret, gas', err, s')"
  shows "s' = s \<and> unat gas' \<le> unat gas"
  using assms by (auto simp: getBlockchainID_def split: sum.splits dest!: DeductGas_le)

lemma sendWarpMessage_cases:
  assumes "sendWarpMessage G A S E s caller addr input gas ro = (ret, gas', err, s')"
  obtains "s' = s" "unat gas' \<le> unat gas" "err \<noteq> None"
  | payloadData addressed msg topics data where "\<not> ro" "unat gas' \<le> unat gas"
      "UnpackSendWarpMessageInput G input = Inr payloadData"
      "NewAddressedCall A (addressBytes caller) payloadData = Inr addressed"
      "NewUnsignedMessage A (snow_NetworkID (as_SnowContext E)) (snow_ChainID (as_SnowContext E)) addressed = Inr msg"
      "PackSendWarpMessageEvent G caller (um_ID msg) (um_Bytes msg) = Inr (topics, data)"
      "s' = cs_AddLog S s warp_ContractAddress topics data (big_Uint64 (as_Number E))"
      "(ret, err) = (case PackSendWarpMessageOutput G (um_ID msg) of Inl e \<Rightarrow> ([], Some (ErrAbi e)) | Inr p \<Rightarrow> (p, None))"
  using assms
  by (auto simp: sendWarpMessage_def Let_def split: sum.splits if_splits prod.splits
      dest!: DeductGas_le)

context contract_state
begin

text \<open>A call keeps the invariant and uses no more than its gas; a read-only call changes nothing.\<close>

definition run_safe :: "'s runFunc \<Rightarrow> bool" where
  "run_safe run \<longleftrightarrow>
     (\<forall>E s caller addr input gas ro ret gas' err s'.
        inv s \<longrightarrow> run E s caller addr input gas ro = (ret, gas', err, s') \<longrightarrow>
        inv s' \<and> unat gas' \<le> unat gas \<and> (ro \<longrightarrow> obs s' = obs s))"

definition logs_only :: "stateObs \<Rightarrow> stateObs \<Rightarrow> bool" where
  "logs_only ob ob' \<longleftrightarrow> (\<exists>ls. ob' = ob\<lparr>ob_logs := ob_logs ob @ ls\<rparr> \<and> (\<forall>l \<in> set ls. fst l = warp_ContractAddress))"

lemma sendWarpMessage_outcome:
  assumes s: "inv s" and run: "sendWarpMessage G A S E s caller addr input gas ro = (ret, gas', err, s')"
  shows "inv s' \<and> unat gas' \<le> unat gas \<and> (ro \<longrightarrow> obs s' = obs s) \<and> logs_only (obs s) (obs s')"
  using run
proof (cases rule: sendWarpMessage_cases)
  case 1
  then show ?thesis using s by (simp add: logs_only_def exI [of _ "[]"])
next
  case (2 payloadData addressed msg topics data)
  then show ?thesis using AddLog_law [OF s] by (auto simp: logs_only_def)
qed

lemma warp_functions_safe:
  "run_safe (getBlockchainID G)" "run_safe (getVerifiedWarpBlockHash G A S)" "run_safe (getVerifiedWarpMessage G A S)"
  "run_safe (sendWarpMessage G A S)"
proof -
  show "run_safe (getBlockchainID G)"
    unfolding run_safe_def by (intro allI impI, drule getBlockchainID_pure) simp
  show "run_safe (getVerifiedWarpBlockHash G A S)"
    unfolding run_safe_def getVerifiedWarpBlockHash_def by (intro allI impI, drule handleWarpMessage_pure) simp
  show "run_safe (getVerifiedWarpMessage G A S)"
    unfolding run_safe_def getVerifiedWarpMessage_def by (intro allI impI, drule handleWarpMessage_pure) simp
  show "run_safe (sendWarpMessage G A S)"
    unfolding run_safe_def by (intro allI impI, drule (1) sendWarpMessage_outcome) simp
qed

lemma warp_functions_log:
  "run_respects (\<lambda>_. logs_only) (getBlockchainID G)" "run_respects (\<lambda>_. logs_only) (getVerifiedWarpBlockHash G A S)"
  "run_respects (\<lambda>_. logs_only) (getVerifiedWarpMessage G A S)" "run_respects (\<lambda>_. logs_only) (sendWarpMessage G A S)"
proof -
  have refl: "logs_only ob ob" for ob by (simp add: logs_only_def exI [of _ "[]"])
  show "run_respects (\<lambda>_. logs_only) (getBlockchainID G)"
    by (rule respects_same, drule getBlockchainID_pure) (simp_all add: refl)
  show "run_respects (\<lambda>_. logs_only) (getVerifiedWarpBlockHash G A S)"
    unfolding getVerifiedWarpBlockHash_def by (rule respects_same, drule handleWarpMessage_pure) (simp_all add: refl)
  show "run_respects (\<lambda>_. logs_only) (getVerifiedWarpMessage G A S)"
    unfolding getVerifiedWarpMessage_def by (rule respects_same, drule handleWarpMessage_pure) (simp_all add: refl)
  show "run_respects (\<lambda>_. logs_only) (sendWarpMessage G A S)"
    by (rule respectsI, drule (1) sendWarpMessage_outcome) simp
qed

lemma contract_safe:
  assumes "NewStatefulPrecompileContract None fs = Inr c" "\<And>f. f \<in> set fs \<Longrightarrow> run_safe (pf_execute f)"
  shows "run_safe (Contract_Run c)"
  unfolding run_safe_def
proof (intro allI impI)
  fix E s caller addr input gas ro ret gas' err s'
  assume s: "inv s" and run: "Contract_Run c E s caller addr input gas ro = (ret, gas', err, s')"
  from assms(1) have c: "pc_fallback c = None" "pc_functions c = map_of (map (\<lambda>f. (pf_selector f, f)) fs)"
    by (auto simp: NewStatefulPrecompileContract_ok)
  from c(1) run show "inv s' \<and> unat gas' \<le> unat gas \<and> (ro \<longrightarrow> obs s' = obs s)"
  proof (cases rule: Contract_Run_cases)
    case 1
    with s show ?thesis by simp
  next
    case (2 f)
    then have "f \<in> set fs" using c(2) by (auto dest!: map_of_SomeD)
    from assms(2) [OF this] s 2(4) show ?thesis by (auto simp: run_safe_def)
  qed
qed

lemma warp_contract:
  assumes "createWarpPrecompile G A S = Some c"
  shows "run_safe (Contract_Run c)" "run_respects (\<lambda>_. logs_only) (Contract_Run c)"
proof -
  from assms obtain fs where fs: "NewStatefulPrecompileContract None fs = Inr c"
    "abiFunctions (WarpABI G) [(''getBlockchainID'', getBlockchainID G),
       (''getVerifiedWarpBlockHash'', getVerifiedWarpBlockHash G A S),
       (''getVerifiedWarpMessage'', getVerifiedWarpMessage G A S), (''sendWarpMessage'', sendWarpMessage G A S)] = Some fs"
    by (auto simp: createWarpPrecompile_def split: option.splits sum.splits)
  have f: "pf_execute f \<in> {getBlockchainID G, getVerifiedWarpBlockHash G A S, getVerifiedWarpMessage G A S, sendWarpMessage G A S}"
    if "f \<in> set fs" for f
    using abiFunctions_execute [OF fs(2) that] by simp
  show "run_safe (Contract_Run c)"
    by (rule contract_safe [OF fs(1)], drule f) (elim insertE emptyE, simp_all add: warp_functions_safe)
  show "run_respects (\<lambda>_. logs_only) (Contract_Run c)"
  proof (rule respects_contract [OF fs(1)])
    show "logs_only ob ob" for ob by (simp add: logs_only_def exI [of _ "[]"])
    show "run_respects (\<lambda>_. logs_only) (pf_execute f)" if "f \<in> set fs" for f
      using f [OF that] by (elim insertE emptyE) (simp_all add: warp_functions_log)
  qed
qed

end

end
