(* ===== verification/EvmCode.thy ===== *)
theory EvmCode
  imports Prelude "HOL-Library.Monad_Syntax"
begin

unbundle bit_operations_syntax

text \<open>
  Opcodes (core/vm/opcodes.go) and the analysis that tells instructions from the data of PUSH instructions
  (core/vm/analysis.go). A position in a code is a natural number here: the code is in memory, so that the
  additions of the analysis stay far below the bound of uint64.
\<close>

subsection \<open>Opcodes\<close>

abbreviation (input) STOP :: byte where "STOP \<equiv> 0x0"
abbreviation (input) ADD :: byte where "ADD \<equiv> 0x1"
abbreviation (input) MUL :: byte where "MUL \<equiv> 0x2"
abbreviation (input) SUB :: byte where "SUB \<equiv> 0x3"
abbreviation (input) DIV :: byte where "DIV \<equiv> 0x4"
abbreviation (input) SDIV :: byte where "SDIV \<equiv> 0x5"
abbreviation (input) MOD :: byte where "MOD \<equiv> 0x6"
abbreviation (input) SMOD :: byte where "SMOD \<equiv> 0x7"
abbreviation (input) ADDMOD :: byte where "ADDMOD \<equiv> 0x8"
abbreviation (input) MULMOD :: byte where "MULMOD \<equiv> 0x9"
abbreviation (input) EXP :: byte where "EXP \<equiv> 0xa"
abbreviation (input) SIGNEXTEND :: byte where "SIGNEXTEND \<equiv> 0xb"
abbreviation (input) LT :: byte where "LT \<equiv> 0x10"
abbreviation (input) GT :: byte where "GT \<equiv> 0x11"
abbreviation (input) SLT :: byte where "SLT \<equiv> 0x12"
abbreviation (input) SGT :: byte where "SGT \<equiv> 0x13"
abbreviation (input) EQ :: byte where "EQ \<equiv> 0x14"
abbreviation (input) ISZERO :: byte where "ISZERO \<equiv> 0x15"
abbreviation (input) BYTE :: byte where "BYTE \<equiv> 0x1a"
abbreviation (input) SHL :: byte where "SHL \<equiv> 0x1b"
abbreviation (input) SHR :: byte where "SHR \<equiv> 0x1c"
abbreviation (input) SAR :: byte where "SAR \<equiv> 0x1d"
abbreviation (input) KECCAK256 :: byte where "KECCAK256 \<equiv> 0x20"
abbreviation (input) ADDRESS :: byte where "ADDRESS \<equiv> 0x30"
abbreviation (input) BALANCE :: byte where "BALANCE \<equiv> 0x31"
abbreviation (input) ORIGIN :: byte where "ORIGIN \<equiv> 0x32"
abbreviation (input) CALLER :: byte where "CALLER \<equiv> 0x33"
abbreviation (input) CALLVALUE :: byte where "CALLVALUE \<equiv> 0x34"
abbreviation (input) CALLDATALOAD :: byte where "CALLDATALOAD \<equiv> 0x35"
abbreviation (input) CALLDATASIZE :: byte where "CALLDATASIZE \<equiv> 0x36"
abbreviation (input) CALLDATACOPY :: byte where "CALLDATACOPY \<equiv> 0x37"
abbreviation (input) CODESIZE :: byte where "CODESIZE \<equiv> 0x38"
abbreviation (input) CODECOPY :: byte where "CODECOPY \<equiv> 0x39"
abbreviation (input) GASPRICE :: byte where "GASPRICE \<equiv> 0x3a"
abbreviation (input) EXTCODESIZE :: byte where "EXTCODESIZE \<equiv> 0x3b"
abbreviation (input) EXTCODECOPY :: byte where "EXTCODECOPY \<equiv> 0x3c"
abbreviation (input) RETURNDATASIZE :: byte where "RETURNDATASIZE \<equiv> 0x3d"
abbreviation (input) RETURNDATACOPY :: byte where "RETURNDATACOPY \<equiv> 0x3e"
abbreviation (input) EXTCODEHASH :: byte where "EXTCODEHASH \<equiv> 0x3f"
abbreviation (input) BLOCKHASH :: byte where "BLOCKHASH \<equiv> 0x40"
abbreviation (input) COINBASE :: byte where "COINBASE \<equiv> 0x41"
abbreviation (input) TIMESTAMP :: byte where "TIMESTAMP \<equiv> 0x42"
abbreviation (input) NUMBER :: byte where "NUMBER \<equiv> 0x43"
abbreviation (input) DIFFICULTY :: byte where "DIFFICULTY \<equiv> 0x44"
abbreviation (input) GASLIMIT :: byte where "GASLIMIT \<equiv> 0x45"
abbreviation (input) CHAINID :: byte where "CHAINID \<equiv> 0x46"
abbreviation (input) SELFBALANCE :: byte where "SELFBALANCE \<equiv> 0x47"
abbreviation (input) BASEFEE :: byte where "BASEFEE \<equiv> 0x48"
abbreviation (input) BLOBHASH :: byte where "BLOBHASH \<equiv> 0x49"
abbreviation (input) BLOBBASEFEE :: byte where "BLOBBASEFEE \<equiv> 0x4a"
abbreviation (input) POP :: byte where "POP \<equiv> 0x50"
abbreviation (input) MLOAD :: byte where "MLOAD \<equiv> 0x51"
abbreviation (input) MSTORE :: byte where "MSTORE \<equiv> 0x52"
abbreviation (input) MSTORE8 :: byte where "MSTORE8 \<equiv> 0x53"
abbreviation (input) SLOAD :: byte where "SLOAD \<equiv> 0x54"
abbreviation (input) SSTORE :: byte where "SSTORE \<equiv> 0x55"
abbreviation (input) JUMP :: byte where "JUMP \<equiv> 0x56"
abbreviation (input) JUMPI :: byte where "JUMPI \<equiv> 0x57"
abbreviation (input) PC :: byte where "PC \<equiv> 0x58"
abbreviation (input) MSIZE :: byte where "MSIZE \<equiv> 0x59"
abbreviation (input) GAS :: byte where "GAS \<equiv> 0x5a"
abbreviation (input) JUMPDEST :: byte where "JUMPDEST \<equiv> 0x5b"
abbreviation (input) TLOAD :: byte where "TLOAD \<equiv> 0x5c"
abbreviation (input) TSTORE :: byte where "TSTORE \<equiv> 0x5d"
abbreviation (input) MCOPY :: byte where "MCOPY \<equiv> 0x5e"
abbreviation (input) PUSH0 :: byte where "PUSH0 \<equiv> 0x5f"
abbreviation (input) CREATE :: byte where "CREATE \<equiv> 0xf0"
abbreviation (input) CALL :: byte where "CALL \<equiv> 0xf1"
abbreviation (input) CALLCODE :: byte where "CALLCODE \<equiv> 0xf2"
abbreviation (input) RETURN :: byte where "RETURN \<equiv> 0xf3"
abbreviation (input) DELEGATECALL :: byte where "DELEGATECALL \<equiv> 0xf4"
abbreviation (input) CREATE2 :: byte where "CREATE2 \<equiv> 0xf5"
abbreviation (input) STATICCALL :: byte where "STATICCALL \<equiv> 0xfa"
abbreviation (input) REVERT :: byte where "REVERT \<equiv> 0xfd"
abbreviation (input) INVALID :: byte where "INVALID \<equiv> 0xfe"
abbreviation (input) SELFDESTRUCT :: byte where "SELFDESTRUCT \<equiv> 0xff"
abbreviation (input) AND_op :: byte where "AND_op \<equiv> 0x16"
abbreviation (input) OR_op :: byte where "OR_op \<equiv> 0x17"
abbreviation (input) XOR_op :: byte where "XOR_op \<equiv> 0x18"
abbreviation (input) NOT_op :: byte where "NOT_op \<equiv> 0x19"
abbreviation (input) PUSH1 :: byte where "PUSH1 \<equiv> 0x60"
abbreviation (input) PUSH32 :: byte where "PUSH32 \<equiv> 0x7f"
abbreviation (input) DUP1 :: byte where "DUP1 \<equiv> 0x80"
abbreviation (input) SWAP1 :: byte where "SWAP1 \<equiv> 0x90"
abbreviation (input) LOG0 :: byte where "LOG0 \<equiv> 0xa0"

subsection \<open>The bit vector\<close>

text \<open>\<open>None\<close> is the panic of an index out of range.\<close>

type_synonym bitvec = "byte list"

definition set_byte :: "bitvec \<Rightarrow> nat \<Rightarrow> byte \<Rightarrow> bitvec option" where
  "set_byte bits i b = (if i < length bits then Some (bits[i := b]) else None)"

definition or_byte :: "bitvec \<Rightarrow> nat \<Rightarrow> byte \<Rightarrow> bitvec option" where
  "or_byte bits i b = (if i < length bits then Some (bits[i := (bits ! i) OR b]) else None)"

definition set1 :: "bitvec \<Rightarrow> nat \<Rightarrow> bitvec option" where
  "set1 bits pos = or_byte bits (pos div 8) (push_bit (pos mod 8) 1)"

definition setN :: "bitvec \<Rightarrow> 16 word \<Rightarrow> nat \<Rightarrow> bitvec option" where
  "setN bits flag pos =
     (let a = push_bit (pos mod 8) flag;
          b = (ucast (drop_bit 8 a) :: byte) in
      do {
        bits \<leftarrow> or_byte bits (pos div 8) (ucast a);
        if b \<noteq> 0 then set_byte bits (pos div 8 + 1) b else Some bits
      })"

definition set8 :: "bitvec \<Rightarrow> nat \<Rightarrow> bitvec option" where
  "set8 bits pos =
     (let a = (push_bit (pos mod 8) 0xFF :: byte) in
      do {
        bits \<leftarrow> or_byte bits (pos div 8) a;
        set_byte bits (pos div 8 + 1) (NOT a)
      })"

definition set16 :: "bitvec \<Rightarrow> nat \<Rightarrow> bitvec option" where
  "set16 bits pos =
     (let a = (push_bit (pos mod 8) 0xFF :: byte) in
      do {
        bits \<leftarrow> or_byte bits (pos div 8) a;
        bits \<leftarrow> set_byte bits (pos div 8 + 1) 0xFF;
        set_byte bits (pos div 8 + 2) (NOT a)
      })"

definition codeSegment :: "bitvec \<Rightarrow> nat \<Rightarrow> bool option" where
  "codeSegment bits pos =
     (if pos div 8 < length bits then Some ((drop_bit (pos mod 8) (bits ! (pos div 8))) AND 1 = 0) else None)"

subsection \<open>The analysis\<close>

text \<open>
  The bits of one PUSH instruction with \<open>numbits\<close> bytes of data: the two loops and the switch that follows
  them, whose masks have the lowest 2 to 7 bits set.
\<close>

fun setPush :: "bitvec \<Rightarrow> nat \<Rightarrow> nat \<Rightarrow> bitvec option" where
  "setPush bits pc numbits =
     (if numbits \<ge> 16 then do { bits \<leftarrow> set16 bits pc; setPush bits (pc + 16) (numbits - 16) }
      else if numbits \<ge> 8 then do { bits \<leftarrow> set8 bits pc; setPush bits (pc + 8) (numbits - 8) }
      else if numbits = 0 then Some bits
      else if numbits = 1 then set1 bits pc
      else setN bits (mask numbits) pc)"

declare setPush.simps [simp del]

function codeBitmapInternal_loop :: "byte list \<Rightarrow> bitvec \<Rightarrow> nat \<Rightarrow> bitvec option" where
  "codeBitmapInternal_loop code bits pc =
     (if pc < length code
      then (let op = code ! pc; pc = pc + 1 in
            if sint op < sint PUSH1 then codeBitmapInternal_loop code bits pc
            else (let numbits = unat (op - PUSH1 + 1) in
                  do {
                    bits \<leftarrow> setPush bits pc numbits;
                    codeBitmapInternal_loop code bits (pc + numbits)
                  }))
      else Some bits)"
  by pat_completeness auto
termination by (relation "measure (\<lambda>(code, bits, pc). length code - pc)") auto

declare codeBitmapInternal_loop.simps [simp del]

definition codeBitmap :: "byte list \<Rightarrow> bitvec option" where
  "codeBitmap code = codeBitmapInternal_loop code (replicate (length code div 8 + 1 + 4) 0) 0"

subsection \<open>The analysis marks the data of PUSH instructions\<close>

text \<open>The reference: a position holds data if a PUSH instruction before it says so.\<close>

definition pushSize :: "byte \<Rightarrow> nat" where
  "pushSize op = (if PUSH1 \<le> op \<and> op \<le> PUSH32 then unat op - 0x5f else 0)"

fun dataMap :: "nat \<Rightarrow> byte list \<Rightarrow> bool list" where
  "dataMap n [] = []"
| "dataMap 0 (op # code) = False # dataMap (pushSize op) code"
| "dataMap (Suc n) (op # code) = True # dataMap n code"

definition vbit :: "bitvec \<Rightarrow> nat \<Rightarrow> bool" where
  "vbit bits p = bit (bits ! (p div 8)) (p mod 8)"

text \<open>The bits from \<open>pos\<close> to \<open>pos + n\<close> are set, the others stay.\<close>

definition marks :: "bitvec \<Rightarrow> nat \<Rightarrow> nat \<Rightarrow> bitvec \<Rightarrow> bool" where
  "marks bits pos n bits' \<longleftrightarrow>
     length bits' = length bits \<and>
     (\<forall>p < 8 * length bits. vbit bits' p = (vbit bits p \<or> pos \<le> p \<and> p < pos + n))"

definition clear_from :: "bitvec \<Rightarrow> nat \<Rightarrow> bool" where
  "clear_from bits pos \<longleftrightarrow> (\<forall>p < 8 * length bits. pos \<le> p \<longrightarrow> \<not> vbit bits p)"

lemma codeSegment_vbit: "pos < 8 * length bits \<Longrightarrow> codeSegment bits pos = Some (\<not> vbit bits pos)"
  by (simp add: codeSegment_def vbit_def and_one_eq bit_iff_odd_drop_bit even_iff_mod_2_eq_zero [symmetric] div_less_iff_less_mult mult.commute)

lemma marks_trans:
  "marks bits pos n bits' \<Longrightarrow> marks bits' (pos + n) m bits'' \<Longrightarrow> marks bits pos (n + m) bits''"
  by (auto simp: marks_def)

lemma marks_clear: "marks bits pos n bits' \<Longrightarrow> clear_from bits pos \<Longrightarrow> clear_from bits' (pos + n)"
  by (auto simp: marks_def clear_from_def)

lemma marks_none [simp]: "marks bits pos 0 bits"
  by (auto simp: marks_def)

text \<open>A byte that is overwritten was zero, so that overwriting is the same as adding bits.\<close>

lemma clear_byte:
  assumes "clear_from bits pos" "i < length bits" "pos \<le> 8 * i"
  shows "bits ! i = 0"
proof (rule bit_word_eqI)
  fix n assume "n < LENGTH(8)"
  with assms show "bit (bits ! i) n = bit 0 n"
    by (auto simp: clear_from_def vbit_def dest!: spec [of _ "8 * i + n"])
qed

lemma vbit_update:
  "i < length bits \<Longrightarrow> vbit (bits[i := b]) p = (if p div 8 = i then bit b (p mod 8) else vbit bits p)"
  by (auto simp: vbit_def nth_list_update)

lemma bit_push_FF: "j < 8 \<Longrightarrow> bit (push_bit k 0xFF :: byte) j \<longleftrightarrow> k \<le> j"
proof -
  have "(0xFF :: byte) = mask 8" by (simp add: mask_eq_exp_minus_1)
  then show "j < 8 \<Longrightarrow> bit (push_bit k 0xFF :: byte) j \<longleftrightarrow> k \<le> j"
    by (simp only: bit_push_bit_iff bit_mask_iff) auto
qed

lemma bit_FF [simp]: "bit (0xFF :: int) j \<longleftrightarrow> j < 8"
proof -
  have "(0xFF :: int) = mask 8" by (simp add: mask_eq_exp_minus_1)
  then show ?thesis by (simp only: bit_mask_iff) auto
qed

lemma vbit_split: "vbit bits (8 * q + r) = bit (bits ! q) r" if "r < 8"
  using that by (simp add: vbit_def)

lemma split_8:
  fixes p :: nat
  obtains q r where "p = 8 * q + r" "r < 8" "p div 8 = q" "p mod 8 = r"
  by (rule that [of "p div 8" "p mod 8"]) simp_all

lemma marksI:
  assumes "length bits' = length bits"
    and "\<And>q r. q < length bits \<Longrightarrow> r < 8 \<Longrightarrow>
      bit (bits' ! q) r = (bit (bits ! q) r \<or> pos \<le> 8 * q + r \<and> 8 * q + r < pos + n)"
  shows "marks bits pos n bits'"
proof -
  have "vbit bits' p = (vbit bits p \<or> pos \<le> p \<and> p < pos + n)" if "p < 8 * length bits" for p
    using assms(2) [of "p div 8" "p mod 8"] that by (simp add: vbit_def)
  with assms(1) show ?thesis by (simp add: marks_def)
qed

lemma set16_marks:
  assumes clear: "clear_from bits pos" and len: "pos div 8 + 2 < length bits"
  shows "\<exists>bits'. set16 bits pos = Some bits' \<and> marks bits pos 16 bits'"
proof -
  obtain i k where pos: "pos = 8 * i + k" "k < 8" and ik: "pos div 8 = i" "pos mod 8 = k" by (rule split_8)
  with len have len: "i + 2 < length bits" by simp
  let ?bits = "bits[i := (bits ! i) OR push_bit k 0xFF, i + 1 := 0xFF, i + 2 := NOT (push_bit k 0xFF)]"
  have z: "bits ! (i + 1) = 0" "bits ! (i + 2) = 0"
    using len pos by (auto intro!: clear_byte [OF clear])
  have "marks bits pos 16 ?bits"
  proof (rule marksI)
    fix q r assume "q < length bits" and r: "r < (8 :: nat)"
    consider "q < i" | "q = i" | "q = i + 1" | "q = i + 2" | "i + 2 < q" by linarith
    then show "bit (?bits ! q) r = (bit (bits ! q) r \<or> pos \<le> 8 * q + r \<and> 8 * q + r < pos + 16)"
      unfolding pos(1) using len pos(2) z r by cases (simp_all add: bit_or_iff bit_not_iff bit_push_FF; linarith)+
  qed simp
  moreover have "set16 bits pos = Some ?bits"
    using len by (simp add: set16_def or_byte_def set_byte_def ik Let_def)
  ultimately show ?thesis by blast
qed

lemma set8_marks:
  assumes clear: "clear_from bits pos" and len: "pos div 8 + 1 < length bits"
  shows "\<exists>bits'. set8 bits pos = Some bits' \<and> marks bits pos 8 bits'"
proof -
  obtain i k where pos: "pos = 8 * i + k" "k < 8" and ik: "pos div 8 = i" "pos mod 8 = k" by (rule split_8)
  with len have len: "i + 1 < length bits" by simp
  let ?bits = "bits[i := (bits ! i) OR push_bit k 0xFF, i + 1 := NOT (push_bit k 0xFF)]"
  have z: "bits ! (i + 1) = 0"
    using len pos by (auto intro!: clear_byte [OF clear])
  have "marks bits pos 8 ?bits"
  proof (rule marksI)
    fix q r assume "q < length bits" and r: "r < (8 :: nat)"
    consider "q < i" | "q = i" | "q = i + 1" | "i + 1 < q" by linarith
    then show "bit (?bits ! q) r = (bit (bits ! q) r \<or> pos \<le> 8 * q + r \<and> 8 * q + r < pos + 8)"
      unfolding pos(1) using len pos(2) z r by cases (simp_all add: bit_or_iff bit_not_iff bit_push_FF; linarith)+
  qed simp
  moreover have "set8 bits pos = Some ?bits"
    using len by (simp add: set8_def or_byte_def set_byte_def ik Let_def)
  ultimately show ?thesis by blast
qed

lemma set1_marks:
  assumes len: "pos div 8 < length bits"
  shows "\<exists>bits'. set1 bits pos = Some bits' \<and> marks bits pos 1 bits'"
proof -
  obtain i k where pos: "pos = 8 * i + k" "k < 8" and ik: "pos div 8 = i" "pos mod 8 = k" by (rule split_8)
  with len have len: "i < length bits" by simp
  let ?bits = "bits[i := (bits ! i) OR push_bit k 1]"
  have "marks bits pos 1 ?bits"
  proof (rule marksI)
    fix q r assume "q < length bits" and r: "r < (8 :: nat)"
    consider "q < i" | "q = i" | "i < q" by linarith
    then show "bit (?bits ! q) r = (bit (bits ! q) r \<or> pos \<le> 8 * q + r \<and> 8 * q + r < pos + 1)"
      unfolding pos(1) using len pos(2) r by cases (auto simp: bit_or_iff bit_exp_iff)
  qed simp
  moreover have "set1 bits pos = Some ?bits"
    using len by (simp add: set1_def or_byte_def ik)
  ultimately show ?thesis by blast
qed

lemma setN_marks:
  assumes clear: "clear_from bits pos" and len: "pos div 8 + 1 < length bits" and n: "n < 8"
  shows "\<exists>bits'. setN bits (mask n) pos = Some bits' \<and> marks bits pos n bits'"
proof -
  obtain i k where pos: "pos = 8 * i + k" "k < 8" and ik: "pos div 8 = i" "pos mod 8 = k" by (rule split_8)
  with len have len: "i + 1 < length bits" by simp
  let ?a = "push_bit k (mask n) :: 16 word"
  let ?b = "ucast (drop_bit 8 ?a) :: byte"
  let ?bits = "bits[i := (bits ! i) OR ucast ?a, i + 1 := ?b]"
  have a: "bit (ucast ?a :: byte) r \<longleftrightarrow> k \<le> r \<and> r < k + n" if "r < 8" for r
    using that pos(2) n by (auto simp: bit_simps)
  have b: "bit ?b r \<longleftrightarrow> 8 + r < k + n" if "r < 8" for r
    using that pos(2) n by (auto simp: bit_simps)
  have z: "bits ! (i + 1) = 0"
    using len pos by (auto intro!: clear_byte [OF clear])
  have "marks bits pos n ?bits"
  proof (rule marksI)
    fix q r assume "q < length bits" and r: "r < (8 :: nat)"
    consider "q < i" | "q = i" | "q = i + 1" | "i + 1 < q" by linarith
    then show "bit (?bits ! q) r = (bit (bits ! q) r \<or> pos \<le> 8 * q + r \<and> 8 * q + r < pos + n)"
      unfolding pos(1) using len pos(2) z n r by cases (simp_all add: bit_or_iff a b; linarith)+
  qed simp
  moreover have "bits[i := c, i + 1 := 0] = bits[i := c]" for c
    using z by (metis list_update_id list_update_swap n_not_Suc_n Suc_eq_plus1)
  then have "setN bits (mask n) pos = Some ?bits"
    using len by (cases "?b = 0") (simp_all add: setN_def or_byte_def set_byte_def Let_def ik)
  ultimately show ?thesis by blast
qed

lemma setPush_marks:
  assumes "clear_from bits pc" "pc div 8 + 4 < length bits" "n \<le> 32"
  shows "\<exists>bits'. setPush bits pc n = Some bits' \<and> marks bits pc n bits'"
proof -
  have small: "\<exists>bits'. setPush bits pc n = Some bits' \<and> marks bits pc n bits'"
    if "clear_from bits pc" "pc div 8 + 1 < length bits" "n < 8" for bits pc n
    using setN_marks [OF that] set1_marks [of pc bits] that
    by (subst setPush.simps) auto
  have mid: "\<exists>bits'. setPush bits pc n = Some bits' \<and> marks bits pc n bits'"
    if *: "clear_from bits pc" "pc div 8 + 2 < length bits" "n < 16" for bits pc n
  proof (cases "n < 8")
    case True
    with small * show ?thesis by simp
  next
    case False
    from set8_marks [OF *(1)] *(2) obtain b1 where b1: "set8 bits pc = Some b1" "marks bits pc 8 b1" by auto
    have "\<exists>b'. setPush b1 (pc + 8) (n - 8) = Some b' \<and> marks b1 (pc + 8) (n - 8) b'"
      using marks_clear [OF b1(2) *(1)] *(2,3) b1(2) by (intro small) (auto simp: marks_def)
    with b1 False *(3) marks_trans [OF b1(2)] show ?thesis by (subst setPush.simps) fastforce
  qed
  have big: "\<exists>bits'. setPush bits pc n = Some bits' \<and> marks bits pc n bits'"
    if *: "clear_from bits pc" "pc div 8 + 4 < length bits" "n < 32" for bits pc n
  proof (cases "n < 16")
    case True
    with mid * show ?thesis by simp
  next
    case False
    from set16_marks [OF *(1)] *(2) obtain b1 where b1: "set16 bits pc = Some b1" "marks bits pc 16 b1" by auto
    have "\<exists>b'. setPush b1 (pc + 16) (n - 16) = Some b' \<and> marks b1 (pc + 16) (n - 16) b'"
      using marks_clear [OF b1(2) *(1)] *(2,3) b1(2) by (intro mid) (auto simp: marks_def)
    with b1 False marks_trans [OF b1(2)] show ?thesis by (subst setPush.simps) fastforce
  qed
  show ?thesis
  proof (cases "n < 32")
    case True
    with big assms show ?thesis by simp
  next
    case False
    with assms(3) have n: "n = 32" by simp
    from set16_marks [OF assms(1)] assms(2) obtain b1 where
      b1: "set16 bits pc = Some b1" "marks bits pc 16 b1" by auto
    note c1 = marks_clear [OF b1(2) assms(1)]
    have len1: "length b1 = length bits" using b1(2) by (simp add: marks_def)
    have "(pc + 16) div 8 + 2 < length b1" using assms(2) len1 by simp
    from set16_marks [OF c1 this] obtain b2 where
      b2: "set16 b1 (pc + 16) = Some b2" "marks b1 (pc + 16) 16 b2" by auto
    from marks_trans [OF b1(2) b2(2)] b1(1) b2(1) show ?thesis
      by (simp add: n setPush.simps [of bits pc 32] setPush.simps [of b1 "pc + 16" 16] setPush.simps [of b2 _ 0])
  qed
qed

lemma sint_byte: "sint (b :: byte) = (uint b + 128) mod 256 - 128"
  by (simp add: sint_uint signed_take_bit_eq_take_bit_shift take_bit_eq_mod)

lemma pushSize_eq:
  "pushSize op = (if sint op < sint PUSH1 then 0 else unat (op - PUSH1 + 1))"
proof -
  have b: "0 \<le> uint op" "uint op < 256" using uint_lt2p [of op] by simp_all
  have arith: "(u + 128) mod 256 - 128 < 96 \<longleftrightarrow> \<not> (96 \<le> u \<and> u \<le> 127)" if "0 \<le> u" "u < 256" for u :: int
  proof (cases "u < 128")
    case True
    with that show ?thesis by (simp add: mod_pos_pos_trivial; linarith)
  next
    case False
    have "(u + 128) mod 256 = (u - 128 + 256) mod 256" by (simp add: algebra_simps)
    also have "\<dots> = u - 128" using that False by (simp only: mod_add_self2 mod_pos_pos_trivial)
    finally show ?thesis using that False by linarith
  qed
  have iff: "sint op < sint PUSH1 \<longleftrightarrow> \<not> (PUSH1 \<le> op \<and> op \<le> PUSH32)"
    using arith [OF b] by (simp add: sint_byte word_le_def)
  show ?thesis
  proof (cases "PUSH1 \<le> op \<and> op \<le> PUSH32")
    case True
    then have "(0x5f :: byte) \<le> op" by (simp add: word_le_nat_alt)
    then have "unat (op - 0x5f) = unat op - 0x5f" by (simp add: unat_sub)
    with True iff show ?thesis by (simp add: pushSize_def)
  next
    case False
    with iff have "sint op < sint PUSH1" by blast
    with False show ?thesis by (auto simp: pushSize_def)
  qed
qed

lemma pushSize_le: "pushSize op \<le> 32"
  by (auto simp: pushSize_def word_le_nat_alt)

lemma length_dataMap [simp]: "length (dataMap n code) = length code"
  by (induction n code rule: dataMap.induct) simp_all

lemma dataMap_data: "i < n \<Longrightarrow> i < length code \<Longrightarrow> dataMap n code ! i"
  by (induction n code arbitrary: i rule: dataMap.induct) (auto simp: nth_Cons split: nat.split)

lemma drop_dataMap: "drop n (dataMap n code) = dataMap 0 (drop n code)"
  by (induction n code rule: dataMap.induct) simp_all

text \<open>The loop at a position that holds an instruction: what is before it is marked, the rest is clear.\<close>

definition marked_upto :: "byte list \<Rightarrow> bitvec \<Rightarrow> nat \<Rightarrow> bool" where
  "marked_upto code bits pc \<longleftrightarrow>
     length bits = length code div 8 + 5 \<and> clear_from bits pc \<and>
     (\<forall>p < min pc (length code). vbit bits p = dataMap 0 code ! p) \<and>
     (pc < length code \<longrightarrow> drop pc (dataMap 0 code) = dataMap 0 (drop pc code))"

lemma dataMap_step:
  assumes "pc < length code" "drop pc (dataMap 0 code) = dataMap 0 (drop pc code)"
  shows "\<not> dataMap 0 code ! pc" "drop (Suc pc) (dataMap 0 code) = dataMap (pushSize (code ! pc)) (drop (Suc pc) code)"
proof -
  have c: "drop pc code = code ! pc # drop (Suc pc) code"
    and d: "drop pc (dataMap 0 code) = dataMap 0 code ! pc # drop (Suc pc) (dataMap 0 code)"
    using assms(1) by (simp_all add: Cons_nth_drop_Suc)
  from assms(2) show "\<not> dataMap 0 code ! pc"
    "drop (Suc pc) (dataMap 0 code) = dataMap (pushSize (code ! pc)) (drop (Suc pc) code)"
    unfolding c d by simp_all
qed

lemma marked_upto_step:
  assumes m: "marked_upto code bits pc" and pc: "pc < length code"
    and marks: "marks bits (pc + 1) n bits'" and n: "n = pushSize (code ! pc)"
  shows "marked_upto code bits' (pc + 1 + n)"
proof -
  let ?d = "dataMap 0 code"
  from m pc have len: "length bits = length code div 8 + 5" and clear: "clear_from bits pc"
    and before: "\<And>p. p < pc \<Longrightarrow> vbit bits p = ?d ! p" and d: "drop pc ?d = dataMap 0 (drop pc code)"
    by (simp_all add: marked_upto_def)
  note step = dataMap_step [OF pc d]
  have big: "p < 8 * length bits" if "p < length code" for p
    using that len by simp
  have "vbit bits' p = ?d ! p" if p: "p < pc + 1 + n" "p < length code" for p
  proof -
    have v: "vbit bits' p = (vbit bits p \<or> pc + 1 \<le> p)"
      using marks p big [OF p(2)] by (simp add: marks_def)
    consider "p < pc" | "p = pc" | "pc < p" by linarith
    then show ?thesis
    proof cases
      case 1
      with v before show ?thesis by simp
    next
      case 2
      with v clear step(1) big [OF p(2)] show ?thesis by (simp add: clear_from_def)
    next
      case 3
      then have "?d ! p = drop (Suc pc) ?d ! (p - Suc pc)" using p(2) by simp
      also have "\<dots>" unfolding step(2) using 3 p n by (intro dataMap_data) simp_all
      finally show ?thesis using v 3 by simp
    qed
  qed
  moreover have "drop (pc + 1 + n) ?d = dataMap 0 (drop (pc + 1 + n) code)"
    using step(2) drop_dataMap [of n "drop (Suc pc) code"] n by (metis drop_drop add.commute Suc_eq_plus1)
  moreover have "clear_from bits' (pc + 1 + n)"
    using marks_clear [OF marks] clear by (auto simp: clear_from_def)
  moreover have "length bits' = length code div 8 + 5" using marks len by (simp add: marks_def)
  ultimately show ?thesis by (simp add: marked_upto_def)
qed

lemma codeBitmapInternal_marks:
  assumes "marked_upto code bits pc"
  shows "\<exists>bits' pc'. codeBitmapInternal_loop code bits pc = Some bits' \<and> marked_upto code bits' pc' \<and> length code \<le> pc'"
  using assms
proof (induction code bits pc rule: codeBitmapInternal_loop.induct)
  case (1 code bits pc)
  show ?case
  proof (cases "pc < length code")
    case False
    with "1.prems" show ?thesis by (subst codeBitmapInternal_loop.simps) auto
  next
    case pc: True
    let ?op = "code ! pc"
    show ?thesis
    proof (cases "sint ?op < sint PUSH1")
      case True
      then have "pushSize ?op = 0" by (simp add: pushSize_eq)
      with marked_upto_step [OF "1.prems" pc, of 0 bits] have "marked_upto code bits (pc + 1)" by simp
      from "1.IH"(1) [OF pc refl refl True this] pc True show ?thesis
        by (subst codeBitmapInternal_loop.simps) simp
    next
      case False
      let ?n = "unat (?op - PUSH1 + 1)"
      have n: "?n = pushSize ?op" using False pushSize_eq [of ?op] by simp
      have clear: "clear_from bits (pc + 1)" and len: "(pc + 1) div 8 + 4 < length bits"
        using "1.prems" pc by (auto simp: marked_upto_def clear_from_def)
      from setPush_marks [OF clear len, of ?n] n pushSize_le [of ?op] obtain bits' where
        b: "setPush bits (pc + 1) ?n = Some bits'" "marks bits (pc + 1) ?n bits'" by auto
      from marked_upto_step [OF "1.prems" pc b(2) n] have "marked_upto code bits' (pc + 1 + ?n)" .
      from "1.IH"(2) [OF pc refl refl False refl b(1) this] pc False b(1) show ?thesis
        by (subst codeBitmapInternal_loop.simps) (simp add: Let_def)
    qed
  qed
qed

lemma codeBitmap_correct:
  "\<exists>bits. codeBitmap code = Some bits \<and>
     (\<forall>pos < length code. codeSegment bits pos = Some (\<not> dataMap 0 code ! pos))"
proof -
  have "marked_upto code (replicate (length code div 8 + 1 + 4) 0) 0"
    by (auto simp: marked_upto_def clear_from_def vbit_def)
  from codeBitmapInternal_marks [OF this] obtain bits pc where
    b: "codeBitmap code = Some bits" "marked_upto code bits pc" "length code \<le> pc"
    by (auto simp: codeBitmap_def)
  have "codeSegment bits pos = Some (\<not> dataMap 0 code ! pos)" if "pos < length code" for pos
    using b(2,3) that codeSegment_vbit [of pos bits] by (simp add: marked_upto_def)
  with b(1) show ?thesis by blast
qed

corollary codeBitmap_table:
  "\<exists>bits. codeBitmap code = Some bits \<and>
     map (codeSegment bits) [0..<length code] = map (\<lambda>data. Some (\<not> data)) (dataMap 0 code)"
proof -
  from codeBitmap_correct [of code] obtain bits where
    bits: "codeBitmap code = Some bits" "\<forall>pos < length code. codeSegment bits pos = Some (\<not> dataMap 0 code ! pos)"
    by auto
  moreover have "length (dataMap 0 code) = length code" for code by (rule length_dataMap)
  ultimately show ?thesis by (intro exI [of _ bits]) (auto intro: nth_equalityI)
qed

end
