(* ===== verification/EvmMachine.thy ===== *)
theory EvmMachine
  imports EvmCode Contract
begin

text \<open>
  What an instruction works on: the errors of execution (vmerrs, core/vm/errors.go), the helpers of
  core/vm/common.go, stack (stack.go), memory (memory.go, memory_table.go) and the running contract
  (contract.go).

  uint256.Int is the 256-bit word. The stack is a list with its top first. A function that indexes the stack
  or the memory returns an option whose \<open>None\<close> is the panic. A slice of the memory beyond its length is such
  a panic here, where Go looks at the capacity.
\<close>

subsection \<open>Errors\<close>

datatype vm_error =
    errStopToken
  | ErrOutOfGas_vm
  | ErrCodeStoreOutOfGas
  | ErrDepth
  | ErrInsufficientBalance
  | ErrContractAddressCollision
  | ErrExecutionReverted
  | ErrMaxCodeSizeExceeded
  | ErrInvalidJump
  | ErrWriteProtection_vm
  | ErrReturnDataOutOfBounds
  | ErrGasUintOverflow
  | ErrInvalidCode
  | ErrNonceUintOverflow
  | ErrAddrProhibited
  | ErrStackUnderflow nat nat
  | ErrStackOverflow nat nat
  | ErrInvalidOpCode byte
  | ErrNotAuthorizedToDeploy address
  | ErrReentrancySentry
  | ErrNative string
  | ErrPrecompile run_error

subsection \<open>Words\<close>

text \<open>Uint64, IsUint64, Bytes20 and FromBig of uint256; \<open>Bytes32\<close> and \<open>Set\<close> are the identity.\<close>

definition Uint64 :: "u256 \<Rightarrow> u64" where
  "Uint64 x = ucast x"

definition IsUint64 :: "u256 \<Rightarrow> bool" where
  "IsUint64 x \<longleftrightarrow> unat x < 2 ^ 64"

definition Bytes20 :: "u256 \<Rightarrow> address" where
  "Bytes20 x = ucast x"

definition u256_FromBig :: "int \<Rightarrow> u256 \<times> bool" where
  "u256_FromBig n = (word_of_int n, big_BitLen n > 256)"

definition toWordSize :: "u64 \<Rightarrow> u64" where
  "toWordSize sz = (if sz > MaxUint64 - 31 then MaxUint64 div 32 + 1 else (sz + 31) div 32)"

definition calcMemSize64WithUint :: "u256 \<Rightarrow> u64 \<Rightarrow> u64 \<times> bool" where
  "calcMemSize64WithUint off length64 =
     (if length64 = 0 then (0, False)
      else if \<not> IsUint64 off then (0, True)
      else (let offset64 = Uint64 off; val = offset64 + length64 in (val, val < offset64)))"

definition calcMemSize64 :: "u256 \<Rightarrow> u256 \<Rightarrow> u64 \<times> bool" where
  "calcMemSize64 off l = (if \<not> IsUint64 l then (0, True) else calcMemSize64WithUint off (Uint64 l))"

text \<open>A slice whose end is before its start is a panic.\<close>

definition getData :: "geth \<Rightarrow> byte list \<Rightarrow> u64 \<Rightarrow> u64 \<Rightarrow> byte list option" where
  "getData G data start sz =
     (let len = of_nat (length data);
          start = (if start > len then len else start);
          end = start + sz;
          end = (if end > len then len else end)
      in if end < start then None
         else Some (RightPadBytes G (take (unat end - unat start) (drop (unat start) data)) (nat (sint sz))))"

definition allZero :: "byte list \<Rightarrow> bool" where
  "allZero b = list_all (\<lambda>byte. byte = 0) b"

subsection \<open>The stack\<close>

type_synonym Stack = "u256 list"

fun Stack_pop :: "Stack \<Rightarrow> (u256 \<times> Stack) option" where
  "Stack_pop [] = None"
| "Stack_pop (x # st) = Some (x, st)"

definition Stack_push :: "Stack \<Rightarrow> u256 \<Rightarrow> Stack" where
  "Stack_push st d = d # st"

definition Back :: "Stack \<Rightarrow> nat \<Rightarrow> u256 option" where
  "Back st n = (if n < length st then Some (st ! n) else None)"

definition Stack_swap :: "Stack \<Rightarrow> nat \<Rightarrow> Stack option" where
  "Stack_swap st n =
     (if 0 < n \<and> n \<le> length st then Some (st[0 := st ! (n - 1), n - 1 := st ! 0]) else None)"

definition Stack_dup :: "Stack \<Rightarrow> nat \<Rightarrow> Stack option" where
  "Stack_dup st n = (if 0 < n \<and> n \<le> length st then Some (Stack_push st (st ! (n - 1))) else None)"

definition StackLimit :: int where
  "StackLimit = 1024"

definition maxStack :: "nat \<Rightarrow> nat \<Rightarrow> int" where
  "maxStack pops push = StackLimit + int pops - int push"

definition minStack :: "nat \<Rightarrow> nat \<Rightarrow> int" where
  "minStack pops push = int pops"

subsection \<open>The memory\<close>

record Memory =
  mem_store :: "byte list"
  mem_lastGasCost :: u64

definition NewMemory :: Memory where
  "NewMemory = \<lparr>mem_store = [], mem_lastGasCost = 0\<rparr>"

definition overwrite :: "nat \<Rightarrow> byte list \<Rightarrow> byte list \<Rightarrow> byte list" where
  "overwrite off bs xs = take off xs @ bs @ drop (off + length bs) xs"

definition mem_Len :: "Memory \<Rightarrow> u64" where
  "mem_Len m = of_nat (length (mem_store m))"

definition mem_Set :: "Memory \<Rightarrow> u64 \<Rightarrow> u64 \<Rightarrow> byte list \<Rightarrow> Memory option" where
  "mem_Set m offset sz value =
     (if sz > 0
      then (if offset + sz > mem_Len m \<or> offset + sz < offset then None
            else Some (m\<lparr>mem_store := overwrite (unat offset) (take (unat sz) value) (mem_store m)\<rparr>))
      else Some m)"

definition mem_Set32 :: "Memory \<Rightarrow> u64 \<Rightarrow> u256 \<Rightarrow> Memory option" where
  "mem_Set32 m offset val =
     (if offset + 32 > mem_Len m \<or> offset > mem_Len m then None
      else Some (m\<lparr>mem_store :=
        overwrite (unat offset) (take (length (mem_store m) - unat offset) (hashBytes val)) (mem_store m)\<rparr>))"

definition mem_Resize :: "Memory \<Rightarrow> u64 \<Rightarrow> Memory" where
  "mem_Resize m sz =
     (if mem_Len m < sz
      then m\<lparr>mem_store := mem_store m @ replicate (unat sz - length (mem_store m)) 0\<rparr>
      else m)"

text \<open>GetCopy and GetPtr differ in whether the result aliases the memory, which no caller writes to.\<close>

definition GetPtr :: "Memory \<Rightarrow> u64 \<Rightarrow> u64 \<Rightarrow> byte list option" where
  "GetPtr m offset sz =
     (let offset = sint offset; sz = sint sz in
      if sz = 0 then Some []
      else if int (length (mem_store m)) > offset
      then (if 0 \<le> offset \<and> 0 \<le> sz \<and> offset + sz \<le> int (length (mem_store m))
            then Some (take (nat sz) (drop (nat offset) (mem_store m))) else None)
      else Some [])"

definition mem_Copy :: "Memory \<Rightarrow> u64 \<Rightarrow> u64 \<Rightarrow> u64 \<Rightarrow> Memory option" where
  "mem_Copy m dst src len =
     (if len = 0 then Some m
      else if dst > mem_Len m \<or> src + len > mem_Len m \<or> src + len < src then None
      else (let bs = take (unat len) (drop (unat src) (mem_store m)) in
            Some (m\<lparr>mem_store :=
              overwrite (unat dst) (take (length (mem_store m) - unat dst) bs) (mem_store m)\<rparr>)))"

text \<open>
  The functions of memory_table.go: how much memory an instruction needs, and whether that overflows. Those
  that share a body share a constructor.
\<close>

datatype memorySizeFunc =
    memoryKeccak256   \<comment> \<open>also memoryReturn, memoryRevert, memoryLog\<close>
  | memoryCallDataCopy   \<comment> \<open>also memoryReturnDataCopy, memoryCodeCopy\<close>
  | memoryExtCodeCopy
  | memoryMLoad   \<comment> \<open>also memoryMStore\<close>
  | memoryMStore8
  | memoryMcopy
  | memoryCreate   \<comment> \<open>also memoryCreate2\<close>
  | memoryCall
  | memoryDelegateCall   \<comment> \<open>also memoryStaticCall\<close>

definition calcRegion :: "Stack \<Rightarrow> nat \<Rightarrow> nat \<Rightarrow> (u64 \<times> bool) option" where
  "calcRegion st i j = do { off \<leftarrow> Back st i; l \<leftarrow> Back st j; Some (calcMemSize64 off l) }"

definition calcRegions :: "(u64 \<times> bool) option \<Rightarrow> (u64 \<times> bool) option \<Rightarrow> (u64 \<times> bool) option" where
  "calcRegions r q =
     do {
       (x, overflow) \<leftarrow> r;
       if overflow then Some (0, True)
       else do {
         (y, overflow) \<leftarrow> q;
         if overflow then Some (0, True) else if x > y then Some (x, False) else Some (y, False)
       }
     }"

fun memorySize :: "memorySizeFunc \<Rightarrow> Stack \<Rightarrow> (u64 \<times> bool) option" where
  "memorySize memoryKeccak256 st = calcRegion st 0 1"
| "memorySize memoryCallDataCopy st = calcRegion st 0 2"
| "memorySize memoryExtCodeCopy st = calcRegion st 1 3"
| "memorySize memoryMLoad st = do { off \<leftarrow> Back st 0; Some (calcMemSize64WithUint off 32) }"
| "memorySize memoryMStore8 st = do { off \<leftarrow> Back st 0; Some (calcMemSize64WithUint off 1) }"
| "memorySize memoryMcopy st =
     do {
       dst \<leftarrow> Back st 0; src \<leftarrow> Back st 1; len \<leftarrow> Back st 2;
       Some (calcMemSize64 (if src > dst then src else dst) len)
     }"
| "memorySize memoryCreate st = calcRegion st 1 2"
| "memorySize memoryCall st = calcRegions (calcRegion st 5 6) (calcRegion st 3 4)"
| "memorySize memoryDelegateCall st = calcRegions (calcRegion st 4 5) (calcRegion st 2 3)"

subsection \<open>The running contract\<close>

text \<open>The caller is known by its address; AsDelegate takes the contract that makes the call.\<close>

record vmContract =
  con_CallerAddress :: address
  con_self :: address
  con_Code :: "byte list"
  con_CodeHash :: hash
  con_Input :: "byte list"
  con_Gas :: u64
  con_value :: u256

definition NewContract :: "address \<Rightarrow> address \<Rightarrow> u256 \<Rightarrow> u64 \<Rightarrow> vmContract" where
  "NewContract caller object value gas =
     \<lparr>con_CallerAddress = caller, con_self = object, con_Code = [], con_CodeHash = 0, con_Input = [],
      con_Gas = gas, con_value = value\<rparr>"

definition AsDelegate :: "vmContract \<Rightarrow> vmContract \<Rightarrow> vmContract" where
  "AsDelegate parent c = c\<lparr>con_CallerAddress := con_CallerAddress parent, con_value := con_value parent\<rparr>"

definition SetCallCode :: "vmContract \<Rightarrow> hash \<Rightarrow> byte list \<Rightarrow> vmContract" where
  "SetCallCode c codeHash code = c\<lparr>con_Code := code, con_CodeHash := codeHash\<rparr>"

definition GetOp :: "vmContract \<Rightarrow> u64 \<Rightarrow> byte" where
  "GetOp c n = (if n < of_nat (length (con_Code c)) then con_Code c ! unat n else STOP)"

definition UseGas :: "vmContract \<Rightarrow> u64 \<Rightarrow> vmContract \<times> bool" where
  "UseGas c gas =
     (if con_Gas c < gas then (c, False) else (c\<lparr>con_Gas := con_Gas c - gas\<rparr>, True))"

text \<open>
  isCode finds the analysis in the contract or in the map that the contracts of a call share, and leaves it
  there. validJumpdest below runs it with nothing found, which does not change its answer as long as the
  entry of a hash is the analysis of the code with that hash (\<open>isCode_cached\<close>).
\<close>

definition isCode ::
    "(hash \<rightharpoonup> bitvec) \<Rightarrow> bitvec option \<Rightarrow> vmContract \<Rightarrow> nat \<Rightarrow>
       (bool \<times> (hash \<rightharpoonup> bitvec) \<times> bitvec option) option" where
  "isCode jumpdests analysis c udest =
     (case analysis of
        Some bits \<Rightarrow> do { r \<leftarrow> codeSegment bits udest; Some (r, jumpdests, analysis) }
      | None \<Rightarrow>
          if con_CodeHash c \<noteq> 0
          then do {
                 (bits, jumpdests) \<leftarrow>
                   (case jumpdests (con_CodeHash c) of
                      Some bits \<Rightarrow> Some (bits, jumpdests)
                    | None \<Rightarrow> do { bits \<leftarrow> codeBitmap (con_Code c); Some (bits, jumpdests(con_CodeHash c \<mapsto> bits)) });
                 r \<leftarrow> codeSegment bits udest;
                 Some (r, jumpdests, Some bits)
               }
          else do {
                 bits \<leftarrow> codeBitmap (con_Code c);
                 r \<leftarrow> codeSegment bits udest;
                 Some (r, jumpdests, Some bits)
               })"

definition validJumpdest :: "vmContract \<Rightarrow> u256 \<Rightarrow> bool option" where
  "validJumpdest c dest =
     (if \<not> IsUint64 dest \<or> Uint64 dest \<ge> of_nat (length (con_Code c)) then Some False
      else if con_Code c ! unat (Uint64 dest) \<noteq> JUMPDEST then Some False
      else map_option fst (isCode (\<lambda>_. None) None c (unat (Uint64 dest))))"

definition cache_ok :: "(hash \<rightharpoonup> bitvec) \<Rightarrow> bitvec option \<Rightarrow> vmContract \<Rightarrow> bool" where
  "cache_ok jumpdests analysis c \<longleftrightarrow>
     (\<forall>bits. analysis = Some bits \<or> con_CodeHash c \<noteq> 0 \<and> jumpdests (con_CodeHash c) = Some bits \<longrightarrow>
        codeBitmap (con_Code c) = Some bits)"

lemma isCode_cached:
  assumes "cache_ok jumpdests analysis c"
  shows "map_option fst (isCode jumpdests analysis c udest) = map_option fst (isCode (\<lambda>_. None) None c udest)"
    and "isCode jumpdests analysis c udest = Some (r, jumpdests', analysis') \<Longrightarrow> cache_ok jumpdests' analysis' c"
proof -
  from codeBitmap_correct [of "con_Code c"] obtain bits where bits: "codeBitmap (con_Code c) = Some bits" by blast
  with assms have an: "analysis = None \<or> analysis = Some bits" 
    and jd: "con_CodeHash c = 0 \<or> jumpdests (con_CodeHash c) = None \<or> jumpdests (con_CodeHash c) = Some bits"
    unfolding cache_ok_def by (metis option.exhaust option.inject)+
  from an jd bits
  show "map_option fst (isCode jumpdests analysis c udest) = map_option fst (isCode (\<lambda>_. None) None c udest)"
    by (cases "codeSegment bits udest") (auto simp: isCode_def)
  from an jd bits
  show "isCode jumpdests analysis c udest = Some (r, jumpdests', analysis') \<Longrightarrow> cache_ok jumpdests' analysis' c"
    by (cases "codeSegment bits udest"; auto simp: isCode_def cache_ok_def split: if_splits; metis option.inject)
qed

lemma validJumpdest_iff:
  assumes "length (con_Code c) < 2 ^ 64"
  shows "validJumpdest c dest =
     Some (unat dest < length (con_Code c) \<and> con_Code c ! unat dest = JUMPDEST \<and> \<not> dataMap 0 (con_Code c) ! unat dest)"
proof -
  from codeBitmap_correct [of "con_Code c"] obtain bits where bits: "codeBitmap (con_Code c) = Some bits"
    "\<And>pos. pos < length (con_Code c) \<Longrightarrow> codeSegment bits pos = Some (\<not> dataMap 0 (con_Code c) ! pos)" by blast
  have d: "IsUint64 dest \<longleftrightarrow> unat dest < 2 ^ 64" "IsUint64 dest \<Longrightarrow> unat (Uint64 dest) = unat dest"
    by (simp_all add: IsUint64_def Uint64_def unsigned_ucast_eq take_bit_nat_eq_self)
  have "Uint64 dest \<ge> of_nat (length (con_Code c)) \<longleftrightarrow> unat (Uint64 dest) \<ge> length (con_Code c)"
    using assms by (simp add: word_le_nat_alt unsigned_of_nat take_bit_nat_eq_self)
  then show ?thesis
    using d bits assms by (auto simp: validJumpdest_def isCode_def)
qed

end
