(* ===== verification/EvmTable.thy ===== *)
theory EvmTable
  imports EvmMachine
begin

text \<open>
  The jump tables (core/vm/jump_table.go) and the EIPs that change them (core/vm/eips.go): for every opcode
  its operation, with constant gas, dynamic gas, stack bounds and memory size. A function that the table
  refers to is the constructor with its name; what it does is in EvmGas and Evm. The executing functions are
  grouped by what they work on.
\<close>

subsection \<open>Gas constants (params/protocol_params.go, core/vm/gas.go)\<close>

abbreviation (input) GasQuickStep :: u64 where "GasQuickStep \<equiv> 2"
abbreviation (input) GasFastestStep :: u64 where "GasFastestStep \<equiv> 3"
abbreviation (input) GasFastStep :: u64 where "GasFastStep \<equiv> 5"
abbreviation (input) GasMidStep :: u64 where "GasMidStep \<equiv> 8"
abbreviation (input) GasSlowStep :: u64 where "GasSlowStep \<equiv> 10"
abbreviation (input) GasExtStep :: u64 where "GasExtStep \<equiv> 20"
abbreviation (input) BalanceGasEIP150 :: u64 where "BalanceGasEIP150 \<equiv> 400"
abbreviation (input) BalanceGasEIP1884 :: u64 where "BalanceGasEIP1884 \<equiv> 700"
abbreviation (input) BalanceGasFrontier :: u64 where "BalanceGasFrontier \<equiv> 20"
abbreviation (input) CallGasEIP150 :: u64 where "CallGasEIP150 \<equiv> 700"
abbreviation (input) CallGasFrontier :: u64 where "CallGasFrontier \<equiv> 40"
abbreviation (input) Create2Gas :: u64 where "Create2Gas \<equiv> 32000"
abbreviation (input) CreateGas :: u64 where "CreateGas \<equiv> 32000"
abbreviation (input) ExtcodeCopyBaseEIP150 :: u64 where "ExtcodeCopyBaseEIP150 \<equiv> 700"
abbreviation (input) ExtcodeCopyBaseFrontier :: u64 where "ExtcodeCopyBaseFrontier \<equiv> 20"
abbreviation (input) ExtcodeHashGasConstantinople :: u64 where "ExtcodeHashGasConstantinople \<equiv> 400"
abbreviation (input) ExtcodeHashGasEIP1884 :: u64 where "ExtcodeHashGasEIP1884 \<equiv> 700"
abbreviation (input) ExtcodeSizeGasEIP150 :: u64 where "ExtcodeSizeGasEIP150 \<equiv> 700"
abbreviation (input) ExtcodeSizeGasFrontier :: u64 where "ExtcodeSizeGasFrontier \<equiv> 20"
abbreviation (input) JumpdestGas :: u64 where "JumpdestGas \<equiv> 1"
abbreviation (input) Keccak256Gas :: u64 where "Keccak256Gas \<equiv> 30"
abbreviation (input) SelfdestructGasEIP150 :: u64 where "SelfdestructGasEIP150 \<equiv> 5000"
abbreviation (input) SloadGasEIP150 :: u64 where "SloadGasEIP150 \<equiv> 200"
abbreviation (input) SloadGasEIP1884 :: u64 where "SloadGasEIP1884 \<equiv> 800"
abbreviation (input) SloadGasEIP2200 :: u64 where "SloadGasEIP2200 \<equiv> 800"
abbreviation (input) SloadGasFrontier :: u64 where "SloadGasFrontier \<equiv> 50"
abbreviation (input) WarmStorageReadCostEIP2929 :: u64 where "WarmStorageReadCostEIP2929 \<equiv> 100"
abbreviation (input) CallValueTransferGas :: u64 where "CallValueTransferGas \<equiv> 9000"
abbreviation (input) CallNewAccountGas :: u64 where "CallNewAccountGas \<equiv> 25000"
abbreviation (input) QuadCoeffDiv :: u64 where "QuadCoeffDiv \<equiv> 512"
abbreviation (input) CallStipend :: u64 where "CallStipend \<equiv> 2300"
abbreviation (input) Keccak256WordGas :: u64 where "Keccak256WordGas \<equiv> 6"
abbreviation (input) InitCodeWordGas :: u64 where "InitCodeWordGas \<equiv> 2"
abbreviation (input) SstoreSetGas :: u64 where "SstoreSetGas \<equiv> 20000"
abbreviation (input) SstoreResetGas :: u64 where "SstoreResetGas \<equiv> 5000"
abbreviation (input) SstoreClearGas :: u64 where "SstoreClearGas \<equiv> 5000"
abbreviation (input) SstoreRefundGas :: u64 where "SstoreRefundGas \<equiv> 15000"
abbreviation (input) NetSstoreNoopGas :: u64 where "NetSstoreNoopGas \<equiv> 200"
abbreviation (input) NetSstoreInitGas :: u64 where "NetSstoreInitGas \<equiv> 20000"
abbreviation (input) NetSstoreCleanGas :: u64 where "NetSstoreCleanGas \<equiv> 5000"
abbreviation (input) NetSstoreDirtyGas :: u64 where "NetSstoreDirtyGas \<equiv> 200"
abbreviation (input) NetSstoreClearRefund :: u64 where "NetSstoreClearRefund \<equiv> 15000"
abbreviation (input) NetSstoreResetRefund :: u64 where "NetSstoreResetRefund \<equiv> 4800"
abbreviation (input) NetSstoreResetClearRefund :: u64 where "NetSstoreResetClearRefund \<equiv> 19800"
abbreviation (input) SstoreSentryGasEIP2200 :: u64 where "SstoreSentryGasEIP2200 \<equiv> 2300"
abbreviation (input) SstoreSetGasEIP2200 :: u64 where "SstoreSetGasEIP2200 \<equiv> 20000"
abbreviation (input) SstoreResetGasEIP2200 :: u64 where "SstoreResetGasEIP2200 \<equiv> 5000"
abbreviation (input) SstoreClearsScheduleRefundEIP2200 :: u64 where "SstoreClearsScheduleRefundEIP2200 \<equiv> 15000"
abbreviation (input) ColdAccountAccessCostEIP2929 :: u64 where "ColdAccountAccessCostEIP2929 \<equiv> 2600"
abbreviation (input) ColdSloadCostEIP2929 :: u64 where "ColdSloadCostEIP2929 \<equiv> 2100"
abbreviation (input) CreateDataGas :: u64 where "CreateDataGas \<equiv> 200"
abbreviation (input) ExpGas :: u64 where "ExpGas \<equiv> 10"
abbreviation (input) CopyGas :: u64 where "CopyGas \<equiv> 3"
abbreviation (input) SelfdestructRefundGas :: u64 where "SelfdestructRefundGas \<equiv> 24000"
abbreviation (input) MemoryGas :: u64 where "MemoryGas \<equiv> 3"
abbreviation (input) ExpByteFrontier :: u64 where "ExpByteFrontier \<equiv> 10"
abbreviation (input) ExpByteEIP158 :: u64 where "ExpByteEIP158 \<equiv> 50"
abbreviation (input) CreateBySelfdestructGas :: u64 where "CreateBySelfdestructGas \<equiv> 25000"
abbreviation (input) MaxCodeSize :: u64 where "MaxCodeSize \<equiv> 24576"
abbreviation (input) MaxInitCodeSize :: u64 where "MaxInitCodeSize \<equiv> 49152"

subsection \<open>Operations\<close>

datatype binaryOp =
    opAdd | opSub | opMul | opDiv | opSdiv | opMod | opSmod | opExp | opSignExtend
  | opLt | opGt | opSlt | opSgt | opEq | opAnd | opOr | opXor | opByte | opSHL | opSHR | opSAR

datatype unaryOp = opNot | opIszero

datatype ternaryOp = opAddmod | opMulmod

datatype environmentOp =
    opAddress | opOrigin | opCaller | opCallValue | opCallDataSize | opReturnDataSize | opCodeSize | opGasprice
  | opCoinbase | opTimestamp | opNumber | opDifficulty | opGasLimit | opPc | opMsize | opGas | opChainID
  | opBaseFee | opPush0 | opBlobBaseFee

datatype accessOp =
    opKeccak256 | opBalance | opSelfBalance | opCallDataLoad | opExtCodeSize | opExtCodeHash | opBlockhash | opBlobHash
  | opMload | opSload | opTload

datatype copyOp = opCallDataCopy | opReturnDataCopy | opCodeCopy | opExtCodeCopy | opMcopy

datatype storeOp = opPop | opMstore | opMstore8 | opSstore | opTstore | makeLog nat

datatype stackOp = opPush1 | makePush nat nat | makeDup nat | makeSwap nat

datatype jumpOp = opJump | opJumpi | opJumpdest

datatype createOp = opCreate | opCreate2

datatype callOp = opCall | opCallCode | opDelegateCall | opStaticCall

datatype haltOp = opStop | opUndefined | opReturn | opRevert | opSelfdestruct | opSelfdestruct6780

datatype executionFunc =
    Binary binaryOp | Unary unaryOp | Ternary ternaryOp | Environment environmentOp | Access accessOp
  | CopyTo copyOp | Store storeOp | OnStack stackOp | Jump jumpOp | Creation createOp | Calling callOp | Halt haltOp

datatype gasFunc =
    memoryCopierGas nat | pureMemoryGascost | gasKeccak256 | makeGasLog nat
  | gasCreate2 | gasCreateEip3860 | gasCreate2Eip3860 | gasExpFrontier | gasExpEIP158
  | gasSStore | gasSStoreEIP2200 | gasSStoreEIP2929 | gasSLoadEIP2929
  | gasExtCodeCopyEIP2929 | gasEip2929AccountCheck
  | gasCall | gasCallCode | gasDelegateCall | gasStaticCall | makeCallVariantGasCallEIP2929 gasFunc
  | gasSelfdestruct | makeSelfdestructGasFn bool

record operation =
  op_execute :: executionFunc
  op_constantGas :: u64
  op_dynamicGas :: "gasFunc option"
  op_minStack :: int
  op_maxStack :: int
  op_memorySize :: "memorySizeFunc option"

type_synonym JumpTable = "byte \<Rightarrow> operation"

text \<open>Composite literals of an operation, without and with dynamic gas.\<close>

abbreviation staticOp :: "executionFunc \<Rightarrow> u64 \<Rightarrow> nat \<Rightarrow> nat \<Rightarrow> operation" where
  "staticOp f gas pops push \<equiv>
     \<lparr>op_execute = f, op_constantGas = gas, op_dynamicGas = None, op_minStack = minStack pops push,
      op_maxStack = maxStack pops push, op_memorySize = None\<rparr>"

abbreviation dynamicOp ::
    "executionFunc \<Rightarrow> u64 \<Rightarrow> gasFunc \<Rightarrow> memorySizeFunc option \<Rightarrow> nat \<Rightarrow> nat \<Rightarrow> operation" where
  "dynamicOp f gas dyn mem pops push \<equiv>
     \<lparr>op_execute = f, op_constantGas = gas, op_dynamicGas = Some dyn, op_minStack = minStack pops push,
      op_maxStack = maxStack pops push, op_memorySize = mem\<rparr>"

definition validate :: "JumpTable \<Rightarrow> JumpTable option" where
  "validate jt =
     (if \<forall>op. op_memorySize (jt op) \<noteq> None \<longrightarrow> op_dynamicGas (jt op) \<noteq> None then Some jt else None)"

subsection \<open>The instruction sets\<close>

definition frontierArithmetic :: "(byte \<times> operation) list" where
  "frontierArithmetic =
     [(STOP, staticOp (Halt opStop) 0 0 0),
      (ADD, staticOp (Binary opAdd) GasFastestStep 2 1),
      (MUL, staticOp (Binary opMul) GasFastStep 2 1),
      (SUB, staticOp (Binary opSub) GasFastestStep 2 1),
      (DIV, staticOp (Binary opDiv) GasFastStep 2 1),
      (SDIV, staticOp (Binary opSdiv) GasFastStep 2 1),
      (MOD, staticOp (Binary opMod) GasFastStep 2 1),
      (SMOD, staticOp (Binary opSmod) GasFastStep 2 1),
      (ADDMOD, staticOp (Ternary opAddmod) GasMidStep 3 1),
      (MULMOD, staticOp (Ternary opMulmod) GasMidStep 3 1),
      (EXP, dynamicOp (Binary opExp) 0 gasExpFrontier None 2 1),
      (SIGNEXTEND, staticOp (Binary opSignExtend) GasFastStep 2 1),
      (LT, staticOp (Binary opLt) GasFastestStep 2 1),
      (GT, staticOp (Binary opGt) GasFastestStep 2 1),
      (SLT, staticOp (Binary opSlt) GasFastestStep 2 1),
      (SGT, staticOp (Binary opSgt) GasFastestStep 2 1),
      (EQ, staticOp (Binary opEq) GasFastestStep 2 1),
      (ISZERO, staticOp (Unary opIszero) GasFastestStep 1 1),
      (AND_op, staticOp (Binary opAnd) GasFastestStep 2 1),
      (XOR_op, staticOp (Binary opXor) GasFastestStep 2 1),
      (OR_op, staticOp (Binary opOr) GasFastestStep 2 1),
      (NOT_op, staticOp (Unary opNot) GasFastestStep 1 1),
      (BYTE, staticOp (Binary opByte) GasFastestStep 2 1),
      (KECCAK256, dynamicOp (Access opKeccak256) Keccak256Gas gasKeccak256 (Some memoryKeccak256) 2 1)]"

definition frontierEnvironment :: "(byte \<times> operation) list" where
  "frontierEnvironment =
     [(ADDRESS, staticOp (Environment opAddress) GasQuickStep 0 1),
      (BALANCE, staticOp (Access opBalance) BalanceGasFrontier 1 1),
      (ORIGIN, staticOp (Environment opOrigin) GasQuickStep 0 1),
      (CALLER, staticOp (Environment opCaller) GasQuickStep 0 1),
      (CALLVALUE, staticOp (Environment opCallValue) GasQuickStep 0 1),
      (CALLDATALOAD, staticOp (Access opCallDataLoad) GasFastestStep 1 1),
      (CALLDATASIZE, staticOp (Environment opCallDataSize) GasQuickStep 0 1),
      (CALLDATACOPY, dynamicOp (CopyTo opCallDataCopy) GasFastestStep (memoryCopierGas 2) (Some memoryCallDataCopy) 3 0),
      (CODESIZE, staticOp (Environment opCodeSize) GasQuickStep 0 1),
      (CODECOPY, dynamicOp (CopyTo opCodeCopy) GasFastestStep (memoryCopierGas 2) (Some memoryCallDataCopy) 3 0),
      (GASPRICE, staticOp (Environment opGasprice) GasQuickStep 0 1),
      (EXTCODESIZE, staticOp (Access opExtCodeSize) ExtcodeSizeGasFrontier 1 1),
      (EXTCODECOPY, dynamicOp (CopyTo opExtCodeCopy) ExtcodeCopyBaseFrontier (memoryCopierGas 3) (Some memoryExtCodeCopy) 4 0),
      (BLOCKHASH, staticOp (Access opBlockhash) GasExtStep 1 1),
      (COINBASE, staticOp (Environment opCoinbase) GasQuickStep 0 1),
      (TIMESTAMP, staticOp (Environment opTimestamp) GasQuickStep 0 1),
      (NUMBER, staticOp (Environment opNumber) GasQuickStep 0 1),
      (DIFFICULTY, staticOp (Environment opDifficulty) GasQuickStep 0 1),
      (GASLIMIT, staticOp (Environment opGasLimit) GasQuickStep 0 1)]"

definition frontierStorage :: "(byte \<times> operation) list" where
  "frontierStorage =
     [(POP, staticOp (Store opPop) GasQuickStep 1 0),
      (MLOAD, dynamicOp (Access opMload) GasFastestStep pureMemoryGascost (Some memoryMLoad) 1 1),
      (MSTORE, dynamicOp (Store opMstore) GasFastestStep pureMemoryGascost (Some memoryMLoad) 2 0),
      (MSTORE8, dynamicOp (Store opMstore8) GasFastestStep pureMemoryGascost (Some memoryMStore8) 2 0),
      (SLOAD, staticOp (Access opSload) SloadGasFrontier 1 1),
      (SSTORE, dynamicOp (Store opSstore) 0 gasSStore None 2 0),
      (JUMP, staticOp (Jump opJump) GasMidStep 1 0),
      (JUMPI, staticOp (Jump opJumpi) GasSlowStep 2 0),
      (PC, staticOp (Environment opPc) GasQuickStep 0 1),
      (MSIZE, staticOp (Environment opMsize) GasQuickStep 0 1),
      (GAS, staticOp (Environment opGas) GasQuickStep 0 1),
      (JUMPDEST, staticOp (Jump opJumpdest) JumpdestGas 0 0)]"

definition frontierPushes :: "(byte \<times> operation) list" where
  "frontierPushes =
     (PUSH1, staticOp (OnStack opPush1) GasFastestStep 0 1) #
     map (\<lambda>n. (of_nat (unat PUSH1 + n - 1), staticOp (OnStack (makePush n n)) GasFastestStep 0 1)) [2..<33]"

definition frontierDups :: "(byte \<times> operation) list" where
  "frontierDups =
     map (\<lambda>n. (of_nat (unat DUP1 + n - 1), staticOp (OnStack (makeDup n)) GasFastestStep n (n + 1))) [1..<17]"

definition frontierSwaps :: "(byte \<times> operation) list" where
  "frontierSwaps =
     map (\<lambda>n. (of_nat (unat SWAP1 + n - 1), staticOp (OnStack (makeSwap n)) GasFastestStep (n + 1) (n + 1))) [1..<17]"

definition frontierClosures :: "(byte \<times> operation) list" where
  "frontierClosures =
     map (\<lambda>n. (of_nat (unat LOG0 + n), dynamicOp (Store (makeLog n)) 0 (makeGasLog n) (Some memoryKeccak256) (n + 2) 0)) [0..<5] @
     [(CREATE, dynamicOp (Creation opCreate) CreateGas pureMemoryGascost (Some memoryCreate) 3 1),
      (CALL, dynamicOp (Calling opCall) CallGasFrontier gasCall (Some memoryCall) 7 1),
      (CALLCODE, dynamicOp (Calling opCallCode) CallGasFrontier gasCallCode (Some memoryCall) 7 1),
      (RETURN, dynamicOp (Halt opReturn) 0 pureMemoryGascost (Some memoryKeccak256) 2 0),
      (SELFDESTRUCT, dynamicOp (Halt opSelfdestruct) 0 gasSelfdestruct None 1 0)]"

definition undefinedOp :: operation where
  "undefinedOp =
     \<lparr>op_execute = Halt opUndefined, op_constantGas = 0, op_dynamicGas = None, op_minStack = 0,
      op_maxStack = maxStack 0 0, op_memorySize = None\<rparr>"

definition newFrontierInstructionSet :: JumpTable where
  "newFrontierInstructionSet op =
     (case map_of (frontierArithmetic @ frontierEnvironment @ frontierStorage @ frontierPushes @ frontierDups @
                   frontierSwaps @ frontierClosures) op of
        None \<Rightarrow> undefinedOp
      | Some operation \<Rightarrow> operation)"

definition newHomesteadInstructionSet :: JumpTable where
  "newHomesteadInstructionSet = newFrontierInstructionSet
     (DELEGATECALL := dynamicOp (Calling opDelegateCall) CallGasFrontier gasDelegateCall (Some memoryDelegateCall) 6 1)"

abbreviation setConstantGas :: "byte \<Rightarrow> u64 \<Rightarrow> JumpTable \<Rightarrow> JumpTable" where
  "setConstantGas op gas jt \<equiv> jt(op := (jt op)\<lparr>op_constantGas := gas\<rparr>)"

abbreviation setDynamicGas :: "byte \<Rightarrow> gasFunc \<Rightarrow> JumpTable \<Rightarrow> JumpTable" where
  "setDynamicGas op dyn jt \<equiv> jt(op := (jt op)\<lparr>op_dynamicGas := Some dyn\<rparr>)"

definition newTangerineWhistleInstructionSet :: JumpTable where
  "newTangerineWhistleInstructionSet =
     (setConstantGas DELEGATECALL CallGasEIP150 \<circ> setConstantGas CALLCODE CallGasEIP150 \<circ>
      setConstantGas CALL CallGasEIP150 \<circ> setConstantGas EXTCODECOPY ExtcodeCopyBaseEIP150 \<circ>
      setConstantGas SLOAD SloadGasEIP150 \<circ> setConstantGas EXTCODESIZE ExtcodeSizeGasEIP150 \<circ>
      setConstantGas BALANCE BalanceGasEIP150) newHomesteadInstructionSet"

definition newSpuriousDragonInstructionSet :: JumpTable where
  "newSpuriousDragonInstructionSet = setDynamicGas EXP gasExpEIP158 newTangerineWhistleInstructionSet"

definition newByzantiumInstructionSet :: JumpTable where
  "newByzantiumInstructionSet = newSpuriousDragonInstructionSet
     (STATICCALL := dynamicOp (Calling opStaticCall) CallGasEIP150 gasStaticCall (Some memoryDelegateCall) 6 1,
      RETURNDATASIZE := staticOp (Environment opReturnDataSize) GasQuickStep 0 1,
      RETURNDATACOPY := dynamicOp (CopyTo opReturnDataCopy) GasFastestStep (memoryCopierGas 2) (Some memoryCallDataCopy) 3 0,
      REVERT := dynamicOp (Halt opRevert) 0 pureMemoryGascost (Some memoryKeccak256) 2 0)"

definition newConstantinopleInstructionSet :: JumpTable where
  "newConstantinopleInstructionSet = newByzantiumInstructionSet
     (SHL := staticOp (Binary opSHL) GasFastestStep 2 1,
      SHR := staticOp (Binary opSHR) GasFastestStep 2 1,
      SAR := staticOp (Binary opSAR) GasFastestStep 2 1,
      EXTCODEHASH := staticOp (Access opExtCodeHash) ExtcodeHashGasConstantinople 1 1,
      CREATE2 := dynamicOp (Creation opCreate2) Create2Gas gasCreate2 (Some memoryCreate) 4 1)"

definition enable1344 :: "JumpTable \<Rightarrow> JumpTable" where
  "enable1344 jt = jt(CHAINID := staticOp (Environment opChainID) GasQuickStep 0 1)"

definition enable1884 :: "JumpTable \<Rightarrow> JumpTable" where
  "enable1884 jt =
     ((setConstantGas EXTCODEHASH ExtcodeHashGasEIP1884 \<circ> setConstantGas BALANCE BalanceGasEIP1884 \<circ>
       setConstantGas SLOAD SloadGasEIP1884) jt)
     (SELFBALANCE := staticOp (Access opSelfBalance) GasFastStep 0 1)"

definition enable2200 :: "JumpTable \<Rightarrow> JumpTable" where
  "enable2200 jt = setDynamicGas SSTORE gasSStoreEIP2200 (setConstantGas SLOAD SloadGasEIP2200 jt)"

definition newIstanbulInstructionSet :: JumpTable where
  "newIstanbulInstructionSet = enable2200 (enable1884 (enable1344 newConstantinopleInstructionSet))"

text \<open>The assignments of enable2929 in pairs: the constant gas of an instruction and its dynamic gas.\<close>

abbreviation setGas :: "byte \<Rightarrow> u64 \<Rightarrow> gasFunc \<Rightarrow> JumpTable \<Rightarrow> JumpTable" where
  "setGas op gas dyn jt \<equiv> setDynamicGas op dyn (setConstantGas op gas jt)"

definition enable2929 :: "JumpTable \<Rightarrow> JumpTable" where
  "enable2929 jt =
     (setGas SELFDESTRUCT SelfdestructGasEIP150 (makeSelfdestructGasFn False) \<circ>
      setGas DELEGATECALL WarmStorageReadCostEIP2929 (makeCallVariantGasCallEIP2929 gasDelegateCall) \<circ>
      setGas STATICCALL WarmStorageReadCostEIP2929 (makeCallVariantGasCallEIP2929 gasStaticCall) \<circ>
      setGas CALLCODE WarmStorageReadCostEIP2929 (makeCallVariantGasCallEIP2929 gasCallCode) \<circ>
      setGas CALL WarmStorageReadCostEIP2929 (makeCallVariantGasCallEIP2929 gasCall) \<circ>
      setGas BALANCE WarmStorageReadCostEIP2929 gasEip2929AccountCheck \<circ>
      setGas EXTCODEHASH WarmStorageReadCostEIP2929 gasEip2929AccountCheck \<circ>
      setGas EXTCODESIZE WarmStorageReadCostEIP2929 gasEip2929AccountCheck \<circ>
      setGas EXTCODECOPY WarmStorageReadCostEIP2929 gasExtCodeCopyEIP2929 \<circ>
      setGas SLOAD 0 gasSLoadEIP2929 \<circ> setDynamicGas SSTORE gasSStoreEIP2929) jt"

definition enable3198 :: "JumpTable \<Rightarrow> JumpTable" where
  "enable3198 jt = jt(BASEFEE := staticOp (Environment opBaseFee) GasQuickStep 0 1)"

definition newSubnetEVMInstructionSet :: JumpTable where
  "newSubnetEVMInstructionSet = enable3198 (enable2929 newIstanbulInstructionSet)"

definition enable3855 :: "JumpTable \<Rightarrow> JumpTable" where
  "enable3855 jt = jt(PUSH0 := staticOp (Environment opPush0) GasQuickStep 0 1)"

definition enable3860 :: "JumpTable \<Rightarrow> JumpTable" where
  "enable3860 jt = setDynamicGas CREATE2 gasCreate2Eip3860 (setDynamicGas CREATE gasCreateEip3860 jt)"

definition newDurangoInstructionSet :: JumpTable where
  "newDurangoInstructionSet = enable3860 (enable3855 newSubnetEVMInstructionSet)"

definition enable4844 :: "JumpTable \<Rightarrow> JumpTable" where
  "enable4844 jt = jt(BLOBHASH := staticOp (Access opBlobHash) GasFastestStep 1 1)"

definition enable7516 :: "JumpTable \<Rightarrow> JumpTable" where
  "enable7516 jt = jt(BLOBBASEFEE := staticOp (Environment opBlobBaseFee) GasQuickStep 0 1)"

definition enable1153 :: "JumpTable \<Rightarrow> JumpTable" where
  "enable1153 jt =
     jt(TLOAD := staticOp (Access opTload) WarmStorageReadCostEIP2929 1 1,
        TSTORE := staticOp (Store opTstore) WarmStorageReadCostEIP2929 2 0)"

definition enable5656 :: "JumpTable \<Rightarrow> JumpTable" where
  "enable5656 jt = jt(MCOPY := dynamicOp (CopyTo opMcopy) GasFastestStep (memoryCopierGas 2) (Some memoryMcopy) 3 0)"

definition enable6780 :: "JumpTable \<Rightarrow> JumpTable" where
  "enable6780 jt =
     jt(SELFDESTRUCT := dynamicOp (Halt opSelfdestruct6780) SelfdestructGasEIP150 (makeSelfdestructGasFn False) None 1 0)"

definition newCancunInstructionSet :: JumpTable where
  "newCancunInstructionSet =
     enable6780 (enable5656 (enable1153 (enable7516 (enable4844 newDurangoInstructionSet))))"

subsection \<open>Additional EIPs\<close>

definition activators :: "int \<rightharpoonup> (JumpTable \<Rightarrow> JumpTable)" where
  "activators =
     [5656 \<mapsto> enable5656, 6780 \<mapsto> enable6780, 3855 \<mapsto> enable3855, 3860 \<mapsto> enable3860, 3198 \<mapsto> enable3198,
      2929 \<mapsto> enable2929, 2200 \<mapsto> enable2200, 1884 \<mapsto> enable1884, 1344 \<mapsto> enable1344, 1153 \<mapsto> enable1153]"

definition EnableEIP :: "int \<Rightarrow> JumpTable \<Rightarrow> JumpTable option" where
  "EnableEIP eipNum jt = map_option (\<lambda>enablerFn. enablerFn jt) (activators eipNum)"

end
