(* ===== verification/EvmGas.thy ===== *)
theory EvmGas
  imports Warp EvmTable StateDB
begin

text \<open>
  The virtual machine's context (BlockContext, TxContext and EVM of core/vm/evm.go) and the dynamic gas of
  instructions (core/vm/gas.go, gas_table.go, operations_acl.go).

  The part of EVM that does not change during a call is the record \<open>evmEnv\<close>, which also holds the functions
  that are parameters; the rest is \<open>evm\<close>, with the two fields of EVMInterpreter that change. A gas function returns the cost or an error, and what it changed:
  the state (access list and refund), the gas for a call, the contract and the memory.
\<close>

subsection \<open>The context\<close>

record BlockContext =
  bctx_GetHash :: "u64 \<Rightarrow> hash"
  bctx_PredicateResults :: "PredicateResults option"
  bctx_Coinbase :: address
  bctx_GasLimit :: u64
  bctx_BlockNumber :: int
  bctx_Time :: u64
  bctx_Difficulty :: int
  bctx_BaseFee :: "int option"
  bctx_BlobBaseFee :: "int option"

record TxContext =
  tctx_Origin :: address
  tctx_GasPrice :: int
  tctx_BlobHashes :: "hash list"
  tctx_BlobFeeCap :: "int option"

record vmConfig =
  cfg_NoBaseFee :: bool
  cfg_EnablePreimageRecording :: bool
  cfg_ExtraEips :: "int list"

text \<open>
  Functions of go-ethereum's crypto package and of the libraries behind the native contracts, which are not
  part of the repository. A point of an elliptic curve is the bytes it marshals to.
\<close>

record crypto =
  CreateAddress :: "address \<Rightarrow> u64 \<Rightarrow> address"
  CreateAddress2 :: "address \<Rightarrow> hash \<Rightarrow> hash \<Rightarrow> address"
  ValidateSignatureValues :: "byte \<Rightarrow> nat \<Rightarrow> nat \<Rightarrow> bool \<Rightarrow> bool"
  Ecrecover :: "byte list \<Rightarrow> byte list \<Rightarrow> byte list option"
  sha256_Sum256 :: "byte list \<Rightarrow> byte list"
  ripemd160_Sum :: "byte list \<Rightarrow> byte list"
  bn256_G1_Unmarshal :: "byte list \<Rightarrow> string + byte list"
  bn256_G2_Unmarshal :: "byte list \<Rightarrow> string + byte list"
  bn256_Add :: "byte list \<Rightarrow> byte list \<Rightarrow> byte list"
  bn256_ScalarMult :: "byte list \<Rightarrow> nat \<Rightarrow> byte list"
  bn256_PairingCheck :: "byte list list \<Rightarrow> byte list list \<Rightarrow> bool"
  blake2b_F :: "u64 list \<Rightarrow> u64 list \<Rightarrow> u64 list \<Rightarrow> bool \<Rightarrow> nat \<Rightarrow> u64 list"
  kzg4844_VerifyProof :: "byte list \<Rightarrow> byte list \<Rightarrow> byte list \<Rightarrow> byte list \<Rightarrow> string option"

record 'e evmEnv =
  env_B :: "'e backend"
  env_G :: geth
  env_X :: crypto
  env_A :: avalanche
  env_Context :: BlockContext
  env_TxContext :: TxContext
  env_chainConfig :: ChainConfig
  env_SnowContext :: snowContext
  env_chainRules :: Rules
  env_Config :: vmConfig
  env_table :: JumpTable
  env_abort :: bool

record 'e evm =
  evm_StateDB :: "'e StateDB"
  evm_depth :: nat
  evm_callGasTemp :: u64
  evm_readOnly :: bool
  evm_returnData :: "byte list"

abbreviation eth_rule :: "'e evmEnv \<Rightarrow> (EthRules \<Rightarrow> bool) \<Rightarrow> bool" where
  "eth_rule E r \<equiv> r (r_EthRules (env_chainRules E))"

abbreviation avalanche_rule :: "'e evmEnv \<Rightarrow> (AvalancheRules \<Rightarrow> bool) \<Rightarrow> bool" where
  "avalanche_rule E r \<equiv> r (r_AvalancheRules (env_chainRules E))"

abbreviation set_state :: "'e evm \<Rightarrow> 'e StateDB \<Rightarrow> 'e evm" where
  "set_state ev s \<equiv> ev\<lparr>evm_StateDB := s\<rparr>"

text \<open>AddressInAccessList and SlotInAccessList of the state.\<close>

abbreviation addressInAccessList :: "'e evm \<Rightarrow> address \<Rightarrow> bool" where
  "addressInAccessList ev a \<equiv> ContainsAddress (sdb_accessList (evm_StateDB ev)) a"

abbreviation slotInAccessList :: "'e evm \<Rightarrow> address \<Rightarrow> hash \<Rightarrow> (bool \<times> bool) option" where
  "slotInAccessList ev a slot \<equiv> al_Contains (sdb_accessList (evm_StateDB ev)) a slot"

subsection \<open>Memory and words\<close>

type_synonym 'e gasResult = "((vm_error + u64) \<times> 'e evm \<times> vmContract \<times> Memory) option"

definition memoryGasCost :: "Memory \<Rightarrow> u64 \<Rightarrow> (vm_error + u64) \<times> Memory" where
  "memoryGasCost mem newMemSize =
     (if newMemSize = 0 then (Inr 0, mem)
      else if newMemSize > 0x1FFFFFFFE0 then (Inl ErrGasUintOverflow, mem)
      else (let newMemSizeWords = toWordSize newMemSize;
                newMemSize = newMemSizeWords * 32
            in if newMemSize > mem_Len mem
               then (let square = newMemSizeWords * newMemSizeWords;
                         linCoef = newMemSizeWords * MemoryGas;
                         quadCoef = square div QuadCoeffDiv;
                         newTotalFee = linCoef + quadCoef;
                         fee = newTotalFee - mem_lastGasCost mem
                     in (Inr fee, mem\<lparr>mem_lastGasCost := newTotalFee\<rparr>))
               else (Inr 0, mem)))"

text \<open>math.SafeAdd and math.SafeMul where an overflow is ErrGasUintOverflow.\<close>

definition safe :: "u64 \<times> bool \<Rightarrow> vm_error + u64" where
  "safe r = (case r of (x, overflow) \<Rightarrow> if overflow then Inl ErrGasUintOverflow else Inr x)"

definition sum_bind :: "'x + 'a \<Rightarrow> ('a \<Rightarrow> 'x + 'b) \<Rightarrow> 'x + 'b" where
  "sum_bind r f = (case r of Inl e \<Rightarrow> Inl e | Inr x \<Rightarrow> f x)"

text \<open>The gas for the words of a region, added to the gas for the memory.\<close>

definition wordGas :: "geth \<Rightarrow> u64 \<Rightarrow> u256 \<Rightarrow> u64 \<Rightarrow> vm_error + u64" where
  "wordGas G perWord x gas =
     (if \<not> IsUint64 x then Inl ErrGasUintOverflow
      else sum_bind (safe (SafeMul G (toWordSize (Uint64 x)) perWord)) (\<lambda>words. safe (SafeAdd G gas words)))"

text \<open>A gas function that charges for the memory first.\<close>

definition withMemory ::
    "(u64 \<Rightarrow> vm_error + u64) \<Rightarrow> 'e evm \<Rightarrow> vmContract \<Rightarrow> Memory \<Rightarrow> u64 \<Rightarrow> 'e gasResult" where
  "withMemory f ev c mem sz =
     (let (r, mem) = memoryGasCost mem sz in Some (sum_bind r f, ev, c, mem))"

definition memoryCopierGas_cost ::
    "nat \<Rightarrow> 'e evmEnv \<Rightarrow> 'e evm \<Rightarrow> vmContract \<Rightarrow> Stack \<Rightarrow> Memory \<Rightarrow> u64 \<Rightarrow> 'e gasResult" where
  "memoryCopierGas_cost stackpos E ev c st mem sz =
     do { x \<leftarrow> Back st stackpos; withMemory (wordGas (env_G E) CopyGas x) ev c mem sz }"

definition gasKeccak256_cost ::
    "'e evmEnv \<Rightarrow> 'e evm \<Rightarrow> vmContract \<Rightarrow> Stack \<Rightarrow> Memory \<Rightarrow> u64 \<Rightarrow> 'e gasResult" where
  "gasKeccak256_cost E ev c st mem sz =
     do { x \<leftarrow> Back st 1; withMemory (wordGas (env_G E) Keccak256WordGas x) ev c mem sz }"

definition pureMemoryGascost_cost :: "'e evm \<Rightarrow> vmContract \<Rightarrow> Memory \<Rightarrow> u64 \<Rightarrow> 'e gasResult" where
  "pureMemoryGascost_cost ev c mem sz = withMemory Inr ev c mem sz"

definition gasCreate2_cost ::
    "'e evmEnv \<Rightarrow> 'e evm \<Rightarrow> vmContract \<Rightarrow> Stack \<Rightarrow> Memory \<Rightarrow> u64 \<Rightarrow> 'e gasResult" where
  "gasCreate2_cost E ev c st mem sz =
     do { x \<leftarrow> Back st 2; withMemory (wordGas (env_G E) Keccak256WordGas x) ev c mem sz }"

definition initCodeGas :: "geth \<Rightarrow> u64 \<Rightarrow> u256 \<Rightarrow> u64 \<Rightarrow> vm_error + u64" where
  "initCodeGas G perWord x gas =
     (if \<not> IsUint64 x \<or> Uint64 x > MaxInitCodeSize then Inl ErrGasUintOverflow
      else safe (SafeAdd G gas (perWord * ((Uint64 x + 31) div 32))))"

definition gasCreateEip3860_cost ::
    "'e evmEnv \<Rightarrow> 'e evm \<Rightarrow> vmContract \<Rightarrow> Stack \<Rightarrow> Memory \<Rightarrow> u64 \<Rightarrow> 'e gasResult" where
  "gasCreateEip3860_cost E ev c st mem sz =
     do { x \<leftarrow> Back st 2; withMemory (initCodeGas (env_G E) InitCodeWordGas x) ev c mem sz }"

definition gasCreate2Eip3860_cost ::
    "'e evmEnv \<Rightarrow> 'e evm \<Rightarrow> vmContract \<Rightarrow> Stack \<Rightarrow> Memory \<Rightarrow> u64 \<Rightarrow> 'e gasResult" where
  "gasCreate2Eip3860_cost E ev c st mem sz =
     do { x \<leftarrow> Back st 2; withMemory (initCodeGas (env_G E) (InitCodeWordGas + Keccak256WordGas) x) ev c mem sz }"

text \<open>makeGasLog checks the size of the data before it charges for the memory.\<close>

definition makeGasLog_cost ::
    "nat \<Rightarrow> 'e evmEnv \<Rightarrow> 'e evm \<Rightarrow> vmContract \<Rightarrow> Stack \<Rightarrow> Memory \<Rightarrow> u64 \<Rightarrow> 'e gasResult" where
  "makeGasLog_cost n E ev c st mem sz =
     do {
       x \<leftarrow> Back st 1;
       if \<not> IsUint64 x then Some (Inl ErrGasUintOverflow, ev, c, mem)
       else withMemory
              (\<lambda>gas. sum_bind (safe (SafeAdd (env_G E) gas LogGas)) (\<lambda>gas.
                     sum_bind (safe (SafeAdd (env_G E) gas (of_nat n * LogTopicGas))) (\<lambda>gas.
                     sum_bind (safe (SafeMul (env_G E) (Uint64 x) LogDataGas)) (\<lambda>memorySizeGas.
                     safe (SafeAdd (env_G E) gas memorySizeGas)))))
              ev c mem sz
     }"

definition u256_BitLen :: "u256 \<Rightarrow> nat" where
  "u256_BitLen x = nat_bitlen (unat x)"

definition expGas :: "u64 \<Rightarrow> 'e evmEnv \<Rightarrow> 'e evm \<Rightarrow> vmContract \<Rightarrow> Stack \<Rightarrow> Memory \<Rightarrow> 'e gasResult" where
  "expGas expByte E ev c st mem =
     do {
       x \<leftarrow> Back st 1;
       Some (safe (SafeAdd (env_G E) (of_nat ((u256_BitLen x + 7) div 8) * expByte) ExpGas), ev, c, mem)
     }"

definition gasExpFrontier_cost :: "'e evmEnv \<Rightarrow> 'e evm \<Rightarrow> vmContract \<Rightarrow> Stack \<Rightarrow> Memory \<Rightarrow> 'e gasResult" where
  "gasExpFrontier_cost = expGas ExpByteFrontier"

definition gasExpEIP158_cost :: "'e evmEnv \<Rightarrow> 'e evm \<Rightarrow> vmContract \<Rightarrow> Stack \<Rightarrow> Memory \<Rightarrow> 'e gasResult" where
  "gasExpEIP158_cost = expGas ExpByteEIP158"

subsection \<open>Storage\<close>

definition gasSStore_cost ::
    "'e evmEnv \<Rightarrow> 'e evm \<Rightarrow> vmContract \<Rightarrow> Stack \<Rightarrow> Memory \<Rightarrow> 'e gasResult" where
  "gasSStore_cost E ev c st mem =
     do {
       y \<leftarrow> Back st 1;
       x \<leftarrow> Back st 0;
       let (current, s) = GetState (env_B E) (evm_StateDB ev) (con_self c) x;
       if eth_rule E er_IsPetersburg \<or> \<not> eth_rule E er_IsConstantinople
       then (if current = 0 \<and> y \<noteq> 0 then Some (Inr SstoreSetGas, set_state ev s, c, mem)
             else if current \<noteq> 0 \<and> y = 0
             then Some (Inr SstoreClearGas, set_state ev (AddRefund s SstoreRefundGas), c, mem)
             else Some (Inr SstoreResetGas, set_state ev s, c, mem))
       else if current = y then Some (Inr NetSstoreNoopGas, set_state ev s, c, mem)
       else (let (original, s) = GetCommittedState (env_B E) s (con_self c) x in
             if original = current
             then (if original = 0 then Some (Inr NetSstoreInitGas, set_state ev s, c, mem)
                   else Some (Inr NetSstoreCleanGas,
                          set_state ev (if y = 0 then AddRefund s NetSstoreClearRefund else s), c, mem))
             else (let s1 = (if original \<noteq> 0
                             then (if current = 0 then SubRefund s NetSstoreClearRefund
                                   else if y = 0 then AddRefund s NetSstoreClearRefund else s)
                             else s);
                       s2 = (if original = y
                             then (if original = 0 then AddRefund s1 NetSstoreResetClearRefund
                                   else AddRefund s1 NetSstoreResetRefund)
                             else s1)
                   in Some (Inr NetSstoreDirtyGas, set_state ev s2, c, mem)))
     }"

definition gasSStoreEIP2200_cost ::
    "'e evmEnv \<Rightarrow> 'e evm \<Rightarrow> vmContract \<Rightarrow> Stack \<Rightarrow> Memory \<Rightarrow> 'e gasResult" where
  "gasSStoreEIP2200_cost E ev c st mem =
     (if con_Gas c \<le> SstoreSentryGasEIP2200 then Some (Inl ErrReentrancySentry, ev, c, mem)
      else do {
       y \<leftarrow> Back st 1;
       x \<leftarrow> Back st 0;
       let (current, s) = GetState (env_B E) (evm_StateDB ev) (con_self c) x;
       if current = y then Some (Inr SloadGasEIP2200, set_state ev s, c, mem)
       else (let (original, s) = GetCommittedState (env_B E) s (con_self c) x in
             if original = current
             then (if original = 0 then Some (Inr SstoreSetGasEIP2200, set_state ev s, c, mem)
                   else Some (Inr SstoreResetGasEIP2200,
                          set_state ev (if y = 0 then AddRefund s SstoreClearsScheduleRefundEIP2200 else s), c, mem))
             else (let s1 = (if original \<noteq> 0
                             then (if current = 0 then SubRefund s SstoreClearsScheduleRefundEIP2200
                                   else if y = 0 then AddRefund s SstoreClearsScheduleRefundEIP2200 else s)
                             else s);
                       s2 = (if original = y
                             then (if original = 0 then AddRefund s1 (SstoreSetGasEIP2200 - SloadGasEIP2200)
                                   else AddRefund s1 (SstoreResetGasEIP2200 - SloadGasEIP2200))
                             else s1)
                   in Some (Inr SloadGasEIP2200, set_state ev s2, c, mem)))
     })"

text \<open>The panic is the canary for an address that is not in the access list.\<close>

definition makeGasSStoreFunc_cost ::
    "'e evmEnv \<Rightarrow> 'e evm \<Rightarrow> vmContract \<Rightarrow> Stack \<Rightarrow> Memory \<Rightarrow> 'e gasResult" where
  "makeGasSStoreFunc_cost E ev c st mem =
     (if con_Gas c \<le> SstoreSentryGasEIP2200 then Some (Inl ErrReentrancySentry, ev, c, mem)
      else do {
       y \<leftarrow> Back st 1;
       x \<leftarrow> Back st 0;
       let (current, s) = GetState (env_B E) (evm_StateDB ev) (con_self c) x;
       (addrPresent, slotPresent) \<leftarrow> al_Contains (sdb_accessList s) (con_self c) x;
       (cost, s) \<leftarrow>
         (if slotPresent then Some (0, s)
          else do {
            s \<leftarrow> AddSlotToAccessList s (con_self c) x;
            if addrPresent then Some (ColdSloadCostEIP2929, s) else None
          });
       if current = y then Some (Inr (cost + WarmStorageReadCostEIP2929), set_state ev s, c, mem)
       else (let (original, s) = GetCommittedState (env_B E) s (con_self c) x in
             if original = current
             then (if original = 0 then Some (Inr (cost + SstoreSetGasEIP2200), set_state ev s, c, mem)
                   else Some (Inr (cost + (SstoreResetGasEIP2200 - ColdSloadCostEIP2929)), set_state ev s, c, mem))
             else Some (Inr (cost + WarmStorageReadCostEIP2929), set_state ev s, c, mem))
     })"

definition gasSLoadEIP2929_cost ::
    "'e evm \<Rightarrow> vmContract \<Rightarrow> Stack \<Rightarrow> Memory \<Rightarrow> 'e gasResult" where
  "gasSLoadEIP2929_cost ev c st mem =
     do {
       slot \<leftarrow> Back st 0;
       (_, slotPresent) \<leftarrow> slotInAccessList ev (con_self c) slot;
       if \<not> slotPresent
       then do {
         s \<leftarrow> AddSlotToAccessList (evm_StateDB ev) (con_self c) slot;
         Some (Inr ColdSloadCostEIP2929, set_state ev s, c, mem)
       }
       else Some (Inr WarmStorageReadCostEIP2929, ev, c, mem)
     }"

subsection \<open>Accounts\<close>

definition gasExtCodeCopyEIP2929_cost ::
    "'e evmEnv \<Rightarrow> 'e evm \<Rightarrow> vmContract \<Rightarrow> Stack \<Rightarrow> Memory \<Rightarrow> u64 \<Rightarrow> 'e gasResult" where
  "gasExtCodeCopyEIP2929_cost E ev c st mem sz =
     do {
       (r, ev, c, mem) \<leftarrow> memoryCopierGas_cost 3 E ev c st mem sz;
       a \<leftarrow> Back st 0;
       case r of
         Inl e \<Rightarrow> Some (Inl e, ev, c, mem)
       | Inr gas \<Rightarrow>
           if \<not> addressInAccessList ev (Bytes20 a)
           then Some (safe (SafeAdd (env_G E) gas (ColdAccountAccessCostEIP2929 - WarmStorageReadCostEIP2929)),
                  set_state ev (AddAddressToAccessList (evm_StateDB ev) (Bytes20 a)), c, mem)
           else Some (Inr gas, ev, c, mem)
     }"

definition gasEip2929AccountCheck_cost ::
    "'e evm \<Rightarrow> vmContract \<Rightarrow> Stack \<Rightarrow> Memory \<Rightarrow> 'e gasResult" where
  "gasEip2929AccountCheck_cost ev c st mem =
     do {
       a \<leftarrow> Back st 0;
       if \<not> addressInAccessList ev (Bytes20 a)
       then Some (Inr (ColdAccountAccessCostEIP2929 - WarmStorageReadCostEIP2929),
              set_state ev (AddAddressToAccessList (evm_StateDB ev) (Bytes20 a)), c, mem)
       else Some (Inr 0, ev, c, mem)
     }"

definition gasSelfdestruct_cost ::
    "'e evmEnv \<Rightarrow> 'e evm \<Rightarrow> vmContract \<Rightarrow> Stack \<Rightarrow> Memory \<Rightarrow> 'e gasResult" where
  "gasSelfdestruct_cost E ev c st mem =
     do {
       a \<leftarrow> Back st 0;
       let s = evm_StateDB ev;
       let (gas, s) =
         (if \<not> eth_rule E er_IsEIP150 then (0, s)
          else if eth_rule E er_IsEIP158
          then (let (empty, s) = Empty (env_B E) s (Bytes20 a) in
                if \<not> empty then (SelfdestructGasEIP150, s)
                else (let (balance, s) = GetBalance (env_B E) s (con_self c) in
                      (if balance \<noteq> 0 then SelfdestructGasEIP150 + CreateBySelfdestructGas else SelfdestructGasEIP150, s)))
          else (let (exist, s) = Exist (env_B E) s (Bytes20 a) in
                (if \<not> exist then SelfdestructGasEIP150 + CreateBySelfdestructGas else SelfdestructGasEIP150, s)));
       let (destructed, s) = HasSelfDestructed (env_B E) s (con_self c);
       Some (Inr gas, set_state ev (if \<not> destructed then AddRefund s SelfdestructRefundGas else s), c, mem)
     }"

definition makeSelfdestructGasFn_cost ::
    "bool \<Rightarrow> 'e evmEnv \<Rightarrow> 'e evm \<Rightarrow> vmContract \<Rightarrow> Stack \<Rightarrow> Memory \<Rightarrow> 'e gasResult" where
  "makeSelfdestructGasFn_cost refundsEnabled E ev c st mem =
     do {
       a \<leftarrow> Back st 0;
       let s = evm_StateDB ev;
       let (gas, s) =
         (if \<not> addressInAccessList ev (Bytes20 a)
          then (ColdAccountAccessCostEIP2929, AddAddressToAccessList s (Bytes20 a)) else (0, s));
       let (empty, s) = Empty (env_B E) s (Bytes20 a);
       let (gas, s) =
         (if \<not> empty then (gas, s)
          else (let (balance, s) = GetBalance (env_B E) s (con_self c) in
                (if balance \<noteq> 0 then gas + CreateBySelfdestructGas else gas, s)));
       let s =
         (if \<not> refundsEnabled then s
          else (let (destructed, s) = HasSelfDestructed (env_B E) s (con_self c) in
                if \<not> destructed then AddRefund s SelfdestructRefundGas else s));
       Some (Inr gas, set_state ev s, c, mem)
     }"

subsection \<open>Calls\<close>

definition callGas :: "bool \<Rightarrow> u64 \<Rightarrow> u64 \<Rightarrow> u256 \<Rightarrow> vm_error + u64" where
  "callGas isEip150 availableGas base callCost =
     (let availableGas = availableGas - base;
          gas = availableGas - availableGas div 64
      in if isEip150 \<and> (\<not> IsUint64 callCost \<or> gas < Uint64 callCost) then Inr gas
         else if \<not> IsUint64 callCost then Inl ErrGasUintOverflow
         else Inr (Uint64 callCost))"

text \<open>The end of the gas functions of calls: the gas of the call is kept for the instruction and added.\<close>

definition finishCallGas ::
    "'e evmEnv \<Rightarrow> 'e evm \<Rightarrow> vmContract \<Rightarrow> Memory \<Rightarrow> u256 \<Rightarrow> vm_error + u64 \<Rightarrow> (vm_error + u64) \<times> 'e evm \<times> vmContract \<times> Memory" where
  "finishCallGas E ev c mem callCost r =
     (case r of
        Inl e \<Rightarrow> (Inl e, ev, c, mem)
      | Inr gas \<Rightarrow>
          (case callGas (eth_rule E er_IsEIP150) (con_Gas c) gas callCost of
             Inl e \<Rightarrow> (Inl e, ev\<lparr>evm_callGasTemp := 0\<rparr>, c, mem)
           | Inr temp \<Rightarrow> (safe (SafeAdd (env_G E) gas temp), ev\<lparr>evm_callGasTemp := temp\<rparr>, c, mem)))"

definition gasCall_cost ::
    "'e evmEnv \<Rightarrow> 'e evm \<Rightarrow> vmContract \<Rightarrow> Stack \<Rightarrow> Memory \<Rightarrow> u64 \<Rightarrow> 'e gasResult" where
  "gasCall_cost E ev c st mem sz =
     do {
       callCost \<leftarrow> Back st 0;
       a \<leftarrow> Back st 1;
       value \<leftarrow> Back st 2;
       let s = evm_StateDB ev;
       let (gas, s) =
         (if eth_rule E er_IsEIP158
          then (if value = 0 then (0, s)
                else (let (empty, s) = Empty (env_B E) s (Bytes20 a) in (if empty then CallNewAccountGas else 0, s)))
          else (let (exist, s) = Exist (env_B E) s (Bytes20 a) in (if \<not> exist then CallNewAccountGas else 0, s)));
       let gas = (if value \<noteq> 0 then gas + CallValueTransferGas else gas);
       let (r, mem) = memoryGasCost mem sz;
       Some (finishCallGas E (set_state ev s) c mem callCost
               (sum_bind r (\<lambda>memoryGas. safe (SafeAdd (env_G E) gas memoryGas))))
     }"

definition gasCallCode_cost ::
    "'e evmEnv \<Rightarrow> 'e evm \<Rightarrow> vmContract \<Rightarrow> Stack \<Rightarrow> Memory \<Rightarrow> u64 \<Rightarrow> 'e gasResult" where
  "gasCallCode_cost E ev c st mem sz =
     do {
       callCost \<leftarrow> Back st 0;
       value \<leftarrow> Back st 2;
       let (r, mem) = memoryGasCost mem sz;
       let gas = (if value \<noteq> 0 then CallValueTransferGas else 0);
       Some (finishCallGas E ev c mem callCost
               (sum_bind r (\<lambda>memoryGas. safe (SafeAdd (env_G E) gas memoryGas))))
     }"

text \<open>gasDelegateCall and gasStaticCall have the same body.\<close>

definition gasDelegateCall_cost ::
    "'e evmEnv \<Rightarrow> 'e evm \<Rightarrow> vmContract \<Rightarrow> Stack \<Rightarrow> Memory \<Rightarrow> u64 \<Rightarrow> 'e gasResult" where
  "gasDelegateCall_cost E ev c st mem sz =
     do {
       callCost \<leftarrow> Back st 0;
       let (r, mem) = memoryGasCost mem sz;
       Some (finishCallGas E ev c mem callCost r)
     }"

definition makeCallVariantGasCallEIP2929_cost ::
    "('e evm \<Rightarrow> vmContract \<Rightarrow> 'e gasResult) \<Rightarrow> 'e evmEnv \<Rightarrow> 'e evm \<Rightarrow> vmContract \<Rightarrow> Stack \<Rightarrow> Memory \<Rightarrow> 'e gasResult" where
  "makeCallVariantGasCallEIP2929_cost oldCalculator E ev c st mem =
     do {
       a \<leftarrow> Back st 1;
       let warmAccess = addressInAccessList ev (Bytes20 a);
       let coldCost = ColdAccountAccessCostEIP2929 - WarmStorageReadCostEIP2929;
       let ev = (if warmAccess then ev else set_state ev (AddAddressToAccessList (evm_StateDB ev) (Bytes20 a)));
       let (c, ok) = (if warmAccess then (c, True) else UseGas c coldCost);
       if \<not> ok then Some (Inl ErrOutOfGas_vm, ev, c, mem)
       else do {
         (r, ev, c, mem) \<leftarrow> oldCalculator ev c;
         case r of
           Inl e \<Rightarrow> Some (Inl e, ev, c, mem)
         | Inr gas \<Rightarrow>
             if warmAccess then Some (Inr gas, ev, c, mem)
             else Some (safe (SafeAdd (env_G E) gas coldCost), ev, c\<lparr>con_Gas := con_Gas c + coldCost\<rparr>, mem)
       }
     }"

subsection \<open>The gas functions of the tables\<close>

fun dynamicGas ::
    "gasFunc \<Rightarrow> 'e evmEnv \<Rightarrow> 'e evm \<Rightarrow> vmContract \<Rightarrow> Stack \<Rightarrow> Memory \<Rightarrow> u64 \<Rightarrow> 'e gasResult" where
  "dynamicGas (memoryCopierGas n) E ev c st mem sz = memoryCopierGas_cost n E ev c st mem sz"
| "dynamicGas pureMemoryGascost E ev c st mem sz = pureMemoryGascost_cost ev c mem sz"
| "dynamicGas gasKeccak256 E ev c st mem sz = gasKeccak256_cost E ev c st mem sz"
| "dynamicGas (makeGasLog n) E ev c st mem sz = makeGasLog_cost n E ev c st mem sz"
| "dynamicGas gasCreate2 E ev c st mem sz = gasCreate2_cost E ev c st mem sz"
| "dynamicGas gasCreateEip3860 E ev c st mem sz = gasCreateEip3860_cost E ev c st mem sz"
| "dynamicGas gasCreate2Eip3860 E ev c st mem sz = gasCreate2Eip3860_cost E ev c st mem sz"
| "dynamicGas gasExpFrontier E ev c st mem sz = gasExpFrontier_cost E ev c st mem"
| "dynamicGas gasExpEIP158 E ev c st mem sz = gasExpEIP158_cost E ev c st mem"
| "dynamicGas gasSStore E ev c st mem sz = gasSStore_cost E ev c st mem"
| "dynamicGas gasSStoreEIP2200 E ev c st mem sz = gasSStoreEIP2200_cost E ev c st mem"
| "dynamicGas gasSStoreEIP2929 E ev c st mem sz = makeGasSStoreFunc_cost E ev c st mem"
| "dynamicGas gasSLoadEIP2929 E ev c st mem sz = gasSLoadEIP2929_cost ev c st mem"
| "dynamicGas gasExtCodeCopyEIP2929 E ev c st mem sz = gasExtCodeCopyEIP2929_cost E ev c st mem sz"
| "dynamicGas gasEip2929AccountCheck E ev c st mem sz = gasEip2929AccountCheck_cost ev c st mem"
| "dynamicGas gasCall E ev c st mem sz = gasCall_cost E ev c st mem sz"
| "dynamicGas gasCallCode E ev c st mem sz = gasCallCode_cost E ev c st mem sz"
| "dynamicGas gasDelegateCall E ev c st mem sz = gasDelegateCall_cost E ev c st mem sz"
| "dynamicGas gasStaticCall E ev c st mem sz = gasDelegateCall_cost E ev c st mem sz"
| "dynamicGas (makeCallVariantGasCallEIP2929 old) E ev c st mem sz =
     makeCallVariantGasCallEIP2929_cost (\<lambda>ev c. dynamicGas old E ev c st mem sz) E ev c st mem"
| "dynamicGas gasSelfdestruct E ev c st mem sz = gasSelfdestruct_cost E ev c st mem"
| "dynamicGas (makeSelfdestructGasFn refundsEnabled) E ev c st mem sz =
     makeSelfdestructGasFn_cost refundsEnabled E ev c st mem"

end
