(* ===== verification/EvmContracts.thy ===== *)
theory EvmContracts
  imports EvmGas
begin

text \<open>
  The native contracts (core/vm/contracts.go): the gas each requires for an input and its result, over the
  cryptographic functions of the record \<open>crypto\<close>. The contracts of EIP-2537, which no chain configuration
  activates, are not part of the model.

  A function that slices the input by lengths read from it returns an option whose \<open>None\<close> is the panic.
\<close>

subsection \<open>Contracts\<close>

datatype nativeContract =
    ecrecover | sha256hash | ripemd160hash | dataCopy | bigModExp bool
  | bn256AddByzantium | bn256AddIstanbul | bn256ScalarMulByzantium | bn256ScalarMulIstanbul
  | bn256PairingByzantium | bn256PairingIstanbul | blake2F | kzgPointEvaluation

definition PrecompiledContractsHomestead :: "(address \<times> nativeContract) list" where
  "PrecompiledContractsHomestead = [(1, ecrecover), (2, sha256hash), (3, ripemd160hash), (4, dataCopy)]"

definition PrecompiledContractsByzantium :: "(address \<times> nativeContract) list" where
  "PrecompiledContractsByzantium =
     [(1, ecrecover), (2, sha256hash), (3, ripemd160hash), (4, dataCopy), (5, bigModExp False),
      (6, bn256AddByzantium), (7, bn256ScalarMulByzantium), (8, bn256PairingByzantium)]"

definition PrecompiledContractsIstanbul :: "(address \<times> nativeContract) list" where
  "PrecompiledContractsIstanbul =
     [(1, ecrecover), (2, sha256hash), (3, ripemd160hash), (4, dataCopy), (5, bigModExp False),
      (6, bn256AddIstanbul), (7, bn256ScalarMulIstanbul), (8, bn256PairingIstanbul), (9, blake2F)]"

definition PrecompiledContractsBerlin :: "(address \<times> nativeContract) list" where
  "PrecompiledContractsBerlin =
     [(1, ecrecover), (2, sha256hash), (3, ripemd160hash), (4, dataCopy), (5, bigModExp True),
      (6, bn256AddIstanbul), (7, bn256ScalarMulIstanbul), (8, bn256PairingIstanbul), (9, blake2F)]"

definition PrecompiledContractsCancun :: "(address \<times> nativeContract) list" where
  "PrecompiledContractsCancun =
     [(1, ecrecover), (2, sha256hash), (3, ripemd160hash), (4, dataCopy), (5, bigModExp True),
      (6, bn256AddIstanbul), (7, bn256ScalarMulIstanbul), (8, bn256PairingIstanbul), (9, blake2F),
      (10, kzgPointEvaluation)]"

text \<open>The switch over the rules that EVM.precompile and ActivePrecompiles share.\<close>

definition nativeContracts :: "Rules \<Rightarrow> (address \<times> nativeContract) list" where
  "nativeContracts rules =
     (if er_IsCancun (r_EthRules rules) then PrecompiledContractsCancun
      else if ar_IsSubnetEVM (r_AvalancheRules rules) then PrecompiledContractsBerlin
      else if er_IsIstanbul (r_EthRules rules) then PrecompiledContractsIstanbul
      else if er_IsByzantium (r_EthRules rules) then PrecompiledContractsByzantium
      else PrecompiledContractsHomestead)"

definition ActivePrecompiles :: "Rules \<Rightarrow> address list" where
  "ActivePrecompiles rules = map fst (nativeContracts rules)"

subsection \<open>Gas\<close>

definition perWord :: "byte list \<Rightarrow> u64 \<Rightarrow> u64 \<Rightarrow> u64" where
  "perWord input gasPerWord baseGas = of_nat (length input + 31) div 32 * gasPerWord + baseGas"

definition modexpMultComplexity :: "int \<Rightarrow> int" where
  "modexpMultComplexity x =
     (if x \<le> 64 then x * x
      else if x \<le> 1024 then x * x div 4 + (96 * x - 3072)
      else x * x div 16 + (480 * x - 199680))"

definition bigModExp_RequiredGas :: "geth \<Rightarrow> bool \<Rightarrow> byte list \<Rightarrow> u64 option" where
  "bigModExp_RequiredGas G eip2565 input =
     do {
       baseLen \<leftarrow> map_option be_nat (getData G input 0 32);
       expLen \<leftarrow> map_option be_nat (getData G input 32 32);
       modLen \<leftarrow> map_option be_nat (getData G input 64 32);
       let input = drop 96 input;
       expHead \<leftarrow>
         (if length input \<le> baseLen then Some 0
          else if expLen > 32 then map_option be_nat (getData G input (of_nat baseLen) 32)
          else map_option be_nat (getData G input (of_nat baseLen) (of_nat expLen)));
       let msb = (let bitlen = big_BitLen (int expHead) in if bitlen > 0 then bitlen - 1 else 0);
       let adjExpLen = (if expLen > 32 then 8 * (int expLen - 32) else 0) + int msb;
       let gas = BigMax G (int modLen) (int baseLen);
       let limit = (\<lambda>gas. if big_BitLen gas > 64 then MaxUint64 else big_Uint64 gas);
       if eip2565
       then (let gas = (gas + 7) div 8;
                 gas = gas * gas * BigMax G adjExpLen 1 div 3
             in Some (if big_BitLen gas > 64 then MaxUint64
                      else if big_Uint64 gas < 200 then 200 else big_Uint64 gas))
       else Some (limit (modexpMultComplexity gas * BigMax G adjExpLen 1 div 20))
     }"

definition blake2FInputLength :: nat where "blake2FInputLength = 213"

fun RequiredGas :: "geth \<Rightarrow> nativeContract \<Rightarrow> byte list \<Rightarrow> u64 option" where
  "RequiredGas G ecrecover input = Some 3000"
| "RequiredGas G sha256hash input = Some (perWord input 12 60)"
| "RequiredGas G ripemd160hash input = Some (perWord input 120 600)"
| "RequiredGas G dataCopy input = Some (perWord input 3 15)"
| "RequiredGas G (bigModExp eip2565) input = bigModExp_RequiredGas G eip2565 input"
| "RequiredGas G bn256AddIstanbul input = Some 150"
| "RequiredGas G bn256AddByzantium input = Some 500"
| "RequiredGas G bn256ScalarMulIstanbul input = Some 6000"
| "RequiredGas G bn256ScalarMulByzantium input = Some 40000"
| "RequiredGas G bn256PairingIstanbul input = Some (45000 + of_nat (length input div 192) * 34000)"
| "RequiredGas G bn256PairingByzantium input = Some (100000 + of_nat (length input div 192) * 80000)"
| "RequiredGas G blake2F input =
     (if length input \<noteq> blake2FInputLength then Some 0 else Some (of_nat (be_nat (take 4 input))))"
| "RequiredGas G kzgPointEvaluation input = Some 50000"

subsection \<open>Results\<close>

abbreviation slice :: "nat \<Rightarrow> nat \<Rightarrow> byte list \<Rightarrow> byte list" where
  "slice i j bs \<equiv> take (j - i) (drop i bs)"

definition ecrecover_Run :: "geth \<Rightarrow> crypto \<Rightarrow> byte list \<Rightarrow> string + byte list" where
  "ecrecover_Run G X input =
     (let input = RightPadBytes G input 128;
          r = be_nat (slice 64 96 input);
          s = be_nat (slice 96 128 input);
          v = input ! 63 - 27
      in if \<not> allZero (slice 32 63 input) \<or> \<not> ValidateSignatureValues X v r s False then Inr []
         else (case Ecrecover X (take 32 input) (slice 64 128 input @ [v]) of
                 None \<Rightarrow> Inr []
               | Some pubKey \<Rightarrow> Inr (LeftPadBytes G (drop 12 (hashBytes (Keccak256Hash G (drop 1 pubKey)))) 32)))"

definition bigModExp_Run :: "geth \<Rightarrow> byte list \<Rightarrow> byte list option" where
  "bigModExp_Run G input =
     do {
       baseLen \<leftarrow> map_option (\<lambda>bs. of_nat (be_nat bs)) (getData G input 0 32);
       expLen \<leftarrow> map_option (\<lambda>bs. of_nat (be_nat bs)) (getData G input 32 32);
       modLen \<leftarrow> map_option (\<lambda>bs. of_nat (be_nat bs)) (getData G input 64 32);
       let input = drop 96 input;
       if baseLen = 0 \<and> modLen = 0 then Some []
       else do {
         base \<leftarrow> map_option be_nat (getData G input 0 baseLen);
         e \<leftarrow> map_option be_nat (getData G input baseLen expLen);
         m \<leftarrow> map_option be_nat (getData G input (baseLen + expLen) modLen);
         Some (LeftPadBytes G
           (if m = 0 then []
            else if base = 1 then nat_bytes (base mod m)
            else nat_bytes (base ^ e mod m)) (nat (sint modLen)))
       }
     }"

definition runBn256Add :: "geth \<Rightarrow> crypto \<Rightarrow> byte list \<Rightarrow> (string + byte list) option" where
  "runBn256Add G X input =
     do {
       xs \<leftarrow> getData G input 0 64;
       ys \<leftarrow> getData G input 64 64;
       Some (sum_bind (bn256_G1_Unmarshal X xs) (\<lambda>x.
             sum_bind (bn256_G1_Unmarshal X ys) (\<lambda>y. Inr (bn256_Add X x y))))
     }"

definition runBn256ScalarMul :: "geth \<Rightarrow> crypto \<Rightarrow> byte list \<Rightarrow> (string + byte list) option" where
  "runBn256ScalarMul G X input =
     do {
       ps \<leftarrow> getData G input 0 64;
       ks \<leftarrow> getData G input 64 32;
       Some (sum_bind (bn256_G1_Unmarshal X ps) (\<lambda>p. Inr (bn256_ScalarMult X p (be_nat ks))))
     }"

definition true32Byte :: "byte list" where
  "true32Byte = replicate 31 0 @ [1]"

definition false32Byte :: "byte list" where
  "false32Byte = replicate 32 0"

fun pairingPoints :: "crypto \<Rightarrow> nat \<Rightarrow> byte list \<Rightarrow> string + (byte list list \<times> byte list list)" where
  "pairingPoints X 0 input = Inr ([], [])"
| "pairingPoints X (Suc n) input =
     sum_bind (bn256_G1_Unmarshal X (slice 0 64 input)) (\<lambda>c.
     sum_bind (bn256_G2_Unmarshal X (slice 64 192 input)) (\<lambda>t.
     sum_bind (pairingPoints X n (drop 192 input)) (\<lambda>(cs, ts). Inr (c # cs, t # ts))))"

definition runBn256Pairing :: "crypto \<Rightarrow> byte list \<Rightarrow> string + byte list" where
  "runBn256Pairing X input =
     (if length input mod 192 > 0 then Inl ''bad elliptic curve pairing size''
      else sum_bind (pairingPoints X (length input div 192) input) (\<lambda>(cs, ts).
             Inr (if bn256_PairingCheck X cs ts then true32Byte else false32Byte)))"

definition le_word :: "byte list \<Rightarrow> u64" where
  "le_word bs = of_nat (be_nat (rev bs))"

definition le_wordBytes :: "u64 \<Rightarrow> byte list" where
  "le_wordBytes x = rev (be_bytes 8 (unat x))"

definition blake2F_Run :: "crypto \<Rightarrow> byte list \<Rightarrow> string + byte list" where
  "blake2F_Run X input =
     (if length input \<noteq> blake2FInputLength then Inl ''invalid input length''
      else if input ! 212 \<noteq> 0 \<and> input ! 212 \<noteq> 1 then Inl ''invalid final flag''
      else (let rounds = be_nat (take 4 input);
                final = (input ! 212 = 1);
                h = map (\<lambda>i. le_word (slice (4 + i * 8) (4 + i * 8 + 8) input)) [0..<8];
                m = map (\<lambda>i. le_word (slice (68 + i * 8) (68 + i * 8 + 8) input)) [0..<16];
                t = [le_word (slice 196 204 input), le_word (slice 204 212 input)]
            in Inr (concat (map le_wordBytes (blake2b_F X h m t final rounds)))))"

definition kZGToVersionedHash :: "crypto \<Rightarrow> byte list \<Rightarrow> hash" where
  "kZGToVersionedHash X kzg = BytesToHash (1 # drop 1 (sha256_Sum256 X kzg))"

definition blobPrecompileReturnValue :: "byte list" where
  "blobPrecompileReturnValue =
     be_bytes 32 0x1000 @ be_bytes 32 0x73eda753299d7d483339d80809a1d80553bda402fffe5bfeffffffff00000001"

definition kzgPointEvaluation_Run :: "crypto \<Rightarrow> byte list \<Rightarrow> string + byte list" where
  "kzgPointEvaluation_Run X input =
     (if length input \<noteq> 192 then Inl ''invalid input length''
      else (let versionedHash = BytesToHash (take 32 input);
                point = slice 32 64 input;
                claim = slice 64 96 input;
                commitment = slice 96 144 input;
                proof = slice 144 192 input
            in if kZGToVersionedHash X commitment \<noteq> versionedHash then Inl ''mismatched versioned hash''
               else (case kzg4844_VerifyProof X commitment point claim proof of
                       Some e \<Rightarrow> Inl (''error verifying kzg proof: '' @ e)
                     | None \<Rightarrow> Inr blobPrecompileReturnValue)))"

fun native_Run :: "geth \<Rightarrow> crypto \<Rightarrow> nativeContract \<Rightarrow> byte list \<Rightarrow> (string + byte list) option" where
  "native_Run G X ecrecover input = Some (ecrecover_Run G X input)"
| "native_Run G X sha256hash input = Some (Inr (sha256_Sum256 X input))"
| "native_Run G X ripemd160hash input = Some (Inr (LeftPadBytes G (ripemd160_Sum X input) 32))"
| "native_Run G X dataCopy input = Some (Inr input)"
| "native_Run G X (bigModExp eip2565) input = map_option Inr (bigModExp_Run G input)"
| "native_Run G X bn256AddIstanbul input = runBn256Add G X input"
| "native_Run G X bn256AddByzantium input = runBn256Add G X input"
| "native_Run G X bn256ScalarMulIstanbul input = runBn256ScalarMul G X input"
| "native_Run G X bn256ScalarMulByzantium input = runBn256ScalarMul G X input"
| "native_Run G X bn256PairingIstanbul input = Some (runBn256Pairing X input)"
| "native_Run G X bn256PairingByzantium input = Some (runBn256Pairing X input)"
| "native_Run G X blake2F input = Some (blake2F_Run X input)"
| "native_Run G X kzgPointEvaluation input = Some (kzgPointEvaluation_Run X input)"

text \<open>Returned bytes, remaining gas and error.\<close>

type_synonym callResult = "byte list \<times> u64 \<times> vm_error option"

definition RunPrecompiledContract ::
    "geth \<Rightarrow> crypto \<Rightarrow> nativeContract \<Rightarrow> byte list \<Rightarrow> u64 \<Rightarrow> callResult option" where
  "RunPrecompiledContract G X p input suppliedGas =
     do {
       gasCost \<leftarrow> RequiredGas G p input;
       if suppliedGas < gasCost then Some ([], 0, Some ErrOutOfGas_vm)
       else do {
         r \<leftarrow> native_Run G X p input;
         case r of
           Inl e \<Rightarrow> Some ([], suppliedGas - gasCost, Some (ErrNative e))
         | Inr output \<Rightarrow> Some (output, suppliedGas - gasCost, None)
       }
     }"

end
