(* ===== verification/Evm.thy ===== *)
theory Evm
  imports Precompiles EvmContracts "HOL-Library.Signed_Division"
begin

text \<open>
  The virtual machine: instructions (core/vm/instructions.go, eips.go), interpreter (interpreter.go), calls
  and contract creation (evm.go), with CanTransfer and Transfer of core/evm.go.

  An instruction that makes a call takes the interpreter's Run as an argument. \<open>runDepth\<close> ties the knot by
  the depth of calls: Run at the end of the chain is never entered because the depth is checked before.
  The loop of the interpreter is recursion on a bound that is the gas plus one: an instruction that goes on
  costs gas.
\<close>

unbundle bit_operations_syntax

subsection \<open>Scope and results\<close>

record scopeContext =
  sc_Memory :: Memory
  sc_Stack :: Stack
  sc_Contract :: vmContract

text \<open>Run returns the returned bytes and the error, and what it leaves of EVM and contract.\<close>

type_synonym 'e vmRun =
  "'e evm \<Rightarrow> vmContract \<Rightarrow> byte list \<Rightarrow> bool \<Rightarrow> ((byte list \<times> vm_error option) \<times> 'e evm \<times> vmContract) option"

text \<open>The result of an executing function: bytes and error, program counter, EVM and scope.\<close>

type_synonym 'e opResult = "((byte list \<times> vm_error option) \<times> u64 \<times> 'e evm \<times> scopeContext) option"

abbreviation "continue pc ev sc \<equiv> Some (([], None), pc, ev, sc)"

abbreviation "withStack sc st \<equiv> sc\<lparr>sc_Stack := st\<rparr>"

subsection \<open>Arithmetic\<close>

fun binaryResult :: "binaryOp \<Rightarrow> u256 \<Rightarrow> u256 \<Rightarrow> u256" where
  "binaryResult opAdd x y = x + y"
| "binaryResult opSub x y = x - y"
| "binaryResult opMul x y = x * y"
| "binaryResult opDiv x y = (if y = 0 then 0 else x div y)"
| "binaryResult opSdiv x y = (if y = 0 then 0 else word_of_int (sint x sdiv sint y))"
| "binaryResult opMod x y = (if y = 0 then 0 else x mod y)"
| "binaryResult opSmod x y = (if y = 0 then 0 else word_of_int (sint x smod sint y))"
| "binaryResult opExp base exponent = base ^ unat exponent"
| "binaryResult opSignExtend back num = (if back > 30 then num else signed_take_bit (unat back * 8 + 7) num)"
| "binaryResult opLt x y = (if x < y then 1 else 0)"
| "binaryResult opGt x y = (if x > y then 1 else 0)"
| "binaryResult opSlt x y = (if sint x < sint y then 1 else 0)"
| "binaryResult opSgt x y = (if sint x > sint y then 1 else 0)"
| "binaryResult opEq x y = (if x = y then 1 else 0)"
| "binaryResult opAnd x y = x AND y"
| "binaryResult opOr x y = x OR y"
| "binaryResult opXor x y = x XOR y"
| "binaryResult opByte th val = (if th < 32 then drop_bit (8 * (31 - unat th)) val AND 255 else 0)"
| "binaryResult opSHL shift value = (if shift < 256 then push_bit (unat shift) value else 0)"
| "binaryResult opSHR shift value = (if shift < 256 then drop_bit (unat shift) value else 0)"
| "binaryResult opSAR shift value =
     (if shift > 256 then (if sint value \<ge> 0 then 0 else NOT 0) else signed_drop_bit (unat shift) value)"

fun unaryResult :: "unaryOp \<Rightarrow> u256 \<Rightarrow> u256" where
  "unaryResult opNot x = NOT x"
| "unaryResult opIszero x = (if x = 0 then 1 else 0)"

fun ternaryResult :: "ternaryOp \<Rightarrow> u256 \<Rightarrow> u256 \<Rightarrow> u256 \<Rightarrow> u256" where
  "ternaryResult opAddmod x y z = (if z = 0 then 0 else of_nat ((unat x + unat y) mod unat z))"
| "ternaryResult opMulmod x y z = (if z = 0 then 0 else of_nat ((unat x * unat y) mod unat z))"

subsection \<open>The environment\<close>

text \<open>A value that FromBig makes from a nil big.Int is nil, which push dereferences.\<close>

fun environmentResult :: "environmentOp \<Rightarrow> 'e evmEnv \<Rightarrow> u64 \<Rightarrow> 'e evm \<Rightarrow> scopeContext \<Rightarrow> u256 option" where
  "environmentResult opAddress E pc ev sc = Some (ucast (con_self (sc_Contract sc)))"
| "environmentResult opOrigin E pc ev sc = Some (ucast (tctx_Origin (env_TxContext E)))"
| "environmentResult opCaller E pc ev sc = Some (ucast (con_CallerAddress (sc_Contract sc)))"
| "environmentResult opCallValue E pc ev sc = Some (con_value (sc_Contract sc))"
| "environmentResult opCallDataSize E pc ev sc = Some (ucast (of_nat (length (con_Input (sc_Contract sc))) :: u64))"
| "environmentResult opReturnDataSize E pc ev sc = Some (ucast (of_nat (length (evm_returnData ev)) :: u64))"
| "environmentResult opCodeSize E pc ev sc = Some (ucast (of_nat (length (con_Code (sc_Contract sc))) :: u64))"
| "environmentResult opGasprice E pc ev sc = Some (fst (u256_FromBig (tctx_GasPrice (env_TxContext E))))"
| "environmentResult opCoinbase E pc ev sc = Some (ucast (bctx_Coinbase (env_Context E)))"
| "environmentResult opTimestamp E pc ev sc = Some (ucast (bctx_Time (env_Context E)))"
| "environmentResult opNumber E pc ev sc = Some (fst (u256_FromBig (bctx_BlockNumber (env_Context E))))"
| "environmentResult opDifficulty E pc ev sc = Some (fst (u256_FromBig (bctx_Difficulty (env_Context E))))"
| "environmentResult opGasLimit E pc ev sc = Some (ucast (bctx_GasLimit (env_Context E)))"
| "environmentResult opPc E pc ev sc = Some (ucast pc)"
| "environmentResult opMsize E pc ev sc = Some (ucast (mem_Len (sc_Memory sc)))"
| "environmentResult opGas E pc ev sc = Some (ucast (con_Gas (sc_Contract sc)))"
| "environmentResult opChainID E pc ev sc = map_option (\<lambda>n. fst (u256_FromBig n)) (cc_ChainID (env_chainConfig E))"
| "environmentResult opBaseFee E pc ev sc = map_option (\<lambda>n. fst (u256_FromBig n)) (bctx_BaseFee (env_Context E))"
| "environmentResult opPush0 E pc ev sc = Some 0"
| "environmentResult opBlobBaseFee E pc ev sc = map_option (\<lambda>n. fst (u256_FromBig n)) (bctx_BlobBaseFee (env_Context E))"

subsection \<open>Values of the state, the input and the memory\<close>

fun accessResult :: "accessOp \<Rightarrow> 'e evmEnv \<Rightarrow> 'e evm \<Rightarrow> scopeContext \<Rightarrow> ('e evm \<times> scopeContext) option" where
  "accessResult opKeccak256 E ev sc =
     do {
       (offset, st) \<leftarrow> Stack_pop (sc_Stack sc);
       (sz, st) \<leftarrow> Stack_pop st;
       data \<leftarrow> GetPtr (sc_Memory sc) (Uint64 offset) (Uint64 sz);
       let h = Keccak256Hash (env_G E) data;
       let s = (if cfg_EnablePreimageRecording (env_Config E) then AddPreimage (evm_StateDB ev) h data else evm_StateDB ev);
       Some (set_state ev s, withStack sc (Stack_push st h))
     }"
| "accessResult opBalance E ev sc =
     do {
       (slot, st) \<leftarrow> Stack_pop (sc_Stack sc);
       let (balance, s) = GetBalance (env_B E) (evm_StateDB ev) (Bytes20 slot);
       Some (set_state ev s, withStack sc (Stack_push st balance))
     }"
| "accessResult opSelfBalance E ev sc =
     (let (balance, s) = GetBalance (env_B E) (evm_StateDB ev) (con_self (sc_Contract sc)) in
      Some (set_state ev s, withStack sc (Stack_push (sc_Stack sc) balance)))"
| "accessResult opCallDataLoad E ev sc =
     do {
       (x, st) \<leftarrow> Stack_pop (sc_Stack sc);
       v \<leftarrow> (if IsUint64 x then map_option BytesToHash (getData (env_G E) (con_Input (sc_Contract sc)) (Uint64 x) 32)
             else Some 0);
       Some (ev, withStack sc (Stack_push st v))
     }"
| "accessResult opExtCodeSize E ev sc =
     do {
       (slot, st) \<leftarrow> Stack_pop (sc_Stack sc);
       let (codeSize, s) = GetCodeSize (env_B E) (evm_StateDB ev) (Bytes20 slot);
       Some (set_state ev s, withStack sc (Stack_push st (ucast (of_nat codeSize :: u64))))
     }"
| "accessResult opExtCodeHash E ev sc =
     do {
       (slot, st) \<leftarrow> Stack_pop (sc_Stack sc);
       let (empty, s) = Empty (env_B E) (evm_StateDB ev) (Bytes20 slot);
       let (v, s) = (if empty then (0, s) else GetCodeHash (env_B E) s (Bytes20 slot));
       Some (set_state ev s, withStack sc (Stack_push st v))
     }"
| "accessResult opBlockhash E ev sc =
     do {
       (num, st) \<leftarrow> Stack_pop (sc_Stack sc);
       let num64 = Uint64 num;
       let upper = big_Uint64 (bctx_BlockNumber (env_Context E));
       let lower = (if upper < 257 then 0 else upper - 256);
       let v = (if \<not> IsUint64 num then 0
                else if num64 \<ge> lower \<and> num64 < upper then bctx_GetHash (env_Context E) num64
                else 0);
       Some (ev, withStack sc (Stack_push st v))
     }"
| "accessResult opBlobHash E ev sc =
     do {
       (index, st) \<leftarrow> Stack_pop (sc_Stack sc);
       let hashes = tctx_BlobHashes (env_TxContext E);
       Some (ev, withStack sc (Stack_push st (if unat index < length hashes then hashes ! unat index else 0)))
     }"
| "accessResult opMload E ev sc =
     do {
       (v, st) \<leftarrow> Stack_pop (sc_Stack sc);
       data \<leftarrow> GetPtr (sc_Memory sc) (Uint64 v) 32;
       Some (ev, withStack sc (Stack_push st (BytesToHash data)))
     }"
| "accessResult opSload E ev sc =
     do {
       (loc, st) \<leftarrow> Stack_pop (sc_Stack sc);
       let (val, s) = GetState (env_B E) (evm_StateDB ev) (con_self (sc_Contract sc)) loc;
       Some (set_state ev s, withStack sc (Stack_push st val))
     }"
| "accessResult opTload E ev sc =
     do {
       (loc, st) \<leftarrow> Stack_pop (sc_Stack sc);
       Some (ev, withStack sc (Stack_push st (GetTransientState (evm_StateDB ev) (con_self (sc_Contract sc)) loc)))
     }"

subsection \<open>Copies to memory\<close>

text \<open>The offset of data, with the greatest uint64 where the word does not fit.\<close>

definition dataOffset64 :: "u256 \<Rightarrow> u64" where
  "dataOffset64 x = (if IsUint64 x then Uint64 x else MaxUint64)"

fun copyResult ::
    "copyOp \<Rightarrow> 'e evmEnv \<Rightarrow> 'e evm \<Rightarrow> scopeContext \<Rightarrow> (vm_error option \<times> 'e evm \<times> scopeContext) option" where
  "copyResult opCallDataCopy E ev sc =
     do {
       (memOffset, st) \<leftarrow> Stack_pop (sc_Stack sc); (dataOffset, st) \<leftarrow> Stack_pop st; (len, st) \<leftarrow> Stack_pop st;
       data \<leftarrow> getData (env_G E) (con_Input (sc_Contract sc)) (dataOffset64 dataOffset) (Uint64 len);
       mem \<leftarrow> mem_Set (sc_Memory sc) (Uint64 memOffset) (Uint64 len) data;
       Some (None, ev, sc\<lparr>sc_Stack := st, sc_Memory := mem\<rparr>)
     }"
| "copyResult opReturnDataCopy E ev sc =
     do {
       (memOffset, st) \<leftarrow> Stack_pop (sc_Stack sc); (dataOffset, st) \<leftarrow> Stack_pop st; (len, st) \<leftarrow> Stack_pop st;
       let end = dataOffset + len;
       if \<not> IsUint64 dataOffset then Some (Some ErrReturnDataOutOfBounds, ev, withStack sc st)
       else if \<not> IsUint64 end \<or> of_nat (length (evm_returnData ev)) < Uint64 end
       then Some (Some ErrReturnDataOutOfBounds, ev, withStack sc st)
       else if Uint64 end < Uint64 dataOffset then None
       else do {
         mem \<leftarrow> mem_Set (sc_Memory sc) (Uint64 memOffset) (Uint64 len)
                  (take (unat (Uint64 end) - unat (Uint64 dataOffset)) (drop (unat (Uint64 dataOffset)) (evm_returnData ev)));
         Some (None, ev, sc\<lparr>sc_Stack := st, sc_Memory := mem\<rparr>)
       }
     }"
| "copyResult opCodeCopy E ev sc =
     do {
       (memOffset, st) \<leftarrow> Stack_pop (sc_Stack sc); (codeOffset, st) \<leftarrow> Stack_pop st; (len, st) \<leftarrow> Stack_pop st;
       codeCopy \<leftarrow> getData (env_G E) (con_Code (sc_Contract sc)) (dataOffset64 codeOffset) (Uint64 len);
       mem \<leftarrow> mem_Set (sc_Memory sc) (Uint64 memOffset) (Uint64 len) codeCopy;
       Some (None, ev, sc\<lparr>sc_Stack := st, sc_Memory := mem\<rparr>)
     }"
| "copyResult opExtCodeCopy E ev sc =
     do {
       (a, st) \<leftarrow> Stack_pop (sc_Stack sc);
       (memOffset, st) \<leftarrow> Stack_pop st; (codeOffset, st) \<leftarrow> Stack_pop st; (len, st) \<leftarrow> Stack_pop st;
       let (code, s) = GetCode (env_B E) (evm_StateDB ev) (Bytes20 a);
       codeCopy \<leftarrow> getData (env_G E) (case code of None \<Rightarrow> [] | Some c \<Rightarrow> c) (dataOffset64 codeOffset) (Uint64 len);
       mem \<leftarrow> mem_Set (sc_Memory sc) (Uint64 memOffset) (Uint64 len) codeCopy;
       Some (None, set_state ev s, sc\<lparr>sc_Stack := st, sc_Memory := mem\<rparr>)
     }"
| "copyResult opMcopy E ev sc =
     do {
       (dst, st) \<leftarrow> Stack_pop (sc_Stack sc); (src, st) \<leftarrow> Stack_pop st; (len, st) \<leftarrow> Stack_pop st;
       mem \<leftarrow> mem_Copy (sc_Memory sc) (Uint64 dst) (Uint64 src) (Uint64 len);
       Some (None, ev, sc\<lparr>sc_Stack := st, sc_Memory := mem\<rparr>)
     }"

subsection \<open>Stores and logs\<close>

fun popTopics :: "nat \<Rightarrow> Stack \<Rightarrow> (hash list \<times> Stack) option" where
  "popTopics 0 st = Some ([], st)"
| "popTopics (Suc n) st =
     do { (t, st) \<leftarrow> Stack_pop st; (ts, st) \<leftarrow> popTopics n st; Some (t # ts, st) }"

fun storeResult ::
    "storeOp \<Rightarrow> 'e evmEnv \<Rightarrow> 'e evm \<Rightarrow> scopeContext \<Rightarrow> (vm_error option \<times> 'e evm \<times> scopeContext) option" where
  "storeResult opPop E ev sc =
     do { (_, st) \<leftarrow> Stack_pop (sc_Stack sc); Some (None, ev, withStack sc st) }"
| "storeResult opMstore E ev sc =
     do {
       (mStart, st) \<leftarrow> Stack_pop (sc_Stack sc); (val, st) \<leftarrow> Stack_pop st;
       mem \<leftarrow> mem_Set32 (sc_Memory sc) (Uint64 mStart) val;
       Some (None, ev, sc\<lparr>sc_Stack := st, sc_Memory := mem\<rparr>)
     }"
| "storeResult opMstore8 E ev sc =
     do {
       (off, st) \<leftarrow> Stack_pop (sc_Stack sc); (val, st) \<leftarrow> Stack_pop st;
       let m = sc_Memory sc;
       if unat (Uint64 off) < length (mem_store m)
       then Some (None, ev,
              sc\<lparr>sc_Stack := st, sc_Memory := m\<lparr>mem_store := (mem_store m)[unat (Uint64 off) := ucast (Uint64 val)]\<rparr>\<rparr>)
       else None
     }"
| "storeResult opSstore E ev sc =
     (if evm_readOnly ev then Some (Some ErrWriteProtection_vm, ev, sc)
      else do {
        (loc, st) \<leftarrow> Stack_pop (sc_Stack sc); (val, st) \<leftarrow> Stack_pop st;
        Some (None, set_state ev (SetState (env_B E) (evm_StateDB ev) (con_self (sc_Contract sc)) loc val), withStack sc st)
      })"
| "storeResult opTstore E ev sc =
     (if evm_readOnly ev then Some (Some ErrWriteProtection_vm, ev, sc)
      else do {
        (loc, st) \<leftarrow> Stack_pop (sc_Stack sc); (val, st) \<leftarrow> Stack_pop st;
        Some (None, set_state ev (SetTransientState (evm_StateDB ev) (con_self (sc_Contract sc)) loc val), withStack sc st)
      })"
| "storeResult (makeLog n) E ev sc =
     (if evm_readOnly ev then Some (Some ErrWriteProtection_vm, ev, sc)
      else do {
        (mStart, st) \<leftarrow> Stack_pop (sc_Stack sc); (mSize, st) \<leftarrow> Stack_pop st;
        (topics, st) \<leftarrow> popTopics n st;
        d \<leftarrow> GetPtr (sc_Memory sc) (Uint64 mStart) (Uint64 mSize);
        Some (None,
          set_state ev (AddLog (evm_StateDB ev) (con_self (sc_Contract sc)) topics d
            (big_Uint64 (bctx_BlockNumber (env_Context E)))),
          withStack sc st)
      })"

subsection \<open>The stack and the program counter\<close>

fun stackResult :: "stackOp \<Rightarrow> 'e evmEnv \<Rightarrow> u64 \<Rightarrow> scopeContext \<Rightarrow> (u64 \<times> scopeContext) option" where
  "stackResult opPush1 E pc sc =
     (let code = con_Code (sc_Contract sc);
          pc = pc + 1;
          v = (if pc < of_nat (length code) then ucast (code ! unat pc) else 0)
      in Some (pc, withStack sc (Stack_push (sc_Stack sc) v)))"
| "stackResult (makePush sz pushByteSize) E pc sc =
     (let code = con_Code (sc_Contract sc);
          codeLen = length code;
          startMin = (if sint (pc + 1) < int codeLen then sint (pc + 1) else int codeLen);
          endMin = (if startMin + int pushByteSize < int codeLen then startMin + int pushByteSize else int codeLen)
      in if startMin < 0 then None
         else Some (pc + of_nat sz,
                withStack sc (Stack_push (sc_Stack sc)
                  (BytesToHash (RightPadBytes (env_G E)
                     (take (nat endMin - nat startMin) (drop (nat startMin) code)) pushByteSize)))))"
| "stackResult (makeDup n) E pc sc =
     do { st \<leftarrow> Stack_dup (sc_Stack sc) n; Some (pc, withStack sc st) }"
| "stackResult (makeSwap n) E pc sc =
     do { st \<leftarrow> Stack_swap (sc_Stack sc) (n + 1); Some (pc, withStack sc st) }"

fun jumpResult :: "jumpOp \<Rightarrow> 'e evmEnv \<Rightarrow> u64 \<Rightarrow> scopeContext \<Rightarrow> (vm_error option \<times> u64 \<times> scopeContext) option" where
  "jumpResult opJump E pc sc =
     (if env_abort E then Some (Some errStopToken, pc, sc)
      else do {
        (pos, st) \<leftarrow> Stack_pop (sc_Stack sc);
        valid \<leftarrow> validJumpdest (sc_Contract sc) pos;
        if \<not> valid then Some (Some ErrInvalidJump, pc, withStack sc st)
        else Some (None, Uint64 pos - 1, withStack sc st)
      })"
| "jumpResult opJumpi E pc sc =
     (if env_abort E then Some (Some errStopToken, pc, sc)
      else do {
        (pos, st) \<leftarrow> Stack_pop (sc_Stack sc); (cond, st) \<leftarrow> Stack_pop st;
        if cond \<noteq> 0
        then do {
          valid \<leftarrow> validJumpdest (sc_Contract sc) pos;
          if \<not> valid then Some (Some ErrInvalidJump, pc, withStack sc st)
          else Some (None, Uint64 pos - 1, withStack sc st)
        }
        else Some (None, pc, withStack sc st)
      })"
| "jumpResult opJumpdest E pc sc = Some (None, pc, sc)"

subsection \<open>The end of execution\<close>

fun haltResult ::
    "haltOp \<Rightarrow> 'e evmEnv \<Rightarrow> u64 \<Rightarrow> 'e evm \<Rightarrow> scopeContext \<Rightarrow> ((byte list \<times> vm_error) \<times> 'e evm \<times> scopeContext) option" where
  "haltResult opStop E pc ev sc = Some (([], errStopToken), ev, sc)"
| "haltResult opUndefined E pc ev sc =
     (if unat pc < length (con_Code (sc_Contract sc))
      then Some (([], ErrInvalidOpCode (con_Code (sc_Contract sc) ! unat pc)), ev, sc) else None)"
| "haltResult opReturn E pc ev sc =
     do {
       (offset, st) \<leftarrow> Stack_pop (sc_Stack sc); (sz, st) \<leftarrow> Stack_pop st;
       ret \<leftarrow> GetPtr (sc_Memory sc) (Uint64 offset) (Uint64 sz);
       Some ((ret, errStopToken), ev, withStack sc st)
     }"
| "haltResult opRevert E pc ev sc =
     do {
       (offset, st) \<leftarrow> Stack_pop (sc_Stack sc); (sz, st) \<leftarrow> Stack_pop st;
       ret \<leftarrow> GetPtr (sc_Memory sc) (Uint64 offset) (Uint64 sz);
       Some ((ret, ErrExecutionReverted), ev\<lparr>evm_returnData := ret\<rparr>, withStack sc st)
     }"
| "haltResult opSelfdestruct E pc ev sc =
     (if evm_readOnly ev then Some (([], ErrWriteProtection_vm), ev, sc)
      else do {
        (beneficiary, st) \<leftarrow> Stack_pop (sc_Stack sc);
        let self = con_self (sc_Contract sc);
        let (balance, s) = GetBalance (env_B E) (evm_StateDB ev) self;
        let s = AddBalance (env_B E) s (Bytes20 beneficiary) balance;
        Some (([], errStopToken), set_state ev (SelfDestruct (env_B E) s self), withStack sc st)
      })"
| "haltResult opSelfdestruct6780 E pc ev sc =
     (if evm_readOnly ev then Some (([], ErrWriteProtection_vm), ev, sc)
      else do {
        (beneficiary, st) \<leftarrow> Stack_pop (sc_Stack sc);
        let self = con_self (sc_Contract sc);
        let (balance, s) = GetBalance (env_B E) (evm_StateDB ev) self;
        let s = SubBalance (env_B E) s self balance;
        let s = AddBalance (env_B E) s (Bytes20 beneficiary) balance;
        Some (([], errStopToken), set_state ev (Selfdestruct6780 (env_B E) s self), withStack sc st)
      })"

subsection \<open>Precompiles\<close>

datatype 'e precompiled = Native nativeContract | Stateful "'e StateDB precompileContract"

text \<open>The contract of every module, the warp contract included.\<close>

definition moduleContract :: "'e evmEnv \<Rightarrow> configurator \<Rightarrow> 'e StateDB precompileContract option" where
  "moduleContract E k =
     (case k of
        WarpConfigurator \<Rightarrow> createWarpPrecompile (env_G E) (env_A E) (stateDB_iface (env_B E))
      | _ \<Rightarrow> precompileContractOf (env_G E) (stateDB_iface (env_B E)) k)"

text \<open>The outer \<open>None\<close> is a module whose contract could not be made: its package panics at initialisation.\<close>

definition precompile :: "'e evmEnv \<Rightarrow> address \<Rightarrow> 'e precompiled option option" where
  "precompile E addr =
     (case map_of (nativeContracts (env_chainRules E)) addr of
        Some p \<Rightarrow> Some (Some (Native p))
      | None \<Rightarrow>
          if map_of (r_ActivePrecompiles (env_chainRules E)) addr \<noteq> None
          then (case GetPrecompileModuleByAddress (registeredModules (moduleContract E)) addr of
                  None \<Rightarrow> Some None
                | Some module \<Rightarrow> map_option (Some \<circ> Stateful) (mod_Contract module))
          else Some None)"

text \<open>EVM as the AccessibleState of a precompile.\<close>

definition GetPredicateResults :: "BlockContext \<Rightarrow> hash \<Rightarrow> address \<Rightarrow> byte list" where
  "GetPredicateResults b txHash a =
     (case bctx_PredicateResults b of None \<Rightarrow> [] | Some r \<Rightarrow> GetResults r txHash a)"

definition accessible :: "'e evmEnv \<Rightarrow> accessibleState" where
  "accessible E =
     \<lparr>as_ChainConfig = ChainConfig_view (env_chainConfig E), as_Number = bctx_BlockNumber (env_Context E),
      as_Timestamp = bctx_Time (env_Context E), as_GetPredicateResults = GetPredicateResults (env_Context E),
      as_SnowContext = env_SnowContext E\<rparr>"

fun RunStatefulPrecompiledContract ::
    "'e precompiled \<Rightarrow> 'e evmEnv \<Rightarrow> 'e evm \<Rightarrow> address \<Rightarrow> address \<Rightarrow> byte list \<Rightarrow> u64 \<Rightarrow> bool \<Rightarrow> (callResult \<times> 'e evm) option" where
  "RunStatefulPrecompiledContract (Native p) E ev caller addr input suppliedGas readOnly =
     map_option (\<lambda>r. (r, ev)) (RunPrecompiledContract (env_G E) (env_X E) p input suppliedGas)"
| "RunStatefulPrecompiledContract (Stateful c) E ev caller addr input suppliedGas readOnly =
     (let (ret, gas, err, s) = Contract_Run c (accessible E) (evm_StateDB ev) caller addr input suppliedGas readOnly in
      Some ((ret, gas, map_option ErrPrecompile err), set_state ev s))"

definition IsProhibited :: "address \<Rightarrow> bool" where
  "IsProhibited addr \<longleftrightarrow> addr = BlackholeAddr \<or> ReservedAddress addr"

subsection \<open>Calls\<close>

definition CallCreateDepth :: nat where "CallCreateDepth = 1024"

definition CanTransfer :: "'e backend \<Rightarrow> 'e StateDB \<Rightarrow> address \<Rightarrow> u256 \<Rightarrow> bool \<times> 'e StateDB" where
  "CanTransfer B s addr amount = (let (balance, s) = GetBalance B s addr in (balance \<ge> amount, s))"

definition Transfer :: "'e backend \<Rightarrow> 'e StateDB \<Rightarrow> address \<Rightarrow> address \<Rightarrow> u256 \<Rightarrow> 'e StateDB" where
  "Transfer B s sender recipient amount = AddBalance B (SubBalance B s sender amount) recipient amount"

text \<open>The end of every call: an error reverts the state and, unless it is a revert, consumes the gas.\<close>

definition finishCall :: "'e evmEnv \<Rightarrow> nat \<Rightarrow> callResult \<times> 'e evm \<Rightarrow> (callResult \<times> 'e evm) option" where
  "finishCall E snapshot r =
     (case r of ((ret, gas, err), ev) \<Rightarrow>
        if err \<noteq> None
        then do {
          s \<leftarrow> RevertToSnapshot (env_B E) (evm_StateDB ev) snapshot;
          Some ((ret, if err \<noteq> Some ErrExecutionReverted then 0 else gas, err), set_state ev s)
        }
        else Some ((ret, gas, err), ev))"

text \<open>Running a contract for a call: the gas that is left is the contract's.\<close>

definition runContract :: "'e vmRun \<Rightarrow> 'e evm \<Rightarrow> vmContract \<Rightarrow> byte list \<Rightarrow> bool \<Rightarrow> (callResult \<times> 'e evm) option" where
  "runContract run ev c input readOnly =
     do { ((ret, err), ev, c) \<leftarrow> run ev c input readOnly; Some ((ret, con_Gas c, err), ev) }"

definition code_bytes :: "byte list option \<Rightarrow> byte list" where
  "code_bytes code = (case code of None \<Rightarrow> [] | Some c \<Rightarrow> c)"

definition Call ::
    "'e vmRun \<Rightarrow> 'e evmEnv \<Rightarrow> 'e evm \<Rightarrow> address \<Rightarrow> address \<Rightarrow> byte list \<Rightarrow> u64 \<Rightarrow> u256 \<Rightarrow> (callResult \<times> 'e evm) option" where
  "Call run E ev caller addr input gas value =
     (if evm_depth ev > CallCreateDepth then Some (([], gas, Some ErrDepth), ev)
      else do {
        let (enough, s) = (if value = 0 then (True, evm_StateDB ev) else CanTransfer (env_B E) (evm_StateDB ev) caller value);
        if \<not> enough then Some (([], gas, Some ErrInsufficientBalance), set_state ev s)
        else do {
          let (snapshot, s) = Snapshot s;
          p \<leftarrow> precompile E addr;
          let (exist, s) = Exist (env_B E) s addr;
          if \<not> exist \<and> p = None \<and> eth_rule E er_IsEIP158 \<and> value = 0 then Some (([], gas, None), set_state ev s)
          else do {
            let s = (if \<not> exist then CreateAccount (env_B E) s addr else s);
            let ev = set_state ev (Transfer (env_B E) s caller addr value);
            r \<leftarrow>
              (case p of
                 Some p \<Rightarrow> RunStatefulPrecompiledContract p E ev caller addr input gas (evm_readOnly ev)
               | None \<Rightarrow>
                   (let (code, s) = GetCode (env_B E) (evm_StateDB ev) addr in
                    if code_bytes code = [] then Some (([], gas, None), set_state ev s)
                    else (let (codeHash, s) = GetCodeHash (env_B E) s addr in
                          runContract run (set_state ev s)
                            (SetCallCode (NewContract caller addr value gas) codeHash (code_bytes code)) input False)));
            finishCall E snapshot r
          }
        }
      })"

text \<open>The code of an account for the calls that do not look whether it is empty.\<close>

definition loadCode :: "'e evmEnv \<Rightarrow> 'e evm \<Rightarrow> address \<Rightarrow> vmContract \<Rightarrow> vmContract \<times> 'e evm" where
  "loadCode E ev addr c =
     (let (codeHash, s) = GetCodeHash (env_B E) (evm_StateDB ev) addr;
          (code, s) = GetCode (env_B E) s addr
      in (SetCallCode c codeHash (code_bytes code), set_state ev s))"

definition CallCode ::
    "'e vmRun \<Rightarrow> 'e evmEnv \<Rightarrow> 'e evm \<Rightarrow> address \<Rightarrow> address \<Rightarrow> byte list \<Rightarrow> u64 \<Rightarrow> u256 \<Rightarrow> (callResult \<times> 'e evm) option" where
  "CallCode run E ev caller addr input gas value =
     (if evm_depth ev > CallCreateDepth then Some (([], gas, Some ErrDepth), ev)
      else do {
        let (enough, s) = CanTransfer (env_B E) (evm_StateDB ev) caller value;
        if \<not> enough then Some (([], gas, Some ErrInsufficientBalance), set_state ev s)
        else do {
          let (snapshot, s) = Snapshot s;
          let ev = set_state ev s;
          p \<leftarrow> precompile E addr;
          r \<leftarrow>
            (case p of
               Some p \<Rightarrow> RunStatefulPrecompiledContract p E ev caller addr input gas (evm_readOnly ev)
             | None \<Rightarrow>
                 (let (c, ev) = loadCode E ev addr (NewContract caller caller value gas) in
                  runContract run ev c input False));
          finishCall E snapshot r
        }
      })"

definition DelegateCall ::
    "'e vmRun \<Rightarrow> 'e evmEnv \<Rightarrow> 'e evm \<Rightarrow> vmContract \<Rightarrow> address \<Rightarrow> byte list \<Rightarrow> u64 \<Rightarrow> (callResult \<times> 'e evm) option" where
  "DelegateCall run E ev parent addr input gas =
     (if evm_depth ev > CallCreateDepth then Some (([], gas, Some ErrDepth), ev)
      else do {
        let caller = con_self parent;
        let (snapshot, s) = Snapshot (evm_StateDB ev);
        let ev = set_state ev s;
        p \<leftarrow> precompile E addr;
        r \<leftarrow>
          (case p of
             Some p \<Rightarrow> RunStatefulPrecompiledContract p E ev caller addr input gas (evm_readOnly ev)
           | None \<Rightarrow>
               (let (c, ev) = loadCode E ev addr (AsDelegate parent (NewContract caller caller 0 gas)) in
                runContract run ev c input False));
        finishCall E snapshot r
      })"

definition StaticCall ::
    "'e vmRun \<Rightarrow> 'e evmEnv \<Rightarrow> 'e evm \<Rightarrow> address \<Rightarrow> address \<Rightarrow> byte list \<Rightarrow> u64 \<Rightarrow> (callResult \<times> 'e evm) option" where
  "StaticCall run E ev caller addr input gas =
     (if evm_depth ev > CallCreateDepth then Some (([], gas, Some ErrDepth), ev)
      else do {
        let (snapshot, s) = Snapshot (evm_StateDB ev);
        let ev = set_state ev (AddBalance (env_B E) s addr 0);
        p \<leftarrow> precompile E addr;
        r \<leftarrow>
          (case p of
             Some p \<Rightarrow> RunStatefulPrecompiledContract p E ev caller addr input gas True
           | None \<Rightarrow>
               (let (c, ev) = loadCode E ev addr (NewContract caller addr 0 gas) in
                runContract run ev c input True));
        finishCall E snapshot r
      })"

subsection \<open>Creation of contracts\<close>

text \<open>What create checks of the code that the constructor returned, and its storing.\<close>

definition checkCode :: "'e evmEnv \<Rightarrow> byte list \<Rightarrow> vm_error option \<Rightarrow> vm_error option" where
  "checkCode E ret err =
     (if err = None \<and> eth_rule E er_IsEIP158 \<and> length ret > unat MaxCodeSize then Some ErrMaxCodeSizeExceeded
      else if err = None \<and> length ret \<ge> 1 \<and> ret ! 0 = 0xEF \<and> avalanche_rule E ar_IsSubnetEVM then Some ErrInvalidCode
      else err)"

definition create ::
    "'e vmRun \<Rightarrow> 'e evmEnv \<Rightarrow> 'e evm \<Rightarrow> address \<Rightarrow> byte list \<Rightarrow> hash \<Rightarrow> u64 \<Rightarrow> u256 \<Rightarrow> address \<Rightarrow>
       ((byte list \<times> address \<times> u64 \<times> vm_error option) \<times> 'e evm) option" where
  "create run E ev caller code codeHash gas value addr =
     (let B = env_B E; failed = (\<lambda>gas e s. Some (([], 0, gas, Some e), set_state ev s)) in
      if evm_depth ev > CallCreateDepth then failed gas ErrDepth (evm_StateDB ev)
      else
     (let (enough, s) = CanTransfer B (evm_StateDB ev) caller value in
      if \<not> enough then failed gas ErrInsufficientBalance s
      else if IsProhibited addr then failed gas ErrAddrProhibited s
      else
     (let (nonce, s) = GetNonce B s caller in
      if nonce + 1 < nonce then failed gas ErrNonceUintOverflow s
      else
     (let s = SetNonce B s caller (nonce + 1);
          s = (if avalanche_rule E ar_IsSubnetEVM then AddAddressToAccessList s addr else s);
          (contractHash, s) = GetCodeHash B s addr;
          (addrNonce, s) = GetNonce B s addr
      in if addrNonce \<noteq> 0 \<or> contractHash \<noteq> 0 \<and> contractHash \<noteq> EmptyCodeHash B
         then failed 0 ErrContractAddressCollision s
         else
     (let (role, s) =
            (if Rules_IsPrecompileEnabled (env_chainRules E) deployerAllowList_ContractAddress
             then GetContractDeployerAllowListStatus (stateDB_iface B) s (tctx_Origin (env_TxContext E))
             else (EnabledRole, s))
      in if \<not> IsEnabled role then failed 0 (ErrNotAuthorizedToDeploy (tctx_Origin (env_TxContext E))) s
         else
     (let (snapshot, s) = Snapshot s;
          s = CreateAccount B s addr;
          s = (if eth_rule E er_IsEIP158 then SetNonce B s addr 1 else s);
          s = Transfer B s caller addr value;
          c = SetCallCode (NewContract caller addr value gas) codeHash code
      in do {
        ((ret, err), ev, c) \<leftarrow> run (set_state ev s) c [] False;
        let err = checkCode E ret err;
        let (c, err, s) =
          (if err = None
           then (case UseGas c (of_nat (length ret) * CreateDataGas) of
                   (c, ok) \<Rightarrow> if ok then (c, None, SetCode B (evm_StateDB ev) addr (Some ret))
                             else (c, Some ErrCodeStoreOutOfGas, evm_StateDB ev))
           else (c, err, evm_StateDB ev));
        if err \<noteq> None \<and> (eth_rule E er_IsHomestead \<or> err \<noteq> Some ErrCodeStoreOutOfGas)
        then do {
          s \<leftarrow> RevertToSnapshot B s snapshot;
          let c = (if err \<noteq> Some ErrExecutionReverted then fst (UseGas c (con_Gas c)) else c);
          Some ((ret, addr, con_Gas c, err), set_state ev s)
        }
        else Some ((ret, addr, con_Gas c, err), set_state ev s)
      }))))))"

definition Create ::
    "'e vmRun \<Rightarrow> 'e evmEnv \<Rightarrow> 'e evm \<Rightarrow> address \<Rightarrow> byte list \<Rightarrow> u64 \<Rightarrow> u256 \<Rightarrow>
       ((byte list \<times> address \<times> u64 \<times> vm_error option) \<times> 'e evm) option" where
  "Create run E ev caller code gas value =
     (let (nonce, s) = GetNonce (env_B E) (evm_StateDB ev) caller in
      create run E (set_state ev s) caller code 0 gas value (CreateAddress (env_X E) caller nonce))"

definition Create2 ::
    "'e vmRun \<Rightarrow> 'e evmEnv \<Rightarrow> 'e evm \<Rightarrow> address \<Rightarrow> byte list \<Rightarrow> u64 \<Rightarrow> u256 \<Rightarrow> u256 \<Rightarrow>
       ((byte list \<times> address \<times> u64 \<times> vm_error option) \<times> 'e evm) option" where
  "Create2 run E ev caller code gas endowment salt =
     (let h = Keccak256Hash (env_G E) code in
      create run E ev caller code h gas endowment (CreateAddress2 (env_X E) caller salt h))"

subsection \<open>The instructions that call and create\<close>

text \<open>The end of opCall and its variants: the flag on the stack, the returned data in the memory.\<close>

definition finishOpCall ::
    "u64 \<Rightarrow> scopeContext \<Rightarrow> Stack \<Rightarrow> u256 \<Rightarrow> u256 \<Rightarrow> callResult \<times> 'e evm \<Rightarrow> 'e opResult" where
  "finishOpCall pc sc st retOffset retSize r =
     (case r of ((ret, returnGas, err), ev) \<Rightarrow>
        do {
          mem \<leftarrow> (if err = None \<or> err = Some ErrExecutionReverted
                  then mem_Set (sc_Memory sc) (Uint64 retOffset) (Uint64 retSize) ret
                  else Some (sc_Memory sc));
          let c = sc_Contract sc;
          Some ((ret, None), pc, ev\<lparr>evm_returnData := ret\<rparr>,
            sc\<lparr>sc_Stack := Stack_push st (if err \<noteq> None then 0 else 1), sc_Memory := mem,
               sc_Contract := c\<lparr>con_Gas := con_Gas c + returnGas\<rparr>\<rparr>)
        })"

fun callResultOf :: "callOp \<Rightarrow> 'e vmRun \<Rightarrow> 'e evmEnv \<Rightarrow> u64 \<Rightarrow> 'e evm \<Rightarrow> scopeContext \<Rightarrow> 'e opResult" where
  "callResultOf opCall run E pc ev sc =
     do {
       (_, st) \<leftarrow> Stack_pop (sc_Stack sc);
       let gas = evm_callGasTemp ev;
       (addr, st) \<leftarrow> Stack_pop st; (value, st) \<leftarrow> Stack_pop st;
       (inOffset, st) \<leftarrow> Stack_pop st; (inSize, st) \<leftarrow> Stack_pop st;
       (retOffset, st) \<leftarrow> Stack_pop st; (retSize, st) \<leftarrow> Stack_pop st;
       args \<leftarrow> GetPtr (sc_Memory sc) (Uint64 inOffset) (Uint64 inSize);
       if evm_readOnly ev \<and> value \<noteq> 0 then Some (([], Some ErrWriteProtection_vm), pc, ev, withStack sc st)
       else do {
         let gas = (if value \<noteq> 0 then gas + CallStipend else gas);
         r \<leftarrow> Call run E ev (con_self (sc_Contract sc)) (Bytes20 addr) args gas value;
         finishOpCall pc sc st retOffset retSize r
       }
     }"
| "callResultOf opCallCode run E pc ev sc =
     do {
       (_, st) \<leftarrow> Stack_pop (sc_Stack sc);
       let gas = evm_callGasTemp ev;
       (addr, st) \<leftarrow> Stack_pop st; (value, st) \<leftarrow> Stack_pop st;
       (inOffset, st) \<leftarrow> Stack_pop st; (inSize, st) \<leftarrow> Stack_pop st;
       (retOffset, st) \<leftarrow> Stack_pop st; (retSize, st) \<leftarrow> Stack_pop st;
       args \<leftarrow> GetPtr (sc_Memory sc) (Uint64 inOffset) (Uint64 inSize);
       let gas = (if value \<noteq> 0 then gas + CallStipend else gas);
       r \<leftarrow> CallCode run E ev (con_self (sc_Contract sc)) (Bytes20 addr) args gas value;
       finishOpCall pc sc st retOffset retSize r
     }"
| "callResultOf opDelegateCall run E pc ev sc =
     do {
       (_, st) \<leftarrow> Stack_pop (sc_Stack sc);
       let gas = evm_callGasTemp ev;
       (addr, st) \<leftarrow> Stack_pop st;
       (inOffset, st) \<leftarrow> Stack_pop st; (inSize, st) \<leftarrow> Stack_pop st;
       (retOffset, st) \<leftarrow> Stack_pop st; (retSize, st) \<leftarrow> Stack_pop st;
       args \<leftarrow> GetPtr (sc_Memory sc) (Uint64 inOffset) (Uint64 inSize);
       r \<leftarrow> DelegateCall run E ev (sc_Contract sc) (Bytes20 addr) args gas;
       finishOpCall pc sc st retOffset retSize r
     }"
| "callResultOf opStaticCall run E pc ev sc =
     do {
       (_, st) \<leftarrow> Stack_pop (sc_Stack sc);
       let gas = evm_callGasTemp ev;
       (addr, st) \<leftarrow> Stack_pop st;
       (inOffset, st) \<leftarrow> Stack_pop st; (inSize, st) \<leftarrow> Stack_pop st;
       (retOffset, st) \<leftarrow> Stack_pop st; (retSize, st) \<leftarrow> Stack_pop st;
       args \<leftarrow> GetPtr (sc_Memory sc) (Uint64 inOffset) (Uint64 inSize);
       r \<leftarrow> StaticCall run E ev (con_self (sc_Contract sc)) (Bytes20 addr) args gas;
       finishOpCall pc sc st retOffset retSize r
     }"

text \<open>The end of opCreate and opCreate2.\<close>

definition finishOpCreate ::
    "u64 \<Rightarrow> scopeContext \<Rightarrow> Stack \<Rightarrow> vmContract \<Rightarrow> bool \<Rightarrow> (byte list \<times> address \<times> u64 \<times> vm_error option) \<times> 'e evm \<Rightarrow>
       'e opResult" where
  "finishOpCreate pc sc st c ignored r =
     (case r of ((res, addr, returnGas, suberr), ev) \<Rightarrow>
        (let sc' = sc\<lparr>sc_Stack := Stack_push st (if suberr \<noteq> None \<and> \<not> ignored then 0 else ucast addr),
                      sc_Contract := c\<lparr>con_Gas := con_Gas c + returnGas\<rparr>\<rparr>
         in if suberr = Some ErrExecutionReverted then Some ((res, None), pc, ev\<lparr>evm_returnData := res\<rparr>, sc')
            else continue pc (ev\<lparr>evm_returnData := []\<rparr>) sc'))"

fun createResult :: "createOp \<Rightarrow> 'e vmRun \<Rightarrow> 'e evmEnv \<Rightarrow> u64 \<Rightarrow> 'e evm \<Rightarrow> scopeContext \<Rightarrow> 'e opResult" where
  "createResult opCreate run E pc ev sc =
     (if evm_readOnly ev then Some (([], Some ErrWriteProtection_vm), pc, ev, sc)
      else do {
        (value, st) \<leftarrow> Stack_pop (sc_Stack sc);
        (offset, st) \<leftarrow> Stack_pop st; (sz, st) \<leftarrow> Stack_pop st;
        input \<leftarrow> GetPtr (sc_Memory sc) (Uint64 offset) (Uint64 sz);
        let gas = con_Gas (sc_Contract sc);
        let gas = (if eth_rule E er_IsEIP150 then gas - gas div 64 else gas);
        let c = fst (UseGas (sc_Contract sc) gas);
        r \<leftarrow> Create run E ev (con_self c) input gas value;
        finishOpCreate pc sc st c
          (\<not> eth_rule E er_IsHomestead \<and> snd (snd (snd (fst r))) = Some ErrCodeStoreOutOfGas) r
      })"
| "createResult opCreate2 run E pc ev sc =
     (if evm_readOnly ev then Some (([], Some ErrWriteProtection_vm), pc, ev, sc)
      else do {
        (endowment, st) \<leftarrow> Stack_pop (sc_Stack sc);
        (offset, st) \<leftarrow> Stack_pop st; (sz, st) \<leftarrow> Stack_pop st;
        (salt, st) \<leftarrow> Stack_pop st;
        input \<leftarrow> GetPtr (sc_Memory sc) (Uint64 offset) (Uint64 sz);
        let gas = con_Gas (sc_Contract sc);
        let gas = gas - gas div 64;
        let c = fst (UseGas (sc_Contract sc) gas);
        r \<leftarrow> Create2 run E ev (con_self c) input gas endowment salt;
        finishOpCreate pc sc st c False r
      })"

subsection \<open>The interpreter\<close>

fun execute :: "executionFunc \<Rightarrow> 'e vmRun \<Rightarrow> 'e evmEnv \<Rightarrow> u64 \<Rightarrow> 'e evm \<Rightarrow> scopeContext \<Rightarrow> 'e opResult" where
  "execute (Binary f) run E pc ev sc =
     do {
       (x, st) \<leftarrow> Stack_pop (sc_Stack sc); (y, st) \<leftarrow> Stack_pop st;
       continue pc ev (withStack sc (Stack_push st (binaryResult f x y)))
     }"
| "execute (Unary f) run E pc ev sc =
     do { (x, st) \<leftarrow> Stack_pop (sc_Stack sc); continue pc ev (withStack sc (Stack_push st (unaryResult f x))) }"
| "execute (Ternary f) run E pc ev sc =
     do {
       (x, st) \<leftarrow> Stack_pop (sc_Stack sc); (y, st) \<leftarrow> Stack_pop st; (z, st) \<leftarrow> Stack_pop st;
       continue pc ev (withStack sc (Stack_push st (ternaryResult f x y z)))
     }"
| "execute (Environment f) run E pc ev sc =
     do { v \<leftarrow> environmentResult f E pc ev sc; continue pc ev (withStack sc (Stack_push (sc_Stack sc) v)) }"
| "execute (Access f) run E pc ev sc = do { (ev, sc) \<leftarrow> accessResult f E ev sc; continue pc ev sc }"
| "execute (CopyTo f) run E pc ev sc =
     do { (err, ev, sc) \<leftarrow> copyResult f E ev sc; Some (([], err), pc, ev, sc) }"
| "execute (Store f) run E pc ev sc =
     do { (err, ev, sc) \<leftarrow> storeResult f E ev sc; Some (([], err), pc, ev, sc) }"
| "execute (OnStack f) run E pc ev sc = do { (pc, sc) \<leftarrow> stackResult f E pc sc; continue pc ev sc }"
| "execute (Jump f) run E pc ev sc =
     do { (err, pc, sc) \<leftarrow> jumpResult f E pc sc; Some (([], err), pc, ev, sc) }"
| "execute (Creation f) run E pc ev sc = createResult f run E pc ev sc"
| "execute (Calling f) run E pc ev sc = callResultOf f run E pc ev sc"
| "execute (Halt f) run E pc ev sc =
     do { ((ret, err), ev, sc) \<leftarrow> haltResult f E pc ev sc; Some ((ret, Some err), pc, ev, sc) }"

text \<open>
  The gas of an instruction: what the loop does between the fetch and the execution of an instruction with
  dynamic gas. The size of the memory it needs is the result.
\<close>

definition chargeDynamic ::
    "operation \<Rightarrow> 'e evmEnv \<Rightarrow> 'e evm \<Rightarrow> scopeContext \<Rightarrow> (vm_error option \<times> 'e evm \<times> scopeContext) option" where
  "chargeDynamic operation E ev sc =
     (case op_dynamicGas operation of
        None \<Rightarrow> Some (None, ev, sc)
      | Some dyn \<Rightarrow>
          do {
            (memSize, overflow) \<leftarrow>
              (case op_memorySize operation of
                 None \<Rightarrow> Some (0, False)
               | Some f \<Rightarrow>
                   do {
                     (memSize, overflow) \<leftarrow> memorySize f (sc_Stack sc);
                     Some (if overflow then (0, True) else SafeMul (env_G E) (toWordSize memSize) 32)
                   });
            if overflow then Some (Some ErrGasUintOverflow, ev, sc)
            else do {
              (r, ev, c, mem) \<leftarrow> dynamicGas dyn E ev (sc_Contract sc) (sc_Stack sc) (sc_Memory sc) memSize;
              let sc = sc\<lparr>sc_Contract := c, sc_Memory := mem\<rparr>;
              case r of
                Inl _ \<Rightarrow> Some (Some ErrOutOfGas_vm, ev, sc)
              | Inr dynamicCost \<Rightarrow>
                  (case UseGas c dynamicCost of
                     (c, ok) \<Rightarrow>
                       if \<not> ok then Some (Some ErrOutOfGas_vm, ev, sc)
                       else Some (None, ev,
                              sc\<lparr>sc_Contract := c, sc_Memory := (if memSize > 0 then mem_Resize mem memSize else mem)\<rparr>))
            }
          })"

text \<open>One turn of the loop.\<close>

definition vmStep :: "'e vmRun \<Rightarrow> 'e evmEnv \<Rightarrow> u64 \<Rightarrow> 'e evm \<Rightarrow> scopeContext \<Rightarrow> 'e opResult" where
  "vmStep run E pc ev sc =
     (let operation = env_table E (GetOp (sc_Contract sc) pc);
          sLen = length (sc_Stack sc)
      in if int sLen < op_minStack operation
         then Some (([], Some (ErrStackUnderflow sLen (nat (op_minStack operation)))), pc, ev, sc)
         else if int sLen > op_maxStack operation
         then Some (([], Some (ErrStackOverflow sLen (nat (op_maxStack operation)))), pc, ev, sc)
         else (case UseGas (sc_Contract sc) (op_constantGas operation) of
                 (c, ok) \<Rightarrow>
                   if \<not> ok then Some (([], Some ErrOutOfGas_vm), pc, ev, sc)
                   else do {
                     (err, ev, sc) \<leftarrow> chargeDynamic operation E ev (sc\<lparr>sc_Contract := c\<rparr>);
                     if err \<noteq> None then Some (([], err), pc, ev, sc)
                     else execute (op_execute operation) run E pc ev sc
                   }))"

primrec loop ::
    "nat \<Rightarrow> 'e vmRun \<Rightarrow> 'e evmEnv \<Rightarrow> u64 \<Rightarrow> 'e evm \<Rightarrow> scopeContext \<Rightarrow>
       ((byte list \<times> vm_error option) \<times> 'e evm \<times> vmContract) option" where
  "loop 0 run E pc ev sc = None"
| "loop (Suc n) run E pc ev sc =
     do {
       ((res, err), pc, ev, sc) \<leftarrow> vmStep run E pc ev sc;
       if err = None then loop n run E (pc + 1) ev sc
       else Some ((res, if err = Some errStopToken then None else err), ev, sc_Contract sc)
     }"

definition runWith :: "'e vmRun \<Rightarrow> 'e evmEnv \<Rightarrow> 'e vmRun" where
  "runWith run E ev c input readOnly =
     (let setReadOnly = readOnly \<and> \<not> evm_readOnly ev;
          ev = ev\<lparr>evm_depth := evm_depth ev + 1, evm_readOnly := evm_readOnly ev \<or> setReadOnly, evm_returnData := []\<rparr>
      in do {
        (r, ev, c) \<leftarrow>
          (if con_Code c = [] then Some (([], None), ev, c)
           else loop (Suc (unat (con_Gas c))) run E 0 ev
                  \<lparr>sc_Memory = NewMemory, sc_Stack = [], sc_Contract = c\<lparr>con_Input := input\<rparr>\<rparr>);
        Some (r, ev\<lparr>evm_depth := evm_depth ev - 1, evm_readOnly := (if setReadOnly then False else evm_readOnly ev)\<rparr>, c)
      })"

primrec runDepth :: "nat \<Rightarrow> 'e evmEnv \<Rightarrow> 'e vmRun" where
  "runDepth 0 E = (\<lambda>ev c input readOnly. None)"
| "runDepth (Suc n) E = runWith (runDepth n E) E"

definition Run :: "'e evmEnv \<Rightarrow> 'e vmRun" where
  "Run E = runDepth (Suc CallCreateDepth) E"

subsection \<open>The EVM of a transaction\<close>

text \<open>NewEVMInterpreter: the table of the rules, with the additional EIPs that exist.\<close>

definition instructionSet :: "Rules \<Rightarrow> JumpTable" where
  "instructionSet rules =
     (let eth = r_EthRules rules; av = r_AvalancheRules rules in
      if er_IsCancun eth then newCancunInstructionSet
      else if ar_IsDurango av then newDurangoInstructionSet
      else if ar_IsSubnetEVM av then newSubnetEVMInstructionSet
      else if er_IsIstanbul eth then newIstanbulInstructionSet
      else if er_IsConstantinople eth then newConstantinopleInstructionSet
      else if er_IsByzantium eth then newByzantiumInstructionSet
      else if er_IsEIP158 eth then newSpuriousDragonInstructionSet
      else if er_IsEIP150 eth then newTangerineWhistleInstructionSet
      else if er_IsHomestead eth then newHomesteadInstructionSet
      else newFrontierInstructionSet)"

definition NewEVMInterpreter :: "Rules \<Rightarrow> int list \<Rightarrow> JumpTable \<times> int list" where
  "NewEVMInterpreter rules eips =
     fold (\<lambda>eip (table, extraEips).
             case EnableEIP eip table of
               None \<Rightarrow> (table, extraEips)
             | Some table \<Rightarrow> (table, extraEips @ [eip]))
       eips (instructionSet rules, [])"

definition adjustBaseFee :: "vmConfig \<Rightarrow> TxContext \<Rightarrow> BlockContext \<Rightarrow> BlockContext" where
  "adjustBaseFee config txCtx blockCtx =
     (if cfg_NoBaseFee config
      then (let blockCtx = (if tctx_GasPrice txCtx = 0 then blockCtx\<lparr>bctx_BaseFee := Some 0\<rparr> else blockCtx)
            in if tctx_BlobFeeCap txCtx = Some 0 then blockCtx\<lparr>bctx_BlobBaseFee := Some 0\<rparr> else blockCtx)
      else blockCtx)"

definition NewEVM ::
    "'e backend \<Rightarrow> geth \<Rightarrow> crypto \<Rightarrow> avalanche \<Rightarrow> snowContext \<Rightarrow> BlockContext \<Rightarrow> TxContext \<Rightarrow> 'e StateDB \<Rightarrow> ChainConfig \<Rightarrow>
       vmConfig \<Rightarrow> 'e evmEnv \<times> 'e evm" where
  "NewEVM B G X A snow blockCtx txCtx statedb chainConfig config =
     (let blockCtx = adjustBaseFee config txCtx blockCtx;
          rules = ChainConfig_Rules (registeredModules (\<lambda>_. ())) chainConfig (Some (bctx_BlockNumber blockCtx)) (bctx_Time blockCtx);
          (table, extraEips) = NewEVMInterpreter rules (cfg_ExtraEips config)
      in (\<lparr>env_B = B, env_G = G, env_X = X, env_A = A, env_Context = blockCtx, env_TxContext = txCtx,
           env_chainConfig = chainConfig, env_SnowContext = snow, env_chainRules = rules,
           env_Config = config\<lparr>cfg_ExtraEips := extraEips\<rparr>, env_table = table, env_abort = False\<rparr>,
          \<lparr>evm_StateDB = statedb, evm_depth = 0, evm_callGasTemp = 0, evm_readOnly = False, evm_returnData = []\<rparr>))"

end
