(* ===== verification/EvmState.thy ===== *)
theory EvmState
  imports Precompiles Warp
begin

text \<open>
  What the virtual machine relies on of the world state. A call takes a snapshot, changes the state and
  perhaps reverts, and the calls it makes do so in turn: \<open>evolves\<close> relates the states before and after all
  that. \<open>state_step\<close> adds what matters to the caller: addresses stay in the access list, code stays short,
  no coins appear, and a read-only execution changes no balance, nonce, storage slot, log or transient slot.
\<close>

subsection \<open>Evolution\<close>

definition evolves :: "'e backend \<Rightarrow> 'e StateDB \<Rightarrow> 'e StateDB \<Rightarrow> bool" where
  "evolves B s t \<longleftrightarrow> (\<exists>rs. since B s rs t)"

lemma evolves_refl: "state_ok B s \<Longrightarrow> evolves B s s"
  using since_refl [of B s] by (auto simp: evolves_def state_ok_def)

lemma since_trans:
  assumes "since B s rs t" "since B t rs' u"
  shows "since B s (rs @ rs') u"
proof -
  from assms obtain es es' where
    es: "j_entries (sdb_journal t) = j_entries (sdb_journal s) @ es" "\<forall>e\<in>set es. entry_ok B e"
      "undo_all B (rev es) (view B t) = Some (view B s)" and
    es': "j_entries (sdb_journal u) = j_entries (sdb_journal t) @ es'" "\<forall>e\<in>set es'. entry_ok B e"
      "undo_all B (rev es') (view B u) = Some (view B t)"
    unfolding since_def by blast
  then have "j_entries (sdb_journal u) = j_entries (sdb_journal s) @ (es @ es') \<and>
    (\<forall>e\<in>set (es @ es'). entry_ok B e) \<and> undo_all B (rev (es @ es')) (view B u) = Some (view B s)"
    by (auto simp: undo_all_append)
  moreover have "length (j_entries (sdb_journal s)) \<le> length (j_entries (sdb_journal t))" using es(1) by simp
  ultimately show ?thesis
    using assms unfolding since_def by (fastforce simp: ball_Un)
qed

lemma evolves_trans [trans]: "evolves B s t \<Longrightarrow> evolves B t u \<Longrightarrow> evolves B s u"
  using since_trans by (fastforce simp: evolves_def)

lemma evolves_ok: "evolves B s t \<Longrightarrow> state_ok B t"
  by (auto simp: evolves_def since_def state_ok_def revisions_ok_def)

lemma evolves_journalled: "state_ok B s \<Longrightarrow> journalled B s t \<Longrightarrow> evolves B s t"
  using since_journalled [OF since_refl] by (fastforce simp: evolves_def state_ok_def)

lemma evolves_Snapshot: "state_ok B s \<Longrightarrow> evolves B s (snd (Snapshot s))"
  using since_Snapshot [OF since_refl] by (fastforce simp: evolves_def state_ok_def)

lemma Snapshot_view [simp]: "view B (snd (Snapshot s)) = view B s"
  by (simp add: Snapshot_def Let_def)

lemma evolves_Revert:
  assumes ok: "state_ok B s" and t: "evolves B (snd (Snapshot s)) t"
  shows "\<exists>u. RevertToSnapshot B t (fst (Snapshot s)) = Some u \<and> view B u = view B s \<and> evolves B s u"
proof -
  let ?r = "\<lparr>rev_id = sdb_nextRevisionId s, rev_journalIndex = length (j_entries (sdb_journal s))\<rparr>"
  from t obtain rs where "since B (snd (Snapshot s)) rs t" by (auto simp: evolves_def)
  moreover have "since B s [?r] (snd (Snapshot s))"
    using since_Snapshot [OF since_refl [of B s]] ok by (auto simp: state_ok_def)
  ultimately have rs: "since B s (?r # rs) t" using since_trans by fastforce
  have "fst (Snapshot s) = rev_id ?r" by (simp add: Snapshot_def Let_def)
  with since_Revert [of B s "[]" ?r rs t] rs obtain u where
    u: "RevertToSnapshot B t (fst (Snapshot s)) = Some u" "since B s [] u" by auto
  from rs RevertToSnapshot_found [of t "sdb_validRevisions s" ?r rs B]
  have "map_option (\<lambda>s'. s'\<lparr>sdb_validRevisions := sdb_validRevisions s\<rparr>)
        (journal_revert B t (length (j_entries (sdb_journal s)))) = Some u"
    using u(1) by (simp add: since_def Snapshot_def Let_def)
  moreover from rs obtain es where "j_entries (sdb_journal t) = j_entries (sdb_journal s) @ es"
    by (auto simp: since_def)
  ultimately have "j_entries (sdb_journal u) = j_entries (sdb_journal s)"
    by (auto simp: journal_revert_def)
  with u(2) have "view B u = view B s" by (auto simp: since_def)
  with u show ?thesis by (auto simp: evolves_def)
qed

subsection \<open>Code, coins and read-only execution\<close>

definition codes_ok :: "state_view \<Rightarrow> bool" where
  "codes_ok v \<longleftrightarrow> (\<forall>a c. code_at v a = Some c \<longrightarrow> length c < 2 ^ 62)"

definition total_balance :: "state_view \<Rightarrow> nat" where
  "total_balance v = (\<Sum>a\<in>UNIV. unat (balance_at v a))"

definition frozen :: "state_view \<Rightarrow> state_view \<Rightarrow> bool" where
  "frozen v w \<longleftrightarrow>
     balance_at w = balance_at v \<and> nonce_at w = nonce_at v \<and> state_at w = state_at v \<and>
     sv_logs w = sv_logs v \<and> sv_transient w = sv_transient v"

lemma frozen_refl [simp]: "frozen v v"
  by (simp add: frozen_def)

lemma frozen_trans: "frozen v w \<Longrightarrow> frozen w x \<Longrightarrow> frozen v x"
  by (simp add: frozen_def)

text \<open>The address with an account in the access list.\<close>

abbreviation accessed :: "'e StateDB \<Rightarrow> address set" where
  "accessed s \<equiv> {a. ContainsAddress (sdb_accessList s) a}"

definition state_step :: "'e backend \<Rightarrow> bool \<Rightarrow> bool \<Rightarrow> 'e StateDB \<Rightarrow> 'e StateDB \<Rightarrow> bool" where
  "state_step B minting ro s t \<longleftrightarrow>
     evolves B s t \<and> accessed s \<subseteq> accessed t \<and>
     (codes_ok (view B s) \<longrightarrow> codes_ok (view B t)) \<and>
     (\<not> minting \<longrightarrow> total_balance (view B t) \<le> total_balance (view B s)) \<and>
     (ro \<longrightarrow> frozen (view B s) (view B t))"

lemma state_step_refl: "state_ok B s \<Longrightarrow> state_step B m ro s s"
  by (simp add: state_step_def evolves_refl)

lemma state_step_trans [trans]:
  "state_step B m ro s t \<Longrightarrow> state_step B m ro t u \<Longrightarrow> state_step B m ro s u"
  by (auto simp: state_step_def intro: evolves_trans frozen_trans)

lemma state_step_ok: "state_step B m ro s t \<Longrightarrow> state_ok B t"
  by (auto simp: state_step_def dest: evolves_ok)

lemma state_step_mono: "state_step B m ro s t \<Longrightarrow> (ro' \<Longrightarrow> ro) \<Longrightarrow> state_step B m ro' s t"
  by (auto simp: state_step_def)

text \<open>A change that leaves the view alone, or the parts of it that matter.\<close>

lemma state_step_same:
  assumes "evolves B s t" "view B t = view B s"
  shows "state_step B m ro s t"
  using assms sv_accessList_view [of B s] sv_accessList_view [of B t] by (simp add: state_step_def)

lemma frozen_step:
  assumes "state_ok B s" "journalled B s t" "accessed s \<subseteq> accessed t" "frozen (view B s) (view B t)"
    "code_at (view B t) = code_at (view B s)"
  shows "state_step B m ro s t"
  using assms by (auto simp: state_step_def evolves_journalled codes_ok_def total_balance_def frozen_def)

lemma total_balance_upd:
  assumes "balance_at w = (balance_at v)(a := b)"
  shows "total_balance w + unat (balance_at v a) = total_balance v + unat b"
proof -
  have "(\<Sum>x\<in>UNIV. unat (balance_at w x)) = unat b + (\<Sum>x\<in>UNIV - {a}. unat (balance_at v x))"
    unfolding assms by (subst sum.remove [of _ a]) (auto intro: sum.cong)
  moreover have "(\<Sum>x\<in>UNIV. unat (balance_at v x)) = unat (balance_at v a) + (\<Sum>x\<in>UNIV - {a}. unat (balance_at v x))"
    by (subst sum.remove [of _ a]) auto
  ultimately show ?thesis by (simp add: total_balance_def)
qed

lemma balance_le_total: "unat (balance_at v a) \<le> total_balance v"
  unfolding total_balance_def by (rule member_le_sum) auto

subsection \<open>Reading\<close>

lemma state_okD: "state_ok B s \<Longrightarrow> live_ok B s" "state_ok B s \<Longrightarrow> al_wf (sdb_accessList s)"
  by (simp_all add: state_ok_def)

lemma reads_step:
  assumes "reads B f g" "state_ok B s" "f s = (r, t)"
  shows "r = g (view B s) \<and> view B t = view B s \<and> state_step B m ro s t"
proof -
  from assms(1,2) have "r = g (view B s)" "view B t = view B s"
    using assms(3) by (auto simp: reads_def state_ok_def dest!: spec [of _ s])
  moreover have "evolves B s t"
    using evolves_journalled [OF assms(2) reads_journalled [OF assms(1) state_okD(1) [OF assms(2)]]] assms(3) by simp
  ultimately show ?thesis by (simp add: state_step_same)
qed

lemma GetCodeSize_step:
  assumes ok: "state_ok B s" and get: "GetCodeSize B s a = (n, t)"
  shows "state_step B m ro s t"
proof -
  obtain r u where g: "getStateObject B s a = (r, u)" by force
  note spec = getStateObject_spec [OF state_okD(1) [OF ok] g]
  have "quiet B u (snd (so_CodeSize B u obj))" for obj
    by (auto simp: so_CodeSize_def split: option.split prod.split)
  then have "quiet B u t" using g get by (auto simp: GetCodeSize_def split: option.splits) (metis snd_conv)
  then have "view B t = view B s" using spec by (simp add: quiet_def)
  moreover have "evolves B s t"
    using evolves_journalled [OF ok GetCodeSize_journalled [OF state_okD(1) [OF ok]]] get by (metis snd_conv)
  ultimately show ?thesis by (simp add: state_step_same)
qed

lemma Snapshot_step: "state_ok B s \<Longrightarrow> state_step B m ro s (snd (Snapshot s))"
  by (simp add: state_step_same evolves_Snapshot)

lemma Revert_step:
  assumes "state_ok B s" "evolves B (snd (Snapshot s)) t"
  shows "\<exists>u. RevertToSnapshot B t (fst (Snapshot s)) = Some u \<and> view B u = view B s \<and> state_step B m ro s u"
  using evolves_Revert [OF assms] by (auto intro: state_step_same)

subsection \<open>Access list, refund and preimages\<close>

lemma view_parts [simp]:
  "frozen v (v\<lparr>sv_accessList := al\<rparr>)" "code_at (v\<lparr>sv_accessList := al\<rparr>) = code_at v"
  "frozen v (v\<lparr>sv_refund := r\<rparr>)" "code_at (v\<lparr>sv_refund := r\<rparr>) = code_at v"
  "frozen v (v\<lparr>sv_preimages := p\<rparr>)" "code_at (v\<lparr>sv_preimages := p\<rparr>) = code_at v"
  by (simp_all add: frozen_def code_at_def balance_at_def nonce_at_def state_at_def account_at_def fun_eq_iff)

lemma journal_append_accessList [simp]: "sdb_accessList (journal_append s e) = sdb_accessList s"
  by (simp add: journal_append_def)

lemma AddAddressToAccessList_step:
  assumes ok: "state_ok B s"
  shows "state_step B m ro s (AddAddressToAccessList s a)" "a \<in> accessed (AddAddressToAccessList s a)"
    "view B (AddAddressToAccessList s a) = (view B s)\<lparr>sv_accessList := fst (al_AddAddress (sdb_accessList s) a)\<rparr>"
proof -
  let ?t = "AddAddressToAccessList s a"
  have al: "sdb_accessList ?t = fst (al_AddAddress (sdb_accessList s) a)"
    by (simp add: AddAddressToAccessList_def Let_def split: prod.split)
  show v: "view B ?t = (view B s)\<lparr>sv_accessList := fst (al_AddAddress (sdb_accessList s) a)\<rparr>"
    by (simp add: AddAddressToAccessList_def Let_def split: prod.split)
  show "a \<in> accessed ?t" by (simp add: al ContainsAddress_AddAddress)
  have "accessed s \<subseteq> accessed ?t" by (auto simp: al ContainsAddress_AddAddress)
  then show "state_step B m ro s ?t"
    using AddAddressToAccessList_journalled [OF state_okD [OF ok]] v ok
    by (intro frozen_step) auto
qed

lemma AddSlot_contains:
  "al_AddSlot al a slot = Some (al', am, sm) \<Longrightarrow> ContainsAddress al' b \<longleftrightarrow> b = a \<or> ContainsAddress al b"
  by (auto simp: al_AddSlot_def ContainsAddress_def Let_def split: option.splits if_splits)

lemma AddSlotToAccessList_step:
  assumes ok: "state_ok B s"
  obtains t where "AddSlotToAccessList s a slot = Some t" "state_step B m ro s t" "a \<in> accessed t" "accessed t = insert a (accessed s)"
proof -
  from AddSlotToAccessList_journalled [OF state_okD [OF ok], of a slot] obtain t where
    t: "AddSlotToAccessList s a slot = Some t" "journalled B s t" by auto
  then obtain al am sm where al: "al_AddSlot (sdb_accessList s) a slot = Some (al, am, sm)"
    "sdb_accessList t = al" "view B t = (view B s)\<lparr>sv_accessList := al\<rparr>"
    by (auto simp: AddSlotToAccessList_def Let_def split: option.splits if_splits)
  from AddSlot_contains [OF al(1)] al(2) have acc: "accessed t = insert a (accessed s)" by auto
  with al(3) ok t(2) have "state_step B m ro s t"
    by (intro frozen_step) auto
  with t(1) acc that show thesis by auto
qed

lemma refund_step:
  assumes ok: "state_ok B s"
  shows "state_step B m ro s (AddRefund s g)" "state_step B m ro s (SubRefund s g)"
proof -
  have v: "view B (AddRefund s g) = (view B s)\<lparr>sv_refund := sdb_refund s + g\<rparr>"
    "view B (SubRefund s g) = (view B s)\<lparr>sv_refund := if g > sdb_refund s then 0 else sdb_refund s - g\<rparr>"
    "sdb_accessList (AddRefund s g) = sdb_accessList s" "sdb_accessList (SubRefund s g) = sdb_accessList s"
    by (simp_all add: AddRefund_def SubRefund_def Let_def)
  show "state_step B m ro s (AddRefund s g)"
    using v AddRefund_journalled [OF state_okD(1) [OF ok]] ok by (intro frozen_step) auto
  show "state_step B m ro s (SubRefund s g)"
    using v SubRefund_journalled [OF state_okD(1) [OF ok]] ok by (intro frozen_step) auto
qed

lemma AddPreimage_step:
  assumes ok: "state_ok B s"
  shows "state_step B m ro s (AddPreimage s h p)"
proof -
  have "sv_preimages (view B s) = sdb_preimages s" by (simp add: view_def)
  then have v: "view B (AddPreimage s h p) = (view B s)\<lparr>sv_preimages := sdb_preimages (AddPreimage s h p)\<rparr>"
    "sdb_accessList (AddPreimage s h p) = sdb_accessList s"
    by (auto simp: AddPreimage_def)
  then show ?thesis
    using AddPreimage_journalled [OF state_okD(1) [OF ok]] ok by (intro frozen_step) auto
qed

subsection \<open>Setters\<close>

lemma same_rest_accessed: "same_rest (view B s) (view B t) \<Longrightarrow> accessed t = accessed s"
  using sv_accessList_view [of B s] sv_accessList_view [of B t] by (simp add: same_rest_def)

lemma changes_codes_ok:
  assumes "changes_account B v w a f" "codes_ok v"
    and "\<And>ov c. ov_code (f ov) = Some c \<Longrightarrow> ov_code ov = Some c \<or> length c < 2 ^ 62"
  shows "codes_ok w"
  unfolding codes_ok_def
proof (intro allI impI)
  fix b c
  assume c: "code_at w b = Some c"
  show "length c < 2 ^ 62"
  proof (cases "b = a")
    case True
    from assms(1) obtain ov where
      ov: "account_at v a = Some ov \<or> account_at v a = None \<and> fresh_account B ov" "account_at w a = Some (f ov)"
      by (auto simp: changes_account_def)
    with True c have "ov_code (f ov) = Some c" by (simp add: code_at_def)
    then have "code_at v a = Some c \<or> length c < 2 ^ 62"
      using assms(3) [of ov c] ov(1) by (auto simp: code_at_def fresh_account_def)
    with assms(2) show ?thesis by (auto simp: codes_ok_def)
  next
    case False
    with assms(1) c have "code_at v b = Some c" by (auto simp: changes_account_def code_at_def)
    with assms(2) show ?thesis by (auto simp: codes_ok_def)
  qed
qed

text \<open>Setters that leave the balance alone do not run in a read-only execution.\<close>

lemma changes_step:
  assumes ok: "state_ok B s" and j: "journalled B s t" and ch: "changes_account B (view B s) (view B t) a f"
    and code: "\<And>ov c. ov_code (f ov) = Some c \<Longrightarrow> ov_code ov = Some c \<or> length c < 2 ^ 62"
    and bal: "\<And>ov. sa_Balance (ov_data (f ov)) = sa_Balance (ov_data ov)"
  shows "state_step B m False s t"
proof -
  from changes_balance [OF ch, of "\<lambda>x. x"] bal have "balance_at (view B t) = balance_at (view B s)" by auto
  then show ?thesis
    using evolves_journalled [OF ok j] same_rest_accessed [OF changes_rest [OF ch]] changes_codes_ok [OF ch _ code]
    by (auto simp: state_step_def total_balance_def)
qed

lemma SetState_step: "state_ok B s \<Longrightarrow> state_step B m False s (SetState B s a k v)"
  by (rule changes_step [OF _ SetState_journalled SetState_changes]) (auto simp: state_okD)

lemma SetNonce_step: "state_ok B s \<Longrightarrow> state_step B m False s (SetNonce B s a n)"
  by (rule changes_step [OF _ SetNonce_journalled SetNonce_changes]) (auto simp: state_okD)

lemma SetCode_step: "state_ok B s \<Longrightarrow> length c < 2 ^ 62 \<Longrightarrow> state_step B m False s (SetCode B s a (Some c))"
  by (rule changes_step [OF _ SetCode_journalled SetCode_changes]) (auto simp: state_okD Let_def codeOf_def)

lemma CreateAccount_step:
  assumes ok: "state_ok B s" and db: "database_ok B" and ro: "ro \<Longrightarrow> account_at (view B s) a = None"
  shows "state_step B m ro s (CreateAccount B s a)"
proof -
  let ?t = "CreateAccount B s a"
  note live = state_okD(1) [OF ok]
  from CreateAccount_changes [OF live, of a] obtain ov where
    other: "\<And>b. b \<noteq> a \<Longrightarrow> account_at (view B ?t) b = account_at (view B s) b" and
    ov: "fresh_account B ov" "account_at (view B ?t) a = Some (set_balance (balance_at (view B s) a) ov)" and
    rest: "same_rest (view B s) (view B ?t)" by auto
  note obs = CreateAccount_obs [OF live db, of a]
  have b: "balance_at (view B ?t) = balance_at (view B s)"
    using arg_cong [OF obs, of ob_balance] by (simp add: view_obs_def)
  have "code_at (view B ?t) b = (if b = a then None else code_at (view B s) b)" for b
    using other [of b] ov by (auto simp: code_at_def fresh_account_def)
  then have "codes_ok (view B s) \<Longrightarrow> codes_ok (view B ?t)"
    by (simp add: codes_ok_def)
  moreover have "frozen (view B s) (view B ?t)" if "account_at (view B s) a = None"
    using that arg_cong [OF obs, of ob_slot] arg_cong [OF obs, of ob_nonce] b rest
    by (auto simp: frozen_def same_rest_def view_obs_def state_at_def nonce_at_def fun_eq_iff)
  ultimately show ?thesis
    using evolves_journalled [OF ok CreateAccount_journalled [OF live]] same_rest_accessed [OF rest] b ro
    by (auto simp: state_step_def total_balance_def)
qed

lemma SetTransientState_step:
  assumes ok: "state_ok B s"
  shows "state_step B m False s (SetTransientState s a k v)"
proof -
  have "view B (SetTransientState s a k v) =
      (view B s)\<lparr>sv_transient := sv_transient (view B (SetTransientState s a k v))\<rparr>"
    by (simp add: SetTransientState_def Let_def setTransientState_def view_def lookup_def journal_append_def)
  then obtain f where "view B (SetTransientState s a k v) = (view B s)\<lparr>sv_transient := f\<rparr>" by blast
  moreover have "sdb_accessList (SetTransientState s a k v) = sdb_accessList s"
    by (simp add: SetTransientState_def Let_def setTransientState_def)
  ultimately show ?thesis
    using evolves_journalled [OF ok SetTransientState_journalled [OF state_okD(1) [OF ok]]]
    by (simp add: state_step_def codes_ok_def code_at_def total_balance_def balance_at_def account_at_def)
qed

lemma AddLog_step:
  assumes ok: "state_ok B s"
  shows "state_step B m False s (AddLog s a topics data n)"
proof -
  from AddLog_view [of a topics data n s B] obtain log where
    "view B (AddLog s a topics data n) =
       (view B s)\<lparr>sv_logs := (sv_logs (view B s))(sdb_thash s := sv_logs (view B s) (sdb_thash s) @ [log]),
                  sv_logSize := Suc (sdb_logSize s)\<rparr>" by blast
  moreover have "sdb_accessList (AddLog s a topics data n) = sdb_accessList s"
    by (simp add: AddLog_def Let_def)
  ultimately show ?thesis
    using evolves_journalled [OF ok AddLog_journalled [OF state_okD(1) [OF ok]]]
    by (simp add: state_step_def codes_ok_def code_at_def total_balance_def balance_at_def account_at_def)
qed

subsection \<open>Coins\<close>

text \<open>What a change of a balance leaves alone.\<close>

definition balance_only :: "'e backend \<Rightarrow> 'e StateDB \<Rightarrow> 'e StateDB \<Rightarrow> (address \<Rightarrow> u256) \<Rightarrow> bool" where
  "balance_only B s t bals \<longleftrightarrow>
     evolves B s t \<and> accessed t = accessed s \<and> code_at (view B t) = code_at (view B s) \<and>
     nonce_at (view B t) = nonce_at (view B s) \<and> state_at (view B t) = state_at (view B s) \<and>
     sv_logs (view B t) = sv_logs (view B s) \<and> sv_transient (view B t) = sv_transient (view B s) \<and>
     balance_at (view B t) = bals"

lemma changes_balance_only:
  assumes ok: "state_ok B s" and db: "database_ok B" and j: "journalled B s t"
    and ch: "changes_account B (view B s) (view B t) a (\<lambda>ov. set_balance (g (sa_Balance (ov_data ov))) ov)"
  shows "balance_only B s t ((balance_at (view B s))(a := g (balance_at (view B s) a)))"
  using changes_balance [OF ch, of g] changes_nonce [OF ch, of "\<lambda>x. x"] changes_state [OF ch db, of "\<lambda>x. x"]
    changes_code [OF ch, of "\<lambda>x. x"] changes_rest [OF ch] same_rest_accessed [OF changes_rest [OF ch]]
    evolves_journalled [OF ok j]
  by (auto simp: balance_only_def same_rest_def fun_eq_iff)

lemma AddBalance_only:
  "state_ok B s \<Longrightarrow> database_ok B \<Longrightarrow>
     balance_only B s (AddBalance B s a n) ((balance_at (view B s))(a := balance_at (view B s) a + n))"
  by (rule changes_balance_only [OF _ _ AddBalance_journalled AddBalance_changes]) (auto simp: state_okD)

lemma SubBalance_only:
  "state_ok B s \<Longrightarrow> database_ok B \<Longrightarrow>
     balance_only B s (SubBalance B s a n) ((balance_at (view B s))(a := balance_at (view B s) a - n))"
  by (rule changes_balance_only [OF _ _ SubBalance_journalled SubBalance_changes]) (auto simp: state_okD)

lemma balance_only_step:
  assumes "balance_only B s t bals" "(\<Sum>a\<in>UNIV. unat (bals a)) \<le> total_balance (view B s)"
    "ro \<Longrightarrow> bals = balance_at (view B s)"
  shows "state_step B m ro s t"
  using assms by (auto simp: balance_only_def state_step_def codes_ok_def frozen_def total_balance_def)

lemma AddBalance_zero_step:
  assumes "state_ok B s" "database_ok B"
  shows "state_step B m ro s (AddBalance B s a 0)"
  using AddBalance_only [OF assms, of a 0] by (intro balance_only_step) (auto simp: total_balance_def)

end
