(* ===== verification/EvmCoins.thy ===== *)
theory EvmCoins
  imports Evm EvmState
begin

text \<open>
  Steps of the world state that move coins: Transfer, the self-destruct instructions and the calls of the
  stateful precompiles, of which only the native minter creates coins.
\<close>

subsection \<open>Transfers\<close>

lemma balance_only_trans:
  "balance_only B s t b \<Longrightarrow> balance_only B t u b' \<Longrightarrow> balance_only B s u b'"
  by (auto simp: balance_only_def intro: evolves_trans)

lemma balance_only_ok: "balance_only B s t b \<Longrightarrow> state_ok B t"
  by (auto simp: balance_only_def dest: evolves_ok)

lemma sum_upd:
  fixes f :: "address \<Rightarrow> u256"
  shows "(\<Sum>x\<in>UNIV. unat ((f(a := b)) x)) + unat (f a) = (\<Sum>x\<in>UNIV. unat (f x)) + unat b"
proof -
  have "(\<Sum>x\<in>UNIV. unat ((f(a := b)) x)) = unat b + (\<Sum>x\<in>UNIV - {a}. unat (f x))"
    by (subst sum.remove [of _ a]) (auto intro: sum.cong)
  moreover have "(\<Sum>x\<in>UNIV. unat (f x)) = unat (f a) + (\<Sum>x\<in>UNIV - {a}. unat (f x))"
    by (subst sum.remove [of _ a]) auto
  ultimately show ?thesis by simp
qed

lemma unat_plus_le: "unat (x + y) \<le> unat x + unat (y :: 'a :: len word)"
  by (simp add: unat_word_ariths)

text \<open>Adding an amount raises the sum by the amount at most.\<close>

lemma sum_add:
  fixes f :: "address \<Rightarrow> u256"
  shows "(\<Sum>x\<in>UNIV. unat ((f(a := f a + n)) x)) \<le> (\<Sum>x\<in>UNIV. unat (f x)) + unat n"
  using sum_upd [of f a "f a + n"] unat_plus_le [of "f a" n] by linarith

lemma sum_sub:
  fixes f :: "address \<Rightarrow> u256"
  assumes "n \<le> f a"
  shows "(\<Sum>x\<in>UNIV. unat ((f(a := f a - n)) x)) + unat n = (\<Sum>x\<in>UNIV. unat (f x))"
  using sum_upd [of f a "f a - n"] unat_sub [OF assms] assms by (simp add: word_le_nat_alt)

lemma Transfer_step:
  assumes ok: "state_ok B s" and db: "database_ok B" and le: "amount \<le> balance_at (view B s) sender"
    and ro: "ro \<Longrightarrow> amount = 0"
  shows "state_step B m ro s (Transfer B s sender recipient amount)"
proof -
  let ?b = "balance_at (view B s)"
  let ?b1 = "?b(sender := ?b sender - amount)"
  let ?u = "SubBalance B s sender amount"
  note sub = SubBalance_only [OF ok db, of sender amount]
  then have b1: "balance_at (view B ?u) = ?b1" by (simp add: balance_only_def)
  note add = AddBalance_only [OF balance_only_ok [OF sub] db, of recipient amount, unfolded b1]
  show ?thesis
    unfolding Transfer_def
  proof (rule balance_only_step [OF balance_only_trans [OF sub add]])
    show "(\<Sum>x\<in>UNIV. unat ((?b1(recipient := ?b1 recipient + amount)) x)) \<le> total_balance (view B s)"
      using sum_add [of ?b1 recipient amount] sum_sub [of amount ?b sender, OF le] unfolding total_balance_def by linarith
  qed (use ro in auto)
qed

lemma CanTransfer_step:
  assumes "state_ok B s" "CanTransfer B s a amount = (enough, t)"
  shows "enough \<longleftrightarrow> amount \<le> balance_at (view B s) a" "view B t = view B s" "state_step B m ro s t"
proof -
  obtain b u where g: "GetBalance B s a = (b, u)" by force
  from reads_step [OF GetBalance_reads assms(1) g, where m = m and ro = ro] g assms(2)
  show "enough \<longleftrightarrow> amount \<le> balance_at (view B s) a" "view B t = view B s" "state_step B m ro s t"
    by (auto simp: CanTransfer_def balance_at_def)
qed

subsection \<open>Self-destruction\<close>

lemma SelfDestruct_effect:
  assumes ok: "state_ok B s"
  shows "evolves B s (SelfDestruct B s a)" "accessed (SelfDestruct B s a) = accessed s"
    "code_at (view B (SelfDestruct B s a)) = code_at (view B s)"
    "balance_at (view B (SelfDestruct B s a)) = (balance_at (view B s))(a := 0)"
proof -
  note live = state_okD(1) [OF ok]
  show "evolves B s (SelfDestruct B s a)"
    by (rule evolves_journalled [OF ok SelfDestruct_journalled [OF live]])
  obtain r t where g: "getStateObject B s a = (r, t)" by force
  note spec = getStateObject_spec [OF live g] and acc = getStateObject_view [OF live g]
  have "same_rest (view B s) (view B (SelfDestruct B s a)) \<and>
    (\<forall>b. b \<noteq> a \<longrightarrow> account_at (view B (SelfDestruct B s a)) b = account_at (view B s) b) \<and>
    account_at (view B (SelfDestruct B s a)) a =
      map_option (\<lambda>ov. set_balance 0 (ov\<lparr>ov_selfDestructed := True\<rparr>)) (account_at (view B s) a)"
  proof (cases r)
    case None
    with g acc spec(2) show ?thesis by (simp add: SelfDestruct_def)
  next
    case (Some obj)
    from spec(6) [OF Some] have obj: "sdb_stateObjects t a = Some obj" "so_address obj = a" "\<not> so_deleted obj" by auto
    have "view B (SelfDestruct B s a) = (view B s)\<lparr>sv_objects := (sv_objects (view B s))
        (a \<mapsto> set_balance 0 ((object_view B (sdb_stateObjectsDestruct s) obj)\<lparr>ov_selfDestructed := True\<rparr>))\<rparr>"
      using g Some obj(2) spec(2,5) by (simp add: SelfDestruct_def view_setStateObject)
    with acc Some obj(3) show ?thesis by (simp add: same_rest_def account_at_def)
  qed
  then have eff: "same_rest (view B s) (view B (SelfDestruct B s a))"
    "\<And>b. account_at (view B (SelfDestruct B s a)) b =
       (if b = a then map_option (\<lambda>ov. set_balance 0 (ov\<lparr>ov_selfDestructed := True\<rparr>)) (account_at (view B s) a)
        else account_at (view B s) b)"
    by auto
  show "accessed (SelfDestruct B s a) = accessed s" by (rule same_rest_accessed [OF eff(1)])
  show "code_at (view B (SelfDestruct B s a)) = code_at (view B s)"
    "balance_at (view B (SelfDestruct B s a)) = (balance_at (view B s))(a := 0)"
    by (auto simp: eff(2) fun_eq_iff code_at_def balance_at_def split: option.split)
qed

lemma SelfDestruct_step:
  assumes ok: "state_ok B s"
  shows "state_step B m False s (SelfDestruct B s a)"
  using SelfDestruct_effect [OF ok, of a] sum_upd [of "balance_at (view B s)" a 0]
  by (simp add: state_step_def codes_ok_def total_balance_def)

text \<open>opSelfdestruct adds the balance to the beneficiary before the account loses it.\<close>

lemma selfdestruct_step:
  assumes ok: "state_ok B s" and db: "database_ok B"
  shows "state_step B m False s (SelfDestruct B (AddBalance B s ben (balance_at (view B s) self)) self)"
proof -
  let ?b = "balance_at (view B s)"
  let ?t = "AddBalance B s ben (?b self)" and ?b1 = "?b(ben := ?b ben + ?b self)"
  note add = AddBalance_only [OF ok db, of ben "?b self"]
  note sd = SelfDestruct_effect [OF balance_only_ok [OF add], of self]
  have "(\<Sum>x\<in>UNIV. unat ((?b1(self := 0)) x)) \<le> (\<Sum>x\<in>UNIV. unat (?b x))"
  proof (cases "ben = self")
    case True
    then show ?thesis using sum_upd [of ?b self 0] by simp
  next
    case False
    then show ?thesis using sum_upd [of ?b1 self 0] sum_add [of ?b ben "?b self"] by simp
  qed
  then show ?thesis
    using add sd by (auto simp: state_step_def codes_ok_def total_balance_def balance_only_def intro: evolves_trans)
qed

lemma Selfdestruct6780_step:
  assumes ok: "state_ok B s"
  shows "state_step B m False s (Selfdestruct6780 B s a)"
proof -
  obtain r t where g: "getStateObject B s a = (r, t)" by force
  note spec = getStateObject_spec [OF state_okD(1) [OF ok] g]
  have "journalled B s t" using spec by (intro journalled_quiet) auto
  then have t: "state_step B m False s t"
    by (intro state_step_same evolves_journalled [OF ok] spec(2))
  with SelfDestruct_step [OF state_step_ok [OF t]] g show ?thesis
    by (auto simp: Selfdestruct6780_def split: option.split intro: state_step_trans)
qed

subsection \<open>Precompiles\<close>

text \<open>All precompiles but the native minter leave the balances alone.\<close>

definition balance_frame :: "address \<Rightarrow> stateObs \<Rightarrow> stateObs \<Rightarrow> bool" where
  "balance_frame caller ob ob' \<longleftrightarrow> ob_balance ob' = ob_balance ob"

lemma add_log_balance [simp]: "ob_balance (add_log ob l) = ob_balance ob"
  by (simp add: add_log_def)

context contract_state
begin

lemma balance_frame_functions:
  assumes G: "geth_ok G"
  shows "run_respects balance_frame (setFeeConfig G S)" "run_respects balance_frame (getFeeConfig G S)"
    "run_respects balance_frame (getFeeConfigLastChangedAt G S)"
    "run_respects balance_frame (allowFeeRecipients G S)" "run_respects balance_frame (disableRewards G S)"
    "run_respects balance_frame (setRewardAddress G S)" "run_respects balance_frame (areFeeRecipientsAllowed G S)"
    "run_respects balance_frame (currentRewardAddress G S)"
proof -
  show "run_respects balance_frame (setFeeConfig G S)"
    by (rule respectsI, drule (1) setFeeConfig_outcome [OF G])
       (auto simp: balance_frame_def fee_config_set_def storeObs_frame split: option.splits if_splits)
  show "run_respects balance_frame (getFeeConfig G S)"
    by (rule respects_same, drule (1) getFeeConfig_outcome [OF G, where skip = True]) (simp_all add: balance_frame_def)
  show "run_respects balance_frame (getFeeConfigLastChangedAt G S)"
    by (rule respects_same, drule (1) getFeeConfigLastChangedAt_outcome [OF G]) (simp_all add: balance_frame_def)
  show "run_respects balance_frame (allowFeeRecipients G S)"
    by (rule respectsI, drule (1) allowFeeRecipients_outcome)
       (auto simp: balance_frame_def reward_outcome_def reward_set_def split: option.splits if_splits)
  show "run_respects balance_frame (disableRewards G S)"
    by (rule respectsI, drule (1) disableRewards_outcome)
       (auto simp: balance_frame_def reward_outcome_def reward_set_def split: option.splits if_splits)
  show "run_respects balance_frame (setRewardAddress G S)"
    by (rule respectsI, drule (1) setRewardAddress_outcome)
       (auto simp: balance_frame_def reward_outcome_def reward_set_def split: option.splits if_splits)
  show "run_respects balance_frame (areFeeRecipientsAllowed G S)"
    by (rule respects_same, drule reward_getters_outcome(1) [OF G, rotated]) (simp_all add: balance_frame_def)
  show "run_respects balance_frame (currentRewardAddress G S)"
    by (rule respects_same, drule reward_getters_outcome(2) [OF G, rotated]) (simp_all add: balance_frame_def)
qed

lemma balance_frame_precompile:
  assumes "geth_ok G" "createPrecompile G S pa abi fm = Some c" "\<forall>run \<in> snd ` set fm. run_respects balance_frame run"
  shows "run_respects balance_frame (Contract_Run c)"
  using assms(3) by (intro respects_precompile [OF assms(1,2)]) (auto simp: balance_frame_def roleSetObs_def set_role_def)

lemma precompile_balance_frame:
  assumes G: "geth_ok G" and c: "precompileContractOf G S k = Some c" and k: "k \<noteq> NativeMinterConfigurator"
  shows "run_respects balance_frame (Contract_Run c)"
  using c k balance_frame_functions [OF G]
  by (cases k)
     (auto simp: createFeeManagerPrecompile_def createNativeMinterPrecompile_def createRewardManagerPrecompile_def
       TxAllowListPrecompile_def ContractDeployerAllowListPrecompile_def
       CreateAllowListPrecompile_create [of _ _ _ "AllowListABI G"] intro!: balance_frame_precompile [OF G])

end

text \<open>
  A second interpretation of the state interface: its invariant remembers the state before the call, so that
  what the call did is a step of the state.
\<close>

definition since_call :: "'e backend \<Rightarrow> 'e StateDB \<Rightarrow> 'e StateDB \<Rightarrow> bool" where
  "since_call B s t \<longleftrightarrow>
     database_ok B \<and> state_step B True False s t \<and> sv_thash (view B t) = sv_thash (view B s) \<and>
     sv_transient (view B t) = sv_transient (view B s) \<and>
     (\<exists>ls. sv_logs (view B t) =
        (sv_logs (view B s))(sv_thash (view B s) := sv_logs (view B s) (sv_thash (view B s)) @ ls))"

lemma since_call_inv: "since_call B s t \<Longrightarrow> state_ok B t \<and> state_inv B t"
  by (auto simp: since_call_def state_inv_def dest: state_step_ok state_okD)

lemma since_call_read:
  assumes "since_call B s t" "reads B f g" "f t = (r, u)"
  shows "since_call B s u"
  using reads_step [OF assms(2) _ assms(3), where m = True and ro = False] since_call_inv [OF assms(1)] assms(1)
  by (auto simp: since_call_def intro: state_step_trans)

lemma since_call_rest:
  assumes "since_call B s t" "state_step B True False t u" "same_rest (view B t) (view B u)"
  shows "since_call B s u"
  using assms by (auto simp: since_call_def same_rest_def intro: state_step_trans)

lemma balance_only_minting: "balance_only B s t b \<Longrightarrow> state_step B True False s t"
  by (auto simp: balance_only_def state_step_def codes_ok_def)

interpretation call: contract_state "stateDB_iface B" "since_call B s" "state_obs B"
  for B :: "'e backend" and s
proof (unfold_locales, goal_cases)
  case (1 t a k h u)
  with sdb.GetState_law [of B t a k h u] since_call_inv [OF 1(1)] since_call_read [OF 1(1) GetState_reads, of a k h u] show ?case
    by (simp add: stateDB_iface_def)
next
  case (2 t a n u)
  with sdb.GetNonce_law [of B t a n u] since_call_inv [OF 2(1)] since_call_read [OF 2(1) GetNonce_reads, of a n u] show ?case
    by (simp add: stateDB_iface_def)
next
  case (3 t a b u)
  with sdb.GetBalance_law [of B t a b u] since_call_inv [OF 3(1)] since_call_read [OF 3(1) GetBalance_reads, of a b u] show ?case
    by (simp add: stateDB_iface_def)
next
  case (4 t a e u)
  with sdb.Exist_law [of B t a e u] since_call_inv [OF 4(1)] since_call_read [OF 4(1) Exist_reads, of a e u] show ?case
    by (simp add: stateDB_iface_def)
next
  case (5 t a k v)
  note t = since_call_inv [OF 5]
  with since_call_rest [OF 5 SetState_step changes_rest [OF SetState_changes], of a k v] sdb.SetState_law [of B t a k v]
  show ?case by (auto simp: stateDB_iface_def state_okD)
next
  case (6 t a n)
  note t = since_call_inv [OF 6]
  with since_call_rest [OF 6 SetNonce_step changes_rest [OF SetNonce_changes], of a n] sdb.SetNonce_law [of B t a n]
  show ?case by (auto simp: stateDB_iface_def state_okD)
next
  case (7 t a b)
  note t = since_call_inv [OF 7]
  moreover have "database_ok B" using 7 by (simp add: since_call_def)
  ultimately show ?case
    using since_call_rest [OF 7 balance_only_minting [OF AddBalance_only] changes_rest [OF AddBalance_changes], of a b]
      sdb.AddBalance_law [of B t a b] by (auto simp: stateDB_iface_def state_okD)
next
  case (8 t a)
  note t = since_call_inv [OF 8]
  moreover have "database_ok B" using 8 by (simp add: since_call_def)
  moreover have "same_rest (view B t) (view B (CreateAccount B t a))"
    using CreateAccount_changes [of B t a] t by (auto simp: state_okD)
  ultimately show ?case
    using since_call_rest [OF 8 CreateAccount_step, of a] sdb.CreateAccount_law [of B t a] by (auto simp: stateDB_iface_def)
next
  case (9 t a topics data n)
  note t = since_call_inv [OF 9]
  from AddLog_view [of a topics data n t B] obtain log where
    v: "view B (AddLog t a topics data n) =
       (view B t)\<lparr>sv_logs := (sv_logs (view B t))(sdb_thash t := sv_logs (view B t) (sdb_thash t) @ [log]),
                  sv_logSize := Suc (sdb_logSize t)\<rparr>" by blast
  have "sdb_thash t = sv_thash (view B t)" by (simp add: view_def)
  with 9 v AddLog_step [of B t True a topics data n] t have "since_call B s (AddLog t a topics data n)"
    by (auto simp: since_call_def intro: state_step_trans)
  with t sdb.AddLog_law [of B t a topics data n] show ?case by (simp add: stateDB_iface_def)
next
  case (10 t a)
  with sdb.absent_law [of B t a] since_call_inv [OF 10(1)] show ?case by simp
qed

lemma since_call_refl: "state_ok B s \<Longrightarrow> database_ok B \<Longrightarrow> since_call B s s"
  by (auto simp: since_call_def state_step_refl intro: exI [of _ "[]"])

lemma since_call_step:
  assumes "since_call B s t" and ro: "ro \<Longrightarrow> state_obs B t = state_obs B s"
    and m: "\<not> m \<Longrightarrow> ob_balance (state_obs B t) = ob_balance (state_obs B s)"
  shows "state_step B m ro s t"
proof -
  have "frozen (view B s) (view B t)" if "state_obs B t = state_obs B s"
  proof -
    from that have ob: "view_obs (view B t) = view_obs (view B s)" by (simp add: state_obs_def)
    from assms(1) obtain ls where ls: "sv_logs (view B t) =
        (sv_logs (view B s))(sv_thash (view B s) := sv_logs (view B s) (sv_thash (view B s)) @ ls)"
      and same: "sv_thash (view B t) = sv_thash (view B s)" "sv_transient (view B t) = sv_transient (view B s)"
      by (auto simp: since_call_def)
    from arg_cong [OF ob, of "\<lambda>ob. length (ob_logs ob)"] same ls have "ls = []" by (simp add: view_obs_def)
    with ls same arg_cong [OF ob, of ob_slot] arg_cong [OF ob, of ob_nonce] arg_cong [OF ob, of ob_balance]
    show ?thesis by (simp add: frozen_def view_obs_def)
  qed
  moreover have "total_balance (view B t) = total_balance (view B s)" if "\<not> m"
    using m [OF that] by (simp add: total_balance_def state_obs_def view_obs_def)
  ultimately show ?thesis
    using assms(1) ro by (auto simp: since_call_def state_step_def)
qed

lemma precompile_step:
  assumes G: "geth_ok G" and c: "moduleContract E k = Some c" "env_G E = G" "env_B E = B"
    and ok: "state_ok B s" "database_ok B"
    and run: "Contract_Run c AE s caller addr input gas ro = (ret, gas', err, t)"
  shows "unat gas' \<le> unat gas \<and> state_step B (k = NativeMinterConfigurator) ro s t"
proof (cases "k = WarpConfigurator")
  case True
  with c have w: "createWarpPrecompile G (env_A E) (stateDB_iface B) = Some c" by (simp add: moduleContract_def)
  note safe = call.warp_contract(1) [OF w, of s, unfolded call.run_safe_def, rule_format, OF since_call_refl [OF ok] run]
  note log = call.warp_contract(2) [OF w, of s, unfolded call.run_respects_def, rule_format, OF since_call_refl [OF ok] run]
  from log have "ob_balance (state_obs B t) = ob_balance (state_obs B s)"
    by (auto simp: call.logs_only_def)
  with safe show ?thesis by (auto intro: since_call_step)
next
  case False
  with c have p: "precompileContractOf G (stateDB_iface B) k = Some c"
    by (cases k) (simp_all add: moduleContract_def)
  note l = call.precompile_call [OF G p since_call_refl [OF ok] run]
  moreover have "ob_balance (state_obs B t) = ob_balance (state_obs B s)" if "k \<noteq> NativeMinterConfigurator"
    using call.precompile_balance_frame [OF G p that, of s, unfolded call.run_respects_def, rule_format,
        OF since_call_refl [OF ok] run] by (simp add: balance_frame_def)
  ultimately show ?thesis by (auto intro: since_call_step)
qed

end
