(* ===== verification/EvmNative.thy ===== *)
theory EvmNative
  imports EvmContracts
begin

text \<open>
  The native contracts return for every input: the lengths that bigModExp reads from its input are bounded by
  the gas that it requires.
\<close>

lemma getData_total:
  assumes "length data < 2 ^ 62" "unat sz < 2 ^ 63"
  shows "\<exists>bs. getData G data start sz = Some bs"
proof -
  define len st where "len = (of_nat (length data) :: u64)" and "st = (if start > len then len else start)"
  have "unat len = length data" using assms(1) by (simp add: len_def unsigned_of_nat take_bit_nat_eq_self)
  moreover have "st \<le> len" by (auto simp: st_def)
  ultimately have "unat (st + sz) = unat st + unat sz"
    using assms by (intro unat_add_lem [THEN iffD1]) (simp add: word_le_nat_alt)
  then have "st \<le> st + sz" by (simp add: word_le_nat_alt)
  with \<open>st \<le> len\<close> show ?thesis
    unfolding getData_def len_def [symmetric] Let_def st_def [symmetric] by auto
qed

lemma bigModExp_RequiredGas_cases:
  assumes "length input < 2 ^ 62"
  obtains bs es ms head where "getData G input 0 32 = Some bs" "getData G input 32 32 = Some es" "getData G input 64 32 = Some ms"
    "bigModExp_RequiredGas G True input =
      (let adj = (if be_nat es > 32 then 8 * (int (be_nat es) - 32) else 0) + int head;
           g = (BigMax G (int (be_nat ms)) (int (be_nat bs)) + 7) div 8;
           gas = g * g * BigMax G adj 1 div 3
       in Some (if big_BitLen gas > 64 then MaxUint64 else if big_Uint64 gas < 200 then 200 else big_Uint64 gas))"
proof -
  have d: "length (drop 96 input) < 2 ^ 62" using assms by simp
  have "\<exists>bs. getData G input start 32 = Some bs" for start
    by (rule getData_total [OF assms]) simp
  then obtain bs es ms where
    b: "getData G input 0 32 = Some bs" "getData G input 32 32 = Some es" "getData G input 64 32 = Some ms" by meson
  have "\<exists>n. (if length (drop 96 input) \<le> be_nat bs then Some 0
       else if be_nat es > 32 then map_option be_nat (getData G (drop 96 input) (of_nat (be_nat bs)) 32)
       else map_option be_nat (getData G (drop 96 input) (of_nat (be_nat bs)) (of_nat (be_nat es)))) = Some n"
    using getData_total [OF d, of 32 G "of_nat (be_nat bs)"]
      getData_total [OF d, of "of_nat (be_nat es)" G "of_nat (be_nat bs)"]
    by (auto simp: unsigned_of_nat take_bit_nat_eq_self)
  then obtain n where n: "(if length (drop 96 input) \<le> be_nat bs then Some 0
       else if be_nat es > 32 then map_option be_nat (getData G (drop 96 input) (of_nat (be_nat bs)) 32)
       else map_option be_nat (getData G (drop 96 input) (of_nat (be_nat bs)) (of_nat (be_nat es)))) = Some n" ..
  show thesis
    by (rule that [OF b, of "let bitlen = big_BitLen (int n) in if bitlen > 0 then bitlen - 1 else 0"])
       (simp only: bigModExp_RequiredGas_def b n Let_def option.map bind.bind_lunit if_True)
qed

text \<open>Gas below \<open>2 ^ 63\<close> bounds the lengths.\<close>

lemma modexp_bounds:
  fixes m b e head :: nat
  defines "g \<equiv> (max (int m) (int b) + 7) div 8"
    and "adj \<equiv> (if e > 32 then 8 * (int e - 32) else 0) + int head"
  assumes gas: "g * g * max adj 1 div 3 < 2 ^ 63" and nz: "m \<noteq> 0 \<or> b \<noteq> 0"
  shows "m < 2 ^ 62 \<and> b < 2 ^ 62 \<and> e < 2 ^ 62"
proof -
  have g1: "1 \<le> g" unfolding g_def using nz by auto
  have prod: "g * g * max adj 1 < 3 * 2 ^ 63" using gas by linarith
  have "1 * 1 \<le> g * g" using g1 by (intro mult_mono) auto
  then have "1 * max adj 1 \<le> g * g * max adj 1" by (intro mult_right_mono) auto
  with prod have adj: "adj < 3 * 2 ^ 63" by linarith
  have "g * g * 1 \<le> g * g * max adj 1" using g1 by (intro mult_left_mono) auto
  with prod have "g * g < 3 * 2 ^ 63" by linarith
  moreover have "2 ^ 33 * 2 ^ 33 \<le> g * g" if "2 ^ 33 \<le> g" using that by (intro mult_mono) auto
  ultimately have "g < 2 ^ 33" by (cases "2 ^ 33 \<le> g") auto
  moreover have "(x + 7) div 8 < 2 ^ 33 \<Longrightarrow> x < 2 ^ 62" for x :: int by simp
  ultimately have "max (int m) (int b) < 2 ^ 62" unfolding g_def by blast
  moreover have "int e < 2 ^ 62" using adj unfolding adj_def by (auto simp: word_less_nat_alt split: if_splits)
  ultimately show ?thesis by simp
qed

lemma bigModExp_total:
  assumes G: "geth_ok G" and len: "length input < 2 ^ 62"
    and gas: "bigModExp_RequiredGas G True input = Some g" "unat g < 2 ^ 63"
  shows "\<exists>bs. bigModExp_Run G input = Some bs"
proof -
  obtain bs es ms head where
    b: "getData G input 0 32 = Some bs" "getData G input 32 32 = Some es" "getData G input 64 32 = Some ms" and
    req: "bigModExp_RequiredGas G True input =
      (let adj = (if be_nat es > 32 then 8 * (int (be_nat es) - 32) else 0) + int head;
           g = (BigMax G (int (be_nat ms)) (int (be_nat bs)) + 7) div 8;
           gas = g * g * BigMax G adj 1 div 3
       in Some (if big_BitLen gas > 64 then MaxUint64 else if big_Uint64 gas < 200 then 200 else big_Uint64 gas))"
    by (rule bigModExp_RequiredGas_cases [OF len])
  show ?thesis
  proof (cases "be_nat ms = 0 \<and> be_nat bs = 0")
    case True
    with b show ?thesis by (simp add: bigModExp_Run_def)
  next
    case False
    define q where "q = (max (int (be_nat ms)) (int (be_nat bs)) + 7) div 8 * ((max (int (be_nat ms)) (int (be_nat bs)) + 7) div 8) *
        max ((if be_nat es > 32 then 8 * (int (be_nat es) - 32) else 0) + int head) 1 div 3"
    have q0: "0 \<le> q" unfolding q_def by (intro pos_imp_zdiv_nonneg_iff [THEN iffD2] mult_nonneg_nonneg) auto
    have mx: "BigMax G = max" by (simp add: fun_eq_iff geth_okD [OF G])
    have "g = (if big_BitLen q > 64 then MaxUint64 else if big_Uint64 q < 200 then 200 else big_Uint64 q)"
      using gas(1) unfolding req Let_def mx q_def by (simp only: option.inject)
    with gas(2) have "q < 2 ^ 64" "unat (big_Uint64 q) < 200 \<or> unat (big_Uint64 q) < 2 ^ 63"
      using big_BitLen_le [of q 64] q0 by (auto simp: word_less_nat_alt split: if_splits)
    moreover from this(1) q0 have "q = int (unat (big_Uint64 q))" using uint_big_Uint64 by simp
    moreover have "int n < 2 ^ 63" if "n < 200 \<or> n < 2 ^ 63" for n using that by auto
    ultimately have "q < 2 ^ 63" by (metis (no_types))
    then have "be_nat ms < 2 ^ 62 \<and> be_nat bs < 2 ^ 62 \<and> be_nat es < 2 ^ 62"
      unfolding q_def by (rule modexp_bounds) (use False in auto)
    then have small: "be_nat ms < 2 ^ 62" "be_nat bs < 2 ^ 62" "be_nat es < 2 ^ 62" by blast+
    have d: "length (drop 96 input) < 2 ^ 62" using len by simp
    have get: "\<exists>xs. getData G (drop 96 input) start (of_nat n) = Some xs" if "n < 2 ^ 62" for start n
      using that by (intro getData_total [OF d]) (simp add: unsigned_of_nat take_bit_nat_eq_self)
    from get [OF small(2), of 0] get [OF small(3), of "of_nat (be_nat bs)"]
      get [OF small(1), of "of_nat (be_nat bs) + of_nat (be_nat es)"] b
    show ?thesis by (auto simp: bigModExp_Run_def Let_def)
  qed
qed

lemma native_total:
  assumes G: "geth_ok G" and len: "length input < 2 ^ 62" and p: "p \<noteq> bigModExp False" and gas: "unat gas < 2 ^ 63"
  obtains ret gas' err where "RunPrecompiledContract G X p input gas = Some (ret, gas', err)" "unat gas' \<le> unat gas"
proof -
  have get: "\<exists>xs. getData G input start n = Some xs" if "unat n \<le> 64" for start n
    using that by (intro getData_total [OF len]) simp
  from get [of 64 0] get [of 64 64] get [of 32 64] have
    bn: "\<exists>r. runBn256Add G X input = Some r" "\<exists>r. runBn256ScalarMul G X input = Some r"
    by (auto simp: runBn256Add_def runBn256ScalarMul_def)
  have "\<exists>g. RequiredGas G p input = Some g"
    using p bigModExp_RequiredGas_cases [OF len, of G] by (cases p) (auto simp: Let_def)
  then obtain g where g: "RequiredGas G p input = Some g" ..
  show thesis
  proof (cases "gas < g")
    case True
    with g that show thesis by (simp add: RunPrecompiledContract_def)
  next
    case False
    then have le: "unat (gas - g) \<le> unat gas" by (simp add: unat_sub not_less)
    have "\<exists>r. native_Run G X p input = Some r"
    proof (cases "p = bigModExp True")
      case True
      with g have "bigModExp_RequiredGas G True input = Some g" by simp
      moreover from False gas have "unat g < 2 ^ 63" by (simp add: not_less word_le_nat_alt)
      ultimately show ?thesis using bigModExp_total [OF G len] True by auto
    next
      case other: False
      with p bn show ?thesis by (cases p) auto
    qed
    then obtain r where "native_Run G X p input = Some r" ..
    with g False le that show thesis
      by (cases r) (auto simp: RunPrecompiledContract_def)
  qed
qed

end
