(* ===== verification/EvmOps.thy ===== *)
theory EvmOps
  imports Evm
begin

text \<open>
  What an operation of the tables says about its instruction: the stack it needs and leaves, the memory it
  touches, and that an instruction that goes on costs gas. \<open>shape_ok\<close> and \<open>gas_ok\<close> are checked for all entries of the tables
  that a chain with the Subnet EVM upgrade uses.
\<close>

subsection \<open>The demands of an instruction\<close>

fun pops :: "executionFunc \<Rightarrow> nat" where
  "pops (Binary f) = 2"
| "pops (Unary f) = 1"
| "pops (Ternary f) = 3"
| "pops (Environment f) = 0"
| "pops (Access f) = (case f of opKeccak256 \<Rightarrow> 2 | opSelfBalance \<Rightarrow> 0 | _ \<Rightarrow> 1)"
| "pops (CopyTo f) = (case f of opExtCodeCopy \<Rightarrow> 4 | _ \<Rightarrow> 3)"
| "pops (Store f) = (case f of opPop \<Rightarrow> 1 | makeLog n \<Rightarrow> n + 2 | _ \<Rightarrow> 2)"
| "pops (OnStack f) = (case f of makeDup n \<Rightarrow> n | makeSwap n \<Rightarrow> n + 1 | _ \<Rightarrow> 0)"
| "pops (Jump f) = (case f of opJump \<Rightarrow> 1 | opJumpi \<Rightarrow> 2 | opJumpdest \<Rightarrow> 0)"
| "pops (Creation f) = (case f of opCreate \<Rightarrow> 3 | opCreate2 \<Rightarrow> 4)"
| "pops (Calling f) = (case f of opCall \<Rightarrow> 7 | opCallCode \<Rightarrow> 7 | _ \<Rightarrow> 6)"
| "pops (Halt f) = (case f of opReturn \<Rightarrow> 2 | opRevert \<Rightarrow> 2 | opSelfdestruct \<Rightarrow> 1 | opSelfdestruct6780 \<Rightarrow> 1 | _ \<Rightarrow> 0)"

fun pushes :: "executionFunc \<Rightarrow> nat" where
  "pushes (CopyTo f) = 0"
| "pushes (Store f) = 0"
| "pushes (OnStack f) = (case f of makeDup n \<Rightarrow> n + 1 | makeSwap n \<Rightarrow> n + 1 | _ \<Rightarrow> 1)"
| "pushes (Jump f) = 0"
| "pushes (Halt f) = 0"
| "pushes _ = 1"

fun region :: "executionFunc \<Rightarrow> memorySizeFunc option" where
  "region (Access f) = (case f of opKeccak256 \<Rightarrow> Some memoryKeccak256 | opMload \<Rightarrow> Some memoryMLoad | _ \<Rightarrow> None)"
| "region (CopyTo f) =
     Some (case f of opExtCodeCopy \<Rightarrow> memoryExtCodeCopy | opMcopy \<Rightarrow> memoryMcopy | _ \<Rightarrow> memoryCallDataCopy)"
| "region (Store f) =
     (case f of opMstore \<Rightarrow> Some memoryMLoad | opMstore8 \<Rightarrow> Some memoryMStore8 | makeLog n \<Rightarrow> Some memoryKeccak256 | _ \<Rightarrow> None)"
| "region (Creation f) = Some memoryCreate"
| "region (Calling f) = Some (case f of opCall \<Rightarrow> memoryCall | opCallCode \<Rightarrow> memoryCall | _ \<Rightarrow> memoryDelegateCall)"
| "region (Halt f) = (case f of opReturn \<Rightarrow> Some memoryKeccak256 | opRevert \<Rightarrow> Some memoryKeccak256 | _ \<Rightarrow> None)"
| "region _ = None"

fun is_halt :: "executionFunc \<Rightarrow> bool" where
  "is_halt (Halt f) = True"
| "is_halt _ = False"

subsection \<open>The demands of a gas function\<close>

text \<open>The stack that a gas function reads, for the functions of the tables since the Subnet EVM upgrade.\<close>

fun gas_pops :: "gasFunc \<Rightarrow> nat option" where
  "gas_pops (memoryCopierGas n) = Some (n + 1)"
| "gas_pops pureMemoryGascost = Some 0"
| "gas_pops gasKeccak256 = Some 2"
| "gas_pops (makeGasLog n) = Some 2"
| "gas_pops gasCreate2 = Some 3"
| "gas_pops gasCreateEip3860 = Some 3"
| "gas_pops gasCreate2Eip3860 = Some 3"
| "gas_pops gasExpEIP158 = Some 2"
| "gas_pops gasSStoreEIP2929 = Some 2"
| "gas_pops gasSLoadEIP2929 = Some 1"
| "gas_pops gasExtCodeCopyEIP2929 = Some 4"
| "gas_pops gasEip2929AccountCheck = Some 1"
| "gas_pops (makeCallVariantGasCallEIP2929 old) =
     (case old of gasCall \<Rightarrow> Some 3 | gasCallCode \<Rightarrow> Some 3 | gasDelegateCall \<Rightarrow> Some 2 | gasStaticCall \<Rightarrow> Some 2 | _ \<Rightarrow> None)"
| "gas_pops (makeSelfdestructGasFn refunds) = Some 1"
| "gas_pops _ = None"

fun min_gas :: "gasFunc \<Rightarrow> nat" where
  "min_gas (makeGasLog n) = 375"
| "min_gas gasExpEIP158 = 10"
| "min_gas gasSStoreEIP2929 = 100"
| "min_gas gasSLoadEIP2929 = 100"
| "min_gas _ = 0"

fun call_gas :: "callOp \<Rightarrow> gasFunc" where
  "call_gas opCall = gasCall"
| "call_gas opCallCode = gasCallCode"
| "call_gas opDelegateCall = gasDelegateCall"
| "call_gas opStaticCall = gasStaticCall"

subsection \<open>Well-formed operations\<close>

text \<open>The shape of an operation fits its instruction; the functions that only change gas keep it.\<close>

definition shape_ok :: "operation \<Rightarrow> bool" where
  "shape_ok oper \<longleftrightarrow>
     op_minStack oper = int (pops (op_execute oper)) \<and>
     op_maxStack oper = 1024 + int (pops (op_execute oper)) - int (pushes (op_execute oper)) \<and>
     op_memorySize oper = region (op_execute oper) \<and>
     (\<forall>sz n. op_execute oper = OnStack (makePush sz n) \<longrightarrow> sz \<le> 32 \<and> n \<le> 32) \<and>
     op_execute oper \<noteq> OnStack (makeDup 0)"

text \<open>The gas function of an operation finds its arguments, and an instruction that goes on costs gas. The
  instruction for the blob base fee comes with blobs only.\<close>

definition gas_ok :: "bool \<Rightarrow> operation \<Rightarrow> bool" where
  "gas_ok blobs oper \<longleftrightarrow>
     (op_execute oper = Environment opBlobBaseFee \<longrightarrow> blobs) \<and>
     (\<forall>g. op_execute oper = Creation g \<longrightarrow> op_constantGas oper \<noteq> 0) \<and>
     (case op_dynamicGas oper of
        None \<Rightarrow> region (op_execute oper) = None
      | Some dyn \<Rightarrow> (case gas_pops dyn of None \<Rightarrow> False | Some n \<Rightarrow> n \<le> pops (op_execute oper))) \<and>
     (is_halt (op_execute oper) \<or> op_constantGas oper \<noteq> 0 \<or>
      (case op_dynamicGas oper of None \<Rightarrow> False | Some dyn \<Rightarrow> min_gas dyn \<noteq> 0)) \<and>
     (\<forall>g. op_execute oper = Calling g \<longrightarrow> op_dynamicGas oper = Some (makeCallVariantGasCallEIP2929 (call_gas g)))"

lemmas op_defs = shape_ok_def gas_ok_def minStack_def maxStack_def StackLimit_def

lemma shape_ok_gas [simp]:
  "shape_ok (oper\<lparr>op_constantGas := g\<rparr>) = shape_ok oper" "shape_ok (oper\<lparr>op_dynamicGas := d\<rparr>) = shape_ok oper"
  by (simp_all add: shape_ok_def)

definition table_shape :: "JumpTable \<Rightarrow> bool" where
  "table_shape jt \<longleftrightarrow> (\<forall>b. shape_ok (jt b))"

lemma table_shape_upd [simp]: "table_shape jt \<Longrightarrow> shape_ok oper \<Longrightarrow> table_shape (jt(b := oper))"
  by (simp add: table_shape_def)

lemma table_shape_gas [simp]: "table_shape jt \<Longrightarrow> shape_ok (jt b)"
  by (simp add: table_shape_def)

subsection \<open>The shape of the tables\<close>

abbreviation frontierTable :: "(byte \<times> operation) list" where
  "frontierTable \<equiv> frontierArithmetic @ frontierEnvironment @ frontierStorage @ frontierPushes @ frontierDups @
     frontierSwaps @ frontierClosures"

lemma frontier_shapes: "\<forall>(b, oper) \<in> set frontierTable. shape_ok oper"
  unfolding set_append ball_Un
  by (intro conjI)
     (simp_all add: op_defs frontierArithmetic_def frontierEnvironment_def frontierStorage_def frontierPushes_def
       frontierDups_def frontierSwaps_def frontierClosures_def)

lemma frontier_cases:
  obtains "newFrontierInstructionSet b = undefinedOp" | oper where "newFrontierInstructionSet b = oper" "(b, oper) \<in> set frontierTable"
proof (cases "map_of frontierTable b")
  case None
  then show thesis using that(1) unfolding newFrontierInstructionSet_def by (simp only: option.case)
next
  case (Some oper)
  then show thesis using that(2) [of oper] map_of_SomeD [OF Some] unfolding newFrontierInstructionSet_def
    by (simp only: option.case)
qed

lemma frontier_shape: "table_shape newFrontierInstructionSet"
  unfolding table_shape_def
proof
  fix b
  show "shape_ok (newFrontierInstructionSet b)"
  proof (cases rule: frontier_cases [of b])
    case 1
    then show ?thesis by (simp add: undefinedOp_def op_defs)
  next
    case (2 oper)
    with frontier_shapes show ?thesis by blast
  qed
qed

lemma comp_shape: "(\<And>jt. table_shape jt \<Longrightarrow> table_shape (F jt)) \<Longrightarrow> (\<And>jt. table_shape jt \<Longrightarrow> table_shape (H jt)) \<Longrightarrow>
    table_shape jt \<Longrightarrow> table_shape ((F \<circ> H) jt)"
  by simp

lemma enable_shapes:
  assumes "table_shape jt"
  shows "table_shape (enable1344 jt)" "table_shape (enable1884 jt)" "table_shape (enable2200 jt)" "table_shape (enable2929 jt)"
    "table_shape (enable3198 jt)" "table_shape (enable3855 jt)" "table_shape (enable3860 jt)" "table_shape (enable4844 jt)"
    "table_shape (enable7516 jt)" "table_shape (enable1153 jt)" "table_shape (enable5656 jt)" "table_shape (enable6780 jt)"
proof -
  have "table_shape ((setConstantGas EXTCODEHASH ExtcodeHashGasEIP1884 \<circ> setConstantGas BALANCE BalanceGasEIP1884 \<circ>
       setConstantGas SLOAD SloadGasEIP1884) jt)"
    by (intro comp_shape assms) simp_all
  then show "table_shape (enable1884 jt)" by (simp add: enable1884_def op_defs del: comp_apply)
  show "table_shape (enable2929 jt)" unfolding enable2929_def by (intro comp_shape assms) simp_all
  show "table_shape (enable2200 jt)" "table_shape (enable3860 jt)"
    unfolding enable2200_def enable3860_def by (intro table_shape_upd assms; simp add: assms)+
qed (use assms in \<open>simp_all add: enable1344_def enable3198_def enable3855_def
    enable4844_def enable7516_def enable1153_def enable5656_def enable6780_def op_defs\<close>)

lemma byzantium_shape: "table_shape newByzantiumInstructionSet"
proof -
  have "table_shape newHomesteadInstructionSet"
    by (simp add: newHomesteadInstructionSet_def frontier_shape op_defs)
  then have "table_shape newTangerineWhistleInstructionSet"
    unfolding newTangerineWhistleInstructionSet_def by (intro comp_shape) simp_all
  then have "table_shape newSpuriousDragonInstructionSet"
    by (simp add: newSpuriousDragonInstructionSet_def)
  then show ?thesis by (simp add: newByzantiumInstructionSet_def op_defs)
qed

lemma table_shapes:
  "table_shape newSubnetEVMInstructionSet" "table_shape newDurangoInstructionSet" "table_shape newCancunInstructionSet"
proof -
  have "table_shape newConstantinopleInstructionSet"
    by (simp add: newConstantinopleInstructionSet_def byzantium_shape op_defs)
  then show "table_shape newSubnetEVMInstructionSet"
    by (simp add: newSubnetEVMInstructionSet_def newIstanbulInstructionSet_def enable_shapes)
  then show "table_shape newDurangoInstructionSet" by (simp add: newDurangoInstructionSet_def enable_shapes)
  then show "table_shape newCancunInstructionSet" by (simp add: newCancunInstructionSet_def enable_shapes)
qed

subsection \<open>The gas of the tables\<close>

text \<open>The opcodes whose gas EIP-2929 changes; all others have well-formed gas in every table before.\<close>

definition repriced :: "byte set" where
  "repriced = {SELFDESTRUCT, DELEGATECALL, STATICCALL, CALLCODE, CALL, BALANCE, EXTCODEHASH, EXTCODESIZE, EXTCODECOPY, SLOAD, SSTORE}"

lemma comp_setConstantGas:
  "((\<lambda>jt. setConstantGas b g jt) \<circ> F) jt x = (if x = b then (F jt b)\<lparr>op_constantGas := g\<rparr> else F jt x)"
  by simp

lemma comp_setGas:
  "((\<lambda>jt. setGas b g d jt) \<circ> F) jt x =
     (if x = b then (F jt b)\<lparr>op_constantGas := g, op_dynamicGas := Some d\<rparr> else F jt x)"
  by simp

lemma frontier_gas:
  assumes "b \<notin> repriced" "b \<noteq> EXP"
  shows "gas_ok False (newFrontierInstructionSet b)"
proof -
  have "\<forall>(b, oper) \<in> set frontierTable. gas_ok False oper \<or> b \<in> insert EXP repriced"
    unfolding set_append ball_Un
    by (intro conjI)
       (simp_all add: gas_ok_def repriced_def frontierArithmetic_def frontierEnvironment_def frontierStorage_def frontierPushes_def
         frontierDups_def frontierSwaps_def frontierClosures_def)
  moreover have "gas_ok False undefinedOp" by (simp add: undefinedOp_def gas_ok_def)
  ultimately show ?thesis
    using assms by (cases rule: frontier_cases [of b]) auto
qed

text \<open>Changing gas does not change the instruction.\<close>

definition same_exec :: "(JumpTable \<Rightarrow> JumpTable) \<Rightarrow> bool" where
  "same_exec F \<longleftrightarrow> (\<forall>jt b. op_execute (F jt b) = op_execute (jt b))"

lemma same_exec_comp: "same_exec F \<Longrightarrow> same_exec H \<Longrightarrow> same_exec (F \<circ> H)"
  by (simp add: same_exec_def)

lemma same_exec_set:
  "same_exec (\<lambda>jt. setConstantGas b g jt)" "same_exec (\<lambda>jt. setDynamicGas b d jt)" "same_exec (\<lambda>jt. setGas b g d jt)"
  by (simp_all add: same_exec_def)

lemma tangerine_exec: "op_execute (newTangerineWhistleInstructionSet b) = op_execute (newHomesteadInstructionSet b)"
proof -
  have "same_exec (setConstantGas DELEGATECALL CallGasEIP150 \<circ> setConstantGas CALLCODE CallGasEIP150 \<circ>
      setConstantGas CALL CallGasEIP150 \<circ> setConstantGas EXTCODECOPY ExtcodeCopyBaseEIP150 \<circ>
      setConstantGas SLOAD SloadGasEIP150 \<circ> setConstantGas EXTCODESIZE ExtcodeSizeGasEIP150 \<circ>
      setConstantGas BALANCE BalanceGasEIP150)"
    by (intro same_exec_comp same_exec_set)
  then show ?thesis by (simp add: newTangerineWhistleInstructionSet_def same_exec_def del: comp_apply)
qed

lemma frontier_exec:
  "op_execute (newFrontierInstructionSet SLOAD) = Access opSload"
  "op_execute (newFrontierInstructionSet SSTORE) = Store opSstore"
  "op_execute (newFrontierInstructionSet BALANCE) = Access opBalance"
  "op_execute (newFrontierInstructionSet EXTCODESIZE) = Access opExtCodeSize"
  "op_execute (newFrontierInstructionSet EXTCODECOPY) = CopyTo opExtCodeCopy"
  "op_execute (newFrontierInstructionSet CALL) = Calling opCall"
  "op_execute (newFrontierInstructionSet CALLCODE) = Calling opCallCode"
  "op_execute (newFrontierInstructionSet SELFDESTRUCT) = Halt opSelfdestruct"
  "op_execute (newFrontierInstructionSet CREATE) = Creation opCreate"
  "op_execute (newFrontierInstructionSet EXP) = Binary opExp"
  "op_execute (newFrontierInstructionSet STOP) = Halt opStop"
  by (simp_all add: newFrontierInstructionSet_def frontierArithmetic_def frontierEnvironment_def frontierStorage_def
     frontierPushes_def frontierDups_def frontierSwaps_def frontierClosures_def upt_rec)

lemma homestead_gas: "b \<notin> repriced \<Longrightarrow> b \<noteq> EXP \<Longrightarrow> gas_ok False (newHomesteadInstructionSet b)"
  by (auto simp: newHomesteadInstructionSet_def frontier_gas) (simp add: repriced_def)

lemma tangerine_gas: "b \<notin> repriced \<Longrightarrow> newTangerineWhistleInstructionSet b = newHomesteadInstructionSet b"
  unfolding newTangerineWhistleInstructionSet_def comp_assoc
  by (simp only: comp_setConstantGas) (auto simp: repriced_def)

lemma byzantium_gas:
  assumes "b \<notin> repriced"
  shows "gas_ok False (newByzantiumInstructionSet b)"
proof -
  have "op_execute (newTangerineWhistleInstructionSet EXP) = Binary opExp"
    by (simp add: tangerine_exec newHomesteadInstructionSet_def frontier_exec)
  then have "gas_ok False (newSpuriousDragonInstructionSet b)"
    using homestead_gas [OF assms] tangerine_gas [OF assms]
    by (cases "b = EXP") (simp_all add: newSpuriousDragonInstructionSet_def, simp add: gas_ok_def)
  with assms show ?thesis
    by (auto simp: newByzantiumInstructionSet_def repriced_def) (simp_all add: gas_ok_def)
qed

lemma istanbul_gas:
  assumes "b \<notin> repriced"
  shows "gas_ok False (newIstanbulInstructionSet b)"
proof -
  have c: "gas_ok False (newConstantinopleInstructionSet b)"
    using assms byzantium_gas [OF assms] by (auto simp: newConstantinopleInstructionSet_def repriced_def) (simp_all add: gas_ok_def)
  have "gas_ok False (enable1884 (enable1344 newConstantinopleInstructionSet) b)"
  proof (cases "b = SELFBALANCE")
    case True
    then show ?thesis by (simp add: enable1884_def gas_ok_def del: comp_apply)
  next
    case False
    have "enable1884 (enable1344 newConstantinopleInstructionSet) b = enable1344 newConstantinopleInstructionSet b"
      unfolding enable1884_def comp_assoc fun_upd_other [OF False]
      using assms by (simp only: comp_setConstantGas) (auto simp: repriced_def)
    with c show ?thesis by (cases "b = CHAINID") (simp_all add: enable1344_def, simp add: gas_ok_def)
  qed
  with assms show ?thesis by (auto simp: newIstanbulInstructionSet_def enable2200_def repriced_def)
qed

lemma istanbul_exec:
  "op_execute (newIstanbulInstructionSet SLOAD) = Access opSload"
  "op_execute (newIstanbulInstructionSet SSTORE) = Store opSstore"
  "op_execute (newIstanbulInstructionSet BALANCE) = Access opBalance"
  "op_execute (newIstanbulInstructionSet EXTCODESIZE) = Access opExtCodeSize"
  "op_execute (newIstanbulInstructionSet EXTCODEHASH) = Access opExtCodeHash"
  "op_execute (newIstanbulInstructionSet EXTCODECOPY) = CopyTo opExtCodeCopy"
  "op_execute (newIstanbulInstructionSet CALL) = Calling opCall"
  "op_execute (newIstanbulInstructionSet CALLCODE) = Calling opCallCode"
  "op_execute (newIstanbulInstructionSet DELEGATECALL) = Calling opDelegateCall"
  "op_execute (newIstanbulInstructionSet STATICCALL) = Calling opStaticCall"
  "op_execute (newIstanbulInstructionSet SELFDESTRUCT) = Halt opSelfdestruct"
  "op_execute (newIstanbulInstructionSet CREATE) = Creation opCreate"
  "op_execute (newIstanbulInstructionSet CREATE2) = Creation opCreate2"
  "op_execute (newIstanbulInstructionSet STOP) = Halt opStop"
proof -
  have "same_exec (setConstantGas EXTCODEHASH ExtcodeHashGasEIP1884 \<circ> setConstantGas BALANCE BalanceGasEIP1884 \<circ>
       setConstantGas SLOAD SloadGasEIP1884)"
    by (intro same_exec_comp same_exec_set)
  then have "op_execute (enable1884 jt b) = (if b = SELFBALANCE then Access opSelfBalance else op_execute (jt b))" for jt b
    by (simp add: enable1884_def same_exec_def del: comp_apply)
  then have "op_execute (newIstanbulInstructionSet b) =
      (if b = SELFBALANCE then Access opSelfBalance else if b = CHAINID then Environment opChainID
       else op_execute (newConstantinopleInstructionSet b))" for b
    by (simp add: newIstanbulInstructionSet_def enable2200_def enable1344_def)
  then show "op_execute (newIstanbulInstructionSet SLOAD) = Access opSload"
    "op_execute (newIstanbulInstructionSet SSTORE) = Store opSstore"
    "op_execute (newIstanbulInstructionSet BALANCE) = Access opBalance"
    "op_execute (newIstanbulInstructionSet EXTCODESIZE) = Access opExtCodeSize"
    "op_execute (newIstanbulInstructionSet EXTCODEHASH) = Access opExtCodeHash"
    "op_execute (newIstanbulInstructionSet EXTCODECOPY) = CopyTo opExtCodeCopy"
    "op_execute (newIstanbulInstructionSet CALL) = Calling opCall"
    "op_execute (newIstanbulInstructionSet CALLCODE) = Calling opCallCode"
    "op_execute (newIstanbulInstructionSet DELEGATECALL) = Calling opDelegateCall"
    "op_execute (newIstanbulInstructionSet STATICCALL) = Calling opStaticCall"
    "op_execute (newIstanbulInstructionSet SELFDESTRUCT) = Halt opSelfdestruct"
    "op_execute (newIstanbulInstructionSet CREATE) = Creation opCreate"
    "op_execute (newIstanbulInstructionSet CREATE2) = Creation opCreate2"
    "op_execute (newIstanbulInstructionSet STOP) = Halt opStop"
    by (simp_all add: newConstantinopleInstructionSet_def newByzantiumInstructionSet_def
        newSpuriousDragonInstructionSet_def tangerine_exec newHomesteadInstructionSet_def frontier_exec)
qed

lemma subnet_gas: "gas_ok False (newSubnetEVMInstructionSet b)"
proof (cases "b = BASEFEE")
  case True
  then show ?thesis by (simp add: newSubnetEVMInstructionSet_def enable3198_def gas_ok_def)
next
  case False
  then have eq: "newSubnetEVMInstructionSet b = enable2929 newIstanbulInstructionSet b"
    by (simp add: newSubnetEVMInstructionSet_def enable3198_def)
  show ?thesis
  proof (cases "b \<in> repriced")
    case True
    then show ?thesis
      unfolding eq enable2929_def comp_assoc
      by (simp only: comp_setGas) (auto simp: repriced_def gas_ok_def istanbul_exec)
  next
    case False
    then have "newSubnetEVMInstructionSet b = newIstanbulInstructionSet b"
      unfolding eq enable2929_def comp_assoc
      by (simp only: comp_setGas) (auto simp: repriced_def)
    with istanbul_gas [OF False] show ?thesis by simp
  qed
qed

lemma subnet_exec: "op_execute (newSubnetEVMInstructionSet b) =
    (if b = BASEFEE then Environment opBaseFee else op_execute (newIstanbulInstructionSet b))"
proof -
  have "same_exec (\<lambda>jt. enable2929 jt)"
    unfolding enable2929_def by (intro same_exec_comp same_exec_set)
  then show ?thesis by (simp add: newSubnetEVMInstructionSet_def enable3198_def same_exec_def)
qed

lemma gas_ok_blobs: "gas_ok False oper \<Longrightarrow> gas_ok blobs oper"
  by (simp add: gas_ok_def)

lemma durango_gas: "gas_ok False (newDurangoInstructionSet b)"
proof -
  have exec: "op_execute (newSubnetEVMInstructionSet CREATE) = Creation opCreate"
    "op_execute (newSubnetEVMInstructionSet CREATE2) = Creation opCreate2"
    by (simp_all add: subnet_exec istanbul_exec)
  with subnet_gas [of CREATE] subnet_gas [of CREATE2]
  have "op_constantGas (newSubnetEVMInstructionSet CREATE) \<noteq> 0" "op_constantGas (newSubnetEVMInstructionSet CREATE2) \<noteq> 0"
    by (simp_all add: gas_ok_def)
  moreover consider "b = CREATE" | "b = CREATE2" | "b = PUSH0" | "b \<noteq> CREATE" "b \<noteq> CREATE2" "b \<noteq> PUSH0" by blast
  then have "b = CREATE \<or> b = CREATE2 \<or> b = PUSH0 \<or> newDurangoInstructionSet b = newSubnetEVMInstructionSet b"
    by (auto simp: newDurangoInstructionSet_def enable3860_def enable3855_def)
  ultimately show ?thesis
    using exec subnet_gas [of b]
    by (elim disjE) (simp_all add: newDurangoInstructionSet_def enable3860_def enable3855_def gas_ok_def)
qed

lemma cancun_gas: "gas_ok True (newCancunInstructionSet b)"
proof -
  have "b \<in> {SELFDESTRUCT, MCOPY, TLOAD, TSTORE, BLOBBASEFEE, BLOBHASH} \<or> newCancunInstructionSet b = newDurangoInstructionSet b"
    by (auto simp: newCancunInstructionSet_def enable6780_def enable5656_def enable1153_def enable7516_def enable4844_def)
  then show ?thesis
    using gas_ok_blobs [OF durango_gas [of b], of True]
    by (elim disjE insertE emptyE)
       (simp_all add: newCancunInstructionSet_def enable6780_def enable5656_def enable1153_def enable7516_def enable4844_def,
        simp_all add: gas_ok_def)
qed

text \<open>The instructions since the Subnet EVM upgrade.\<close>

lemma instructionSet_ok:
  assumes "ar_IsSubnetEVM (r_AvalancheRules rules)"
  shows "shape_ok (instructionSet rules b)" "gas_ok (er_IsCancun (r_EthRules rules)) (instructionSet rules b)"
    "op_execute (instructionSet rules STOP) = Halt opStop"
proof -
  have "op_execute (newSubnetEVMInstructionSet STOP) = Halt opStop"
    "op_execute (newDurangoInstructionSet STOP) = Halt opStop" "op_execute (newCancunInstructionSet STOP) = Halt opStop"
    by (simp_all add: newCancunInstructionSet_def enable6780_def enable5656_def enable1153_def enable7516_def enable4844_def
        newDurangoInstructionSet_def enable3860_def enable3855_def subnet_exec istanbul_exec)
  then show "shape_ok (instructionSet rules b)" "gas_ok (er_IsCancun (r_EthRules rules)) (instructionSet rules b)"
    "op_execute (instructionSet rules STOP) = Halt opStop"
    using assms table_shapes subnet_gas durango_gas cancun_gas
    by (auto simp: instructionSet_def Let_def table_shape_def)
qed

end
