(* ===== verification/Spec2Isabelle.thy ===== *)
theory Spec2Isabelle
  imports ExamplesPrecompiles ExamplesTrie EvmCoins EvmNative EvmOps
begin

text \<open>
  Subnet EVM is an EVM chain that runs as a subnet of Avalanche. A node verifies headers and the fees that
  blocks pay (consensus), applies the upgrades of a block and its transactions to the world state, and
  keeps the accounts and their storage in Merkle tries. Stateful precompiles, contracts that are part of the
  node, let the operators of a chain decide who may transact, deploy, mint, set fees and earn rewards. Which
  rules hold at a block follows from the chain configuration and the time of the block.

  \<^bold>\<open>Theories and sources.\<close>
  \<^item> Prelude: machine integers, byte strings, the third-party helpers of go-ethereum as the record
    \<open>geth\<close> with their laws \<open>geth_ok\<close>.
  \<^item> FeeConfig, NetworkUpgrades, AllowListConfig, PrecompileConfig, Modules, ChainConfig: the configuration
    (commontype/fee_config.go, params/*.go, precompile/allowlist, precompile/modules, config.go of every
    precompile). UpgradeSchedule shows which precompile upgrades a verified schedule activates, and
    Compatibility when a node may restart with a changed configuration. CompatibilityRewind shows what the
    error means otherwise: the highest block or the latest time without a conflict.
  \<^item> Types, Blocks: headers, transactions, logs, receipts, blooms (core/types). DynamicFees, Eip4844,
    Consensus: base fee, block gas cost, blob gas, and the engine of consensus/dummy.
  \<^item> AccessLists, StateDB: the world state of core/state with its caches, journal, snapshots and Finalise.
    StateView is the state without its caches; StateJournal and StateSnapshots show that reverting undoes
    whatever happened since a snapshot; StateEffects and StateFinalise give the effect of every setter.
  \<^item> Abi, AbiRoundTrip: the contract ABI (accounts/abi), and that unpacking inverts packing.
  \<^item> Contract, AllowList, FeeManager, NativeMinter, RewardManager: the stateful precompiles
    (precompile/contract, precompile/allowlist, precompile/contracts), written against the interface
    \<open>contractState\<close>. The locale \<open>contract_state\<close> is the contract of that interface; ContractState
    interprets it on the world state. Upgrades, UpgradeEffects: ApplyUpgrades of core/state_processor.go and
    the package stateupgrade. Precompiles: sequences of calls by arbitrary callers.
  \<^item> TrieEncoding, TrieNode, Trie, TrieHash, TrieCommit: the Merkle trie (trie/*.go). TrieSpec is the trie
    as an abstract tree, TrieCodec its stored form, TrieRefine the simulation between the two, and TrieMap
    the locale \<open>key_value\<close> of a map, interpreted on the trie.
  \<^item> PredicateBytes, Warp: predicates in access lists (predicate/*.go) and the warp precompile
    (precompile/contracts/warp). EvmCode, EvmMachine, EvmTable, EvmGas, EvmContracts, Evm: the virtual machine
    (core/vm) from the code analysis up to Call, Create and the interpreter. EvmState: what the virtual
    machine relies on of the world state. EvmCoins: transfers and self-destructs move coins and create none.
    EvmNative: the native contracts return. EvmOps: the jump tables, the stack and the gas of each operation.
  \<^item> Examples, ExamplesPrecompiles, ExamplesTrie: concrete chains, states and tries on which the properties
    below are evaluated.

  \<^bold>\<open>How code corresponds to definitions.\<close> A function or method of the source is a definition of the same
  name, prefixed by its type where two share a name. State is passed and returned; an \<open>error\<close> result is an
  option, a value with an error a sum whose left side is the error, and a panic the \<open>None\<close> of an option.
  A nilable pointer is an option. uint64 and the other fixed widths are words, with the wrap-around of Go.
  Maps that a loop visits are lists in the order of the visit, other maps are functions to options.

  \<^bold>\<open>What the properties show.\<close> C1 and C2 are about the world state, C3 to C14 about the precompiles and
  the upgrades that activate them, C15 to C21 about the tries, C22 and C23 about the virtual machine and
  predicates, C24 to C29 about fees and consensus, C30 to C33 about upgrade schedules and compatibility, and
  the others about registries, configurations, blooms and transactions. Where a property has hypotheses, the
  theorem after it applies it to a concrete input.

  \<^bold>\<open>Parameters and bounds.\<close> Third-party code is an argument: the hash and helpers of go-ethereum
  (\<open>geth\<close>), the RLP codec (\<open>rlp\<close>, laws \<open>rlp_ok\<close>, for contents shorter than \<open>2 ^ 32\<close> bytes), the
  database below the world state (\<open>backend\<close>, \<open>database_ok\<close>, \<open>code_sizes_ok\<close>) and below a trie (a node reader). The trie
  properties are for keys shorter than \<open>2 ^ 14\<close> and values shorter than \<open>2 ^ 31\<close> bytes, which keeps every
  node within the bound of the codec. The decoder of nodes recurses at most as deep as its input is long,
  which is its fuel; the operations of a trie are partial functions, and the properties show that they
  return. sort.Search, fakeExponential and the scan of CheckCompatible are shown to terminate.

  \<^bold>\<open>Not modelled.\<close> Networking, synchronisation, RPC, the transaction pools, the databases and the caches
  above them are concurrent or I/O code around what is modelled; their data structures are in the manifest
  with the reason for each. JSON and RLP codecs of the records, text output, metrics and tracing change no
  state. The tries are modelled without iterators, proofs and the stack trie.
\<close>

text \<open>
  C1: Snapshot and RevertToSnapshot. Whatever operations run after a snapshot, reverts to later snapshots
  included, the revert to it does not panic and restores the state as every getter sees it, the journal
  and the list of valid snapshots.
\<close>

theorem RevertToSnapshot_restores:
  assumes "state_ok B s" and "exec_ops B (snd (Snapshot s)) ops = Some t"
    and "\<forall>i. DoRevertToSnapshot i \<in> set ops \<longrightarrow> fst (Snapshot s) < i"
  shows "\<exists>t'. RevertToSnapshot B t (fst (Snapshot s)) = Some t' \<and> view B t' = view B s \<and>
    j_entries (sdb_journal t') = j_entries (sdb_journal s) \<and>
    sdb_validRevisions t' = sdb_validRevisions s \<and> state_ok B t'"
  using revert_restores [of B s ops t] assms by blast

theorem RevertToSnapshot_restores_witness:
  "\<exists>t t'. exec_ops ex_backend (snd (Snapshot NewStateDB))
       [DoAddBalance 1 100, DoSnapshot, DoSetState 1 2 3, DoSelfDestruct 1, DoCreateAccount 1] = Some t \<and>
     RevertToSnapshot ex_backend t (fst (Snapshot (NewStateDB :: unit StateDB))) = Some t' \<and>
     view ex_backend t' = view ex_backend NewStateDB"
proof -
  let ?ops = "[DoAddBalance 1 100, DoSnapshot, DoSetState 1 2 3, DoSelfDestruct 1, DoCreateAccount 1]"
  have "live_ok ex_backend (snd (Snapshot NewStateDB))" "al_wf (sdb_accessList (snd (Snapshot NewStateDB)))"
    by (simp_all add: Snapshot_def Let_def NewStateDB_def live_ok_def)
  from exec_ops_total [OF this, of ?ops] obtain t where
    "exec_ops ex_backend (snd (Snapshot NewStateDB)) ?ops = Some t" by auto
  with RevertToSnapshot_restores [of ex_backend NewStateDB ?ops t] show ?thesis by auto
qed

text \<open>
  C2: The getters of an account refine functions of the view: on a well-formed state what they return depends on
  the view alone, and the caches they fill do not change it. GetCodeSize needs that the size the database
  gives of a code is its length.
\<close>

theorem getters_read_view:
  "reads B (\<lambda>s. Exist B s a) (\<lambda>v. account_at v a \<noteq> None) \<and>
   reads B (\<lambda>s. Empty B s a)
      (\<lambda>v. case account_at v a of None \<Rightarrow> True
           | Some ov \<Rightarrow> sa_Nonce (ov_data ov) = 0 \<and> sa_Balance (ov_data ov) = 0 \<and> sa_CodeHash (ov_data ov) = EmptyCodeHash B) \<and>
   reads B (\<lambda>s. GetBalance B s a) (\<lambda>v. balance_at v a) \<and>
   reads B (\<lambda>s. GetNonce B s a) (\<lambda>v. nonce_at v a) \<and>
   reads B (\<lambda>s. GetStorageRoot B s a)
      (\<lambda>v. case account_at v a of None \<Rightarrow> 0 | Some ov \<Rightarrow> sa_Root (ov_data ov)) \<and>
   reads B (\<lambda>s. GetState B s a key) (\<lambda>v. state_at v a key) \<and>
   reads B (\<lambda>s. GetCommittedState B s a key)
      (\<lambda>v. case account_at v a of None \<Rightarrow> 0 | Some ov \<Rightarrow> ov_committed ov key) \<and>
   reads B (\<lambda>s. GetCode B s a) (\<lambda>v. case account_at v a of None \<Rightarrow> None | Some ov \<Rightarrow> ov_code ov) \<and>
   reads B (\<lambda>s. GetCodeHash B s a)
      (\<lambda>v. case account_at v a of None \<Rightarrow> 0 | Some ov \<Rightarrow> sa_CodeHash (ov_data ov)) \<and>
   reads B (\<lambda>s. HasSelfDestructed B s a)
      (\<lambda>v. case account_at v a of None \<Rightarrow> False | Some ov \<Rightarrow> ov_selfDestructed ov) \<and>
   (code_sizes_ok B \<longrightarrow>
      reads B (\<lambda>s. GetCodeSize B s a)
        (\<lambda>v. case account_at v a of None \<Rightarrow> 0
             | Some ov \<Rightarrow> (case ov_code ov of None \<Rightarrow> 0 | Some code \<Rightarrow> length code)))"
  unfolding balance_at_def nonce_at_def state_at_def
  by (intro conjI impI Exist_reads Empty_reads GetBalance_reads GetNonce_reads GetStorageRoot_reads GetState_reads
      GetCommittedState_reads GetCode_reads GetCodeHash_reads HasSelfDestructed_reads GetCodeSize_reads)

theorem getters_read_view_witness:
  "fst (GetCodeSize ex_backend NewStateDB 7) = 0 \<and>
   view ex_backend (snd (GetCodeSize ex_backend NewStateDB 7)) = view ex_backend NewStateDB \<and>
   fst (Empty ex_backend NewStateDB 7)"
proof -
  have "live_ok ex_backend NewStateDB" by (simp add: live_ok_def NewStateDB_def)
  moreover have "code_sizes_ok ex_backend" by (simp add: code_sizes_ok_def ex_backend_def)
  moreover have "account_at (view ex_backend NewStateDB) 7 = None" by simp
  ultimately show ?thesis using getters_read_view [of ex_backend 7] by (simp add: reads_def)
qed

text \<open>
  C3: Access control of the precompiles. Any call of the tx allow list, the deployer allow list, the fee
  manager, the native minter or the reward manager, with any input, gas and caller, keeps the state
  well-formed and does not create gas. A read-only call changes nothing. A role changes only if the caller's
  role can make that change, and a caller without a role changes nothing, not even the logs.
\<close>

theorem precompile_access_control:
  assumes "geth_ok G" and "precompileContractOf G (stateDB_iface B) k = Some c" and "state_inv B s"
    and "Contract_Run c E s caller addr input gas readOnly = (ret, gas', err, s')"
  shows "state_inv B s' \<and> unat gas' \<le> unat gas \<and> (readOnly \<longrightarrow> state_obs B s' = state_obs B s) \<and>
    (\<forall>a. role_of (state_obs B s') (configuratorAddress k) a \<noteq> role_of (state_obs B s) (configuratorAddress k) a \<longrightarrow>
       CanModify (role_of (state_obs B s) (configuratorAddress k) caller) (role_of (state_obs B s) (configuratorAddress k) a)
         (role_of (state_obs B s') (configuratorAddress k) a)) \<and>
    (\<not> IsEnabled (role_of (state_obs B s) (configuratorAddress k) caller) \<longrightarrow> state_obs B s' = state_obs B s)"
  using sdb.precompile_call [OF assms] by (simp add: role_guard_def outsider_guard_def)

theorem precompile_access_control_witness:
  "\<exists>c ret gas' err s'. precompileContractOf ex_geth (stateDB_iface ex_backend) TxAllowListConfigurator = Some c \<and>
     Contract_Run c ex_env ex_admin_state 2 txAllowList_ContractAddress (be_bytes 4 1644 @ be_bytes 32 2) 100000 False =
       (ret, gas', err, s') \<and>
     state_obs ex_backend s' = state_obs ex_backend ex_admin_state"
proof -
  obtain c where c: "precompileContractOf ex_geth (stateDB_iface ex_backend) TxAllowListConfigurator = Some c"
    using ex_contracts(1) by blast
  obtain ret gas' err s' where r: "Contract_Run c ex_env ex_admin_state 2 txAllowList_ContractAddress
      (be_bytes 4 1644 @ be_bytes 32 2) 100000 False = (ret, gas', err, s')" by (metis prod.exhaust)
  have "\<not> IsEnabled (role_of (state_obs ex_backend ex_admin_state) txAllowList_ContractAddress 2)"
    by (simp add: ex_admin(2) IsEnabled_def NoRole_def AdminRole_def ManagerRole_def EnabledRole_def)
  with precompile_access_control [OF geth_ok_ex c ex_admin(1) r] c r show ?thesis by auto
qed



text \<open>
  C5: Privileges cannot be gained from below: if no caller of a sequence of precompile calls is an admin or a
  manager of any allow list, all roles of all lists are the same afterwards.
\<close>

theorem no_privilege_escalation:
  assumes "geth_ok G" and "state_inv B s" and "precompile_calls G B callers s s'"
    and "\<And>k caller. caller \<in> callers \<Longrightarrow>
      role_of (state_obs B s) (configuratorAddress k) caller \<in> {NoRole, EnabledRole}"
  shows "\<forall>k a. role_of (state_obs B s') (configuratorAddress k) a = role_of (state_obs B s) (configuratorAddress k) a"
  using unprivileged_keep_roles [OF assms] by simp

theorem no_privilege_escalation_witness:
  "\<exists>s'. precompile_calls ex_geth ex_backend {2} NewStateDB s' \<and>
     role_of (state_obs ex_backend s') txAllowList_ContractAddress 2 = NoRole"
proof -
  obtain c where c: "precompileContractOf ex_geth (stateDB_iface ex_backend) TxAllowListConfigurator = Some c"
    using ex_contracts(1) by blast
  obtain ret gas' err s' where r: "Contract_Run c ex_env NewStateDB 2 txAllowList_ContractAddress
      (be_bytes 4 1644 @ be_bytes 32 2) 100000 False = (ret, gas', err, s')" by (metis prod.exhaust)
  have calls: "precompile_calls ex_geth ex_backend {2} NewStateDB s'"
    by (rule a_call [OF no_call c _ r]) simp
  with no_privilege_escalation [OF geth_ok_ex ex_inv calls] show ?thesis
    by (auto dest!: spec [of _ TxAllowListConfigurator])
qed

text \<open>
  C6: A role change that the role of the caller allows goes through: with enough gas and an argument that
  decodes, the setter succeeds, stores the new role, logs the change after Durango and uses exactly its cost.
\<close>

theorem admin_sets_role:
  assumes "geth_ok G" and "state_inv B s" and "modifyCost E \<le> unat gas"
    and "UnpackModifyAllowListInput G input role (\<not> IsDurangoActivated E) = Inr account"
    and "CanModify (role_of (state_obs B s) pa caller) (role_of (state_obs B s) pa account) role"
  shows "\<exists>gas' s'. createAllowListRoleSetter G (stateDB_iface B) pa role E s caller addr input gas False = ([], gas', None, s') \<and>
    unat gas' + modifyCost E = unat gas \<and> state_inv B s' \<and>
    state_obs B s' = roleSetObs G E pa role account caller (state_obs B s)"
proof -
  obtain gas' s' where r: "createAllowListRoleSetter G (stateDB_iface B) pa role E s caller addr input gas False = ([], gas', None, s')"
    using sdb.setter_succeeds [OF assms] by blast
  with sdb.setter_outcome [OF assms(1,2) r] assms(4) show ?thesis by auto
qed

theorem admin_sets_role_witness:
  "\<exists>gas' s'. createAllowListRoleSetter ex_geth (stateDB_iface ex_backend) txAllowList_ContractAddress EnabledRole ex_env
       ex_admin_state 1 txAllowList_ContractAddress (replicate 12 0 @ addressBytes 7) 50000 False = ([], gas', None, s') \<and>
     role_of (state_obs ex_backend s') txAllowList_ContractAddress 7 = EnabledRole"
proof -
  have m: "UnpackModifyAllowListInput ex_geth (replicate 12 0 @ addressBytes 7) EnabledRole (\<not> IsDurangoActivated ex_env) = Inr 7"
    by (rule ex_unpack)
  have c: "CanModify (role_of (state_obs ex_backend ex_admin_state) txAllowList_ContractAddress 1)
      (role_of (state_obs ex_backend ex_admin_state) txAllowList_ContractAddress 7) EnabledRole"
    by (simp add: ex_admin(2) CanModify_iff IsAdmin_def)
  have "modifyCost ex_env \<le> unat (50000 :: u64)" by (simp add: modifyCost_def)
  from admin_sets_role [OF geth_ok_ex ex_admin(1) this m c] show ?thesis
    by (fastforce simp: roleSetObs_def)
qed

text \<open>
  C7: The roles after the precompile upgrades of a block. For every module the roles are those before, changed
  by its activating configurations in order: a configuration that disables the module clears all roles, also
  when another enables it again in the same block, and one that enables it adds the roles it lists. The
  upgrades of one module do not touch the roles of another.
\<close>

theorem activation_roles:
  assumes "calm B s" and "\<forall>k. module_ok (state_obs B s) (configuratorAddress k)"
    and "ApplyPrecompileActivations B (registeredModules contractOf) c parentTime bc s = (None, s')"
  shows "calm B s' \<and> (\<forall>k. module_ok (state_obs B s') (configuratorAddress k)) \<and>
    role_of (state_obs B s') (configuratorAddress k) =
      foldl rolesAfter (role_of (state_obs B s) (configuratorAddress k))
        (GetActivatingPrecompileConfigs (registeredModules contractOf) c (configuratorAddress k) parentTime (bc_Timestamp bc)
          (cc_PrecompileUpgrades c))"
  using assms by (rule ApplyPrecompileActivations_roles)

theorem activation_roles_witness:
  "\<exists>s'. ApplyPrecompileActivations ex_backend (registeredModules (\<lambda>_. ())) ex_config2 (Some 100)
       \<lparr>bc_Number = Some 1, bc_Timestamp = 160\<rparr> NewStateDB = (None, s') \<and>
     role_of (state_obs ex_backend s') txAllowList_ContractAddress 1 = EnabledRole"
proof -
  let ?bc = "\<lparr>bc_Number = Some 1, bc_Timestamp = 160\<rparr>"
  obtain s' where s': "ApplyPrecompileActivations ex_backend (registeredModules (\<lambda>_. ())) ex_config2 (Some 100) ?bc NewStateDB = (None, s')"
    using ex_activations_succeed by blast
  with activation_roles [OF ex_calm _ s', of TxAllowListConfigurator] ex_activating2 show ?thesis
    by (simp add: rolesAfter_def configuredRoles_def listedRoles_def txAllowList_NewConfig_def Config_IsDisabled_def
        Upgrade_IsDisabled_def NewAllowListConfig_def)
qed

text \<open>
  C8: ApplyPrecompileActivations cannot fail on a verified configuration: if the precompile upgrades and the
  fee configuration verify, the genesis configurations are filed under their keys and the block has a number,
  no Configure of a module returns an error.
\<close>

theorem upgrades_never_fail:
  assumes "calm B s" and "\<forall>k. module_ok (state_obs B s) (configuratorAddress k)"
    and "verifyPrecompileUpgrades c = None" and "distinct (map fst (cc_GenesisPrecompiles c))"
    and "\<And>key config. (key, config) \<in> set (cc_GenesisPrecompiles c) \<Longrightarrow> Config_Key config = key"
    and "FeeConfig_Verify (cc_FeeConfig c) = None" and "bc_Number bc = Some n"
  shows "\<exists>s'. ApplyPrecompileActivations B (registeredModules contractOf) c parentTime bc s = (None, s')"
  using assms by (rule ApplyPrecompileActivations_succeeds)

theorem upgrades_never_fail_witness:
  "\<exists>s'. ApplyPrecompileActivations ex_backend (registeredModules (\<lambda>_. ())) ex_config2 (Some 100)
       \<lparr>bc_Number = Some 1, bc_Timestamp = 160\<rparr> NewStateDB = (None, s')"
  by (rule upgrades_never_fail [OF ex_calm _ ex_config2_verifies _ _ ex_config2_fee]) simp_all

text \<open>
  C9: upgradeAccount does to an account exactly what the upgrade lists: the account exists afterwards, the
  balance change is added, under EIP-158 new code raises a nonce of zero to one, the code and the listed
  storage slots are set. All other accounts keep their state and code.
\<close>

theorem state_upgrade_effect:
  assumes "calm B s"
  shows "calm B (upgradeAccount B a u isEIP158 s) \<and>
    state_obs B (upgradeAccount B a u isEIP158 s) = upgradedObs a u isEIP158 (state_obs B s) \<and>
    (\<forall>b. code_at (view B (upgradeAccount B a u isEIP158 s)) b =
       (if b = a then upgradedCode u (code_at (view B s) a) else code_at (view B s) b))"
  using upgradeAccount_law [OF assms, of a u isEIP158] by (simp add: only_code_def)

theorem state_upgrade_effect_witness:
  "ob_balance (state_obs ex_backend (upgradeAccount ex_backend 5
       \<lparr>sua_Code = Some [1, 2], sua_Storage = Some [(1, 2)], sua_BalanceChange = Some 100\<rparr> True NewStateDB)) 5 = 100 \<and>
   ob_nonce (state_obs ex_backend (upgradeAccount ex_backend 5
       \<lparr>sua_Code = Some [1, 2], sua_Storage = Some [(1, 2)], sua_BalanceChange = Some 100\<rparr> True NewStateDB)) 5 = 1"
  using state_upgrade_effect [OF ex_calm, of 5
      "\<lparr>sua_Code = Some [1, 2], sua_Storage = Some [(1, 2)], sua_BalanceChange = Some 100\<rparr>" True]
  by (simp add: upgradedObs_def)

text \<open>
  C10: The methods of the world state refine their abstract specification on what a precompile observes: each
  setter updates one entry of the observation, each getter returns the entry and changes nothing, whatever
  objects and slots the caches hold.
\<close>

theorem state_implements_interface:
  assumes "state_inv B s"
  shows "state_obs B (SetState B s a k v) = put_slot (state_obs B s) a k v \<and>
    state_obs B (AddBalance B s a b) = add_balance (state_obs B s) a b \<and>
    state_obs B (SetNonce B s a n) =
      (state_obs B s)\<lparr>ob_nonce := (ob_nonce (state_obs B s))(a := n), ob_exist := (ob_exist (state_obs B s))(a := True)\<rparr> \<and>
    state_obs B (CreateAccount B s a) =
      (state_obs B s)\<lparr>ob_slot := (ob_slot (state_obs B s))(a := (\<lambda>_. 0)), ob_nonce := (ob_nonce (state_obs B s))(a := 0),
        ob_exist := (ob_exist (state_obs B s))(a := True)\<rparr> \<and>
    state_obs B (AddLog s a topics data num) = add_log (state_obs B s) (a, topics, data, num) \<and>
    fst (GetState B s a k) = ob_slot (state_obs B s) a k \<and> state_obs B (snd (GetState B s a k)) = state_obs B s \<and>
    fst (GetNonce B s a) = ob_nonce (state_obs B s) a \<and> fst (GetBalance B s a) = ob_balance (state_obs B s) a \<and>
    fst (Exist B s a) = ob_exist (state_obs B s) a"
  using sdb.setter_laws [OF assms, of a] sdb.getter_laws [OF assms surjective_pairing, of a]
  by (simp add: stateDB_iface_def put_slot_def add_balance_def add_log_def)

theorem state_implements_interface_witness:
  "ob_slot (state_obs ex_backend (SetState ex_backend NewStateDB 1 2 3)) 1 2 = 3"
  using state_implements_interface [OF ex_inv, of 1 2 3] by (simp add: put_slot_def)

text \<open>
  C11: The ABI codec. Arguments of well-formed types with values of these types are packed without an error, and
  unpacking the encoding gives the values back, also when other bytes follow it.
\<close>

theorem abi_roundtrip:
  assumes "geth_ok G" and "arguments_ok args vs" and "args \<noteq> []"
  shows "\<exists>data. Arguments_Pack G args vs = Inr data \<and>
    (length data + length rest < 2 ^ 63 \<longrightarrow> Arguments_Unpack args (data @ rest) = Inr vs)"
  using Arguments_roundtrip [OF assms(1,2), of rest] assms(3) by auto

theorem abi_roundtrip_witness:
  "\<exists>data. Arguments_Pack ex_geth [inputArg ''to'' AddressTy, inputArg ''memo'' BytesTy] [GoAddress 5, GoBytes [1, 2, 3]] = Inr data \<and>
     (length data < 2 ^ 63 \<longrightarrow>
       Arguments_Unpack [inputArg ''to'' AddressTy, inputArg ''memo'' BytesTy] data = Inr [GoAddress 5, GoBytes [1, 2, 3]])"
  using abi_roundtrip [OF geth_ok_ex, of "[inputArg ''to'' AddressTy, inputArg ''memo'' BytesTy]"
      "[GoAddress 5, GoBytes [1, 2, 3]]" "[]"]
  by (simp add: arguments_ok_def)

text \<open>
  C12: A fee configuration that verifies is stored in the state and read back unchanged, with the number of the
  block that stored it, and the roles of the allow list, which share the storage, are not touched.
\<close>

theorem fee_config_stored:
  assumes "state_inv B s" and "FeeConfig_Verify c = None" and "bc_Number bc = Some n" and "0 \<le> n" and "n < 2 ^ 256"
  shows "\<exists>s'. StoreFeeConfig (stateDB_iface B) s c bc = (None, s') \<and>
    fst (GetStoredFeeConfig (stateDB_iface B) s') = c \<and>
    fst (GetFeeConfigLastChangedAt (stateDB_iface B) s') = n \<and>
    (\<forall>pa a. role_of (state_obs B s') pa a = role_of (state_obs B s) pa a)"
proof -
  obtain e s' where st: "StoreFeeConfig (stateDB_iface B) s c bc = (e, s')" by force
  from sdb.StoreFeeConfig_law [OF assms(1) st] assms(2,3)
  have l: "e = None" "state_inv B s'" "state_obs B s' = storeObs c n (state_obs B s)" by auto
  have "fst (GetStoredFeeConfig (stateDB_iface B) s') = c"
    using sdb.GetStoredFeeConfig_law [OF l(2) surjective_pairing] l(3) assms(2) by (simp add: FeeConfig_Verify_iff_ok loaded_storeObs)
  moreover have "fst (GetFeeConfigLastChangedAt (stateDB_iface B) s') = n"
    using sdb.GetFeeConfigLastChangedAt_law [OF l(2) surjective_pairing] l(3) assms(4,5)
    by (simp add: storeObs_def put_slot_def uint_BigToHash)
  ultimately show ?thesis using st l by simp
qed

theorem fee_config_stored_witness:
  "\<exists>s'. StoreFeeConfig (stateDB_iface ex_backend) NewStateDB DefaultFeeConfig \<lparr>bc_Number = Some 7, bc_Timestamp = 0\<rparr> = (None, s') \<and>
     fst (GetStoredFeeConfig (stateDB_iface ex_backend) s') = DefaultFeeConfig"
  using fee_config_stored [OF ex_inv DefaultFeeConfig_ok, of "\<lparr>bc_Number = Some 7, bc_Timestamp = 0\<rparr>" 7] by auto

text \<open>
  C13: Minting. A failed call has no effect. A successful one was made by an enabled caller outside a read-only
  context, adds the amount of its input to the balance of the address of its input and to no other, logs the
  event after Durango and uses exactly its cost.
\<close>

theorem mint_effect:
  assumes "geth_ok G" and "state_inv B s"
    and "mintNativeCoin G (stateDB_iface B) E s caller addr input gas readOnly = (ret, gas', err, s')"
  shows "state_inv B s' \<and> unat gas' \<le> unat gas \<and> ret = [] \<and>
    (case err of
       Some _ \<Rightarrow> state_obs B s' = state_obs B s
     | None \<Rightarrow> \<not> readOnly \<and> IsEnabled (role_of (state_obs B s) nativeMinter_ContractAddress caller) \<and>
         unat gas' + mintCost E = unat gas \<and>
         (\<exists>to n. UnpackMintNativeCoinInput G input (\<not> IsDurangoActivated E) = Inr (to, n) \<and>
            state_obs B s' = mintObs G E caller to n (state_obs B s)))"
  using sdb.mint_outcome [OF assms] by (simp split: option.split)

theorem mint_effect_witness:
  "\<exists>ret gas' err s'. mintNativeCoin ex_geth (stateDB_iface ex_backend) ex_env NewStateDB 2 nativeMinter_ContractAddress
       (be_bytes 64 5) 100000 False = (ret, gas', err, s') \<and> state_obs ex_backend s' = state_obs ex_backend NewStateDB"
proof -
  obtain ret gas' err s' where r: "mintNativeCoin ex_geth (stateDB_iface ex_backend) ex_env NewStateDB 2 nativeMinter_ContractAddress
       (be_bytes 64 5) 100000 False = (ret, gas', err, s')" by (metis prod.exhaust)
  have "\<not> IsEnabled NoRole" by (simp add: IsEnabled_def NoRole_def AdminRole_def ManagerRole_def EnabledRole_def)
  with mint_effect [OF geth_ok_ex ex_inv r] r show ?thesis by (auto split: option.splits)
qed

text \<open>
  C14: The reward manager stores its mode in one slot: reading it back gives the stored address, or that fee
  recipients are allowed, or the blackhole address when rewards are disabled, and no address is mistaken for
  the value that allows fee recipients.
\<close>

theorem reward_modes:
  assumes "state_inv B s"
  shows "fst (GetStoredRewardAddress (stateDB_iface B) (StoreRewardAddress (stateDB_iface B) s a)) = (a, False) \<and>
    snd (fst (GetStoredRewardAddress (stateDB_iface B) (EnableAllowFeeRecipients (stateDB_iface B) s))) \<and>
    fst (GetStoredRewardAddress (stateDB_iface B) (DisableFeeRewards (stateDB_iface B) s)) = (BlackholeAddr, False)"
proof -
  note st = sdb.store_laws [OF assms]
  note get = sdb.GetStoredRewardAddress_law [OF _ surjective_pairing]
  from st(3) [of a] get [of B "StoreRewardAddress (stateDB_iface B) s a"] st(1) get [of B "EnableAllowFeeRecipients (stateDB_iface B) s"]
    st(2) get [of B "DisableFeeRewards (stateDB_iface B) s"]
  show ?thesis by (simp add: stored_reward_put)
qed

theorem reward_modes_witness:
  "fst (GetStoredRewardAddress (stateDB_iface ex_backend) (StoreRewardAddress (stateDB_iface ex_backend) NewStateDB 9)) = (9, False)"
  using reward_modes [OF ex_inv, of 9] by simp

text \<open>
  C15: A trie is a map. Get, Update and Delete, in any order and number, return without error and answer as a
  map from byte strings to byte strings does, an update with the empty value being a deletion; the nodes
  they have to load are decoded from their stored encodings.
\<close>

theorem trie_refines_map:
  assumes "trie_holds L G T m" and "list_all trie_admits ops"
  shows "\<exists>T'. kv_run (Get L) (Update L) (Delete L) T ops = Some (T', kv_answers m ops) \<and>
    trie_holds L G T' (foldl kv_apply m ops)"
  using mpt.run_law [OF assms] .

theorem trie_refines_map_witness:
  "\<exists>T'. kv_run (Get rlp_ref) (Update rlp_ref) (Delete rlp_ref) ex_empty_trie
       [KvUpdate [1] [2], KvUpdate [1, 3] [4], KvGet [1], KvDelete [1], KvGet [1], KvGet [1, 3]] =
     Some (T', [None, None, Some [2], None, None, Some [4]])"
  using trie_refines_map [OF ex_empty_holds [of geth_ref],
      of "[KvUpdate [1] [2], KvUpdate [1, 3] [4], KvGet [1], KvDelete [1], KvGet [1], KvGet [1, 3]]"]
  by auto

text \<open>
  C16: History independence of the root hash. Two tries that were led by different operations to the same
  keys and values have the same root hash, whichever of their nodes are loaded or have a hash cached.
\<close>

theorem trie_root_history_independent:
  assumes "trie_holds L G T m" and "list_all trie_admits ops"
    and "trie_holds L G T' m'" and "list_all trie_admits ops'"
    and "foldl kv_apply m ops = foldl kv_apply m' ops'"
    and "kv_run (Get L) (Update L) (Delete L) T ops = Some (T1, vs)"
    and "kv_run (Get L) (Update L) (Delete L) T' ops' = Some (T2, vs')"
  shows "\<exists>T1' T2' h. Hash L G T1 = Some (T1', h) \<and> Hash L G T2 = Some (T2', h)"
proof -
  have "trie_holds L G T1 (foldl kv_apply m ops)" "trie_holds L G T2 (foldl kv_apply m ops)"
    using mpt.run_law [OF assms(1,2)] mpt.run_law [OF assms(3,4)] assms(5-7) by auto
  from Hash_contents [OF this] show ?thesis by (cases "Hash L G T1"; cases "Hash L G T2") auto
qed

theorem trie_root_history_independent_witness:
  "\<exists>T1 T2 T1' T2' vs vs' h.
     kv_run (Get rlp_ref) (Update rlp_ref) (Delete rlp_ref) ex_empty_trie [KvUpdate [1] [2], KvUpdate [3] [4]] = Some (T1, vs) \<and>
     kv_run (Get rlp_ref) (Update rlp_ref) (Delete rlp_ref) ex_empty_trie
       [KvUpdate [3] [4], KvUpdate [5] [6], KvUpdate [1] [2], KvDelete [5]] = Some (T2, vs') \<and>
     Hash rlp_ref geth_ref T1 = Some (T1', h) \<and> Hash rlp_ref geth_ref T2 = Some (T2', h)"
proof -
  let ?o1 = "[KvUpdate [1] [2], KvUpdate [3] [4]]"
  let ?o2 = "[KvUpdate [3] [4], KvUpdate [5] [6], KvUpdate [1] [2], KvDelete [5]]"
  have a: "list_all trie_admits ?o1" "list_all trie_admits ?o2" by simp_all
  have eq: "foldl kv_apply Map.empty ?o1 = foldl kv_apply Map.empty ?o2" by (auto simp: fun_eq_iff)
  obtain T1 T2 where r: "kv_run (Get rlp_ref) (Update rlp_ref) (Delete rlp_ref) ex_empty_trie ?o1 = Some (T1, kv_answers Map.empty ?o1)"
    "kv_run (Get rlp_ref) (Update rlp_ref) (Delete rlp_ref) ex_empty_trie ?o2 = Some (T2, kv_answers Map.empty ?o2)"
    using mpt.run_law [OF ex_empty_holds [of geth_ref] a(1)] mpt.run_law [OF ex_empty_holds [of geth_ref] a(2)] by blast
  from trie_root_history_independent [OF ex_empty_holds a(1) ex_empty_holds a(2) eq r] r show ?thesis by metis
qed

text \<open>
  C17: The root hash commits to the contents. If no two different encodings of nodes of two tries have the
  same hash and the tries have the same root, not that of the empty trie, every key has the same value in
  both.
\<close>

theorem trie_root_binds_contents:
  assumes "rlp_ok L" and "trie_tree L G T t" and "trie_tree L G T' t'" and "no_collision L G t t'"
    and "Hash L G T = Some (T1, h)" and "Hash L G T' = Some (T2, h)" and "h \<noteq> EmptyRootHash"
  shows "contents t = contents t'"
proof -
  have "h = root_of L G t" "h = root_of L G t'"
    using Hash_tree [OF assms(1,2)] Hash_tree [OF assms(1,3)] assms(5,6) by auto
  with assms(7) have "t \<noteq> PNil" "t' \<noteq> PNil" "root_of L G t = root_of L G t'" by (auto simp: root_of_def)
  with root_binds [OF assms(1-4)] show ?thesis by simp
qed

theorem trie_root_binds_contents_witness:
  "\<exists>T1 T2 h. Hash rlp_ref ex_const_geth ex_leaf_trie = Some (T1, h) \<and>
     Hash rlp_ref ex_const_geth (ex_leaf_trie\<lparr>t_unhashed := 100\<rparr>) = Some (T2, h) \<and> h \<noteq> EmptyRootHash \<and>
     no_collision rlp_ref ex_const_geth ex_tree ex_tree \<and> contents ex_tree = contents ex_tree"
proof -
  let ?T = "ex_leaf_trie\<lparr>t_unhashed := 100\<rparr>"
  have T: "trie_tree rlp_ref ex_const_geth ?T ex_tree"
    using ex_leaf_tree [of ex_const_geth] by (simp add: trie_tree_def trie_over_def)
  have nc: "no_collision rlp_ref ex_const_geth ex_tree ex_tree" by (simp add: no_collision_def ex_tree_def)
  obtain T1 T2 where h: "Hash rlp_ref ex_const_geth ex_leaf_trie = Some (T1, 7)" "Hash rlp_ref ex_const_geth ?T = Some (T2, 7)"
    using Hash_tree [OF rlp_ok_ref ex_leaf_tree [of ex_const_geth]] Hash_tree [OF rlp_ok_ref T]
    by (auto simp: root_of_def ex_tree_def ex_const_geth_def)
  have "(7 :: hash) \<noteq> EmptyRootHash" by (simp add: EmptyRootHash_def)
  with trie_root_binds_contents [OF rlp_ok_ref ex_leaf_tree T nc h] h nc show ?thesis by blast
qed

text \<open>
  C18: Commit and reopen. When the nodes that Commit collected are in the database beside what was there, New
  with the root hash that Commit returned opens a trie with the contents of the committed one.
\<close>

theorem commit_reopen:
  assumes "trie_holds L G T m" and "Commit L G T cl = Some (T', root, nodes)"
    and "newTrieReader (id_StateRoot i) (id_Owner i) db = Inr r'" and "updated_reader (t_reader T) nodes r'"
    and "id_Root i = root" and "m \<noteq> Map.empty \<longrightarrow> root \<noteq> 0 \<and> root \<noteq> EmptyRootHash"
  shows "\<exists>T2. trie_New L i db = Some (Inr T2) \<and> trie_holds L G T2 m"
  by (rule Commit_reopens [OF assms])

theorem commit_reopen_witness:
  "\<exists>T' nodes T2. Commit rlp_ref ex_const_geth ex_leaf_trie True = Some (T', 7, nodes) \<and>
     trie_New rlp_ref \<lparr>id_StateRoot = 7, id_Owner = 0, id_Root = 7\<rparr> (ex_written nodes) = Some (Inr T2) \<and>
     trie_holds rlp_ref ex_const_geth T2 (contents ex_tree) \<and> contents ex_tree [1] = Some [2]"
proof -
  have "root_of rlp_ref ex_const_geth ex_tree = 7" by (simp add: root_of_def ex_tree_def ex_const_geth_def)
  then obtain T' nodes where c: "Commit rlp_ref ex_const_geth ex_leaf_trie True = Some (T', 7, nodes)"
    using Commit_tree [OF rlp_ok_ref ex_leaf_tree [of ex_const_geth], of True] by auto
  have ne: "(7 :: hash) \<noteq> 0" "(7 :: hash) \<noteq> EmptyRootHash" by (simp_all add: EmptyRootHash_def)
  let ?i = "\<lparr>id_StateRoot = 7, id_Owner = 0, id_Root = 7\<rparr>"
  from ne have r: "newTrieReader (id_StateRoot ?i) (id_Owner ?i) (ex_written nodes) = Inr \<lparr>rd_owner = 0, rd_reader = Some (\<lambda>owner p h. case nodes of
       None \<Rightarrow> Inr []
     | Some ns \<Rightarrow> (case ns_Nodes ns p of
          None \<Rightarrow> Inr []
        | Some n \<Rightarrow> if tn_Hash n = h then Inr (tn_Blob n) else Inr [])), rd_banned = None\<rparr>"
    by (simp add: newTrieReader_def ex_written_def)
  from commit_reopen [OF ex_leaf_holds c r ex_written_reader] ne c ex_tree_contents show ?thesis by auto
qed

text \<open>
  C19: Lost nodes. When the database finds only some of the nodes of a trie, Get returns the value of the key or
  an error of the reader for a node that is missing, and Update makes the change or returns such an error
  and leaves the contents as they were; neither panics or answers wrongly.
\<close>

theorem lost_nodes_safe:
  assumes "rlp_ok L" and "trie_over L G R T t" and "length k < 2 ^ 14" and "length v < 2 ^ 31"
  shows "(\<exists>T1 res. Get L T k = Some (T1, res) \<and> trie_over L G R T1 t \<and>
      (case res of
         Inr w \<Rightarrow> w = contents t k
       | Inl e \<Rightarrow> \<exists>p h blob. reader_node R p h = Inr blob \<and> reader_node (t_reader T) p h = Inl e)) \<and>
    (\<exists>T2 err t'. Update L T k v = Some (T2, err) \<and> trie_over L G R T2 t' \<and>
      (case err of
         None \<Rightarrow> contents t' = (contents t)(k := if v = [] then None else Some v)
       | Some e \<Rightarrow> contents t' = contents t \<and>
           (\<exists>p h blob. reader_node R p h = Inr blob \<and> reader_node (t_reader T) p h = Inl e)))"
proof
  show "\<exists>T1 res. Get L T k = Some (T1, res) \<and> trie_over L G R T1 t \<and>
      (case res of
         Inr w \<Rightarrow> w = contents t k
       | Inl e \<Rightarrow> \<exists>p h blob. reader_node R p h = Inr blob \<and> reader_node (t_reader T) p h = Inl e)"
    using Get_over [OF assms(1,2), of k] unfolding lost_def by blast
  let ?t = "if v = [] then pdelete t (keybytesToHex k) else pinsert t (keybytesToHex k) v"
  have "written L G R T t ?t (Update L T k v)" using assms by (intro Update_over) simp_all
  then obtain T2 err where u: "Update L T k v = Some (T2, err)"
    "case err of Some e \<Rightarrow> lost R (t_reader T) e \<and> trie_over L G R T2 t | None \<Rightarrow> trie_over L G R T2 ?t"
    unfolding written_def by blast
  have "contents ?t = (contents t)(k := if v = [] then None else Some v)"
    using assms(2-4) pdelete_keeps [of t k] pinsert_keeps [of t k v] by (auto simp: trie_over_def)
  with u show "\<exists>T2 err t'. Update L T k v = Some (T2, err) \<and> trie_over L G R T2 t' \<and>
      (case err of
         None \<Rightarrow> contents t' = (contents t)(k := if v = [] then None else Some v)
       | Some e \<Rightarrow> contents t' = contents t \<and>
           (\<exists>p h blob. reader_node R p h = Inr blob \<and> reader_node (t_reader T) p h = Inl e))"
    unfolding lost_def by (cases err) auto
qed

theorem lost_nodes_safe_witness:
  "\<exists>T1 res. Get rlp_ref ex_lost_trie [1] = Some (T1, res) \<and>
     (case res of Inr w \<Rightarrow> w = Some [2] | Inl e \<Rightarrow> \<exists>p h. reader_node (t_reader ex_lost_trie) p h = Inl e)"
proof -
  have "length [1 :: byte] < 2 ^ 14" "length [3 :: byte] < 2 ^ 31" by simp_all
  from lost_nodes_safe [OF rlp_ok_ref ex_lost_over this] show ?thesis
    unfolding ex_tree_contents by (fastforce split: sum.splits)
qed

text \<open>
  C20: The shape of the nodes. After any sequence of operations the nodes in memory are as node.go describes
  them: a short node with a terminated key holds a value and any other leads to a full node or its hash,
  a full node has seventeen children, two at least not nil and a value only as the last, hashes have 32
  bytes and no value is empty.
\<close>

theorem trie_node_shape:
  assumes "trie_holds L G T m" and "list_all trie_admits ops"
    and "kv_run (Get L) (Update L) (Delete L) T ops = Some (T', vs)"
  shows "node_ok (t_root T')"
  using mpt.run_law [OF assms(1,2)] assms(3) holds_node_ok by auto

theorem trie_node_shape_witness:
  "\<exists>T' vs. kv_run (Get rlp_ref) (Update rlp_ref) (Delete rlp_ref) ex_empty_trie
       [KvUpdate [1] [2], KvUpdate [1, 3] [4], KvUpdate [17] [5], KvDelete [1]] = Some (T', vs) \<and> node_ok (t_root T')"
proof -
  let ?ops = "[KvUpdate [1] [2], KvUpdate [1, 3] [4], KvUpdate [17] [5], KvDelete [1]]"
  have a: "list_all trie_admits ?ops" by simp
  from mpt.run_law [OF ex_empty_holds [of geth_ref] a] obtain T' where
    "kv_run (Get rlp_ref) (Update rlp_ref) (Delete rlp_ref) ex_empty_trie ?ops = Some (T', kv_answers Map.empty ?ops)" by blast
  with trie_node_shape [OF ex_empty_holds a this] show ?thesis by blast
qed

text \<open>
  C21: The compact encoding of keys. hexToCompactInPlace, which writes over the buffer it reads, agrees with
  hexToCompact, and compactToHex is the inverse of both.
\<close>

theorem compact_encoding:
  assumes "hex_key h" and "h \<noteq> []"
  shows "\<exists>c. hexToCompactInPlace h = Some c \<and> hexToCompact h = Some c \<and> compactToHex c = h"
  using hexToCompactInPlace_eq [OF assms] compactToHex_hexToCompact [OF assms(1)] by auto

theorem compact_encoding_witness:
  "\<exists>c. hexToCompactInPlace [1, 2, 3, 16] = Some c \<and> hexToCompact [1, 2, 3, 16] = Some c \<and> compactToHex c = [1, 2, 3, 16]"
proof -
  have "hex_key [1, 2, 3, 16]" unfolding hex_key_def by (intro disjI2 exI [of _ "[1, 2, 3]"]) simp
  from compact_encoding [OF this] show ?thesis by simp
qed

text \<open>
  C22: Code analysis. For every code codeBitmap stays within its bit vector, and the vector marks exactly the
  bytes that follow a PUSH instruction as its data: codeSegment agrees with the reference that reads the code
  from the start.
\<close>

theorem jump_analysis:
  "\<exists>bits. codeBitmap code = Some bits \<and>
     map (codeSegment bits) [0..<length code] = map (\<lambda>data. Some (\<not> data)) (dataMap 0 code)"
  by (rule codeBitmap_table)

text \<open>
  C23: Predicates. What a transaction packs into the storage keys of its access list, the node unpacks again,
  whatever bytes the predicate has, trailing zeroes included.
\<close>

theorem predicate_roundtrip:
  assumes "geth_ok G"
  shows "UnpackPredicate G (HashSliceToBytes (BytesToHashSlice (PackPredicate G bs))) = Inr bs"
  by (simp add: HashSlice_roundtrip PackPredicate_words Unpack_Pack assms)

theorem predicate_roundtrip_witness:
  "UnpackPredicate geth_ref (HashSliceToBytes (BytesToHashSlice (PackPredicate geth_ref [1, 0, 0]))) = Inr [1, 0, 0]"
  using predicate_roundtrip [OF geth_ok_ref, of "[1, 0, 0]"] by simp

text \<open>
  C24: The gas window along a chain. In the newest header of a verified chain the window in the extra data
  sums to the gas used in the ten seconds before, saturating at the largest 64-bit number, for times below 2^60.
\<close>

theorem window_counts_gas:
  assumes "geth_ok G" and "verified_chain G eng chain hs" and "tl hs \<noteq> []"
    and "unat (hdr_Time (hd hs)) < 2 ^ 60"
  shows "sumLongWindow G (take 80 (hdr_Extra (hd hs))) 10 =
    Some (of_nat (min (2 ^ 64 - 1) (\<Sum>i<10. gas_at (gas_history hs) i)))"
proof -
  have "rolling_window window_wf window_slot (replicate 80 0) (window_step G) (window_total G)"
    by (rule rolling_window_bytes) fact
  from rolling_window.run_total [OF this] verified_chain_window [OF assms]
  show ?thesis by (auto simp: window_total_def sat_def RollupWindow_def min.commute)
qed

theorem window_counts_gas_witness:
  "sumLongWindow geth_ref (take 80 (hdr_Extra ex_block2)) 10 = Some 21000"
proof -
  have "gas_history [ex_block2, ex_block1, ex_genesis] = [(1, 21000)]" "unat (hdr_Time ex_block2) < 2 ^ 60"
    by (simp_all add: ex_block2_def ex_block1_def ex_genesis_def)
  then show ?thesis
    using window_counts_gas [OF geth_ok_ref ex_verified_chain]
    by (simp add: ex_gas del: gas_at.simps gas_history.simps)
qed

text \<open>
  C25: CalcBaseFee computes the closed formula of the base fee: the parent's fee moves by its share of the
  distance between the gas in the rolled window and the target, by at least one, falls once per window
  that has passed without a block, and never below the minimum of the fee configuration.
\<close>

theorem base_fee_rule:
  assumes "geth_ok G" and "can_price config parent timestamp" and "FeeConfig_Verify fc = None"
    and "fc_TargetGas fc = Some T" "T < 2 ^ 64" and "hdr_BaseFee parent = Some b"
  shows "\<exists>w gas d m. window_step G (take 80 (hdr_Extra parent)) (timestamp - hdr_Time parent)
        (hdr_GasUsed parent) = Some w \<and> window_total G w = Some gas \<and>
      fc_BaseFeeChangeDenominator fc = Some d \<and> fc_MinBaseFee fc = Some m \<and>
      CalcBaseFee G config fc parent timestamp =
        Some (Inr (w, Some (base_fee_spec m d T b (uint gas) (uint (timestamp - hdr_Time parent)))))"
proof -
  obtain m T' d where f: "fc_MinBaseFee fc = Some m" "fc_TargetGas fc = Some T'" "0 < T'"
    "fc_BaseFeeChangeDenominator fc = Some d" "0 < d"
    using assms(3) by (auto simp: FeeConfig_Verify_iff_ok elim: fee_config_okD)
  obtain w gas where "window_step G (take 80 (hdr_Extra parent)) (timestamp - hdr_Time parent)
      (hdr_GasUsed parent) = Some w" "window_total G w = Some gas"
    using can_price_window [OF assms(1,2)] by metis
  with CalcBaseFee_eq [OF assms(1,2,6,4) _ assms(5) f(4,5,1)] f assms(4) show ?thesis by auto
qed

theorem base_fee_rule_witness:
  "\<exists>w. CalcBaseFee geth_ref ex_config DefaultFeeConfig ex_block1 6 =
     Some (Inr (w, Some (base_fee_spec 25000000000 36 15000000 25000000000 21000 1)))"
proof -
  have "can_price ex_config ex_block1 6" "fc_TargetGas DefaultFeeConfig = Some 15000000"
    "hdr_BaseFee ex_block1 = Some 25000000000"
    by (simp_all add: can_price_def ex_block1_def ex_genesis_def DefaultFeeConfig_def)
  with base_fee_rule [OF geth_ok_ref _ DefaultFeeConfig_ok, of ex_config ex_block1 6 15000000 25000000000]
  show ?thesis
    by (auto simp: ex_window_step ex_window_total ex_block1_def ex_genesis_def DefaultFeeConfig_def)
qed





text \<open>
  C28: The block fee. Unless the consensus mode skips it, verifyBlockFee accepts exactly when the base fee is positive,
  the required cost is a 64-bit number, every transaction with a receipt caps its fee at the base fee or above, and
  the tips paid cover the required block gas cost at the base fee.
\<close>

theorem verifyBlockFee_pays:
  assumes "\<not> ModeSkipBlockFee (eng_consensusMode eng)"
  shows "(verifyBlockFee G eng baseFee required txs receipts :: 'e consensus_error option option) = Some None \<longleftrightarrow>
    (\<exists>b c. baseFee = Some b \<and> 0 < b \<and> required = Some c \<and> big_IsUint64 c \<and>
       length receipts \<le> length txs \<and> (\<forall>tx \<in> set (take (length receipts) txs). b \<le> tx_GasFeeCap tx) \<and>
       c * b \<le> tips_paid G b txs receipts)"
  using assms by (rule verifyBlockFee_accepts)

theorem verifyBlockFee_pays_witness:
  "(verifyBlockFee geth_ref ex_engine (Some 1) (Some 0) ([] :: unit Transaction list) [] :: unit consensus_error option option) =
     Some None"
proof -
  have "\<not> ModeSkipBlockFee (eng_consensusMode ex_engine)" by (simp add: ex_engine_def)
  from verifyBlockFee_pays [OF this, of geth_ref "Some 1" "Some 0" "[] :: unit Transaction list" "[]"]
  show ?thesis by (simp add: tips_paid_def big_IsUint64_def)
qed

text \<open>
  C29: A block that the producer assembles with FinalizeAndAssemble passes Finalize on the nodes that verify
  it, given the same parent and receipts.
\<close>

theorem assembled_block_finalizes:
  fixes chain :: "'e ChainHeaderReader"
  assumes "FinalizeAndAssemble G hasher eng chain header parent root txs uncles receipts = Some (Inr block)"
    and "\<not> ModeSkipBlockFee (eng_consensusMode eng)"
  shows "Finalize G eng chain block parent receipts = Some None"
  using assms by (rule FinalizeAndAssemble_Finalize)

theorem assembled_block_finalizes_witness:
  "\<exists>block. FinalizeAndAssemble geth_ref ex_hasher ex_engine ex_chain (ex_block1\<lparr>hdr_Time := 2\<rparr>) ex_genesis (\<lambda>_. 0) [] [] [] =
       Some (Inr block) \<and>
     Finalize geth_ref ex_engine ex_chain block ex_genesis [] = Some None"
proof -
  obtain block where b: "FinalizeAndAssemble geth_ref ex_hasher ex_engine ex_chain (ex_block1\<lparr>hdr_Time := 2\<rparr>) ex_genesis
      (\<lambda>_. 0) [] [] [] = Some (Inr block)"
    by (simp add: FinalizeAndAssemble_def Let_def verifyBlockFee_def calcBlockGasCost_def selectBigWithinBounds_def
        big_IsUint64_def big_Div_def ex_defs)
  moreover have "\<not> ModeSkipBlockFee (eng_consensusMode ex_engine)" by (simp add: ex_engine_def)
  ultimately show ?thesis using assembled_block_finalizes [OF b] by blast
qed

text \<open>
  C30: CheckCompatible. If the stored configuration schedules Petersburg with Constantinople and both have the same
  genesis precompiles, then a configuration that is accepted at a head gives all blocks up to the head the Ethereum
  rules and the Avalanche rules they were executed under. The active precompile configurations, and one by one
  the state upgrades activated so far, agree as far as their Equal methods compare them.
\<close>

theorem CheckCompatible_sound:
  fixes mods :: "('c, 'f) Module list"
  assumes "CheckCompatible mods c newcfg height time = None"
    and "cc_PetersburgBlock c = cc_ConstantinopleBlock c"
    and "cc_GenesisPrecompiles newcfg = cc_GenesisPrecompiles c"
    and "n \<le> uint height" "t \<le> time" "module \<in> set mods"
  shows "eth_rules c (Some n) t = eth_rules newcfg (Some n) t \<and>
    GetAvalancheRules (cc_NetworkUpgrades c) t = GetAvalancheRules (cc_NetworkUpgrades newcfg) t \<and>
    rel_option Config_Equal (getActivePrecompileConfig mods c (mod_Address module) t)
      (getActivePrecompileConfig mods newcfg (mod_Address module) t) \<and>
    list_all2 StateUpgrade_Equal (GetActivatingStateUpgrades None t (cc_StateUpgrades c))
      (GetActivatingStateUpgrades None t (cc_StateUpgrades newcfg))"
proof -
  from assms(1) have c: "checkCompatible mods c newcfg (Some (uint height)) time = None"
    by (simp add: CheckCompatible_None_iff)
  from checkCompatible_eth_rules [OF c assms(4,5,2)] checkCompatible_avalanche_rules [OF c assms(5)]
    checkCompatible_active [OF c assms(6,5,3)] checkCompatible_state_upgrades [OF c assms(5)]
  show ?thesis by blast
qed

theorem CheckCompatible_sound_witness:
  "CheckCompatible ex_modules ex_config ex_config2 100 100 = None \<and>
   GetAvalancheRules (cc_NetworkUpgrades ex_config) 50 = GetAvalancheRules (cc_NetworkUpgrades ex_config2) 50"
  using CheckCompatible_sound [OF ex_compatible, of 50 50 "hd ex_modules"] ex_compatible
  by (simp add: ex_config2_def ex_modules_def ex_config_def)

text \<open>
  C31: What the error of CheckCompatible says, for schedules of upgrades that verify, over the same genesis
  precompiles, and a stored Petersburg block not before Constantinople. It bounds the compatible points: a height and
  a time without a conflict lie at or below the time it rewinds to, or if that is zero at or below the block,
  or if both are zero at block zero or time zero. It rewinds low enough: at a block above zero that it rewinds to
  there is no conflict under the time of the head, and at a time above zero there is none at any height at
  which no fork by block number conflicts.
\<close>

theorem CheckCompatible_rewind:
  assumes "CheckCompatible mods c newcfg height time = Some e"
    and "petersburg_after c" and "schedules_ok c newcfg"
  shows "(\<forall>h t. checkCompatible mods c newcfg (Some (uint (h :: u64))) t = None \<longrightarrow>
       (if 0 < RewindToTime e then t \<le> RewindToTime e
        else if 0 < RewindToBlock e then h \<le> RewindToBlock e else h = 0 \<or> t = 0)) \<and>
    (0 < RewindToBlock e \<longrightarrow> RewindToTime e = 0 \<and> RewindToBlock e < height \<and>
       checkCompatible mods c newcfg (Some (uint (RewindToBlock e))) time = None) \<and>
    (0 < RewindToTime e \<longrightarrow> RewindToBlock e = 0 \<and> RewindToTime e < time \<and>
       (\<forall>h. blockConflict c newcfg (Some h) = None \<longrightarrow>
          checkCompatible mods c newcfg (Some h) (RewindToTime e) = None))"
  using CheckCompatible_rewinds [OF assms]
  by (simp add: bounds_compatible_def checkCompatible_None_parts)

theorem CheckCompatible_rewind_witness:
  "\<exists>e. CheckCompatible ex_modules (ex_forks 5 100) (ex_forks 5 101) 100 200 = Some e \<and> RewindToTime e = 99 \<and>
     checkCompatible ex_modules (ex_forks 5 100) (ex_forks 5 101) (Some 100) 99 = None \<and>
     checkCompatible ex_modules (ex_forks 5 100) (ex_forks 5 101) (Some 100) 100 \<noteq> None"
proof -
  have b: "blockConflict (ex_forks 5 100) (ex_forks 5 101) (Some 100) = None"
    using ex_forks_check [of 5 100 5 101 100 0] by (simp add: checkCompatible_None_parts isForkBlockIncompatible_def
        isForkTimestampIncompatible_def)
  note w = CheckCompatible_rewind [OF ex_time_conflict ex_forks_schedules(2,1), unfolded ex_forks_error]
  from w b have "checkCompatible ex_modules (ex_forks 5 100) (ex_forks 5 101) (Some 100) 99 = None" by simp
  moreover from w [THEN conjunct1, THEN spec [of _ 100], THEN spec [of _ 100]]
  have "checkCompatible ex_modules (ex_forks 5 100) (ex_forks 5 101) (Some 100) 100 \<noteq> None" by simp
  ultimately show ?thesis using ex_time_conflict ex_forks_error(1) by auto
qed

text \<open>
  C32: verifyPrecompileUpgrades accepts exactly the upgrade schedules in which every configuration verifies,
  the timestamps do not decrease, and the upgrades of each precompile have increasing timestamps and
  alternate between enabling and disabling, starting with enabling.
\<close>

theorem precompile_upgrades_accepted:
  assumes "distinct (map fst (cc_GenesisPrecompiles c))"
  shows "verifyPrecompileUpgrades c = None \<longleftrightarrow>
    (\<forall>(key, config) \<in> set (cc_GenesisPrecompiles c). Config_Verify config (ChainConfig_view c) = None) \<and>
    (\<forall>u \<in> set (cc_PrecompileUpgrades c). Config_Verify u (ChainConfig_view c) = None) \<and>
    timestamps_mono None (cc_PrecompileUpgrades c) \<and>
    (\<forall>key. alternates (genesis_upgrade c key) (of_key key (cc_PrecompileUpgrades c)))"
  using assms by (rule verifyPrecompileUpgrades_iff)

theorem precompile_upgrades_accepted_witness:
  "verifyPrecompileUpgrades ex_config2 = None \<longleftrightarrow>
    (\<forall>u \<in> set (cc_PrecompileUpgrades ex_config2). Config_Verify u (ChainConfig_view ex_config2) = None) \<and>
    timestamps_mono None (cc_PrecompileUpgrades ex_config2) \<and>
    (\<forall>key. alternates (genesis_upgrade ex_config2 key) (of_key key (cc_PrecompileUpgrades ex_config2)))"
  using precompile_upgrades_accepted [of ex_config2] by (simp add: ex_config2_def ex_config_def)

text \<open>
  C33: The upgrades of a precompile that GetActivatingPrecompileConfigs reports block by block along a chain
  are, put together, the upgrades of the whole interval in order: whatever the block times, none is
  skipped and none is applied twice.
\<close>

theorem upgrades_activate_once:
  assumes "distinct (map fst (cc_GenesisPrecompiles c))" and "verifyPrecompileUpgrades c = None"
    and "sorted (t # ts)"
  shows "chain_activations mods c addr None (t # ts) =
    GetActivatingPrecompileConfigs mods c addr None (last (t # ts)) (cc_PrecompileUpgrades c)"
  using chain_activations_whole [of c t ts None mods addr] verifyPrecompileUpgrades_iff [OF assms(1)] assms
  by blast

theorem upgrades_activate_once_witness:
  "chain_activations ex_modules ex_config2 txAllowList_ContractAddress None [0, 150, 250] =
    GetActivatingPrecompileConfigs ex_modules ex_config2 txAllowList_ContractAddress None 250
      (cc_PrecompileUpgrades ex_config2)"
proof -
  have "distinct (map fst (cc_GenesisPrecompiles ex_config2))" "sorted [0, 150, 250 :: u64]"
    by (simp_all add: ex_config2_def ex_config_def)
  with upgrades_activate_once [OF _ ex_config2_verifies, of 0 "[150, 250]" ex_modules txAllowList_ContractAddress]
  show ?thesis by simp
qed

text \<open>
  C34: The bloom filter of a block has no false negatives: the address and each topic of every log of its
  receipts test positive.
\<close>

theorem CreateBloom_complete:
  assumes "r \<in> set receipts" and "log \<in> set (rc_Logs r)" and "t \<in> log_keys log"
  shows "Bloom_Test G (CreateBloom G receipts) t"
  using assms by (rule CreateBloom_found)

theorem CreateBloom_complete_witness:
  "Bloom_Test geth_ref (CreateBloom geth_ref [ex_receipt]) (be_bytes 32 7)"
proof (rule CreateBloom_complete)
  show "ex_receipt \<in> set [ex_receipt]" "ex_log \<in> set (rc_Logs ex_receipt)" "be_bytes 32 7 \<in> log_keys ex_log"
    by (simp_all add: ex_receipt_def ex_log_def log_keys_def)
qed

text \<open>
  C35: The module registry: a registration that succeeds keeps the registry sorted by address, with unique
  addresses and configuration keys inside the reserved ranges, and adds just the new module.
\<close>

theorem RegisterModule_invariant:
  assumes "registry_inv ms" and "RegisterModule stm ms = Inr ms'"
  shows "registry_inv ms' \<and> set ms' = insert stm (set ms)"
  using assms by (rule RegisterModule_inv)

theorem RegisterModule_invariant_witness:
  "registry_inv ex_modules"
proof -
  have "RegisterModule (hd ex_modules) [] = Inr ex_modules"
    by (simp add: ex_modules_def RegisterModule_def BlackholeAddr_def ReservedAddress_def reservedRanges_def
        AddressRange_Contains_def txAllowList_ContractAddress_def insertSortedByAddress_def)
  from RegisterModule_invariant [OF registry_inv_Nil this] show ?thesis by simp
qed

text \<open>
  C36: FeeConfig.Verify accepts exactly the configurations whose numbers are all present, within 32 bytes,
  positive or non-negative as their meaning asks, with the minimum block gas cost at most the maximum.
\<close>

theorem FeeConfig_Verify_correct: "FeeConfig_Verify f = None \<longleftrightarrow> fee_config_ok f"
  by (rule FeeConfig_Verify_iff_ok)

text \<open>
  C37: AllowListConfig.Verify accepts exactly the allow lists in which no address is listed twice, neither in one of
  the three lists nor in two of them, and which name no manager if the upgrade has a timestamp at which Durango is
  not active. For an upgrade without a timestamp managers are accepted without this check.
\<close>

theorem AllowListConfig_Verify_correct:
  "AllowListConfig_Verify c cc u = None \<longleftrightarrow>
     distinct (alc_EnabledAddresses c @ alc_AdminAddresses c @ alc_ManagerAddresses c) \<and>
     (alc_ManagerAddresses c = [] \<or> (case up_BlockTimestamp u of None \<Rightarrow> True | Some t \<Rightarrow> ccv_IsDurango cc t))"
  by (auto simp: AllowListConfig_Verify_iff split: option.split)

text \<open>
  C38: CalcBlobFee is defined for every excess blob gas (the loop of fakeExponential ends), is at least the
  minimum blob gas price and does not fall when the excess grows.
\<close>

theorem blob_fee_total:
  "\<exists>f g. CalcBlobFee x = Some f \<and> CalcBlobFee (max x y) = Some g \<and> minBlobGasPrice \<le> f \<and> f \<le> g"
proof -
  obtain f where f: "CalcBlobFee x = Some f" "minBlobGasPrice \<le> f" by (rule CalcBlobFee_ok)
  obtain g where g: "CalcBlobFee (max x y) = Some g" by (rule CalcBlobFee_ok)
  from CalcBlobFee_mono [OF _ f(1) g] f g show ?thesis by simp
qed

text \<open>
  C39: The byte offset of rollWindow is a 64-bit product that wraps: rolling a full window by 2^61 seconds,
  which should empty it, leaves it as it was.
\<close>

theorem rollLongWindow_overflow:
  assumes "length w = 80"
  shows "rollLongWindow w (2 ^ 61) = Some (Inr w)"
  using assms by (rule rollLongWindow_wraps)

theorem rollLongWindow_overflow_witness: "rollLongWindow ex_window (2 ^ 61) = Some (Inr ex_window)"
  by (rule rollLongWindow_overflow) simp

text \<open>
  C40: Equal of the reward manager's configuration: with no initial reward configuration of its own, the
  configuration equals one that has one, and not the other way round.
\<close>

theorem rewardManager_Equal_asymmetric:
  assumes "rm_InitialRewardConfig c = None" and "d = c\<lparr>rm_InitialRewardConfig := Some r\<rparr>"
  shows "rewardManager_Equal c (RewardManager d) \<and> \<not> rewardManager_Equal d (RewardManager c)"
  using assms by (simp add: rewardManager_Equal_iff)

theorem rewardManager_Equal_asymmetric_witness:
  "rewardManager_Equal ex_reward_config (RewardManager (ex_reward_config\<lparr>rm_InitialRewardConfig := Some \<lparr>ir_AllowFeeRecipients = True, ir_RewardAddress = 0\<rparr>\<rparr>)) \<and>
   \<not> rewardManager_Equal (ex_reward_config\<lparr>rm_InitialRewardConfig := Some \<lparr>ir_AllowFeeRecipients = True, ir_RewardAddress = 0\<rparr>\<rparr>) (RewardManager ex_reward_config)"
  by (rule rewardManager_Equal_asymmetric) (simp_all add: ex_reward_config_def rewardManager_NewConfig_def)

end
